(* ===== verification/Prelude.thy ===== *)
theory Prelude
  imports Main "HOL-Library.Word"
begin

text \<open>
  Shared vocabulary of the development: the machine types of the Rust sources, the
  \<open>Result\<close> type with its \<open>?\<close> operator, byte strings, lower-case hexadecimal text,
  big-endian integers and UTF-8 validity, with the lemmas every component uses.

  A Rust \<open>Vec<u8>\<close> or \<open>[u8; N]\<close> is a \<open>bytes\<close> value; a fixed width is a length
  condition.  A Rust \<open>String\<close> or \<open>&str\<close> is a HOL \<open>string\<close> whose characters are its
  UTF-8 bytes, so \<open>length\<close> is \<open>str::len\<close>.
\<close>

subsection \<open>Machine types\<close>

type_synonym byte = "8 word"
type_synonym bytes = "byte list"
type_synonym u16 = "16 word"
type_synonym u32 = "32 word"
type_synonym u64 = "64 word"

subsection \<open>Results and the question-mark operator\<close>

text \<open>
  \<open>Result<T, E>\<close> is a sum: \<open>Inl\<close> an error, \<open>Inr\<close> a value.  \<open>bindE\<close> is \<open>?\<close>
  followed by the rest of the function; \<open>failIf\<close> is \<open>if c { return Err(e) }\<close>;
  \<open>okOr\<close> is \<open>ok_or\<close> (and \<open>map_err(|_| e)\<close> on a call that reports no detail);
  \<open>mapErr\<close> is \<open>map_err\<close>.
\<close>

type_synonym ('e, 'a) result = "'e + 'a"

definition bindE :: "('e, 'a) result \<Rightarrow> ('a \<Rightarrow> ('e, 'b) result) \<Rightarrow> ('e, 'b) result" where
  "bindE m f = (case m of Inl e \<Rightarrow> Inl e | Inr x \<Rightarrow> f x)"

definition failIf :: "bool \<Rightarrow> 'e \<Rightarrow> ('e, unit) result" where
  "failIf c e = (if c then Inl e else Inr ())"

definition okOr :: "'e \<Rightarrow> 'a option \<Rightarrow> ('e, 'a) result" where
  "okOr e m = (case m of None \<Rightarrow> Inl e | Some x \<Rightarrow> Inr x)"

definition mapErr :: "('e \<Rightarrow> 'f) \<Rightarrow> ('e, 'a) result \<Rightarrow> ('f, 'a) result" where
  "mapErr g m = (case m of Inl e \<Rightarrow> Inl (g e) | Inr x \<Rightarrow> Inr x)"

text \<open>\<open>iter().map(f).collect::<Result<Vec<_>, _>>()\<close>: the first error wins.\<close>

fun traverseE :: "('a \<Rightarrow> ('e, 'b) result) \<Rightarrow> 'a list \<Rightarrow> ('e, 'b list) result" where
  "traverseE f [] = Inr []"
| "traverseE f (x # xs) = bindE (f x) (\<lambda>y. bindE (traverseE f xs) (\<lambda>ys. Inr (y # ys)))"

definition isOk :: "('e, 'a) result \<Rightarrow> bool" where
  "isOk m = (case m of Inl _ \<Rightarrow> False | Inr _ \<Rightarrow> True)"

named_theorems result_iff \<open>when a result computation succeeds or fails\<close>

lemma bindE_simps [simp]:
  "bindE (Inl e) f = Inl e"
  "bindE (Inr x) f = f x"
  by (simp_all add: bindE_def)

lemma bindE_assoc: "bindE (bindE m f) g = bindE m (\<lambda>x. bindE (f x) g)"
  by (simp add: bindE_def split: sum.splits)

lemma bindE_cong [fundef_cong]:
  "m = m' \<Longrightarrow> (\<And>x. m' = Inr x \<Longrightarrow> f x = f' x) \<Longrightarrow> bindE m f = bindE m' f'"
  by (simp add: bindE_def split: sum.splits)

lemma bindE_Inr_iff [result_iff]: "bindE m f = Inr y \<longleftrightarrow> (\<exists>x. m = Inr x \<and> f x = Inr y)"
  by (simp add: bindE_def split: sum.splits)

lemma bindE_Inl_iff:
  "bindE m f = Inl e \<longleftrightarrow> m = Inl e \<or> (\<exists>x. m = Inr x \<and> f x = Inl e)"
  by (auto simp: bindE_def split: sum.splits)

lemma failIf_simps [simp]: "failIf True e = Inl e" "failIf False e = Inr ()"
  by (simp_all add: failIf_def)

lemma failIf_Inr_iff [result_iff]: "failIf c e = Inr u \<longleftrightarrow> \<not> c"
  by (simp add: failIf_def)

lemma failIf_Inl_iff: "failIf c e = Inl e' \<longleftrightarrow> c \<and> e' = e"
  by (auto simp: failIf_def)

lemma okOr_simps [simp]: "okOr e None = Inl e" "okOr e (Some x) = Inr x"
  by (simp_all add: okOr_def)

lemma okOr_Inr_iff [result_iff]: "okOr e m = Inr x \<longleftrightarrow> m = Some x"
  by (simp add: okOr_def split: option.splits)

lemma okOr_Inl_iff: "okOr e m = Inl e' \<longleftrightarrow> m = None \<and> e' = e"
  by (auto simp: okOr_def split: option.splits)

lemma mapErr_simps [simp]: "mapErr g (Inl e) = Inl (g e)" "mapErr g (Inr x) = Inr x"
  by (simp_all add: mapErr_def)

lemma mapErr_Inr_iff [result_iff]: "mapErr g m = Inr x \<longleftrightarrow> m = Inr x"
  by (simp add: mapErr_def split: sum.splits)

lemma mapErr_Inl_iff: "mapErr g m = Inl e' \<longleftrightarrow> (\<exists>e. m = Inl e \<and> e' = g e)"
  by (auto simp: mapErr_def split: sum.splits)

lemma isOk_simps [simp]: "isOk (Inl e) = False" "isOk (Inr x) = True"
  by (simp_all add: isOk_def)

lemma isOk_iff: "isOk m \<longleftrightarrow> (\<exists>x. m = Inr x)"
  by (cases m) simp_all

lemma if_Inl_iff [result_iff]: "(if c then Inl e else m) = Inr x \<longleftrightarrow> \<not> c \<and> m = Inr x"
  by simp

lemma traverseE_Inr_length: "traverseE f xs = Inr ys \<Longrightarrow> length ys = length xs"
  by (induction xs arbitrary: ys) (auto simp: result_iff)

lemma traverseE_Inr_iff:
  "traverseE f xs = Inr ys \<longleftrightarrow> list_all2 (\<lambda>x y. f x = Inr y) xs ys"
  by (induction xs arbitrary: ys) (auto simp: result_iff list_all2_Cons1)

lemma traverseE_map_Inr:
  "(\<And>x. x \<in> set xs \<Longrightarrow> f x = Inr (g x)) \<Longrightarrow> traverseE f xs = Inr (map g xs)"
  by (induction xs) simp_all

subsection \<open>Text as bytes\<close>

text \<open>\<open>as_bytes\<close> of a string and the byte-string literals \<open>b"..."\<close>.\<close>

definition str_bytes :: "string \<Rightarrow> bytes" where
  "str_bytes s = map of_char s"

definition bytes_str :: "bytes \<Rightarrow> string" where
  "bytes_str b = map (\<lambda>w. char_of (unat w)) b"

lemma of_char_less_256: "(of_char c :: nat) < 256"
proof -
  have "(of_char c :: nat) = of_char c mod 256" by simp
  then show ?thesis by (metis mod_less_divisor zero_less_numeral)
qed

lemma unat_of_char [simp]: "unat (of_char c :: byte) = of_char c"
proof -
  have "(of_char c :: byte) = of_nat (of_char c)" by (simp add: of_nat_of_char)
  then have "unat (of_char c :: byte) = of_char c mod 256" by (simp add: unsigned_of_nat take_bit_eq_mod)
  then show ?thesis by simp
qed

lemma bytes_str_str_bytes [simp]: "bytes_str (str_bytes s) = s"
  by (induction s) (simp_all add: bytes_str_def str_bytes_def)

lemma length_str_bytes [simp]: "length (str_bytes s) = length s"
  by (simp add: str_bytes_def)

lemma length_bytes_str [simp]: "length (bytes_str b) = length b"
  by (simp add: bytes_str_def)

lemma inj_str_bytes: "str_bytes s = str_bytes t \<Longrightarrow> s = t"
  by (metis bytes_str_str_bytes)

lemma str_bytes_append [simp]: "str_bytes (s @ t) = str_bytes s @ str_bytes t"
  by (simp add: str_bytes_def)

lemma str_bytes_eq_iff [simp]: "str_bytes s = str_bytes t \<longleftrightarrow> s = t"
  using inj_str_bytes by blast

lemma str_bytes_Nil [simp]: "str_bytes [] = []" "str_bytes s = [] \<longleftrightarrow> s = []"
  by (simp_all add: str_bytes_def)

text \<open>\<open>str::from_utf8\<close>: the well-formed byte sequences of RFC 3629 (no overlong forms, no
  surrogates, nothing above U+10FFFF).\<close>

definition utf8_cont :: "nat \<Rightarrow> bool" where
  "utf8_cont b \<longleftrightarrow> 128 \<le> b \<and> b < 192"

fun utf8_codes :: "nat list \<Rightarrow> bool" where
  "utf8_codes [] = True"
| "utf8_codes (a # xs) =
     (if a < 128 then utf8_codes xs
      else case xs of [] \<Rightarrow> False
      | b # ys \<Rightarrow>
          if 194 \<le> a \<and> a < 224 then utf8_cont b \<and> utf8_codes ys
          else case ys of [] \<Rightarrow> False
          | c # zs \<Rightarrow>
              if 224 \<le> a \<and> a < 240
              then utf8_cont b \<and> utf8_cont c \<and> (a = 224 \<longrightarrow> 160 \<le> b) \<and> (a = 237 \<longrightarrow> b < 160) \<and>
                   utf8_codes zs
              else case zs of [] \<Rightarrow> False
              | d # ws \<Rightarrow>
                  240 \<le> a \<and> a < 245 \<and> utf8_cont b \<and> utf8_cont c \<and> utf8_cont d \<and>
                  (a = 240 \<longrightarrow> 144 \<le> b) \<and> (a = 244 \<longrightarrow> b < 144) \<and> utf8_codes ws)"

definition utf8_valid :: "string \<Rightarrow> bool" where
  "utf8_valid s = utf8_codes (map of_char s)"

definition is_ascii :: "string \<Rightarrow> bool" where
  "is_ascii s = list_all (\<lambda>c. (of_char c :: nat) < 128) s"

lemma ascii_utf8_valid: "is_ascii s \<Longrightarrow> utf8_valid s"
  by (induction s) (simp_all add: is_ascii_def utf8_valid_def)

text \<open>\<open>to_ascii_lowercase\<close> and \<open>to_ascii_uppercase\<close>.\<close>

definition lower_char :: "char \<Rightarrow> char" where
  "lower_char c = (let n = of_char c :: nat in if 65 \<le> n \<and> n \<le> 90 then char_of (n + 32) else c)"

definition to_ascii_lowercase :: "string \<Rightarrow> string" where
  "to_ascii_lowercase s = map lower_char s"

definition upper_char :: "char \<Rightarrow> char" where
  "upper_char c = (let n = of_char c :: nat in if 97 \<le> n \<and> n \<le> 122 then char_of (n - 32) else c)"

definition to_ascii_uppercase :: "string \<Rightarrow> string" where
  "to_ascii_uppercase s = map upper_char s"

lemma lower_lower_char [simp]: "lower_char (lower_char c) = lower_char c"
  by (auto simp: lower_char_def Let_def)

lemma lower_upper_char [simp]: "lower_char c = c \<Longrightarrow> lower_char (upper_char c) = c"
  by (auto simp: lower_char_def upper_char_def Let_def split: if_splits)

lemma lower_of_upper [simp]:
  "to_ascii_lowercase s = s \<Longrightarrow> to_ascii_lowercase (to_ascii_uppercase s) = s"
  by (induction s) (simp_all add: to_ascii_lowercase_def to_ascii_uppercase_def)

subsection \<open>Lower-case hexadecimal text\<close>

text \<open>The \<open>hex\<close> helpers of the desktop crate: each byte through \<open>{byte:02x}\<close>.\<close>

definition hex_digit :: "nat \<Rightarrow> char" where
  "hex_digit n = (if n < 10 then char_of (48 + n) else char_of (87 + n))"

definition hex_byte :: "byte \<Rightarrow> string" where
  "hex_byte b = [hex_digit (unat b div 16), hex_digit (unat b mod 16)]"

fun hex :: "bytes \<Rightarrow> string" where
  "hex [] = []"
| "hex (b # bs) = hex_byte b @ hex bs"

lemma char_of_eq_iff: "m < 256 \<Longrightarrow> n < 256 \<Longrightarrow> (char_of m :: char) = char_of n \<longleftrightarrow> m = (n :: nat)"
  by (metis mod_less of_char_of)

lemma hex_digit_inj: "m < 16 \<Longrightarrow> n < 16 \<Longrightarrow> hex_digit m = hex_digit n \<longleftrightarrow> m = n"
  by (auto simp: hex_digit_def char_of_eq_iff split: if_splits)

lemma unat_byte_less [simp]: "unat (b :: byte) < 256"
  using unsigned_less [of b] by simp

lemma hex_byte_inj: "hex_byte a = hex_byte b \<longleftrightarrow> a = b"
proof
  assume "hex_byte a = hex_byte b"
  moreover have "unat a div 16 < 16" "unat b div 16 < 16"
    using unat_byte_less [of a] unat_byte_less [of b] by linarith+
  ultimately have "unat a div 16 = unat b div 16" "unat a mod 16 = unat b mod 16"
    by (simp_all add: hex_byte_def hex_digit_inj)
  then have "unat a = unat b" by (metis div_mult_mod_eq)
  then show "a = b" by (simp add: word_unat_eq_iff)
qed simp

lemma length_hex [simp]: "length (hex b) = 2 * length b"
  by (induction b) (simp_all add: hex_byte_def)

lemma hex_inj: "hex a = hex b \<longleftrightarrow> a = b"
proof (induction a arbitrary: b)
  case Nil
  then show ?case by (cases b) (simp_all add: hex_byte_def)
next
  case (Cons x a)
  show ?case
  proof (cases b)
    case (Cons y b')
    have "length (hex_byte x) = length (hex_byte y)" by (simp add: hex_byte_def)
    with Cons Cons.IH [of b'] show ?thesis by (simp add: hex_byte_inj)
  qed (simp add: hex_byte_def)
qed

subsection \<open>Big-endian integers\<close>

text \<open>\<open>to_be_bytes\<close> and \<open>from_be_bytes\<close> on \<open>k\<close> bytes, over the value as a natural number.\<close>

fun be_bytes :: "nat \<Rightarrow> nat \<Rightarrow> bytes" where
  "be_bytes 0 n = []"
| "be_bytes (Suc k) n = of_nat (n div 256 ^ k) # be_bytes k n"

definition be_value :: "bytes \<Rightarrow> nat" where
  "be_value b = foldl (\<lambda>a w. 256 * a + unat w) 0 b"

lemma length_be_bytes [simp]: "length (be_bytes k n) = k"
  by (induction k) simp_all

lemma be_value_foldl: "foldl (\<lambda>a w. 256 * a + unat w) z b = z * 256 ^ length b + be_value b"
proof (induction b arbitrary: z)
  case (Cons w b)
  have "be_value (w # b) = unat w * 256 ^ length b + be_value b"
    using Cons [of "unat w"] by (simp add: be_value_def)
  then show ?case using Cons [of "256 * z + unat w"] by (simp add: algebra_simps)
qed (simp add: be_value_def)

lemma be_value_Cons: "be_value (w # b) = unat w * 256 ^ length b + be_value b"
  using be_value_foldl [of "unat w" b] by (simp add: be_value_def)

lemma be_value_Nil [simp]: "be_value [] = 0"
  by (simp add: be_value_def)

lemma be_value_be_bytes: "be_value (be_bytes k n) = n mod 256 ^ k"
proof (induction k)
  case (Suc k)
  have "n mod 256 ^ Suc k = 256 ^ k * (n div 256 ^ k mod 256) + n mod 256 ^ k"
    using mod_mult2_eq [of n "256 ^ k" 256] by (simp add: mult.commute)
  then show ?case using Suc by (simp add: be_value_Cons unsigned_of_nat take_bit_eq_mod)
qed simp

lemma be_value_less: "be_value b < 256 ^ length b"
proof (induction b)
  case (Cons w b)
  have "unat w * 256 ^ length b + be_value b < (unat w + 1) * 256 ^ length b" using Cons by simp
  also have "\<dots> \<le> 256 * 256 ^ length b"
    using unat_byte_less [of w] by (intro mult_right_mono) linarith+
  finally show ?case by (simp add: be_value_Cons)
qed simp

lemma be_bytes_be_value: "be_bytes (length b) (be_value b) = b"
proof -
  have "be_bytes (length b) (z * 256 ^ length b + be_value b) = b" for z
  proof (induction b arbitrary: z)
    case (Cons w b)
    let ?n = "z * 256 ^ Suc (length b) + be_value (w # b)"
    have n: "?n = (256 * z + unat w) * 256 ^ length b + be_value b"
      by (simp add: be_value_Cons algebra_simps)
    then have "?n div 256 ^ length b = 256 * z + unat w"
      using be_value_less [of b] by simp
    moreover have "(of_nat (256 * z + unat w) :: byte) = w"
      by (rule word_unat_eq_iff [THEN iffD2]) (simp only: unat_of_nat, simp)
    ultimately have "(of_nat (?n div 256 ^ length b) :: byte) = w"
      by (simp only:)
    moreover have "be_bytes (length b) ?n = b" using Cons [of "256 * z + unat w"] n by simp
    ultimately show ?case by simp
  qed simp
  from this [of 0] show ?thesis by simp
qed

subsection \<open>Lists\<close>

text \<open>\<open>slice::windows(2).any(|p| p[0] >= p[1])\<close> negated: strictly ascending.\<close>

fun strictly_ascending :: "'a::linorder list \<Rightarrow> bool" where
  "strictly_ascending [] = True"
| "strictly_ascending [x] = True"
| "strictly_ascending (x # y # zs) = (x < y \<and> strictly_ascending (y # zs))"

lemma strictly_ascending_iff: "strictly_ascending xs \<longleftrightarrow> sorted_wrt (<) xs"
  by (induction xs rule: strictly_ascending.induct) (auto intro: less_trans)

text \<open>\<open>starts_with\<close>.\<close>

definition starts_with :: "'a list \<Rightarrow> 'a list \<Rightarrow> bool" where
  "starts_with s p \<longleftrightarrow> take (length p) s = p"

lemma starts_with_append [simp]: "starts_with (p @ s) p"
  by (simp add: starts_with_def)

lemma starts_with_iff: "starts_with s p \<longleftrightarrow> (\<exists>t. s = p @ t)"
  by (metis append_take_drop_id starts_with_append starts_with_def)

subsection \<open>Fallible steps on a state\<close>

text \<open>
  A function that takes \<open>&mut\<close> state or performs I/O is a step: from a state to the state it
  leaves and its result.  The state is left also by a step that fails.
\<close>

type_synonym ('s, 'e, 'a) step = "'s \<Rightarrow> 's \<times> ('e, 'a) result"

definition retS :: "'a \<Rightarrow> ('s, 'e, 'a) step" where
  "retS x s = (s, Inr x)"

definition errS :: "'e \<Rightarrow> ('s, 'e, 'a) step" where
  "errS e s = (s, Inl e)"

definition bindS :: "('s, 'e, 'a) step \<Rightarrow> ('a \<Rightarrow> ('s, 'e, 'b) step) \<Rightarrow> ('s, 'e, 'b) step" where
  "bindS m f s = (case m s of (s', Inl e) \<Rightarrow> (s', Inl e) | (s', Inr x) \<Rightarrow> f x s')"

definition liftS :: "('e, 'a) result \<Rightarrow> ('s, 'e, 'a) step" where
  "liftS r s = (s, r)"

definition failS :: "bool \<Rightarrow> 'e \<Rightarrow> ('s, 'e, unit) step" where
  "failS c e s = (s, failIf c e)"

text \<open>\<open>map_err\<close>, \<open>is_err\<close> (as a value) and \<open>let _ = ...\<close> on a step.\<close>

definition mapErrS :: "('e \<Rightarrow> 'f) \<Rightarrow> ('s, 'e, 'a) step \<Rightarrow> ('s, 'f, 'a) step" where
  "mapErrS g m s = (case m s of (s', r) \<Rightarrow> (s', mapErr g r))"

definition tryS :: "('s, 'e, 'a) step \<Rightarrow> ('s, 'f, ('e, 'a) result) step" where
  "tryS m s = (case m s of (s', r) \<Rightarrow> (s', Inr r))"

lemma step_simps [simp]:
  "retS x s = (s, Inr x)" "errS e s = (s, Inl e)" "liftS r s = (s, r)" "failS c e s = (s, failIf c e)"
  by (simp_all add: retS_def errS_def liftS_def failS_def)

lemma bindS_Inr_iff:
  "bindS m f s = (t, Inr y) \<longleftrightarrow> (\<exists>s' x. m s = (s', Inr x) \<and> f x s' = (t, Inr y))"
  by (auto simp: bindS_def split: prod.splits sum.splits)

lemma bindS_Inl_iff:
  "bindS m f s = (t, Inl e) \<longleftrightarrow> m s = (t, Inl e) \<or> (\<exists>s' x. m s = (s', Inr x) \<and> f x s' = (t, Inl e))"
  by (auto simp: bindS_def split: prod.splits sum.splits)

lemma mapErrS_Inr_iff: "mapErrS g m s = (t, Inr y) \<longleftrightarrow> m s = (t, Inr y)"
  by (auto simp: mapErrS_def mapErr_Inr_iff split: prod.splits)

lemma mapErrS_Inl_iff: "mapErrS g m s = (t, Inl e) \<longleftrightarrow> (\<exists>e'. m s = (t, Inl e') \<and> e = g e')"
  by (auto simp: mapErrS_def mapErr_Inl_iff split: prod.splits)

lemma tryS_iff: "tryS m s = (t, r) \<longleftrightarrow> (\<exists>q. m s = (t, q) \<and> r = Inr q)"
  by (auto simp: tryS_def split: prod.splits)

text \<open>Running a composed step whose first part is known.\<close>

lemma bindS_tryS: "bindS (tryS m) f s = (case m s of (s', r) \<Rightarrow> f r s')"
  by (simp add: bindS_def tryS_def split: prod.splits)

lemma bindS_run:
  "m s = (t, Inr x) \<Longrightarrow> bindS m f s = f x t" "m s = (t, Inl e) \<Longrightarrow> bindS m f s = (t, Inl e)"
  by (simp_all add: bindS_def)

lemma bindS_simps [simp]:
  "bindS (retS x) f = f x" "bindS (liftS (Inr x)) f = f x" "bindS (errS e) f = errS e" "bindS (liftS (Inl e)) f = errS e"
  by (rule ext, simp add: bindS_def)+

text \<open>A predicate on states that every step keeps; kept by what is composed of such steps.\<close>

definition keeps :: "('s \<Rightarrow> bool) \<Rightarrow> ('s, 'e, 'a) step \<Rightarrow> bool" where
  "keeps P m \<longleftrightarrow> (\<forall>s. P s \<longrightarrow> P (fst (m s)))"

lemma keepsD: "keeps P m \<Longrightarrow> m s = (t, r) \<Longrightarrow> P s \<Longrightarrow> P t"
  unfolding keeps_def by (metis fst_conv)

lemma keeps_simps [simp, intro]: "keeps P (retS x)" "keeps P (errS e)" "keeps P (liftS r)" "keeps P (failS c e')"
  by (simp_all add: keeps_def)

lemma keeps_bindS [intro]: "keeps P m \<Longrightarrow> (\<And>x. keeps P (f x)) \<Longrightarrow> keeps P (bindS m f)"
  by (auto simp: keeps_def bindS_def split: prod.splits sum.splits)

lemma keeps_bindS_when:
  "keeps P m \<Longrightarrow> (\<And>s t x. m s = (t, Inr x) \<Longrightarrow> keeps P (f x)) \<Longrightarrow> keeps P (bindS m f)"
  unfolding keeps_def bindS_def by (fastforce split: prod.splits sum.splits)

lemma keeps_liftS_bind: "(\<And>x. r = Inr x \<Longrightarrow> keeps P (f x)) \<Longrightarrow> keeps P (bindS (liftS r) f)"
  by (cases r) simp_all

lemma keeps_mapErrS [intro]: "keeps P m \<Longrightarrow> keeps P (mapErrS g m)"
  by (auto simp: keeps_def mapErrS_def split: prod.splits)

lemma keeps_tryS [intro]: "keeps P m \<Longrightarrow> keeps P (tryS m)"
  by (auto simp: keeps_def tryS_def split: prod.splits)

subsection \<open>Decimal text\<close>

text \<open>An unsigned integer through \<open>{}\<close>.\<close>

fun decimal :: "nat \<Rightarrow> string" where
  "decimal n = (if n < 10 then [char_of (48 + n)] else decimal (n div 10) @ [char_of (48 + n mod 10)])"

declare decimal.simps [simp del]

end
