(* ===== verification/External.thy ===== *)
theory External
  imports Prelude
begin

text \<open>
  The third-party crates the sources call, as parameters of the model: \<open>minicbor\<close>,
  \<open>base64\<close>, \<open>bech32\<close>, \<open>p256\<close>, \<open>sha2\<close>, \<open>hkdf\<close> and \<open>chacha20poly1305\<close>.  Each is a
  record of functions; what the code relies on is stated as a law: as a \<open>locale\<close> for the
  codecs (which this development also implements, see \<open>Cbor_Reference\<close> and
  \<open>Text_Reference\<close>), as the named predicates \<open>p256_laws\<close> and \<open>symmetric_laws\<close> for the
  cryptography.  No law speaks of secrecy or unforgeability.
\<close>

subsection \<open>minicbor\<close>

text \<open>
  An \<open>Encoder\<close> over a \<open>Vec<u8>\<close> appends to its buffer, so each encoder method is the
  bytes it appends.  A \<open>Decoder\<close> is the bytes it has not consumed yet: \<open>Decoder::new(b)\<close>
  is \<open>b\<close>, and \<open>position() == b.len()\<close> says that nothing is left.  \<open>d_array\<close> returns
  \<open>Some None\<close> for an indefinite-length array; \<open>d_type\<close> is \<open>datatype()\<close>, which peeks.
\<close>

datatype cbor_type = TNull | TBytes | TString | TOther

record cbor =
  e_array :: "u64 \<Rightarrow> bytes"
  e_u16 :: "u16 \<Rightarrow> bytes"
  e_u32 :: "u32 \<Rightarrow> bytes"
  e_u64 :: "u64 \<Rightarrow> bytes"
  e_bytes :: "bytes \<Rightarrow> bytes"
  e_str :: "string \<Rightarrow> bytes"
  e_null :: bytes
  e_bool :: "bool \<Rightarrow> bytes"
  d_array :: "bytes \<Rightarrow> (u64 option \<times> bytes) option"
  d_u16 :: "bytes \<Rightarrow> (u16 \<times> bytes) option"
  d_u32 :: "bytes \<Rightarrow> (u32 \<times> bytes) option"
  d_u64 :: "bytes \<Rightarrow> (u64 \<times> bytes) option"
  d_bytes :: "bytes \<Rightarrow> (bytes \<times> bytes) option"
  d_str :: "bytes \<Rightarrow> (string \<times> bytes) option"
  d_null :: "bytes \<Rightarrow> bytes option"
  d_bool :: "bytes \<Rightarrow> (bool \<times> bytes) option"
  d_type :: "bytes \<Rightarrow> cbor_type option"

text \<open>Decoding what was just encoded gives it back and leaves the rest of the input;
  a decoded text is UTF-8; an encoded byte string holds its bytes.\<close>

locale cbor_codec =
  fixes cb :: cbor
  assumes array_rt: "d_array cb (e_array cb n @ r) = Some (Some n, r)"
    and u16_rt: "d_u16 cb (e_u16 cb v16 @ r) = Some (v16, r)"
    and u32_rt: "d_u32 cb (e_u32 cb v32 @ r) = Some (v32, r)"
    and u64_rt: "d_u64 cb (e_u64 cb v64 @ r) = Some (v64, r)"
    and bytes_rt: "length b < 2 ^ 64 \<Longrightarrow> d_bytes cb (e_bytes cb b @ r) = Some (b, r)"
    and str_rt: "utf8_valid s \<Longrightarrow> length s < 2 ^ 64 \<Longrightarrow> d_str cb (e_str cb s @ r) = Some (s, r)"
    and null_rt: "d_null cb (e_null cb @ r) = Some r"
    and bool_rt: "d_bool cb (e_bool cb c @ r) = Some (c, r)"
    and type_null: "d_type cb (e_null cb @ r) = Some TNull"
    and type_str: "length s < 2 ^ 64 \<Longrightarrow> d_type cb (e_str cb s @ r) = Some TString"
    and type_bytes: "length b < 2 ^ 64 \<Longrightarrow> d_type cb (e_bytes cb b @ r) = Some TBytes"
    and str_utf8: "d_str cb d = Some (s, r) \<Longrightarrow> utf8_valid s"
    and bytes_contained: "length b \<le> length (e_bytes cb b)"
begin

lemmas rt_simps [simp] = array_rt u16_rt u32_rt u64_rt bytes_rt str_rt null_rt bool_rt type_null type_str type_bytes

lemmas rt_end [simp] =
  array_rt [where r = "[]", simplified] u16_rt [where r = "[]", simplified]
  u32_rt [where r = "[]", simplified] u64_rt [where r = "[]", simplified]
  bytes_rt [where r = "[]", simplified] str_rt [where r = "[]", simplified]
  null_rt [where r = "[]", simplified] type_null [where r = "[]", simplified]
  type_str [where r = "[]", simplified] type_bytes [where r = "[]", simplified]
  bool_rt [where r = "[]", simplified]

text \<open>Encodings are prefix-free, hence concatenations of fields are read one way only.\<close>

lemma e_u16_inj: "e_u16 cb v @ r = e_u16 cb v' @ r' \<Longrightarrow> v = v' \<and> r = r'"
  by (metis u16_rt option.inject prod.inject)

lemma e_bytes_inj:
  "length b < 2 ^ 64 \<Longrightarrow> length b' < 2 ^ 64 \<Longrightarrow> e_bytes cb b @ r = e_bytes cb b' @ r' \<Longrightarrow>
   b = b' \<and> r = r'"
  by (metis bytes_rt option.inject prod.inject)

lemma e_array_inj: "e_array cb v @ r = e_array cb v' @ r' \<Longrightarrow> v = v' \<and> r = r'"
  by (metis array_rt option.inject prod.inject)

end

text \<open>Sizes: the encoder writes the preferred (shortest) head, RFC 8949 section 4.1.\<close>

definition head_len :: "nat \<Rightarrow> nat" where
  "head_len n = (if n < 24 then 1 else if n < 256 then 2 else if n < 65536 then 3
     else if n < 4294967296 then 5 else 9)"

lemma head_len_bounds: "head_len n \<le> 9" "n < 65536 \<Longrightarrow> head_len n \<le> 3" "n < 4294967296 \<Longrightarrow> head_len n \<le> 5"
  by (simp_all add: head_len_def)

locale cbor_sized = cbor_codec +
  assumes array_len: "length (e_array cb n) = head_len (unat n)"
    and u16_len: "length (e_u16 cb v16) = head_len (unat v16)"
    and u32_len: "length (e_u32 cb v32) = head_len (unat v32)"
    and u64_len: "length (e_u64 cb v64) = head_len (unat v64)"
    and bytes_len: "length b < 2 ^ 64 \<Longrightarrow> length (e_bytes cb b) = head_len (length b) + length b"
    and str_len: "length s < 2 ^ 64 \<Longrightarrow> length (e_str cb s) = head_len (length s) + length s"
    and null_len: "length (e_null cb) = 1"
    and bool_len: "length (e_bool cb c) = 1"

subsection \<open>base64\<close>

text \<open>One \<open>base64\<close> engine: \<open>STANDARD_NO_PAD\<close> or \<open>URL_SAFE_NO_PAD\<close>.\<close>

record b64 =
  b64_encode :: "bytes \<Rightarrow> string"
  b64_decode :: "string \<Rightarrow> bytes option"

locale base64_engine =
  fixes e :: b64
  assumes decode_encode [simp]: "b64_decode e (b64_encode e b) = Some b"
    and encode_ascii: "is_ascii (b64_encode e b)"
    and encode_no_pad: "CHR ''='' \<notin> set (b64_encode e b)"
    and encode_len: "length (b64_encode e b) = (4 * length b + 2) div 3"
begin

lemma encode_inj: "b64_encode e b = b64_encode e b' \<longleftrightarrow> b = b'"
  by (metis decode_encode option.inject)

lemma encode_utf8 [simp]: "utf8_valid (b64_encode e b)"
  by (rule ascii_utf8_valid [OF encode_ascii])

lemma encode_Nil_iff: "b64_encode e b = [] \<longleftrightarrow> b = []"
proof -
  have "b64_encode e b = [] \<longleftrightarrow> length (b64_encode e b) = 0" by simp
  also have "\<dots> \<longleftrightarrow> (4 * length b + 2) div 3 = 0" by (simp only: encode_len)
  also have "\<dots> \<longleftrightarrow> length b = 0" by linarith
  finally show ?thesis by simp
qed

end

subsection \<open>bech32\<close>

type_synonym u5 = "5 word"

datatype variant = Bech32 | Bech32m

record bech32 =
  to_base32 :: "bytes \<Rightarrow> u5 list"
  from_base32 :: "u5 list \<Rightarrow> bytes option"
  bech32_encode :: "string \<Rightarrow> u5 list \<Rightarrow> variant \<Rightarrow> string option"
  bech32_decode :: "string \<Rightarrow> (string \<times> u5 list \<times> variant) option"

text \<open>A lower-case human-readable part that BIP 173 admits.\<close>

definition valid_hrp :: "string \<Rightarrow> bool" where
  "valid_hrp h \<longleftrightarrow> h \<noteq> [] \<and> length h \<le> 83 \<and>
     list_all (\<lambda>c. 33 \<le> (of_char c :: nat) \<and> (of_char c :: nat) \<le> 126 \<and> lower_char c = c) h"

text \<open>Text of visible ASCII characters.\<close>

definition graphic :: "string \<Rightarrow> bool" where
  "graphic s \<longleftrightarrow> list_all (\<lambda>c. 33 \<le> (of_char c :: nat) \<and> (of_char c :: nat) \<le> 126) s"

lemma graphic_ascii: "graphic s \<Longrightarrow> is_ascii s"
  by (auto simp: graphic_def is_ascii_def list_all_iff)

locale bech32_codec =
  fixes x :: bech32
  assumes base32_rt [simp]: "from_base32 x (to_base32 x b) = Some b"
    and base32_len: "length (to_base32 x b) = (8 * length b + 4) div 5"
    and encode_ok: "valid_hrp h \<Longrightarrow> \<exists>t. bech32_encode x h d v = Some t"
    and decode_rt: "valid_hrp h \<Longrightarrow> bech32_encode x h d v = Some t \<Longrightarrow> bech32_decode x t = Some (h, d, v)"
    and encode_lower: "valid_hrp h \<Longrightarrow> bech32_encode x h d v = Some t \<Longrightarrow> to_ascii_lowercase t = t"
    and encode_hrp: "valid_hrp h \<Longrightarrow> bech32_encode x h d v = Some t \<Longrightarrow> take (length h) t = h"
    and encode_graphic: "valid_hrp h \<Longrightarrow> bech32_encode x h d v = Some t \<Longrightarrow> graphic t"
    and encode_length: "valid_hrp h \<Longrightarrow> bech32_encode x h d v = Some t \<Longrightarrow> length t = length h + length d + 7"
begin

lemma encode_ascii: "valid_hrp h \<Longrightarrow> bech32_encode x h d v = Some t \<Longrightarrow> is_ascii t"
  by (rule graphic_ascii [OF encode_graphic])

end

subsection \<open>P-256\<close>

text \<open>
  A \<open>PublicKey\<close> or \<open>VerifyingKey\<close> is a point of the type \<open>'pk\<close>, a \<open>Signature\<close> a value of
  \<open>'sg\<close>, a \<open>SecretKey\<close> or \<open>EphemeralSecret\<close> a value of \<open>'sk\<close>.  \<open>pk_from_sec1\<close> and
  \<open>vk_from_sec1\<close> are \<open>from_sec1_bytes\<close>; \<open>pk_compressed\<close> and \<open>pk_uncompressed\<close> are
  \<open>to_encoded_point(true)\<close> and \<open>to_encoded_point(false)\<close>; \<open>ecdh\<close> is \<open>diffie_hellman\<close>
  followed by \<open>raw_secret_bytes\<close>; \<open>ecdsa_verify\<close> hashes the message with SHA-256;
  \<open>ecdsa_sign_prehash\<close> signs a digest; \<open>sig_normalize_s\<close> is \<open>None\<close> when the signature has
  a low \<open>s\<close> already.
\<close>

record ('pk, 'sg, 'sk) p256 =
  pk_from_sec1 :: "bytes \<Rightarrow> 'pk option"
  vk_from_sec1 :: "bytes \<Rightarrow> 'pk option"
  pk_compressed :: "'pk \<Rightarrow> bytes"
  pk_uncompressed :: "'pk \<Rightarrow> bytes"
  sk_public :: "'sk \<Rightarrow> 'pk"
  ecdh :: "'sk \<Rightarrow> 'pk \<Rightarrow> bytes"
  sig_from_slice :: "bytes \<Rightarrow> 'sg option"
  sig_to_bytes :: "'sg \<Rightarrow> bytes"
  sig_normalize_s :: "'sg \<Rightarrow> 'sg option"
  ecdsa_verify :: "'pk \<Rightarrow> bytes \<Rightarrow> 'sg \<Rightarrow> bool"
  ecdsa_sign_prehash :: "'sk \<Rightarrow> bytes \<Rightarrow> 'sg option"

text \<open>SHA-256, HKDF-SHA256 and ChaCha20-Poly1305.  \<open>hkdf salt ikm info n\<close> is
  \<open>Hkdf::new(Some(salt), ikm).expand(info, out)\<close> with \<open>n\<close> output bytes; \<open>hkdf_extract\<close>
  and \<open>hkdf_expand\<close> are the two halves used by HPKE; \<open>aead_key_ok\<close> says that
  \<open>new_from_slice\<close> accepts the key.\<close>

record symmetric =
  sha256 :: "bytes \<Rightarrow> bytes"
  hkdf :: "bytes \<Rightarrow> bytes \<Rightarrow> bytes \<Rightarrow> nat \<Rightarrow> bytes option"
  hkdf_extract :: "bytes \<Rightarrow> bytes \<Rightarrow> bytes"
  hkdf_expand :: "bytes \<Rightarrow> bytes \<Rightarrow> nat \<Rightarrow> bytes option"
  aead_key_ok :: "bytes \<Rightarrow> bool"
  aead_encrypt :: "bytes \<Rightarrow> bytes \<Rightarrow> bytes \<Rightarrow> bytes \<Rightarrow> bytes option"
  aead_decrypt :: "bytes \<Rightarrow> bytes \<Rightarrow> bytes \<Rightarrow> bytes \<Rightarrow> bytes option"

record ('pk, 'sg, 'sk) lib =
  minicbor :: cbor
  std64 :: b64
  url64 :: b64
  bech :: bech32
  ec :: "('pk, 'sg, 'sk) p256"
  sym :: symmetric

definition p256_laws :: "('pk, 'sg, 'sk) p256 \<Rightarrow> bool" where
  "p256_laws p \<longleftrightarrow>
     (\<forall>k. pk_from_sec1 p (pk_compressed p k) = Some k) \<and>
     (\<forall>k. vk_from_sec1 p (pk_compressed p k) = Some k) \<and>
     (\<forall>k. pk_from_sec1 p (pk_uncompressed p k) = Some k) \<and>
     (\<forall>k. length (pk_compressed p k) = 33 \<and> hd (pk_compressed p k) \<in> {2, 3}) \<and>
     (\<forall>k. length (pk_uncompressed p k) = 65 \<and> hd (pk_uncompressed p k) = 4) \<and>
     (\<forall>a b. ecdh p a (sk_public p b) = ecdh p b (sk_public p a)) \<and>
     (\<forall>a k. length (ecdh p a k) = 32)"

text \<open>Signing produces a signature that, made low-\<open>s\<close> or left as it is, parses back,
  needs no further normalisation and verifies under the signer's public key.\<close>

definition ecdsa_laws :: "('pk, 'sg, 'sk) p256 \<Rightarrow> symmetric \<Rightarrow> bool" where
  "ecdsa_laws p y \<longleftrightarrow>
     (\<forall>s. length (sig_to_bytes p s) = 64 \<and> sig_from_slice p (sig_to_bytes p s) = Some s) \<and>
     (\<forall>s s'. sig_normalize_s p s = Some s' \<longrightarrow> sig_normalize_s p s' = None) \<and>
     (\<forall>k m s. ecdsa_sign_prehash p k (sha256 y m) = Some s \<longrightarrow>
        ecdsa_verify p (sk_public p k) m s \<and>
        (\<forall>s'. sig_normalize_s p s = Some s' \<longrightarrow> ecdsa_verify p (sk_public p k) m s'))"

definition symmetric_laws :: "symmetric \<Rightarrow> bool" where
  "symmetric_laws y \<longleftrightarrow>
     (\<forall>m. length (sha256 y m) = 32) \<and>
     (\<forall>s k i n. n \<le> 8160 \<longrightarrow> (\<exists>o'. hkdf y s k i n = Some o' \<and> length o' = n)) \<and>
     (\<forall>s k. length (hkdf_extract y s k) = 32) \<and>
     (\<forall>k i n. length k = 32 \<longrightarrow> n \<le> 8160 \<longrightarrow> (\<exists>o'. hkdf_expand y k i n = Some o' \<and> length o' = n)) \<and>
     (\<forall>k. length k = 32 \<longrightarrow> aead_key_ok y k) \<and>
     (\<forall>k n a m. length k = 32 \<longrightarrow> length n = 12 \<longrightarrow> length m < 2 ^ 32 \<longrightarrow>
        (\<exists>c. aead_encrypt y k n a m = Some c)) \<and>
     (\<forall>k n a m c. length k = 32 \<longrightarrow> length n = 12 \<longrightarrow> aead_encrypt y k n a m = Some c \<longrightarrow>
        length c = length m + 16 \<and> aead_decrypt y k n a c = Some m) \<and>
     (\<forall>k n a m c. length k = 32 \<longrightarrow> length n = 12 \<longrightarrow> aead_decrypt y k n a c = Some m \<longrightarrow>
        aead_encrypt y k n a m = Some c)"

text \<open>The laws as conditional rewrite rules: with the law among the premises the simplifier
  uses them.\<close>

lemma p256_rt [simp]:
  assumes p: "p256_laws p"
  shows "pk_from_sec1 p (pk_compressed p k) = Some k" "vk_from_sec1 p (pk_compressed p k) = Some k"
    "pk_from_sec1 p (pk_uncompressed p k) = Some k"
    "length (pk_compressed p k) = 33" "length (pk_uncompressed p k) = 65" "length (ecdh p a k) = 32"
proof -
  note l = p [unfolded p256_laws_def]
  show "pk_from_sec1 p (pk_compressed p k) = Some k" by (rule l [THEN conjunct1, rule_format])
  show "vk_from_sec1 p (pk_compressed p k) = Some k"
    by (rule l [THEN conjunct2, THEN conjunct1, rule_format])
  note l = l [THEN conjunct2, THEN conjunct2]
  show "pk_from_sec1 p (pk_uncompressed p k) = Some k" by (rule l [THEN conjunct1, rule_format])
  note l = l [THEN conjunct2]
  show "length (pk_compressed p k) = 33" by (rule l [THEN conjunct1, THEN spec, THEN conjunct1])
  note l = l [THEN conjunct2]
  show "length (pk_uncompressed p k) = 65" by (rule l [THEN conjunct1, THEN spec, THEN conjunct1])
  show "length (ecdh p a k) = 32" by (rule l [THEN conjunct2, THEN conjunct2, rule_format])
qed

lemma ecdh_commute:
  assumes p: "p256_laws p" shows "ecdh p a (sk_public p b) = ecdh p b (sk_public p a)"
  by (rule p [unfolded p256_laws_def, THEN conjunct2, THEN conjunct2, THEN conjunct2, THEN conjunct2,
        THEN conjunct2, THEN conjunct1, rule_format])

lemma pk_compressed_inj:
  assumes "p256_laws p" shows "pk_compressed p k = pk_compressed p k' \<longleftrightarrow> k = k'"
proof
  assume "pk_compressed p k = pk_compressed p k'"
  then have "Some k = Some k'" unfolding p256_rt(1) [OF assms, symmetric] by (rule arg_cong)
  then show "k = k'" by (rule option.inject [THEN iffD1])
qed (rule arg_cong)

lemma pk_compressed_Cons:
  assumes p: "p256_laws p" obtains w b where "pk_compressed p k = w # b" "w = 2 \<or> w = 3"
proof -
  have h: "hd (pk_compressed p k) \<in> {2, 3}"
    by (rule p [unfolded p256_laws_def, THEN conjunct2, THEN conjunct2, THEN conjunct2, THEN conjunct1,
          THEN spec, THEN conjunct2])
  obtain w b where c: "pk_compressed p k = w # b"
    using p256_rt(4) [OF p, of k] by (cases "pk_compressed p k") simp_all
  show thesis using h unfolding c by (intro that [OF c]) simp
qed

lemma pk_uncompressed_Cons:
  assumes p: "p256_laws p" obtains b where "pk_uncompressed p k = 4 # b"
proof -
  have h: "hd (pk_uncompressed p k) = 4"
    by (rule p [unfolded p256_laws_def, THEN conjunct2, THEN conjunct2, THEN conjunct2, THEN conjunct2,
          THEN conjunct1, THEN spec, THEN conjunct2])
  obtain w b where c: "pk_uncompressed p k = w # b"
    using p256_rt(5) [OF p, of k] by (cases "pk_uncompressed p k") simp_all
  show thesis using h unfolding c by (intro that [of b]) (simp add: c)
qed

text \<open>The seven clauses of \<open>symmetric_laws\<close>, one by one.\<close>

lemma symmetric_lawsE:
  assumes "symmetric_laws y"
  shows sha256_length: "length (sha256 y m) = 32"
    and hkdf_ok: "n \<le> 8160 \<Longrightarrow> \<exists>o'. hkdf y s i f n = Some o' \<and> length o' = n"
    and extract_length: "length (hkdf_extract y s i) = 32"
    and expand_ok: "length k = 32 \<Longrightarrow> n \<le> 8160 \<Longrightarrow> \<exists>o'. hkdf_expand y k f n = Some o' \<and> length o' = n"
    and key_ok: "length k = 32 \<Longrightarrow> aead_key_ok y k"
    and encrypt_ok: "length k = 32 \<Longrightarrow> length nn = 12 \<Longrightarrow> length m < 2 ^ 32 \<Longrightarrow> \<exists>c. aead_encrypt y k nn a m = Some c"
    and encrypt_decrypt: "length k = 32 \<Longrightarrow> length nn = 12 \<Longrightarrow> aead_encrypt y k nn a m = Some c \<Longrightarrow>
        length c = length m + 16 \<and> aead_decrypt y k nn a c = Some m"
    and decrypt_encrypt: "length k = 32 \<Longrightarrow> length nn = 12 \<Longrightarrow> aead_decrypt y k nn a c = Some m \<Longrightarrow>
        aead_encrypt y k nn a m = Some c"
proof -
  note l = assms [unfolded symmetric_laws_def]
  show "length (sha256 y m) = 32" by (rule l [THEN conjunct1, rule_format])
  note l = l [THEN conjunct2]
  show "n \<le> 8160 \<Longrightarrow> \<exists>o'. hkdf y s i f n = Some o' \<and> length o' = n"
    by (rule l [THEN conjunct1, rule_format])
  note l = l [THEN conjunct2]
  show "length (hkdf_extract y s i) = 32" by (rule l [THEN conjunct1, rule_format])
  note l = l [THEN conjunct2]
  show "length k = 32 \<Longrightarrow> n \<le> 8160 \<Longrightarrow> \<exists>o'. hkdf_expand y k f n = Some o' \<and> length o' = n"
    by (rule l [THEN conjunct1, rule_format])
  note l = l [THEN conjunct2]
  show "length k = 32 \<Longrightarrow> aead_key_ok y k" by (rule l [THEN conjunct1, rule_format])
  note l = l [THEN conjunct2]
  show "length k = 32 \<Longrightarrow> length nn = 12 \<Longrightarrow> length m < 2 ^ 32 \<Longrightarrow> \<exists>c. aead_encrypt y k nn a m = Some c"
    by (rule l [THEN conjunct1, rule_format])
  note l = l [THEN conjunct2]
  show "length k = 32 \<Longrightarrow> length nn = 12 \<Longrightarrow> aead_encrypt y k nn a m = Some c \<Longrightarrow>
        length c = length m + 16 \<and> aead_decrypt y k nn a c = Some m"
    by (rule l [THEN conjunct1, THEN spec, THEN spec, THEN spec, THEN spec, THEN spec, THEN mp, THEN mp, THEN mp])
  show "length k = 32 \<Longrightarrow> length nn = 12 \<Longrightarrow> aead_decrypt y k nn a c = Some m \<Longrightarrow>
        aead_encrypt y k nn a m = Some c"
    by (rule l [THEN conjunct2, rule_format])
qed

lemmas symmetric_len [simp] = sha256_length extract_length key_ok

lemma hkdf_obtain:
  assumes "symmetric_laws y" "n \<le> 8160" obtains k where "hkdf y s i f n = Some k" "length k = n"
  using hkdf_ok [OF assms, of s i f] by (elim exE conjE)

lemma hkdf_expand_obtain:
  assumes "symmetric_laws y" "length i = 32" "n \<le> 8160"
  obtains k where "hkdf_expand y i f n = Some k" "length k = n"
  using expand_ok [OF assms, of f] by (elim exE conjE)

lemma aead_obtain:
  assumes y: "symmetric_laws y" and k: "length k = 32" "length n = 12" and m: "length m < 2 ^ 32"
  obtains c where "aead_encrypt y k n a m = Some c" "length c = length m + 16"
    "aead_decrypt y k n a c = Some m"
proof -
  obtain c where c: "aead_encrypt y k n a m = Some c" using encrypt_ok [OF y k m] ..
  from encrypt_decrypt [OF y k this] that [OF this] show thesis by (elim conjE)
qed

lemma ecdsa_simps [simp]:
  assumes "ecdsa_laws p y"
  shows "length (sig_to_bytes p s) = 64" "sig_from_slice p (sig_to_bytes p s) = Some s"
  using assms [unfolded ecdsa_laws_def, THEN conjunct1, THEN spec, of s] by auto

lemma ecdsa_normal:
  assumes "ecdsa_laws p y" "sig_normalize_s p s = Some s'" shows "sig_normalize_s p s' = None"
  by (rule assms(1) [unfolded ecdsa_laws_def, THEN conjunct2, THEN conjunct1, rule_format, OF assms(2)])

lemma ecdsa_signs:
  assumes "ecdsa_laws p y" "ecdsa_sign_prehash p k (sha256 y m) = Some s"
  shows "ecdsa_verify p (sk_public p k) m s"
    "sig_normalize_s p s = Some s' \<Longrightarrow> ecdsa_verify p (sk_public p k) m s'"
proof -
  note l = assms(1) [unfolded ecdsa_laws_def, THEN conjunct2, THEN conjunct2, rule_format, OF assms(2)]
  show "ecdsa_verify p (sk_public p k) m s" by (rule l [THEN conjunct1])
  show "sig_normalize_s p s = Some s' \<Longrightarrow> ecdsa_verify p (sk_public p k) m s'"
    by (rule l [THEN conjunct2, rule_format])
qed

end
