(* ===== verification/Recipient.thy ===== *)
theory Recipient
  imports External
begin

text \<open>
  The recipient module of the core crate (\<open>crates/core/src/recipient/mod.rs\<close> and
  \<open>plugin.rs\<close>): recipients and paired recipients with their Bech32 and plugin forms, the
  v1 and v2 stanza constructions, stanza validation, the software unwrap and the private
  stanza selection of the desktop.  The p256tag construction is in \<open>Recipient_Tag\<close>.
\<close>

subsection \<open>Data\<close>

datatype recipient_error =
    NonCanonicalRecipient | WrongRecipientHrp | UnsupportedRecipientVersion
  | InvalidRecipientLength | InvalidPublicKey_R | UnknownStanzaType | InvalidStanzaArguments
  | InvalidEphemeralEncoding | InvalidBodyLength | KeyDerivation_R | Authentication
  | RecipientEncoding | WrongSelectionKey | KeyAgreement

datatype 'pk recipient = Recipient (recipient_key: 'pk)

record 'pk paired_recipient =
  phone_identity :: 'pk
  desktop_selection :: 'pk
  paired_identity_id :: bytes

record tagged_stanza =
  st_tag :: string
  st_args :: "string list"
  st_body :: bytes

datatype stanza_version = V1 | V2

record 'pk parsed_stanza =
  ps_version :: stanza_version
  ps_ephemeral :: 'pk
  ps_ephemeral_bytes :: bytes
  ps_selection :: "bytes option"
  ps_body :: bytes

subsection \<open>Constants\<close>

definition PLUGIN_NAME :: string where "PLUGIN_NAME = ''phone''"
definition RECIPIENT_HRP :: string where "RECIPIENT_HRP = ''age1phone''"
definition STANZA_TAG :: string where "STANZA_TAG = ''phone-p256-v1''"
definition STANZA_TAG_V2 :: string where "STANZA_TAG_V2 = ''phone-p256-v2''"
definition FILE_KEY_BYTES :: nat where [simp]: "FILE_KEY_BYTES = 16"
definition ID_BYTES :: nat where [simp]: "ID_BYTES = 16"
definition PAYLOAD_VERSION :: byte where [simp]: "PAYLOAD_VERSION = 1"
definition PAYLOAD_VERSION_V2 :: byte where [simp]: "PAYLOAD_VERSION_V2 = 2"
definition COMPRESSED_POINT_BYTES :: nat where [simp]: "COMPRESSED_POINT_BYTES = 33"
definition RECIPIENT_PAYLOAD_BYTES :: nat where
  [simp]: "RECIPIENT_PAYLOAD_BYTES = 1 + COMPRESSED_POINT_BYTES"
definition RECIPIENT_PAYLOAD_V2_BYTES :: nat where
  [simp]: "RECIPIENT_PAYLOAD_V2_BYTES = 1 + COMPRESSED_POINT_BYTES * 2 + ID_BYTES"
definition STANZA_BODY_BYTES :: nat where [simp]: "STANZA_BODY_BYTES = FILE_KEY_BYTES + 16"
definition KDF_INFO :: bytes where "KDF_INFO = str_bytes ''age-plugin-phone/recipient/p256/v1''"
definition FILE_KEY_KDF_INFO_V2 :: bytes where
  "FILE_KEY_KDF_INFO_V2 = str_bytes ''age-plugin-phone/recipient/p256/v2/file-key''"
definition SELECTION_KDF_INFO_V2 :: bytes where
  "SELECTION_KDF_INFO_V2 = str_bytes ''age-plugin-phone/recipient/p256/v2/selection''"
definition NONCE :: bytes where "NONCE = replicate 12 0"

lemma tags_distinct [simp]: "STANZA_TAG \<noteq> STANZA_TAG_V2" "STANZA_TAG_V2 \<noteq> STANZA_TAG"
  by (simp_all add: STANZA_TAG_def STANZA_TAG_V2_def)

lemma length_NONCE [simp]: "length NONCE = 12"
  by (simp add: NONCE_def)

subsection \<open>Recipients\<close>

text \<open>\<open>matches!(bytes.first(), Some(2 | 3))\<close>\<close>

definition sec1_compressed_tag :: "bytes \<Rightarrow> bool" where
  "sec1_compressed_tag b = (case b of [] \<Rightarrow> False | w # _ \<Rightarrow> w = 2 \<or> w = 3)"

definition from_public_key_bytes ::
    "('pk, 'sg, 'sk) lib \<Rightarrow> bytes \<Rightarrow> (recipient_error, 'pk recipient) result" where
  "from_public_key_bytes L b =
     bindE (failIf (length b \<noteq> COMPRESSED_POINT_BYTES \<or> \<not> sec1_compressed_tag b) InvalidPublicKey_R) (\<lambda>_.
     bindE (okOr InvalidPublicKey_R (pk_from_sec1 (ec L) b)) (\<lambda>k.
     if pk_compressed (ec L) k \<noteq> b then Inl InvalidPublicKey_R else Inr (Recipient k)))"

definition public_key_bytes :: "('pk, 'sg, 'sk) lib \<Rightarrow> 'pk \<Rightarrow> bytes" where
  "public_key_bytes L k = pk_compressed (ec L) k"

definition recipient_public_key_bytes :: "('pk, 'sg, 'sk) lib \<Rightarrow> 'pk recipient \<Rightarrow> bytes" where
  "recipient_public_key_bytes L r = pk_compressed (ec L) (recipient_key r)"

definition recipient_to_string :: "('pk, 'sg, 'sk) lib \<Rightarrow> 'pk recipient \<Rightarrow> (recipient_error, string) result" where
  "recipient_to_string L r =
     okOr RecipientEncoding
       (bech32_encode (bech L) RECIPIENT_HRP
         (to_base32 (bech L) (PAYLOAD_VERSION # recipient_public_key_bytes L r)) Bech32)"

definition recipient_parse :: "('pk, 'sg, 'sk) lib \<Rightarrow> string \<Rightarrow> (recipient_error, 'pk recipient) result" where
  "recipient_parse L text =
     bindE (failIf (text \<noteq> to_ascii_lowercase text) NonCanonicalRecipient) (\<lambda>_.
     bindE (okOr NonCanonicalRecipient (bech32_decode (bech L) text)) (\<lambda>(hrp, data, variant).
     bindE (failIf (hrp \<noteq> RECIPIENT_HRP \<or> variant \<noteq> Bech32) WrongRecipientHrp) (\<lambda>_.
     bindE (okOr NonCanonicalRecipient (from_base32 (bech L) data)) (\<lambda>payload.
     bindE (failIf (length payload \<noteq> RECIPIENT_PAYLOAD_BYTES) InvalidRecipientLength) (\<lambda>_.
     bindE (failIf (payload ! 0 \<noteq> PAYLOAD_VERSION) UnsupportedRecipientVersion) (\<lambda>_.
     bindE (from_public_key_bytes L (drop 1 payload)) (\<lambda>recipient.
     bindE (recipient_to_string L recipient) (\<lambda>s.
     if s \<noteq> text then Inl NonCanonicalRecipient else Inr recipient))))))))"

text \<open>\<open>plugin.rs\<close>: the decoded payload an age client passes.\<close>

definition recipient_from_plugin_bytes ::
    "('pk, 'sg, 'sk) lib \<Rightarrow> bytes \<Rightarrow> (recipient_error, 'pk recipient) result" where
  "recipient_from_plugin_bytes L b =
     bindE (failIf (length b \<noteq> RECIPIENT_PAYLOAD_BYTES) InvalidRecipientLength) (\<lambda>_.
     bindE (failIf (b ! 0 \<noteq> PAYLOAD_VERSION) UnsupportedRecipientVersion) (\<lambda>_.
     from_public_key_bytes L (drop 1 b)))"

definition recipient_plugin_bytes :: "('pk, 'sg, 'sk) lib \<Rightarrow> 'pk recipient \<Rightarrow> bytes" where
  "recipient_plugin_bytes L r = PAYLOAD_VERSION # recipient_public_key_bytes L r"

subsection \<open>Paired recipients\<close>

definition from_public_fields ::
    "('pk, 'sg, 'sk) lib \<Rightarrow> bytes \<Rightarrow> bytes \<Rightarrow> bytes \<Rightarrow> (recipient_error, 'pk paired_recipient) result" where
  "from_public_fields L phone desktop identity =
     bindE (from_public_key_bytes L phone) (\<lambda>p.
     bindE (from_public_key_bytes L desktop) (\<lambda>d.
     Inr \<lparr> phone_identity = recipient_key p, desktop_selection = recipient_key d,
           paired_identity_id = identity \<rparr>))"

definition paired_from_plugin_bytes ::
    "('pk, 'sg, 'sk) lib \<Rightarrow> bytes \<Rightarrow> (recipient_error, 'pk paired_recipient) result" where
  "paired_from_plugin_bytes L b =
     bindE (failIf (length b \<noteq> RECIPIENT_PAYLOAD_V2_BYTES) InvalidRecipientLength) (\<lambda>_.
     bindE (failIf (b ! 0 \<noteq> PAYLOAD_VERSION_V2) UnsupportedRecipientVersion) (\<lambda>_.
     let phone_end = 1 + COMPRESSED_POINT_BYTES; desktop_end = phone_end + COMPRESSED_POINT_BYTES
     in bindE (failIf (length (drop desktop_end b) \<noteq> ID_BYTES) InvalidRecipientLength) (\<lambda>_.
        from_public_fields L (take COMPRESSED_POINT_BYTES (drop 1 b))
          (take COMPRESSED_POINT_BYTES (drop phone_end b)) (drop desktop_end b))))"

definition paired_plugin_bytes :: "('pk, 'sg, 'sk) lib \<Rightarrow> 'pk paired_recipient \<Rightarrow> bytes" where
  "paired_plugin_bytes L r =
     PAYLOAD_VERSION_V2 # public_key_bytes L (phone_identity r) @
       public_key_bytes L (desktop_selection r) @ paired_identity_id r"

definition paired_to_string ::
    "('pk, 'sg, 'sk) lib \<Rightarrow> 'pk paired_recipient \<Rightarrow> (recipient_error, string) result" where
  "paired_to_string L r =
     okOr RecipientEncoding
       (bech32_encode (bech L) RECIPIENT_HRP (to_base32 (bech L) (paired_plugin_bytes L r)) Bech32)"

definition paired_parse :: "('pk, 'sg, 'sk) lib \<Rightarrow> string \<Rightarrow> (recipient_error, 'pk paired_recipient) result" where
  "paired_parse L text =
     bindE (failIf (text \<noteq> to_ascii_lowercase text) NonCanonicalRecipient) (\<lambda>_.
     bindE (okOr NonCanonicalRecipient (bech32_decode (bech L) text)) (\<lambda>(hrp, data, variant).
     bindE (failIf (hrp \<noteq> RECIPIENT_HRP \<or> variant \<noteq> Bech32) WrongRecipientHrp) (\<lambda>_.
     bindE (okOr NonCanonicalRecipient (from_base32 (bech L) data)) (\<lambda>payload.
     bindE (paired_from_plugin_bytes L payload) (\<lambda>recipient.
     bindE (paired_to_string L recipient) (\<lambda>s.
     if s \<noteq> text then Inl NonCanonicalRecipient else Inr recipient))))))"

subsection \<open>Key derivation and associated data\<close>

definition derive_key ::
    "('pk, 'sg, 'sk) lib \<Rightarrow> bytes \<Rightarrow> bytes \<Rightarrow> bytes \<Rightarrow> bytes \<Rightarrow> (recipient_error, bytes) result" where
  "derive_key L shared ephemeral recipient info =
     okOr KeyDerivation_R (hkdf (sym L) (ephemeral @ recipient) shared info 32)"

definition associated_data :: "bytes \<Rightarrow> bytes \<Rightarrow> bytes" where
  "associated_data ephemeral recipient = str_bytes STANZA_TAG @ [0] @ ephemeral @ recipient"

definition file_key_associated_data_v2 :: "bytes \<Rightarrow> bytes \<Rightarrow> bytes" where
  "file_key_associated_data_v2 ephemeral phone = str_bytes STANZA_TAG_V2 @ [0] @ ephemeral @ phone"

definition selection_associated_data :: "bytes \<Rightarrow> bytes \<Rightarrow> bytes \<Rightarrow> bytes \<Rightarrow> bytes" where
  "selection_associated_data ephemeral phone desktop body =
     str_bytes STANZA_TAG_V2 @ [0] @ str_bytes ''selection'' @ [0] @ ephemeral @ phone @ desktop @ body"

text \<open>\<open>ChaCha20Poly1305::new_from_slice\<close> and \<open>encrypt\<close> under the all-zero nonce.\<close>

definition seal_with ::
    "('pk, 'sg, 'sk) lib \<Rightarrow> bytes \<Rightarrow> bytes \<Rightarrow> bytes \<Rightarrow> (recipient_error, bytes) result" where
  "seal_with L key aad msg =
     bindE (failIf (\<not> aead_key_ok (sym L) key) KeyDerivation_R) (\<lambda>_.
     okOr Authentication (aead_encrypt (sym L) key NONCE aad msg))"

subsection \<open>Wrapping\<close>

definition wrap_from_shared_secret ::
    "('pk, 'sg, 'sk) lib \<Rightarrow> 'pk recipient \<Rightarrow> bytes \<Rightarrow> bytes \<Rightarrow> bytes \<Rightarrow> (recipient_error, tagged_stanza) result" where
  "wrap_from_shared_secret L recipient ephemeral_public shared_secret file_key =
     bindE (failIf (length ephemeral_public \<noteq> COMPRESSED_POINT_BYTES) InvalidPublicKey_R) (\<lambda>_.
     let recipient_bytes = recipient_public_key_bytes L recipient
     in bindE (derive_key L shared_secret ephemeral_public recipient_bytes KDF_INFO) (\<lambda>wrap_key.
        bindE (seal_with L wrap_key (associated_data ephemeral_public recipient_bytes) file_key) (\<lambda>body.
        Inr \<lparr> st_tag = STANZA_TAG, st_args = [b64_encode (std64 L) ephemeral_public], st_body = body \<rparr>)))"

definition wrap_file_key ::
    "('pk, 'sg, 'sk) lib \<Rightarrow> 'pk recipient \<Rightarrow> bytes \<Rightarrow> 'sk \<Rightarrow> (recipient_error, tagged_stanza) result" where
  "wrap_file_key L recipient file_key ephemeral =
     wrap_from_shared_secret L recipient (pk_compressed (ec L) (sk_public (ec L) ephemeral))
       (ecdh (ec L) ephemeral (recipient_key recipient)) file_key"

definition wrap_v2_from_shared_secrets ::
    "('pk, 'sg, 'sk) lib \<Rightarrow> 'pk paired_recipient \<Rightarrow> bytes \<Rightarrow> bytes \<Rightarrow> bytes \<Rightarrow> bytes \<Rightarrow>
     (recipient_error, tagged_stanza) result" where
  "wrap_v2_from_shared_secrets L recipient ephemeral_public phone_shared desktop_shared file_key =
     bindE (failIf (length ephemeral_public \<noteq> COMPRESSED_POINT_BYTES) InvalidPublicKey_R) (\<lambda>_.
     let phone = public_key_bytes L (phone_identity recipient);
         desktop = public_key_bytes L (desktop_selection recipient)
     in bindE (derive_key L phone_shared ephemeral_public phone FILE_KEY_KDF_INFO_V2) (\<lambda>file_key_key.
        bindE (seal_with L file_key_key (file_key_associated_data_v2 ephemeral_public phone) file_key) (\<lambda>body.
        bindE (derive_key L desktop_shared ephemeral_public desktop SELECTION_KDF_INFO_V2) (\<lambda>selection_key.
        bindE (seal_with L selection_key (selection_associated_data ephemeral_public phone desktop body)
                 (paired_identity_id recipient)) (\<lambda>selection.
        Inr \<lparr> st_tag = STANZA_TAG_V2,
              st_args = [b64_encode (std64 L) ephemeral_public, b64_encode (std64 L) selection],
              st_body = body \<rparr>)))))"

definition wrap_file_key_v2 ::
    "('pk, 'sg, 'sk) lib \<Rightarrow> 'pk paired_recipient \<Rightarrow> bytes \<Rightarrow> 'sk \<Rightarrow> (recipient_error, tagged_stanza) result" where
  "wrap_file_key_v2 L recipient file_key ephemeral =
     wrap_v2_from_shared_secrets L recipient (pk_compressed (ec L) (sk_public (ec L) ephemeral))
       (ecdh (ec L) ephemeral (phone_identity recipient))
       (ecdh (ec L) ephemeral (desktop_selection recipient)) file_key"

subsection \<open>Parsing stanzas\<close>

definition decode_base64_exact ::
    "('pk, 'sg, 'sk) lib \<Rightarrow> string \<Rightarrow> nat \<Rightarrow> (recipient_error, bytes) result" where
  "decode_base64_exact L text n =
     bindE (okOr InvalidEphemeralEncoding (b64_decode (std64 L) text)) (\<lambda>decoded.
     if length decoded \<noteq> n \<or> b64_encode (std64 L) decoded \<noteq> text then Inl InvalidEphemeralEncoding
     else Inr decoded)"

definition parsed_shape ::
    "('pk, 'sg, 'sk) lib \<Rightarrow> tagged_stanza \<Rightarrow> (recipient_error, stanza_version \<times> string \<times> bytes option) result" where
  "parsed_shape L stanza =
     (if st_tag stanza = STANZA_TAG then
        (case st_args stanza of [argument] \<Rightarrow> Inr (V1, argument, None) | _ \<Rightarrow> Inl InvalidStanzaArguments)
      else if st_tag stanza = STANZA_TAG_V2 then
        (case st_args stanza of
           [argument, selection] \<Rightarrow>
             bindE (decode_base64_exact L selection STANZA_BODY_BYTES) (\<lambda>decoded. Inr (V2, argument, Some decoded))
         | _ \<Rightarrow> Inl InvalidStanzaArguments)
      else Inl UnknownStanzaType)"

definition parsed_stanza_parse ::
    "('pk, 'sg, 'sk) lib \<Rightarrow> tagged_stanza \<Rightarrow> (recipient_error, 'pk parsed_stanza) result" where
  "parsed_stanza_parse L stanza =
     bindE (parsed_shape L stanza) (\<lambda>(version, argument, selection).
     bindE (failIf (length (st_body stanza) \<noteq> STANZA_BODY_BYTES) InvalidBodyLength) (\<lambda>_.
     bindE (okOr InvalidEphemeralEncoding (b64_decode (std64 L) argument)) (\<lambda>decoded.
     bindE (failIf (b64_encode (std64 L) decoded \<noteq> argument) InvalidEphemeralEncoding) (\<lambda>_.
     bindE (mapErr (\<lambda>_. InvalidEphemeralEncoding) (from_public_key_bytes L decoded)) (\<lambda>recipient.
     Inr \<lparr> ps_version = version, ps_ephemeral = recipient_key recipient, ps_ephemeral_bytes = decoded,
           ps_selection = selection, ps_body = st_body stanza \<rparr>)))))"

subsection \<open>Unwrapping and selection\<close>

definition decrypt_with_shared_secret ::
    "('pk, 'sg, 'sk) lib \<Rightarrow> 'pk recipient \<Rightarrow> 'pk parsed_stanza \<Rightarrow> bytes \<Rightarrow> (recipient_error, bytes) result" where
  "decrypt_with_shared_secret L recipient stanza shared_secret =
     (let recipient_bytes = recipient_public_key_bytes L recipient;
          (info, aad) = (case ps_version stanza of
             V1 \<Rightarrow> (KDF_INFO, associated_data (ps_ephemeral_bytes stanza) recipient_bytes)
           | V2 \<Rightarrow> (FILE_KEY_KDF_INFO_V2, file_key_associated_data_v2 (ps_ephemeral_bytes stanza) recipient_bytes))
      in bindE (derive_key L shared_secret (ps_ephemeral_bytes stanza) recipient_bytes info) (\<lambda>wrap_key.
         bindE (failIf (\<not> aead_key_ok (sym L) wrap_key) KeyDerivation_R) (\<lambda>_.
         bindE (okOr Authentication (aead_decrypt (sym L) wrap_key NONCE aad (ps_body stanza))) (\<lambda>plaintext.
         if length plaintext \<noteq> FILE_KEY_BYTES then Inl Authentication else Inr plaintext))))"

text \<open>The \<open>P256KeyAgreement\<close> trait as a value, and its software implementation for
  \<open>p256::ecdsa::SigningKey\<close>.\<close>

record key_agreement =
  ka_public_key :: "(recipient_error, bytes) result"
  ka_agree :: "bytes \<Rightarrow> (recipient_error, bytes) result"

definition signing_key_agreement :: "('pk, 'sg, 'sk) lib \<Rightarrow> 'sk \<Rightarrow> key_agreement" where
  "signing_key_agreement L key = \<lparr>
     ka_public_key =
       (let b = pk_compressed (ec L) (sk_public (ec L) key)
        in if length b = COMPRESSED_POINT_BYTES then Inr b else Inl InvalidPublicKey_R),
     ka_agree = (\<lambda>peer.
       bindE (okOr InvalidPublicKey_R (pk_from_sec1 (ec L) peer)) (\<lambda>q. Inr (ecdh (ec L) key q))) \<rparr>"

definition matches_stanza_v2 ::
    "('pk, 'sg, 'sk) lib \<Rightarrow> 'pk paired_recipient \<Rightarrow> key_agreement \<Rightarrow> tagged_stanza \<Rightarrow>
     (recipient_error, bool) result" where
  "matches_stanza_v2 L recipient selection_private stanza =
     bindE (ka_public_key selection_private) (\<lambda>own.
     bindE (failIf (own \<noteq> public_key_bytes L (desktop_selection recipient)) WrongSelectionKey) (\<lambda>_.
     bindE (parsed_stanza_parse L stanza) (\<lambda>parsed.
     if ps_version parsed \<noteq> V2 then Inr False
     else
       bindE (ka_agree selection_private (ps_ephemeral_bytes parsed)) (\<lambda>shared.
       let desktop = public_key_bytes L (desktop_selection recipient);
           phone = public_key_bytes L (phone_identity recipient)
       in bindE (derive_key L shared (ps_ephemeral_bytes parsed) desktop SELECTION_KDF_INFO_V2) (\<lambda>selection_key.
          let aad = selection_associated_data (ps_ephemeral_bytes parsed) phone desktop (ps_body parsed)
          in case ps_selection parsed of
               None \<Rightarrow> Inr False
             | Some selection \<Rightarrow>
                 bindE (failIf (\<not> aead_key_ok (sym L) selection_key) KeyDerivation_R) (\<lambda>_.
                 case aead_decrypt (sym L) selection_key NONCE aad selection of
                   None \<Rightarrow> Inr False
                 | Some plaintext \<Rightarrow>
                     Inr (length plaintext = ID_BYTES \<and> plaintext = paired_identity_id recipient)))))))"

subsection \<open>Canonical encodings\<close>

lemma valid_recipient_hrp [simp]: "valid_hrp RECIPIENT_HRP"
  by code_simp

lemma from_public_key_bytes_canonical:
  "from_public_key_bytes L b = Inr r \<Longrightarrow> pk_compressed (ec L) (recipient_key r) = b \<and> length b = 33"
  by (auto simp: from_public_key_bytes_def result_iff)

lemma from_public_key_bytes_compressed [simp]:
  assumes "p256_laws (ec L)"
  shows "from_public_key_bytes L (pk_compressed (ec L) k) = Inr (Recipient k)"
proof -
  obtain w b where "pk_compressed (ec L) k = w # b" "w = 2 \<or> w = 3" using assms by (rule pk_compressed_Cons)
  then have "sec1_compressed_tag (pk_compressed (ec L) k)" by (simp add: sec1_compressed_tag_def)
  with assms show ?thesis by (simp add: from_public_key_bytes_def)
qed

lemma from_public_key_bytes_iff:
  assumes "p256_laws (ec L)"
  shows "from_public_key_bytes L b = Inr r \<longleftrightarrow> b = pk_compressed (ec L) (recipient_key r)"
  using assms from_public_key_bytes_canonical [of L b r] by (cases r) auto

lemma recipient_plugin_bytes_iff:
  assumes "p256_laws (ec L)"
  shows "recipient_from_plugin_bytes L b = Inr r \<longleftrightarrow> b = recipient_plugin_bytes L r"
  using assms
  by (cases b) (auto simp: recipient_from_plugin_bytes_def recipient_plugin_bytes_def result_iff
      from_public_key_bytes_iff recipient_public_key_bytes_def)

lemma paired_plugin_bytes_iff:
  assumes "p256_laws (ec L)"
  shows "paired_from_plugin_bytes L b = Inr r \<longleftrightarrow>
    b = paired_plugin_bytes L r \<and> length (paired_identity_id r) = ID_BYTES"
proof -
  have "b = (b ! 0) # take 33 (drop 1 b) @ take 33 (drop 34 b) @ drop 67 b" if "length b = 83"
  proof -
    have "drop 34 b = take 33 (drop 34 b) @ drop 67 b"
      using append_take_drop_id [of 33 "drop 34 b"] by simp
    moreover have "drop 1 b = take 33 (drop 1 b) @ drop 34 b"
      using append_take_drop_id [of 33 "drop 1 b"] by simp
    ultimately have "drop 1 b = take 33 (drop 1 b) @ take 33 (drop 34 b) @ drop 67 b" by metis
    moreover have "b = (b ! 0) # drop 1 b" using that by (cases b) auto
    ultimately show ?thesis by metis
  qed
  moreover have "paired_from_plugin_bytes L (paired_plugin_bytes L r) = Inr r"
    if "length (paired_identity_id r) = ID_BYTES"
    using that assms
    by (simp add: paired_from_plugin_bytes_def paired_plugin_bytes_def from_public_fields_def public_key_bytes_def)
  moreover have "b = paired_plugin_bytes L r \<and> length (paired_identity_id r) = ID_BYTES"
    if "paired_from_plugin_bytes L b = Inr r"
    using that assms calculation(1)
    by (auto simp: paired_from_plugin_bytes_def paired_plugin_bytes_def from_public_fields_def
        result_iff from_public_key_bytes_iff public_key_bytes_def Let_def)
  ultimately show ?thesis by blast
qed

lemma recipient_to_string_total:
  assumes "bech32_codec (bech L)" shows "\<exists>t. recipient_to_string L r = Inr t"
proof -
  obtain t where "bech32_encode (bech L) RECIPIENT_HRP
      (to_base32 (bech L) (PAYLOAD_VERSION # recipient_public_key_bytes L r)) Bech32 = Some t"
    using bech32_codec.encode_ok [OF assms valid_recipient_hrp] by blast
  then show ?thesis by (simp add: recipient_to_string_def)
qed

lemma recipient_parse_iff_to_string:
  assumes x: "bech32_codec (bech L)" and p: "p256_laws (ec L)"
  shows "recipient_parse L t = Inr r \<longleftrightarrow> recipient_to_string L r = Inr t"
proof
  assume "recipient_to_string L r = Inr t"
  then have t: "bech32_encode (bech L) RECIPIENT_HRP
      (to_base32 (bech L) (PAYLOAD_VERSION # recipient_public_key_bytes L r)) Bech32 = Some t"
    and s: "recipient_to_string L r = Inr t"
    by (simp_all add: recipient_to_string_def result_iff)
  then show "recipient_parse L t = Inr r"
    using p bech32_codec.decode_rt [OF x _ t] bech32_codec.encode_lower [OF x _ t] bech32_codec.base32_rt [OF x]
    by (simp add: recipient_parse_def recipient_public_key_bytes_def)
qed (auto simp: recipient_parse_def result_iff)

lemma paired_parse_iff_to_string:
  assumes x: "bech32_codec (bech L)" and p: "p256_laws (ec L)"
  shows "paired_parse L t = Inr r \<longleftrightarrow>
    paired_to_string L r = Inr t \<and> length (paired_identity_id r) = ID_BYTES"
proof
  assume r: "paired_to_string L r = Inr t \<and> length (paired_identity_id r) = ID_BYTES"
  then have t: "bech32_encode (bech L) RECIPIENT_HRP
      (to_base32 (bech L) (paired_plugin_bytes L r)) Bech32 = Some t"
    by (simp add: paired_to_string_def result_iff)
  have "paired_from_plugin_bytes L (paired_plugin_bytes L r) = Inr r"
    using r p by (simp add: paired_plugin_bytes_iff)
  with r show "paired_parse L t = Inr r"
    using bech32_codec.decode_rt [OF x _ t] bech32_codec.encode_lower [OF x _ t] bech32_codec.base32_rt [OF x]
    by (simp add: paired_parse_def)
next
  assume "paired_parse L t = Inr r"
  with p show "paired_to_string L r = Inr t \<and> length (paired_identity_id r) = ID_BYTES"
    by (auto simp: paired_parse_def result_iff paired_plugin_bytes_iff)
qed

subsection \<open>Stanzas\<close>

lemma decode_base64_exact_iff:
  assumes "base64_engine (std64 L)"
  shows "decode_base64_exact L t n = Inr b \<longleftrightarrow> t = b64_encode (std64 L) b \<and> length b = n"
  using base64_engine.decode_encode [OF assms]
  by (auto simp: decode_base64_exact_def result_iff)

text \<open>What a parsed stanza looks like on the wire: the strict parser accepts the canonical
  form of each construction and nothing else.\<close>

lemma parsed_stanza_parse_iff:
  assumes b: "base64_engine (std64 L)" and p: "p256_laws (ec L)"
  shows "parsed_stanza_parse L s = Inr q \<longleftrightarrow>
    ps_ephemeral_bytes q = pk_compressed (ec L) (ps_ephemeral q) \<and> length (st_body s) = STANZA_BODY_BYTES \<and>
    ps_body q = st_body s \<and>
    (case ps_version q of
       V1 \<Rightarrow> st_tag s = STANZA_TAG \<and> st_args s = [b64_encode (std64 L) (ps_ephemeral_bytes q)] \<and>
            ps_selection q = None
     | V2 \<Rightarrow> st_tag s = STANZA_TAG_V2 \<and> (\<exists>c. ps_selection q = Some c \<and> length c = STANZA_BODY_BYTES \<and>
            st_args s = [b64_encode (std64 L) (ps_ephemeral_bytes q), b64_encode (std64 L) c]))"
  (is "_ \<longleftrightarrow> ?R")
proof
  assume "parsed_stanza_parse L s = Inr q"
  then obtain v a c d r where sh: "parsed_shape L s = Inr (v, a, c)" and
    l: "length (st_body s) = STANZA_BODY_BYTES" and d: "b64_encode (std64 L) d = a"
    and r: "from_public_key_bytes L d = Inr r" and
    q: "q = \<lparr> ps_version = v, ps_ephemeral = recipient_key r, ps_ephemeral_bytes = d,
              ps_selection = c, ps_body = st_body s \<rparr>"
    by (auto simp: parsed_stanza_parse_def result_iff)
  from sh have "case v of V1 \<Rightarrow> st_tag s = STANZA_TAG \<and> st_args s = [a] \<and> c = None
     | V2 \<Rightarrow> st_tag s = STANZA_TAG_V2 \<and> (\<exists>e. c = Some e \<and> length e = STANZA_BODY_BYTES \<and>
            st_args s = [a, b64_encode (std64 L) e])"
    by (auto simp: parsed_shape_def result_iff decode_base64_exact_iff [OF b] split: if_splits list.splits)
  with l d r q p show ?R by (auto simp: from_public_key_bytes_iff split: stanza_version.splits)
next
  assume ?R
  then show "parsed_stanza_parse L s = Inr q"
    using b p by (cases "ps_version q")
      (auto simp: parsed_stanza_parse_def parsed_shape_def base64_engine.decode_encode
         decode_base64_exact_iff [THEN iffD2])
qed

lemma derive_key_total:
  assumes "symmetric_laws (sym L)"
  obtains k where "derive_key L s e r i = Inr k" "length k = 32"
proof -
  have "(32 :: nat) \<le> 8160" by simp
  then obtain k where "hkdf (sym L) (e @ r) s i 32 = Some k" "length k = 32"
    by (rule hkdf_obtain [OF assms])
  then show thesis by (intro that) (simp add: derive_key_def)
qed

lemma derive_key_length: "symmetric_laws (sym L) \<Longrightarrow> derive_key L s e r i = Inr k \<Longrightarrow> length k = 32"
  using hkdf_ok [of "sym L" 32 "e @ r" s i] by (auto simp: derive_key_def)

lemma seal_with_total:
  assumes "symmetric_laws (sym L)" "length k = 32" "length m < 2 ^ 32"
  obtains c where "seal_with L k a m = Inr c"
proof -
  obtain c where "aead_encrypt (sym L) k NONCE a m = Some c"
    by (rule aead_obtain [OF assms(1,2) length_NONCE assms(3)])
  then have "seal_with L k a m = Inr c" using key_ok [OF assms(1,2)] by (simp add: seal_with_def)
  then show thesis by (rule that)
qed

lemma seal_with_open:
  assumes y: "symmetric_laws (sym L)" and k: "length k = 32" and c: "seal_with L k a m = Inr c"
  shows "length c = length m + 16" "aead_decrypt (sym L) k NONCE a c = Some m"
proof -
  have "aead_encrypt (sym L) k NONCE a m = Some c" using c by (simp add: seal_with_def result_iff)
  from encrypt_decrypt [OF y k length_NONCE this]
  show "length c = length m + 16" "aead_decrypt (sym L) k NONCE a c = Some m" by simp_all
qed

subsection \<open>The v1 construction\<close>

lemma wrap_file_key_total:
  assumes "p256_laws (ec L)" "symmetric_laws (sym L)" "length fk < 2 ^ 32"
  shows "\<exists>s. wrap_file_key L r fk e = Inr s"
proof -
  let ?e = "pk_compressed (ec L) (sk_public (ec L) e)" and ?r = "recipient_public_key_bytes L r"
  obtain k where k: "derive_key L (ecdh (ec L) e (recipient_key r)) ?e ?r KDF_INFO = Inr k" "length k = 32"
    by (rule derive_key_total [OF assms(2)])
  obtain c where "seal_with L k (associated_data ?e ?r) fk = Inr c"
    by (rule seal_with_total [OF assms(2) k(2) assms(3)])
  with k p256_rt(4) [OF assms(1)] show ?thesis
    by (simp add: wrap_file_key_def wrap_from_shared_secret_def)
qed

lemma wrap_file_key_parses:
  assumes "base64_engine (std64 L)" "p256_laws (ec L)" "symmetric_laws (sym L)"
    and "length fk = FILE_KEY_BYTES" "wrap_file_key L r fk e = Inr s"
  obtains k where "derive_key L (ecdh (ec L) e (recipient_key r)) (pk_compressed (ec L) (sk_public (ec L) e))
      (recipient_public_key_bytes L r) KDF_INFO = Inr k"
    "seal_with L k (associated_data (pk_compressed (ec L) (sk_public (ec L) e))
       (recipient_public_key_bytes L r)) fk = Inr (st_body s)"
    "st_tag s = STANZA_TAG"
    "parsed_stanza_parse L s = Inr \<lparr> ps_version = V1, ps_ephemeral = sk_public (ec L) e,
        ps_ephemeral_bytes = pk_compressed (ec L) (sk_public (ec L) e), ps_selection = None, ps_body = st_body s \<rparr>"
proof -
  from assms(5) obtain k where k: "derive_key L (ecdh (ec L) e (recipient_key r))
      (pk_compressed (ec L) (sk_public (ec L) e)) (recipient_public_key_bytes L r) KDF_INFO = Inr k"
    "seal_with L k (associated_data (pk_compressed (ec L) (sk_public (ec L) e))
       (recipient_public_key_bytes L r)) fk = Inr (st_body s)"
    and s: "st_tag s = STANZA_TAG" "st_args s = [b64_encode (std64 L) (pk_compressed (ec L) (sk_public (ec L) e))]"
    by (auto simp: wrap_file_key_def wrap_from_shared_secret_def result_iff Let_def)
  have "length (st_body s) = STANZA_BODY_BYTES"
    using seal_with_open(1) [OF assms(3) derive_key_length [OF assms(3) k(1)] k(2)] assms(4) by simp
  with s show thesis
    by (intro that [OF k]) (simp_all add: parsed_stanza_parse_iff [OF assms(1,2)])
qed

lemma decrypt_v1:
  assumes y: "symmetric_laws (sym L)" and fk: "length fk = FILE_KEY_BYTES"
    and k: "derive_key L z eb (recipient_public_key_bytes L r) KDF_INFO = Inr k"
    and c: "seal_with L k (associated_data eb (recipient_public_key_bytes L r)) fk = Inr body"
  shows "decrypt_with_shared_secret L r \<lparr> ps_version = V1, ps_ephemeral = e, ps_ephemeral_bytes = eb,
      ps_selection = sel, ps_body = body \<rparr> z = Inr fk"
  using seal_with_open(2) [OF y derive_key_length [OF y k] c] derive_key_length [OF y k] y k fk
  by (simp add: decrypt_with_shared_secret_def)

lemma decrypt_v2:
  assumes y: "symmetric_laws (sym L)" and fk: "length fk = FILE_KEY_BYTES"
    and k: "derive_key L z eb (recipient_public_key_bytes L r) FILE_KEY_KDF_INFO_V2 = Inr k"
    and c: "seal_with L k (file_key_associated_data_v2 eb (recipient_public_key_bytes L r)) fk = Inr body"
  shows "decrypt_with_shared_secret L r \<lparr> ps_version = V2, ps_ephemeral = e, ps_ephemeral_bytes = eb,
      ps_selection = sel, ps_body = body \<rparr> z = Inr fk"
  using seal_with_open(2) [OF y derive_key_length [OF y k] c] derive_key_length [OF y k] y k fk
  by (simp add: decrypt_with_shared_secret_def)

subsection \<open>The v2 construction\<close>

lemma wrap_file_key_v2_total:
  assumes p: "p256_laws (ec L)" and y: "symmetric_laws (sym L)"
    and "length fk < 2 ^ 32" "length (paired_identity_id r) < 2 ^ 32"
  shows "\<exists>s. wrap_file_key_v2 L r fk e = Inr s"
proof -
  let ?e = "pk_compressed (ec L) (sk_public (ec L) e)" and ?p = "public_key_bytes L (phone_identity r)"
    and ?d = "public_key_bytes L (desktop_selection r)"
  obtain k where k: "derive_key L (ecdh (ec L) e (phone_identity r)) ?e ?p FILE_KEY_KDF_INFO_V2 = Inr k"
    "length k = 32" by (rule derive_key_total [OF y])
  obtain c where c: "seal_with L k (file_key_associated_data_v2 ?e ?p) fk = Inr c"
    by (rule seal_with_total [OF y k(2) assms(3)])
  obtain k' where k': "derive_key L (ecdh (ec L) e (desktop_selection r)) ?e ?d SELECTION_KDF_INFO_V2 = Inr k'"
    "length k' = 32" by (rule derive_key_total [OF y])
  obtain c' where "seal_with L k' (selection_associated_data ?e ?p ?d c) (paired_identity_id r) = Inr c'"
    by (rule seal_with_total [OF y k'(2) assms(4)])
  with k c k' p256_rt(4) [OF p] show ?thesis
    by (simp add: wrap_file_key_v2_def wrap_v2_from_shared_secrets_def)
qed

text \<open>The stanza of a v2 wrap, taken apart: both keys, both ciphertexts, the parsed form.\<close>

lemma wrap_file_key_v2_parses:
  assumes b: "base64_engine (std64 L)" and p: "p256_laws (ec L)" and y: "symmetric_laws (sym L)"
    and fk: "length fk = FILE_KEY_BYTES" and i: "length (paired_identity_id r) = ID_BYTES"
    and w: "wrap_file_key_v2 L r fk e = Inr s"
  obtains k k' c' where
    "derive_key L (ecdh (ec L) e (phone_identity r)) (pk_compressed (ec L) (sk_public (ec L) e))
       (public_key_bytes L (phone_identity r)) FILE_KEY_KDF_INFO_V2 = Inr k"
    "seal_with L k (file_key_associated_data_v2 (pk_compressed (ec L) (sk_public (ec L) e))
       (public_key_bytes L (phone_identity r))) fk = Inr (st_body s)"
    "derive_key L (ecdh (ec L) e (desktop_selection r)) (pk_compressed (ec L) (sk_public (ec L) e))
       (public_key_bytes L (desktop_selection r)) SELECTION_KDF_INFO_V2 = Inr k'"
    "seal_with L k' (selection_associated_data (pk_compressed (ec L) (sk_public (ec L) e))
       (public_key_bytes L (phone_identity r)) (public_key_bytes L (desktop_selection r)) (st_body s))
       (paired_identity_id r) = Inr c'"
    "st_tag s = STANZA_TAG_V2"
    "parsed_stanza_parse L s = Inr \<lparr> ps_version = V2, ps_ephemeral = sk_public (ec L) e,
        ps_ephemeral_bytes = pk_compressed (ec L) (sk_public (ec L) e), ps_selection = Some c', ps_body = st_body s \<rparr>"
proof -
  let ?e = "pk_compressed (ec L) (sk_public (ec L) e)" and ?p = "public_key_bytes L (phone_identity r)"
    and ?d = "public_key_bytes L (desktop_selection r)"
  from w obtain k k' c' where k: "derive_key L (ecdh (ec L) e (phone_identity r)) ?e ?p FILE_KEY_KDF_INFO_V2 = Inr k"
    and c: "seal_with L k (file_key_associated_data_v2 ?e ?p) fk = Inr (st_body s)"
    and k': "derive_key L (ecdh (ec L) e (desktop_selection r)) ?e ?d SELECTION_KDF_INFO_V2 = Inr k'"
    and c': "seal_with L k' (selection_associated_data ?e ?p ?d (st_body s)) (paired_identity_id r) = Inr c'"
    and s: "st_tag s = STANZA_TAG_V2" "st_args s = [b64_encode (std64 L) ?e, b64_encode (std64 L) c']"
    by (auto simp: wrap_file_key_v2_def wrap_v2_from_shared_secrets_def result_iff Let_def)
  have "length (st_body s) = STANZA_BODY_BYTES" "length c' = STANZA_BODY_BYTES"
    using seal_with_open(1) [OF y derive_key_length [OF y k] c]
      seal_with_open(1) [OF y derive_key_length [OF y k'] c'] fk i by simp_all
  with s show thesis
    by (intro that [OF k c k' c']) (simp_all add: parsed_stanza_parse_iff [OF b p])
qed

subsection \<open>The key agreement contract\<close>

text \<open>
  What a \<open>P256KeyAgreement\<close> promises of the private scalar it holds: its public key and the
  raw ECDH value for every canonical peer.  The desktop selection needs nothing else, so the
  same lemmas serve the software key and a key held by platform hardware.
\<close>

locale p256_key_agreement =
  fixes L :: "('pk, 'sg, 'sk) lib" and ka :: key_agreement and key :: 'sk
  assumes public: "p256_laws (ec L) \<Longrightarrow> ka_public_key ka = Inr (pk_compressed (ec L) (sk_public (ec L) key))"
    and agrees: "p256_laws (ec L) \<Longrightarrow> ka_agree ka (pk_compressed (ec L) q) = Inr (ecdh (ec L) key q)"
begin

text \<open>Selection answers \<open>true\<close> exactly for the v2 stanzas whose selector is the sealed
  identity identifier of this recipient, bound to the ephemeral key and the body.\<close>

lemma matches_iff:
  assumes b: "base64_engine (std64 L)" and p: "p256_laws (ec L)" and y: "symmetric_laws (sym L)"
    and i: "length (paired_identity_id r) = ID_BYTES" and d: "desktop_selection r = sk_public (ec L) key"
  shows "matches_stanza_v2 L r ka s = Inr True \<longleftrightarrow>
    (\<exists>q k c. parsed_stanza_parse L s = Inr q \<and> ps_version q = V2 \<and> ps_selection q = Some c \<and>
      derive_key L (ecdh (ec L) key (ps_ephemeral q)) (ps_ephemeral_bytes q)
        (public_key_bytes L (desktop_selection r)) SELECTION_KDF_INFO_V2 = Inr k \<and>
      seal_with L k (selection_associated_data (ps_ephemeral_bytes q) (public_key_bytes L (phone_identity r))
        (public_key_bytes L (desktop_selection r)) (st_body s)) (paired_identity_id r) = Inr c)"
  (is "?M \<longleftrightarrow> ?R")
proof -
  have own: "ka_public_key ka = Inr (public_key_bytes L (desktop_selection r))"
    using public [OF p] by (simp add: public_key_bytes_def d)
  have eph: "ps_ephemeral_bytes q = pk_compressed (ec L) (ps_ephemeral q)" "ps_body q = st_body s"
    if "parsed_stanza_parse L s = Inr q" for q
    using that unfolding parsed_stanza_parse_iff [OF b p] by simp_all
  show ?thesis
  proof
    assume ?M
    then obtain q k c where q: "parsed_stanza_parse L s = Inr q" "ps_version q = V2" "ps_selection q = Some c"
      and k: "derive_key L (ecdh (ec L) key (ps_ephemeral q)) (ps_ephemeral_bytes q)
        (public_key_bytes L (desktop_selection r)) SELECTION_KDF_INFO_V2 = Inr k" and
      c: "aead_decrypt (sym L) k NONCE (selection_associated_data (ps_ephemeral_bytes q)
        (public_key_bytes L (phone_identity r)) (public_key_bytes L (desktop_selection r)) (st_body s)) c =
        Some (paired_identity_id r)"
      by (auto simp: matches_stanza_v2_def own result_iff eph agrees [OF p] Let_def
          split: if_splits option.splits stanza_version.splits)
    from decrypt_encrypt [OF y derive_key_length [OF y k] length_NONCE c] key_ok [OF y derive_key_length [OF y k]]
    show ?R using q k by (auto simp: seal_with_def)
  next
    assume ?R
    then obtain q k c where q: "parsed_stanza_parse L s = Inr q" "ps_version q = V2" "ps_selection q = Some c"
      and k: "derive_key L (ecdh (ec L) key (ps_ephemeral q)) (ps_ephemeral_bytes q)
        (public_key_bytes L (desktop_selection r)) SELECTION_KDF_INFO_V2 = Inr k" and
      c: "seal_with L k (selection_associated_data (ps_ephemeral_bytes q) (public_key_bytes L (phone_identity r))
        (public_key_bytes L (desktop_selection r)) (st_body s)) (paired_identity_id r) = Inr c"
      by blast
    from seal_with_open(2) [OF y derive_key_length [OF y k] c] key_ok [OF y derive_key_length [OF y k]]
    show ?M using q k i by (simp add: matches_stanza_v2_def own eph agrees [OF p])
  qed
qed

lemma selects_own_stanzas:
  assumes b: "base64_engine (std64 L)" and p: "p256_laws (ec L)" and y: "symmetric_laws (sym L)"
    and fk: "length fk = FILE_KEY_BYTES" and i: "length (paired_identity_id r) = ID_BYTES"
    and d: "desktop_selection r = sk_public (ec L) key" and w: "wrap_file_key_v2 L r fk e = Inr s"
  shows "matches_stanza_v2 L r ka s = Inr True"
proof -
  from b p y fk i w obtain k' c' where
    k': "derive_key L (ecdh (ec L) e (desktop_selection r)) (pk_compressed (ec L) (sk_public (ec L) e))
       (public_key_bytes L (desktop_selection r)) SELECTION_KDF_INFO_V2 = Inr k'" and
    c': "seal_with L k' (selection_associated_data (pk_compressed (ec L) (sk_public (ec L) e))
       (public_key_bytes L (phone_identity r)) (public_key_bytes L (desktop_selection r)) (st_body s))
       (paired_identity_id r) = Inr c'" and
    q: "parsed_stanza_parse L s = Inr \<lparr> ps_version = V2, ps_ephemeral = sk_public (ec L) e,
        ps_ephemeral_bytes = pk_compressed (ec L) (sk_public (ec L) e), ps_selection = Some c', ps_body = st_body s \<rparr>"
    by (rule wrap_file_key_v2_parses)
  have "ecdh (ec L) key (sk_public (ec L) e) = ecdh (ec L) e (desktop_selection r)"
    using ecdh_commute [OF p] d by simp
  then show ?thesis using q k' c' unfolding matches_iff [OF b p y i d] by auto
qed

end

interpretation software: p256_key_agreement L "signing_key_agreement L key" key for L key
  by unfold_locales (simp_all add: signing_key_agreement_def Let_def)

lemma matches_stanza_v2_wrong_key:
  assumes "p256_laws (ec L)" "sk_public (ec L) key \<noteq> desktop_selection r"
  shows "matches_stanza_v2 L r (signing_key_agreement L key) s = Inl WrongSelectionKey"
  using assms software.public [OF assms(1), of key]
  by (simp add: matches_stanza_v2_def public_key_bytes_def pk_compressed_inj)

end
