(* ===== verification/Recipient_Tag.thy ===== *)
theory Recipient_Tag
  imports Recipient
begin

text \<open>
  The C2SP p256tag construction (\<open>crates/core/src/recipient/tag.rs\<close>): the native tagged
  recipient text, strict stanza parsing, the four-byte prefilter, the RFC 9180 base-mode key
  schedule and the wrap and unwrap built on it; then the two operations of
  \<open>recipient/mod.rs\<close> that dispatch on the stanza tag, \<open>validate_stanza\<close> and
  \<open>unwrap_file_key\<close>, with the round trips of all three constructions.
\<close>

subsection \<open>Constants\<close>

definition TAG_STANZA_TAG :: string where "TAG_STANZA_TAG = ''p256tag''"
definition TAG_HRP :: string where "TAG_HRP = ''age1tag''"
definition TAG_INFO :: bytes where "TAG_INFO = str_bytes ''age-encryption.org/p256tag''"
definition KEM :: bytes where "KEM = str_bytes ''KEM'' @ [0, 16]"
definition SUITE :: bytes where "SUITE = str_bytes ''HPKE'' @ [0, 16, 0, 1, 0, 3]"

lemma tag_tags_distinct [simp]:
  "STANZA_TAG \<noteq> TAG_STANZA_TAG" "STANZA_TAG_V2 \<noteq> TAG_STANZA_TAG"
  "TAG_STANZA_TAG \<noteq> STANZA_TAG" "TAG_STANZA_TAG \<noteq> STANZA_TAG_V2"
  by (simp_all add: STANZA_TAG_def STANZA_TAG_V2_def TAG_STANZA_TAG_def)

lemma valid_tag_hrp [simp]: "valid_hrp TAG_HRP"
  by code_simp

subsection \<open>The tagged recipient\<close>

definition tag_recipient :: "('pk, 'sg, 'sk) lib \<Rightarrow> 'pk recipient \<Rightarrow> (recipient_error, string) result" where
  "tag_recipient L r =
     okOr RecipientEncoding
       (bech32_encode (bech L) TAG_HRP (to_base32 (bech L) (recipient_public_key_bytes L r)) Bech32)"

definition tag_parse_recipient :: "('pk, 'sg, 'sk) lib \<Rightarrow> string \<Rightarrow> (recipient_error, 'pk recipient) result" where
  "tag_parse_recipient L text =
     bindE (okOr NonCanonicalRecipient (bech32_decode (bech L) text)) (\<lambda>(hrp, data, variant).
     bindE (failIf (hrp \<noteq> TAG_HRP \<or> variant \<noteq> Bech32) WrongRecipientHrp) (\<lambda>_.
     bindE (okOr NonCanonicalRecipient (from_base32 (bech L) data)) (\<lambda>b.
     bindE (from_public_key_bytes L b) (\<lambda>key.
     bindE (tag_recipient L key) (\<lambda>t.
     if t \<noteq> text then Inl NonCanonicalRecipient else Inr key)))))"

subsection \<open>Stanzas and the prefilter\<close>

definition tag_parse :: "('pk, 'sg, 'sk) lib \<Rightarrow> tagged_stanza \<Rightarrow> (recipient_error, 'pk) result" where
  "tag_parse L stanza =
     bindE (failIf (st_tag stanza \<noteq> TAG_STANZA_TAG) UnknownStanzaType) (\<lambda>_.
     case st_args stanza of
       [t, e] \<Rightarrow>
         bindE (decode_base64_exact L t 4) (\<lambda>_.
         bindE (decode_base64_exact L e 65) (\<lambda>enc.
         bindE (failIf (length (st_body stanza) \<noteq> 32) InvalidBodyLength) (\<lambda>_.
         bindE (failIf (enc ! 0 \<noteq> 4) InvalidPublicKey_R) (\<lambda>_.
         bindE (okOr InvalidPublicKey_R (pk_from_sec1 (ec L) enc)) (\<lambda>key.
         if pk_uncompressed (ec L) key \<noteq> enc then Inl InvalidPublicKey_R else Inr key)))))
     | _ \<Rightarrow> Inl InvalidStanzaArguments)"

definition tag_selection :: "('pk, 'sg, 'sk) lib \<Rightarrow> 'pk recipient \<Rightarrow> bytes \<Rightarrow> bytes" where
  "tag_selection L r enc =
     (let hash = sha256 (sym L) (recipient_public_key_bytes L r)
      in take 4 (hkdf_extract (sym L) TAG_INFO (enc @ take 4 hash)))"

definition tag_matches ::
    "('pk, 'sg, 'sk) lib \<Rightarrow> 'pk recipient \<Rightarrow> tagged_stanza \<Rightarrow> (recipient_error, bool) result" where
  "tag_matches L r stanza =
     bindE (tag_parse L stanza) (\<lambda>key.
     Inr (b64_encode (std64 L) (tag_selection L r (pk_uncompressed (ec L) key)) = st_args stanza ! 0))"

subsection \<open>The key schedule\<close>

definition hpke_extract :: "('pk, 'sg, 'sk) lib \<Rightarrow> bytes \<Rightarrow> bytes \<Rightarrow> bytes \<Rightarrow> bytes \<Rightarrow> bytes" where
  "hpke_extract L suite salt label ikm =
     hkdf_extract (sym L) salt (str_bytes ''HPKE-v1'' @ suite @ label @ ikm)"

definition hpke_expand ::
    "('pk, 'sg, 'sk) lib \<Rightarrow> bytes \<Rightarrow> bytes \<Rightarrow> bytes \<Rightarrow> bytes \<Rightarrow> u16 \<Rightarrow> (recipient_error, bytes) result" where
  "hpke_expand L suite prk label info len =
     okOr KeyDerivation_R
       (hkdf_expand (sym L) prk
         (be_bytes 2 (unat len) @ str_bytes ''HPKE-v1'' @ suite @ label @ info) (unat len))"

definition tag_schedule ::
    "('pk, 'sg, 'sk) lib \<Rightarrow> bytes \<Rightarrow> bytes \<Rightarrow> 'pk recipient \<Rightarrow> (recipient_error, bytes \<times> bytes) result" where
  "tag_schedule L dh enc r =
     (let eae = hpke_extract L KEM [] (str_bytes ''eae_prk'') dh;
          context = enc @ pk_uncompressed (ec L) (recipient_key r)
      in bindE (hpke_expand L KEM eae (str_bytes ''shared_secret'') context 32) (\<lambda>shared.
         let psk = hpke_extract L SUITE [] (str_bytes ''psk_id_hash'') [];
             info = hpke_extract L SUITE [] (str_bytes ''info_hash'') TAG_INFO;
             context = [0] @ psk @ info;
             secret = hpke_extract L SUITE shared (str_bytes ''secret'') []
         in bindE (hpke_expand L SUITE secret (str_bytes ''key'') context 32) (\<lambda>key.
            bindE (hpke_expand L SUITE secret (str_bytes ''base_nonce'') context 12) (\<lambda>nonce.
            Inr (key, nonce)))))"

subsection \<open>Wrapping and unwrapping\<close>

definition tag_unwrap :: "('pk, 'sg, 'sk) lib \<Rightarrow> 'sk \<Rightarrow> tagged_stanza \<Rightarrow> (recipient_error, bytes) result" where
  "tag_unwrap L identity stanza =
     bindE (tag_parse L stanza) (\<lambda>enc.
     let r = Recipient (sk_public (ec L) identity)
     in bindE (tag_matches L r stanza) (\<lambda>m.
        bindE (failIf (\<not> m) Authentication) (\<lambda>_.
        bindE (tag_schedule L (ecdh (ec L) identity enc) (pk_uncompressed (ec L) enc) r) (\<lambda>(key, nonce).
        bindE (failIf (\<not> aead_key_ok (sym L) key) KeyDerivation_R) (\<lambda>_.
        bindE (okOr Authentication (aead_decrypt (sym L) key nonce [] (st_body stanza))) (\<lambda>plaintext.
        if length plaintext \<noteq> FILE_KEY_BYTES then Inl Authentication else Inr plaintext))))))"

definition tag_wrap ::
    "('pk, 'sg, 'sk) lib \<Rightarrow> 'pk recipient \<Rightarrow> bytes \<Rightarrow> 'sk \<Rightarrow> (recipient_error, tagged_stanza) result" where
  "tag_wrap L r file_key ephemeral =
     (let enc = pk_uncompressed (ec L) (sk_public (ec L) ephemeral);
          dh = ecdh (ec L) ephemeral (recipient_key r)
      in bindE (tag_schedule L dh enc r) (\<lambda>(key, nonce).
         bindE (failIf (\<not> aead_key_ok (sym L) key) KeyDerivation_R) (\<lambda>_.
         bindE (okOr Authentication (aead_encrypt (sym L) key nonce [] file_key)) (\<lambda>body.
         Inr \<lparr> st_tag = TAG_STANZA_TAG,
               st_args = [b64_encode (std64 L) (tag_selection L r enc), b64_encode (std64 L) enc],
               st_body = body \<rparr>))))"

subsection \<open>Dispatch on the stanza tag\<close>

definition validate_stanza :: "('pk, 'sg, 'sk) lib \<Rightarrow> tagged_stanza \<Rightarrow> (recipient_error, unit) result" where
  "validate_stanza L stanza =
     (if st_tag stanza = TAG_STANZA_TAG then bindE (tag_parse L stanza) (\<lambda>_. Inr ())
      else bindE (parsed_stanza_parse L stanza) (\<lambda>_. Inr ()))"

definition unwrap_file_key :: "('pk, 'sg, 'sk) lib \<Rightarrow> 'sk \<Rightarrow> tagged_stanza \<Rightarrow> (recipient_error, bytes) result" where
  "unwrap_file_key L identity stanza =
     (if st_tag stanza = TAG_STANZA_TAG then tag_unwrap L identity stanza
      else bindE (parsed_stanza_parse L stanza) (\<lambda>parsed.
           decrypt_with_shared_secret L (Recipient (sk_public (ec L) identity)) parsed
             (ecdh (ec L) identity (ps_ephemeral parsed))))"

subsection \<open>Facts about the p256tag construction\<close>

lemma tag_parse_recipient_iff:
  assumes x: "bech32_codec (bech L)" and p: "p256_laws (ec L)"
  shows "tag_parse_recipient L t = Inr r \<longleftrightarrow> tag_recipient L r = Inr t"
proof
  assume "tag_recipient L r = Inr t"
  then have t: "bech32_encode (bech L) TAG_HRP
      (to_base32 (bech L) (recipient_public_key_bytes L r)) Bech32 = Some t"
    and s: "tag_recipient L r = Inr t"
    by (simp_all add: tag_recipient_def result_iff)
  then show "tag_parse_recipient L t = Inr r"
    using p bech32_codec.decode_rt [OF x _ t] bech32_codec.base32_rt [OF x]
    by (simp add: tag_parse_recipient_def recipient_public_key_bytes_def)
qed (auto simp: tag_parse_recipient_def result_iff)

lemma tag_parse_iff:
  assumes b: "base64_engine (std64 L)" and p: "p256_laws (ec L)"
  shows "tag_parse L s = Inr k \<longleftrightarrow> st_tag s = TAG_STANZA_TAG \<and> length (st_body s) = 32 \<and>
    (\<exists>t. length t = 4 \<and> st_args s = [b64_encode (std64 L) t, b64_encode (std64 L) (pk_uncompressed (ec L) k)])"
proof -
  obtain u where u: "pk_uncompressed (ec L) k = 4 # u" using p by (rule pk_uncompressed_Cons)
  show ?thesis
    using p p256_rt(3,5) [OF p, of k] u
    by (auto simp: tag_parse_def result_iff decode_base64_exact_iff [OF b] split: list.splits)
qed

lemma hpke_expand_total:
  assumes y: "symmetric_laws (sym L)" and m: "unat m \<le> 8160"
  obtains o' where "hpke_expand L su (hpke_extract L s t l i) lb f m = Inr o'" "length o' = unat m"
proof -
  have "length (hpke_extract L s t l i) = 32" by (simp add: hpke_extract_def extract_length [OF y])
  then obtain o' where "hkdf_expand (sym L) (hpke_extract L s t l i)
      (be_bytes 2 (unat m) @ str_bytes ''HPKE-v1'' @ su @ lb @ f) (unat m) = Some o'" "length o' = unat m"
    by (rule hkdf_expand_obtain [OF y _ m])
  then show thesis by (intro that) (simp_all add: hpke_expand_def)
qed

lemma tag_schedule_total:
  assumes y: "symmetric_laws (sym L)"
  obtains k n where "tag_schedule L dh enc r = Inr (k, n)" "length k = 32" "length n = 12"
proof -
  have u: "unat (32 :: u16) \<le> 8160" "unat (12 :: u16) \<le> 8160" by simp_all
  let ?eae = "hpke_extract L KEM [] (str_bytes ''eae_prk'') dh"
  obtain sh where sh: "hpke_expand L KEM ?eae (str_bytes ''shared_secret'')
      (enc @ pk_uncompressed (ec L) (recipient_key r)) 32 = Inr sh"
    by (rule hpke_expand_total [OF y u(1)])
  let ?s = "hpke_extract L SUITE sh (str_bytes ''secret'') []"
  let ?c = "[0] @ hpke_extract L SUITE [] (str_bytes ''psk_id_hash'') [] @
      hpke_extract L SUITE [] (str_bytes ''info_hash'') TAG_INFO"
  obtain k where k: "hpke_expand L SUITE ?s (str_bytes ''key'') ?c 32 = Inr k" "length k = unat (32 :: u16)"
    by (rule hpke_expand_total [OF y u(1)])
  obtain n where n: "hpke_expand L SUITE ?s (str_bytes ''base_nonce'') ?c 12 = Inr n" "length n = unat (12 :: u16)"
    by (rule hpke_expand_total [OF y u(2)])
  show thesis using sh k n by (intro that [of k n]) (simp_all add: tag_schedule_def)
qed

lemma tag_wrap_total:
  assumes y: "symmetric_laws (sym L)" and m: "length fk < 2 ^ 32"
  shows "\<exists>s. tag_wrap L r fk e = Inr s"
proof -
  obtain k n where kn: "tag_schedule L (ecdh (ec L) e (recipient_key r))
      (pk_uncompressed (ec L) (sk_public (ec L) e)) r = Inr (k, n)" and l: "length k = 32" "length n = 12"
    by (rule tag_schedule_total [OF y])
  obtain c where "aead_encrypt (sym L) k n [] fk = Some c" using encrypt_ok [OF y l m] by blast
  with kn key_ok [OF y l(1)] show ?thesis by (simp add: tag_wrap_def Let_def)
qed

lemma tag_wrap_parses:
  assumes b: "base64_engine (std64 L)" and p: "p256_laws (ec L)" and y: "symmetric_laws (sym L)"
    and fk: "length fk = FILE_KEY_BYTES" and w: "tag_wrap L r fk e = Inr s"
  obtains k n where
    "tag_schedule L (ecdh (ec L) e (recipient_key r)) (pk_uncompressed (ec L) (sk_public (ec L) e)) r = Inr (k, n)"
    "aead_decrypt (sym L) k n [] (st_body s) = Some fk" "aead_key_ok (sym L) k"
    "tag_parse L s = Inr (sk_public (ec L) e)"
    "st_args s ! 0 = b64_encode (std64 L) (tag_selection L r (pk_uncompressed (ec L) (sk_public (ec L) e)))"
    "st_tag s = TAG_STANZA_TAG"
proof -
  let ?e = "pk_uncompressed (ec L) (sk_public (ec L) e)"
  obtain k n where kn: "tag_schedule L (ecdh (ec L) e (recipient_key r)) ?e r = Inr (k, n)"
    and l: "length k = 32" "length n = 12" by (rule tag_schedule_total [OF y])
  with w have c: "aead_encrypt (sym L) k n [] fk = Some (st_body s)" and s: "st_tag s = TAG_STANZA_TAG"
    "st_args s = [b64_encode (std64 L) (tag_selection L r ?e), b64_encode (std64 L) ?e]"
    by (auto simp: tag_wrap_def result_iff Let_def)
  have "length (tag_selection L r ?e) = 4" by (simp add: tag_selection_def extract_length [OF y])
  moreover have "length (st_body s) = 32" using encrypt_decrypt [OF y l c] fk by simp
  ultimately have "tag_parse L s = Inr (sk_public (ec L) e)" using s by (auto simp: tag_parse_iff [OF b p])
  with s show thesis using encrypt_decrypt [OF y l c] key_ok [OF y l(1)] by (intro that [OF kn]) simp_all
qed

subsection \<open>The round trips, through the tag dispatch\<close>

lemma unwrap_wrap_tag:
  assumes b: "base64_engine (std64 L)" and p: "p256_laws (ec L)" and y: "symmetric_laws (sym L)"
    and fk: "length fk = FILE_KEY_BYTES"
    and w: "tag_wrap L (Recipient (sk_public (ec L) identity)) fk e = Inr s"
  shows "unwrap_file_key L identity s = Inr fk" "validate_stanza L s = Inr ()"
proof -
  let ?r = "Recipient (sk_public (ec L) identity)"
  from b p y fk w obtain k n where
    kn: "tag_schedule L (ecdh (ec L) e (recipient_key ?r)) (pk_uncompressed (ec L) (sk_public (ec L) e)) ?r = Inr (k, n)"
    and s: "aead_decrypt (sym L) k n [] (st_body s) = Some fk" "aead_key_ok (sym L) k"
    "tag_parse L s = Inr (sk_public (ec L) e)"
    "st_args s ! 0 = b64_encode (std64 L) (tag_selection L ?r (pk_uncompressed (ec L) (sk_public (ec L) e)))"
    "st_tag s = TAG_STANZA_TAG"
    by (rule tag_wrap_parses)
  have "ecdh (ec L) identity (sk_public (ec L) e) = ecdh (ec L) e (recipient_key ?r)"
    using ecdh_commute [OF p] by simp
  with s kn fk show "unwrap_file_key L identity s = Inr fk" "validate_stanza L s = Inr ()"
    by (simp_all add: unwrap_file_key_def validate_stanza_def tag_unwrap_def tag_matches_def)
qed

lemma unwrap_wrap_v1:
  assumes b: "base64_engine (std64 L)" and p: "p256_laws (ec L)" and y: "symmetric_laws (sym L)"
    and fk: "length fk = FILE_KEY_BYTES"
    and w: "wrap_file_key L (Recipient (sk_public (ec L) identity)) fk e = Inr s"
  shows "unwrap_file_key L identity s = Inr fk" "validate_stanza L s = Inr ()"
proof -
  let ?r = "Recipient (sk_public (ec L) identity)" and ?e = "pk_compressed (ec L) (sk_public (ec L) e)"
  from b p y fk w obtain k where k: "derive_key L (ecdh (ec L) e (recipient_key ?r)) ?e
      (recipient_public_key_bytes L ?r) KDF_INFO = Inr k" and
    c: "seal_with L k (associated_data ?e (recipient_public_key_bytes L ?r)) fk = Inr (st_body s)" and
    s: "st_tag s = STANZA_TAG" and
    q: "parsed_stanza_parse L s = Inr \<lparr> ps_version = V1, ps_ephemeral = sk_public (ec L) e,
        ps_ephemeral_bytes = ?e, ps_selection = None, ps_body = st_body s \<rparr>"
    by (rule wrap_file_key_parses)
  have "ecdh (ec L) identity (sk_public (ec L) e) = ecdh (ec L) e (recipient_key ?r)"
    using ecdh_commute [OF p] by simp
  with s q decrypt_v1 [OF y fk k c]
  show "unwrap_file_key L identity s = Inr fk" "validate_stanza L s = Inr ()"
    by (simp_all add: unwrap_file_key_def validate_stanza_def)
qed

lemma unwrap_wrap_v2:
  assumes b: "base64_engine (std64 L)" and p: "p256_laws (ec L)" and y: "symmetric_laws (sym L)"
    and fk: "length fk = FILE_KEY_BYTES" and i: "length (paired_identity_id r) = ID_BYTES"
    and id: "phone_identity r = sk_public (ec L) identity"
    and w: "wrap_file_key_v2 L r fk e = Inr s"
  shows "unwrap_file_key L identity s = Inr fk" "validate_stanza L s = Inr ()"
proof -
  let ?e = "pk_compressed (ec L) (sk_public (ec L) e)"
  from b p y fk i w obtain k c' where
    k: "derive_key L (ecdh (ec L) e (phone_identity r)) ?e (public_key_bytes L (phone_identity r))
       FILE_KEY_KDF_INFO_V2 = Inr k" and
    c: "seal_with L k (file_key_associated_data_v2 ?e (public_key_bytes L (phone_identity r))) fk = Inr (st_body s)" and
    s: "st_tag s = STANZA_TAG_V2" and
    q: "parsed_stanza_parse L s = Inr \<lparr> ps_version = V2, ps_ephemeral = sk_public (ec L) e,
        ps_ephemeral_bytes = ?e, ps_selection = Some c', ps_body = st_body s \<rparr>"
    by (rule wrap_file_key_v2_parses)
  have r: "public_key_bytes L (phone_identity r) = recipient_public_key_bytes L (Recipient (sk_public (ec L) identity))"
    by (simp add: public_key_bytes_def recipient_public_key_bytes_def id)
  have "ecdh (ec L) identity (sk_public (ec L) e) = ecdh (ec L) e (phone_identity r)"
    using ecdh_commute [OF p] id by simp
  with s q decrypt_v2 [OF y fk k [unfolded r] c [unfolded r]]
  show "unwrap_file_key L identity s = Inr fk" "validate_stanza L s = Inr ()"
    by (simp_all add: unwrap_file_key_def validate_stanza_def)
qed

lemma decrypt_with_shared_secret_length:
  "decrypt_with_shared_secret L r q z = Inr fk \<Longrightarrow> length fk = FILE_KEY_BYTES"
  by (cases "ps_version q") (auto simp: decrypt_with_shared_secret_def result_iff Let_def)

lemma unwrap_validates: "unwrap_file_key L identity s = Inr fk \<Longrightarrow> validate_stanza L s = Inr () \<and> length fk = FILE_KEY_BYTES"
  by (auto simp: unwrap_file_key_def validate_stanza_def tag_unwrap_def
      result_iff Let_def dest: decrypt_with_shared_secret_length split: if_splits)

end
