(* ===== verification/Cbor_Reference.thy ===== *)
theory Cbor_Reference
  imports External
begin

text \<open>
  An executable CBOR codec after RFC 8949, on which the \<open>minicbor\<close> interface is
  interpreted: unsigned integers, byte strings, UTF-8 text, arrays and null, encoded with the
  shortest head and decoded with heads of any width.  The component theories never mention
  it; the concrete witnesses run on it.
\<close>

subsection \<open>Heads\<close>

definition cbor_head :: "nat \<Rightarrow> nat \<Rightarrow> bytes" where
  "cbor_head m n =
     (if n < 24 then [of_nat (32 * m + n)]
      else if n < 256 then of_nat (32 * m + 24) # be_bytes 1 n
      else if n < 65536 then of_nat (32 * m + 25) # be_bytes 2 n
      else if n < 4294967296 then of_nat (32 * m + 26) # be_bytes 4 n
      else of_nat (32 * m + 27) # be_bytes 8 n)"

definition read_be :: "nat \<Rightarrow> nat \<Rightarrow> bytes \<Rightarrow> (nat \<times> nat option \<times> bytes) option" where
  "read_be m k r = (if length r < k then None else Some (m, Some (be_value (take k r)), drop k r))"

text \<open>Major type, argument (\<open>None\<close> for the indefinite-length marker) and the rest.\<close>

fun read_head :: "bytes \<Rightarrow> (nat \<times> nat option \<times> bytes) option" where
  "read_head [] = None"
| "read_head (w # r) =
     (let m = unat w div 32; i = unat w mod 32
      in if i < 24 then Some (m, Some i, r)
         else if i = 24 then read_be m 1 r
         else if i = 25 then read_be m 2 r
         else if i = 26 then read_be m 4 r
         else if i = 27 then read_be m 8 r
         else if i = 31 then Some (m, None, r)
         else None)"

lemma read_be_be_bytes:
  "n < 256 ^ k \<Longrightarrow> read_be m k (be_bytes k n @ r) = Some (m, Some n, r)"
  by (simp add: read_be_def be_value_be_bytes)

lemma unat_head_byte: "m < 8 \<Longrightarrow> i < 32 \<Longrightarrow> unat (of_nat (32 * m + i) :: byte) = 32 * m + i"
  by (simp only: unat_of_nat, rule mod_less, simp)

lemma read_head_byte:
  assumes "m < 8" "i < 32"
  shows "unat (of_nat (32 * m + i) :: byte) div 32 = m" "unat (of_nat (32 * m + i) :: byte) mod 32 = i"
proof -
  note u = unat_head_byte [OF assms]
  show "unat (of_nat (32 * m + i) :: byte) div 32 = m" unfolding u using assms(2) by simp
  show "unat (of_nat (32 * m + i) :: byte) mod 32 = i" unfolding u using assms(2) by simp
qed

lemma read_head_cbor_head:
  assumes m: "m < 8" and n: "n < 2 ^ 64"
  shows "read_head (cbor_head m n @ r) = Some (m, Some n, r)"
proof -
  have rh: "read_head (of_nat (32 * m + i) # rest) =
     (if i < 24 then Some (m, Some i, rest) else if i = 24 then read_be m 1 rest
      else if i = 25 then read_be m 2 rest else if i = 26 then read_be m 4 rest
      else if i = 27 then read_be m 8 rest else if i = 31 then Some (m, None, rest) else None)"
    if "i < 32" for i rest
    by (simp only: read_head.simps Let_def read_head_byte [OF m that])
  consider "n < 24" | "24 \<le> n" "n < 256" | "256 \<le> n" "n < 65536" | "65536 \<le> n" "n < 4294967296"
    | "4294967296 \<le> n" by linarith
  then show ?thesis
  proof cases
    case 1
    then show ?thesis using rh [of n r] by (simp add: cbor_head_def del: read_head.simps)
  next
    case 2
    then show ?thesis using rh [of 24 "be_bytes 1 n @ r"] read_be_be_bytes [of n 1 m r]
      by (simp add: cbor_head_def del: read_head.simps be_bytes.simps)
  next
    case 3
    then show ?thesis using rh [of 25 "be_bytes 2 n @ r"] read_be_be_bytes [of n 2 m r]
      by (simp add: cbor_head_def del: read_head.simps be_bytes.simps)
  next
    case 4
    then show ?thesis using rh [of 26 "be_bytes 4 n @ r"] read_be_be_bytes [of n 4 m r]
      by (simp add: cbor_head_def del: read_head.simps be_bytes.simps)
  next
    case 5
    then show ?thesis using rh [of 27 "be_bytes 8 n @ r"] read_be_be_bytes [of n 8 m r] n
      by (simp add: cbor_head_def del: read_head.simps be_bytes.simps)
  qed
qed

lemma length_cbor_head [simp]: "length (cbor_head m n) = head_len n"
  by (simp add: cbor_head_def head_len_def)

subsection \<open>Items\<close>

definition read_uint :: "nat \<Rightarrow> bytes \<Rightarrow> (nat \<times> bytes) option" where
  "read_uint lim d =
     (case read_head d of
        Some (m, Some n, r) \<Rightarrow> if m = 0 \<and> n < lim then Some (n, r) else None
      | _ \<Rightarrow> None)"

definition read_array :: "bytes \<Rightarrow> (u64 option \<times> bytes) option" where
  "read_array d =
     (case read_head d of
        Some (m, n, r) \<Rightarrow> if m = 4 then Some (map_option of_nat n, r) else None
      | None \<Rightarrow> None)"

definition read_string :: "nat \<Rightarrow> bytes \<Rightarrow> (bytes \<times> bytes) option" where
  "read_string m' d =
     (case read_head d of
        Some (m, Some n, r) \<Rightarrow>
          if m = m' \<and> n \<le> length r then Some (take n r, drop n r) else None
      | _ \<Rightarrow> None)"

definition read_text :: "bytes \<Rightarrow> (string \<times> bytes) option" where
  "read_text d =
     (case read_string 3 d of
        Some (b, r) \<Rightarrow> if utf8_valid (bytes_str b) then Some (bytes_str b, r) else None
      | None \<Rightarrow> None)"

definition read_null :: "bytes \<Rightarrow> bytes option" where
  "read_null d = (case d of w # r \<Rightarrow> if w = 246 then Some r else None | [] \<Rightarrow> None)"

definition read_bool :: "bytes \<Rightarrow> (bool \<times> bytes) option" where
  "read_bool d = (case d of w # r \<Rightarrow> if w = 244 then Some (False, r) else if w = 245 then Some (True, r) else None | [] \<Rightarrow> None)"

definition peek_type :: "bytes \<Rightarrow> cbor_type option" where
  "peek_type d =
     (case d of [] \<Rightarrow> None
      | w # _ \<Rightarrow> Some (if w = 246 then TNull
                      else if unat w div 32 = 2 \<and> unat w mod 32 < 28 then TBytes
                      else if unat w div 32 = 3 \<and> unat w mod 32 < 28 then TString else TOther))"

definition rfc8949 :: cbor where
  "rfc8949 = \<lparr>
     e_array = (\<lambda>n. cbor_head 4 (unat n)),
     e_u16 = (\<lambda>n. cbor_head 0 (unat n)),
     e_u32 = (\<lambda>n. cbor_head 0 (unat n)),
     e_u64 = (\<lambda>n. cbor_head 0 (unat n)),
     e_bytes = (\<lambda>b. cbor_head 2 (length b) @ b),
     e_str = (\<lambda>s. cbor_head 3 (length s) @ str_bytes s),
     e_null = [246],
     e_bool = (\<lambda>c. [if c then 245 else 244]),
     d_array = read_array,
     d_u16 = (\<lambda>d. map_option (\<lambda>(n, r). (of_nat n, r)) (read_uint 65536 d)),
     d_u32 = (\<lambda>d. map_option (\<lambda>(n, r). (of_nat n, r)) (read_uint 4294967296 d)),
     d_u64 = (\<lambda>d. map_option (\<lambda>(n, r). (of_nat n, r)) (read_uint 18446744073709551616 d)),
     d_bytes = read_string 2,
     d_str = read_text,
     d_null = read_null,
     d_bool = read_bool,
     d_type = peek_type \<rparr>"

lemma read_uint_head: "n < lim \<Longrightarrow> n < 2 ^ 64 \<Longrightarrow> read_uint lim (cbor_head 0 n @ r) = Some (n, r)"
  by (simp add: read_uint_def read_head_cbor_head)

lemma read_string_head:
  "m < 8 \<Longrightarrow> length b < 2 ^ 64 \<Longrightarrow> read_string m (cbor_head m (length b) @ b @ r) = Some (b, r)"
  by (simp add: read_string_def read_head_cbor_head)

lemma peek_type_byte:
  assumes "i < 28" "m = 2 \<or> m = 3"
  shows "peek_type (of_nat (32 * m + i) # t) = Some (if m = 2 then TBytes else TString)"
proof -
  have u: "unat (of_nat (32 * m + i) :: byte) = 32 * m + i" using assms by (intro unat_head_byte) linarith+
  have "(of_nat (32 * m + i) :: byte) \<noteq> 246"
  proof
    assume "(of_nat (32 * m + i) :: byte) = 246"
    then have "unat (of_nat (32 * m + i) :: byte) = unat (246 :: byte)" by (simp only:)
    moreover have "unat (246 :: byte) = 246" by simp
    ultimately have "32 * m + i = 246" by (simp only: u)
    with assms show False by linarith
  qed
  moreover have d: "(32 * m + i) div 32 = m" using assms by (elim disjE) linarith+
  moreover have "(32 * m + i) mod 32 = i" using assms(1) d by (metis add_left_cancel mult_div_mod_eq)
  ultimately show ?thesis unfolding peek_type_def list.case u using assms by (elim disjE) simp_all
qed

lemma peek_type_head:
  assumes "m = 2 \<or> m = 3"
  shows "peek_type (cbor_head m n @ t) = Some (if m = 2 then TBytes else TString)"
proof (cases "n < 24")
  case True
  then have "n < 28" by simp
  from peek_type_byte [OF this assms, of t] True show ?thesis by (simp only: cbor_head_def if_True append.simps)
next
  case False
  with assms show ?thesis by (elim disjE) (simp_all add: cbor_head_def peek_type_def)
qed

interpretation rfc: cbor_sized rfc8949
proof
  fix n :: u64 and v16 :: u16 and v32 :: u32 and v64 :: u64 and r d b :: bytes and s :: string
  have u64: "unat n < 2 ^ 64" for n :: u64 using unsigned_less [of n] by simp
  have u32: "unat n < 2 ^ 32" for n :: u32 using unsigned_less [of n] by simp
  have u16: "unat n < 2 ^ 16" for n :: u16 using unsigned_less [of n] by simp
  show "d_array rfc8949 (e_array rfc8949 n @ r) = Some (Some n, r)"
    using u64 [of n] by (simp add: rfc8949_def read_array_def read_head_cbor_head)
  show "d_u16 rfc8949 (e_u16 rfc8949 v16 @ r) = Some (v16, r)"
    using u16 [of v16] by (simp add: rfc8949_def read_uint_head)
  show "d_u32 rfc8949 (e_u32 rfc8949 v32 @ r) = Some (v32, r)"
    using u32 [of v32] by (simp add: rfc8949_def read_uint_head)
  show "d_u64 rfc8949 (e_u64 rfc8949 v64 @ r) = Some (v64, r)"
    using u64 [of v64] by (simp add: rfc8949_def read_uint_head)
  show "length b < 2 ^ 64 \<Longrightarrow> d_bytes rfc8949 (e_bytes rfc8949 b @ r) = Some (b, r)"
    by (simp add: rfc8949_def read_string_head)
  show "utf8_valid s \<Longrightarrow> length s < 2 ^ 64 \<Longrightarrow> d_str rfc8949 (e_str rfc8949 s @ r) = Some (s, r)"
    using read_string_head [of 3 "str_bytes s" r] by (simp add: rfc8949_def read_text_def)
  show "d_null rfc8949 (e_null rfc8949 @ r) = Some r"
    by (simp add: rfc8949_def read_null_def)
  show "d_type rfc8949 (e_null rfc8949 @ r) = Some TNull"
    by (simp add: rfc8949_def peek_type_def)
  show "length s < 2 ^ 64 \<Longrightarrow> d_type rfc8949 (e_str rfc8949 s @ r) = Some TString"
    using peek_type_head [of 3 "length s" "str_bytes s @ r"] by (simp add: rfc8949_def)
  show "length b < 2 ^ 64 \<Longrightarrow> d_type rfc8949 (e_bytes rfc8949 b @ r) = Some TBytes"
    using peek_type_head [of 2 "length b" "b @ r"] by (simp add: rfc8949_def)
  show "d_bool rfc8949 (e_bool rfc8949 c @ r) = Some (c, r)" "length (e_bool rfc8949 c) = 1" for c
    by (simp_all add: rfc8949_def read_bool_def)
  show "d_str rfc8949 d = Some (s, r) \<Longrightarrow> utf8_valid s"
    by (auto simp: rfc8949_def read_text_def split: option.splits if_splits)
  show "length b \<le> length (e_bytes rfc8949 b)" by (simp add: rfc8949_def)
  show "length (e_array rfc8949 n) = head_len (unat n)" "length (e_u16 rfc8949 v16) = head_len (unat v16)"
    "length (e_u32 rfc8949 v32) = head_len (unat v32)" "length (e_u64 rfc8949 v64) = head_len (unat v64)"
    by (simp_all add: rfc8949_def)
  show "length (e_bytes rfc8949 b) = head_len (length b) + length b"
    "length (e_str rfc8949 s) = head_len (length s) + length s" by (simp_all add: rfc8949_def)
  show "length (e_null rfc8949) = 1" by (simp add: rfc8949_def)
qed

end
