(* ===== verification/Text_Reference.thy ===== *)
theory Text_Reference
  imports External
begin

unbundle bit_operations_syntax

text \<open>
  Executable text codecs on which the interfaces of \<open>External\<close> are interpreted: unpadded
  base64 (RFC 4648) in its standard and URL-safe alphabets, and Bech32/Bech32m (BIP 173,
  BIP 350) with the real BCH checksum.  As with \<open>Cbor_Reference\<close>, the component theories
  never mention them.
\<close>

subsection \<open>base64 without padding\<close>

definition b64_char :: "char \<Rightarrow> char \<Rightarrow> nat \<Rightarrow> char" where
  "b64_char p q n =
     (if n < 26 then char_of (65 + n) else if n < 52 then char_of (71 + n)
      else if n < 62 then char_of (n - 4) else if n = 62 then p else q)"

definition b64_value :: "char \<Rightarrow> char \<Rightarrow> char \<Rightarrow> nat option" where
  "b64_value p q c =
     (let n = of_char c :: nat
      in if 65 \<le> n \<and> n < 91 then Some (n - 65) else if 97 \<le> n \<and> n < 123 then Some (n - 71)
         else if 48 \<le> n \<and> n < 58 then Some (n + 4)
         else if c = p then Some 62 else if c = q then Some 63 else None)"

fun sextets :: "nat list \<Rightarrow> nat list" where
  "sextets [] = []"
| "sextets [a] = [a div 4, a mod 4 * 16]"
| "sextets [a, b] = [a div 4, a mod 4 * 16 + b div 16, b mod 16 * 4]"
| "sextets (a # b # c # r) =
     [a div 4, a mod 4 * 16 + b div 16, b mod 16 * 4 + c div 64, c mod 64] @ sextets r"

text \<open>Decoding refuses a lone symbol and non-zero trailing bits.\<close>

fun octets :: "nat list \<Rightarrow> nat list option" where
  "octets [] = Some []"
| "octets [x] = None"
| "octets [x, y] = (if y mod 16 = 0 then Some [x * 4 + y div 16] else None)"
| "octets [x, y, z] =
     (if z mod 4 = 0 then Some [x * 4 + y div 16, y mod 16 * 16 + z div 4] else None)"
| "octets (x # y # z # w # r) =
     map_option (\<lambda>t. [x * 4 + y div 16, y mod 16 * 16 + z div 4, z mod 4 * 64 + w] @ t) (octets r)"

definition base64_nopad :: "char \<Rightarrow> char \<Rightarrow> b64" where
  "base64_nopad p q = \<lparr>
     b64_encode = (\<lambda>b. map (b64_char p q) (sextets (map unat b))),
     b64_decode = (\<lambda>s. case those (map (b64_value p q) s) of
        None \<Rightarrow> None | Some v \<Rightarrow> map_option (map of_nat) (octets v)) \<rparr>"

lemma octets_sextets: "\<forall>a \<in> set xs. a < 256 \<Longrightarrow> octets (sextets xs) = Some xs"
proof (induction xs rule: sextets.induct)
  case (2 a)
  then show ?case by simp
next
  case (3 a b)
  then have "b div 16 < 16" by auto
  then show ?case by simp
next
  case (4 a b c r)
  then have "b div 16 < 16" "c div 64 < 4" by auto
  with 4 show ?case by simp
qed simp

lemma sextets_less: "\<forall>a \<in> set xs. a < 256 \<Longrightarrow> \<forall>v \<in> set (sextets xs). v < 64"
proof (induction xs rule: sextets.induct)
  case (3 a b)
  then have "b div 16 < 16" "a mod 4 < 4" by auto
  with 3 show ?case by auto
next
  case (4 a b c r)
  then have "b div 16 < 16" "a mod 4 < 4" "c div 64 < 4" "b mod 16 < 16" by auto
  with 4 show ?case by auto
qed auto

lemma length_sextets: "length (sextets xs) = (4 * length xs + 2) div 3"
  by (induction xs rule: sextets.induct) simp_all

lemma b64_char_ascii:
  "n < 64 \<Longrightarrow> (of_char p :: nat) < 128 \<Longrightarrow> (of_char q :: nat) < 128 \<Longrightarrow> (of_char (b64_char p q n) :: nat) < 128"
  by (simp add: b64_char_def less_imp_diff_less)

text \<open>The two symbols beyond the alphanumeric ones.\<close>

definition extra_symbols :: "char \<Rightarrow> char \<Rightarrow> bool" where
  "extra_symbols p q \<longleftrightarrow> p \<noteq> q \<and>
     (\<forall>c \<in> {p, q}. let n = of_char c :: nat in
        \<not> (65 \<le> n \<and> n < 91) \<and> \<not> (97 \<le> n \<and> n < 123) \<and> \<not> (48 \<le> n \<and> n < 58) \<and> n < 128 \<and> n \<noteq> 61)"

lemma b64_value_char:
  assumes "n < 64" and pq: "extra_symbols p q"
  shows "b64_value p q (b64_char p q n) = Some n"
proof -
  consider "n < 26" | "26 \<le> n" "n < 52" | "52 \<le> n" "n < 62" | "n = 62" | "n = 63"
    using assms(1) by linarith
  then show ?thesis
  proof cases
    case 1
    then show ?thesis by (simp add: b64_char_def b64_value_def)
  next
    case 2
    then show ?thesis by (simp add: b64_char_def b64_value_def)
  next
    case 3
    define m where "m = n - 52"
    with 3 have "n = 52 + m" "m < 10" by linarith+
    then show ?thesis by (simp add: b64_char_def b64_value_def Let_def)
  next
    case 4
    with pq show ?thesis by (auto simp: b64_char_def b64_value_def extra_symbols_def Let_def)
  next
    case 5
    with pq show ?thesis by (auto simp: b64_char_def b64_value_def extra_symbols_def Let_def)
  qed
qed

lemma b64_char_no_pad:
  assumes "n < 64" and pq: "extra_symbols p q"
  shows "b64_char p q n \<noteq> CHR ''=''"
proof
  assume eq: "b64_char p q n = CHR ''=''"
  have "b64_value p q (CHR ''='') = Some n" using b64_value_char [OF assms] eq by simp
  then have "p = CHR ''='' \<or> q = CHR ''=''" by (simp add: b64_value_def split: if_splits)
  with pq show False by (auto simp: extra_symbols_def Let_def)
qed

lemma those_map_Some: "(\<And>x. x \<in> set xs \<Longrightarrow> f x = Some (g x)) \<Longrightarrow> those (map f xs) = Some (map g xs)"
  by (induction xs) simp_all

lemma base64_nopad_engine:
  assumes pq: "extra_symbols p q"
  shows "base64_engine (base64_nopad p q)"
proof
  fix b :: bytes
  let ?v = "sextets (map unat b)"
  have less: "v < 64" if "v \<in> set ?v" for v using sextets_less [of "map unat b"] that by auto
  have "those (map (b64_value p q) (map (b64_char p q) ?v)) = Some ?v"
    using those_map_Some [of ?v "b64_value p q \<circ> b64_char p q" id] b64_value_char [OF less pq] by simp
  moreover have "octets ?v = Some (map unat b)" by (rule octets_sextets) auto
  ultimately show "b64_decode (base64_nopad p q) (b64_encode (base64_nopad p q) b) = Some b"
    by (simp add: base64_nopad_def comp_def)
  have "(of_char p :: nat) < 128" "(of_char q :: nat) < 128"
    using pq by (simp_all add: extra_symbols_def Let_def)
  then show "is_ascii (b64_encode (base64_nopad p q) b)"
    using less b64_char_ascii by (simp add: is_ascii_def base64_nopad_def list_all_iff)
  show "CHR ''='' \<notin> set (b64_encode (base64_nopad p q) b)"
    using b64_char_no_pad [OF less pq] by (auto simp: base64_nopad_def dest: sym)
  show "length (b64_encode (base64_nopad p q) b) = (4 * length b + 2) div 3"
    by (simp add: base64_nopad_def length_sextets)
qed

definition standard_no_pad :: b64 where
  "standard_no_pad = base64_nopad (CHR ''+'') (CHR ''/'')"

definition url_safe_no_pad :: b64 where
  "url_safe_no_pad = base64_nopad (CHR ''-'') (CHR ''_'')"

interpretation std: base64_engine standard_no_pad
  unfolding standard_no_pad_def by (rule base64_nopad_engine) (simp add: extra_symbols_def)

interpretation url: base64_engine url_safe_no_pad
  unfolding url_safe_no_pad_def by (rule base64_nopad_engine) (simp add: extra_symbols_def)

subsection \<open>Regrouping octets into five-bit symbols\<close>

fun symbols :: "nat \<Rightarrow> nat \<Rightarrow> u5 list" where
  "symbols 0 n = []"
| "symbols (Suc k) n = of_nat (n div 32 ^ k) # symbols k n"

definition symbols_value :: "u5 list \<Rightarrow> nat" where
  "symbols_value d = foldl (\<lambda>a w. 32 * a + unat w) 0 d"

lemma length_symbols [simp]: "length (symbols k n) = k"
  by (induction k) simp_all

lemma symbols_value_foldl:
  "foldl (\<lambda>a w. 32 * a + unat w) z d = z * 32 ^ length d + symbols_value (d :: u5 list)"
proof (induction d arbitrary: z)
  case (Cons w d)
  have "symbols_value (w # d) = unat w * 32 ^ length d + symbols_value d"
    using Cons [of "unat w"] by (simp add: symbols_value_def)
  then show ?case using Cons [of "32 * z + unat w"] by (simp add: algebra_simps)
qed (simp add: symbols_value_def)

lemma symbols_value_symbols: "symbols_value (symbols k n) = n mod 32 ^ k"
proof (induction k)
  case 0
  then show ?case by (simp add: symbols_value_def)
next
  case (Suc k)
  have "n mod 32 ^ Suc k = 32 ^ k * (n div 32 ^ k mod 32) + n mod 32 ^ k"
    using mod_mult2_eq [of n "32 ^ k" 32] by (simp add: mult.commute)
  moreover have "symbols_value (symbols (Suc k) n) =
      unat (of_nat (n div 32 ^ k) :: u5) * 32 ^ k + symbols_value (symbols k n)"
    using symbols_value_foldl [of "unat (of_nat (n div 32 ^ k) :: u5)" "symbols k n"]
    by (simp add: symbols_value_def)
  ultimately show ?case using Suc by (simp add: unsigned_of_nat take_bit_eq_mod)
qed

definition regroup :: "bytes \<Rightarrow> u5 list" where
  "regroup b = (let l = (8 * length b + 4) div 5 in symbols l (be_value b * 2 ^ (5 * l - 8 * length b)))"

text \<open>Unused trailing bits must be fewer than five and zero.\<close>

definition ungroup :: "u5 list \<Rightarrow> bytes option" where
  "ungroup d =
     (let n = 5 * length d div 8; pad = 5 * length d - 8 * n; m = symbols_value d
      in if 5 \<le> pad \<or> m mod 2 ^ pad \<noteq> 0 then None else Some (be_bytes n (m div 2 ^ pad)))"

lemma ungroup_regroup: "ungroup (regroup b) = Some b"
proof -
  define n l where "n = length b" and "l = (8 * n + 4) div 5"
  have nl: "5 * l div 8 = n" "8 * n \<le> 5 * l" "5 * l - 8 * n < 5" unfolding l_def by linarith+
  have "be_value b < 2 ^ (8 * n)" using be_value_less [of b] by (simp add: n_def power_mult)
  then have "be_value b * 2 ^ (5 * l - 8 * n) < 2 ^ (8 * n) * 2 ^ (5 * l - 8 * n)" by simp
  also have "\<dots> = 2 ^ (8 * n + (5 * l - 8 * n))" by (simp only: power_add)
  also have "8 * n + (5 * l - 8 * n) = 5 * l" using nl(2) by simp
  also have "(2 :: nat) ^ (5 * l) = 32 ^ l" by (simp add: power_mult)
  finally have "symbols_value (regroup b) = be_value b * 2 ^ (5 * l - 8 * n)"
    by (simp add: regroup_def Let_def symbols_value_symbols l_def n_def)
  moreover have "length (regroup b) = l" by (simp add: regroup_def Let_def l_def n_def)
  ultimately show ?thesis
    using nl be_bytes_be_value [of b] by (simp add: ungroup_def Let_def n_def)
qed

subsection \<open>The Bech32 checksum\<close>

definition bch_gens :: "u32 \<Rightarrow> u32" where
  "bch_gens t =
     (if bit t 0 then 0x3b6a57b2 else 0) XOR (if bit t 1 then 0x26508e6d else 0) XOR
     (if bit t 2 then 0x1ea119fa else 0) XOR (if bit t 3 then 0x3d4233dd else 0) XOR
     (if bit t 4 then 0x2a1462b3 else 0)"

definition bch_step :: "u32 \<Rightarrow> u32 \<Rightarrow> u32" where
  "bch_step c v = push_bit 5 (take_bit 25 c) XOR v XOR bch_gens (drop_bit 25 c)"

definition polymod :: "u32 \<Rightarrow> u32 list \<Rightarrow> u32" where
  "polymod c vs = foldl bch_step c vs"

definition slice5 :: "nat \<Rightarrow> u32 \<Rightarrow> u32" where
  "slice5 k p = take_bit 5 (drop_bit (5 * k) p)"

definition checksum_of :: "u32 \<Rightarrow> u32 list" where
  "checksum_of p = [slice5 5 p, slice5 4 p, slice5 3 p, slice5 2 p, slice5 1 p, slice5 0 p]"

lemma bch_gens_xor: "bch_gens (s XOR t) = bch_gens s XOR bch_gens t"
  unfolding bch_gens_def bit_xor_iff
  by (rule bit_word_eqI) (auto simp: bit_xor_iff split: if_splits)

lemma bch_step_xor: "bch_step (c XOR d) (v XOR w) = bch_step c v XOR bch_step d w"
  by (simp add: bch_step_def bch_gens_xor take_bit_xor push_bit_xor drop_bit_xor ac_simps)

lemma polymod_xor:
  "length vs = length ws \<Longrightarrow>
   polymod (c XOR d) (map2 (XOR) vs ws) = polymod c vs XOR polymod d ws"
  by (induction vs ws arbitrary: c d rule: list_induct2) (simp_all add: polymod_def bch_step_xor)

lemma bch_step_small: "take_bit 25 c = c \<Longrightarrow> bch_step c v = push_bit 5 c XOR v"
proof -
  assume c: "take_bit 25 c = c"
  then have "drop_bit 25 c = 0" by (metis drop_bit_take_bit diff_self_eq_0 take_bit_0)
  with c show ?thesis by (simp add: bch_step_def bch_gens_def)
qed

lemma slice5_join:
  "push_bit 5 (drop_bit (5 * Suc k) p) XOR slice5 k p = drop_bit (5 * k) (p :: u32)"
  unfolding slice5_def
  by (rule bit_word_eqI)
    (auto simp: bit_xor_iff bit_push_bit_iff bit_drop_bit_eq bit_take_bit_iff add.commute)

lemma drop_small:
  assumes "take_bit 30 p = (p :: u32)" and "5 \<le> k"
  shows "take_bit 25 (drop_bit k p) = drop_bit k p"
proof -
  have "drop_bit k p = drop_bit k (take_bit 30 p)" using assms(1) by simp
  also have "\<dots> = take_bit (30 - k) (drop_bit k p)" by (rule drop_bit_take_bit)
  finally have eq: "drop_bit k p = take_bit (30 - k) (drop_bit k p)" .
  then have "take_bit 25 (drop_bit k p) = take_bit 25 (take_bit (30 - k) (drop_bit k p))" by simp
  also have "\<dots> = take_bit (30 - k) (drop_bit k p)" using assms(2) by (simp add: min_absorb2)
  finally show ?thesis using eq by simp
qed

lemma polymod_checksum_of:
  assumes "take_bit 30 p = p"
  shows "polymod 0 (checksum_of p) = p"
proof -
  have "slice5 5 p = drop_bit 25 p"
    using drop_bit_take_bit [of 25 30 p] assms by (simp add: slice5_def)
  then have "bch_step 0 (slice5 5 p) = drop_bit (5 * 5) p"
    by (simp add: bch_step_small)
  moreover have "bch_step (drop_bit (5 * Suc k) p) (slice5 k p) = drop_bit (5 * k) p" for k
  proof -
    have "take_bit 25 (drop_bit (5 * Suc k) p) = drop_bit (5 * Suc k) p"
      by (rule drop_small [OF assms]) simp
    then show ?thesis by (simp only: bch_step_small slice5_join)
  qed
  note this [of 4] this [of 3] this [of 2] this [of 1] this [of 0]
  ultimately show ?thesis by (simp add: polymod_def checksum_of_def)
qed

text \<open>Values stay within thirty bits.\<close>

definition small30 :: "u32 \<Rightarrow> bool" where
  "small30 c \<longleftrightarrow> take_bit 30 c = c"

lemma small30_xor: "small30 a \<Longrightarrow> small30 b \<Longrightarrow> small30 (a XOR b)"
  by (simp add: small30_def take_bit_xor)

lemma small30_gens: "small30 (bch_gens t)"
  unfolding bch_gens_def by (intro small30_xor) (simp_all add: small30_def)

lemma small30_step: "small30 v \<Longrightarrow> small30 (bch_step c v)"
proof -
  have "small30 (push_bit 5 (take_bit 25 c))"
    unfolding small30_def by (rule bit_word_eqI) (auto simp: bit_push_bit_iff bit_take_bit_iff)
  then show "small30 v \<Longrightarrow> small30 (bch_step c v)"
    unfolding bch_step_def by (intro small30_xor small30_gens)
qed

lemma small30_polymod: "small30 c \<Longrightarrow> \<forall>v \<in> set vs. small30 v \<Longrightarrow> small30 (polymod c vs)"
  by (induction vs arbitrary: c) (simp_all add: polymod_def small30_step)

lemma small30_ucast: "small30 (ucast (w :: u5))"
  unfolding small30_def
  by (rule bit_word_eqI) (auto simp: bit_take_bit_iff unsigned_ucast_eq bit_ucast_iff dest: bit_imp_le_length)

lemma small30_of_nat: "n < 256 \<Longrightarrow> small30 (of_nat n)"
proof -
  assume n: "n < 256"
  then have "take_bit 30 n = n" by (simp add: take_bit_eq_mod)
  then show ?thesis by (metis of_nat_take_bit small30_def)
qed

subsection \<open>Bech32 text\<close>

definition b32_alphabet :: string where
  "b32_alphabet = ''qpzry9x8gf2tvdw0s3jn54khce6mua7l''"

definition b32_char :: "u5 \<Rightarrow> char" where
  "b32_char w = b32_alphabet ! unat w"

definition b32_value :: "char \<Rightarrow> u5 option" where
  "b32_value c =
     (let i = length (takeWhile (\<lambda>d. d \<noteq> c) b32_alphabet)
      in if i < 32 then Some (of_nat i) else None)"

definition hrp_expand :: "string \<Rightarrow> u32 list" where
  "hrp_expand h = map (\<lambda>c. of_nat (of_char c div 32)) h @ [0] @ map (\<lambda>c. of_nat (of_char c mod 32)) h"

definition variant_const :: "variant \<Rightarrow> u32" where
  "variant_const v = (case v of Bech32 \<Rightarrow> 1 | Bech32m \<Rightarrow> 0x2bc830a3)"

definition bech32_checksum :: "string \<Rightarrow> u5 list \<Rightarrow> variant \<Rightarrow> u5 list" where
  "bech32_checksum h d v =
     map ucast (checksum_of (polymod 1 (hrp_expand h @ map ucast d @ replicate 6 0) XOR variant_const v))"

definition bech32_text :: "string \<Rightarrow> u5 list \<Rightarrow> variant \<Rightarrow> string option" where
  "bech32_text h d v =
     (if valid_hrp h then Some (h @ ''1'' @ map b32_char (d @ bech32_checksum h d v)) else None)"

definition bech32_parse :: "string \<Rightarrow> (string \<times> u5 list \<times> variant) option" where
  "bech32_parse t =
     (let s = (if to_ascii_uppercase t = t then to_ascii_lowercase t else t);
          data = rev (takeWhile (\<lambda>c. c \<noteq> CHR ''1'') (rev s));
          h = take (length s - length data - 1) s
      in if length data = length s \<or> \<not> valid_hrp h \<or> length data < 6 then None
         else case those (map b32_value data) of
           None \<Rightarrow> None
         | Some vs \<Rightarrow>
             let c = polymod 1 (hrp_expand h @ map ucast vs);
                 d = take (length vs - 6) vs
             in if c = variant_const Bech32 then Some (h, d, Bech32)
                else if c = variant_const Bech32m then Some (h, d, Bech32m) else None)"

definition bip173 :: bech32 where
  "bip173 = \<lparr> to_base32 = regroup, from_base32 = ungroup,
     bech32_encode = bech32_text, bech32_decode = bech32_parse \<rparr>"

lemma length_takeWhile_nth:
  "distinct xs \<Longrightarrow> i < length xs \<Longrightarrow> length (takeWhile (\<lambda>d. d \<noteq> xs ! i) xs) = i"
proof (induction xs arbitrary: i)
  case (Cons x xs)
  then show ?case by (cases i) auto
qed simp

lemma alphabet_facts:
  "length b32_alphabet = 32" "distinct b32_alphabet" "CHR ''1'' \<notin> set b32_alphabet"
  "list_all (\<lambda>c. 33 \<le> (of_char c :: nat) \<and> (of_char c :: nat) \<le> 126 \<and> lower_char c = c) b32_alphabet"
  by (simp_all add: b32_alphabet_def lower_char_def)

lemma unat_u5_less: "unat (w :: u5) < 32"
  using unsigned_less [of w] by simp

lemma b32_char_in: "b32_char w \<in> set b32_alphabet"
  using unat_u5_less [of w] by (simp add: b32_char_def alphabet_facts)

lemma b32_value_char: "b32_value (b32_char w) = Some w"
  using unat_u5_less [of w] by (simp add: b32_value_def b32_char_def length_takeWhile_nth alphabet_facts)

lemma map_ucast_checksum: "map ucast (map ucast (checksum_of p) :: u5 list) = checksum_of p"
proof -
  have "ucast (ucast (slice5 k p) :: u5) = slice5 k p" for k
    unfolding slice5_def
    by (rule bit_word_eqI) (auto simp: bit_take_bit_iff unsigned_ucast_eq bit_ucast_iff dest: bit_imp_le_length)
  then show ?thesis by (simp add: checksum_of_def)
qed

lemma polymod_append: "polymod c (vs @ ws) = polymod (polymod c vs) ws"
  by (simp add: polymod_def)

lemma polymod_checksum:
  "polymod 1 (hrp_expand h @ map ucast d @ map ucast (bech32_checksum h d v)) = variant_const v"
proof -
  define q where "q = polymod 1 (hrp_expand h @ map ucast d)"
  define z where "z = polymod q (replicate 6 0)"
  have "(of_char c :: nat) div 32 < 256" "(of_char c :: nat) mod 32 < 256" for c
    using of_char_less_256 [of c] by linarith+
  then have "\<forall>v \<in> set (hrp_expand h @ map ucast d). small30 v"
    by (auto simp: hrp_expand_def small30_ucast intro!: small30_of_nat) (simp add: small30_def)
  then have "small30 q" unfolding q_def by (intro small30_polymod) (simp_all add: small30_def)
  then have "small30 z" unfolding z_def by (intro small30_polymod) (simp_all add: small30_def)
  moreover have "small30 (variant_const v)" by (simp add: variant_const_def small30_def split: variant.split)
  ultimately have p: "take_bit 30 (z XOR variant_const v) = z XOR variant_const v"
    using small30_xor small30_def by blast
  have "map ucast (bech32_checksum h d v) = checksum_of (z XOR variant_const v)"
    by (simp only: bech32_checksum_def map_ucast_checksum z_def q_def polymod_append append_assoc [symmetric])
  moreover have "polymod q (checksum_of (z XOR variant_const v)) =
      z XOR polymod 0 (checksum_of (z XOR variant_const v))"
    using polymod_xor [of "replicate 6 0" "checksum_of (z XOR variant_const v)" q 0]
    by (simp add: z_def checksum_of_def numeral_eq_Suc)
  moreover have "\<dots> = variant_const v"
    unfolding polymod_checksum_of [OF p] by (simp add: xor.assoc [symmetric])
  ultimately have "polymod q (map ucast (bech32_checksum h d v)) = variant_const v" by (simp only:)
  then show ?thesis by (simp only: append_assoc [symmetric] polymod_append q_def)
qed

lemma variant_const_inj: "variant_const v = variant_const w \<longleftrightarrow> v = w"
  by (simp add: variant_const_def split: variant.split)

lemma text_lower:
  assumes "valid_hrp h"
  shows "to_ascii_lowercase (h @ ''1'' @ map b32_char w) = h @ ''1'' @ map b32_char w"
proof -
  have "lower_char c = c" if "c \<in> set h" for c
    using assms that by (simp add: valid_hrp_def list_all_iff)
  moreover have "lower_char (b32_char u) = b32_char u" for u
    using b32_char_in [of u] alphabet_facts(4) by (simp add: list_all_iff)
  ultimately show ?thesis by (simp add: to_ascii_lowercase_def map_idI lower_char_def comp_def)
qed

lemma text_graphic:
  assumes "valid_hrp h"
  shows "graphic (h @ ''1'' @ map b32_char w)"
proof -
  have "33 \<le> (of_char (b32_char u) :: nat) \<and> (of_char (b32_char u) :: nat) \<le> 126" for u
    using b32_char_in [of u] alphabet_facts(4) by (simp add: list_all_iff)
  then show ?thesis using assms by (auto simp: graphic_def valid_hrp_def list_all_iff)
qed

lemma data_part:
  assumes "CHR ''1'' \<notin> set m"
  shows "takeWhile (\<lambda>c. c \<noteq> CHR ''1'') (rev (h @ ''1'' @ m)) = rev m"
proof -
  have "takeWhile (\<lambda>c. c \<noteq> CHR ''1'') (rev m @ CHR ''1'' # rev h) = takeWhile (\<lambda>c. c \<noteq> CHR ''1'') (rev m)"
    by (rule takeWhile_tail) simp
  also have "\<dots> = rev m" using assms by (auto simp: takeWhile_eq_all_conv)
  finally show ?thesis by simp
qed

lemma parse_text:
  assumes h: "valid_hrp h" and t: "t = h @ ''1'' @ map b32_char (d @ bech32_checksum h d v)"
  shows "bech32_parse t = Some (h, d, v)"
proof -
  let ?w = "d @ bech32_checksum h d v"
  define m where "m = map b32_char ?w"
  have l6: "length (bech32_checksum h d v) = 6" by (simp add: bech32_checksum_def checksum_of_def)
  have no1: "CHR ''1'' \<notin> set m" unfolding m_def using b32_char_in alphabet_facts(3) by force
  have those: "those (map b32_value m) = Some ?w"
    unfolding m_def using those_map_Some [of ?w "b32_value \<circ> b32_char" id] b32_value_char by simp
  have lm: "length m = length d + 6" by (simp add: m_def l6)
  have s: "(if to_ascii_uppercase t = t then to_ascii_lowercase t else t) = h @ ''1'' @ m"
    unfolding t m_def using text_lower [OF h, of ?w] by (simp only: if_cancel)
  have lr: "length (h @ ''1'' @ m) - length m - 1 = length h" by simp
  show ?thesis
    unfolding bech32_parse_def s Let_def data_part [OF no1] rev_rev_ident lr those option.case
    using h l6 lm polymod_checksum [of h d v]
    by (simp add: variant_const_inj) (cases v; simp add: variant_const_def)
qed

interpretation bip: bech32_codec bip173
proof
  fix b :: bytes and h t :: string and d :: "u5 list" and v :: variant
  show "from_base32 bip173 (to_base32 bip173 b) = Some b"
    by (simp add: bip173_def ungroup_regroup)
  show "length (to_base32 bip173 b) = (8 * length b + 4) div 5"
    by (simp add: bip173_def regroup_def Let_def)
  show "valid_hrp h \<Longrightarrow> \<exists>t. bech32_encode bip173 h d v = Some t"
    by (simp add: bip173_def bech32_text_def)
  assume h: "valid_hrp h" and e: "bech32_encode bip173 h d v = Some t"
  then have t: "t = h @ ''1'' @ map b32_char (d @ bech32_checksum h d v)"
    by (simp add: bip173_def bech32_text_def split: if_splits)
  show "bech32_decode bip173 t = Some (h, d, v)"
    using parse_text [OF h t] by (simp add: bip173_def)
  show "to_ascii_lowercase t = t" unfolding t by (rule text_lower [OF h])
  show "take (length h) t = h" unfolding t by simp
  show "graphic t" unfolding t by (rule text_graphic [OF h])
  show "length t = length h + length d + 7"
    unfolding t by (simp add: bech32_checksum_def checksum_of_def)
qed

end
