(* ===== verification/Crypto_Reference.thy ===== *)
theory Crypto_Reference
  imports External Cbor_Reference Text_Reference
begin

text \<open>
  A small algebra satisfying \<open>p256_laws\<close>, \<open>ecdsa_laws\<close> and \<open>symmetric_laws\<close>, used only to
  show by concrete runs that hypotheses of that form can hold.  It has no cryptographic
  strength and stands for no function of the sources: a point is a byte, key agreement is
  multiplication, a digest is a checksum.
\<close>

definition toy_sum :: "bytes \<Rightarrow> byte" where
  "toy_sum m = foldl (\<lambda>a w. 31 * a + w + 1) 7 m"

definition toy_digest :: "bytes \<Rightarrow> bytes" where
  "toy_digest m = replicate 31 0 @ [toy_sum m]"

definition toy_compressed :: "byte \<Rightarrow> bytes" where
  "toy_compressed k = 2 # replicate 31 0 @ [k]"

definition toy_uncompressed :: "byte \<Rightarrow> bytes" where
  "toy_uncompressed k = 4 # replicate 63 0 @ [k]"

definition toy_point :: "bytes \<Rightarrow> byte option" where
  "toy_point b =
     (if b \<noteq> [] \<and> (b = toy_compressed (last b) \<or> b = toy_uncompressed (last b)) then Some (last b) else None)"

definition toy_p256 :: "(byte, byte \<times> byte, byte) p256" where
  "toy_p256 = \<lparr>
     pk_from_sec1 = toy_point,
     vk_from_sec1 = toy_point,
     pk_compressed = toy_compressed,
     pk_uncompressed = toy_uncompressed,
     sk_public = (\<lambda>s. s),
     ecdh = (\<lambda>s k. replicate 31 0 @ [s * k]),
     sig_from_slice = (\<lambda>b. if length b = 64 \<and> take 62 b = replicate 62 0 then Some (b ! 62, b ! 63) else None),
     sig_to_bytes = (\<lambda>(k, d). replicate 62 0 @ [k, d]),
     sig_normalize_s = (\<lambda>_. None),
     ecdsa_verify = (\<lambda>k m (k', d). k' = k \<and> d = toy_sum m),
     ecdsa_sign_prehash = (\<lambda>s h. Some (s, last h)) \<rparr>"

definition toy_tag :: "bytes \<Rightarrow> bytes \<Rightarrow> bytes \<Rightarrow> bytes \<Rightarrow> bytes" where
  "toy_tag k n a m = replicate 16 (toy_sum (k @ n @ a @ m))"

definition toy_open :: "bytes \<Rightarrow> bytes \<Rightarrow> bytes \<Rightarrow> bytes \<Rightarrow> bytes option" where
  "toy_open k n a c =
     (let m = take (length c - 16) c
      in if 16 \<le> length c \<and> drop (length c - 16) c = toy_tag k n a m then Some m else None)"

definition toy_symmetric :: symmetric where
  "toy_symmetric = \<lparr>
     sha256 = toy_digest,
     hkdf = (\<lambda>s k i n. if n \<le> 8160 then Some (replicate n (toy_sum (s @ k @ i))) else None),
     hkdf_extract = (\<lambda>s k. toy_digest (s @ k)),
     hkdf_expand = (\<lambda>k i n. if length k < 32 \<or> 8160 < n then None else Some (replicate n (toy_sum (k @ i)))),
     aead_key_ok = (\<lambda>k. length k = 32),
     aead_encrypt = (\<lambda>k n a m. Some (m @ toy_tag k n a m)),
     aead_decrypt = toy_open \<rparr>"

definition ref_lib :: "(byte, byte \<times> byte, byte) lib" where
  "ref_lib = \<lparr> minicbor = rfc8949, std64 = standard_no_pad, url64 = url_safe_no_pad, bech = bip173,
     ec = toy_p256, sym = toy_symmetric \<rparr>"

lemma ref_lib_simps [simp]:
  "minicbor ref_lib = rfc8949" "std64 ref_lib = standard_no_pad" "url64 ref_lib = url_safe_no_pad"
  "bech ref_lib = bip173" "ec ref_lib = toy_p256" "sym ref_lib = toy_symmetric"
  by (simp_all add: ref_lib_def)

lemma toy_point_compressed [simp]: "toy_point (toy_compressed k) = Some k"
  by (simp add: toy_point_def toy_compressed_def)

lemma toy_point_uncompressed [simp]: "toy_point (toy_uncompressed k) = Some k"
  by (simp add: toy_point_def toy_uncompressed_def)

lemma toy_p256_laws: "p256_laws toy_p256"
  unfolding p256_laws_def
  by (simp add: toy_p256_def toy_compressed_def [of "_"] toy_uncompressed_def [of "_"] mult.commute
      del: toy_point_compressed)
    (simp add: toy_point_def toy_compressed_def toy_uncompressed_def mult.commute)

lemma toy_ecdsa_laws: "ecdsa_laws toy_p256 toy_symmetric"
  unfolding ecdsa_laws_def
  by (simp add: toy_p256_def toy_symmetric_def toy_digest_def nth_append split: prod.split)

lemma toy_symmetric_laws: "symmetric_laws toy_symmetric"
proof -
  have "toy_open k n a c = Some m \<Longrightarrow> c = m @ toy_tag k n a m" for k n a c m
    unfolding toy_open_def Let_def by (metis append_take_drop_id option.inject option.distinct(1))
  moreover have "toy_open k n a (m @ toy_tag k n a m) = Some m" for k n a m
    by (simp add: toy_open_def Let_def toy_tag_def)
  moreover have "length (toy_tag k n a m) = 16" for k n a m by (simp add: toy_tag_def)
  ultimately show ?thesis
    by (auto simp: symmetric_laws_def toy_symmetric_def toy_digest_def)
qed

end
