(* ===== verification/Recipient_Properties.thy ===== *)
theory Recipient_Properties
  imports Recipient_Tag Crypto_Reference
begin

text \<open>
  The properties of the recipient module: the round trips of the three stanza constructions, the
  private selection of v2 stanzas, the canonical recipient texts, and strict validation, each with
  a run on the reference crates of \<open>Crypto_Reference\<close>.
\<close>

subsection \<open>The laws hold of the reference crates\<close>

lemma ref_laws:
  "base64_engine (std64 ref_lib)" "bech32_codec (bech ref_lib)" "cbor_sized (minicbor ref_lib)"
  "cbor_codec (minicbor ref_lib)" "p256_laws (ec ref_lib)" "ecdsa_laws (ec ref_lib) (sym ref_lib)"
  "symmetric_laws (sym ref_lib)" "base64_engine (url64 ref_lib)"
  using std.base64_engine_axioms url.base64_engine_axioms bip.bech32_codec_axioms rfc.cbor_sized_axioms
    rfc.cbor_codec_axioms
  by (simp_all add: toy_p256_laws toy_ecdsa_laws toy_symmetric_laws)

subsection \<open>Round trips\<close>

text \<open>C19: Wrapping a file key for a paired recipient succeeds, and the resulting v2 stanza passes
  the strict validation, is selected by the paired desktop (and by the identity identifier sealed in
  it), and is unwrapped to the same file key by the phone identity.\<close>

theorem v2_wrap_select_unwrap:
  assumes "base64_engine (std64 L)" "p256_laws (ec L)" "symmetric_laws (sym L)"
    and "length fk = FILE_KEY_BYTES" "length (paired_identity_id r) = ID_BYTES"
    and "phone_identity r = sk_public (ec L) phone" "desktop_selection r = sk_public (ec L) desktop"
  shows "\<exists>s. wrap_file_key_v2 L r fk e = Inr s \<and> validate_stanza L s = Inr () \<and>
    matches_stanza_v2 L r (signing_key_agreement L desktop) s = Inr True \<and>
    unwrap_file_key L phone s = Inr fk"
proof -
  obtain s where s: "wrap_file_key_v2 L r fk e = Inr s"
    using wrap_file_key_v2_total [OF assms(2,3), of fk r e] assms(4,5) by auto
  moreover have "matches_stanza_v2 L r (signing_key_agreement L desktop) s = Inr True"
    by (rule software.selects_own_stanzas [OF assms(1-5,7) s])
  ultimately show ?thesis using unwrap_wrap_v2 [OF assms(1-6) s] by blast
qed

theorem v2_wrap_select_unwrap_witness:
  "\<exists>s. wrap_file_key_v2 ref_lib \<lparr> phone_identity = 5, desktop_selection = 7, paired_identity_id = replicate 16 9 \<rparr>
      (replicate 16 1) 3 = Inr s \<and> validate_stanza ref_lib s = Inr () \<and>
    matches_stanza_v2 ref_lib \<lparr> phone_identity = 5, desktop_selection = 7, paired_identity_id = replicate 16 9 \<rparr>
      (signing_key_agreement ref_lib 7) s = Inr True \<and>
    unwrap_file_key ref_lib 5 s = Inr (replicate 16 1)"
  by (rule v2_wrap_select_unwrap [OF ref_laws(1,5,7)]) (simp_all add: toy_p256_def)

text \<open>A v1 wrap succeeds and its stanza validates and unwraps to the same file key under the
  recipient's private key.\<close>

lemma v1_wrap_unwrap:
  assumes "base64_engine (std64 L)" "p256_laws (ec L)" "symmetric_laws (sym L)" "length fk = FILE_KEY_BYTES"
  shows "\<exists>s. wrap_file_key L (Recipient (sk_public (ec L) identity)) fk e = Inr s \<and>
    validate_stanza L s = Inr () \<and> unwrap_file_key L identity s = Inr fk"
proof -
  obtain s where s: "wrap_file_key L (Recipient (sk_public (ec L) identity)) fk e = Inr s"
    using wrap_file_key_total [OF assms(2,3), of fk "Recipient (sk_public (ec L) identity)" e] assms(4) by auto
  with unwrap_wrap_v1 [OF assms s] show ?thesis by blast
qed

text \<open>A p256tag wrap (HPKE base mode) succeeds, passes its own prefilter, validates and
  unwraps to the same file key.\<close>

lemma tag_wrap_unwrap:
  assumes "base64_engine (std64 L)" "p256_laws (ec L)" "symmetric_laws (sym L)" "length fk = FILE_KEY_BYTES"
  shows "\<exists>s. tag_wrap L (Recipient (sk_public (ec L) identity)) fk e = Inr s \<and>
    tag_matches L (Recipient (sk_public (ec L) identity)) s = Inr True \<and>
    validate_stanza L s = Inr () \<and> unwrap_file_key L identity s = Inr fk"
proof -
  let ?r = "Recipient (sk_public (ec L) identity)"
  obtain s where s: "tag_wrap L ?r fk e = Inr s"
    using tag_wrap_total [OF assms(3), of fk ?r e] assms(4) by auto
  have "tag_matches L ?r s = Inr True"
    by (rule tag_wrap_parses [OF assms s]) (simp add: tag_matches_def)
  with s unwrap_wrap_tag [OF assms s] show ?thesis by blast
qed

text \<open>C24: For a plain recipient both constructions work: a v1 wrap and a p256tag wrap (HPKE base mode)
  of any 16-byte file key succeed, their stanzas pass the strict validation, the tagged one passes its
  own prefilter, and the private key of the recipient unwraps both to the same file key.\<close>

theorem plain_wrap_unwrap:
  assumes "base64_engine (std64 L)" "p256_laws (ec L)" "symmetric_laws (sym L)" "length fk = FILE_KEY_BYTES"
  shows "(\<exists>s. wrap_file_key L (Recipient (sk_public (ec L) identity)) fk e = Inr s \<and>
      validate_stanza L s = Inr () \<and> unwrap_file_key L identity s = Inr fk) \<and>
    (\<exists>s. tag_wrap L (Recipient (sk_public (ec L) identity)) fk e = Inr s \<and>
      tag_matches L (Recipient (sk_public (ec L) identity)) s = Inr True \<and>
      validate_stanza L s = Inr () \<and> unwrap_file_key L identity s = Inr fk)"
  by (rule conjI [OF v1_wrap_unwrap [OF assms] tag_wrap_unwrap [OF assms]])

theorem plain_wrap_unwrap_witness:
  "(\<exists>s. wrap_file_key ref_lib (Recipient (sk_public (ec ref_lib) 5)) (replicate 16 1) 3 = Inr s \<and>
      validate_stanza ref_lib s = Inr () \<and> unwrap_file_key ref_lib 5 s = Inr (replicate 16 1)) \<and>
    (\<exists>s. tag_wrap ref_lib (Recipient (sk_public (ec ref_lib) 5)) (replicate 16 1) 3 = Inr s \<and>
      tag_matches ref_lib (Recipient (sk_public (ec ref_lib) 5)) s = Inr True \<and>
      validate_stanza ref_lib s = Inr () \<and> unwrap_file_key ref_lib 5 s = Inr (replicate 16 1))"
  by (rule plain_wrap_unwrap [OF ref_laws(1,5,7)]) simp

subsection \<open>Private selection\<close>

text \<open>C23: The desktop selects a stanza exactly when it is a v2 stanza whose selector is the
  encryption of this pairing's identity identifier under the agreed key, bound to the ephemeral key,
  both recipient keys and the stanza body; v1 stanzas, foreign selectors and altered bodies are not
  selected.\<close>

theorem v2_selection_exact:
  assumes "base64_engine (std64 L)" "p256_laws (ec L)" "symmetric_laws (sym L)"
    and "length (paired_identity_id r) = ID_BYTES" "desktop_selection r = sk_public (ec L) desktop"
  shows "matches_stanza_v2 L r (signing_key_agreement L desktop) s = Inr True \<longleftrightarrow>
    (\<exists>q k c. parsed_stanza_parse L s = Inr q \<and> ps_version q = V2 \<and> ps_selection q = Some c \<and>
      derive_key L (ecdh (ec L) desktop (ps_ephemeral q)) (ps_ephemeral_bytes q)
        (public_key_bytes L (desktop_selection r)) SELECTION_KDF_INFO_V2 = Inr k \<and>
      seal_with L k (selection_associated_data (ps_ephemeral_bytes q) (public_key_bytes L (phone_identity r))
        (public_key_bytes L (desktop_selection r)) (st_body s)) (paired_identity_id r) = Inr c)"
  by (rule software.matches_iff [OF assms])

theorem v2_selection_exact_witness:
  "\<exists>r s. matches_stanza_v2 ref_lib r (signing_key_agreement ref_lib 7) s \<noteq> Inr True \<and>
    \<not> (\<exists>q. parsed_stanza_parse ref_lib s = Inr q \<and> ps_version q = V2)"
proof -
  let ?r = "\<lparr> phone_identity = 5 :: byte, desktop_selection = 7, paired_identity_id = replicate 16 9 \<rparr>"
  let ?s = "\<lparr> st_tag = STANZA_TAG, st_args = [], st_body = [] \<rparr>"
  have "parsed_stanza_parse ref_lib ?s = Inl InvalidStanzaArguments"
    by (simp add: parsed_stanza_parse_def parsed_shape_def)
  moreover from this have "matches_stanza_v2 ref_lib ?r (signing_key_agreement ref_lib 7) ?s \<noteq> Inr True"
    by (subst v2_selection_exact [OF ref_laws(1,5,7)]) (simp_all add: toy_p256_def)
  ultimately show ?thesis by (intro exI [of _ ?r] exI [of _ ?s]) simp
qed

text \<open>A desktop whose key is not the paired selection key is refused before the stanza is
  looked at.\<close>

theorem wrong_selection_key_refused:
  assumes "p256_laws (ec L)" "sk_public (ec L) desktop \<noteq> desktop_selection r"
  shows "matches_stanza_v2 L r (signing_key_agreement L desktop) s = Inl WrongSelectionKey"
  by (rule matches_stanza_v2_wrong_key [OF assms])

theorem wrong_selection_key_refused_witness:
  "matches_stanza_v2 ref_lib \<lparr> phone_identity = 5, desktop_selection = 7, paired_identity_id = replicate 16 9 \<rparr>
     (signing_key_agreement ref_lib 8) \<lparr> st_tag = [], st_args = [], st_body = [] \<rparr> = Inl WrongSelectionKey"
  by (rule wrong_selection_key_refused [OF ref_laws(5)]) (simp add: toy_p256_def)

subsection \<open>Canonical recipients\<close>

text \<open>C25: The accepted forms of recipients are exactly the written ones.  Every recipient has a text,
  and \<open>parse\<close> accepts a text as a recipient if and only if \<open>to_string\<close> writes it: upper case, another
  HRP, another variant, a wrong version or length and a non-canonical key are all refused.  A paired
  recipient is accepted from its text exactly when \<open>to_string\<close> writes that text and its identifier has
  16 bytes; and a plugin payload stands for the recipient whose \<open>plugin_bytes\<close> it is.\<close>

theorem recipients_canonical:
  assumes "bech32_codec (bech L)" "p256_laws (ec L)"
  shows "(recipient_parse L t = Inr q \<longleftrightarrow> recipient_to_string L q = Inr t) \<and>
    (\<exists>t. recipient_to_string L q = Inr t) \<and>
    (recipient_from_plugin_bytes L b = Inr q \<longleftrightarrow> b = recipient_plugin_bytes L q) \<and>
    (paired_parse L t = Inr r \<longleftrightarrow> paired_to_string L r = Inr t \<and> length (paired_identity_id r) = ID_BYTES) \<and>
    (paired_from_plugin_bytes L b = Inr r \<longleftrightarrow> b = paired_plugin_bytes L r \<and> length (paired_identity_id r) = ID_BYTES)"
  by (intro conjI recipient_parse_iff_to_string [OF assms] recipient_to_string_total [OF assms(1)]
      paired_parse_iff_to_string [OF assms] paired_plugin_bytes_iff [OF assms(2)] recipient_plugin_bytes_iff [OF assms(2)])

theorem recipients_canonical_witness:
  "let r = \<lparr> phone_identity = 5, desktop_selection = 7, paired_identity_id = replicate 16 9 \<rparr>
   in (\<exists>t. recipient_to_string ref_lib (Recipient 5) = Inr t \<and> recipient_parse ref_lib t = Inr (Recipient 5)) \<and>
    paired_from_plugin_bytes ref_lib (paired_plugin_bytes ref_lib r) = Inr r"
  unfolding Let_def
  using recipients_canonical [OF ref_laws(2,5), of _ "Recipient 5" _
      "\<lparr> phone_identity = 5, desktop_selection = 7, paired_identity_id = replicate 16 9 \<rparr>"] by simp

text \<open>The software unwrap opens nothing that the public validation refuses, and always
  returns a 16-byte file key.\<close>

theorem unwrap_only_validated:
  assumes "unwrap_file_key L identity s = Inr fk"
  shows "validate_stanza L s = Inr () \<and> length fk = FILE_KEY_BYTES"
  by (rule unwrap_validates [OF assms])

theorem unwrap_only_validated_witness:
  "\<exists>s. unwrap_file_key ref_lib 5 s = Inr (replicate 16 1) \<and> validate_stanza ref_lib s = Inr ()"
proof -
  obtain s where s: "wrap_file_key ref_lib (Recipient (sk_public (ec ref_lib) 5)) (replicate 16 1) 3 = Inr s"
    using wrap_file_key_total [OF ref_laws(5,7), of "replicate 16 1"] by auto
  have "unwrap_file_key ref_lib 5 s = Inr (replicate 16 1)"
    by (rule unwrap_wrap_v1(1) [OF ref_laws(1,5,7) _ s]) simp
  with unwrap_only_validated [OF this] show ?thesis by blast
qed

end
