(* ===== verification/Protocol_Base.thy ===== *)
theory Protocol_Base
  imports Recipient_Tag
begin

text \<open>
  The foundations of the offline protocol (\<open>crates/core/src/protocol/mod.rs\<close>): its error
  type and limits, request times, domain-separated hashing and signing, the \<open>P256Signer\<close>
  boundary, public keys and the session key.
\<close>

subsection \<open>Errors and limits\<close>

datatype protocol_error =
    Malformed | UnsupportedVersion | UnsupportedSuite | UnexpectedMessageType | InvalidPublicKey
  | InvalidSignature | WrongDesktop | WrongIdentity | Expired | LifetimeTooLong | Replay
  | ClockRollback | ReplayCapacity | ReplayStateError | InvalidRecipientStanza | BindingMismatch
  | Decryption | KeyDerivation | KeyOperation

definition PROTOCOL_VERSION :: u16 where "PROTOCOL_VERSION = 2"
definition ALGORITHM_SUITE :: u16 where "ALGORITHM_SUITE = 1"
definition MAX_REQUEST_LIFETIME_SECS :: u64 where [simp]: "MAX_REQUEST_LIFETIME_SECS = 300"
definition MAX_PROTOCOL_TIME :: u64 where [simp]: "MAX_PROTOCOL_TIME = 2 ^ 63 - 1"
definition MAX_SIGNED_MESSAGE_BYTES :: nat where [simp]: "MAX_SIGNED_MESSAGE_BYTES = 65536"

definition OFFER :: u16 where "OFFER = 1"
definition PAIRING_RESPONSE :: u16 where "PAIRING_RESPONSE = 2"
definition REQUEST :: u16 where "REQUEST = 3"
definition RESPONSE :: u16 where "RESPONSE = 4"
definition OFFER_SIG :: bytes where
  "OFFER_SIG = str_bytes ''age-plugin-phone/pairing-offer-signature/v2''"
definition PAIRING_SIG :: bytes where
  "PAIRING_SIG = str_bytes ''age-plugin-phone/pairing-response-signature/v2''"
definition REQUEST_SIG :: bytes where
  "REQUEST_SIG = str_bytes ''age-plugin-phone/unwrap-request-signature/v2''"
definition RESPONSE_SIG :: bytes where
  "RESPONSE_SIG = str_bytes ''age-plugin-phone/unwrap-response-signature/v2''"
definition REQUEST_DIGEST :: bytes where
  "REQUEST_DIGEST = str_bytes ''age-plugin-phone/request-digest/v2''"
definition OFFER_DIGEST :: bytes where
  "OFFER_DIGEST = str_bytes ''age-plugin-phone/pairing-offer-digest/v2''"
definition FINGERPRINT :: bytes where
  "FINGERPRINT = str_bytes ''age-plugin-phone/pairing-fingerprint/v2''"
definition SESSION_INFO :: bytes where
  "SESSION_INFO = str_bytes ''age-plugin-phone/session-response/p256/v2''"

subsection \<open>Request times\<close>

definition validate_request_time :: "u64 \<Rightarrow> u64 \<Rightarrow> (protocol_error, unit) result" where
  "validate_request_time expires now =
     bindE (failIf (expires > MAX_PROTOCOL_TIME \<or> now > MAX_PROTOCOL_TIME) Malformed) (\<lambda>_.
     bindE (failIf (expires < now) Expired) (\<lambda>_.
     failIf (expires - now > MAX_REQUEST_LIFETIME_SECS) LifetimeTooLong))"

text \<open>\<open>checked_add\<close> on \<open>u64\<close>: the sum when it does not wrap.\<close>

definition checked_add_u64 :: "u64 \<Rightarrow> u64 \<Rightarrow> u64 option" where
  "checked_add_u64 a b = (if unat a + unat b < 2 ^ 64 then Some (a + b) else None)"

definition request_expiry :: "u64 \<Rightarrow> (protocol_error, u64) result" where
  "request_expiry now =
     okOr Malformed
       (case checked_add_u64 now MAX_REQUEST_LIFETIME_SECS of
          None \<Rightarrow> None
        | Some expires \<Rightarrow> if expires \<le> MAX_PROTOCOL_TIME then Some expires else None)"

lemma validate_request_time_iff [result_iff]:
  "validate_request_time expires now = Inr u \<longleftrightarrow>
     unat expires < 2 ^ 63 \<and> unat now \<le> unat expires \<and> unat expires \<le> unat now + 300"
proof -
  have m: "x > MAX_PROTOCOL_TIME \<longleftrightarrow> \<not> unat x < 2 ^ 63" for x :: u64
    by (simp add: word_less_nat_alt) linarith
  have d: "expires - now > MAX_REQUEST_LIFETIME_SECS \<longleftrightarrow> unat expires > unat now + 300"
    if "unat now \<le> unat expires"
    using that by (auto simp: word_less_nat_alt unat_sub word_le_nat_alt)
  show ?thesis
    unfolding validate_request_time_def bindE_Inr_iff failIf_Inr_iff m
    using d by (auto simp: word_less_nat_alt)
qed

lemma checked_add_u64_Some:
  "checked_add_u64 a b = Some c \<longleftrightarrow> unat a + unat b < 2 ^ 64 \<and> c = a + b"
  by (auto simp: checked_add_u64_def)

lemma unat_add_no_wrap: "unat a + unat b < 2 ^ 64 \<Longrightarrow> unat (a + b :: u64) = unat a + unat b"
  by (simp add: unat_word_ariths)

lemma request_expiry_iff:
  "request_expiry now = Inr e \<longleftrightarrow> unat now + 300 < 2 ^ 63 \<and> unat e = unat now + 300"
proof -
  have "unat (now + 300) = unat now + 300" if "unat now + 300 < 2 ^ 64"
    using unat_add_no_wrap [of now 300] that by simp
  then show ?thesis
    by (auto simp: request_expiry_def okOr_Inr_iff checked_add_u64_def word_le_nat_alt word_unat_eq_iff
        split: if_splits)
qed

subsection \<open>Hashing and signing under a domain\<close>

definition domain_input :: "bytes \<Rightarrow> bytes \<Rightarrow> bytes" where
  "domain_input domain payload = domain @ [0] @ payload"

text \<open>The incremental hash: \<open>update(domain)\<close>, \<open>update([0])\<close>, \<open>update(payload)\<close>.\<close>

definition hash :: "('pk, 'sg, 'sk) lib \<Rightarrow> bytes \<Rightarrow> bytes \<Rightarrow> bytes" where
  "hash L domain payload = sha256 (sym L) (domain @ [0] @ payload)"

record signer =
  sg_public_key :: "(protocol_error, bytes) result"
  sg_sign_prehash :: "bytes \<Rightarrow> (protocol_error, bytes) result"

definition sign :: "('pk, 'sg, 'sk) lib \<Rightarrow> signer \<Rightarrow> bytes \<Rightarrow> bytes \<Rightarrow> (protocol_error, bytes) result" where
  "sign L key domain payload = sg_sign_prehash key (hash L domain payload)"

definition verify ::
    "('pk, 'sg, 'sk) lib \<Rightarrow> 'pk \<Rightarrow> bytes \<Rightarrow> bytes \<Rightarrow> bytes \<Rightarrow> (protocol_error, unit) result" where
  "verify L key domain payload b =
     bindE (okOr InvalidSignature (sig_from_slice (ec L) b)) (\<lambda>signature.
     bindE (failIf (sig_normalize_s (ec L) signature \<noteq> None) InvalidSignature) (\<lambda>_.
     failIf (\<not> ecdsa_verify (ec L) key (domain_input domain payload) signature) InvalidSignature))"

lemma verify_iff [result_iff]:
  "verify L key domain payload b = Inr u \<longleftrightarrow>
     (\<exists>s. sig_from_slice (ec L) b = Some s \<and> sig_normalize_s (ec L) s = None \<and>
          ecdsa_verify (ec L) key (domain_input domain payload) s)"
  by (auto simp: verify_def result_iff)

text \<open>The domains hold no zero byte, so a domain-separated input is read one way only.\<close>

definition signature_domains :: "bytes list" where
  "signature_domains = [OFFER_SIG, PAIRING_SIG, REQUEST_SIG, RESPONSE_SIG, REQUEST_DIGEST, OFFER_DIGEST, FINGERPRINT]"

lemma domains_nonzero: "d \<in> set signature_domains \<Longrightarrow> 0 \<notin> set d"
  unfolding signature_domains_def OFFER_SIG_def PAIRING_SIG_def REQUEST_SIG_def RESPONSE_SIG_def
    REQUEST_DIGEST_def OFFER_DIGEST_def FINGERPRINT_def str_bytes_def
  by (simp only: list.set insert_iff empty_iff) (elim disjE; simp)

lemma zero_separated_inj:
  assumes "0 \<notin> set d" "0 \<notin> set d'" "d @ [0] @ p = d' @ [0 :: byte] @ p'"
  shows "d = d' \<and> p = p'"
  using assms
proof (induction d arbitrary: d')
  case Nil
  then show ?case by (cases d') auto
next
  case (Cons x d)
  then show ?case by (cases d') auto
qed

lemma domain_input_inj:
  assumes "d \<in> set signature_domains" "d' \<in> set signature_domains"
    and "domain_input d p = domain_input d' p'"
  shows "d = d' \<and> p = p'"
  using zero_separated_inj [OF domains_nonzero [OF assms(1)] domains_nonzero [OF assms(2)]] assms(3)
  by (simp add: domain_input_def)

lemma length_hash [simp]: "symmetric_laws (sym L) \<Longrightarrow> length (hash L d p) = 32"
  by (simp add: hash_def)

subsection \<open>Public keys\<close>

definition encode_public :: "('pk, 'sg, 'sk) lib \<Rightarrow> 'pk \<Rightarrow> bytes" where
  "encode_public L key = pk_compressed (ec L) key"

definition public_signing :: "('pk, 'sg, 'sk) lib \<Rightarrow> 'pk \<Rightarrow> bytes" where
  "public_signing L key = pk_compressed (ec L) key"

definition verifying :: "('pk, 'sg, 'sk) lib \<Rightarrow> bytes \<Rightarrow> (protocol_error, 'pk) result" where
  "verifying L b = okOr InvalidPublicKey (vk_from_sec1 (ec L) b)"

definition public_key :: "('pk, 'sg, 'sk) lib \<Rightarrow> bytes \<Rightarrow> (protocol_error, 'pk) result" where
  "public_key L b =
     bindE (failIf (\<not> sec1_compressed_tag b) InvalidPublicKey) (\<lambda>_.
     bindE (okOr InvalidPublicKey (pk_from_sec1 (ec L) b)) (\<lambda>k.
     if encode_public L k = b then Inr k else Inl InvalidPublicKey))"

lemma public_key_iff:
  assumes "p256_laws (ec L)"
  shows "public_key L b = Inr k \<longleftrightarrow> b = encode_public L k"
proof -
  obtain w u where "pk_compressed (ec L) k = w # u" "w = 2 \<or> w = 3" using assms by (rule pk_compressed_Cons)
  then have "sec1_compressed_tag (pk_compressed (ec L) k)" by (simp add: sec1_compressed_tag_def)
  with assms show ?thesis by (auto simp: public_key_def result_iff encode_public_def)
qed

lemma length_encode_public [simp]: "p256_laws (ec L) \<Longrightarrow> length (encode_public L k) = 33"
  by (simp add: encode_public_def)

lemma verifying_signing [simp]: "p256_laws (ec L) \<Longrightarrow> verifying L (pk_compressed (ec L) k) = Inr k"
  by (simp add: verifying_def)

subsection \<open>The signing contract\<close>

text \<open>
  What a \<open>P256Signer\<close> promises of the private scalar it holds: its public key, and that a
  successful prehash signature is 64 bytes, low-\<open>s\<close>, and verifies under that key.  Signing may
  fail (the hardware may refuse), so the law speaks of successful calls only.
\<close>

locale p256_signer =
  fixes L :: "('pk, 'sg, 'sk) lib" and sg :: signer and key :: 'sk
  assumes public_key: "p256_laws (ec L) \<Longrightarrow> sg_public_key sg = Inr (pk_compressed (ec L) (sk_public (ec L) key))"
    and signs: "ecdsa_laws (ec L) (sym L) \<Longrightarrow> sg_sign_prehash sg (sha256 (sym L) m) = Inr b \<Longrightarrow>
      length b = 64 \<and> (\<exists>s. sig_from_slice (ec L) b = Some s \<and> sig_normalize_s (ec L) s = None \<and>
        ecdsa_verify (ec L) (sk_public (ec L) key) m s)"
begin

lemma sign_verifies:
  assumes "ecdsa_laws (ec L) (sym L)" "sign L sg domain payload = Inr b"
  shows "verify L (sk_public (ec L) key) domain payload b = Inr ()" "length b = 64"
  using signs [OF assms(1), of "domain_input domain payload" b] assms(2)
  by (auto simp: sign_def hash_def domain_input_def result_iff)

end

definition signing_key_signer :: "('pk, 'sg, 'sk) lib \<Rightarrow> 'sk \<Rightarrow> signer" where
  "signing_key_signer L key = \<lparr>
     sg_public_key = Inr (public_signing L (sk_public (ec L) key)),
     sg_sign_prehash = (\<lambda>digest.
       bindE (okOr KeyOperation (ecdsa_sign_prehash (ec L) key digest)) (\<lambda>signature.
       Inr (sig_to_bytes (ec L)
         (case sig_normalize_s (ec L) signature of Some low \<Rightarrow> low | None \<Rightarrow> signature)))) \<rparr>"

interpretation software_signer: p256_signer L "signing_key_signer L key" key for L key
proof
  show "sg_public_key (signing_key_signer L key) = Inr (pk_compressed (ec L) (sk_public (ec L) key))"
    by (simp add: signing_key_signer_def public_signing_def)
next
  fix m b
  assume l: "ecdsa_laws (ec L) (sym L)"
    and b: "sg_sign_prehash (signing_key_signer L key) (sha256 (sym L) m) = Inr b"
  from b obtain s where s: "ecdsa_sign_prehash (ec L) key (sha256 (sym L) m) = Some s" and
    e: "b = sig_to_bytes (ec L) (case sig_normalize_s (ec L) s of Some low \<Rightarrow> low | None \<Rightarrow> s)"
    by (auto simp: signing_key_signer_def result_iff)
  show "length b = 64 \<and> (\<exists>s. sig_from_slice (ec L) b = Some s \<and> sig_normalize_s (ec L) s = None \<and>
        ecdsa_verify (ec L) (sk_public (ec L) key) m s)"
    using ecdsa_signs [OF l s] ecdsa_normal [OF l] l
    by (cases "sig_normalize_s (ec L) s") (simp_all add: e)
qed

subsection \<open>Session keys and labels\<close>

definition session_key ::
    "('pk, 'sg, 'sk) lib \<Rightarrow> bytes \<Rightarrow> bytes \<Rightarrow> bytes \<Rightarrow> (protocol_error, bytes) result" where
  "session_key L shared digest nonce =
     okOr KeyDerivation (hkdf (sym L) (digest @ nonce) shared SESSION_INFO 32)"

lemma session_key_total:
  assumes "symmetric_laws (sym L)"
  obtains k where "session_key L shared digest nonce = Inr k" "length k = 32"
proof -
  have "(32 :: nat) \<le> 8160" by simp
  then obtain k where "hkdf (sym L) (digest @ nonce) shared SESSION_INFO 32 = Some k" "length k = 32"
    by (rule hkdf_obtain [OF assms])
  then show thesis by (intro that) (simp add: session_key_def)
qed

definition label :: "string \<Rightarrow> (protocol_error, unit) result" where
  "label value = (if length value \<le> 64 then Inr () else Inl Malformed)"

lemma label_iff [result_iff]: "label s = Inr u \<longleftrightarrow> length s \<le> 64"
  by (simp add: label_def)

end
