(* ===== verification/Messages.thy ===== *)
theory Messages
  imports Protocol_Base
begin

text \<open>
  The four protocol messages (\<open>crates/core/src/protocol/mod.rs\<close>): their data, their
  canonical CBOR encoders and strict decoders, the stanza codec inside a request and the
  signed envelope, with the theorems that each decoder accepts exactly the encodings of the
  well-formed (and, where the code validates, valid) values.
\<close>

subsection \<open>Data\<close>

record pairing_offer =
  po_desktop_id :: bytes
  po_desktop_label :: string
  po_desktop_signing_public_key :: bytes
  po_desktop_selection_public_key :: bytes
  po_nonce :: bytes

record pairing_response =
  pr_identity_id :: bytes
  pr_recipient :: string
  pr_phone_signing_public_key :: bytes
  pr_offer_digest :: bytes
  pr_nonce :: bytes

record unwrap_request =
  rq_request_id :: bytes
  rq_identity_id :: bytes
  rq_desktop_id :: bytes
  rq_session_public_key :: bytes
  rq_recipient_stanza :: tagged_stanza
  rq_nonce :: bytes
  rq_expires_at_unix :: u64
  rq_caller_hint :: "string option"

record unwrap_response =
  rs_request_id :: bytes
  rs_request_digest :: bytes
  rs_identity_id :: bytes
  rs_desktop_id :: bytes
  rs_phone_session_public_key :: bytes
  rs_nonce :: bytes
  rs_encrypted_file_key :: bytes

text \<open>The four \<open>Signed...\<close> structures: a payload and a 64-byte signature.\<close>

record 'p signed_message =
  payload :: 'p
  signature :: bytes

record pairing_record =
  pair_desktop_id :: bytes
  pair_identity_id :: bytes
  pair_desktop_signing_public_key :: bytes
  pair_desktop_selection_public_key :: bytes
  pair_phone_signing_public_key :: bytes

subsection \<open>Validation\<close>

definition validate_request :: "('pk, 'sg, 'sk) lib \<Rightarrow> unwrap_request \<Rightarrow> (protocol_error, unit) result" where
  "validate_request L value =
     bindE (failIf (rq_expires_at_unix value > MAX_PROTOCOL_TIME) Malformed) (\<lambda>_.
     bindE (public_key L (rq_session_public_key value)) (\<lambda>_.
     bindE (mapErr (\<lambda>_. InvalidRecipientStanza) (validate_stanza L (rq_recipient_stanza value))) (\<lambda>_.
     case rq_caller_hint value of Some v \<Rightarrow> label v | None \<Rightarrow> Inr ())))"

definition validate_pairing_response ::
    "('pk, 'sg, 'sk) lib \<Rightarrow> pairing_response \<Rightarrow> (protocol_error, unit) result" where
  "validate_pairing_response L value =
     bindE (mapErr (\<lambda>_. InvalidRecipientStanza) (recipient_parse L (pr_recipient value))) (\<lambda>recipient.
     let identity_public = recipient_public_key_bytes L recipient
     in bindE (verifying L (pr_phone_signing_public_key value)) (\<lambda>_.
        if identity_public = pr_phone_signing_public_key value then Inl InvalidPublicKey else Inr ()))"

subsection \<open>Encoders\<close>

definition header :: "('pk, 'sg, 'sk) lib \<Rightarrow> u64 \<Rightarrow> u16 \<Rightarrow> bytes" where
  "header L len kind =
     e_array (minicbor L) len @ e_u16 (minicbor L) PROTOCOL_VERSION @ e_u16 (minicbor L) kind @
     e_u16 (minicbor L) ALGORITHM_SUITE"

definition encode_offer :: "('pk, 'sg, 'sk) lib \<Rightarrow> pairing_offer \<Rightarrow> bytes" where
  "encode_offer L v =
     header L 8 OFFER @ e_bytes (minicbor L) (po_desktop_id v) @ e_str (minicbor L) (po_desktop_label v) @
     e_bytes (minicbor L) (po_desktop_signing_public_key v) @
     e_bytes (minicbor L) (po_desktop_selection_public_key v) @ e_bytes (minicbor L) (po_nonce v)"

definition encode_pairing_response :: "('pk, 'sg, 'sk) lib \<Rightarrow> pairing_response \<Rightarrow> bytes" where
  "encode_pairing_response L v =
     header L 8 PAIRING_RESPONSE @ e_bytes (minicbor L) (pr_identity_id v) @
     e_str (minicbor L) (pr_recipient v) @ e_bytes (minicbor L) (pr_phone_signing_public_key v) @
     e_bytes (minicbor L) (pr_offer_digest v) @ e_bytes (minicbor L) (pr_nonce v)"

definition encode_stanza :: "('pk, 'sg, 'sk) lib \<Rightarrow> tagged_stanza \<Rightarrow> bytes" where
  "encode_stanza L v =
     e_array (minicbor L) 3 @ e_str (minicbor L) (st_tag v) @
     e_array (minicbor L) (of_nat (length (st_args v))) @
     concat (map (e_str (minicbor L)) (st_args v)) @ e_bytes (minicbor L) (st_body v)"

definition encode_request :: "('pk, 'sg, 'sk) lib \<Rightarrow> unwrap_request \<Rightarrow> bytes" where
  "encode_request L v =
     header L 11 REQUEST @ e_bytes (minicbor L) (rq_request_id v) @ e_bytes (minicbor L) (rq_identity_id v) @
     e_bytes (minicbor L) (rq_desktop_id v) @ e_bytes (minicbor L) (rq_session_public_key v) @
     encode_stanza L (rq_recipient_stanza v) @ e_bytes (minicbor L) (rq_nonce v) @
     e_u64 (minicbor L) (rq_expires_at_unix v) @
     (case rq_caller_hint v of Some s \<Rightarrow> e_str (minicbor L) s | None \<Rightarrow> e_null (minicbor L))"

definition encode_response :: "('pk, 'sg, 'sk) lib \<Rightarrow> unwrap_response \<Rightarrow> bytes" where
  "encode_response L v =
     header L 10 RESPONSE @ e_bytes (minicbor L) (rs_request_id v) @ e_bytes (minicbor L) (rs_request_digest v) @
     e_bytes (minicbor L) (rs_identity_id v) @ e_bytes (minicbor L) (rs_desktop_id v) @
     e_bytes (minicbor L) (rs_phone_session_public_key v) @ e_bytes (minicbor L) (rs_nonce v) @
     e_bytes (minicbor L) (rs_encrypted_file_key v)"

definition response_aad :: "('pk, 'sg, 'sk) lib \<Rightarrow> unwrap_response \<Rightarrow> bytes" where
  "response_aad L v =
     header L 9 RESPONSE @ e_bytes (minicbor L) (rs_request_id v) @ e_bytes (minicbor L) (rs_request_digest v) @
     e_bytes (minicbor L) (rs_identity_id v) @ e_bytes (minicbor L) (rs_desktop_id v) @
     e_bytes (minicbor L) (rs_phone_session_public_key v) @ e_bytes (minicbor L) (rs_nonce v)"

definition signed_envelope :: "('pk, 'sg, 'sk) lib \<Rightarrow> bytes \<Rightarrow> bytes \<Rightarrow> bytes" where
  "signed_envelope L p s = e_array (minicbor L) 2 @ e_bytes (minicbor L) p @ e_bytes (minicbor L) s"

subsection \<open>Decoder steps\<close>

text \<open>A step takes the bytes not consumed yet and returns its value with what is left.\<close>

definition arr :: "('pk, 'sg, 'sk) lib \<Rightarrow> bytes \<Rightarrow> u64 \<Rightarrow> (protocol_error, bytes) result" where
  "arr L d n =
     bindE (okOr Malformed (d_array (minicbor L) d)) (\<lambda>(len, d).
     if len = Some n then Inr d else Inl Malformed)"

definition u16_field :: "('pk, 'sg, 'sk) lib \<Rightarrow> bytes \<Rightarrow> u16 \<Rightarrow> protocol_error \<Rightarrow> (protocol_error, bytes) result" where
  "u16_field L d v e =
     bindE (okOr Malformed (d_u16 (minicbor L) d)) (\<lambda>(w, d). if w \<noteq> v then Inl e else Inr d)"

definition hdr :: "('pk, 'sg, 'sk) lib \<Rightarrow> bytes \<Rightarrow> u64 \<Rightarrow> u16 \<Rightarrow> (protocol_error, bytes) result" where
  "hdr L d n kind =
     bindE (arr L d n) (\<lambda>d.
     bindE (u16_field L d PROTOCOL_VERSION UnsupportedVersion) (\<lambda>d.
     bindE (u16_field L d kind UnexpectedMessageType) (\<lambda>d.
     u16_field L d ALGORITHM_SUITE UnsupportedSuite)))"

text \<open>\<open>fixed(d.bytes()?)?\<close> for an \<open>N\<close>-byte array.\<close>

definition fixed :: "('pk, 'sg, 'sk) lib \<Rightarrow> nat \<Rightarrow> bytes \<Rightarrow> (protocol_error, bytes \<times> bytes) result" where
  "fixed L n d =
     bindE (okOr Malformed (d_bytes (minicbor L) d)) (\<lambda>(v, d).
     if length v = n then Inr (v, d) else Inl Malformed)"

definition text_field :: "('pk, 'sg, 'sk) lib \<Rightarrow> bytes \<Rightarrow> nat \<Rightarrow> (protocol_error, string \<times> bytes) result" where
  "text_field L d limit =
     bindE (okOr Malformed (d_str (minicbor L) d)) (\<lambda>(s, d).
     if length s > limit then Inl Malformed else Inr (s, d))"

definition end_of :: "bytes \<Rightarrow> (protocol_error, unit) result" where
  "end_of d = (if d = [] then Inr () else Inl Malformed)"

definition canonical :: "bytes \<Rightarrow> bytes \<Rightarrow> (protocol_error, unit) result" where
  "canonical a b = (if a = b then Inr () else Inl Malformed)"

fun text_fields :: "('pk, 'sg, 'sk) lib \<Rightarrow> nat \<Rightarrow> nat \<Rightarrow> bytes \<Rightarrow> (protocol_error, string list \<times> bytes) result" where
  "text_fields L limit 0 d = Inr ([], d)"
| "text_fields L limit (Suc n) d =
     bindE (text_field L d limit) (\<lambda>(s, d).
     bindE (text_fields L limit n d) (\<lambda>(ss, d). Inr (s # ss, d)))"

subsection \<open>Decoders\<close>

definition decode_signed :: "('pk, 'sg, 'sk) lib \<Rightarrow> bytes \<Rightarrow> (protocol_error, bytes \<times> bytes) result" where
  "decode_signed L b =
     bindE (failIf (b = [] \<or> length b > MAX_SIGNED_MESSAGE_BYTES) Malformed) (\<lambda>_.
     bindE (arr L b 2) (\<lambda>d.
     bindE (okOr Malformed (d_bytes (minicbor L) d)) (\<lambda>(p, d).
     bindE (fixed L 64 d) (\<lambda>(s, d).
     bindE (end_of d) (\<lambda>_. Inr (p, s))))))"

definition decode_offer :: "('pk, 'sg, 'sk) lib \<Rightarrow> bytes \<Rightarrow> (protocol_error, pairing_offer) result" where
  "decode_offer L b =
     bindE (hdr L b 8 OFFER) (\<lambda>d.
     bindE (fixed L 16 d) (\<lambda>(desktop_id, d).
     bindE (text_field L d 64) (\<lambda>(desktop_label, d).
     bindE (fixed L 33 d) (\<lambda>(signing, d).
     bindE (fixed L 33 d) (\<lambda>(selection, d).
     bindE (fixed L 32 d) (\<lambda>(nonce, d).
     let v = \<lparr> po_desktop_id = desktop_id, po_desktop_label = desktop_label,
               po_desktop_signing_public_key = signing, po_desktop_selection_public_key = selection,
               po_nonce = nonce \<rparr>
     in bindE (end_of d) (\<lambda>_.
        bindE (canonical b (encode_offer L v)) (\<lambda>_. Inr v))))))))"

definition decode_pairing_response ::
    "('pk, 'sg, 'sk) lib \<Rightarrow> bytes \<Rightarrow> (protocol_error, pairing_response) result" where
  "decode_pairing_response L b =
     bindE (hdr L b 8 PAIRING_RESPONSE) (\<lambda>d.
     bindE (fixed L 16 d) (\<lambda>(identity_id, d).
     bindE (text_field L d 160) (\<lambda>(recipient, d).
     bindE (fixed L 33 d) (\<lambda>(signing, d).
     bindE (fixed L 32 d) (\<lambda>(offer_digest, d).
     bindE (fixed L 32 d) (\<lambda>(nonce, d).
     let v = \<lparr> pr_identity_id = identity_id, pr_recipient = recipient,
               pr_phone_signing_public_key = signing, pr_offer_digest = offer_digest, pr_nonce = nonce \<rparr>
     in bindE (end_of d) (\<lambda>_.
        bindE (canonical b (encode_pairing_response L v)) (\<lambda>_.
        bindE (validate_pairing_response L v) (\<lambda>_. Inr v)))))))))"

definition decode_stanza :: "('pk, 'sg, 'sk) lib \<Rightarrow> bytes \<Rightarrow> (protocol_error, tagged_stanza \<times> bytes) result" where
  "decode_stanza L d =
     bindE (arr L d 3) (\<lambda>d.
     bindE (text_field L d 64) (\<lambda>(t, d).
     bindE (okOr Malformed (d_array (minicbor L) d)) (\<lambda>(argument_count, d).
     bindE (failIf (argument_count \<noteq> Some 1 \<and> argument_count \<noteq> Some 2) Malformed) (\<lambda>_.
     bindE (text_fields L 128 (case argument_count of Some n \<Rightarrow> unat n | None \<Rightarrow> 0) d) (\<lambda>(args, d).
     bindE (okOr Malformed (d_bytes (minicbor L) d)) (\<lambda>(body, d).
     bindE (failIf (length body \<noteq> 32) Malformed) (\<lambda>_.
     Inr (\<lparr> st_tag = t, st_args = args, st_body = body \<rparr>, d))))))))"

definition hint_field :: "('pk, 'sg, 'sk) lib \<Rightarrow> bytes \<Rightarrow> (protocol_error, string option \<times> bytes) result" where
  "hint_field L d =
     bindE (okOr Malformed (d_type (minicbor L) d)) (\<lambda>t.
     case t of
       TNull \<Rightarrow> bindE (okOr Malformed (d_null (minicbor L) d)) (\<lambda>d. Inr (None, d))
     | TString \<Rightarrow> bindE (text_field L d 64) (\<lambda>(s, d). Inr (Some s, d))
     | _ \<Rightarrow> Inl Malformed)"

definition decode_request :: "('pk, 'sg, 'sk) lib \<Rightarrow> bytes \<Rightarrow> (protocol_error, unwrap_request) result" where
  "decode_request L b =
     bindE (hdr L b 11 REQUEST) (\<lambda>d.
     bindE (fixed L 16 d) (\<lambda>(request_id, d).
     bindE (fixed L 16 d) (\<lambda>(identity_id, d).
     bindE (fixed L 16 d) (\<lambda>(desktop_id, d).
     bindE (fixed L 33 d) (\<lambda>(session_public_key, d).
     bindE (decode_stanza L d) (\<lambda>(recipient_stanza, d).
     bindE (fixed L 32 d) (\<lambda>(nonce, d).
     bindE (okOr Malformed (d_u64 (minicbor L) d)) (\<lambda>(expires_at_unix, d).
     bindE (hint_field L d) (\<lambda>(caller_hint, d).
     let v = \<lparr> rq_request_id = request_id, rq_identity_id = identity_id, rq_desktop_id = desktop_id,
               rq_session_public_key = session_public_key, rq_recipient_stanza = recipient_stanza,
               rq_nonce = nonce, rq_expires_at_unix = expires_at_unix, rq_caller_hint = caller_hint \<rparr>
     in bindE (end_of d) (\<lambda>_.
        bindE (canonical b (encode_request L v)) (\<lambda>_.
        bindE (validate_request L v) (\<lambda>_. Inr v))))))))))))"

definition decode_response :: "('pk, 'sg, 'sk) lib \<Rightarrow> bytes \<Rightarrow> (protocol_error, unwrap_response) result" where
  "decode_response L b =
     bindE (hdr L b 10 RESPONSE) (\<lambda>d.
     bindE (fixed L 16 d) (\<lambda>(request_id, d).
     bindE (fixed L 32 d) (\<lambda>(request_digest, d).
     bindE (fixed L 16 d) (\<lambda>(identity_id, d).
     bindE (fixed L 16 d) (\<lambda>(desktop_id, d).
     bindE (fixed L 33 d) (\<lambda>(session, d).
     bindE (fixed L 32 d) (\<lambda>(nonce, d).
     bindE (fixed L 32 d) (\<lambda>(encrypted, d).
     let v = \<lparr> rs_request_id = request_id, rs_request_digest = request_digest, rs_identity_id = identity_id,
               rs_desktop_id = desktop_id, rs_phone_session_public_key = session, rs_nonce = nonce,
               rs_encrypted_file_key = encrypted \<rparr>
     in bindE (end_of d) (\<lambda>_.
        bindE (canonical b (encode_response L v)) (\<lambda>_.
        bindE (public_key L (rs_phone_session_public_key v)) (\<lambda>_. Inr v)))))))))))"

subsection \<open>Signed messages\<close>

definition signed_encode :: "('pk, 'sg, 'sk) lib \<Rightarrow> ('p \<Rightarrow> bytes) \<Rightarrow> 'p signed_message \<Rightarrow> bytes" where
  "signed_encode L enc v = signed_envelope L (enc (payload v)) (signature v)"

definition signed_decode ::
    "('pk, 'sg, 'sk) lib \<Rightarrow> ('p \<Rightarrow> bytes) \<Rightarrow> (bytes \<Rightarrow> (protocol_error, 'p) result) \<Rightarrow> bytes \<Rightarrow>
     (protocol_error, 'p signed_message) result" where
  "signed_decode L enc dec b =
     bindE (decode_signed L b) (\<lambda>(p, s).
     bindE (dec p) (\<lambda>v.
     let value = \<lparr> payload = v, signature = s \<rparr>
     in bindE (canonical b (signed_encode L enc value)) (\<lambda>_. Inr value)))"

definition signed_offer_encode :: "('pk, 'sg, 'sk) lib \<Rightarrow> pairing_offer signed_message \<Rightarrow> bytes" where
  "signed_offer_encode L = signed_encode L (encode_offer L)"
definition signed_offer_decode ::
    "('pk, 'sg, 'sk) lib \<Rightarrow> bytes \<Rightarrow> (protocol_error, pairing_offer signed_message) result" where
  "signed_offer_decode L = signed_decode L (encode_offer L) (decode_offer L)"
definition signed_pairing_response_encode :: "('pk, 'sg, 'sk) lib \<Rightarrow> pairing_response signed_message \<Rightarrow> bytes" where
  "signed_pairing_response_encode L = signed_encode L (encode_pairing_response L)"
definition signed_pairing_response_decode ::
    "('pk, 'sg, 'sk) lib \<Rightarrow> bytes \<Rightarrow> (protocol_error, pairing_response signed_message) result" where
  "signed_pairing_response_decode L = signed_decode L (encode_pairing_response L) (decode_pairing_response L)"
definition signed_request_encode :: "('pk, 'sg, 'sk) lib \<Rightarrow> unwrap_request signed_message \<Rightarrow> bytes" where
  "signed_request_encode L = signed_encode L (encode_request L)"
definition signed_request_decode ::
    "('pk, 'sg, 'sk) lib \<Rightarrow> bytes \<Rightarrow> (protocol_error, unwrap_request signed_message) result" where
  "signed_request_decode L = signed_decode L (encode_request L) (decode_request L)"
definition signed_response_encode :: "('pk, 'sg, 'sk) lib \<Rightarrow> unwrap_response signed_message \<Rightarrow> bytes" where
  "signed_response_encode L = signed_encode L (encode_response L)"
definition signed_response_decode ::
    "('pk, 'sg, 'sk) lib \<Rightarrow> bytes \<Rightarrow> (protocol_error, unwrap_response signed_message) result" where
  "signed_response_decode L = signed_decode L (encode_response L) (decode_response L)"

subsection \<open>Reading back what was written\<close>

lemma end_of_iff [result_iff]: "end_of d = Inr u \<longleftrightarrow> d = []"
  by (simp add: end_of_def)

lemma canonical_iff [result_iff]: "canonical a b = Inr u \<longleftrightarrow> a = b"
  by (simp add: canonical_def)

lemma end_of_Nil [simp]: "end_of [] = Inr ()"
  by (simp add: end_of_def)

lemma canonical_refl [simp]: "canonical a a = Inr ()"
  by (simp add: canonical_def)

lemma arr_rt:
  assumes "cbor_codec (minicbor L)" shows "arr L (e_array (minicbor L) n @ r) n = Inr r"
  by (simp add: arr_def cbor_codec.array_rt [OF assms])

lemma hdr_rt:
  assumes "cbor_codec (minicbor L)" shows "hdr L (header L n k @ r) n k = Inr r"
  by (simp add: hdr_def header_def arr_rt [OF assms] u16_field_def cbor_codec.u16_rt [OF assms])

lemma fixed_rt:
  assumes "cbor_codec (minicbor L)" "length v = n" "n < 2 ^ 64"
  shows "fixed L n (e_bytes (minicbor L) v @ r) = Inr (v, r)" "fixed L n (e_bytes (minicbor L) v) = Inr (v, [])"
  using cbor_codec.bytes_rt [OF assms(1), of v r] cbor_codec.bytes_rt [OF assms(1), of v "[]"] assms(2,3)
  by (simp_all add: fixed_def)

lemma text_field_rt:
  assumes "cbor_codec (minicbor L)" "utf8_valid s" "length s \<le> m" "m < 2 ^ 64"
  shows "text_field L (e_str (minicbor L) s @ r) m = Inr (s, r)" "text_field L (e_str (minicbor L) s) m = Inr (s, [])"
  using cbor_codec.str_rt [OF assms(1), of s r] cbor_codec.str_rt [OF assms(1), of s "[]"] assms(2-4)
  by (simp_all add: text_field_def)

lemma text_fields_rt:
  assumes "cbor_codec (minicbor L)" "m < 2 ^ 64"
  shows "\<forall>s \<in> set ss. utf8_valid s \<and> length s \<le> m \<Longrightarrow>
    text_fields L m (length ss) (concat (map (e_str (minicbor L)) ss) @ r) = Inr (ss, r)"
  by (induction ss) (simp_all add: text_field_rt [OF assms(1) _ _ assms(2)])

lemma fixed_length: "fixed L n d = Inr (v, r) \<Longrightarrow> length v = n"
  by (auto simp: fixed_def result_iff split: if_splits)

lemma text_field_wf:
  assumes "cbor_codec (minicbor L)" "text_field L d m = Inr (s, r)"
  shows "utf8_valid s \<and> length s \<le> m"
  using assms(2) cbor_codec.str_utf8 [OF assms(1)]
  by (auto simp: text_field_def result_iff split: if_splits)

lemma text_fields_wf:
  assumes "cbor_codec (minicbor L)"
  shows "text_fields L m n d = Inr (ss, r) \<Longrightarrow> length ss = n \<and> (\<forall>s \<in> set ss. utf8_valid s \<and> length s \<le> m)"
proof (induction n arbitrary: d ss)
  case (Suc n)
  then obtain s d' ss' where "text_field L d m = Inr (s, d')" "text_fields L m n d' = Inr (ss', r)" "ss = s # ss'"
    by (auto simp: result_iff)
  with Suc.IH text_field_wf [OF assms] show ?case by auto
qed simp

subsection \<open>Well-formed values\<close>

text \<open>The widths of the fixed arrays and the limits of the texts, as the decoders see them.\<close>

definition wf_offer :: "pairing_offer \<Rightarrow> bool" where
  "wf_offer v \<longleftrightarrow> length (po_desktop_id v) = 16 \<and> utf8_valid (po_desktop_label v) \<and>
     length (po_desktop_label v) \<le> 64 \<and> length (po_desktop_signing_public_key v) = 33 \<and>
     length (po_desktop_selection_public_key v) = 33 \<and> length (po_nonce v) = 32"

definition wf_pairing_response :: "pairing_response \<Rightarrow> bool" where
  "wf_pairing_response v \<longleftrightarrow> length (pr_identity_id v) = 16 \<and> utf8_valid (pr_recipient v) \<and>
     length (pr_recipient v) \<le> 160 \<and> length (pr_phone_signing_public_key v) = 33 \<and>
     length (pr_offer_digest v) = 32 \<and> length (pr_nonce v) = 32"

definition wf_stanza :: "tagged_stanza \<Rightarrow> bool" where
  "wf_stanza v \<longleftrightarrow> utf8_valid (st_tag v) \<and> length (st_tag v) \<le> 64 \<and> length (st_args v) \<in> {1, 2} \<and>
     (\<forall>a \<in> set (st_args v). utf8_valid a \<and> length a \<le> 128) \<and> length (st_body v) = 32"

definition wf_request :: "unwrap_request \<Rightarrow> bool" where
  "wf_request v \<longleftrightarrow> length (rq_request_id v) = 16 \<and> length (rq_identity_id v) = 16 \<and>
     length (rq_desktop_id v) = 16 \<and> length (rq_session_public_key v) = 33 \<and>
     wf_stanza (rq_recipient_stanza v) \<and> length (rq_nonce v) = 32 \<and>
     (case rq_caller_hint v of None \<Rightarrow> True | Some h \<Rightarrow> utf8_valid h \<and> length h \<le> 64)"

definition wf_response :: "unwrap_response \<Rightarrow> bool" where
  "wf_response v \<longleftrightarrow> length (rs_request_id v) = 16 \<and> length (rs_request_digest v) = 32 \<and>
     length (rs_identity_id v) = 16 \<and> length (rs_desktop_id v) = 16 \<and>
     length (rs_phone_session_public_key v) = 33 \<and> length (rs_nonce v) = 32 \<and>
     length (rs_encrypted_file_key v) = 32"

subsection \<open>What the decoders accept\<close>

lemma decode_offer_iff:
  assumes c: "cbor_codec (minicbor L)"
  shows "decode_offer L b = Inr v \<longleftrightarrow> b = encode_offer L v \<and> wf_offer v"
proof
  assume "b = encode_offer L v \<and> wf_offer v"
  then show "decode_offer L b = Inr v"
    by (simp add: decode_offer_def encode_offer_def wf_offer_def hdr_rt [OF c] fixed_rt [OF c] text_field_rt [OF c])
qed (auto simp: decode_offer_def result_iff wf_offer_def Let_def dest!: fixed_length text_field_wf [OF c])

lemma decode_pairing_response_iff:
  assumes c: "cbor_codec (minicbor L)"
  shows "decode_pairing_response L b = Inr v \<longleftrightarrow>
    b = encode_pairing_response L v \<and> wf_pairing_response v \<and> validate_pairing_response L v = Inr ()"
proof
  assume "b = encode_pairing_response L v \<and> wf_pairing_response v \<and> validate_pairing_response L v = Inr ()"
  then show "decode_pairing_response L b = Inr v"
    by (cases v) (simp add: decode_pairing_response_def encode_pairing_response_def wf_pairing_response_def
        hdr_rt [OF c] fixed_rt [OF c] text_field_rt [OF c] Let_def)
qed (auto simp: decode_pairing_response_def result_iff wf_pairing_response_def Let_def
    dest!: fixed_length text_field_wf [OF c])

lemma decode_response_iff:
  assumes c: "cbor_codec (minicbor L)"
  shows "decode_response L b = Inr v \<longleftrightarrow>
    b = encode_response L v \<and> wf_response v \<and> (\<exists>k. public_key L (rs_phone_session_public_key v) = Inr k)"
proof
  assume "b = encode_response L v \<and> wf_response v \<and> (\<exists>k. public_key L (rs_phone_session_public_key v) = Inr k)"
  then show "decode_response L b = Inr v"
    by (auto simp: decode_response_def encode_response_def wf_response_def hdr_rt [OF c] fixed_rt [OF c])
qed (auto simp: decode_response_def result_iff wf_response_def Let_def dest!: fixed_length)

lemma decode_stanza_rt:
  assumes c: "cbor_codec (minicbor L)" and w: "wf_stanza v"
  shows "decode_stanza L (encode_stanza L v @ r) = Inr (v, r)"
proof -
  have l: "length (st_args v) = 1 \<or> length (st_args v) = 2" and b: "length (st_body v) < 2 ^ 64"
    using w by (auto simp: wf_stanza_def)
  then have n: "unat (of_nat (length (st_args v)) :: u64) = length (st_args v)"
    "(of_nat (length (st_args v)) :: u64) = 1 \<or> (of_nat (length (st_args v)) :: u64) = 2" by auto
  have ss: "text_fields L 128 (length (st_args v)) (concat (map (e_str (minicbor L)) (st_args v)) @ r') = Inr (st_args v, r')" for r'
    using w by (intro text_fields_rt [OF c]) (simp_all add: wf_stanza_def)
  show ?thesis using w n b
    by (auto simp: decode_stanza_def encode_stanza_def arr_rt [OF c] text_field_rt [OF c] wf_stanza_def
        cbor_codec.array_rt [OF c] cbor_codec.bytes_rt [OF c] ss)
qed

lemma decode_stanza_wf:
  assumes c: "cbor_codec (minicbor L)" and d: "decode_stanza L d = Inr (v, r)"
  shows "wf_stanza v"
  using d by (auto simp: decode_stanza_def result_iff wf_stanza_def dest!: text_field_wf [OF c] text_fields_wf [OF c])

lemma hint_field_rt:
  assumes c: "cbor_codec (minicbor L)" and "case h of None \<Rightarrow> True | Some t \<Rightarrow> utf8_valid t \<and> length t \<le> 64"
  shows "hint_field L (case h of Some s \<Rightarrow> e_str (minicbor L) s | None \<Rightarrow> e_null (minicbor L)) = Inr (h, [])"
  using assms(2) cbor_codec.rt_end [OF c]
  by (cases h) (simp_all add: hint_field_def text_field_rt [OF c])

lemma hint_field_wf:
  assumes c: "cbor_codec (minicbor L)" and d: "hint_field L d = Inr (h, r)"
  shows "case h of None \<Rightarrow> True | Some t \<Rightarrow> utf8_valid t \<and> length t \<le> 64"
proof -
  from d obtain t where "d_type (minicbor L) d = Some t" by (auto simp: hint_field_def result_iff)
  with d show ?thesis by (cases t) (auto simp: hint_field_def result_iff dest!: text_field_wf [OF c])
qed

lemma decode_request_iff:
  assumes c: "cbor_codec (minicbor L)"
  shows "decode_request L b = Inr v \<longleftrightarrow>
    b = encode_request L v \<and> wf_request v \<and> validate_request L v = Inr ()"
proof
  assume "b = encode_request L v \<and> wf_request v \<and> validate_request L v = Inr ()"
  then show "decode_request L b = Inr v"
    by (cases v) (simp add: decode_request_def encode_request_def wf_request_def hdr_rt [OF c] fixed_rt [OF c]
        decode_stanza_rt [OF c] cbor_codec.u64_rt [OF c] hint_field_rt [OF c] Let_def)
qed (auto simp: decode_request_def result_iff wf_request_def Let_def
    dest!: fixed_length decode_stanza_wf [OF c] hint_field_wf [OF c])

subsection \<open>The message contract and the signed envelope\<close>

lemma decode_signed_rt:
  assumes c: "cbor_codec (minicbor L)" and s: "length s = 64"
    and l: "length (signed_envelope L p s) \<le> MAX_SIGNED_MESSAGE_BYTES"
  shows "decode_signed L (signed_envelope L p s) = Inr (p, s)"
proof -
  have "length p \<le> length (signed_envelope L p s)" "length s \<le> length (signed_envelope L p s)"
    using cbor_codec.bytes_contained [OF c, of p] cbor_codec.bytes_contained [OF c, of s]
    by (simp_all add: signed_envelope_def)
  then have "length p < 2 ^ 64" "signed_envelope L p s \<noteq> []" using l s by auto
  moreover have "bindE (arr L (signed_envelope L p s) 2) (\<lambda>d.
     bindE (okOr Malformed (d_bytes (minicbor L) d)) (\<lambda>(p, d).
     bindE (fixed L 64 d) (\<lambda>(s, d). bindE (end_of d) (\<lambda>_. Inr (p, s))))) = Inr (p, s)"
    using calculation(1) s
    by (simp add: signed_envelope_def arr_rt [OF c] cbor_codec.bytes_rt [OF c] fixed_rt [OF c])
  ultimately show ?thesis using l by (simp add: decode_signed_def)
qed

lemma decode_signed_bounds:
  "decode_signed L b = Inr (p, s) \<Longrightarrow> length b \<le> MAX_SIGNED_MESSAGE_BYTES \<and> length s = 64"
  by (auto simp: decode_signed_def result_iff dest: fixed_length)

text \<open>
  What a message gives its envelope: a decoder that accepts exactly the encodings of the
  accepted values (\<open>ok\<close>), each shorter than any CBOR length.  The four \<open>Signed...\<close> types get their
  codec laws from this contract.
\<close>

locale message_codec =
  fixes L :: "('pk, 'sg, 'sk) lib" and enc :: "'p \<Rightarrow> bytes" and dec :: "bytes \<Rightarrow> (protocol_error, 'p) result"
    and ok :: "'p \<Rightarrow> bool"
  assumes dec_iff: "cbor_codec (minicbor L) \<Longrightarrow> dec b = Inr v \<longleftrightarrow> b = enc v \<and> ok v"
begin

lemma signed_decode_iff:
  assumes c: "cbor_codec (minicbor L)"
  shows "signed_decode L enc dec b = Inr m \<longleftrightarrow>
    b = signed_encode L enc m \<and> ok (payload m) \<and> length (signature m) = 64 \<and> length b \<le> MAX_SIGNED_MESSAGE_BYTES"
proof
  assume "signed_decode L enc dec b = Inr m"
  then show "b = signed_encode L enc m \<and> ok (payload m) \<and> length (signature m) = 64 \<and>
      length b \<le> MAX_SIGNED_MESSAGE_BYTES"
    by (auto simp: signed_decode_def result_iff Let_def dec_iff [OF c] dest!: decode_signed_bounds)
next
  assume "b = signed_encode L enc m \<and> ok (payload m) \<and> length (signature m) = 64 \<and>
      length b \<le> MAX_SIGNED_MESSAGE_BYTES"
  moreover from this have "decode_signed L b = Inr (enc (payload m), signature m)"
    using decode_signed_rt [OF c, of "signature m" "enc (payload m)"] by (auto simp: signed_encode_def)
  moreover from calculation(1) have "dec (enc (payload m)) = Inr (payload m)" by (simp add: dec_iff [OF c])
  ultimately show "signed_decode L enc dec b = Inr m"
    by (cases m) (simp add: signed_decode_def)
qed

text \<open>The envelope is unambiguous: equal encodings carry equal payloads and signatures.\<close>

lemma signed_encode_inj:
  assumes c: "cbor_codec (minicbor L)" and m: "ok (payload m)" "length (signature m) = 64"
    "length (signed_encode L enc m) \<le> MAX_SIGNED_MESSAGE_BYTES"
    and m': "ok (payload m')" "length (signature m') = 64"
    and e: "signed_encode L enc m = signed_encode L enc m'"
  shows "m = m'"
proof -
  have "signed_decode L enc dec (signed_encode L enc m) = Inr m" using m signed_decode_iff [OF c] by simp
  moreover have "signed_decode L enc dec (signed_encode L enc m) = Inr m'"
    using m m' e signed_decode_iff [OF c] by simp
  ultimately show ?thesis by simp
qed

end

interpretation offer_codec: message_codec L "encode_offer L" "decode_offer L" wf_offer for L
  by unfold_locales (rule decode_offer_iff)

interpretation pairing_response_codec: message_codec L "encode_pairing_response L" "decode_pairing_response L"
    "\<lambda>v. wf_pairing_response v \<and> validate_pairing_response L v = Inr ()" for L
  by unfold_locales (rule decode_pairing_response_iff)

interpretation request_codec: message_codec L "encode_request L" "decode_request L"
    "\<lambda>v. wf_request v \<and> validate_request L v = Inr ()" for L
  by unfold_locales (rule decode_request_iff)

interpretation response_codec: message_codec L "encode_response L" "decode_response L"
    "\<lambda>v. wf_response v \<and> (\<exists>k. public_key L (rs_phone_session_public_key v) = Inr k)" for L
  by unfold_locales (rule decode_response_iff)

subsection \<open>Which stanzas a valid request carries\<close>

text \<open>A stanza that passes \<open>validate_stanza\<close> is within every limit of the stanza codec, so a
  signed request whose other fields have their widths can always be read back.\<close>

lemma ascii_engine_utf8: "base64_engine e \<Longrightarrow> utf8_valid (b64_encode e b)"
  by (rule ascii_utf8_valid [OF base64_engine.encode_ascii])

lemma validated_stanza_wf:
  assumes b: "base64_engine (std64 L)" and p: "p256_laws (ec L)" and v: "validate_stanza L s = Inr u"
  shows "wf_stanza s"
proof -
  have tags: "utf8_valid STANZA_TAG" "utf8_valid STANZA_TAG_V2" "utf8_valid TAG_STANZA_TAG"
    "length STANZA_TAG \<le> 64" "length STANZA_TAG_V2 \<le> 64" "length TAG_STANZA_TAG \<le> 64" by code_simp+
  have len: "length (b64_encode (std64 L) x) \<le> 128" if "length x \<le> 65" for x
    using that by (simp add: base64_engine.encode_len [OF b])
  show ?thesis
  proof (cases "st_tag s = TAG_STANZA_TAG")
    case True
    then obtain k where "tag_parse L s = Inr k" using v by (auto simp: validate_stanza_def result_iff)
    then show ?thesis
      using p unfolding tag_parse_iff [OF b p]
      by (auto simp: wf_stanza_def tags ascii_engine_utf8 [OF b] intro!: len)
  next
    case False
    then obtain q where "parsed_stanza_parse L s = Inr q" using v by (auto simp: validate_stanza_def result_iff)
    then show ?thesis using p unfolding parsed_stanza_parse_iff [OF b p]
      by (cases "ps_version q") (auto simp: wf_stanza_def tags ascii_engine_utf8 [OF b] intro!: len)
  qed
qed

end
