(* ===== verification/Replay_State.thy ===== *)
theory Replay_State
  imports Messages "HOL-Library.List_Lexorder" "HOL-Library.Product_Lexorder" "HOL-Library.Multiset"
begin

text \<open>
  Replay state (\<open>crates/core/src/protocol/replay.rs\<close>): the \<open>ReplayStore\<close> interface, the
  in-memory \<open>ReplayGuard\<close>, and the durable \<open>ReplayState\<close> with its operations, its canonical
  encoding and its validation.  The file guard that persists the state is in \<open>Replay_File\<close>.
\<close>

subsection \<open>Data\<close>

datatype replay_role = PhoneRequests | DesktopResponses

record replay_scope =
  sc_role :: replay_role
  sc_desktop_id :: bytes
  sc_identity_id :: bytes

datatype replay_entry =
    is_RequestEntry: RequestEntry (re_id: bytes) (re_nonce: bytes) (re_exp: u64)
  | is_ResponseEntry: ResponseEntry (re_digest: bytes) (re_exp: u64)

record replay_state =
  scope :: replay_scope
  last_seen_unix :: u64
  entries :: "replay_entry list"

definition STATE_VERSION :: u16 where "STATE_VERSION = 2"
definition REQUEST_ENTRY :: u16 where "REQUEST_ENTRY = 1"
definition RESPONSE_ENTRY :: u16 where "RESPONSE_ENTRY = 2"
definition MAX_CONFIGURED_ENTRIES :: nat where [simp]: "MAX_CONFIGURED_ENTRIES = 16384"

text \<open>\<open>role as u16\<close> and \<open>TryFrom<u16>\<close>.\<close>

definition role_u16 :: "replay_role \<Rightarrow> u16" where
  "role_u16 r = (case r of PhoneRequests \<Rightarrow> 1 | DesktopResponses \<Rightarrow> 2)"

definition role_try_from :: "u16 \<Rightarrow> (protocol_error, replay_role) result" where
  "role_try_from value =
     (if value = 1 then Inr PhoneRequests else if value = 2 then Inr DesktopResponses else Inl ReplayStateError)"

lemma role_try_from_iff [result_iff]: "role_try_from v = Inr r \<longleftrightarrow> v = role_u16 r"
  by (cases r) (auto simp: role_try_from_def role_u16_def)

definition scope_new :: "replay_role \<Rightarrow> bytes \<Rightarrow> bytes \<Rightarrow> replay_scope" where
  "scope_new role desktop_id identity_id =
     \<lparr> sc_role = role, sc_desktop_id = desktop_id, sc_identity_id = identity_id \<rparr>"

definition scope_for_pairing :: "replay_role \<Rightarrow> pairing_record \<Rightarrow> replay_scope" where
  "scope_for_pairing role pairing = scope_new role (pair_desktop_id pairing) (pair_identity_id pairing)"

text \<open>The derived \<open>Ord\<close>: by constructor first, then by the fields in order, arrays
  lexicographically.\<close>

definition entry_key :: "replay_entry \<Rightarrow> nat \<times> bytes \<times> bytes \<times> u64" where
  "entry_key e = (case e of
     RequestEntry i n x \<Rightarrow> (0, i, n, x)
   | ResponseEntry d x \<Rightarrow> (1, d, [], x))"

lemma entry_key_inj: "entry_key a = entry_key b \<longleftrightarrow> a = b"
  by (cases a; cases b) (auto simp: entry_key_def)

instantiation replay_entry :: linorder
begin
definition less_eq_replay_entry :: "replay_entry \<Rightarrow> replay_entry \<Rightarrow> bool" where
  "less_eq_replay_entry a b \<longleftrightarrow> entry_key a \<le> entry_key b"
definition less_replay_entry :: "replay_entry \<Rightarrow> replay_entry \<Rightarrow> bool" where
  "less_replay_entry a b \<longleftrightarrow> entry_key a < entry_key b"
instance
  by intro_classes
    (auto simp: less_eq_replay_entry_def less_replay_entry_def simp flip: entry_key_inj)
end

subsection \<open>The in-memory guard\<close>

text \<open>A replay store as a value: what each operation does to a state of type \<open>'s\<close>.\<close>

record 's replay_ops =
  ro_request :: "bytes \<Rightarrow> bytes \<Rightarrow> bytes \<Rightarrow> bytes \<Rightarrow> u64 \<Rightarrow> u64 \<Rightarrow> 's \<Rightarrow> 's \<times> (protocol_error, unit) result"
  ro_response :: "bytes \<Rightarrow> bytes \<Rightarrow> bytes \<Rightarrow> u64 \<Rightarrow> u64 \<Rightarrow> 's \<Rightarrow> 's \<times> (protocol_error, unit) result"

record replay_guard =
  rg_requests :: "bytes set"
  rg_nonces :: "bytes set"
  rg_responses :: "bytes set"

definition guard_consume_request ::
    "bytes \<Rightarrow> bytes \<Rightarrow> bytes \<Rightarrow> bytes \<Rightarrow> u64 \<Rightarrow> u64 \<Rightarrow> replay_guard \<Rightarrow> replay_guard \<times> (protocol_error, unit) result" where
  "guard_consume_request desktop_id identity_id request_id nonce expires now g =
     (if request_id \<in> rg_requests g \<or> nonce \<in> rg_nonces g then (g, Inl Replay)
      else (g\<lparr> rg_requests := insert request_id (rg_requests g), rg_nonces := insert nonce (rg_nonces g) \<rparr>, Inr ()))"

definition guard_consume_response ::
    "bytes \<Rightarrow> bytes \<Rightarrow> bytes \<Rightarrow> u64 \<Rightarrow> u64 \<Rightarrow> replay_guard \<Rightarrow> replay_guard \<times> (protocol_error, unit) result" where
  "guard_consume_response desktop_id identity_id digest expires now g =
     (if digest \<in> rg_responses g then (g, Inl Replay)
      else (g\<lparr> rg_responses := insert digest (rg_responses g) \<rparr>, Inr ()))"

definition guard_ops :: "replay_guard replay_ops" where
  "guard_ops = \<lparr> ro_request = guard_consume_request, ro_response = guard_consume_response \<rparr>"

subsection \<open>The durable state\<close>

definition state_new :: "replay_scope \<Rightarrow> u64 \<Rightarrow> replay_state" where
  "state_new sc now = \<lparr> scope = sc, last_seen_unix = now, entries = [] \<rparr>"

definition validate_capacity :: "nat \<Rightarrow> (protocol_error, unit) result" where
  "validate_capacity capacity =
     (if 1 \<le> capacity \<and> capacity \<le> MAX_CONFIGURED_ENTRIES then Inr () else Inl ReplayCapacity)"

definition validate_expiry :: "u64 \<Rightarrow> u64 \<Rightarrow> (protocol_error, unit) result" where
  "validate_expiry expires now = validate_request_time expires now"

text \<open>The operations take \<open>&mut self\<close>: each returns the state it leaves, also on an error.  In
  particular \<open>prepare\<close> has already dropped the expired entries when a replay or a full state
  is reported.\<close>

definition prepare ::
    "replay_scope \<Rightarrow> replay_role \<Rightarrow> u64 \<Rightarrow> replay_state \<Rightarrow> replay_state \<times> (protocol_error, unit) result" where
  "prepare sc role now st =
     (if scope st \<noteq> sc \<or> sc_role (scope st) \<noteq> role then (st, Inl ReplayStateError)
      else if now < last_seen_unix st then (st, Inl ClockRollback)
      else (st\<lparr> entries := filter (\<lambda>e. re_exp e \<ge> now) (entries st) \<rparr>, Inr ()))"

definition reserve :: "nat \<Rightarrow> replay_state \<Rightarrow> (protocol_error, unit) result" where
  "reserve capacity st = (if length (entries st) \<ge> capacity then Inl ReplayCapacity else Inr ())"

definition finish :: "u64 \<Rightarrow> replay_state \<Rightarrow> replay_state" where
  "finish now st = st\<lparr> last_seen_unix := now, entries := sort (entries st) \<rparr>"

definition request_clash :: "bytes \<Rightarrow> bytes \<Rightarrow> replay_entry \<Rightarrow> bool" where
  "request_clash request_id nonce e = (case e of
     RequestEntry i n _ \<Rightarrow> i = request_id \<or> n = nonce | ResponseEntry _ _ \<Rightarrow> False)"

definition response_clash :: "bytes \<Rightarrow> replay_entry \<Rightarrow> bool" where
  "response_clash digest e = (case e of RequestEntry _ _ _ \<Rightarrow> False | ResponseEntry d _ \<Rightarrow> d = digest)"

text \<open>The body both consumers share after \<open>prepare\<close>: look for a clash, reserve, push, finish.\<close>

definition consume_entry ::
    "nat \<Rightarrow> (replay_entry \<Rightarrow> bool) \<Rightarrow> replay_entry \<Rightarrow> u64 \<Rightarrow> replay_state \<Rightarrow>
     replay_state \<times> (protocol_error, unit) result" where
  "consume_entry capacity clash e now st =
     (if list_ex clash (entries st) then (st, Inl Replay)
      else case reserve capacity st of
        Inl err \<Rightarrow> (st, Inl err)
      | Inr _ \<Rightarrow> (finish now (st\<lparr> entries := entries st @ [e] \<rparr>), Inr ()))"

definition state_consume_request ::
    "replay_scope \<Rightarrow> bytes \<Rightarrow> bytes \<Rightarrow> u64 \<Rightarrow> u64 \<Rightarrow> nat \<Rightarrow> replay_state \<Rightarrow>
     replay_state \<times> (protocol_error, unit) result" where
  "state_consume_request sc request_id nonce expires now capacity st =
     (case validate_expiry expires now of
        Inl err \<Rightarrow> (st, Inl err)
      | Inr _ \<Rightarrow>
          case prepare sc PhoneRequests now st of
            (st, Inl err) \<Rightarrow> (st, Inl err)
          | (st, Inr _) \<Rightarrow>
              consume_entry capacity (request_clash request_id nonce) (RequestEntry request_id nonce expires) now st)"

definition state_consume_response ::
    "replay_scope \<Rightarrow> bytes \<Rightarrow> u64 \<Rightarrow> u64 \<Rightarrow> nat \<Rightarrow> replay_state \<Rightarrow>
     replay_state \<times> (protocol_error, unit) result" where
  "state_consume_response sc digest expires now capacity st =
     (case validate_expiry expires now of
        Inl err \<Rightarrow> (st, Inl err)
      | Inr _ \<Rightarrow>
          case prepare sc DesktopResponses now st of
            (st, Inl err) \<Rightarrow> (st, Inl err)
          | (st, Inr _) \<Rightarrow>
              consume_entry capacity (response_clash digest) (ResponseEntry digest expires) now st)"

subsection \<open>Validation\<close>

text \<open>The loop of \<open>validate\<close>: the three hash sets grow, the first offending entry ends it.\<close>

fun validate_entries ::
    "replay_role \<Rightarrow> bytes set \<Rightarrow> bytes set \<Rightarrow> bytes set \<Rightarrow> replay_entry list \<Rightarrow> (protocol_error, unit) result" where
  "validate_entries role ids nonces responses [] = Inr ()"
| "validate_entries role ids nonces responses (RequestEntry i n x # es) =
     (if role = PhoneRequests then
        if i \<in> ids \<or> n \<in> nonces then Inl ReplayStateError
        else validate_entries role (insert i ids) (insert n nonces) responses es
      else Inl ReplayStateError)"
| "validate_entries role ids nonces responses (ResponseEntry d x # es) =
     (if role = DesktopResponses then
        if d \<in> responses then Inl ReplayStateError
        else validate_entries role ids nonces (insert d responses) es
      else Inl ReplayStateError)"

definition state_validate :: "nat \<Rightarrow> replay_state \<Rightarrow> (protocol_error, unit) result" where
  "state_validate capacity st =
     bindE (validate_capacity capacity) (\<lambda>_.
     bindE (failIf (length (entries st) > capacity \<or> list_ex (\<lambda>e. re_exp e < last_seen_unix st) (entries st) \<or>
              \<not> strictly_ascending (entries st)) ReplayStateError) (\<lambda>_.
     validate_entries (sc_role (scope st)) {} {} {} (entries st)))"

subsection \<open>Encoding\<close>

definition encode_entry :: "cbor \<Rightarrow> replay_entry \<Rightarrow> bytes" where
  "encode_entry cb e = (case e of
     RequestEntry i n x \<Rightarrow> e_array cb 4 @ e_u16 cb REQUEST_ENTRY @ e_bytes cb i @ e_bytes cb n @ e_u64 cb x
   | ResponseEntry d x \<Rightarrow> e_array cb 3 @ e_u16 cb RESPONSE_ENTRY @ e_bytes cb d @ e_u64 cb x)"

definition state_encode :: "cbor \<Rightarrow> replay_state \<Rightarrow> bytes" where
  "state_encode cb st =
     e_array cb 6 @ e_u16 cb STATE_VERSION @ e_u16 cb (role_u16 (sc_role (scope st))) @
     e_bytes cb (sc_desktop_id (scope st)) @ e_bytes cb (sc_identity_id (scope st)) @
     e_u64 cb (last_seen_unix st) @ e_array cb (of_nat (length (entries st))) @
     concat (map (encode_entry cb) (entries st))"

definition exact_array :: "cbor \<Rightarrow> u64 \<Rightarrow> bytes \<Rightarrow> (protocol_error, bytes) result" where
  "exact_array cb n d =
     bindE (okOr ReplayStateError (d_array cb d)) (\<lambda>(len, d). if len = Some n then Inr d else Inl ReplayStateError)"

definition exact_u16 :: "cbor \<Rightarrow> u16 \<Rightarrow> bytes \<Rightarrow> (protocol_error, bytes) result" where
  "exact_u16 cb v d =
     bindE (okOr ReplayStateError (d_u16 cb d)) (\<lambda>(w, d). if w \<noteq> v then Inl ReplayStateError else Inr d)"

definition state_fixed :: "cbor \<Rightarrow> nat \<Rightarrow> bytes \<Rightarrow> (protocol_error, bytes \<times> bytes) result" where
  "state_fixed cb n d =
     bindE (okOr ReplayStateError (d_bytes cb d)) (\<lambda>(v, d). if length v = n then Inr (v, d) else Inl ReplayStateError)"

definition decode_entry :: "cbor \<Rightarrow> replay_role \<Rightarrow> bytes \<Rightarrow> (protocol_error, replay_entry \<times> bytes) result" where
  "decode_entry cb role d = (case role of
     PhoneRequests \<Rightarrow>
       bindE (exact_array cb 4 d) (\<lambda>d.
       bindE (exact_u16 cb REQUEST_ENTRY d) (\<lambda>d.
       bindE (state_fixed cb 16 d) (\<lambda>(i, d).
       bindE (state_fixed cb 32 d) (\<lambda>(n, d).
       bindE (okOr ReplayStateError (d_u64 cb d)) (\<lambda>(x, d). Inr (RequestEntry i n x, d))))))
   | DesktopResponses \<Rightarrow>
       bindE (exact_array cb 3 d) (\<lambda>d.
       bindE (exact_u16 cb RESPONSE_ENTRY d) (\<lambda>d.
       bindE (state_fixed cb 32 d) (\<lambda>(h, d).
       bindE (okOr ReplayStateError (d_u64 cb d)) (\<lambda>(x, d). Inr (ResponseEntry h x, d))))))"

fun decode_entries :: "cbor \<Rightarrow> replay_role \<Rightarrow> nat \<Rightarrow> bytes \<Rightarrow> (protocol_error, replay_entry list \<times> bytes) result" where
  "decode_entries cb role 0 d = Inr ([], d)"
| "decode_entries cb role (Suc n) d =
     bindE (decode_entry cb role d) (\<lambda>(e, d).
     bindE (decode_entries cb role n d) (\<lambda>(es, d). Inr (e # es, d)))"

definition state_decode :: "cbor \<Rightarrow> bytes \<Rightarrow> nat \<Rightarrow> (protocol_error, replay_state) result" where
  "state_decode cb encoded capacity =
     bindE (exact_array cb 6 encoded) (\<lambda>d.
     bindE (exact_u16 cb STATE_VERSION d) (\<lambda>d.
     bindE (okOr ReplayStateError (d_u16 cb d)) (\<lambda>(r, d).
     bindE (role_try_from r) (\<lambda>role.
     bindE (state_fixed cb 16 d) (\<lambda>(desktop_id, d).
     bindE (state_fixed cb 16 d) (\<lambda>(identity_id, d).
     bindE (okOr ReplayStateError (d_u64 cb d)) (\<lambda>(last_seen, d).
     bindE (okOr ReplayStateError (d_array cb d)) (\<lambda>(count, d).
     bindE (okOr ReplayStateError count) (\<lambda>count.
     bindE (failIf (unat count > capacity) ReplayCapacity) (\<lambda>_.
     bindE (decode_entries cb role (unat count) d) (\<lambda>(es, d).
     bindE (failIf (d \<noteq> []) ReplayStateError) (\<lambda>_.
     let st = \<lparr> scope = scope_new role desktop_id identity_id, last_seen_unix = last_seen, entries = es \<rparr>
     in bindE (state_validate capacity st) (\<lambda>_.
        if state_encode cb st \<noteq> encoded then Inl ReplayStateError else Inr st)))))))))))))"

subsection \<open>The invariant\<close>

text \<open>What \<open>validate\<close> checks, declaratively: a legal capacity that is not exceeded, no entry
  that had expired when the state was last written, a strictly ascending list, and entries of the
  scope's role only, with distinct request identifiers and nonces, or distinct digests.\<close>

definition entries_ok :: "replay_role \<Rightarrow> replay_entry list \<Rightarrow> bool" where
  "entries_ok role es = (case role of
     PhoneRequests \<Rightarrow> list_all is_RequestEntry es \<and> distinct (map re_id es) \<and> distinct (map re_nonce es)
   | DesktopResponses \<Rightarrow> list_all is_ResponseEntry es \<and> distinct (map re_digest es))"

definition state_inv :: "nat \<Rightarrow> replay_state \<Rightarrow> bool" where
  "state_inv capacity st \<longleftrightarrow> 1 \<le> capacity \<and> capacity \<le> MAX_CONFIGURED_ENTRIES \<and>
     length (entries st) \<le> capacity \<and> (\<forall>e \<in> set (entries st). last_seen_unix st \<le> re_exp e) \<and>
     strictly_ascending (entries st) \<and> entries_ok (sc_role (scope st)) (entries st)"

lemma validate_entries_requests:
  "validate_entries PhoneRequests ids nonces rs es = Inr u \<longleftrightarrow>
     entries_ok PhoneRequests es \<and> set (map re_id es) \<inter> ids = {} \<and> set (map re_nonce es) \<inter> nonces = {}"
proof (induction es arbitrary: ids nonces)
  case (Cons e es)
  then show ?case by (cases e) (auto simp: entries_ok_def)
qed (simp add: entries_ok_def)

lemma validate_entries_responses:
  "validate_entries DesktopResponses ids nonces rs es = Inr u \<longleftrightarrow>
     entries_ok DesktopResponses es \<and> set (map re_digest es) \<inter> rs = {}"
proof (induction es arbitrary: rs)
  case (Cons e es)
  then show ?case by (cases e) (auto simp: entries_ok_def)
qed (simp add: entries_ok_def)

lemma state_validate_iff: "state_validate capacity st = Inr u \<longleftrightarrow> state_inv capacity st"
proof -
  have "validate_entries (sc_role (scope st)) {} {} {} (entries st) = Inr u \<longleftrightarrow>
      entries_ok (sc_role (scope st)) (entries st)"
    by (cases "sc_role (scope st)") (simp_all add: validate_entries_requests validate_entries_responses)
  then show ?thesis
    by (auto simp: state_validate_def validate_capacity_def state_inv_def result_iff list_ex_iff not_less)
qed

lemma entries_ok_mset: "mset es = mset es' \<Longrightarrow> entries_ok role es \<longleftrightarrow> entries_ok role es'"
proof -
  assume m: "mset es = mset es'"
  have d: "distinct (map f es) \<longleftrightarrow> distinct (map f es')" for f :: "replay_entry \<Rightarrow> bytes"
    by (metis m mset_map mset_eq_imp_distinct_iff)
  from m have "set es = set es'" by (metis set_mset_mset)
  then show ?thesis by (auto simp: entries_ok_def d list_all_iff split: replay_role.splits)
qed

lemma entries_ok_filter: "entries_ok role es \<Longrightarrow> entries_ok role (filter P es)"
  by (auto simp: entries_ok_def list_all_iff distinct_map_filter split: replay_role.splits)

lemma entries_ok_distinct: "entries_ok role es \<Longrightarrow> distinct es"
  by (auto simp: entries_ok_def distinct_map split: replay_role.splits)

lemma entries_ok_sorted: "entries_ok role es \<Longrightarrow> strictly_ascending (sort es)"
  by (simp add: strictly_ascending_iff strict_sorted_iff entries_ok_distinct)

lemma entries_ok_snoc_request:
  assumes "entries_ok PhoneRequests es" "\<not> list_ex (request_clash i n) es"
  shows "entries_ok PhoneRequests (es @ [RequestEntry i n x])"
  using assms by (auto simp: entries_ok_def list_ex_iff request_clash_def list_all_iff split: replay_entry.splits)
    (metis replay_entry.sel is_RequestEntry_def)+

lemma entries_ok_snoc_response:
  assumes "entries_ok DesktopResponses es" "\<not> list_ex (response_clash d) es"
  shows "entries_ok DesktopResponses (es @ [ResponseEntry d x])"
  using assms by (auto simp: entries_ok_def list_ex_iff response_clash_def list_all_iff split: replay_entry.splits)
    (metis replay_entry.sel is_ResponseEntry_def)+

subsection \<open>When a token is consumed\<close>

text \<open>The entries that survive \<open>prepare\<close> at a time.\<close>

definition retained :: "u64 \<Rightarrow> replay_state \<Rightarrow> replay_entry list" where
  "retained now st = filter (\<lambda>e. now \<le> re_exp e) (entries st)"

text \<open>The state a successful consumption leaves.\<close>

definition committed :: "u64 \<Rightarrow> replay_entry \<Rightarrow> replay_state \<Rightarrow> replay_state" where
  "committed now e st = st\<lparr> last_seen_unix := now, entries := sort (retained now st @ [e]) \<rparr>"

lemma prepare_ok:
  "prepare sc role now st = (st', Inr u) \<longleftrightarrow>
     scope st = sc \<and> sc_role sc = role \<and> last_seen_unix st \<le> now \<and> st' = st\<lparr> entries := retained now st \<rparr>"
  by (auto simp: prepare_def retained_def)

lemma prepare_cases:
  obtains e where "prepare sc role now st = (st, Inl e)"
  | "prepare sc role now st = (st\<lparr> entries := retained now st \<rparr>, Inr ())" "scope st = sc" "sc_role sc = role"
    "last_seen_unix st \<le> now"
  by (cases "scope st = sc"; cases "sc_role sc = role"; cases "now < last_seen_unix st")
    (auto simp: prepare_def retained_def)

lemma consume_entry_ok:
  "consume_entry capacity clash e now st = (st', Inr u) \<longleftrightarrow>
     \<not> list_ex clash (entries st) \<and> length (entries st) < capacity \<and>
     st' = finish now (st\<lparr> entries := entries st @ [e] \<rparr>)"
  by (auto simp: consume_entry_def reserve_def)

lemma state_consume_request_ok:
  "state_consume_request sc i n x now capacity st = (st', Inr u) \<longleftrightarrow>
     validate_expiry x now = Inr () \<and> scope st = sc \<and> sc_role sc = PhoneRequests \<and> last_seen_unix st \<le> now \<and>
     \<not> list_ex (request_clash i n) (retained now st) \<and> length (retained now st) < capacity \<and>
     st' = committed now (RequestEntry i n x) st"
  by (cases rule: prepare_cases [of sc PhoneRequests now st])
    (auto simp: state_consume_request_def consume_entry_ok committed_def finish_def prepare_def
      split: sum.splits if_splits)

lemma state_consume_response_ok:
  "state_consume_response sc d x now capacity st = (st', Inr u) \<longleftrightarrow>
     validate_expiry x now = Inr () \<and> scope st = sc \<and> sc_role sc = DesktopResponses \<and> last_seen_unix st \<le> now \<and>
     \<not> list_ex (response_clash d) (retained now st) \<and> length (retained now st) < capacity \<and>
     st' = committed now (ResponseEntry d x) st"
  by (cases rule: prepare_cases [of sc DesktopResponses now st])
    (auto simp: state_consume_response_def consume_entry_ok committed_def finish_def prepare_def
      split: sum.splits if_splits)

lemma validate_expiry_le: "validate_expiry x now = Inr u \<Longrightarrow> now \<le> x"
  by (simp add: validate_expiry_def validate_request_time_iff word_le_nat_alt)

lemma committed_inv:
  assumes "state_inv capacity st" "now \<le> re_exp e" "length (retained now st) < capacity"
    and ok: "entries_ok (sc_role (scope st)) (retained now st @ [e])"
  shows "state_inv capacity (committed now e st)"
proof -
  have "mset (sort (retained now st @ [e])) = mset (retained now st @ [e])" by simp
  then have "entries_ok (sc_role (scope st)) (sort (retained now st @ [e]))"
    using ok entries_ok_mset by blast
  moreover have "strictly_ascending (sort (retained now st @ [e]))" using ok by (rule entries_ok_sorted)
  ultimately show ?thesis
    using assms(1-3) by (auto simp: state_inv_def committed_def retained_def)
qed

lemma state_consume_request_inv:
  assumes "state_inv capacity st" "state_consume_request sc i n x now capacity st = (st', Inr u)"
  shows "state_inv capacity st'"
proof -
  from assms(2) have *: "now \<le> x" "sc_role (scope st) = PhoneRequests" "length (retained now st) < capacity"
    "\<not> list_ex (request_clash i n) (retained now st)" and st': "st' = committed now (RequestEntry i n x) st"
    by (auto simp: state_consume_request_ok dest: validate_expiry_le)
  moreover have "entries_ok PhoneRequests (retained now st)"
    using assms(1) *(2) by (simp add: state_inv_def retained_def entries_ok_filter)
  ultimately show ?thesis using assms(1) by (simp add: committed_inv entries_ok_snoc_request)
qed

lemma state_consume_response_inv:
  assumes "state_inv capacity st" "state_consume_response sc d x now capacity st = (st', Inr u)"
  shows "state_inv capacity st'"
proof -
  from assms(2) have *: "now \<le> x" "sc_role (scope st) = DesktopResponses" "length (retained now st) < capacity"
    "\<not> list_ex (response_clash d) (retained now st)" and st': "st' = committed now (ResponseEntry d x) st"
    by (auto simp: state_consume_response_ok dest: validate_expiry_le)
  moreover have "entries_ok DesktopResponses (retained now st)"
    using assms(1) *(2) by (simp add: state_inv_def retained_def entries_ok_filter)
  ultimately show ?thesis using assms(1) by (simp add: committed_inv entries_ok_snoc_response)
qed

lemma state_new_inv: "validate_capacity capacity = Inr u \<Longrightarrow> state_inv capacity (state_new sc now)"
  by (cases "sc_role sc")
    (auto simp: state_inv_def state_new_def validate_capacity_def entries_ok_def split: if_splits)

subsection \<open>Spent tokens\<close>

text \<open>A token that this state can never accept again: its expiry lies before the last time seen,
  or an entry holds its identifier and lives at least as long.\<close>

definition spent_request :: "bytes \<Rightarrow> bytes \<Rightarrow> u64 \<Rightarrow> replay_state \<Rightarrow> bool" where
  "spent_request i n x st \<longleftrightarrow> x < last_seen_unix st \<or> (\<exists>e \<in> set (entries st). request_clash i n e \<and> x \<le> re_exp e)"

definition spent_response :: "bytes \<Rightarrow> u64 \<Rightarrow> replay_state \<Rightarrow> bool" where
  "spent_response d x st \<longleftrightarrow> x < last_seen_unix st \<or> (\<exists>e \<in> set (entries st). response_clash d e \<and> x \<le> re_exp e)"

lemma spent_committed:
  assumes "last_seen_unix st \<le> now"
    and "x < last_seen_unix st \<or> (\<exists>e \<in> set (entries st). P e \<and> x \<le> re_exp e)"
  shows "x < last_seen_unix (committed now e' st) \<or> (\<exists>e \<in> set (entries (committed now e' st)). P e \<and> x \<le> re_exp e)"
  using assms by (auto simp: committed_def retained_def)

lemma spent_request_rejected:
  assumes "spent_request i n x st" shows "snd (state_consume_request sc i n x now capacity st) \<noteq> Inr u"
proof
  assume "snd (state_consume_request sc i n x now capacity st) = Inr u"
  then obtain st' where "state_consume_request sc i n x now capacity st = (st', Inr u)"
    by (metis prod.collapse)
  then show False using assms
    by (auto simp: state_consume_request_ok spent_request_def retained_def list_ex_iff dest!: validate_expiry_le)
qed

lemma spent_response_rejected:
  assumes "spent_response d x st" shows "snd (state_consume_response sc d x now capacity st) \<noteq> Inr u"
proof
  assume "snd (state_consume_response sc d x now capacity st) = Inr u"
  then obtain st' where "state_consume_response sc d x now capacity st = (st', Inr u)"
    by (metis prod.collapse)
  then show False using assms
    by (auto simp: state_consume_response_ok spent_response_def retained_def list_ex_iff dest!: validate_expiry_le)
qed

lemma consumed_request_spent:
  "state_consume_request sc i n x now capacity st = (st', Inr u) \<Longrightarrow> spent_request i n x st'"
  by (auto simp: state_consume_request_ok spent_request_def committed_def request_clash_def)

lemma consumed_response_spent:
  "state_consume_response sc d x now capacity st = (st', Inr u) \<Longrightarrow> spent_response d x st'"
  by (auto simp: state_consume_response_ok spent_response_def committed_def response_clash_def)

lemma spent_kept:
  assumes "state_consume_request sc i n x now capacity st = (st', Inr u) \<or>
    state_consume_response sc d x' now capacity st = (st', Inr u)"
  shows "spent_request j m y st \<Longrightarrow> spent_request j m y st'" "spent_response h y st \<Longrightarrow> spent_response h y st'"
proof -
  from assms obtain e where "last_seen_unix st \<le> now" "st' = committed now e st"
    by (auto simp: state_consume_request_ok state_consume_response_ok)
  then show "spent_request j m y st \<Longrightarrow> spent_request j m y st'" "spent_response h y st \<Longrightarrow> spent_response h y st'"
    unfolding spent_request_def spent_response_def by (simp_all only: spent_committed)
qed

subsection \<open>Persistence: the encoding\<close>

definition wf_entry :: "replay_role \<Rightarrow> replay_entry \<Rightarrow> bool" where
  "wf_entry role e = (case e of
     RequestEntry i n _ \<Rightarrow> role = PhoneRequests \<and> length i = 16 \<and> length n = 32
   | ResponseEntry d _ \<Rightarrow> role = DesktopResponses \<and> length d = 32)"

definition wf_state :: "replay_state \<Rightarrow> bool" where
  "wf_state st \<longleftrightarrow> length (sc_desktop_id (scope st)) = 16 \<and> length (sc_identity_id (scope st)) = 16 \<and>
     (\<forall>e \<in> set (entries st). wf_entry (sc_role (scope st)) e)"

lemma exact_array_rt: "cbor_codec cb \<Longrightarrow> exact_array cb n (e_array cb n @ r) = Inr r"
  by (simp add: exact_array_def cbor_codec.array_rt)

lemma exact_u16_rt: "cbor_codec cb \<Longrightarrow> exact_u16 cb n (e_u16 cb n @ r) = Inr r"
  by (simp add: exact_u16_def cbor_codec.u16_rt)

lemma state_fixed_rt:
  "cbor_codec cb \<Longrightarrow> length v = n \<Longrightarrow> n < 2 ^ 64 \<Longrightarrow> state_fixed cb n (e_bytes cb v @ r) = Inr (v, r)"
  by (simp add: state_fixed_def cbor_codec.bytes_rt)

lemma state_fixed_length: "state_fixed cb n d = Inr (v, r) \<Longrightarrow> length v = n"
  by (auto simp: state_fixed_def result_iff split: if_splits)

lemma decode_entry_rt:
  assumes "cbor_codec cb" "wf_entry role e"
  shows "decode_entry cb role (encode_entry cb e @ r) = Inr (e, r)"
  using assms(2) cbor_codec.u64_rt [OF assms(1)]
  by (cases e) (simp_all add: wf_entry_def decode_entry_def encode_entry_def exact_array_rt [OF assms(1)]
      exact_u16_rt [OF assms(1)] state_fixed_rt [OF assms(1)])

lemma decode_entry_wf: "decode_entry cb role d = Inr (e, r) \<Longrightarrow> wf_entry role e"
  by (cases role) (auto simp: decode_entry_def result_iff wf_entry_def dest!: state_fixed_length)

lemma decode_entries_rt:
  assumes "cbor_codec cb"
  shows "\<forall>e \<in> set es. wf_entry role e \<Longrightarrow>
    decode_entries cb role (length es) (concat (map (encode_entry cb) es) @ r) = Inr (es, r)"
  by (induction es) (simp_all add: decode_entry_rt [OF assms])

lemma decode_entries_wf:
  "decode_entries cb role n d = Inr (es, r) \<Longrightarrow> length es = n \<and> (\<forall>e \<in> set es. wf_entry role e)"
proof (induction n arbitrary: d es)
  case (Suc n)
  then obtain e d' es' where "decode_entry cb role d = Inr (e, d')" "decode_entries cb role n d' = Inr (es', r)"
    "es = e # es'" by (auto simp: result_iff)
  with Suc.IH decode_entry_wf show ?case by fastforce
qed simp

lemma state_decode_wf:
  assumes "state_decode cb b capacity = Inr st"
  shows "b = state_encode cb st \<and> wf_state st \<and> state_inv capacity st"
  using assms
  by (auto simp: state_decode_def result_iff Let_def state_validate_iff wf_state_def scope_new_def
      dest!: state_fixed_length decode_entries_wf)

lemma state_decode_rt:
  assumes c: "cbor_codec cb" and w: "wf_state st" and i: "state_inv capacity st"
  shows "state_decode cb (state_encode cb st) capacity = Inr st"
proof -
  have l: "length (entries st) \<le> 16384" "length (entries st) \<le> capacity" using i by (auto simp: state_inv_def)
  then have n: "unat (of_nat (length (entries st)) :: u64) = length (entries st)"
    by (simp add: unat_of_nat)
  have d: "decode_entries cb (sc_role (scope st)) (length (entries st))
      (concat (map (encode_entry cb) (entries st))) = Inr (entries st, [])"
    using decode_entries_rt [OF c, of "entries st" _ "[]"] w by (simp add: wf_state_def)
  have s: "\<lparr> scope = scope_new (sc_role (scope st)) (sc_desktop_id (scope st)) (sc_identity_id (scope st)),
      last_seen_unix = last_seen_unix st, entries = entries st \<rparr> = st" by (simp add: scope_new_def)
  have v: "state_validate capacity st = Inr ()" using i by (simp add: state_validate_iff)
  have h: "exact_array cb 6 (state_encode cb st) = Inr (e_u16 cb STATE_VERSION @
      e_u16 cb (role_u16 (sc_role (scope st))) @ e_bytes cb (sc_desktop_id (scope st)) @
      e_bytes cb (sc_identity_id (scope st)) @ e_u64 cb (last_seen_unix st) @
      e_array cb (of_nat (length (entries st))) @ concat (map (encode_entry cb) (entries st)))"
    by (simp add: state_encode_def exact_array_rt [OF c])
  have r: "role_try_from (role_u16 (sc_role (scope st))) = Inr (sc_role (scope st))"
    by (simp add: role_try_from_iff)
  show ?thesis
    using w l n d s v
    by (simp add: state_decode_def h wf_state_def exact_u16_rt [OF c] state_fixed_rt [OF c] r
        cbor_codec.u16_rt [OF c] cbor_codec.u64_rt [OF c] cbor_codec.array_rt [OF c] Let_def)
qed

lemma state_decode_iff_encode:
  assumes "cbor_codec cb"
  shows "state_decode cb b capacity = Inr st \<longleftrightarrow> b = state_encode cb st \<and> wf_state st \<and> state_inv capacity st"
  using state_decode_wf state_decode_rt [OF assms] by blast

text \<open>
  The size of a state.  The preferred heads make a request entry at most 62 bytes and a response
  entry at most 46, so the largest accepted state (16384 entries) stays below the one mebibyte that
  the file guard is ready to read back.
\<close>

lemma length_encode_entry:
  assumes "cbor_sized cb" "wf_entry role e"
  shows "length (encode_entry cb e) \<le> 62"
  using assms(2) head_len_bounds(1) [of "unat (re_exp e)"]
    cbor_sized.bytes_len [OF assms(1), of "re_id e"] cbor_sized.bytes_len [OF assms(1), of "re_nonce e"]
    cbor_sized.bytes_len [OF assms(1), of "re_digest e"]
  by (cases e) (auto simp: encode_entry_def wf_entry_def cbor_sized.array_len [OF assms(1)]
      cbor_sized.u16_len [OF assms(1)] cbor_sized.u64_len [OF assms(1)] REQUEST_ENTRY_def RESPONSE_ENTRY_def
      head_len_def)

lemma length_concat_bound: "(\<And>x. x \<in> set xs \<Longrightarrow> length (f x) \<le> k) \<Longrightarrow> length (concat (map f xs)) \<le> k * length xs"
  by (induction xs) (simp_all add: add_mono)

lemma length_state_encode:
  assumes z: "cbor_sized cb" and w: "wf_state st" and i: "state_inv capacity st"
  shows "length (state_encode cb st) \<le> 62 * length (entries st) + 49"
proof -
  have l: "length (entries st) < 65536" using i by (auto simp: state_inv_def)
  then have n: "unat (of_nat (length (entries st)) :: u64) = length (entries st)" by (simp add: unat_of_nat)
  have e: "length (concat (map (encode_entry cb) (entries st))) \<le> 62 * length (entries st)"
    using w by (intro length_concat_bound length_encode_entry [OF z]) (auto simp: wf_state_def)
  have r: "unat (role_u16 (sc_role (scope st))) < 24" by (cases "sc_role (scope st)") (simp_all add: role_u16_def)
  show ?thesis
    using w e r head_len_bounds(2) [OF l] head_len_bounds(1) [of "unat (last_seen_unix st)"]
      cbor_sized.bytes_len [OF z, of "sc_desktop_id (scope st)"] cbor_sized.bytes_len [OF z, of "sc_identity_id (scope st)"]
    by (simp add: state_encode_def wf_state_def cbor_sized.array_len [OF z] cbor_sized.u16_len [OF z]
        cbor_sized.u64_len [OF z] STATE_VERSION_def n) (simp add: head_len_def)
qed

end
