(* ===== verification/Replay_Store.thy ===== *)
theory Replay_Store
  imports Replay_State
begin

text \<open>
  The contract of the \<open>ReplayStore\<close> trait (\<open>crates/core/src/protocol/replay.rs\<close>) as a locale,
  the lemma its clients use (a token is consumed at most once over any sequence of calls), and
  the interpretation on the in-memory \<open>ReplayGuard\<close>.  The file guard provides the contract in
  \<open>Replay_File\<close>; the protocol flow uses it in \<open>Protocol_Flow\<close>.
\<close>

subsection \<open>Sequences of calls\<close>

datatype replay_call =
    CallRequest (rc_desktop: bytes) (rc_identity: bytes) (rc_request: bytes) (rc_nonce: bytes) (rc_exp: u64) (rc_now: u64)
  | CallResponse (rc_desktop: bytes) (rc_identity: bytes) (rc_digest: bytes) (rc_exp: u64) (rc_now: u64)

definition replay_call :: "'s replay_ops \<Rightarrow> replay_call \<Rightarrow> 's \<Rightarrow> 's \<times> (protocol_error, unit) result" where
  "replay_call R c s = (case c of
     CallRequest d i rq n x now \<Rightarrow> ro_request R d i rq n x now s
   | CallResponse d i h x now \<Rightarrow> ro_response R d i h x now s)"

text \<open>The array types of the trait: 16 bytes for identifiers, 32 for nonces and digests.\<close>

fun wf_call :: "replay_call \<Rightarrow> bool" where
  "wf_call (CallRequest d i rq n x now) \<longleftrightarrow> length d = 16 \<and> length i = 16 \<and> length rq = 16 \<and> length n = 32"
| "wf_call (CallResponse d i h x now) \<longleftrightarrow> length d = 16 \<and> length i = 16 \<and> length h = 32"

fun replay_calls :: "'s replay_ops \<Rightarrow> replay_call list \<Rightarrow> 's \<Rightarrow> 's \<times> (protocol_error, unit) result list" where
  "replay_calls R [] s = (s, [])"
| "replay_calls R (c # cs) s =
     (let (s1, r) = replay_call R c s; (s2, rs) = replay_calls R cs s1 in (s2, r # rs))"

lemma replay_calls_append:
  "replay_calls R (cs @ cs') s =
     (let (s1, rs) = replay_calls R cs s; (s2, rs') = replay_calls R cs' s1 in (s2, rs @ rs'))"
  by (induction cs arbitrary: s) (simp_all add: Let_def split_beta)

subsection \<open>The contract\<close>

text \<open>
  \<open>srq i n x s\<close> says that the state will never again accept a request with identifier \<open>i\<close>,
  nonce \<open>n\<close> and expiry \<open>x\<close>; \<open>srs h x s\<close> the same of a response digest.  A provider promises
  that consuming spends, that spent stays spent whatever is called, and that spent is refused.
\<close>

locale replay_store =
  fixes R :: "'s replay_ops" and inv :: "'s \<Rightarrow> bool"
    and srq :: "bytes \<Rightarrow> bytes \<Rightarrow> u64 \<Rightarrow> 's \<Rightarrow> bool" and srs :: "bytes \<Rightarrow> u64 \<Rightarrow> 's \<Rightarrow> bool"
  assumes request_spends: "inv s \<Longrightarrow> wf_call (CallRequest d i rq n x now) \<Longrightarrow>
      ro_request R d i rq n x now s = (s', Inr ()) \<Longrightarrow> rq' = rq \<or> n' = n \<Longrightarrow> x' \<le> x \<Longrightarrow> srq rq' n' x' s'"
    and response_spends: "inv s \<Longrightarrow> wf_call (CallResponse d i h x now) \<Longrightarrow>
      ro_response R d i h x now s = (s', Inr ()) \<Longrightarrow> x' \<le> x \<Longrightarrow> srs h x' s'"
    and request_refused: "inv s \<Longrightarrow> srq rq n x s \<Longrightarrow> snd (ro_request R d i rq n x now s) \<noteq> Inr ()"
    and response_refused: "inv s \<Longrightarrow> srs h x s \<Longrightarrow> snd (ro_response R d i h x now s) \<noteq> Inr ()"
    and call_keeps: "inv s \<Longrightarrow> wf_call c \<Longrightarrow> replay_call R c s = (s', r) \<Longrightarrow>
      inv s' \<and> (srq rq n x s \<longrightarrow> srq rq n x s') \<and> (srs h x s \<longrightarrow> srs h x s')"
begin

lemma calls_keep:
  "inv s \<Longrightarrow> list_all wf_call cs \<Longrightarrow> replay_calls R cs s = (s', rs) \<Longrightarrow>
     inv s' \<and> (srq rq n x s \<longrightarrow> srq rq n x s') \<and> (srs h x s \<longrightarrow> srs h x s')"
proof (induction cs arbitrary: s s' rs)
  case (Cons c cs)
  obtain s1 r where c: "replay_call R c s = (s1, r)" by fastforce
  obtain s2 rs2 where cs: "replay_calls R cs s1 = (s2, rs2)" by fastforce
  from c cs Cons.prems have s': "s' = s2" and w: "wf_call c" "list_all wf_call cs" by simp_all
  from call_keeps [OF Cons.prems(1) w(1) c] Cons.IH [OF _ w(2) cs] show ?case unfolding s' by blast
qed simp

lemma request_once:
  assumes "inv s" "wf_call (CallRequest d i rq n x now)" "ro_request R d i rq n x now s = (s1, Inr ())"
    and "rq' = rq \<or> n' = n" "x' \<le> x"
  shows "inv s1 \<and> srq rq' n' x' s1"
  using call_keeps [OF assms(1,2)] request_spends [OF assms] assms(3) by (simp add: replay_call_def)

lemma response_once:
  assumes "inv s" "wf_call (CallResponse d i h x now)" "ro_response R d i h x now s = (s1, Inr ())" "x' \<le> x"
  shows "inv s1 \<and> srs h x' s1"
  using call_keeps [OF assms(1,2)] response_spends [OF assms] assms(3) by (simp add: replay_call_def)

lemma request_at_most_once:
  assumes "inv s" "wf_call (CallRequest d i rq n x now)" "ro_request R d i rq n x now s = (s1, Inr ())"
    and "list_all wf_call cs" "replay_calls R cs s1 = (s2, rs)" "rq' = rq \<or> n' = n" "x' \<le> x"
  shows "snd (ro_request R d' i' rq' n' x' now' s2) \<noteq> Inr ()"
  using request_once [OF assms(1-3,6,7)] calls_keep [OF _ assms(4,5)] request_refused by blast

lemma response_at_most_once:
  assumes "inv s" "wf_call (CallResponse d i h x now)" "ro_response R d i h x now s = (s1, Inr ())"
    and "list_all wf_call cs" "replay_calls R cs s1 = (s2, rs)" "x' \<le> x"
  shows "snd (ro_response R d' i' h x' now' s2) \<noteq> Inr ()"
  using response_once [OF assms(1-3,6)] calls_keep [OF _ assms(4,5)] response_refused by blast

end

subsection \<open>Stores that outlive the process\<close>

text \<open>A life of a durable store: calls, and restarts that lose everything but what was persisted.\<close>

datatype 'a replay_event = Call replay_call | Restart 'a

fun wf_event :: "('a \<Rightarrow> bool) \<Rightarrow> 'a replay_event \<Rightarrow> bool" where
  "wf_event wfr (Call c) = wf_call c"
| "wf_event wfr (Restart a) = wfr a"

fun replay_events :: "'s replay_ops \<Rightarrow> ('a \<Rightarrow> 's \<Rightarrow> 's) \<Rightarrow> 'a replay_event list \<Rightarrow> 's \<Rightarrow> 's" where
  "replay_events R restart [] s = s"
| "replay_events R restart (Call c # es) s = replay_events R restart es (fst (replay_call R c s))"
| "replay_events R restart (Restart a # es) s = replay_events R restart es (restart a s)"

locale restartable_store = replay_store R inv srq srs
  for R :: "'s replay_ops" and inv :: "'s \<Rightarrow> bool"
    and srq :: "bytes \<Rightarrow> bytes \<Rightarrow> u64 \<Rightarrow> 's \<Rightarrow> bool" and srs :: "bytes \<Rightarrow> u64 \<Rightarrow> 's \<Rightarrow> bool" +
  fixes restart :: "'a \<Rightarrow> 's \<Rightarrow> 's" and wfr :: "'a \<Rightarrow> bool"
  assumes restart_keeps: "inv s \<Longrightarrow> wfr a \<Longrightarrow> inv (restart a s) \<and> (srq rq n x s \<longrightarrow> srq rq n x (restart a s))
      \<and> (srs h x s \<longrightarrow> srs h x (restart a s))"
begin

lemma events_keep:
  "inv s \<Longrightarrow> list_all (wf_event wfr) es \<Longrightarrow> inv (replay_events R restart es s)
     \<and> (srq rq n x s \<longrightarrow> srq rq n x (replay_events R restart es s))
     \<and> (srs h x s \<longrightarrow> srs h x (replay_events R restart es s))"
proof (induction es arbitrary: s)
  case (Cons e es)
  show ?case
  proof (cases e)
    case (Call c)
    obtain s1 r where "replay_call R c s = (s1, r)" by fastforce
    with Cons Call call_keeps [of s c s1 r] show ?thesis by auto
  next
    case (Restart a)
    with Cons restart_keeps [of s] show ?thesis by auto
  qed
qed simp

lemma request_at_most_once_ever:
  assumes "inv s" "wf_call (CallRequest d i rq n x now)" "ro_request R d i rq n x now s = (s1, Inr ())"
    and "list_all (wf_event wfr) es" "rq' = rq \<or> n' = n" "x' \<le> x"
  shows "snd (ro_request R d' i' rq' n' x' now' (replay_events R restart es s1)) \<noteq> Inr ()"
  using request_once [OF assms(1-3,5,6)] events_keep [OF _ assms(4)] request_refused by blast

lemma response_at_most_once_ever:
  assumes "inv s" "wf_call (CallResponse d i h x now)" "ro_response R d i h x now s = (s1, Inr ())"
    and "list_all (wf_event wfr) es" "x' \<le> x"
  shows "snd (ro_response R d' i' h x' now' (replay_events R restart es s1)) \<noteq> Inr ()"
  using response_once [OF assms(1-3,5)] events_keep [OF _ assms(4)] response_refused by blast

end

subsection \<open>The in-memory guard provides the contract\<close>

interpretation memory: replay_store guard_ops "\<lambda>_. True"
    "\<lambda>rq n x g. rq \<in> rg_requests g \<or> n \<in> rg_nonces g" "\<lambda>h x g. h \<in> rg_responses g"
  by unfold_locales
    (auto simp: guard_ops_def guard_consume_request_def guard_consume_response_def replay_call_def
      split: if_splits replay_call.splits)

end
