(* ===== verification/Unix_Storage.thy ===== *)
theory Unix_Storage
  imports Prelude
begin

unbundle bit_operations_syntax

text \<open>
  The private-file primitives of \<open>crates/platform-storage/src/unix.rs\<close> over a file system with
  faults: exclusive lock files, size-limited reads of private regular files, creation through a
  hard link and replacement through a rename.

  The file system maps paths to nodes.  Every operation of \<open>std::fs\<close> that the source calls takes
  the next entry of a fault script and fails without effect when that entry says so (a failing
  write leaves a prefix of the data); what follows an empty script succeeds.  Operations of other
  processes between two calls, and what a power loss leaves of unsynchronised data, are not modelled.
\<close>

subsection \<open>Paths\<close>

text \<open>A \<open>PathBuf\<close> in components; a component \<open>..\<close> has no file name.\<close>

record path =
  absolute :: bool
  comps :: "string list"

definition file_name :: "path \<Rightarrow> string option" where
  "file_name p = (if comps p = [] \<or> last (comps p) = ''..'' then None else Some (last (comps p)))"

definition parent :: "path \<Rightarrow> path option" where
  "parent p = (if comps p = [] then None else Some (p\<lparr> comps := butlast (comps p) \<rparr>))"

definition join_path :: "path \<Rightarrow> string \<Rightarrow> path" where
  "join_path p n = p\<lparr> comps := comps p @ [n] \<rparr>"

subsection \<open>The file system\<close>

text \<open>A regular file knows how many further names other processes gave it (\<open>nlink\<close> less one).\<close>

datatype node = Dir (dir_mode: u32) | Regular (contents: bytes) (mode: u32) (other_links: nat) | Symlink "node option"

definition is_dir :: "node \<Rightarrow> bool" where
  "is_dir n = (case n of Dir _ \<Rightarrow> True | _ \<Rightarrow> False)"

lemma is_dir_simps [simp]: "is_dir (Dir m)" "\<not> is_dir (Regular b x l)" "\<not> is_dir (Symlink t)"
  by (simp_all add: is_dir_def)

lemma is_dir_iff: "is_dir n \<longleftrightarrow> (\<exists>m. n = Dir m)"
  by (cases n) simp_all

datatype fault = NoFault | Fault nat

datatype io_error = NotFound | AlreadyExists | OtherError

datatype storage_error = StorageInvalid

record fs =
  nodes :: "path \<Rightarrow> node option"
  locks :: "path set"
  faults :: "fault list"
  pid :: nat
  temp_counter :: u64

text \<open>The next entry of the script: \<open>Some n\<close> for a fault after \<open>n\<close> bytes.\<close>

definition next_fault :: "fs \<Rightarrow> fs \<times> nat option" where
  "next_fault f = (case faults f of
     [] \<Rightarrow> (f, None)
   | NoFault # r \<Rightarrow> (f\<lparr> faults := r \<rparr>, None)
   | Fault n # r \<Rightarrow> (f\<lparr> faults := r \<rparr>, Some n))"

text \<open>An operation that looks at the nodes, and one that changes them.\<close>

definition sys_read :: "((path \<Rightarrow> node option) \<Rightarrow> (io_error, 'a) result) \<Rightarrow> (fs, io_error, 'a) step" where
  "sys_read g f = (case next_fault f of
     (f, Some _) \<Rightarrow> (f, Inl OtherError)
   | (f, None) \<Rightarrow> (f, g (nodes f)))"

definition sys_update ::
    "((path \<Rightarrow> node option) \<Rightarrow> (io_error, path \<Rightarrow> node option) result) \<Rightarrow> (fs, io_error, unit) step" where
  "sys_update g f = (case next_fault f of
     (f, Some _) \<Rightarrow> (f, Inl OtherError)
   | (f, None) \<Rightarrow> (case g (nodes f) of
       Inl e \<Rightarrow> (f, Inl e)
     | Inr m \<Rightarrow> (f\<lparr> nodes := m \<rparr>, Inr ())))"

definition symlink_metadata :: "path \<Rightarrow> (fs, io_error, node) step" where
  "symlink_metadata p = sys_read (\<lambda>m. okOr NotFound (m p))"

fun resolve :: "node option \<Rightarrow> node option" where
  "resolve (Some (Symlink t)) = t"
| "resolve n = n"

definition metadata :: "path \<Rightarrow> (fs, io_error, node) step" where
  "metadata p = sys_read (\<lambda>m. okOr NotFound (resolve (m p)))"

text \<open>\<open>File::open\<close> gives a handle: the node it resolved.\<close>

definition file_open :: "path \<Rightarrow> (fs, io_error, node) step" where
  "file_open p = sys_read (\<lambda>m. okOr NotFound (resolve (m p)))"

definition handle_metadata :: "node \<Rightarrow> (fs, io_error, node) step" where
  "handle_metadata h = sys_read (\<lambda>_. Inr h)"

definition handle_read :: "node \<Rightarrow> nat \<Rightarrow> (fs, io_error, bytes) step" where
  "handle_read h limit = sys_read (\<lambda>_. case h of Regular b _ _ \<Rightarrow> Inr (take limit b) | _ \<Rightarrow> Inl OtherError)"

definition PRIVATE_MODE :: u32 where [simp]: "PRIVATE_MODE = 384"

text \<open>\<open>read(true).write(true).create(true)\<close> and \<open>write(true).create_new(true)\<close> with mode 0600.\<close>

definition open_create :: "path \<Rightarrow> (fs, io_error, node) step" where
  "open_create p =
     bindS (sys_update (\<lambda>m. case m p of
       None \<Rightarrow> Inr (m(p \<mapsto> Regular [] PRIVATE_MODE 0))
     | Some (Dir _) \<Rightarrow> Inl OtherError
     | Some _ \<Rightarrow> Inr m)) (\<lambda>_ f. case resolve (nodes f p) of
       None \<Rightarrow> (f, Inl OtherError)
     | Some n \<Rightarrow> (f, Inr n))"

definition open_new_as :: "u32 \<Rightarrow> path \<Rightarrow> (fs, io_error, unit) step" where
  "open_new_as md p =
     sys_update (\<lambda>m. if m p = None then Inr (m(p \<mapsto> Regular [] md 0)) else Inl AlreadyExists)"

abbreviation open_create_new :: "path \<Rightarrow> (fs, io_error, unit) step" where
  "open_create_new \<equiv> open_new_as PRIVATE_MODE"

text \<open>\<open>write_all\<close> through the handle of a new file.\<close>

definition write_new_as :: "u32 \<Rightarrow> path \<Rightarrow> bytes \<Rightarrow> (fs, io_error, unit) step" where
  "write_new_as md p b f = (case next_fault f of
     (f, Some n) \<Rightarrow> (f\<lparr> nodes := (nodes f)(p \<mapsto> Regular (take n b) md 0) \<rparr>, Inl OtherError)
   | (f, None) \<Rightarrow> (f\<lparr> nodes := (nodes f)(p \<mapsto> Regular b md 0) \<rparr>, Inr ()))"

abbreviation write_all :: "path \<Rightarrow> bytes \<Rightarrow> (fs, io_error, unit) step" where
  "write_all \<equiv> write_new_as PRIVATE_MODE"

definition sync_all :: "(fs, io_error, unit) step" where
  "sync_all = sys_read (\<lambda>_. Inr ())"

definition remove_file :: "path \<Rightarrow> (fs, io_error, unit) step" where
  "remove_file p = sys_update (\<lambda>m. if m p = None then Inl NotFound else Inr (m(p := None)))"

definition hard_link :: "path \<Rightarrow> path \<Rightarrow> (fs, io_error, unit) step" where
  "hard_link a b = sys_update (\<lambda>m.
     if m b \<noteq> None then Inl AlreadyExists
     else case m a of None \<Rightarrow> Inl NotFound | Some n \<Rightarrow> Inr (m(b \<mapsto> n)))"

definition rename :: "path \<Rightarrow> path \<Rightarrow> (fs, io_error, unit) step" where
  "rename a b = sys_update (\<lambda>m. case m a of
     None \<Rightarrow> Inl NotFound
   | Some n \<Rightarrow> if (case m b of Some x \<Rightarrow> is_dir x | None \<Rightarrow> False) then Inl OtherError else Inr ((m(a := None))(b \<mapsto> n)))"

text \<open>\<open>flock(LOCK_EX | LOCK_NB)\<close> on the file at a path, and dropping the handle.\<close>

definition flock :: "path \<Rightarrow> (fs, io_error, unit) step" where
  "flock p f = (case next_fault f of
     (f, Some _) \<Rightarrow> (f, Inl OtherError)
   | (f, None) \<Rightarrow> if p \<in> locks f then (f, Inl OtherError) else (f\<lparr> locks := insert p (locks f) \<rparr>, Inr ()))"

definition unlock :: "path \<Rightarrow> fs \<Rightarrow> fs" where
  "unlock p f = f\<lparr> locks := locks f - {p} \<rparr>"

subsection \<open>The private-file primitives\<close>

abbreviation invalid :: "(fs, io_error, 'a) step \<Rightarrow> (fs, storage_error, 'a) step" where
  "invalid m \<equiv> mapErrS (\<lambda>_. StorageInvalid) m"

definition sibling_path :: "path \<Rightarrow> string \<Rightarrow> (storage_error, path) result" where
  "sibling_path p suffix =
     bindE (okOr StorageInvalid (file_name p)) (\<lambda>name.
     bindE (okOr StorageInvalid (parent p)) (\<lambda>d. Inr (join_path d (name @ suffix))))"

definition reject_symlink_if_present :: "path \<Rightarrow> (fs, storage_error, unit) step" where
  "reject_symlink_if_present p =
     bindS (tryS (symlink_metadata p)) (\<lambda>r. case r of
       Inr (Symlink _) \<Rightarrow> errS StorageInvalid
     | Inr _ \<Rightarrow> retS ()
     | Inl NotFound \<Rightarrow> retS ()
     | Inl _ \<Rightarrow> errS StorageInvalid)"

definition ensure_private_regular :: "node \<Rightarrow> (fs, storage_error, unit) step" where
  "ensure_private_regular h =
     bindS (invalid (handle_metadata h)) (\<lambda>n. case n of
       Regular _ m _ \<Rightarrow> failS (m AND 63 \<noteq> 0) StorageInvalid
     | _ \<Rightarrow> errS StorageInvalid)"

definition acquire_lock :: "path \<Rightarrow> (fs, storage_error, path) step" where
  "acquire_lock lock_path =
     bindS (reject_symlink_if_present lock_path) (\<lambda>_.
     bindS (invalid (open_create lock_path)) (\<lambda>h.
     bindS (ensure_private_regular h) (\<lambda>_.
     bindS (invalid (flock lock_path)) (\<lambda>_. retS lock_path))))"

definition read_private_file :: "path \<Rightarrow> u64 \<Rightarrow> (fs, storage_error, bytes) step" where
  "read_private_file p max_bytes =
     bindS (failS (unat max_bytes + 1 \<ge> 2 ^ 64) StorageInvalid) (\<lambda>_.
     let read_limit = unat max_bytes + 1
     in bindS (reject_symlink_if_present p) (\<lambda>_.
        bindS (invalid (file_open p)) (\<lambda>h.
        bindS (ensure_private_regular h) (\<lambda>_.
        bindS (invalid (handle_metadata h)) (\<lambda>n.
        bindS (failS (case n of Regular b _ _ \<Rightarrow> length b > unat max_bytes | _ \<Rightarrow> False) StorageInvalid) (\<lambda>_.
        bindS (invalid (handle_read h read_limit)) (\<lambda>encoded.
        bindS (failS (encoded = [] \<or> length encoded > unat max_bytes) StorageInvalid) (\<lambda>_.
        retS encoded))))))))"

text \<open>\<open>TEMP_COUNTER.fetch_add(1)\<close> wraps; the suffix holds the process identifier and the counter.\<close>

definition temp_suffix :: "fs \<Rightarrow> string" where
  "temp_suffix f = ''.'' @ decimal (pid f) @ ''.'' @ decimal (unat (temp_counter f)) @ ''.tmp''"

definition fresh_suffix :: "(fs, storage_error, string) step" where
  "fresh_suffix f = (f\<lparr> temp_counter := temp_counter f + 1 \<rparr>, Inr (temp_suffix f))"

text \<open>The \<open>for _ in 0..32\<close> loop: an existing name is skipped, any other failure ends it.\<close>

fun write_temporary_loop :: "nat \<Rightarrow> path \<Rightarrow> bytes \<Rightarrow> (fs, storage_error, path) step" where
  "write_temporary_loop 0 p encoded = errS StorageInvalid"
| "write_temporary_loop (Suc n) p encoded =
     bindS fresh_suffix (\<lambda>suffix.
     bindS (liftS (sibling_path p suffix)) (\<lambda>temporary.
     bindS (tryS (open_create_new temporary)) (\<lambda>r. case r of
       Inl AlreadyExists \<Rightarrow> write_temporary_loop n p encoded
     | Inl _ \<Rightarrow> errS StorageInvalid
     | Inr _ \<Rightarrow>
         bindS (tryS (bindS (write_all temporary encoded) (\<lambda>_. sync_all))) (\<lambda>w.
         case w of
           Inl _ \<Rightarrow> bindS (tryS (remove_file temporary)) (\<lambda>_. errS StorageInvalid)
         | Inr _ \<Rightarrow> retS temporary))))"

definition write_temporary :: "path \<Rightarrow> bytes \<Rightarrow> (fs, storage_error, path) step" where
  "write_temporary = write_temporary_loop 32"

definition sync_parent :: "path \<Rightarrow> (fs, storage_error, unit) step" where
  "sync_parent p =
     bindS (liftS (okOr StorageInvalid (parent p))) (\<lambda>d.
     invalid (bindS (file_open d) (\<lambda>_. sync_all)))"

definition persist_create :: "path \<Rightarrow> bytes \<Rightarrow> (fs, storage_error, unit) step" where
  "persist_create p encoded =
     bindS (write_temporary p encoded) (\<lambda>temporary.
     bindS (tryS (hard_link temporary p)) (\<lambda>linked. case linked of
       Inl _ \<Rightarrow> bindS (tryS (remove_file temporary)) (\<lambda>_. errS StorageInvalid)
     | Inr _ \<Rightarrow>
         bindS (tryS (remove_file temporary)) (\<lambda>remove_result.
         bindS (tryS (sync_parent p)) (\<lambda>sync_result.
         failS (\<not> isOk remove_result \<or> \<not> isOk sync_result) StorageInvalid))))"

definition atomic_replace :: "path \<Rightarrow> bytes \<Rightarrow> (fs, storage_error, unit) step" where
  "atomic_replace p encoded =
     bindS (write_temporary p encoded) (\<lambda>temporary.
     bindS (tryS (rename temporary p)) (\<lambda>renamed. case renamed of
       Inl _ \<Rightarrow> bindS (tryS (remove_file temporary)) (\<lambda>_. errS StorageInvalid)
     | Inr _ \<Rightarrow> sync_parent p))"


subsection \<open>What the primitives touch\<close>

text \<open>The names \<open>write_temporary\<close> may create for a path.\<close>

definition temps :: "path \<Rightarrow> path set" where
  "temps p = {q. \<exists>s. s \<noteq> [] \<and> sibling_path p s = Inr q}"

lemma sibling_path_iff:
  "sibling_path p s = Inr q \<longleftrightarrow>
     (\<exists>d n. comps p = d @ [n] \<and> n \<noteq> ''..'' \<and> q = p\<lparr> comps := d @ [n @ s] \<rparr>)"
  by (cases "comps p" rule: rev_cases)
    (auto simp: sibling_path_def file_name_def parent_def join_path_def)

lemma temps_other: "p \<notin> temps p"
proof
  assume "p \<in> temps p"
  then obtain s d n where "s \<noteq> []" "comps p = d @ [n]" "p = p\<lparr> comps := d @ [n @ s] \<rparr>"
    unfolding temps_def sibling_path_iff by blast
  then show False by (cases p) simp
qed

text \<open>Two file systems that agree outside a set of paths, with the same locks held.\<close>

definition agree :: "path set \<Rightarrow> fs \<Rightarrow> fs \<Rightarrow> bool" where
  "agree S f t \<longleftrightarrow> locks t = locks f \<and> (\<forall>q. q \<notin> S \<longrightarrow> nodes t q = nodes f q)"

lemma agree_refl [simp, intro]: "agree S f f"
  by (simp add: agree_def)

lemma agree_trans [trans]: "agree S f g \<Longrightarrow> agree S g h \<Longrightarrow> agree S f h"
  by (simp add: agree_def)

lemma agree_mono: "agree S f g \<Longrightarrow> S \<subseteq> T \<Longrightarrow> agree T f g"
  by (auto simp: agree_def)

lemma agree_nodes: "agree S f t \<Longrightarrow> q \<notin> S \<Longrightarrow> nodes t q = nodes f q"
  by (simp add: agree_def)

lemma next_fault_same: "next_fault f = (t, r) \<Longrightarrow> nodes t = nodes f \<and> locks t = locks f"
  by (auto simp: next_fault_def split: list.splits fault.splits)

lemma next_fault_none: "faults f = [] \<Longrightarrow> next_fault f = (f, None)"
  by (simp add: next_fault_def)

lemma sys_read_iff:
  "sys_read g f = (t, r) \<longleftrightarrow>
     (\<exists>x. next_fault f = (t, x) \<and> r = (if x = None then g (nodes f) else Inl OtherError))"
  using next_fault_same by (fastforce simp: sys_read_def split: prod.splits option.splits)

lemma sys_read_same: "sys_read g f = (t, r) \<Longrightarrow> nodes t = nodes f \<and> locks t = locks f"
  using next_fault_same by (auto simp: sys_read_iff)

lemma sys_read_ok: "sys_read g f = (t, Inr x) \<Longrightarrow> g (nodes f) = Inr x"
  by (auto simp: sys_read_iff split: if_splits)

lemma sys_update_ok:
  "sys_update g f = (t, Inr u) \<Longrightarrow> g (nodes f) = Inr (nodes t) \<and> locks t = locks f"
  using next_fault_same by (fastforce simp: sys_update_def split: prod.splits option.splits sum.splits)

lemma sys_update_fail: "sys_update g f = (t, Inl e) \<Longrightarrow> nodes t = nodes f \<and> locks t = locks f"
  using next_fault_same by (fastforce simp: sys_update_def split: prod.splits option.splits sum.splits)

lemma write_all_ok:
  "write_new_as md p b f = (t, Inr u) \<Longrightarrow> nodes t = (nodes f)(p \<mapsto> Regular b md 0) \<and> locks t = locks f"
  using next_fault_same by (fastforce simp: write_new_as_def split: prod.splits option.splits)

lemma write_all_fail:
  "write_new_as md p b f = (t, Inl e) \<Longrightarrow> \<exists>n. nodes t = (nodes f)(p \<mapsto> Regular (take n b) md 0) \<and> locks t = locks f"
  using next_fault_same by (fastforce simp: write_new_as_def split: prod.splits option.splits)

lemma sync_all_same: "sync_all f = (t, r) \<Longrightarrow> nodes t = nodes f \<and> locks t = locks f"
  unfolding sync_all_def by (rule sys_read_same)

lemma open_create_new_ok:
  "open_new_as md p f = (t, Inr u) \<Longrightarrow>
     nodes f p = None \<and> nodes t = (nodes f)(p \<mapsto> Regular [] md 0) \<and> locks t = locks f"
  by (auto simp: open_new_as_def dest!: sys_update_ok split: if_splits)

lemma open_create_new_fail: "open_new_as md p f = (t, Inl e) \<Longrightarrow> nodes t = nodes f \<and> locks t = locks f"
  unfolding open_new_as_def by (rule sys_update_fail)

lemma remove_file_ok: "remove_file p f = (t, Inr u) \<Longrightarrow> nodes t = (nodes f)(p := None) \<and> locks t = locks f"
  by (auto simp: remove_file_def dest!: sys_update_ok split: if_splits)

lemma remove_file_fail: "remove_file p f = (t, Inl e) \<Longrightarrow> nodes t = nodes f \<and> locks t = locks f"
  unfolding remove_file_def by (rule sys_update_fail)

lemma remove_file_agree: "remove_file p f = (t, r) \<Longrightarrow> agree {p} f t"
  by (cases r) (auto simp: agree_def dest!: remove_file_ok remove_file_fail)

lemma sync_parent_same: "sync_parent p f = (t, r) \<Longrightarrow> nodes t = nodes f \<and> locks t = locks f"
  by (cases r)
    (auto simp: sync_parent_def bindS_Inr_iff bindS_Inl_iff mapErrS_Inr_iff mapErrS_Inl_iff liftS_def file_open_def
      dest!: sync_all_same sys_read_same)


subsection \<open>The primitives do what their callers rely on\<close>

text \<open>A temporary file appears under a name that was free, with all of the data, or the other
  paths are as they were.\<close>

lemma fresh_suffix_same:
  "fresh_suffix f = (t, r) \<Longrightarrow> nodes t = nodes f \<and> locks t = locks f \<and> r = Inr (temp_suffix f)"
  by (auto simp: fresh_suffix_def)

lemma temp_suffix_nonempty: "temp_suffix f \<noteq> []"
  by (simp add: temp_suffix_def)

lemma write_temporary_loop_ok:
  "write_temporary_loop n p b f = (t, Inr q) \<Longrightarrow>
     q \<in> temps p \<and> nodes f q = None \<and> nodes t = (nodes f)(q \<mapsto> Regular b PRIVATE_MODE 0) \<and> locks t = locks f"
proof (induction n arbitrary: f)
  case (Suc n)
  from Suc.prems obtain f1 temp where s1: "fresh_suffix f = (f1, Inr (temp_suffix f))"
    and temp: "sibling_path p (temp_suffix f) = Inr temp"
    and rest: "bindS (tryS (open_create_new temp)) (\<lambda>r. case r of
       Inl AlreadyExists \<Rightarrow> write_temporary_loop n p b
     | Inl _ \<Rightarrow> errS StorageInvalid
     | Inr _ \<Rightarrow>
         bindS (tryS (bindS (write_all temp b) (\<lambda>_. sync_all))) (\<lambda>w.
         case w of
           Inl _ \<Rightarrow> bindS (tryS (remove_file temp)) (\<lambda>_. errS StorageInvalid)
         | Inr _ \<Rightarrow> retS temp)) f1 = (t, Inr q)"
    by (auto simp: bindS_Inr_iff fresh_suffix_def simp del: PRIVATE_MODE_def)
  have f1: "nodes f1 = nodes f" "locks f1 = locks f" using fresh_suffix_same [OF s1] by auto
  have tp: "temp \<in> temps p" using temp temp_suffix_nonempty unfolding temps_def by blast
  obtain f2 r where oc: "open_create_new temp f1 = (f2, r)" by fastforce
  show ?case
  proof (cases r)
    case (Inl e)
    then have "nodes f2 = nodes f1" "locks f2 = locks f1" using open_create_new_fail oc by auto
    with Suc.IH [of f2] rest oc Inl f1 show ?thesis
      by (cases e) (auto simp: bindS_Inr_iff tryS_iff)
  next
    case (Inr u)
    with open_create_new_ok [of PRIVATE_MODE temp f1 f2 u] oc
    have o: "nodes f1 temp = None" "nodes f2 = (nodes f1)(temp \<mapsto> Regular [] PRIVATE_MODE 0)" "locks f2 = locks f1"
      by auto
    from rest oc Inr obtain f3 where w: "write_all temp b f2 = (f3, Inr ())" "sync_all f3 = (t, Inr ())" "q = temp"
      by (auto simp: bindS_Inr_iff tryS_iff split: sum.splits) (metis obj_sumE old.unit.exhaust)
    with write_all_ok [OF w(1)] sync_all_same [OF w(2)] o f1 tp show ?thesis by simp
  qed
qed simp

lemma write_temporary_loop_fail:
  "write_temporary_loop n p b f = (t, Inl e) \<Longrightarrow> agree (temps p) f t"
proof (induction n arbitrary: f)
  case (Suc n)
  obtain f1 where s1: "fresh_suffix f = (f1, Inr (temp_suffix f))" by (simp add: fresh_suffix_def)
  have f1: "agree (temps p) f f1" using fresh_suffix_same [OF s1] by (auto simp: agree_def)
  show ?case
  proof (cases "sibling_path p (temp_suffix f)")
    case (Inl e')
    with Suc.prems s1 f1 show ?thesis by (simp add: bindS_def)
  next
    case temp: (Inr temp)
    then have tp: "temp \<in> temps p" using temp_suffix_nonempty unfolding temps_def by blast
    obtain f2 r where oc: "open_create_new temp f1 = (f2, r)" by fastforce
    show ?thesis
    proof (cases r)
      case (Inl e')
      then have "agree (temps p) f f2" using open_create_new_fail oc f1 by (fastforce simp: agree_def)
      with Suc.IH [of f2] Suc.prems s1 temp oc Inl show ?thesis
        by (cases e') (auto simp: bindS_def tryS_def intro: agree_trans)
    next
      case (Inr u)
      with open_create_new_ok [of PRIVATE_MODE temp f1 f2 u] oc tp have "agree (temps p) f1 f2" by (auto simp: agree_def)
      moreover obtain f3 w where w: "bindS (write_all temp b) (\<lambda>_. sync_all) f2 = (f3, w)" by fastforce
      have "agree (temps p) f2 f3"
        using w tp
        by (cases w) (fastforce simp: bindS_Inr_iff bindS_Inl_iff agree_def
          dest!: write_all_ok write_all_fail sync_all_same)+
      moreover have "agree (temps p) f3 t"
        using Suc.prems s1 temp oc Inr w tp remove_file_agree [of temp f3]
        by (cases w) (auto simp: bindS_def tryS_def split: prod.splits elim!: agree_mono)
      ultimately show ?thesis using f1 agree_trans by blast
    qed
  qed
qed simp


lemmas write_temporary_ok = write_temporary_loop_ok [of 32, folded write_temporary_def]
lemmas write_temporary_fail = write_temporary_loop_fail [of 32, folded write_temporary_def]

text \<open>Replacement: all of the new content or, on a failure, the old node or the new one, never a
  part; nothing but temporary files of the path is touched.\<close>

lemma rename_ok:
  "rename a b f = (t, Inr u) \<Longrightarrow>
     \<exists>n. nodes f a = Some n \<and> (\<nexists>md. nodes f b = Some (Dir md)) \<and> nodes t = (nodes f)(a := None, b \<mapsto> n) \<and> locks t = locks f"
  by (auto simp: rename_def dest!: sys_update_ok split: if_splits option.splits)

lemma rename_fail: "rename a b f = (t, Inl e) \<Longrightarrow> nodes t = nodes f \<and> locks t = locks f"
  unfolding rename_def by (rule sys_update_fail)

lemma hard_link_ok:
  "hard_link a b f = (t, Inr u) \<Longrightarrow>
     \<exists>n. nodes f a = Some n \<and> nodes f b = None \<and> nodes t = (nodes f)(b \<mapsto> n) \<and> locks t = locks f"
  by (auto simp: hard_link_def dest!: sys_update_ok split: if_splits option.splits)

lemma hard_link_fail: "hard_link a b f = (t, Inl e) \<Longrightarrow> nodes t = nodes f \<and> locks t = locks f"
  unfolding hard_link_def by (rule sys_update_fail)

text \<open>After the temporary file is written, what a replacement or a creation has left to do.\<close>

lemma replaced_node:
  assumes "write_temporary p b f = (g, Inr q)" "rename q p g = (t, Inr u)"
  shows "nodes t = (nodes f)(p \<mapsto> Regular b PRIVATE_MODE 0) \<and> locks t = locks f"
proof -
  from write_temporary_ok [OF assms(1)] temps_other have q: "q \<noteq> p" "nodes f q = None"
    "nodes g = (nodes f)(q \<mapsto> Regular b PRIVATE_MODE 0)" "locks g = locks f" by auto
  with rename_ok [OF assms(2)] show ?thesis by (auto simp: fun_upd_twist)
qed

lemma atomic_replace_ok:
  assumes "atomic_replace p b f = (t, Inr u)"
  shows "nodes t = (nodes f)(p \<mapsto> Regular b PRIVATE_MODE 0) \<and> locks t = locks f"
proof -
  from assms obtain g q where w: "write_temporary p b f = (g, Inr q)"
    by (auto simp: atomic_replace_def bindS_Inr_iff)
  obtain h r where h: "rename q p g = (h, r)" by fastforce
  show ?thesis
  proof (cases r)
    case (Inl e)
    with assms w h show ?thesis by (simp add: atomic_replace_def bindS_run bindS_tryS split: prod.splits)
  next
    case (Inr v)
    with assms w h have "sync_parent p h = (t, Inr u)" by (simp add: atomic_replace_def bindS_def tryS_def)
    with replaced_node [OF w, of h v] h Inr sync_parent_same show ?thesis by simp
  qed
qed

lemma atomic_replace_fail:
  assumes "atomic_replace p b f = (t, Inl e)"
  shows "agree (insert p (temps p)) f t \<and>
    (nodes t p = nodes f p \<or> nodes t p = Some (Regular b PRIVATE_MODE 0))"
proof (cases "\<exists>g q. write_temporary p b f = (g, Inr q)")
  case False
  with assms have "agree (temps p) f t"
    by (auto simp: atomic_replace_def bindS_Inl_iff dest: write_temporary_fail)
  with temps_other show ?thesis by (auto simp: agree_def)
next
  case True
  then obtain g q where w: "write_temporary p b f = (g, Inr q)" by blast
  obtain h r where h: "rename q p g = (h, r)" by fastforce
  from write_temporary_ok [OF w] have q: "q \<in> temps p" "nodes g = (nodes f)(q \<mapsto> Regular b PRIVATE_MODE 0)"
    "locks g = locks f" by auto
  have qp: "q \<noteq> p" using q temps_other by auto
  show ?thesis
  proof (cases r)
    case (Inl e')
    with assms w h have "agree {q} h t"
      by (auto simp: atomic_replace_def bindS_def tryS_def split: prod.splits dest: remove_file_agree)
    with rename_fail h Inl q qp show ?thesis by (fastforce simp: agree_def)
  next
    case (Inr v)
    with assms w h have "sync_parent p h = (t, Inl e)" by (simp add: atomic_replace_def bindS_def tryS_def)
    with sync_parent_same replaced_node [OF w, of h v] h Inr show ?thesis by (fastforce simp: agree_def)
  qed
qed

text \<open>Creation: it never replaces a node.\<close>

lemma created_node:
  assumes "write_temporary p b f = (g, Inr q)" "hard_link q p g = (t, Inr u)"
  shows "nodes f p = None \<and> q \<in> temps p \<and> nodes f q = None
    \<and> nodes t = (nodes f)(p \<mapsto> Regular b PRIVATE_MODE 0, q \<mapsto> Regular b PRIVATE_MODE 0) \<and> locks t = locks f"
proof -
  from write_temporary_ok [OF assms(1)] temps_other have q: "q \<noteq> p" "q \<in> temps p" "nodes f q = None"
    "nodes g = (nodes f)(q \<mapsto> Regular b PRIVATE_MODE 0)" "locks g = locks f" by auto
  with hard_link_ok [OF assms(2)] show ?thesis by (auto simp: fun_upd_twist)
qed

lemma persist_create_ok:
  assumes "persist_create p b f = (t, Inr u)"
  shows "nodes f p = None \<and> nodes t = (nodes f)(p \<mapsto> Regular b PRIVATE_MODE 0) \<and> locks t = locks f"
proof -
  from assms obtain g q where w: "write_temporary p b f = (g, Inr q)"
    by (auto simp: persist_create_def bindS_Inr_iff)
  obtain h r where h: "hard_link q p g = (h, r)" by fastforce
  show ?thesis
  proof (cases r)
    case (Inl e)
    with assms w h show ?thesis by (simp add: persist_create_def bindS_run bindS_tryS split: prod.splits)
  next
    case (Inr v)
    obtain k x where k: "remove_file q h = (k, x)" by fastforce
    obtain l y where l: "sync_parent p k = (l, y)" by fastforce
    from assms w h Inr k l have "isOk x" "l = t"
      by (auto simp: persist_create_def bindS_def tryS_def failIf_def split: if_splits)
    then obtain z where "x = Inr z" by (auto simp: isOk_iff)
    with k remove_file_ok [of q h k z] sync_parent_same [OF l] created_node [OF w, of h v] h Inr \<open>l = t\<close> temps_other [of p]
    show ?thesis by (auto simp: fun_upd_twist)
  qed
qed

text \<open>Locks and reads.\<close>

lemma reject_symlink_same: "reject_symlink_if_present p f = (t, r) \<Longrightarrow> nodes t = nodes f \<and> locks t = locks f"
  by (auto simp: reject_symlink_if_present_def bindS_tryS symlink_metadata_def
    split: prod.splits sum.splits node.splits io_error.splits dest!: sys_read_same)

lemma reject_symlink_ok: "reject_symlink_if_present p f = (t, Inr u) \<Longrightarrow> \<nexists>n. nodes f p = Some (Symlink n)"
  by (auto simp: reject_symlink_if_present_def bindS_tryS symlink_metadata_def sys_read_def okOr_def
    split: prod.splits option.splits dest!: next_fault_same)

lemma ensure_private_regular_same:
  "ensure_private_regular h f = (t, r) \<Longrightarrow> nodes t = nodes f \<and> locks t = locks f"
  by (auto simp: ensure_private_regular_def bindS_def mapErrS_def handle_metadata_def failIf_def
    split: node.splits prod.splits sum.splits if_splits dest!: sys_read_same)

lemma ensure_private_regular_ok:
  "ensure_private_regular h f = (t, Inr u) \<Longrightarrow> \<exists>b m k. h = Regular b m k \<and> m AND 63 = 0"
  by (auto simp: ensure_private_regular_def bindS_def mapErrS_def handle_metadata_def sys_read_def failIf_def
    split: node.splits prod.splits sum.splits if_splits option.splits)

lemma open_create_ok:
  "open_create p f = (t, Inr h) \<Longrightarrow> locks t = locks f \<and> (\<forall>q. q \<noteq> p \<longrightarrow> nodes t q = nodes f q)"
  by (auto simp: open_create_def bindS_def split: prod.splits sum.splits option.splits node.splits if_splits
    dest!: sys_update_ok) (metis fun_upd_other)

lemma flock_ok:
  assumes "flock p f = (t, Inr u)"
  shows "p \<notin> locks f \<and> locks t = insert p (locks f) \<and> nodes t = nodes f"
proof -
  obtain g x where g: "next_fault f = (g, x)" by fastforce
  with assms have "p \<notin> locks g" "t = g\<lparr> locks := insert p (locks g) \<rparr>"
    by (simp_all add: flock_def split: option.splits if_splits)
  with next_fault_same [OF g] show ?thesis by simp
qed

lemma acquire_lock_ok:
  assumes "acquire_lock p f = (t, Inr q)"
  shows "q = p \<and> p \<notin> locks f \<and> locks t = insert p (locks f) \<and> (\<forall>r. r \<noteq> p \<longrightarrow> nodes t r = nodes f r)"
proof -
  from assms obtain f1 f2 f3 u v h where s: "reject_symlink_if_present p f = (f1, Inr u)" "open_create p f1 = (f2, Inr h)"
    "ensure_private_regular h f2 = (f3, Inr v)" "flock p f3 = (t, Inr ())" "q = p"
    by (auto simp: acquire_lock_def bindS_Inr_iff mapErrS_Inr_iff)
  from reject_symlink_same [OF s(1)] open_create_ok [OF s(2)] ensure_private_regular_same [OF s(3)] flock_ok [OF s(4)]
  show ?thesis using s(5) by auto
qed

lemma acquire_lock_held: "p \<in> locks f \<Longrightarrow> snd (acquire_lock p f) \<noteq> Inr q"
  using acquire_lock_ok by (metis prod.collapse)

lemma read_private_file_ok:
  assumes "read_private_file p limit f = (t, Inr b)"
  shows "nodes t = nodes f \<and> locks t = locks f \<and> b \<noteq> [] \<and> length b \<le> unat limit
    \<and> (\<exists>m k. nodes f p = Some (Regular b m k) \<and> m AND 63 = 0)"
proof -
  from assms obtain f1 f2 f3 f4 u v h n where s: "reject_symlink_if_present p f = (f1, Inr u)" "file_open p f1 = (f2, Inr h)"
    "ensure_private_regular h f2 = (f3, Inr v)" "handle_metadata h f3 = (f4, Inr n)"
    "\<not> (case n of Regular b _ _ \<Rightarrow> length b > unat limit | _ \<Rightarrow> False)"
    "handle_read h (unat limit + 1) f4 = (t, Inr b)" "b \<noteq> []" "length b \<le> unat limit"
    by (auto simp: read_private_file_def bindS_Inr_iff mapErrS_Inr_iff failIf_Inr_iff Let_def not_less)
  obtain b' m k where h: "h = Regular b' m k" "m AND 63 = 0" using ensure_private_regular_ok [OF s(3)] by blast
  have n: "n = h" using sys_read_ok [OF s(4) [unfolded handle_metadata_def]] by simp
  have "b = b'" using sys_read_ok [OF s(6) [unfolded handle_read_def]] s(5) n h by simp
  moreover have "resolve (nodes f1 p) = Some h"
    using sys_read_ok [OF s(2) [unfolded file_open_def]] by (simp add: okOr_def split: option.splits)
  moreover have "nodes f1 = nodes f" "locks f1 = locks f" "nodes t = nodes f" "locks t = locks f"
    using reject_symlink_same [OF s(1)] sys_read_same [OF s(2) [unfolded file_open_def]] ensure_private_regular_same [OF s(3)]
      sys_read_same [OF s(4) [unfolded handle_metadata_def]] sys_read_same [OF s(6) [unfolded handle_read_def]] by simp_all
  ultimately show ?thesis using reject_symlink_ok [OF s(1)] h s(7,8)
    by (cases "nodes f p" rule: resolve.cases) auto
qed


subsection \<open>What is there stays there\<close>

text \<open>Reading, locking and creating keep every node that exists, whatever faults occur.\<close>

lemma keeps_sys_read [intro]: "keeps (\<lambda>f. P (nodes f)) (sys_read g)"
  unfolding keeps_def using sys_read_same by (metis prod.collapse)

lemma keeps_sys_update:
  assumes "\<And>m m'. m p = Some x \<Longrightarrow> g m = Inr m' \<Longrightarrow> m' p = Some x"
  shows "keeps (\<lambda>f. nodes f p = Some x) (sys_update g)"
  unfolding keeps_def
proof (intro allI impI)
  fix f :: fs assume f: "nodes f p = Some x"
  obtain t r where t: "sys_update g f = (t, r)" by fastforce
  show "nodes (fst (sys_update g f)) p = Some x"
    using f t assms sys_update_ok [of g f t] sys_update_fail [of g f t] by (cases r) auto
qed

lemma keeps_open_create [intro]: "keeps (\<lambda>f. nodes f p = Some x) (open_create q)"
  unfolding open_create_def
  by (intro keeps_bindS keeps_sys_update) (auto split: option.splits node.splits if_splits simp: keeps_def)

lemma keeps_flock [intro]: "keeps (\<lambda>f. P (nodes f)) (flock q)"
  unfolding keeps_def flock_def
  by (auto split: prod.splits option.splits dest!: next_fault_same)

lemma keeps_reject_symlink [intro]: "keeps (\<lambda>f. P (nodes f)) (reject_symlink_if_present q)"
  unfolding keeps_def using reject_symlink_same by (metis prod.collapse)

lemma keeps_ensure_private_regular [intro]: "keeps (\<lambda>f. P (nodes f)) (ensure_private_regular h)"
  unfolding keeps_def using ensure_private_regular_same by (metis prod.collapse)

lemma keeps_acquire_lock [intro]: "keeps (\<lambda>f. nodes f p = Some x) (acquire_lock q)"
  unfolding acquire_lock_def
  by (intro keeps_bindS keeps_mapErrS keeps_reject_symlink keeps_open_create keeps_ensure_private_regular keeps_flock keeps_simps)

lemma keeps_read_private_file [intro]: "keeps (\<lambda>f. P (nodes f)) (read_private_file q n)"
  unfolding read_private_file_def file_open_def handle_metadata_def handle_read_def Let_def
  by (intro keeps_bindS keeps_mapErrS keeps_reject_symlink keeps_sys_read keeps_ensure_private_regular keeps_simps)

lemma keeps_write_temporary: "keeps (\<lambda>f. nodes f p = x) (write_temporary p b)"
  unfolding keeps_def
proof (intro allI impI)
  fix f :: fs assume f: "nodes f p = x"
  obtain t r where t: "write_temporary p b f = (t, r)" by fastforce
  show "nodes (fst (write_temporary p b f)) p = x"
    using f t write_temporary_ok [of p b f t] write_temporary_fail [of p b f t] temps_other [of p]
    by (cases r) (auto simp: agree_def)
qed

lemma keeps_remove_file: "q \<noteq> p \<Longrightarrow> keeps (\<lambda>f. nodes f p = Some x) (remove_file q)"
  unfolding remove_file_def by (intro keeps_sys_update) (auto split: if_splits)

lemma keeps_hard_link: "keeps (\<lambda>f. nodes f p = Some x) (hard_link a b)"
  unfolding hard_link_def by (intro keeps_sys_update) (auto split: if_splits option.splits)

lemma keeps_sync_parent: "keeps (\<lambda>f. P (nodes f)) (sync_parent q)"
  unfolding keeps_def using sync_parent_same by (metis prod.collapse)

lemma keeps_persist_create: "keeps (\<lambda>f. nodes f p = Some x) (persist_create p b)"
  unfolding persist_create_def
proof (rule keeps_bindS_when [OF keeps_write_temporary])
  fix s t q assume "write_temporary p b s = (t, Inr q)"
  with write_temporary_ok temps_other have q: "q \<noteq> p" by blast
  show "keeps (\<lambda>f. nodes f p = Some x) (bindS (tryS (hard_link q p)) (\<lambda>linked. case linked of
       Inl _ \<Rightarrow> bindS (tryS (remove_file q)) (\<lambda>_. errS StorageInvalid)
     | Inr _ \<Rightarrow>
         bindS (tryS (remove_file q)) (\<lambda>remove_result.
         bindS (tryS (sync_parent p)) (\<lambda>sync_result.
         failS (\<not> isOk remove_result \<or> \<not> isOk sync_result) StorageInvalid))))"
    by (auto split: sum.splits intro!: keeps_bindS keeps_tryS keeps_hard_link keeps_remove_file [OF q] keeps_sync_parent)
qed


subsection \<open>Runs without faults\<close>

text \<open>With an empty script every operation does what its arguments allow, so the primitives
  succeed on an orderly file system.\<close>

lemma sys_read_run: "faults f = [] \<Longrightarrow> sys_read g f = (f, g (nodes f))"
  by (simp add: sys_read_def next_fault_none)

lemma sys_update_run:
  "faults f = [] \<Longrightarrow> sys_update g f = (case g (nodes f) of Inl e \<Rightarrow> (f, Inl e) | Inr m \<Rightarrow> (f\<lparr> nodes := m \<rparr>, Inr ()))"
  by (simp add: sys_update_def next_fault_none)

definition private_node :: "node option \<Rightarrow> bool" where
  "private_node n \<longleftrightarrow> (\<exists>b m k. n = Some (Regular b m k) \<and> m AND 63 = 0)"

lemma reject_symlink_run:
  "faults f = [] \<Longrightarrow> n = None \<or> private_node n \<Longrightarrow> nodes f p = n \<Longrightarrow> reject_symlink_if_present p f = (f, Inr ())"
  by (auto simp: reject_symlink_if_present_def bindS_tryS symlink_metadata_def sys_read_run okOr_def private_node_def)

lemma ensure_private_regular_run:
  "faults f = [] \<Longrightarrow> m AND 63 = 0 \<Longrightarrow> ensure_private_regular (Regular b m k) f = (f, Inr ())"
  by (simp add: ensure_private_regular_def bindS_def mapErrS_def handle_metadata_def sys_read_run)

lemma acquire_lock_run:
  assumes "faults f = []" "nodes f p = None \<or> private_node (nodes f p)" "p \<notin> locks f"
  obtains t where "acquire_lock p f = (t, Inr p)" "faults t = []" "locks t = insert p (locks f)"
    "nodes t = (if nodes f p = None then (nodes f)(p \<mapsto> Regular [] PRIVATE_MODE 0) else nodes f)"
proof (cases "nodes f p")
  case None
  have "acquire_lock p f = (f\<lparr> nodes := (nodes f)(p \<mapsto> Regular [] PRIVATE_MODE 0), locks := insert p (locks f) \<rparr>, Inr p)"
    using assms None reject_symlink_run [OF assms(1,2) refl]
    by (simp add: acquire_lock_def bindS_def mapErrS_def open_create_def sys_update_run ensure_private_regular_run
        flock_def next_fault_none)
  with that None assms(1) show thesis by simp
next
  case (Some n)
  with assms obtain b m k where n: "n = Regular b m k" "m AND 63 = 0" by (auto simp: private_node_def)
  have "acquire_lock p f = (f\<lparr> locks := insert p (locks f) \<rparr>, Inr p)"
    using assms Some n reject_symlink_run [OF assms(1,2) refl]
    by (simp add: acquire_lock_def bindS_def mapErrS_def open_create_def sys_update_run ensure_private_regular_run
        flock_def next_fault_none)
  with that Some assms(1) show thesis by simp
qed

lemma read_private_file_run:
  assumes "faults f = []" "nodes f p = Some (Regular b m k)" "m AND 63 = 0" "b \<noteq> []" "length b \<le> unat limit"
    and "unat limit + 1 < 2 ^ 64"
  shows "read_private_file p limit f = (f, Inr b)"
  using assms reject_symlink_run [of f "Some (Regular b m k)" p]
  by (simp add: read_private_file_def bindS_def mapErrS_def file_open_def handle_metadata_def handle_read_def
      sys_read_run ensure_private_regular_run okOr_def failIf_def private_node_def Let_def)


lemma write_temporary_run:
  assumes "faults f = []" "sibling_path p (temp_suffix f) = Inr q" "nodes f q = None"
  shows "\<exists>t. write_temporary p b f = (t, Inr q) \<and> faults t = []"
proof -
  have 32: "(32 :: nat) = Suc 31" by simp
  show ?thesis unfolding write_temporary_def 32 write_temporary_loop.simps
    using assms
    by (simp add: bindS_def fresh_suffix_def tryS_def open_new_as_def sys_update_run write_new_as_def next_fault_none
        sync_all_def sys_read_run)
qed

lemma sync_parent_run:
  "faults f = [] \<Longrightarrow> parent p = Some d \<Longrightarrow> nodes f d = Some (Dir md) \<Longrightarrow> sync_parent p f = (f, Inr ())"
  by (simp add: sync_parent_def mapErrS_def bindS_def file_open_def sync_all_def sys_read_run)

lemma atomic_replace_run:
  assumes f: "faults f = []" and q: "sibling_path p (temp_suffix f) = Inr q" "nodes f q = None"
    and n: "\<nexists>md. nodes f p = Some (Dir md)" and d: "parent p = Some d" "nodes f d = Some (Dir md)"
  shows "\<exists>t. atomic_replace p b f = (t, Inr ()) \<and> faults t = []"
proof -
  obtain g where g: "write_temporary p b f = (g, Inr q)" "faults g = []" using write_temporary_run [OF f q] by blast
  have qp: "q \<noteq> p" using temps_other q(1) temp_suffix_nonempty unfolding temps_def by blast
  have gn: "nodes g = (nodes f)(q \<mapsto> Regular b PRIVATE_MODE 0)" using write_temporary_ok [OF g(1)] by simp
  define h where "h = g\<lparr> nodes := (nodes g)(q := None, p \<mapsto> Regular b PRIVATE_MODE 0) \<rparr>"
  have "\<not> (case nodes g p of Some x \<Rightarrow> is_dir x | None \<Rightarrow> False)"
    using n gn qp by (auto simp: is_dir_iff split: option.splits)
  then have r: "rename q p g = (h, Inr ())" using g(2) gn by (simp add: rename_def sys_update_run h_def)
  have "d \<noteq> p" "d \<noteq> q" using d q n by auto
  then have "sync_parent p h = (h, Inr ())" using sync_parent_run [of h p d] g(2) gn d by (simp add: h_def)
  then show ?thesis using g(1) r g(2) by (simp add: atomic_replace_def bindS_run bindS_tryS) (simp add: h_def)
qed


subsection \<open>Creating a file and writing it at once\<close>

text \<open>The sequence the desktop crate uses for its key state and its stub files: \<open>create_new\<close>,
  \<open>write_all\<close>, \<open>sync_all\<close>, and the file removed again when writing fails.\<close>

definition create_and_write :: "u32 \<Rightarrow> 'e \<Rightarrow> path \<Rightarrow> bytes \<Rightarrow> (fs, 'e, unit) step" where
  "create_and_write md e p b =
     bindS (mapErrS (\<lambda>_. e) (open_new_as md p)) (\<lambda>_.
     bindS (tryS (bindS (write_new_as md p b) (\<lambda>_. sync_all))) (\<lambda>w. case w of
       Inl _ \<Rightarrow> bindS (tryS (remove_file p)) (\<lambda>_. errS e)
     | Inr _ \<Rightarrow> retS ()))"

lemma create_and_write_ok:
  assumes "create_and_write md e p b f = (t, Inr u)"
  shows "nodes f p = None \<and> nodes t = (nodes f)(p \<mapsto> Regular b md 0) \<and> locks t = locks f"
proof -
  from assms obtain g where g: "open_new_as md p f = (g, Inr ())"
    by (auto simp: create_and_write_def bindS_Inr_iff mapErrS_Inr_iff)
  obtain h w where h: "bindS (write_new_as md p b) (\<lambda>_. sync_all) g = (h, w)" by fastforce
  show ?thesis
  proof (cases w)
    case (Inl x)
    with assms g h show ?thesis by (simp add: create_and_write_def bindS_run mapErrS_def bindS_tryS split: prod.splits)
  next
    case (Inr v)
    with assms g h have "t = h" by (simp add: create_and_write_def bindS_def mapErrS_def tryS_def)
    moreover from h Inr obtain k where "write_new_as md p b g = (k, Inr ())" "sync_all k = (h, Inr v)"
      by (auto simp: bindS_Inr_iff)
    ultimately show ?thesis using open_create_new_ok [OF g] write_all_ok sync_all_same by (simp; blast?)
  qed
qed

lemma create_and_write_run:
  assumes "faults f = []" "nodes f p = None"
  shows "create_and_write md e p b f = (f\<lparr> nodes := (nodes f)(p \<mapsto> Regular b md 0) \<rparr>, Inr ())"
  using assms
  by (simp add: create_and_write_def bindS_def mapErrS_def tryS_def open_new_as_def sys_update_run write_new_as_def
      next_fault_none sync_all_def sys_read_run)

end
