(* ===== verification/Replay_File.thy ===== *)
theory Replay_File
  imports Replay_Store Unix_Storage
begin

text \<open>
  The file guard of \<open>crates/core/src/protocol/replay.rs\<close> (module \<open>file\<close>, the Unix variant): a
  \<open>ReplayState\<close> kept in a private file behind an exclusive lock, replaced before it is used, and
  poisoned by a failed write.  It provides the \<open>ReplayStore\<close> contract, also across restarts: what
  reopening the file could read is part of what counts as spent.
\<close>

subsection \<open>The guard\<close>

definition MAX_STATE_BYTES :: u64 where [simp]: "MAX_STATE_BYTES = 1048576"

record file_replay_guard =
  fg_path :: path
  fg_state :: replay_state
  fg_capacity :: nat
  fg_poisoned :: bool
  fg_lock :: path

definition checked_path :: "path \<Rightarrow> (fs, protocol_error, path) step" where
  "checked_path p =
     bindS (failS (\<not> absolute p \<or> file_name p = None) ReplayStateError) (\<lambda>_.
     bindS (liftS (okOr ReplayStateError (parent p))) (\<lambda>d.
     bindS (mapErrS (\<lambda>_. ReplayStateError) (metadata d)) (\<lambda>n.
     bindS (failS (\<not> is_dir n) ReplayStateError) (\<lambda>_. retS p))))"

text \<open>The module's wrappers, which give every storage failure the same error.\<close>

definition guard_acquire_lock :: "path \<Rightarrow> (fs, protocol_error, path) step" where
  "guard_acquire_lock p =
     bindS (liftS (mapErr (\<lambda>_. ReplayStateError) (sibling_path p ''.lock''))) (\<lambda>lock_path.
     mapErrS (\<lambda>_. ReplayStateError) (acquire_lock lock_path))"

definition guard_read_private_file :: "path \<Rightarrow> (fs, protocol_error, bytes) step" where
  "guard_read_private_file p = mapErrS (\<lambda>_. ReplayStateError) (read_private_file p MAX_STATE_BYTES)"

definition guard_persist_create :: "path \<Rightarrow> bytes \<Rightarrow> (fs, protocol_error, unit) step" where
  "guard_persist_create p encoded = mapErrS (\<lambda>_. ReplayStateError) (persist_create p encoded)"

definition guard_atomic_replace :: "path \<Rightarrow> bytes \<Rightarrow> (fs, protocol_error, unit) step" where
  "guard_atomic_replace p encoded = mapErrS (\<lambda>_. ReplayStateError) (atomic_replace p encoded)"

text \<open>An early return drops the lock handle.\<close>

definition holding :: "path \<Rightarrow> (fs, 'e, 'a) step \<Rightarrow> (fs, 'e, 'a) step" where
  "holding lock m f = (case m f of (f, Inl e) \<Rightarrow> (unlock lock f, Inl e) | (f, Inr x) \<Rightarrow> (f, Inr x))"

definition file_create ::
    "cbor \<Rightarrow> path \<Rightarrow> replay_scope \<Rightarrow> nat \<Rightarrow> u64 \<Rightarrow> (fs, protocol_error, file_replay_guard) step" where
  "file_create cb p sc capacity now =
     bindS (liftS (validate_capacity capacity)) (\<lambda>_.
     bindS (checked_path p) (\<lambda>p.
     bindS (guard_acquire_lock p) (\<lambda>lock.
     holding lock (
       bindS (tryS (symlink_metadata p)) (\<lambda>found.
       bindS (failS (found \<noteq> Inl NotFound) ReplayStateError) (\<lambda>_.
       let state = state_new sc now
       in bindS (guard_persist_create p (state_encode cb state)) (\<lambda>_.
          retS \<lparr> fg_path = p, fg_state = state, fg_capacity = capacity, fg_poisoned = False, fg_lock = lock \<rparr>)))))))"

definition file_open_guard ::
    "cbor \<Rightarrow> path \<Rightarrow> replay_scope \<Rightarrow> nat \<Rightarrow> (fs, protocol_error, file_replay_guard) step" where
  "file_open_guard cb p expected_scope capacity =
     bindS (liftS (validate_capacity capacity)) (\<lambda>_.
     bindS (checked_path p) (\<lambda>p.
     bindS (guard_acquire_lock p) (\<lambda>lock.
     holding lock (
       bindS (guard_read_private_file p) (\<lambda>encoded.
       bindS (liftS (state_decode cb encoded capacity)) (\<lambda>state.
       bindS (failS (scope state \<noteq> expected_scope) ReplayStateError) (\<lambda>_.
       retS \<lparr> fg_path = p, fg_state = state, fg_capacity = capacity, fg_poisoned = False, fg_lock = lock \<rparr>)))))))"

text \<open>Dropping the guard closes its lock file.\<close>

definition file_drop :: "file_replay_guard \<Rightarrow> fs \<Rightarrow> fs" where
  "file_drop g f = unlock (fg_lock g) f"

text \<open>\<open>&mut self\<close> and the file system together.\<close>

definition commit :: "cbor \<Rightarrow> replay_state \<Rightarrow> (file_replay_guard \<times> fs, protocol_error, unit) step" where
  "commit cb next_state = (\<lambda>(g, f).
     if fg_poisoned g then ((g, f), Inl ReplayStateError)
     else case guard_atomic_replace (fg_path g) (state_encode cb next_state) f of
       (f, Inl _) \<Rightarrow> ((g\<lparr> fg_poisoned := True \<rparr>, f), Inl ReplayStateError)
     | (f, Inr _) \<Rightarrow> ((g\<lparr> fg_state := next_state \<rparr>, f), Inr ()))"

definition file_consume_request ::
    "cbor \<Rightarrow> bytes \<Rightarrow> bytes \<Rightarrow> bytes \<Rightarrow> bytes \<Rightarrow> u64 \<Rightarrow> u64 \<Rightarrow> (file_replay_guard \<times> fs, protocol_error, unit) step" where
  "file_consume_request cb desktop_id identity_id request_id nonce expires now = (\<lambda>(g, f).
     if fg_poisoned g then ((g, f), Inl ReplayStateError)
     else case state_consume_request (scope_new PhoneRequests desktop_id identity_id) request_id nonce expires now
                 (fg_capacity g) (fg_state g) of
       (_, Inl e) \<Rightarrow> ((g, f), Inl e)
     | (next_state, Inr _) \<Rightarrow> commit cb next_state (g, f))"

definition file_consume_response ::
    "cbor \<Rightarrow> bytes \<Rightarrow> bytes \<Rightarrow> bytes \<Rightarrow> u64 \<Rightarrow> u64 \<Rightarrow> (file_replay_guard \<times> fs, protocol_error, unit) step" where
  "file_consume_response cb desktop_id identity_id digest expires now = (\<lambda>(g, f).
     if fg_poisoned g then ((g, f), Inl ReplayStateError)
     else case state_consume_response (scope_new DesktopResponses desktop_id identity_id) digest expires now
                 (fg_capacity g) (fg_state g) of
       (_, Inl e) \<Rightarrow> ((g, f), Inl e)
     | (next_state, Inr _) \<Rightarrow> commit cb next_state (g, f))"

subsection \<open>A program that holds at most one guard\<close>

text \<open>
  The state of a process that may hold a guard: none after a failed open.  A restart ends the
  process, with its lock and its guard, and starts another that opens the file, or tries to create
  it, with a capacity, a scope and a fault script of its own.
\<close>

type_synonym file_slot = "file_replay_guard option \<times> fs"

definition slot_step ::
    "(file_replay_guard \<times> fs, protocol_error, unit) step \<Rightarrow> file_slot \<Rightarrow> file_slot \<times> (protocol_error, unit) result" where
  "slot_step m = (\<lambda>(go, f). case go of
     None \<Rightarrow> ((None, f), Inl ReplayStateError)
   | Some g \<Rightarrow> (case m (g, f) of ((g, f), r) \<Rightarrow> ((Some g, f), r)))"

definition file_ops :: "cbor \<Rightarrow> file_slot replay_ops" where
  "file_ops cb = \<lparr>
     ro_request = (\<lambda>d i rq n x now. slot_step (file_consume_request cb d i rq n x now)),
     ro_response = (\<lambda>d i h x now. slot_step (file_consume_response cb d i h x now)) \<rparr>"

record restart =
  rs_create :: bool
  rs_scope :: replay_scope
  rs_capacity :: nat
  rs_now :: u64
  rs_pid :: nat
  rs_faults :: "fault list"

definition file_start :: "cbor \<Rightarrow> path \<Rightarrow> restart \<Rightarrow> (fs, protocol_error, file_replay_guard) step" where
  "file_start cb p a =
     (if rs_create a then file_create cb p (rs_scope a) (rs_capacity a) (rs_now a)
      else file_open_guard cb p (rs_scope a) (rs_capacity a))"

definition file_restart :: "cbor \<Rightarrow> path \<Rightarrow> restart \<Rightarrow> file_slot \<Rightarrow> file_slot" where
  "file_restart cb p a = (\<lambda>(go, f).
     let f = (case go of None \<Rightarrow> f | Some g \<Rightarrow> file_drop g f);
         f = f\<lparr> pid := rs_pid a, temp_counter := 0, faults := rs_faults a \<rparr>
     in case file_start cb p a f of
          (f, Inl _) \<Rightarrow> (None, f)
        | (f, Inr g) \<Rightarrow> (Some g, f))"


subsection \<open>Opening and creating\<close>

lemma checked_path_ok:
  assumes "checked_path p f = (t, Inr q)"
  shows "q = p \<and> nodes t = nodes f \<and> locks t = locks f"
  using assms
  by (auto simp: checked_path_def bindS_Inr_iff mapErrS_Inr_iff metadata_def dest!: sys_read_same)

lemma guard_acquire_lock_ok:
  assumes "guard_acquire_lock p f = (t, Inr l)"
  shows "sibling_path p ''.lock'' = Inr l \<and> l \<notin> locks f \<and> locks t = insert l (locks f)
    \<and> (\<forall>r. r \<noteq> l \<longrightarrow> nodes t r = nodes f r) \<and> nodes t p = nodes f p"
proof -
  from assms obtain lp where l: "sibling_path p ''.lock'' = Inr lp" "acquire_lock lp f = (t, Inr l)"
    by (auto simp: guard_acquire_lock_def bindS_Inr_iff mapErrS_Inr_iff mapErr_Inr_iff)
  have "lp \<in> temps p" using l(1) unfolding temps_def by blast
  with temps_other have "lp \<noteq> p" by auto
  with acquire_lock_ok [OF l(2)] l(1) show ?thesis by auto
qed

lemma holding_ok: "holding l m f = (t, Inr x) \<longleftrightarrow> m f = (t, Inr x)"
  by (auto simp: holding_def split: prod.splits sum.splits)

lemma holding_fail: "holding l m f = (t, Inl e) \<Longrightarrow> \<exists>s. m f = (s, Inl e) \<and> t = unlock l s"
  by (auto simp: holding_def split: prod.splits sum.splits)

lemma unlock_nodes [simp]: "nodes (unlock l f) = nodes f" "locks (unlock l f) = locks f - {l}"
  by (simp_all add: unlock_def)

lemma file_open_guard_ok:
  assumes "file_open_guard cb p sc capacity f = (t, Inr g)"
  shows "fg_path g = p \<and> fg_capacity g = capacity \<and> \<not> fg_poisoned g \<and> scope (fg_state g) = sc
    \<and> sibling_path p ''.lock'' = Inr (fg_lock g) \<and> fg_lock g \<notin> locks f \<and> locks t = insert (fg_lock g) (locks f)
    \<and> nodes t p = nodes f p
    \<and> (\<exists>b m k. nodes f p = Some (Regular b m k) \<and> m AND 63 = 0 \<and> length b \<le> 1048576 \<and> state_decode cb b capacity = Inr (fg_state g))"
proof -
  from assms obtain q f1 f2 l b st where q: "checked_path p f = (f1, Inr q)" and s: "guard_acquire_lock q f1 = (f2, Inr l)"
    "read_private_file q MAX_STATE_BYTES f2 = (t, Inr b)" "state_decode cb b capacity = Inr st" "scope st = sc"
    "g = \<lparr> fg_path = q, fg_state = st, fg_capacity = capacity, fg_poisoned = False, fg_lock = l \<rparr>"
    by (auto simp: file_open_guard_def bindS_Inr_iff holding_ok guard_read_private_file_def mapErrS_Inr_iff failIf_Inr_iff)
  from checked_path_ok [OF q] guard_acquire_lock_ok [OF s(1)] read_private_file_ok [OF s(2)] s(3-5)
  show ?thesis by auto
qed

lemma file_create_ok:
  assumes "file_create cb p sc capacity now f = (t, Inr g)"
  shows "fg_path g = p \<and> fg_capacity g = capacity \<and> \<not> fg_poisoned g \<and> fg_state g = state_new sc now
    \<and> sibling_path p ''.lock'' = Inr (fg_lock g) \<and> fg_lock g \<notin> locks f \<and> locks t = insert (fg_lock g) (locks f)
    \<and> validate_capacity capacity = Inr () \<and> nodes f p = None
    \<and> nodes t p = Some (Regular (state_encode cb (state_new sc now)) PRIVATE_MODE 0)"
proof -
  from assms obtain q f1 f2 f3 l r where s: "validate_capacity capacity = Inr ()" "checked_path p f = (f1, Inr q)"
    "guard_acquire_lock q f1 = (f2, Inr l)" "symlink_metadata q f2 = (f3, r)"
    "persist_create q (state_encode cb (state_new sc now)) f3 = (t, Inr ())"
    "g = \<lparr> fg_path = q, fg_state = state_new sc now, fg_capacity = capacity, fg_poisoned = False, fg_lock = l \<rparr>"
    by (auto simp: file_create_def bindS_Inr_iff holding_ok guard_persist_create_def mapErrS_Inr_iff tryS_iff Let_def)
  from checked_path_ok [OF s(2)] guard_acquire_lock_ok [OF s(3)] sys_read_same [OF s(4) [unfolded symlink_metadata_def]]
    persist_create_ok [OF s(5)] s(1,6)
  show ?thesis by auto
qed

text \<open>Whatever the faults, opening never changes a state file, nor does creating change one that
  is there.\<close>

lemma keeps_guard_acquire_lock [intro]: "keeps (\<lambda>f. nodes f p = Some x) (guard_acquire_lock q)"
  by (auto simp: guard_acquire_lock_def intro!: keeps_liftS_bind)

lemma keeps_holding [intro]: "keeps (\<lambda>f. P (nodes f)) m \<Longrightarrow> keeps (\<lambda>f. P (nodes f)) (holding l m)"
  by (auto simp: keeps_def holding_def split: prod.splits sum.splits)

lemma keeps_checked_path [intro]: "keeps (\<lambda>f. P (nodes f)) (checked_path q)"
  unfolding checked_path_def metadata_def by (intro keeps_bindS keeps_simps keeps_mapErrS keeps_sys_read)

lemma keeps_file_open_guard: "keeps (\<lambda>f. nodes f p = Some x) (file_open_guard cb p sc capacity)"
  unfolding file_open_guard_def guard_read_private_file_def
  by (intro keeps_bindS keeps_simps keeps_mapErrS keeps_holding keeps_guard_acquire_lock keeps_checked_path
    keeps_read_private_file)

lemma keeps_file_create: "keeps (\<lambda>f. nodes f p = Some x) (file_create cb p sc capacity now)"
  unfolding file_create_def
proof (intro keeps_bindS [OF keeps_simps(3)] keeps_bindS_when [OF keeps_checked_path], goal_cases)
  case (1 u s t q)
  then have q: "q = p" by (simp add: checked_path_ok)
  show ?case unfolding q guard_persist_create_def symlink_metadata_def Let_def
    by (intro keeps_bindS keeps_mapErrS keeps_holding keeps_guard_acquire_lock keeps_simps
        keeps_tryS keeps_sys_read keeps_persist_create)
qed

subsection \<open>The contract, across faults and restarts\<close>

text \<open>The state a guard holds is one its own capacity admits, unless the guard is poisoned.\<close>

definition guard_ok :: "path \<Rightarrow> file_replay_guard \<Rightarrow> bool" where
  "guard_ok p g \<longleftrightarrow> fg_path g = p \<and>
     (fg_poisoned g \<or> wf_state (fg_state g) \<and> state_inv (fg_capacity g) (fg_state g))"

definition slot_inv :: "cbor \<Rightarrow> path \<Rightarrow> file_slot \<Rightarrow> bool" where
  "slot_inv cb p s \<longleftrightarrow> cbor_codec cb \<and> (\<forall>g. fst s = Some g \<longrightarrow> guard_ok p g)"

text \<open>A property of the state in use and of every state that the file could be opened as.\<close>

definition on_states :: "cbor \<Rightarrow> path \<Rightarrow> (replay_state \<Rightarrow> bool) \<Rightarrow> file_slot \<Rightarrow> bool" where
  "on_states cb p P s \<longleftrightarrow>
     (\<forall>g. fst s = Some g \<longrightarrow> fg_poisoned g \<or> P (fg_state g)) \<and>
     (\<exists>b m k. nodes (snd s) p = Some (Regular b m k) \<and> (\<forall>capacity st. state_decode cb b capacity = Inr st \<longrightarrow> P st))"

abbreviation slot_spent_request :: "cbor \<Rightarrow> path \<Rightarrow> bytes \<Rightarrow> bytes \<Rightarrow> u64 \<Rightarrow> file_slot \<Rightarrow> bool" where
  "slot_spent_request cb p rq n x \<equiv> on_states cb p (spent_request rq n x)"

abbreviation slot_spent_response :: "cbor \<Rightarrow> path \<Rightarrow> bytes \<Rightarrow> u64 \<Rightarrow> file_slot \<Rightarrow> bool" where
  "slot_spent_response cb p h x \<equiv> on_states cb p (spent_response h x)"

text \<open>An encoded state is read back as that state and no other, whatever the capacity.\<close>

lemma state_inv_mono: "state_inv c st \<Longrightarrow> c \<le> d \<Longrightarrow> d \<le> MAX_CONFIGURED_ENTRIES \<Longrightarrow> state_inv d st"
  by (auto simp: state_inv_def)

lemma decode_other_capacity:
  assumes "cbor_codec cb" "wf_state st" "state_inv c st" "state_decode cb (state_encode cb st) d = Inr st'"
  shows "st' = st"
proof -
  from state_decode_wf [OF assms(4)] have e: "state_encode cb st = state_encode cb st'" "wf_state st'" "state_inv d st'"
    by auto
  have m: "max c d \<le> MAX_CONFIGURED_ENTRIES" using assms(3) e(3) by (auto simp: state_inv_def)
  have "state_decode cb (state_encode cb st) (max c d) = Inr st"
    using assms(1,2) state_inv_mono [OF assms(3) _ m] by (intro state_decode_rt) auto
  moreover have "state_decode cb (state_encode cb st') (max c d) = Inr st'"
    using assms(1) e(2) state_inv_mono [OF e(3) _ m] by (intro state_decode_rt) auto
  ultimately show ?thesis unfolding e(1) by (simp only: sum.inject)
qed

text \<open>The widths of what a call brings in.\<close>

lemma committed_wf:
  "wf_state st \<Longrightarrow> wf_entry (sc_role (scope st)) e \<Longrightarrow> wf_state (committed now e st)"
  by (auto simp: wf_state_def committed_def retained_def)

text \<open>What a call does to a state.\<close>

definition state_call :: "replay_call \<Rightarrow> nat \<Rightarrow> replay_state \<Rightarrow> replay_state \<times> (protocol_error, unit) result" where
  "state_call c capacity st = (case c of
     CallRequest d i rq n x now \<Rightarrow> state_consume_request (scope_new PhoneRequests d i) rq n x now capacity st
   | CallResponse d i h x now \<Rightarrow> state_consume_response (scope_new DesktopResponses d i) h x now capacity st)"

lemma state_call_good:
  assumes "state_call c capacity st = (st', Inr u)" "wf_call c" "wf_state st" "state_inv capacity st"
  shows "wf_state st' \<and> state_inv capacity st'"
proof
  show "wf_state st'" using assms(1-3)
    by (cases c)
      (auto simp: state_call_def scope_new_def wf_entry_def state_consume_request_ok state_consume_response_ok
        intro!: committed_wf)
  show "state_inv capacity st'" using assms(1,4)
    by (cases c) (auto simp: state_call_def intro: state_consume_request_inv state_consume_response_inv)
qed

lemma state_call_spent:
  assumes "state_call c capacity st = (st', Inr u)"
  shows "spent_request rq n x st \<longrightarrow> spent_request rq n x st'" "spent_response h x st \<longrightarrow> spent_response h x st'"
  using assms by (cases c; auto simp: state_call_def intro: spent_kept)+

lemma file_call_cases:
  obtains (same) e where "replay_call (file_ops cb) c s = (s, Inl e)"
  | (commit) g f st' where "s = (Some g, f)" "\<not> fg_poisoned g" "state_call c (fg_capacity g) (fg_state g) = (st', Inr ())"
      "replay_call (file_ops cb) c s = slot_step (commit cb st') s"
proof (cases s)
  case (Pair go f)
  show thesis
  proof (cases go)
    case None
    then show thesis using same Pair
      by (cases c) (simp_all add: replay_call_def file_ops_def slot_step_def)
  next
    case (Some g)
    obtain st' r where r: "state_call c (fg_capacity g) (fg_state g) = (st', r)" by fastforce
    show thesis
    proof (cases "fg_poisoned g")
      case True
      then show thesis using same Pair Some
        by (cases c) (simp_all add: replay_call_def file_ops_def slot_step_def file_consume_request_def file_consume_response_def)
    next
      case False
      then show thesis using same commit [of g f st'] Pair Some r
        by (cases c; cases r)
          (simp_all add: replay_call_def state_call_def file_ops_def slot_step_def file_consume_request_def
            file_consume_response_def)
    qed
  qed
qed

text \<open>A commit: the guard stays legal, and what holds of the next state and of the old ones holds
  of all states that are in use or on disk afterwards, of the next state alone when it succeeds.\<close>

lemma commit_effect:
  assumes c: "cbor_codec cb" and g: "guard_ok p g" "\<not> fg_poisoned g"
    and st: "wf_state st" "state_inv (fg_capacity g) st"
    and m: "slot_step (commit cb st) (Some g, f) = (s', r)"
  shows "slot_inv cb p s' \<and> (r = Inr () \<and> P st \<longrightarrow> on_states cb p P s')
    \<and> (on_states cb p P (Some g, f) \<and> P st \<longrightarrow> on_states cb p P s')"
proof -
  have path: "fg_path g = p" using g by (simp add: guard_ok_def)
  obtain t q where a: "atomic_replace p (state_encode cb st) f = (t, q)" by fastforce
  have new: "P st' " if "state_decode cb (state_encode cb st) d = Inr st'" "P st" for d st'
    using decode_other_capacity [OF c st that(1)] that(2) by simp
  show ?thesis
  proof (cases q)
    case (Inl e)
    with m a path g(2) have s': "s' = (Some (g\<lparr> fg_poisoned := True \<rparr>), t)" "r = Inl ReplayStateError"
      by (simp_all add: slot_step_def commit_def guard_atomic_replace_def mapErrS_def mapErr_def)
    from atomic_replace_fail [of p "state_encode cb st" f t e] a Inl
    have "nodes t p = nodes f p \<or> nodes t p = Some (Regular (state_encode cb st) PRIVATE_MODE 0)" by auto
    then show ?thesis using c path new unfolding s'
      by (auto simp: slot_inv_def guard_ok_def on_states_def)
  next
    case (Inr u)
    with m a path g(2) have s': "s' = (Some (g\<lparr> fg_state := st \<rparr>), t)" "r = Inr ()"
      by (simp_all add: slot_step_def commit_def guard_atomic_replace_def mapErrS_def mapErr_def)
    from atomic_replace_ok [of p "state_encode cb st" f t u] a Inr
    have "nodes t p = Some (Regular (state_encode cb st) PRIVATE_MODE 0)" by simp
    then show ?thesis using c path new st unfolding s'
      by (auto simp: slot_inv_def guard_ok_def on_states_def)
  qed
qed


lemma file_call_keeps:
  assumes "slot_inv cb p s" "wf_call c" "replay_call (file_ops cb) c s = (s', r)"
    and P: "\<And>capacity st st'. state_call c capacity st = (st', Inr ()) \<Longrightarrow> P st \<Longrightarrow> P st'"
  shows "slot_inv cb p s' \<and> (on_states cb p P s \<longrightarrow> on_states cb p P s')"
proof (cases rule: file_call_cases [of cb c s])
  case (same e)
  with assms(1,3) show ?thesis by simp
next
  case (commit g f st')
  have c: "cbor_codec cb" and g: "guard_ok p g" using assms(1) commit(1) by (auto simp: slot_inv_def)
  then have st: "wf_state st'" "state_inv (fg_capacity g) st'"
    using state_call_good [OF commit(3) assms(2)] commit(2) by (auto simp: guard_ok_def)
  have "slot_step (commit cb st') (Some g, f) = (s', r)" using assms(3) commit(1,4) by simp
  note e = commit_effect [OF c g commit(2) st this, of P]
  then show ?thesis using P [OF commit(3)] commit(1,2) by (auto simp: on_states_def)
qed

lemma file_call_spends:
  assumes "slot_inv cb p s" "wf_call c" "replay_call (file_ops cb) c s = (s', Inr ())"
    and P: "\<And>capacity st st'. state_call c capacity st = (st', Inr ()) \<Longrightarrow> P st'"
  shows "on_states cb p P s'"
proof (cases rule: file_call_cases [of cb c s])
  case (same e)
  with assms(3) show ?thesis by simp
next
  case (commit g f st')
  have c: "cbor_codec cb" and g: "guard_ok p g" using assms(1) commit(1) by (auto simp: slot_inv_def)
  then have st: "wf_state st'" "state_inv (fg_capacity g) st'"
    using state_call_good [OF commit(3) assms(2)] commit(2) by (auto simp: guard_ok_def)
  have "slot_step (commit cb st') (Some g, f) = (s', Inr ())" using assms(3) commit(1,4) by simp
  then show ?thesis using commit_effect [OF c g commit(2) st] P [OF commit(3)] by blast
qed

lemma file_call_refused:
  assumes "on_states cb p P s"
    and P: "\<And>capacity st st'. P st \<Longrightarrow> state_call c capacity st \<noteq> (st', Inr ())"
  shows "snd (replay_call (file_ops cb) c s) \<noteq> Inr ()"
proof (cases rule: file_call_cases [of cb c s])
  case (commit g f st')
  then have "P (fg_state g)" using assms(1) by (simp add: on_states_def)
  with P [of "fg_state g"] commit(3) show ?thesis by blast
qed simp

definition wf_restart :: "restart \<Rightarrow> bool" where
  "wf_restart a \<longleftrightarrow> length (sc_desktop_id (rs_scope a)) = 16 \<and> length (sc_identity_id (rs_scope a)) = 16"

lemma state_new_wf: "wf_restart a \<Longrightarrow> wf_state (state_new (rs_scope a) now)"
  by (simp add: wf_restart_def wf_state_def state_new_def)

lemma file_start_good:
  assumes "wf_restart a" "file_start cb p a f = (t, Inr g)"
  shows "guard_ok p g \<and> (\<forall>b m k. nodes f p = Some (Regular b m k) \<longrightarrow> state_decode cb b (fg_capacity g) = Inr (fg_state g))"
proof (cases "rs_create a")
  case True
  with assms(2) have "file_create cb p (rs_scope a) (rs_capacity a) (rs_now a) f = (t, Inr g)"
    by (simp add: file_start_def)
  from file_create_ok [OF this] show ?thesis
    using state_new_wf [OF assms(1)] state_new_inv [of "rs_capacity a" "()"] by (auto simp: guard_ok_def)
next
  case False
  with assms(2) file_open_guard_ok [of cb p "rs_scope a" "rs_capacity a" f t g] show ?thesis
    by (auto simp: file_start_def guard_ok_def dest: state_decode_wf)
qed

lemma keeps_file_start: "keeps (\<lambda>f. nodes f p = Some x) (file_start cb p a)"
  using keeps_file_create keeps_file_open_guard by (simp add: file_start_def)

lemma file_restart_keeps:
  assumes "slot_inv cb p s" "wf_restart a"
  shows "slot_inv cb p (file_restart cb p a s) \<and> (on_states cb p P s \<longrightarrow> on_states cb p P (file_restart cb p a s))"
proof -
  obtain go f where s: "s = (go, f)" by fastforce
  define f1 where "f1 = (case go of None \<Rightarrow> f | Some g \<Rightarrow> file_drop g f)
    \<lparr> pid := rs_pid a, temp_counter := 0, faults := rs_faults a \<rparr>"
  have n: "nodes f1 = nodes f" by (cases go) (simp_all add: f1_def file_drop_def)
  obtain t r where r: "file_start cb p a f1 = (t, r)" by fastforce
  have k: "nodes t p = Some x" if "nodes f p = Some x" for x
    using keepsD [OF keeps_file_start r] that n by simp
  have s'[simp]: "file_restart cb p a s = (case r of Inl _ \<Rightarrow> (None, t) | Inr g \<Rightarrow> (Some g, t))"
    using r by (simp add: file_restart_def s Let_def flip: f1_def)
  show ?thesis
  proof (cases r)
    case (Inl e)
    then have "file_restart cb p a s = (None, t)" by simp
    then show ?thesis using assms(1) k unfolding s by (auto simp: slot_inv_def on_states_def)
  next
    case (Inr g)
    then have r': "file_restart cb p a s = (Some g, t)" by simp
    have g: "guard_ok p g" and d: "\<And>b m k. nodes f p = Some (Regular b m k) \<Longrightarrow> state_decode cb b (fg_capacity g) = Inr (fg_state g)"
      using file_start_good [OF assms(2), of cb p f1 t g] r Inr n by auto
    have "on_states cb p P (Some g, t)" if o: "on_states cb p P s"
    proof -
      from o s obtain b m k where b: "nodes f p = Some (Regular b m k)"
        "\<forall>capacity st. state_decode cb b capacity = Inr st \<longrightarrow> P st" by (auto simp: on_states_def)
      with k d show ?thesis by (simp add: on_states_def)
    qed
    with g assms(1) show ?thesis unfolding r' by (simp add: slot_inv_def)
  qed
qed

lemma file_slot_request:
  "ro_request (file_ops cb) d i rq n x now s = replay_call (file_ops cb) (CallRequest d i rq n x now) s"
  by (simp add: replay_call_def)

lemma file_slot_response:
  "ro_response (file_ops cb) d i h x now s = replay_call (file_ops cb) (CallResponse d i h x now) s"
  by (simp add: replay_call_def)

lemma consumed_request_spends:
  "state_call (CallRequest d i rq n x now) capacity st = (st', Inr ()) \<Longrightarrow> rq' = rq \<or> n' = n \<Longrightarrow> x' \<le> x \<Longrightarrow>
     spent_request rq' n' x' st'"
  by (auto simp: state_call_def state_consume_request_ok spent_request_def committed_def request_clash_def)

lemma consumed_response_spends:
  "state_call (CallResponse d i h x now) capacity st = (st', Inr ()) \<Longrightarrow> x' \<le> x \<Longrightarrow> spent_response h x' st'"
  by (auto simp: state_call_def state_consume_response_ok spent_response_def committed_def response_clash_def)

lemma spent_request_not_called:
  "spent_request rq n x st \<Longrightarrow> state_call (CallRequest d i rq n x now) capacity st \<noteq> (st', Inr ())"
  using spent_request_rejected [of rq n x st] by (simp add: state_call_def) (metis snd_conv)

lemma spent_response_not_called:
  "spent_response h x st \<Longrightarrow> state_call (CallResponse d i h x now) capacity st \<noteq> (st', Inr ())"
  using spent_response_rejected [of h x st] by (simp add: state_call_def) (metis snd_conv)

interpretation durable: restartable_store "file_ops cb" "slot_inv cb p" "slot_spent_request cb p" "slot_spent_response cb p"
    "file_restart cb p" wf_restart for cb p
proof (unfold_locales, goal_cases)
  case (1 s d i rq n x now s' rq' n' x')
  then show ?case using consumed_request_spends unfolding file_slot_request by (intro file_call_spends) blast+
next
  case (2 s d i h x now s' x')
  then show ?case using consumed_response_spends unfolding file_slot_response by (intro file_call_spends) blast+
next
  case (3 s rq n x d i now)
  then show ?case using spent_request_not_called unfolding file_slot_request by (intro file_call_refused) blast+
next
  case (4 s h x d i now)
  then show ?case using spent_response_not_called unfolding file_slot_response by (intro file_call_refused) blast+
next
  case 5
  then show ?case
    using file_call_keeps [OF 5, of "spent_request _ _ _"] file_call_keeps [OF 5, of "spent_response _ _"] state_call_spent
    by blast
next
  case 6
  then show ?case using file_restart_keeps [OF 6] by blast
qed


subsection \<open>Refinement of the state, and orderly restarts\<close>

text \<open>A guard that is not poisoned answers as the state it holds does, unless storage fails.\<close>

lemma file_call_refines:
  assumes "\<not> fg_poisoned g" "replay_call (file_ops cb) c (Some g, f) = (s', r)"
  shows "case state_call c (fg_capacity g) (fg_state g) of
      (_, Inl e) \<Rightarrow> r = Inl e \<and> s' = (Some g, f)
    | (st', Inr _) \<Rightarrow>
        (\<exists>t. r = Inr () \<and> s' = (Some (g\<lparr> fg_state := st' \<rparr>), t) \<and>
          nodes t = (nodes f)(fg_path g \<mapsto> Regular (state_encode cb st') PRIVATE_MODE 0) \<and> locks t = locks f) \<or>
        (\<exists>t. r = Inl ReplayStateError \<and> s' = (Some (g\<lparr> fg_poisoned := True \<rparr>), t) \<and>
          agree (insert (fg_path g) (temps (fg_path g))) f t \<and>
          nodes t (fg_path g) \<in> {nodes f (fg_path g), Some (Regular (state_encode cb st') PRIVATE_MODE 0)})"
proof -
  obtain st' q where q: "state_call c (fg_capacity g) (fg_state g) = (st', q)" by fastforce
  show ?thesis
  proof (cases q)
    case (Inl e)
    with assms q show ?thesis
      by (cases c) (auto simp: replay_call_def state_call_def file_ops_def slot_step_def file_consume_request_def
          file_consume_response_def)
  next
    case (Inr u)
    with assms q have m: "slot_step (commit cb st') (Some g, f) = (s', r)"
      by (cases c) (auto simp: replay_call_def state_call_def file_ops_def slot_step_def file_consume_request_def
          file_consume_response_def)
    obtain t a where a: "atomic_replace (fg_path g) (state_encode cb st') f = (t, a)" by fastforce
    show ?thesis
    proof (cases a)
      case (Inl e)
      with m a assms(1) have "s' = (Some (g\<lparr> fg_poisoned := True \<rparr>), t)" "r = Inl ReplayStateError"
        by (simp_all add: slot_step_def commit_def guard_atomic_replace_def mapErrS_def mapErr_def)
      with atomic_replace_fail [of _ _ f t e] a Inl show ?thesis unfolding q Inr by simp
    next
      case (Inr v)
      with m a assms(1) have "s' = (Some (g\<lparr> fg_state := st' \<rparr>), t)" "r = Inr ()"
        by (simp_all add: slot_step_def commit_def guard_atomic_replace_def mapErrS_def mapErr_def)
      with atomic_replace_ok [of _ _ f t v] a Inr show ?thesis unfolding q \<open>q = Inr u\<close> by simp
    qed
  qed
qed

lemma file_call_poisoned:
  "fg_poisoned g \<Longrightarrow> replay_call (file_ops cb) c (Some g, f) = ((Some g, f), Inl ReplayStateError)"
  by (cases c) (simp_all add: replay_call_def file_ops_def slot_step_def file_consume_request_def file_consume_response_def)

text \<open>Every state a guard can hold fits the size limit it is read back under.\<close>

lemma state_encode_fits:
  assumes "cbor_sized cb" "wf_state st" "state_inv capacity st"
  shows "state_encode cb st \<noteq> []" "length (state_encode cb st) \<le> unat MAX_STATE_BYTES"
proof -
  have "length (e_array cb 6) > 0" by (simp add: cbor_sized.array_len [OF assms(1)] head_len_def)
  then show "state_encode cb st \<noteq> []" by (auto simp: state_encode_def)
  have "length (entries st) \<le> 16384" using assms(3) by (auto simp: state_inv_def)
  with length_state_encode [OF assms] show "length (state_encode cb st) \<le> unat MAX_STATE_BYTES" by simp
qed

definition orderly :: "path \<Rightarrow> fs \<Rightarrow> bool" where
  "orderly p f \<longleftrightarrow> absolute p \<and> (\<exists>d l. parent p = Some d \<and> (\<exists>md. nodes f d = Some (Dir md)) \<and>
     sibling_path p ''.lock'' = Inr l \<and> private_node (nodes f l) \<and> l \<notin> locks f)"

lemma checked_path_run:
  assumes "orderly p f" "faults f = []" shows "checked_path p f = (f, Inr p)"
proof -
  from assms(1) obtain d l md where "absolute p" "parent p = Some d" "nodes f d = Some (Dir md)" "sibling_path p ''.lock'' = Inr l"
    by (auto simp: orderly_def)
  moreover from this(4) obtain n where "file_name p = Some n" by (auto simp: sibling_path_def result_iff)
  ultimately show ?thesis using assms(2)
    by (simp add: checked_path_def bindS_def mapErrS_def metadata_def sys_read_run okOr_def)
qed

lemma file_open_guard_run:
  assumes z: "cbor_sized cb" and o: "orderly p f" "faults f = []"
    and st: "wf_state st" "state_inv capacity st"
    and n: "nodes f p = Some (Regular (state_encode cb st) m k)" "m AND 63 = 0"
  shows "\<exists>t l. file_open_guard cb p (scope st) capacity f =
    (t, Inr \<lparr> fg_path = p, fg_state = st, fg_capacity = capacity, fg_poisoned = False, fg_lock = l \<rparr>)
    \<and> sibling_path p ''.lock'' = Inr l \<and> nodes t = nodes f \<and> faults t = []"
proof -
  from o(1) obtain l where l: "sibling_path p ''.lock'' = Inr l" "private_node (nodes f l)" "l \<notin> locks f"
    by (auto simp: orderly_def)
  have n': "nodes f l = None \<or> private_node (nodes f l)" "nodes f l \<noteq> None" using l(2) by (auto simp: private_node_def)
  obtain t where t: "acquire_lock l f = (t, Inr l)" "faults t = []" "nodes t = nodes f"
    by (rule acquire_lock_run [OF o(2) n'(1) l(3)]) (use n'(2) in simp)
  have r: "read_private_file p MAX_STATE_BYTES t = (t, Inr (state_encode cb st))"
    using read_private_file_run [of t p "state_encode cb st" m k MAX_STATE_BYTES] t n state_encode_fits [OF z st] by simp
  have d: "state_decode cb (state_encode cb st) capacity = Inr st"
    by (rule state_decode_rt [OF cbor_sized.axioms(1) [OF z] st])
  have v: "validate_capacity capacity = Inr ()" using st(2) by (simp add: state_inv_def validate_capacity_def)
  show ?thesis
    using v checked_path_run [OF o] l t r d
    by (simp add: file_open_guard_def bindS_run holding_def guard_acquire_lock_def guard_read_private_file_def
        mapErrS_def bindS_def)
qed


subsection \<open>The lock excludes a second guard\<close>

lemma file_call_locks:
  assumes "replay_call (file_ops cb) c (Some g, f) = (s', r)"
  shows "\<exists>g' t. s' = (Some g', t) \<and> locks t = locks f \<and> fg_lock g' = fg_lock g"
proof (cases "fg_poisoned g")
  case True
  with assms have "s' = (Some g, f)" by (simp add: file_call_poisoned)
  then show ?thesis by blast
next
  case False
  note d = file_call_refines [OF False assms]
  obtain st' q where q: "state_call c (fg_capacity g) (fg_state g) = (st', q)" by fastforce
  show ?thesis using d unfolding q by (cases q) (auto simp: agree_def)
qed

lemma file_calls_locks:
  "replay_calls (file_ops cb) cs (Some g, f) = (s', rs) \<Longrightarrow>
     \<exists>g' t. s' = (Some g', t) \<and> locks t = locks f \<and> fg_lock g' = fg_lock g"
proof (induction cs arbitrary: g f s' rs)
  case (Cons c cs)
  obtain s1 r where c: "replay_call (file_ops cb) c (Some g, f) = (s1, r)" by fastforce
  from file_call_locks [OF this] obtain g1 f1 where 1: "s1 = (Some g1, f1)" "locks f1 = locks f" "fg_lock g1 = fg_lock g"
    by blast
  obtain s2 rs2 where cs: "replay_calls (file_ops cb) cs (Some g1, f1) = (s2, rs2)" by fastforce
  from Cons.IH [OF cs] Cons.prems c cs 1 show ?case by auto
qed simp

lemma file_start_lock:
  assumes "file_start cb p a f = (t, Inr g)"
  shows "sibling_path p ''.lock'' = Inr (fg_lock g) \<and> fg_lock g \<notin> locks f \<and> locks t = insert (fg_lock g) (locks f)"
  using assms file_create_ok [of cb p "rs_scope a" "rs_capacity a" "rs_now a" f t g]
    file_open_guard_ok [of cb p "rs_scope a" "rs_capacity a" f t g]
  by (auto simp: file_start_def split: if_splits)

end
