(* ===== verification/Protocol_Flow.thy ===== *)
theory Protocol_Flow
  imports Replay_File
begin

text \<open>
  The operations of the offline protocol (\<open>crates/core/src/protocol/mod.rs\<close>): signing and
  verifying the two pairing messages, the fingerprint, creating a request on the desktop, verifying
  it on the phone with replay consumption, sealing the response and opening it.
\<close>

subsection \<open>Pairing messages\<close>

definition offer_sign ::
    "('pk, 'sg, 'sk) lib \<Rightarrow> pairing_offer \<Rightarrow> signer \<Rightarrow> (protocol_error, pairing_offer signed_message) result" where
  "offer_sign L p key =
     bindE (label (po_desktop_label p)) (\<lambda>_.
     bindE (sg_public_key key) (\<lambda>own.
     bindE (failIf (own \<noteq> po_desktop_signing_public_key p) InvalidPublicKey) (\<lambda>_.
     bindE (public_key L (po_desktop_selection_public_key p)) (\<lambda>_.
     bindE (failIf (po_desktop_selection_public_key p = po_desktop_signing_public_key p) InvalidPublicKey) (\<lambda>_.
     bindE (sign L key OFFER_SIG (encode_offer L p)) (\<lambda>s.
     Inr \<lparr> payload = p, signature = s \<rparr>))))))"

definition offer_verify :: "('pk, 'sg, 'sk) lib \<Rightarrow> pairing_offer signed_message \<Rightarrow> (protocol_error, unit) result" where
  "offer_verify L m =
     bindE (label (po_desktop_label (payload m))) (\<lambda>_.
     bindE (public_key L (po_desktop_selection_public_key (payload m))) (\<lambda>_.
     bindE (failIf (po_desktop_selection_public_key (payload m) = po_desktop_signing_public_key (payload m))
              InvalidPublicKey) (\<lambda>_.
     bindE (verifying L (po_desktop_signing_public_key (payload m))) (\<lambda>k.
     verify L k OFFER_SIG (encode_offer L (payload m)) (signature m)))))"

definition offer_digest :: "('pk, 'sg, 'sk) lib \<Rightarrow> pairing_offer signed_message \<Rightarrow> bytes" where
  "offer_digest L m = hash L OFFER_DIGEST (signed_offer_encode L m)"

definition pairing_response_sign ::
    "('pk, 'sg, 'sk) lib \<Rightarrow> pairing_response \<Rightarrow> signer \<Rightarrow> (protocol_error, pairing_response signed_message) result" where
  "pairing_response_sign L p key =
     bindE (validate_pairing_response L p) (\<lambda>_.
     bindE (sg_public_key key) (\<lambda>own.
     bindE (failIf (own \<noteq> pr_phone_signing_public_key p) InvalidPublicKey) (\<lambda>_.
     bindE (sign L key PAIRING_SIG (encode_pairing_response L p)) (\<lambda>s.
     Inr \<lparr> payload = p, signature = s \<rparr>))))"

definition pairing_response_verify ::
    "('pk, 'sg, 'sk) lib \<Rightarrow> pairing_response signed_message \<Rightarrow> pairing_offer signed_message \<Rightarrow>
     (protocol_error, unit) result" where
  "pairing_response_verify L m offer =
     bindE (offer_verify L offer) (\<lambda>_.
     bindE (validate_pairing_response L (payload m)) (\<lambda>_.
     bindE (failIf (pr_offer_digest (payload m) \<noteq> offer_digest L offer) BindingMismatch) (\<lambda>_.
     bindE (mapErr (\<lambda>_. InvalidRecipientStanza) (recipient_parse L (pr_recipient (payload m)))) (\<lambda>recipient.
     let identity_public = recipient_public_key_bytes L recipient
     in bindE (failIf (list_ex (\<lambda>key. key = po_desktop_signing_public_key (payload offer) \<or>
                                       key = po_desktop_selection_public_key (payload offer))
                        [identity_public, pr_phone_signing_public_key (payload m)]) InvalidPublicKey) (\<lambda>_.
        bindE (verifying L (pr_phone_signing_public_key (payload m))) (\<lambda>k.
        verify L k PAIRING_SIG (encode_pairing_response L (payload m)) (signature m)))))))"

definition pairing_fingerprint ::
    "('pk, 'sg, 'sk) lib \<Rightarrow> pairing_offer signed_message \<Rightarrow> pairing_response signed_message \<Rightarrow> bytes" where
  "pairing_fingerprint L offer response =
     hash L FINGERPRINT (signed_offer_encode L offer @ signed_pairing_response_encode L response)"

subsection \<open>Requests\<close>

record verified_request =
  vr_signed :: "unwrap_request signed_message"
  vr_digest :: bytes

abbreviation vr_payload :: "verified_request \<Rightarrow> unwrap_request" where
  "vr_payload v \<equiv> payload (vr_signed v)"

definition request_sign ::
    "('pk, 'sg, 'sk) lib \<Rightarrow> unwrap_request \<Rightarrow> signer \<Rightarrow> (protocol_error, unwrap_request signed_message) result" where
  "request_sign L p key =
     bindE (validate_request L p) (\<lambda>_.
     bindE (sign L key REQUEST_SIG (encode_request L p)) (\<lambda>s.
     Inr \<lparr> payload = p, signature = s \<rparr>))"

definition create_request ::
    "('pk, 'sg, 'sk) lib \<Rightarrow> unwrap_request \<Rightarrow> signer \<Rightarrow> pairing_record \<Rightarrow> u64 \<Rightarrow>
     (protocol_error, verified_request) result" where
  "create_request L p signing_key pairing now =
     bindE (failIf (rq_desktop_id p \<noteq> pair_desktop_id pairing) WrongDesktop) (\<lambda>_.
     bindE (failIf (rq_identity_id p \<noteq> pair_identity_id pairing) WrongIdentity) (\<lambda>_.
     bindE (sg_public_key signing_key) (\<lambda>own.
     bindE (failIf (own \<noteq> pair_desktop_signing_public_key pairing) InvalidPublicKey) (\<lambda>_.
     bindE (validate_request_time (rq_expires_at_unix p) now) (\<lambda>_.
     bindE (request_sign L p signing_key) (\<lambda>signed.
     Inr \<lparr> vr_signed = signed, vr_digest = hash L REQUEST_DIGEST (signed_request_encode L signed) \<rparr>))))))"

text \<open>The checks before the replay state is touched, then the consumption.\<close>

definition verify_request_checks ::
    "('pk, 'sg, 'sk) lib \<Rightarrow> unwrap_request signed_message \<Rightarrow> pairing_record \<Rightarrow> u64 \<Rightarrow> (protocol_error, unit) result" where
  "verify_request_checks L request pairing now =
     bindE (validate_request L (payload request)) (\<lambda>_.
     bindE (failIf (rq_desktop_id (payload request) \<noteq> pair_desktop_id pairing) WrongDesktop) (\<lambda>_.
     bindE (failIf (rq_identity_id (payload request) \<noteq> pair_identity_id pairing) WrongIdentity) (\<lambda>_.
     bindE (validate_request_time (rq_expires_at_unix (payload request)) now) (\<lambda>_.
     bindE (verifying L (pair_desktop_signing_public_key pairing)) (\<lambda>k.
     verify L k REQUEST_SIG (encode_request L (payload request)) (signature request))))))"

definition verify_request_with_replay ::
    "('pk, 'sg, 'sk) lib \<Rightarrow> 's replay_ops \<Rightarrow> unwrap_request signed_message \<Rightarrow> pairing_record \<Rightarrow> u64 \<Rightarrow> 's \<Rightarrow>
     's \<times> (protocol_error, verified_request) result" where
  "verify_request_with_replay L R request pairing now s =
     (case verify_request_checks L request pairing now of
        Inl e \<Rightarrow> (s, Inl e)
      | Inr _ \<Rightarrow>
          let digest = hash L REQUEST_DIGEST (signed_request_encode L request)
          in case ro_request R (pair_desktop_id pairing) (pair_identity_id pairing)
                 (rq_request_id (payload request)) (rq_nonce (payload request))
                 (rq_expires_at_unix (payload request)) now s of
               (s', Inl e) \<Rightarrow> (s', Inl e)
             | (s', Inr _) \<Rightarrow> (s', Inr \<lparr> vr_signed = request, vr_digest = digest \<rparr>))"

definition guard_verify_request ::
    "('pk, 'sg, 'sk) lib \<Rightarrow> unwrap_request signed_message \<Rightarrow> pairing_record \<Rightarrow> u64 \<Rightarrow> replay_guard \<Rightarrow>
     replay_guard \<times> (protocol_error, verified_request) result" where
  "guard_verify_request L request pairing now g = verify_request_with_replay L guard_ops request pairing now g"

subsection \<open>Responses\<close>

definition seal_shared ::
    "('pk, 'sg, 'sk) lib \<Rightarrow> verified_request \<Rightarrow> bytes \<Rightarrow> signer \<Rightarrow> 'pk \<Rightarrow> bytes \<Rightarrow> bytes \<Rightarrow>
     (protocol_error, unwrap_response signed_message) result" where
  "seal_shared L request file_key phone_signing phone_public shared nonce =
     (let p = \<lparr> rs_request_id = rq_request_id (vr_payload request), rs_request_digest = vr_digest request,
                rs_identity_id = rq_identity_id (vr_payload request),
                rs_desktop_id = rq_desktop_id (vr_payload request),
                rs_phone_session_public_key = encode_public L phone_public, rs_nonce = nonce,
                rs_encrypted_file_key = replicate 32 0 \<rparr>
      in bindE (session_key L shared (rs_request_digest p) (rs_nonce p)) (\<lambda>key.
         bindE (failIf (\<not> aead_key_ok (sym L) key) KeyDerivation) (\<lambda>_.
         bindE (okOr Decryption (aead_encrypt (sym L) key (replicate 12 0) (response_aad L p) file_key)) (\<lambda>c.
         bindE (failIf (length c \<noteq> 32) Decryption) (\<lambda>_.
         let p = p\<lparr> rs_encrypted_file_key := c \<rparr>
         in bindE (sign L phone_signing RESPONSE_SIG (encode_response L p)) (\<lambda>s.
            Inr \<lparr> payload = p, signature = s \<rparr>))))))"

text \<open>\<open>seal_response\<close> draws the ephemeral secret and then the nonce; both are arguments here, as in
  \<open>seal_response_with_ephemeral\<close>.\<close>

definition seal_response_with_ephemeral ::
    "('pk, 'sg, 'sk) lib \<Rightarrow> verified_request \<Rightarrow> bytes \<Rightarrow> signer \<Rightarrow> 'sk \<Rightarrow> bytes \<Rightarrow>
     (protocol_error, unwrap_response signed_message) result" where
  "seal_response_with_ephemeral L request file_key phone_signing phone_session nonce =
     bindE (public_key L (rq_session_public_key (vr_payload request))) (\<lambda>desktop.
     seal_shared L request file_key phone_signing (sk_public (ec L) phone_session)
       (ecdh (ec L) phone_session desktop) nonce)"

definition seal_response ::
    "('pk, 'sg, 'sk) lib \<Rightarrow> verified_request \<Rightarrow> bytes \<Rightarrow> signer \<Rightarrow> 'sk \<times> bytes \<Rightarrow>
     (protocol_error, unwrap_response signed_message) result" where
  "seal_response L request file_key phone_signing drawn =
     (let (ephemeral, nonce) = drawn; phone_public = sk_public (ec L) ephemeral
      in bindE (public_key L (rq_session_public_key (vr_payload request))) (\<lambda>desktop.
         seal_shared L request file_key phone_signing phone_public (ecdh (ec L) ephemeral desktop) nonce))"

text \<open>Everything \<open>open_response\<close> does before it touches the replay state.\<close>

definition open_response_checks ::
    "('pk, 'sg, 'sk) lib \<Rightarrow> unwrap_response signed_message \<Rightarrow> verified_request \<Rightarrow> pairing_record \<Rightarrow> 'sk \<Rightarrow> u64 \<Rightarrow>
     (protocol_error, bytes) result" where
  "open_response_checks L response request pairing desktop_session now =
     (let p = payload response
      in bindE (validate_request_time (rq_expires_at_unix (vr_payload request)) now) (\<lambda>_.
         bindE (failIf (rs_request_id p \<noteq> rq_request_id (vr_payload request) \<or>
                   rs_request_digest p \<noteq> vr_digest request \<or> rs_identity_id p \<noteq> pair_identity_id pairing \<or>
                   rs_desktop_id p \<noteq> pair_desktop_id pairing) BindingMismatch) (\<lambda>_.
         bindE (verifying L (pair_phone_signing_public_key pairing)) (\<lambda>k.
         bindE (verify L k RESPONSE_SIG (encode_response L p) (signature response)) (\<lambda>_.
         bindE (public_key L (rs_phone_session_public_key p)) (\<lambda>peer.
         bindE (session_key L (ecdh (ec L) desktop_session peer) (rs_request_digest p) (rs_nonce p)) (\<lambda>key.
         bindE (failIf (\<not> aead_key_ok (sym L) key) KeyDerivation) (\<lambda>_.
         bindE (okOr Decryption
                 (aead_decrypt (sym L) key (replicate 12 0) (response_aad L p) (rs_encrypted_file_key p))) (\<lambda>plaintext.
         if length plaintext \<noteq> 16 then Inl Decryption else Inr plaintext)))))))))"

definition open_response ::
    "('pk, 'sg, 'sk) lib \<Rightarrow> 's replay_ops \<Rightarrow> unwrap_response signed_message \<Rightarrow> verified_request \<Rightarrow> pairing_record \<Rightarrow>
     'sk \<Rightarrow> u64 \<Rightarrow> 's \<Rightarrow> 's \<times> (protocol_error, bytes) result" where
  "open_response L R response request pairing desktop_session now s =
     (case open_response_checks L response request pairing desktop_session now of
        Inl e \<Rightarrow> (s, Inl e)
      | Inr file_key \<Rightarrow>
          case ro_response R (pair_desktop_id pairing) (pair_identity_id pairing)
                 (hash L RESPONSE_SIG (signed_response_encode L response))
                 (rq_expires_at_unix (vr_payload request)) now s of
            (s', Inl e) \<Rightarrow> (s', Inl e)
          | (s', Inr _) \<Rightarrow> (s', Inr file_key))"

subsection \<open>What a signer produces is accepted\<close>

context p256_signer
begin

lemma offer_sign_verifies:
  assumes p: "p256_laws (ec L)" and c: "ecdsa_laws (ec L) (sym L)" and s: "offer_sign L v sg = Inr m"
  shows "offer_verify L m = Inr ()" "payload m = v" "length (signature m) = 64"
    "po_desktop_signing_public_key v = pk_compressed (ec L) (sk_public (ec L) key)"
proof -
  from s have l: "length (po_desktop_label v) \<le> 64"
    and k: "po_desktop_signing_public_key v = pk_compressed (ec L) (sk_public (ec L) key)"
    and sel: "\<exists>q. public_key L (po_desktop_selection_public_key v) = Inr q"
    and d: "po_desktop_selection_public_key v \<noteq> po_desktop_signing_public_key v"
    and m: "payload m = v" and g: "sign L sg OFFER_SIG (encode_offer L v) = Inr (signature m)"
    by (auto simp: offer_sign_def result_iff public_key [OF p])
  show "payload m = v" by (rule m)
  show "length (signature m) = 64" by (rule sign_verifies(2) [OF c g])
  show "po_desktop_signing_public_key v = pk_compressed (ec L) (sk_public (ec L) key)" by (rule k)
  show "offer_verify L m = Inr ()"
    using l sel d sign_verifies(1) [OF c g] p by (auto simp: offer_verify_def m k label_def)
qed

lemma request_sign_verifies:
  assumes p: "p256_laws (ec L)" and c: "ecdsa_laws (ec L) (sym L)" and s: "request_sign L v sg = Inr m"
  shows "validate_request L v = Inr ()" "payload m = v" "length (signature m) = 64"
    "verify L (sk_public (ec L) key) REQUEST_SIG (encode_request L v) (signature m) = Inr ()"
  using s sign_verifies [OF c] by (auto simp: request_sign_def result_iff)

lemma created_request_verifies:
  assumes p: "p256_laws (ec L)" and c: "ecdsa_laws (ec L) (sym L)"
    and v: "create_request L req sg pairing now = Inr v"
    and t: "validate_request_time (rq_expires_at_unix req) now' = Inr ()"
  shows "verify_request_checks L (vr_signed v) pairing now' = Inr ()"
    "vr_payload v = req" "vr_digest v = hash L REQUEST_DIGEST (signed_request_encode L (vr_signed v))"
    "validate_request L req = Inr ()" "length (signature (vr_signed v)) = 64"
    "rq_desktop_id req = pair_desktop_id pairing" "rq_identity_id req = pair_identity_id pairing"
proof -
  from v have d: "rq_desktop_id req = pair_desktop_id pairing" and i: "rq_identity_id req = pair_identity_id pairing"
    and k: "pair_desktop_signing_public_key pairing = pk_compressed (ec L) (sk_public (ec L) key)"
    and s: "request_sign L req sg = Inr (vr_signed v)"
    and h: "vr_digest v = hash L REQUEST_DIGEST (signed_request_encode L (vr_signed v))"
    by (auto simp: create_request_def result_iff public_key [OF p])
  note r = request_sign_verifies [OF p c s]
  show "vr_payload v = req" "validate_request L req = Inr ()" "length (signature (vr_signed v)) = 64"
    using r by simp_all
  show "rq_desktop_id req = pair_desktop_id pairing" "rq_identity_id req = pair_identity_id pairing"
    "vr_digest v = hash L REQUEST_DIGEST (signed_request_encode L (vr_signed v))" by (fact d i h)+
  show "verify_request_checks L (vr_signed v) pairing now' = Inr ()"
    using r t d i k p by (simp add: verify_request_checks_def)
qed

text \<open>The response: what the phone seals for a session key, the holder of that key opens.\<close>

lemma sealed_response_opens:
  assumes p: "p256_laws (ec L)" and y: "symmetric_laws (sym L)" and c: "ecdsa_laws (ec L) (sym L)"
    and seal: "seal_response_with_ephemeral L v fk sg e nonce = Inr m" and fk: "length fk = 16"
    and session: "rq_session_public_key (vr_payload v) = encode_public L (sk_public (ec L) session)"
    and pair: "pair_phone_signing_public_key pairing = pk_compressed (ec L) (sk_public (ec L) key)"
      "rq_identity_id (vr_payload v) = pair_identity_id pairing" "rq_desktop_id (vr_payload v) = pair_desktop_id pairing"
    and t: "validate_request_time (rq_expires_at_unix (vr_payload v)) now = Inr ()"
  shows "open_response_checks L m v pairing session now = Inr fk"
    "rs_phone_session_public_key (payload m) = encode_public L (sk_public (ec L) e)"
    "length (rs_encrypted_file_key (payload m)) = 32" "length (signature m) = 64"
    "rs_nonce (payload m) = nonce" "rs_request_id (payload m) = rq_request_id (vr_payload v)"
    "rs_request_digest (payload m) = vr_digest v" "rs_identity_id (payload m) = rq_identity_id (vr_payload v)"
    "rs_desktop_id (payload m) = rq_desktop_id (vr_payload v)"
proof -
  let ?sh = "ecdh (ec L) e (sk_public (ec L) session)"
  let ?p = "\<lparr> rs_request_id = rq_request_id (vr_payload v), rs_request_digest = vr_digest v,
       rs_identity_id = rq_identity_id (vr_payload v), rs_desktop_id = rq_desktop_id (vr_payload v),
       rs_phone_session_public_key = encode_public L (sk_public (ec L) e), rs_nonce = nonce,
       rs_encrypted_file_key = replicate 32 0 \<rparr>"
  have pub: "public_key L (rq_session_public_key (vr_payload v)) = Inr (sk_public (ec L) session)"
    by (simp add: session public_key_iff [OF p])
  obtain k where k: "session_key L ?sh (vr_digest v) nonce = Inr k" and l: "length k = 32"
    by (rule session_key_total [OF y])
  from seal obtain x where x: "aead_encrypt (sym L) k (replicate 12 0) (response_aad L ?p) fk = Some x"
    "length x = 32" and m: "payload m = ?p\<lparr> rs_encrypted_file_key := x \<rparr>"
    and g: "sign L sg RESPONSE_SIG (encode_response L (?p\<lparr> rs_encrypted_file_key := x \<rparr>)) = Inr (signature m)"
    by (auto simp: seal_response_with_ephemeral_def pub seal_shared_def k result_iff Let_def)
  have aad: "response_aad L (payload m) = response_aad L ?p" by (simp add: m response_aad_def)
  have d: "aead_decrypt (sym L) k (replicate 12 0) (response_aad L (payload m)) x = Some fk"
    using encrypt_decrypt [OF y l _ x(1)] by (simp add: aad)
  have peer: "public_key L (encode_public L (sk_public (ec L) e)) = Inr (sk_public (ec L) e)"
    by (simp add: public_key_iff [OF p])
  show "open_response_checks L m v pairing session now = Inr fk"
    using t pair p sign_verifies(1) [OF c g] k key_ok [OF y l] d fk peer
    by (simp add: open_response_checks_def Let_def m ecdh_commute [OF p, of session e])
  show "rs_phone_session_public_key (payload m) = encode_public L (sk_public (ec L) e)"
    "length (rs_encrypted_file_key (payload m)) = 32" "length (signature m) = 64"
    "rs_nonce (payload m) = nonce" "rs_request_id (payload m) = rq_request_id (vr_payload v)"
    "rs_request_digest (payload m) = vr_digest v" "rs_identity_id (payload m) = rq_identity_id (vr_payload v)"
    "rs_desktop_id (payload m) = rq_desktop_id (vr_payload v)"
    using x(2) sign_verifies(2) [OF c g] by (simp_all add: m)
qed

lemma pairing_response_sign_verifies:
  assumes p: "p256_laws (ec L)" and c: "ecdsa_laws (ec L) (sym L)"
    and o: "offer_verify L offer = Inr ()" and s: "pairing_response_sign L v sg = Inr m"
    and d: "pr_offer_digest v = offer_digest L offer"
    and r: "recipient_parse L (pr_recipient v) = Inr r"
    and dis: "{recipient_public_key_bytes L r, pr_phone_signing_public_key v} \<inter>
      {po_desktop_signing_public_key (payload offer), po_desktop_selection_public_key (payload offer)} = {}"
  shows "pairing_response_verify L m offer = Inr ()" "payload m = v" "length (signature m) = 64"
proof -
  from s have val: "validate_pairing_response L v = Inr ()" and m: "payload m = v"
    and k: "pr_phone_signing_public_key v = pk_compressed (ec L) (sk_public (ec L) key)"
    and g: "sign L sg PAIRING_SIG (encode_pairing_response L v) = Inr (signature m)"
    by (auto simp: pairing_response_sign_def result_iff public_key [OF p])
  show "payload m = v" "length (signature m) = 64" using m sign_verifies(2) [OF c g] by simp_all
  have n: "recipient_public_key_bytes L r \<noteq> po_desktop_signing_public_key (payload offer)"
    "recipient_public_key_bytes L r \<noteq> po_desktop_selection_public_key (payload offer)"
    "pk_compressed (ec L) (sk_public (ec L) key) \<noteq> po_desktop_signing_public_key (payload offer)"
    "pk_compressed (ec L) (sk_public (ec L) key) \<noteq> po_desktop_selection_public_key (payload offer)"
    using dis k by auto
  show "pairing_response_verify L m offer = Inr ()"
    using o val d r p sign_verifies(1) [OF c g] n
    by (simp add: pairing_response_verify_def m k Let_def)
qed

end

subsection \<open>Replay protection of the two consuming operations\<close>

lemma verify_request_ok:
  "verify_request_with_replay L R m pairing now s = (s', Inr v) \<longleftrightarrow>
     verify_request_checks L m pairing now = Inr () \<and>
     ro_request R (pair_desktop_id pairing) (pair_identity_id pairing) (rq_request_id (payload m))
       (rq_nonce (payload m)) (rq_expires_at_unix (payload m)) now s = (s', Inr ()) \<and>
     v = \<lparr> vr_signed = m, vr_digest = hash L REQUEST_DIGEST (signed_request_encode L m) \<rparr>"
  by (auto simp: verify_request_with_replay_def Let_def split: sum.splits prod.splits)

lemma open_response_ok:
  "open_response L R m v pairing session now s = (s', Inr fk) \<longleftrightarrow>
     open_response_checks L m v pairing session now = Inr fk \<and>
     ro_response R (pair_desktop_id pairing) (pair_identity_id pairing)
       (hash L RESPONSE_SIG (signed_response_encode L m)) (rq_expires_at_unix (vr_payload v)) now s = (s', Inr ())"
  by (auto simp: open_response_def split: sum.splits prod.splits)

text \<open>A failed check leaves the replay state alone: nothing is consumed for a message that is not
  authentic, not current or not addressed to this pairing.\<close>

lemma verify_request_unchecked:
  "verify_request_checks L m pairing now = Inl e \<Longrightarrow> verify_request_with_replay L R m pairing now s = (s, Inl e)"
  by (simp add: verify_request_with_replay_def)

lemma open_response_unchecked:
  "open_response_checks L m v pairing session now = Inl e \<Longrightarrow> open_response L R m v pairing session now s = (s, Inl e)"
  by (simp add: open_response_def)

text \<open>The calls the two operations make on the store.\<close>

definition request_call :: "pairing_record \<Rightarrow> unwrap_request signed_message \<Rightarrow> u64 \<Rightarrow> replay_call" where
  "request_call pairing m now = CallRequest (pair_desktop_id pairing) (pair_identity_id pairing)
     (rq_request_id (payload m)) (rq_nonce (payload m)) (rq_expires_at_unix (payload m)) now"

definition response_call :: "('pk, 'sg, 'sk) lib \<Rightarrow> pairing_record \<Rightarrow> unwrap_response signed_message \<Rightarrow> verified_request \<Rightarrow> u64 \<Rightarrow> replay_call" where
  "response_call L pairing m v now = CallResponse (pair_desktop_id pairing) (pair_identity_id pairing)
     (hash L RESPONSE_SIG (signed_response_encode L m)) (rq_expires_at_unix (vr_payload v)) now"

lemma verify_request_calls:
  "verify_request_with_replay L R m pairing now s = (s', Inr v) \<Longrightarrow>
     replay_call R (request_call pairing m now) s = (s', Inr ())"
  by (simp add: verify_request_ok request_call_def replay_call_def)

lemma open_response_calls:
  "open_response L R m v pairing session now s = (s', Inr fk) \<Longrightarrow>
     replay_call R (response_call L pairing m v now) s = (s', Inr ())"
  by (simp add: open_response_ok response_call_def replay_call_def)

lemma verify_request_refused:
  "snd (replay_call R (request_call pairing m now) s) \<noteq> Inr () \<Longrightarrow>
     \<not> isOk (snd (verify_request_with_replay L R m pairing now s))"
  using verify_request_calls by (metis isOk_iff prod.collapse snd_conv)

lemma open_response_refused:
  "snd (replay_call R (response_call L pairing m v now) s) \<noteq> Inr () \<Longrightarrow>
     \<not> isOk (snd (open_response L R m v pairing session now s))"
  using open_response_calls by (metis isOk_iff prod.collapse snd_conv)

text \<open>A message that reuses the identifier or the nonce of another and does not outlive it.\<close>

definition reuses :: "unwrap_request \<Rightarrow> unwrap_request \<Rightarrow> bool" where
  "reuses r' r \<longleftrightarrow> (rq_request_id r' = rq_request_id r \<or> rq_nonce r' = rq_nonce r)
     \<and> rq_expires_at_unix r' \<le> rq_expires_at_unix r"

context replay_store
begin

lemma request_never_verified_twice:
  assumes "inv s" "wf_call (request_call pairing m now)" "verify_request_with_replay L R m pairing now s = (s1, Inr v)"
    and "list_all wf_call cs" "replay_calls R cs s1 = (s2, rs)" "reuses (payload m') (payload m)"
  shows "\<not> isOk (snd (verify_request_with_replay L R m' pairing' now' s2))"
  using request_at_most_once [OF assms(1) _ _ assms(4,5)] verify_request_calls [OF assms(3)] assms(2,6)
  by (intro verify_request_refused) (simp add: request_call_def replay_call_def reuses_def)

lemma response_never_opened_twice:
  assumes "inv s" "wf_call (response_call L pairing m v now)" "open_response L R m v pairing session now s = (s1, Inr fk)"
    and "list_all wf_call cs" "replay_calls R cs s1 = (s2, rs)"
    and "rq_expires_at_unix (vr_payload v') \<le> rq_expires_at_unix (vr_payload v)"
  shows "\<not> isOk (snd (open_response L R m v' pairing' session' now' s2))"
  using response_at_most_once [OF assms(1) _ _ assms(4,5,6)] open_response_calls [OF assms(3)] assms(2)
  by (intro open_response_refused) (simp add: response_call_def replay_call_def)

end

context restartable_store
begin

lemma request_never_verified_again:
  assumes "inv s" "wf_call (request_call pairing m now)" "verify_request_with_replay L R m pairing now s = (s1, Inr v)"
    and "list_all (wf_event wfr) es" "reuses (payload m') (payload m)"
  shows "\<not> isOk (snd (verify_request_with_replay L R m' pairing' now' (replay_events R restart es s1)))"
  using request_at_most_once_ever [OF assms(1) _ _ assms(4)] verify_request_calls [OF assms(3)] assms(2,5)
  by (intro verify_request_refused) (simp add: request_call_def replay_call_def reuses_def)

lemma response_never_opened_again:
  assumes "inv s" "wf_call (response_call L pairing m v now)" "open_response L R m v pairing session now s = (s1, Inr fk)"
    and "list_all (wf_event wfr) es" "rq_expires_at_unix (vr_payload v') \<le> rq_expires_at_unix (vr_payload v)"
  shows "\<not> isOk (snd (open_response L R m v' pairing' session' now' (replay_events R restart es s1)))"
  using response_at_most_once_ever [OF assms(1) _ _ assms(4,5)] open_response_calls [OF assms(3)] assms(2)
  by (intro open_response_refused) (simp add: response_call_def replay_call_def)

end

subsection \<open>Sizes: every created message fits its envelope\<close>

lemma header_len:
  assumes "cbor_sized (minicbor L)" shows "length (header L n k) \<le> 36"
  using head_len_bounds(1) [of "unat n"] head_len_bounds(1) [of "unat k"]
    head_len_bounds(1) [of "unat PROTOCOL_VERSION"] head_len_bounds(1) [of "unat ALGORITHM_SUITE"]
  by (simp add: header_def cbor_sized.array_len [OF assms] cbor_sized.u16_len [OF assms])

lemma e_bytes_len_le:
  assumes "cbor_sized (minicbor L)" "length b \<le> n" "n < 2 ^ 64" shows "length (e_bytes (minicbor L) b) \<le> n + 9"
  using cbor_sized.bytes_len [OF assms(1), of b] head_len_bounds(1) [of "length b"] assms(2,3) by simp

lemma e_str_len_le:
  assumes "cbor_sized (minicbor L)" "length b \<le> n" "n < 2 ^ 64" shows "length (e_str (minicbor L) b) \<le> n + 9"
  using cbor_sized.str_len [OF assms(1), of b] head_len_bounds(1) [of "length b"] assms(2,3) by simp

lemma encode_stanza_len:
  assumes z: "cbor_sized (minicbor L)" and w: "wf_stanza v"
  shows "length (encode_stanza L v) \<le> 500"
proof -
  have a: "length (e_array (minicbor L) n) \<le> 9" for n
    by (simp add: cbor_sized.array_len [OF z] head_len_bounds(1))
  have "length (concat (map (e_str (minicbor L)) (st_args v))) \<le> 137 * length (st_args v)"
    using w e_str_len_le [OF z, of _ 128] by (intro length_concat_bound) (simp add: wf_stanza_def)
  moreover have "length (st_args v) \<le> 2" using w by (auto simp: wf_stanza_def)
  ultimately have "length (concat (map (e_str (minicbor L)) (st_args v))) \<le> 274" by linarith
  then show ?thesis
    using a [of 3] a [of "of_nat (length (st_args v))"] w e_str_len_le [OF z, of "st_tag v" 64]
      e_bytes_len_le [OF z, of "st_body v" 32]
    by (simp add: encode_stanza_def wf_stanza_def)
qed

lemma encode_request_len:
  assumes z: "cbor_sized (minicbor L)" and w: "wf_request v"
  shows "length (encode_request L v) \<le> 900"
proof -
  have h: "length (case rq_caller_hint v of Some s \<Rightarrow> e_str (minicbor L) s | None \<Rightarrow> e_null (minicbor L)) \<le> 73"
    using w e_str_len_le [OF z, of _ 64]
    by (auto simp: wf_request_def cbor_sized.null_len [OF z] split: option.splits)
  have s: "length (encode_stanza L (rq_recipient_stanza v)) \<le> 500"
    using w by (intro encode_stanza_len [OF z]) (simp add: wf_request_def)
  have x: "length (e_u64 (minicbor L) (rq_expires_at_unix v)) \<le> 9"
    by (simp add: cbor_sized.u64_len [OF z] head_len_bounds(1))
  show ?thesis
    using h s x w header_len [OF z, of 11 REQUEST] e_bytes_len_le [OF z, of "rq_request_id v" 16]
      e_bytes_len_le [OF z, of "rq_identity_id v" 16] e_bytes_len_le [OF z, of "rq_desktop_id v" 16]
      e_bytes_len_le [OF z, of "rq_session_public_key v" 33] e_bytes_len_le [OF z, of "rq_nonce v" 32]
    by (simp add: encode_request_def wf_request_def)
qed

lemma encode_offer_len:
  assumes z: "cbor_sized (minicbor L)" and w: "wf_offer v"
  shows "length (encode_offer L v) \<le> 400"
  using w header_len [OF z, of 8 OFFER] e_bytes_len_le [OF z, of "po_desktop_id v" 16]
    e_str_len_le [OF z, of "po_desktop_label v" 64] e_bytes_len_le [OF z, of "po_desktop_signing_public_key v" 33]
    e_bytes_len_le [OF z, of "po_desktop_selection_public_key v" 33] e_bytes_len_le [OF z, of "po_nonce v" 32]
  by (simp add: encode_offer_def wf_offer_def)

lemma encode_pairing_response_len:
  assumes z: "cbor_sized (minicbor L)" and w: "wf_pairing_response v"
  shows "length (encode_pairing_response L v) \<le> 500"
  using w header_len [OF z, of 8 PAIRING_RESPONSE] e_bytes_len_le [OF z, of "pr_identity_id v" 16]
    e_str_len_le [OF z, of "pr_recipient v" 160] e_bytes_len_le [OF z, of "pr_phone_signing_public_key v" 33]
    e_bytes_len_le [OF z, of "pr_offer_digest v" 32] e_bytes_len_le [OF z, of "pr_nonce v" 32]
  by (simp add: encode_pairing_response_def wf_pairing_response_def)

lemma encode_response_len:
  assumes z: "cbor_sized (minicbor L)" and w: "wf_response v"
  shows "length (encode_response L v) \<le> 400"
  using w header_len [OF z, of 10 RESPONSE] e_bytes_len_le [OF z, of "rs_request_id v" 16]
    e_bytes_len_le [OF z, of "rs_request_digest v" 32] e_bytes_len_le [OF z, of "rs_identity_id v" 16]
    e_bytes_len_le [OF z, of "rs_desktop_id v" 16] e_bytes_len_le [OF z, of "rs_phone_session_public_key v" 33]
    e_bytes_len_le [OF z, of "rs_nonce v" 32] e_bytes_len_le [OF z, of "rs_encrypted_file_key v" 32]
  by (simp add: encode_response_def wf_response_def)

lemma signed_encode_len:
  assumes z: "cbor_sized (minicbor L)" and "length (enc (payload m)) \<le> 900" "length (signature m) = 64"
  shows "length (signed_encode L enc m) \<le> MAX_SIGNED_MESSAGE_BYTES"
  using e_bytes_len_le [OF z assms(2)] e_bytes_len_le [OF z, of "signature m" 64] assms(3)
    head_len_bounds(1) [of "unat (2 :: u64)"]
  by (simp add: signed_encode_def signed_envelope_def cbor_sized.array_len [OF z])

subsection \<open>Sealing succeeds when the signer does\<close>

lemma seal_total:
  assumes p: "p256_laws (ec L)" and y: "symmetric_laws (sym L)" and fk: "length fk = 16"
    and session: "rq_session_public_key (vr_payload v) = encode_public L q"
    and sg: "\<And>d. \<exists>s. sg_sign_prehash sg d = Inr s"
  shows "\<exists>m. seal_response_with_ephemeral L v fk sg e nonce = Inr m"
proof -
  let ?p = "\<lparr> rs_request_id = rq_request_id (vr_payload v), rs_request_digest = vr_digest v,
       rs_identity_id = rq_identity_id (vr_payload v), rs_desktop_id = rq_desktop_id (vr_payload v),
       rs_phone_session_public_key = encode_public L (sk_public (ec L) e), rs_nonce = nonce,
       rs_encrypted_file_key = replicate 32 0 \<rparr>"
  have pub: "public_key L (rq_session_public_key (vr_payload v)) = Inr q"
    by (simp add: session public_key_iff [OF p])
  obtain k where k: "session_key L (ecdh (ec L) e q) (vr_digest v) nonce = Inr k" and l: "length k = 32"
    by (rule session_key_total [OF y])
  have n: "length (replicate 12 (0 :: byte)) = 12" "length fk < 2 ^ 32" using fk by simp_all
  obtain x where x: "aead_encrypt (sym L) k (replicate 12 0) (response_aad L ?p) fk = Some x" "length x = length fk + 16"
    by (rule aead_obtain [OF y l n])
  obtain s where s: "sign L sg RESPONSE_SIG (encode_response L (?p\<lparr> rs_encrypted_file_key := x \<rparr>)) = Inr s"
    using sg unfolding sign_def by blast
  show ?thesis
    using k key_ok [OF y l] x fk s by (simp add: seal_response_with_ephemeral_def pub seal_shared_def)
qed

lemma seal_response_draws: "seal_response L v fk sg (e, nonce) = seal_response_with_ephemeral L v fk sg e nonce"
  by (simp add: seal_response_def seal_response_with_ephemeral_def Let_def)

subsection \<open>What acceptance means\<close>

text \<open>The phone's checks, as a conjunction: structure, addressing, time and signature.\<close>

lemma verify_request_checks_iff:
  "verify_request_checks L m pairing now = Inr u \<longleftrightarrow>
     validate_request L (payload m) = Inr () \<and> rq_desktop_id (payload m) = pair_desktop_id pairing \<and>
     rq_identity_id (payload m) = pair_identity_id pairing \<and>
     validate_request_time (rq_expires_at_unix (payload m)) now = Inr () \<and>
     (\<exists>k. verifying L (pair_desktop_signing_public_key pairing) = Inr k \<and>
        verify L k REQUEST_SIG (encode_request L (payload m)) (signature m) = Inr ())"
  by (auto simp: verify_request_checks_def bindE_Inr_iff failIf_Inr_iff)

lemma open_response_checks_bound:
  assumes "open_response_checks L m v pairing session now = Inr fk"
  shows "rs_request_id (payload m) = rq_request_id (vr_payload v) \<and> rs_request_digest (payload m) = vr_digest v \<and>
    rs_identity_id (payload m) = pair_identity_id pairing \<and> rs_desktop_id (payload m) = pair_desktop_id pairing \<and>
    validate_request_time (rq_expires_at_unix (vr_payload v)) now = Inr () \<and>
    (\<exists>k. verifying L (pair_phone_signing_public_key pairing) = Inr k \<and>
       verify L k RESPONSE_SIG (encode_response L (payload m)) (signature m) = Inr ()) \<and> length fk = 16"
  using assms by (auto simp: open_response_checks_def Let_def bindE_Inr_iff failIf_Inr_iff if_Inl_iff)

lemma pairing_response_verify_bound:
  assumes "pairing_response_verify L m offer = Inr u"
  shows "offer_verify L offer = Inr () \<and> pr_offer_digest (payload m) = offer_digest L offer \<and>
    (\<exists>r k. recipient_parse L (pr_recipient (payload m)) = Inr r \<and>
       verifying L (pr_phone_signing_public_key (payload m)) = Inr k \<and>
       verify L k PAIRING_SIG (encode_pairing_response L (payload m)) (signature m) = Inr () \<and>
       distinct [po_desktop_signing_public_key (payload offer), po_desktop_selection_public_key (payload offer),
                 recipient_public_key_bytes L r, pr_phone_signing_public_key (payload m)])"
proof -
  from assms obtain r k where o: "offer_verify L offer = Inr ()" and
    v: "validate_pairing_response L (payload m) = Inr ()" and
    d: "pr_offer_digest (payload m) = offer_digest L offer" and
    r: "recipient_parse L (pr_recipient (payload m)) = Inr r" and
    n: "recipient_public_key_bytes L r \<noteq> po_desktop_signing_public_key (payload offer)"
      "recipient_public_key_bytes L r \<noteq> po_desktop_selection_public_key (payload offer)"
      "pr_phone_signing_public_key (payload m) \<noteq> po_desktop_signing_public_key (payload offer)"
      "pr_phone_signing_public_key (payload m) \<noteq> po_desktop_selection_public_key (payload offer)" and
    k: "verifying L (pr_phone_signing_public_key (payload m)) = Inr k"
      "verify L k PAIRING_SIG (encode_pairing_response L (payload m)) (signature m) = Inr ()"
    by (auto simp: pairing_response_verify_def Let_def bindE_Inr_iff failIf_Inr_iff mapErr_Inr_iff)
  from v r have "recipient_public_key_bytes L r \<noteq> pr_phone_signing_public_key (payload m)"
    by (auto simp: validate_pairing_response_def Let_def bindE_Inr_iff mapErr_Inr_iff)
  moreover from o have "po_desktop_selection_public_key (payload offer) \<noteq> po_desktop_signing_public_key (payload offer)"
    by (auto simp: offer_verify_def bindE_Inr_iff failIf_Inr_iff)
  ultimately show ?thesis using o d r k n by auto
qed


subsection \<open>The exchange from end to end\<close>

text \<open>From a created request to the file key on the desktop, over the wire, when the phone can
  unwrap the stanza and sign, and neither replay store refuses.\<close>

lemma exchange_completes:
  assumes "cbor_sized (minicbor L)" "p256_laws (ec L)" "symmetric_laws (sym L)" "ecdsa_laws (ec L) (sym L)"
    and "wf_request req" "create_request L req (signing_key_signer L desktop) pairing now = Inr v"
    and "rq_session_public_key req = encode_public L (sk_public (ec L) session)"
    and "pair_phone_signing_public_key pairing = pk_compressed (ec L) (sk_public (ec L) phone)"
    and "unwrap_file_key L identity (rq_recipient_stanza req) = Inr fk"
    and "validate_request_time (rq_expires_at_unix req) t1 = Inr ()"
    and "validate_request_time (rq_expires_at_unix req) t2 = Inr ()"
    and "ro_request R (pair_desktop_id pairing) (pair_identity_id pairing) (rq_request_id req) (rq_nonce req)
           (rq_expires_at_unix req) t1 s = (s', Inr ())"
    and "length nonce = 32" "\<And>d. \<exists>x. ecdsa_sign_prehash (ec L) phone d = Some x"
    and "\<And>h. \<exists>u'. ro_response R' (pair_desktop_id pairing) (pair_identity_id pairing) h
           (rq_expires_at_unix req) t2 u = (u', Inr ())"
  shows "\<exists>w m u'. signed_request_decode L (signed_request_encode L (vr_signed v)) = Inr w \<and>
    verify_request_with_replay L R w pairing t1 s = (s', Inr v) \<and>
    unwrap_file_key L identity (rq_recipient_stanza (payload w)) = Inr fk \<and>
    seal_response L v fk (signing_key_signer L phone) (e, nonce) = Inr m \<and>
    signed_response_decode L (signed_response_encode L m) = Inr m \<and>
    open_response L R' m v pairing session t2 u = (u', Inr fk)"
proof -
  have c: "cbor_codec (minicbor L)" using assms(1) by (rule cbor_sized.axioms)
  note q = software_signer.created_request_verifies [OF assms(2,4,6,10)]
  have fk: "length fk = 16" using unwrap_validates [OF assms(9)] by simp
  have sg: "\<exists>x. sg_sign_prehash (signing_key_signer L phone) d = Inr x" for d
    using assms(14) [of d] by (auto simp: signing_key_signer_def)
  have ses: "rq_session_public_key (vr_payload v) = encode_public L (sk_public (ec L) session)"
    using q(2) assms(7) by simp
  obtain m where m: "seal_response_with_ephemeral L v fk (signing_key_signer L phone) e nonce = Inr m"
    using seal_total [OF assms(2,3) fk ses sg] by blast
  have t2: "validate_request_time (rq_expires_at_unix (vr_payload v)) t2 = Inr ()" using q(2) assms(11) by simp
  have ids: "rq_identity_id (vr_payload v) = pair_identity_id pairing" "rq_desktop_id (vr_payload v) = pair_desktop_id pairing"
    using q(2,6,7) by simp_all
  note o = software_signer.sealed_response_opens [OF assms(2,3,4) m fk ses assms(8) ids t2]
  have "length (signed_request_encode L (vr_signed v)) \<le> MAX_SIGNED_MESSAGE_BYTES"
    unfolding signed_request_encode_def
    using encode_request_len [OF assms(1,5)] q by (intro signed_encode_len [OF assms(1)]) simp_all
  then have d1: "signed_request_decode L (signed_request_encode L (vr_signed v)) = Inr (vr_signed v)"
    using q assms(5) by (simp add: signed_request_decode_def signed_request_encode_def request_codec.signed_decode_iff [OF c])
  have w: "wf_response (payload m)"
    using o(2,3,5-9) assms(5,13) q(2,3) assms(2,3) by (simp add: wf_response_def wf_request_def)
  have "length (signed_response_encode L m) \<le> MAX_SIGNED_MESSAGE_BYTES"
    unfolding signed_response_encode_def
    using encode_response_len [OF assms(1) w] o(4) by (intro signed_encode_len [OF assms(1)]) simp_all
  then have d2: "signed_response_decode L (signed_response_encode L m) = Inr m"
    using w o(2,4) by (auto simp: signed_response_decode_def signed_response_encode_def
        response_codec.signed_decode_iff [OF c] public_key_iff [OF assms(2)])
  obtain u' where u': "ro_response R' (pair_desktop_id pairing) (pair_identity_id pairing)
      (hash L RESPONSE_SIG (signed_response_encode L m)) (rq_expires_at_unix req) t2 u = (u', Inr ())"
    using assms(15) by blast
  have v: "verify_request_with_replay L R (vr_signed v) pairing t1 s = (s', Inr v)"
    using q(1-3) assms(12) by (simp add: verify_request_ok)
  have "open_response L R' m v pairing session t2 u = (u', Inr fk)"
    using o(1) u' q(2) by (simp add: open_response_ok)
  then show ?thesis
    using d1 d2 v m q(2) assms(9) by (auto simp: seal_response_draws)
qed

text \<open>The two pairing messages, over the wire.\<close>

lemma pairing_completes:
  assumes "cbor_sized (minicbor L)" "p256_laws (ec L)" "ecdsa_laws (ec L) (sym L)"
    and "wf_offer p" "offer_sign L p (signing_key_signer L desktop) = Inr offer"
    and "wf_pairing_response q" "pr_offer_digest q = offer_digest L offer"
    and "recipient_parse L (pr_recipient q) = Inr r"
    and "{recipient_public_key_bytes L r, pr_phone_signing_public_key q} \<inter>
      {po_desktop_signing_public_key p, po_desktop_selection_public_key p} = {}"
    and "pairing_response_sign L q (signing_key_signer L phone) = Inr response"
  shows "signed_offer_decode L (signed_offer_encode L offer) = Inr offer \<and> offer_verify L offer = Inr () \<and>
    signed_pairing_response_decode L (signed_pairing_response_encode L response) = Inr response \<and>
    pairing_response_verify L response offer = Inr ()"
proof -
  have c: "cbor_codec (minicbor L)" using assms(1) by (rule cbor_sized.axioms)
  note o = software_signer.offer_sign_verifies [OF assms(2,3,5)]
  have p: "payload offer = p" by (rule o(2))
  note r = software_signer.pairing_response_sign_verifies [OF assms(2,3) o(1) assms(10,7,8) assms(9) [folded p]]
  have v: "validate_pairing_response L q = Inr ()"
    using assms(10) by (auto simp: pairing_response_sign_def result_iff)
  have "length (signed_offer_encode L offer) \<le> MAX_SIGNED_MESSAGE_BYTES"
    unfolding signed_offer_encode_def
    using encode_offer_len [OF assms(1,4)] o p by (intro signed_encode_len [OF assms(1)]) simp_all
  moreover have "length (signed_pairing_response_encode L response) \<le> MAX_SIGNED_MESSAGE_BYTES"
    unfolding signed_pairing_response_encode_def
    using encode_pairing_response_len [OF assms(1,6)] r by (intro signed_encode_len [OF assms(1)]) simp_all
  ultimately show ?thesis
    using o r assms(4,6) v p
    by (simp add: signed_offer_decode_def signed_offer_encode_def signed_pairing_response_decode_def
        signed_pairing_response_encode_def offer_codec.signed_decode_iff [OF c]
        pairing_response_codec.signed_decode_iff [OF c])
qed

end
