(* ===== verification/Protocol_Properties.thy ===== *)
theory Protocol_Properties
  imports Protocol_Flow Recipient_Properties
begin

text \<open>
  The properties of the protocol module: the wire formats, the pairing and unwrap exchanges from
  end to end, the bindings an accepted message carries and the replay protection, each with a run on
  the reference crates.
\<close>

subsection \<open>Sample messages for the runs\<close>

definition sample_offer :: pairing_offer where
  "sample_offer = \<lparr> po_desktop_id = replicate 16 1, po_desktop_label = ''desk'',
     po_desktop_signing_public_key = toy_compressed 21, po_desktop_selection_public_key = toy_compressed 22,
     po_nonce = replicate 32 4 \<rparr>"

definition sample_request :: "tagged_stanza \<Rightarrow> unwrap_request" where
  "sample_request s = \<lparr> rq_request_id = replicate 16 3, rq_identity_id = replicate 16 2, rq_desktop_id = replicate 16 1,
     rq_session_public_key = toy_compressed 11, rq_recipient_stanza = s, rq_nonce = replicate 32 5,
     rq_expires_at_unix = 1000, rq_caller_hint = Some ''git'' \<rparr>"

definition sample_pairing :: pairing_record where
  "sample_pairing = \<lparr> pair_desktop_id = replicate 16 1, pair_identity_id = replicate 16 2,
     pair_desktop_signing_public_key = toy_compressed 21, pair_desktop_selection_public_key = toy_compressed 22,
     pair_phone_signing_public_key = toy_compressed 31 \<rparr>"

lemma ref_public_key [simp]:
  "encode_public ref_lib k = toy_compressed k" "public_key ref_lib (toy_compressed k) = Inr k"
  by (simp_all add: encode_public_def toy_p256_def) (simp add: public_key_iff [OF ref_laws(5)] encode_public_def toy_p256_def)

lemma length_toy_compressed [simp]: "length (toy_compressed k) = 33"
  by (simp add: toy_compressed_def)

lemma toy_compressed_eq [simp]: "toy_compressed a = toy_compressed b \<longleftrightarrow> a = b"
  by (auto simp: toy_compressed_def)

lemma sample_stanza:
  obtains s where "validate_stanza ref_lib s = Inr ()" "unwrap_file_key ref_lib 5 s = Inr (replicate 16 1)"
proof -
  obtain s where s: "wrap_file_key ref_lib (Recipient (sk_public (ec ref_lib) 5)) (replicate 16 1) 3 = Inr s"
    using wrap_file_key_total [OF ref_laws(5,7), of "replicate 16 1"] by auto
  have "length (replicate 16 (1 :: byte)) = FILE_KEY_BYTES" by simp
  from unwrap_wrap_v1 [OF ref_laws(1,5,7) this s] that show thesis by blast
qed

lemma sample_request_ok:
  assumes "validate_stanza ref_lib s = Inr ()"
  shows "validate_request ref_lib (sample_request s) = Inr ()" "wf_request (sample_request s)"
  using assms validated_stanza_wf [OF ref_laws(1,5) assms]
  by (simp_all add: sample_request_def validate_request_def wf_request_def ascii_utf8_valid is_ascii_def label_def)

lemma ref_sign: "\<exists>x. sg_sign_prehash (signing_key_signer ref_lib k) d = Inr x"
  by (simp add: signing_key_signer_def toy_p256_def)

lemma ref_own_key: "sg_public_key (signing_key_signer ref_lib k) = Inr (toy_compressed k)"
  by (simp add: signing_key_signer_def public_signing_def toy_p256_def)

lemma ref_verifying [simp]: "verifying ref_lib (toy_compressed k) = Inr k"
  by (simp add: verifying_def toy_p256_def)

lemma ref_sk_public [simp]: "sk_public toy_p256 k = k" "pk_compressed toy_p256 k = toy_compressed k"
  by (simp_all add: toy_p256_def)

lemma sample_offer_signed:
  obtains m where "offer_sign ref_lib sample_offer (signing_key_signer ref_lib 21) = Inr m" "payload m = sample_offer"
proof -
  obtain x where "sign ref_lib (signing_key_signer ref_lib 21) OFFER_SIG (encode_offer ref_lib sample_offer) = Inr x"
    using ref_sign unfolding sign_def by blast
  then show thesis
    by (intro that [of "\<lparr> payload = sample_offer, signature = x \<rparr>"])
      (simp_all add: offer_sign_def ref_own_key sample_offer_def label_def)
qed

lemma wf_sample_offer: "wf_offer sample_offer"
  by (simp add: wf_offer_def sample_offer_def ascii_utf8_valid is_ascii_def)

lemma sample_recipient:
  obtains t where "recipient_parse ref_lib t = Inr (Recipient 5)" "utf8_valid t" "length t \<le> 160"
proof -
  obtain t where t: "recipient_to_string ref_lib (Recipient 5) = Inr t"
    using recipient_to_string_total [OF ref_laws(2)] by blast
  have b: "bech32_encode (bech ref_lib) RECIPIENT_HRP
      (to_base32 (bech ref_lib) (PAYLOAD_VERSION # recipient_public_key_bytes ref_lib (Recipient 5))) Bech32 = Some t"
    using t by (simp only: recipient_to_string_def okOr_Inr_iff)
  have "length t = length RECIPIENT_HRP + (8 * 34 + 4) div 5 + 7"
    using bech32_codec.encode_length [OF ref_laws(2) valid_recipient_hrp b]
      bech32_codec.base32_len [OF ref_laws(2), of "PAYLOAD_VERSION # recipient_public_key_bytes ref_lib (Recipient 5)"]
    by (simp add: recipient_public_key_bytes_def p256_rt(4) [OF ref_laws(5)] del: ref_lib_simps)
  moreover have "length RECIPIENT_HRP = 9" by (simp add: RECIPIENT_HRP_def)
  ultimately have "length t \<le> 160" by simp
  with t show thesis
    using recipient_parse_iff_to_string [OF ref_laws(2,5)] bech32_codec.encode_ascii [OF ref_laws(2) valid_recipient_hrp b]
    by (intro that [of t]) (simp_all add: ascii_utf8_valid)
qed

definition sample_response :: "string \<Rightarrow> bytes \<Rightarrow> pairing_response" where
  "sample_response t d = \<lparr> pr_identity_id = replicate 16 2, pr_recipient = t,
     pr_phone_signing_public_key = toy_compressed 31, pr_offer_digest = d, pr_nonce = replicate 32 6 \<rparr>"

lemma sample_response_signed:
  assumes "recipient_parse ref_lib t = Inr (Recipient 5)"
  obtains m where "pairing_response_sign ref_lib (sample_response t d) (signing_key_signer ref_lib 31) = Inr m"
    "payload m = sample_response t d"
proof -
  obtain x where x: "sign ref_lib (signing_key_signer ref_lib 31) PAIRING_SIG
      (encode_pairing_response ref_lib (sample_response t d)) = Inr x"
    using ref_sign unfolding sign_def by blast
  have "validate_pairing_response ref_lib (sample_response t d) = Inr ()"
    using assms by (simp add: validate_pairing_response_def sample_response_def recipient_public_key_bytes_def)
  with x show thesis
    by (intro that [of "\<lparr> payload = sample_response t d, signature = x \<rparr>"])
      (simp_all add: pairing_response_sign_def ref_own_key sample_response_def [of t d])
qed

lemma sample_request_created:
  assumes "validate_stanza ref_lib s = Inr ()"
  obtains v where "create_request ref_lib (sample_request s) (signing_key_signer ref_lib 21) sample_pairing 900 = Inr v"
proof -
  obtain x where x: "sign ref_lib (signing_key_signer ref_lib 21) REQUEST_SIG
      (encode_request ref_lib (sample_request s)) = Inr x"
    using ref_sign unfolding sign_def by blast
  have t: "validate_request_time (rq_expires_at_unix (sample_request s)) 900 = Inr ()"
    by (simp add: validate_request_time_iff sample_request_def)
  show thesis
    using x t sample_request_ok(1) [OF assms]
    by (intro that) (simp add: create_request_def request_sign_def ref_own_key sample_pairing_def
        sample_request_def [of s])
qed

subsection \<open>Wire formats\<close>

lemma signed_request_decode_exact:
  assumes "cbor_codec (minicbor L)"
  shows "signed_request_decode L b = Inr m \<longleftrightarrow>
    b = signed_request_encode L m \<and> wf_request (payload m) \<and> validate_request L (payload m) = Inr () \<and>
    length (signature m) = 64 \<and> length b \<le> MAX_SIGNED_MESSAGE_BYTES"
  using request_codec.signed_decode_iff [OF assms]
  by (simp add: signed_request_decode_def signed_request_encode_def)

lemma signed_response_decode_exact:
  assumes "cbor_codec (minicbor L)" "p256_laws (ec L)"
  shows "signed_response_decode L b = Inr m \<longleftrightarrow>
    b = signed_response_encode L m \<and> wf_response (payload m) \<and>
    (\<exists>k. rs_phone_session_public_key (payload m) = encode_public L k) \<and>
    length (signature m) = 64 \<and> length b \<le> MAX_SIGNED_MESSAGE_BYTES"
  using response_codec.signed_decode_iff [OF assms(1)]
  by (auto simp: signed_response_decode_def signed_response_encode_def public_key_iff [OF assms(2)])

lemma signed_pairing_decode_exact:
  assumes "cbor_codec (minicbor L)"
  shows "(signed_offer_decode L b = Inr m \<longleftrightarrow>
      b = signed_offer_encode L m \<and> wf_offer (payload m) \<and>
      length (signature m) = 64 \<and> length b \<le> MAX_SIGNED_MESSAGE_BYTES) \<and>
    (signed_pairing_response_decode L b = Inr r \<longleftrightarrow>
      b = signed_pairing_response_encode L r \<and> wf_pairing_response (payload r) \<and>
      validate_pairing_response L (payload r) = Inr () \<and>
      length (signature r) = 64 \<and> length b \<le> MAX_SIGNED_MESSAGE_BYTES)"
  using offer_codec.signed_decode_iff [OF assms] pairing_response_codec.signed_decode_iff [OF assms]
  by (simp add: signed_offer_decode_def signed_offer_encode_def signed_pairing_response_decode_def
      signed_pairing_response_encode_def)

text \<open>C21: The decoders of the four signed messages accept exactly the encodings, at most 65536 bytes
  long, of messages whose fields have the right widths: a request must also pass
  \<open>validate_request\<close>, a pairing response its own validation, and the session key of an unwrap response
  must be a canonical point.  Nothing non-canonical, trailing, oversized or invalid is read.\<close>

theorem messages_decode_exact:
  assumes "cbor_codec (minicbor L)" "p256_laws (ec L)"
  shows "(signed_request_decode L b = Inr q \<longleftrightarrow>
      b = signed_request_encode L q \<and> wf_request (payload q) \<and> validate_request L (payload q) = Inr () \<and>
      length (signature q) = 64 \<and> length b \<le> MAX_SIGNED_MESSAGE_BYTES) \<and>
    (signed_response_decode L b = Inr p \<longleftrightarrow>
      b = signed_response_encode L p \<and> wf_response (payload p) \<and>
      (\<exists>k. rs_phone_session_public_key (payload p) = encode_public L k) \<and>
      length (signature p) = 64 \<and> length b \<le> MAX_SIGNED_MESSAGE_BYTES) \<and>
    (signed_offer_decode L b = Inr m \<longleftrightarrow>
      b = signed_offer_encode L m \<and> wf_offer (payload m) \<and>
      length (signature m) = 64 \<and> length b \<le> MAX_SIGNED_MESSAGE_BYTES) \<and>
    (signed_pairing_response_decode L b = Inr r \<longleftrightarrow>
      b = signed_pairing_response_encode L r \<and> wf_pairing_response (payload r) \<and>
      validate_pairing_response L (payload r) = Inr () \<and>
      length (signature r) = 64 \<and> length b \<le> MAX_SIGNED_MESSAGE_BYTES)"
  by (intro conjI signed_request_decode_exact [OF assms(1)] signed_response_decode_exact [OF assms]
      signed_pairing_decode_exact [OF assms(1), THEN conjunct1] signed_pairing_decode_exact [OF assms(1), THEN conjunct2])

theorem messages_decode_exact_witness:
  "(\<exists>m. signed_request_decode ref_lib (signed_request_encode ref_lib m) = Inr m) \<and>
   (\<exists>m. signed_offer_decode ref_lib (signed_offer_encode ref_lib m) = Inr m)"
proof
  obtain s where s: "validate_stanza ref_lib s = Inr ()" by (rule sample_stanza)
  let ?m = "\<lparr> payload = sample_request s, signature = replicate 64 0 \<rparr>"
  have "length (signed_request_encode ref_lib ?m) \<le> MAX_SIGNED_MESSAGE_BYTES"
    unfolding signed_request_encode_def
    by (rule signed_encode_len [OF ref_laws(3)])
      (simp_all add: encode_request_len [OF ref_laws(3) sample_request_ok(2) [OF s]])
  then have "signed_request_decode ref_lib (signed_request_encode ref_lib ?m) = Inr ?m"
    using sample_request_ok [OF s] by (subst messages_decode_exact [OF ref_laws(4,5), THEN conjunct1]) simp
  then show "\<exists>m. signed_request_decode ref_lib (signed_request_encode ref_lib m) = Inr m" ..
next
  let ?m = "\<lparr> payload = sample_offer, signature = replicate 64 0 \<rparr>"
  have w: "wf_offer sample_offer" by (simp add: wf_offer_def sample_offer_def ascii_utf8_valid is_ascii_def)
  have "length (signed_offer_encode ref_lib ?m) \<le> MAX_SIGNED_MESSAGE_BYTES"
    unfolding signed_offer_encode_def
    using encode_offer_len [OF ref_laws(3) w] by (intro signed_encode_len [OF ref_laws(3)]) simp_all
  with w have "signed_offer_decode ref_lib (signed_offer_encode ref_lib ?m) = Inr ?m"
    by (subst messages_decode_exact [OF ref_laws(4,5), THEN conjunct2, THEN conjunct2, THEN conjunct1]) simp
  then show "\<exists>m. signed_offer_decode ref_lib (signed_offer_encode ref_lib m) = Inr m" ..
qed

subsection \<open>Pairing\<close>

text \<open>The pairing exchange works: an offer the desktop signs and a response the phone signs
  over its digest survive the wire, and both signatures and all bindings verify on the other side,
  whenever the four public keys do not collide across the two devices.\<close>

theorem pairing_exchange:
  assumes "cbor_sized (minicbor L)" "p256_laws (ec L)" "ecdsa_laws (ec L) (sym L)"
    and "wf_offer p" "offer_sign L p (signing_key_signer L desktop) = Inr offer"
    and "wf_pairing_response q" "pr_offer_digest q = offer_digest L offer"
    and "recipient_parse L (pr_recipient q) = Inr r"
    and "{recipient_public_key_bytes L r, pr_phone_signing_public_key q} \<inter>
      {po_desktop_signing_public_key p, po_desktop_selection_public_key p} = {}"
    and "pairing_response_sign L q (signing_key_signer L phone) = Inr response"
  shows "signed_offer_decode L (signed_offer_encode L offer) = Inr offer \<and> offer_verify L offer = Inr () \<and>
    signed_pairing_response_decode L (signed_pairing_response_encode L response) = Inr response \<and>
    pairing_response_verify L response offer = Inr ()"
  by (rule pairing_completes [OF assms])

theorem pairing_exchange_witness:
  "\<exists>offer response. signed_offer_decode ref_lib (signed_offer_encode ref_lib offer) = Inr offer \<and>
    offer_verify ref_lib offer = Inr () \<and>
    signed_pairing_response_decode ref_lib (signed_pairing_response_encode ref_lib response) = Inr response \<and>
    pairing_response_verify ref_lib response offer = Inr ()"
proof -
  obtain offer where o: "offer_sign ref_lib sample_offer (signing_key_signer ref_lib 21) = Inr offer"
    by (rule sample_offer_signed)
  obtain t where t: "recipient_parse ref_lib t = Inr (Recipient 5)" "utf8_valid t" "length t \<le> 160"
    by (rule sample_recipient)
  let ?q = "sample_response t (offer_digest ref_lib offer)"
  obtain r where r: "pairing_response_sign ref_lib ?q (signing_key_signer ref_lib 31) = Inr r"
    by (rule sample_response_signed [OF t(1)])
  have w: "wf_pairing_response ?q"
    using t by (simp add: wf_pairing_response_def sample_response_def offer_digest_def length_hash [OF ref_laws(7)] del: ref_lib_simps)
  have p: "recipient_parse ref_lib (pr_recipient ?q) = Inr (Recipient 5)" using t by (simp add: sample_response_def)
  have d: "pr_offer_digest ?q = offer_digest ref_lib offer" by (simp add: sample_response_def)
  have n: "{recipient_public_key_bytes ref_lib (Recipient 5), pr_phone_signing_public_key ?q} \<inter>
      {po_desktop_signing_public_key sample_offer, po_desktop_selection_public_key sample_offer} = {}"
    by (simp add: recipient_public_key_bytes_def sample_response_def sample_offer_def)
  show ?thesis
    using pairing_exchange [OF ref_laws(3,5,6) wf_sample_offer o w d p n r] by blast
qed

text \<open>C22: An accepted pairing response is bound to the offer it answers (its digest), is signed
  by the phone key it names, and the four keys of the pairing are pairwise distinct.\<close>

theorem accepted_pairing_bound:
  assumes "pairing_response_verify L m offer = Inr ()"
  shows "offer_verify L offer = Inr () \<and> pr_offer_digest (payload m) = offer_digest L offer \<and>
    (\<exists>r k. recipient_parse L (pr_recipient (payload m)) = Inr r \<and>
       verifying L (pr_phone_signing_public_key (payload m)) = Inr k \<and>
       verify L k PAIRING_SIG (encode_pairing_response L (payload m)) (signature m) = Inr () \<and>
       distinct [po_desktop_signing_public_key (payload offer), po_desktop_selection_public_key (payload offer),
                 recipient_public_key_bytes L r, pr_phone_signing_public_key (payload m)])"
  by (rule pairing_response_verify_bound [OF assms])

theorem accepted_pairing_bound_witness:
  "\<exists>offer response. pairing_response_verify ref_lib response offer = Inr () \<and>
     pr_offer_digest (payload response) = offer_digest ref_lib offer"
proof -
  obtain offer where o: "offer_sign ref_lib sample_offer (signing_key_signer ref_lib 21) = Inr offer"
    and po: "payload offer = sample_offer" by (rule sample_offer_signed)
  obtain t where t: "recipient_parse ref_lib t = Inr (Recipient 5)" by (rule sample_recipient)
  let ?q = "sample_response t (offer_digest ref_lib offer)"
  obtain r where r: "pairing_response_sign ref_lib ?q (signing_key_signer ref_lib 31) = Inr r"
    by (rule sample_response_signed [OF t])
  have "pairing_response_verify ref_lib r offer = Inr ()"
  proof (rule software_signer.pairing_response_sign_verifies(1) [OF ref_laws(5,6) _ r])
    show "offer_verify ref_lib offer = Inr ()" by (rule software_signer.offer_sign_verifies(1) [OF ref_laws(5,6) o])
    show "recipient_parse ref_lib (pr_recipient ?q) = Inr (Recipient 5)" using t by (simp add: sample_response_def)
  qed (simp_all add: recipient_public_key_bytes_def sample_response_def sample_offer_def po)
  with accepted_pairing_bound [OF this] show ?thesis by blast
qed

subsection \<open>The unwrap exchange\<close>

text \<open>C1: The offline unwrap works from end to end.  The request the desktop creates survives
  the wire and is accepted by the phone's checks and its replay store; the file key the phone obtains
  from the stanza can be sealed for the desktop's session key; the response survives the wire and the
  desktop opens it to the same file key, consuming it in its own replay store.\<close>

theorem offline_unwrap_end_to_end:
  assumes "cbor_sized (minicbor L)" "p256_laws (ec L)" "symmetric_laws (sym L)" "ecdsa_laws (ec L) (sym L)"
    and "wf_request req" "create_request L req (signing_key_signer L desktop) pairing now = Inr v"
    and "rq_session_public_key req = encode_public L (sk_public (ec L) session)"
    and "pair_phone_signing_public_key pairing = pk_compressed (ec L) (sk_public (ec L) phone)"
    and "unwrap_file_key L identity (rq_recipient_stanza req) = Inr fk"
    and "validate_request_time (rq_expires_at_unix req) t1 = Inr ()"
    and "validate_request_time (rq_expires_at_unix req) t2 = Inr ()"
    and "ro_request R (pair_desktop_id pairing) (pair_identity_id pairing) (rq_request_id req) (rq_nonce req)
           (rq_expires_at_unix req) t1 s = (s', Inr ())"
    and "length nonce = 32" "\<And>d. \<exists>x. ecdsa_sign_prehash (ec L) phone d = Some x"
    and "\<And>h. \<exists>u'. ro_response R' (pair_desktop_id pairing) (pair_identity_id pairing) h
           (rq_expires_at_unix req) t2 u = (u', Inr ())"
  shows "\<exists>w m u'. signed_request_decode L (signed_request_encode L (vr_signed v)) = Inr w \<and>
    verify_request_with_replay L R w pairing t1 s = (s', Inr v) \<and>
    unwrap_file_key L identity (rq_recipient_stanza (payload w)) = Inr fk \<and>
    seal_response L v fk (signing_key_signer L phone) (e, nonce) = Inr m \<and>
    signed_response_decode L (signed_response_encode L m) = Inr m \<and>
    open_response L R' m v pairing session t2 u = (u', Inr fk)"
  by (rule exchange_completes [OF assms(1-13)]) (rule assms)+

theorem offline_unwrap_end_to_end_witness:
  "\<exists>v w m g1 g2. signed_request_decode ref_lib (signed_request_encode ref_lib (vr_signed v)) = Inr w \<and>
    verify_request_with_replay ref_lib guard_ops w sample_pairing 950 \<lparr> rg_requests = {}, rg_nonces = {}, rg_responses = {} \<rparr> =
      (g1, Inr v) \<and>
    signed_response_decode ref_lib (signed_response_encode ref_lib m) = Inr m \<and>
    open_response ref_lib guard_ops m v sample_pairing 11 960 \<lparr> rg_requests = {}, rg_nonces = {}, rg_responses = {} \<rparr> =
      (g2, Inr (replicate 16 1))"
proof -
  let ?g = "\<lparr> rg_requests = {}, rg_nonces = {}, rg_responses = {} \<rparr>"
  obtain s where s: "validate_stanza ref_lib s = Inr ()" and u: "unwrap_file_key ref_lib 5 s = Inr (replicate 16 1)"
    by (rule sample_stanza)
  obtain v where v: "create_request ref_lib (sample_request s) (signing_key_signer ref_lib 21) sample_pairing 900 = Inr v"
    by (rule sample_request_created [OF s])
  have st: "rq_recipient_stanza (sample_request s) = s" by (simp add: sample_request_def)
  have t1: "validate_request_time (rq_expires_at_unix (sample_request s)) 950 = Inr ()"
    and t2: "validate_request_time (rq_expires_at_unix (sample_request s)) 960 = Inr ()"
    by (simp_all add: validate_request_time_iff sample_request_def)
  obtain g1 where g1: "ro_request guard_ops (pair_desktop_id sample_pairing) (pair_identity_id sample_pairing)
      (rq_request_id (sample_request s)) (rq_nonce (sample_request s)) (rq_expires_at_unix (sample_request s)) 950 ?g = (g1, Inr ())"
    by (simp add: guard_ops_def guard_consume_request_def)
  have g2: "\<exists>g'. ro_response guard_ops (pair_desktop_id sample_pairing) (pair_identity_id sample_pairing) h
      (rq_expires_at_unix (sample_request s)) 960 ?g = (g', Inr ())" for h
    by (simp add: guard_ops_def guard_consume_response_def)
  have k: "rq_session_public_key (sample_request s) = encode_public ref_lib (sk_public (ec ref_lib) 11)"
    "pair_phone_signing_public_key sample_pairing = pk_compressed (ec ref_lib) (sk_public (ec ref_lib) 31)"
    by (simp_all add: sample_request_def sample_pairing_def)
  have n: "length (replicate 32 (9 :: byte)) = 32" by simp
  have sg: "\<exists>x. ecdsa_sign_prehash (ec ref_lib) 31 d = Some x" for d by (simp add: toy_p256_def)
  have "unwrap_file_key ref_lib 5 (rq_recipient_stanza (sample_request s)) = Inr (replicate 16 1)"
    using u st by simp
  note run = offline_unwrap_end_to_end [where R = guard_ops and s = ?g and R' = guard_ops and u = ?g and e = 12,
      OF ref_laws(3,5,7,6) sample_request_ok(2) [OF s] v k this t1 t2 g1 n]
  have "\<exists>w m u'. signed_request_decode ref_lib (signed_request_encode ref_lib (vr_signed v)) = Inr w \<and>
    verify_request_with_replay ref_lib guard_ops w sample_pairing 950 ?g = (g1, Inr v) \<and>
    unwrap_file_key ref_lib 5 (rq_recipient_stanza (payload w)) = Inr (replicate 16 1) \<and>
    seal_response ref_lib v (replicate 16 1) (signing_key_signer ref_lib 31) (12, replicate 32 9) = Inr m \<and>
    signed_response_decode ref_lib (signed_response_encode ref_lib m) = Inr m \<and>
    open_response ref_lib guard_ops m v sample_pairing 11 960 ?g = (u', Inr (replicate 16 1))"
    by (rule run) (rule sg, rule g2)
  then show ?thesis by blast
qed

subsection \<open>What an accepted message carries\<close>

text \<open>C14: A request the phone accepts is well-formed, addressed to the pairing, within its
  lifetime, signed by the paired desktop, and its identifier and nonce have been consumed; a request
  that fails a check leaves the replay store as it was.\<close>

theorem accepted_request_authentic:
  assumes "verify_request_with_replay L R m pairing now s = (s', res)"
  shows "case res of
      Inr v \<Rightarrow> vr_signed v = m \<and> vr_digest v = hash L REQUEST_DIGEST (signed_request_encode L m) \<and>
        validate_request L (payload m) = Inr () \<and> rq_desktop_id (payload m) = pair_desktop_id pairing \<and>
        rq_identity_id (payload m) = pair_identity_id pairing \<and>
        validate_request_time (rq_expires_at_unix (payload m)) now = Inr () \<and>
        (\<exists>k. verifying L (pair_desktop_signing_public_key pairing) = Inr k \<and>
           verify L k REQUEST_SIG (encode_request L (payload m)) (signature m) = Inr ()) \<and>
        ro_request R (pair_desktop_id pairing) (pair_identity_id pairing) (rq_request_id (payload m))
          (rq_nonce (payload m)) (rq_expires_at_unix (payload m)) now s = (s', Inr ())
    | Inl e \<Rightarrow> verify_request_checks L m pairing now = Inl e \<and> s' = s \<or>
        verify_request_checks L m pairing now = Inr () \<and>
        ro_request R (pair_desktop_id pairing) (pair_identity_id pairing) (rq_request_id (payload m))
          (rq_nonce (payload m)) (rq_expires_at_unix (payload m)) now s = (s', Inl e)"
proof (cases res)
  case (Inl e)
  with assms show ?thesis
    by (auto simp: verify_request_with_replay_def Let_def split: sum.splits prod.splits)
next
  case (Inr v)
  with assms have "verify_request_with_replay L R m pairing now s = (s', Inr v)" by simp
  then show ?thesis unfolding Inr verify_request_ok verify_request_checks_iff by simp
qed

theorem accepted_request_authentic_witness:
  "\<exists>s v g. verify_request_with_replay ref_lib guard_ops (vr_signed v) sample_pairing 950
      \<lparr> rg_requests = {}, rg_nonces = {}, rg_responses = {} \<rparr> = (g, Inr v) \<and>
    validate_request ref_lib (payload (vr_signed v)) = Inr () \<and> vr_payload v = sample_request s"
proof -
  let ?g = "\<lparr> rg_requests = {}, rg_nonces = {}, rg_responses = {} \<rparr>"
  obtain s where s: "validate_stanza ref_lib s = Inr ()" by (rule sample_stanza)
  obtain v where v: "create_request ref_lib (sample_request s) (signing_key_signer ref_lib 21) sample_pairing 900 = Inr v"
    by (rule sample_request_created [OF s])
  have t: "validate_request_time (rq_expires_at_unix (sample_request s)) 950 = Inr ()"
    by (simp add: validate_request_time_iff sample_request_def)
  note c = software_signer.created_request_verifies [OF ref_laws(5,6) v t]
  obtain g where g: "ro_request guard_ops (pair_desktop_id sample_pairing) (pair_identity_id sample_pairing)
      (rq_request_id (sample_request s)) (rq_nonce (sample_request s)) (rq_expires_at_unix (sample_request s)) 950 ?g = (g, Inr ())"
    by (simp add: guard_ops_def guard_consume_request_def)
  have r: "verify_request_with_replay ref_lib guard_ops (vr_signed v) sample_pairing 950 ?g = (g, Inr v)"
    unfolding verify_request_ok using c g by simp
  have "validate_request ref_lib (payload (vr_signed v)) = Inr ()"
    using accepted_request_authentic [OF r] by simp
  with r c(2) show ?thesis by blast
qed

lemma sample_sealed:
  obtains m v where "open_response_checks ref_lib m v sample_pairing 11 960 = Inr (replicate 16 1)"
    "rq_expires_at_unix (vr_payload v) = 1000"
proof -
  obtain s where s: "validate_stanza ref_lib s = Inr ()" by (rule sample_stanza)
  obtain v where v: "create_request ref_lib (sample_request s) (signing_key_signer ref_lib 21) sample_pairing 900 = Inr v"
    by (rule sample_request_created [OF s])
  have t: "validate_request_time (rq_expires_at_unix (sample_request s)) 960 = Inr ()"
    by (simp add: validate_request_time_iff sample_request_def)
  note c = software_signer.created_request_verifies [OF ref_laws(5,6) v t]
  have ses: "rq_session_public_key (vr_payload v) = encode_public ref_lib (sk_public (ec ref_lib) 11)"
    unfolding c(2) by (simp add: sample_request_def)
  have fk: "length (replicate 16 (1 :: byte)) = 16" by simp
  obtain m where m: "seal_response_with_ephemeral ref_lib v (replicate 16 1) (signing_key_signer ref_lib 31) 12 (replicate 32 9) = Inr m"
    using seal_total [OF ref_laws(5,7) fk ses ref_sign] by blast
  have ph: "pair_phone_signing_public_key sample_pairing = pk_compressed (ec ref_lib) (sk_public (ec ref_lib) 31)"
    by (simp add: sample_pairing_def)
  have "open_response_checks ref_lib m v sample_pairing 11 960 = Inr (replicate 16 1)"
    by (rule software_signer.sealed_response_opens(1) [OF ref_laws(5,7,6) m fk ses ph]) (use c t in simp_all)
  moreover have "rq_expires_at_unix (vr_payload v) = 1000" unfolding c(2) by (simp add: sample_request_def)
  ultimately show thesis by (rule that)
qed

text \<open>C15: A response the desktop opens is bound to the request it created and to the pairing,
  within the request's lifetime and signed by the paired phone; the file key is handed out only
  after its digest was consumed, and has 16 bytes.\<close>

theorem opened_response_bound:
  assumes "open_response L R m v pairing session now s = (s', Inr fk)"
  shows "rs_request_id (payload m) = rq_request_id (vr_payload v) \<and> rs_request_digest (payload m) = vr_digest v \<and>
    rs_identity_id (payload m) = pair_identity_id pairing \<and> rs_desktop_id (payload m) = pair_desktop_id pairing \<and>
    validate_request_time (rq_expires_at_unix (vr_payload v)) now = Inr () \<and>
    (\<exists>k. verifying L (pair_phone_signing_public_key pairing) = Inr k \<and>
       verify L k RESPONSE_SIG (encode_response L (payload m)) (signature m) = Inr ()) \<and>
    ro_response R (pair_desktop_id pairing) (pair_identity_id pairing)
      (hash L RESPONSE_SIG (signed_response_encode L m)) (rq_expires_at_unix (vr_payload v)) now s = (s', Inr ()) \<and>
    length fk = 16"
proof -
  from assms have "open_response_checks L m v pairing session now = Inr fk" "ro_response R (pair_desktop_id pairing)
      (pair_identity_id pairing) (hash L RESPONSE_SIG (signed_response_encode L m))
      (rq_expires_at_unix (vr_payload v)) now s = (s', Inr ())" by (simp_all only: open_response_ok)
  with open_response_checks_bound [OF this(1)] show ?thesis by blast
qed

theorem opened_response_bound_witness:
  "\<exists>m v g. open_response ref_lib guard_ops m v sample_pairing 11 960
      \<lparr> rg_requests = {}, rg_nonces = {}, rg_responses = {} \<rparr> = (g, Inr (replicate 16 1)) \<and>
    rs_request_digest (payload m) = vr_digest v"
proof -
  let ?g = "\<lparr> rg_requests = {}, rg_nonces = {}, rg_responses = {} \<rparr>"
  obtain m v where "open_response_checks ref_lib m v sample_pairing 11 960 = Inr (replicate 16 1)" by (rule sample_sealed)
  moreover obtain g where "ro_response guard_ops (pair_desktop_id sample_pairing) (pair_identity_id sample_pairing)
      (hash ref_lib RESPONSE_SIG (signed_response_encode ref_lib m)) (rq_expires_at_unix (vr_payload v)) 960 ?g = (g, Inr ())"
    by (simp add: guard_ops_def guard_consume_response_def)
  ultimately have o: "open_response ref_lib guard_ops m v sample_pairing 11 960 ?g = (g, Inr (replicate 16 1))"
    by (simp only: open_response_ok)
  with opened_response_bound [OF o] show ?thesis by blast
qed

text \<open>The inputs of all signatures and digests are separated by their domain: equal inputs
  have equal domains and equal payloads, so no message can be taken for one of another kind.\<close>

theorem domains_separated:
  assumes "d \<in> set signature_domains" "d' \<in> set signature_domains"
    and "domain_input d p = domain_input d' p'"
  shows "d = d' \<and> p = p'"
  by (rule domain_input_inj [OF assms])

theorem domains_separated_witness:
  "domain_input OFFER_SIG [1] \<noteq> domain_input REQUEST_SIG [1]"
proof
  assume "domain_input OFFER_SIG [1] = domain_input REQUEST_SIG [1]"
  from domains_separated [OF _ _ this] have "OFFER_SIG = REQUEST_SIG" by (simp add: signature_domains_def)
  then show False by (simp add: OFFER_SIG_def REQUEST_SIG_def)
qed

text \<open>A fresh expiry neither wraps nor exceeds the protocol time: it is exactly 300 seconds
  ahead, refused where the portable range ends, and a request carrying it is current at every clock
  from now until then and at no other portable time.\<close>

theorem request_expiry_window:
  "(request_expiry now = Inr e \<longleftrightarrow> unat now + 300 < 2 ^ 63 \<and> unat e = unat now + 300) \<and>
   (request_expiry now = Inr e \<longrightarrow>
     (validate_request_time e t = Inr () \<longleftrightarrow> unat now \<le> unat t \<and> unat t \<le> unat e))"
  by (auto simp: request_expiry_iff validate_request_time_iff)

theorem request_expiry_window_witness:
  "validate_request_time 1300 1200 = Inr ()"
proof -
  have "request_expiry 1000 = Inr 1300" by (simp add: request_expiry_iff)
  then show ?thesis using request_expiry_window [of 1000 1300 1200] by simp
qed

end
