(* ===== verification/Qr_Transfer.thy ===== *)
theory Qr_Transfer
  imports External
begin

text \<open>
  QR transfers (\<open>crates/core/src/protocol/qr.rs\<close>): splitting a message into text frames, the
  strict frame codec and the reassembler, a state machine that is fed one scanned text and one clock
  reading at a time.
\<close>

subsection \<open>Data and limits\<close>

definition TEXT_PREFIX :: string where "TEXT_PREFIX = ''age-phone:qr1:''"
definition FRAME_VERSION :: u16 where "FRAME_VERSION = 1"
definition FRAME_TYPE :: u16 where "FRAME_TYPE = 1"
definition TRANSFER_ID_BYTES :: nat where [simp]: "TRANSFER_ID_BYTES = 16"
definition DIGEST_BYTES :: nat where [simp]: "DIGEST_BYTES = 32"
definition MAX_ENCODED_FRAME_CHARS :: nat where [simp]: "MAX_ENCODED_FRAME_CHARS = 2048"
definition MESSAGE_DIGEST_DOMAIN :: bytes where
  "MESSAGE_DIGEST_DOMAIN = str_bytes ''age-plugin-phone/qr-message-digest/v1''"
definition DEFAULT_QR_CHUNK_BYTES :: nat where [simp]: "DEFAULT_QR_CHUNK_BYTES = 600"
definition MAX_QR_MESSAGE_BYTES :: nat where [simp]: "MAX_QR_MESSAGE_BYTES = 65536"
definition MAX_QR_FRAGMENTS :: nat where [simp]: "MAX_QR_FRAGMENTS = 128"
definition MAX_QR_ASSEMBLY_AGE_MS :: u64 where [simp]: "MAX_QR_ASSEMBLY_AGE_MS = 30000"

datatype qr_error =
    MessageSize | ChunkSize | TooManyFragments | MalformedFrame | UnsupportedVersion_Q | UnsupportedType
  | DifferentTransfer | ConflictingFragment | Timeout_Q | ClockRollback_Q | DigestMismatch | Poisoned

datatype qr_status = InProgress nat nat | Complete bytes

record frame =
  fr_transfer_id :: bytes
  fr_digest :: bytes
  fr_index :: u16
  fr_count :: u16
  fr_total_len :: nat
  fr_chunk :: bytes

record active_assembly =
  aa_transfer_id :: bytes
  aa_digest :: bytes
  aa_count :: u16
  aa_total_len :: nat
  aa_started_at_ms :: u64
  aa_chunks :: "bytes option list"
  aa_received :: nat
  aa_received_bytes :: nat

record qr_reassembler =
  qr_active :: "active_assembly option"
  qr_poisoned :: bool

definition message_digest :: "symmetric \<Rightarrow> bytes \<Rightarrow> bytes" where
  "message_digest y message = sha256 y (MESSAGE_DIGEST_DOMAIN @ [0] @ message)"

subsection \<open>Frames\<close>

definition encode_cbor :: "cbor \<Rightarrow> frame \<Rightarrow> (qr_error, bytes) result" where
  "encode_cbor cb f =
     bindE (failIf (fr_total_len f \<ge> 2 ^ 32) MessageSize) (\<lambda>_.
     Inr (e_array cb 8 @ e_u16 cb FRAME_VERSION @ e_u16 cb FRAME_TYPE @ e_bytes cb (fr_transfer_id f) @
          e_bytes cb (fr_digest f) @ e_u16 cb (fr_index f) @ e_u16 cb (fr_count f) @
          e_u32 cb (of_nat (fr_total_len f)) @ e_bytes cb (fr_chunk f)))"

definition encode_text :: "('pk, 'sg, 'sk) lib \<Rightarrow> frame \<Rightarrow> (qr_error, string) result" where
  "encode_text L f =
     bindE (encode_cbor (minicbor L) f) (\<lambda>encoded.
     let text = TEXT_PREFIX @ b64_encode (url64 L) encoded
     in if length text > MAX_ENCODED_FRAME_CHARS then Inl ChunkSize else Inr text)"

definition fixed_bytes :: "cbor \<Rightarrow> nat \<Rightarrow> bytes \<Rightarrow> (qr_error, bytes \<times> bytes) result" where
  "fixed_bytes cb n d =
     bindE (okOr MalformedFrame (d_bytes cb d)) (\<lambda>(v, d).
     if length v = n then Inr (v, d) else Inl MalformedFrame)"

definition decode_cbor :: "cbor \<Rightarrow> bytes \<Rightarrow> (qr_error, frame) result" where
  "decode_cbor cb encoded =
     bindE (okOr MalformedFrame (d_array cb encoded)) (\<lambda>(len, d).
     bindE (failIf (len \<noteq> Some 8) MalformedFrame) (\<lambda>_.
     bindE (okOr MalformedFrame (d_u16 cb d)) (\<lambda>(version, d).
     bindE (failIf (version \<noteq> FRAME_VERSION) UnsupportedVersion_Q) (\<lambda>_.
     bindE (okOr MalformedFrame (d_u16 cb d)) (\<lambda>(frame_type, d).
     bindE (failIf (frame_type \<noteq> FRAME_TYPE) UnsupportedType) (\<lambda>_.
     bindE (fixed_bytes cb TRANSFER_ID_BYTES d) (\<lambda>(transfer_id, d).
     bindE (fixed_bytes cb DIGEST_BYTES d) (\<lambda>(digest, d).
     bindE (okOr MalformedFrame (d_u16 cb d)) (\<lambda>(index, d).
     bindE (okOr MalformedFrame (d_u16 cb d)) (\<lambda>(count, d).
     bindE (okOr MalformedFrame (d_u32 cb d)) (\<lambda>(total, d).
     bindE (okOr MalformedFrame (d_bytes cb d)) (\<lambda>(chunk, d).
     let total_len = unat total
     in bindE (failIf (d \<noteq> [] \<or> count = 0 \<or> unat count > MAX_QR_FRAGMENTS \<or> index \<ge> count \<or>
                 \<not> (1 \<le> total_len \<and> total_len \<le> MAX_QR_MESSAGE_BYTES) \<or> chunk = [] \<or>
                 length chunk > DEFAULT_QR_CHUNK_BYTES \<or> length chunk > total_len) MalformedFrame) (\<lambda>_.
        let f = \<lparr> fr_transfer_id = transfer_id, fr_digest = digest, fr_index = index, fr_count = count,
                  fr_total_len = total_len, fr_chunk = chunk \<rparr>
        in bindE (encode_cbor cb f) (\<lambda>again.
           if again \<noteq> encoded then Inl MalformedFrame else Inr f))))))))))))))"

definition decode_text :: "('pk, 'sg, 'sk) lib \<Rightarrow> string \<Rightarrow> (qr_error, frame) result" where
  "decode_text L text =
     bindE (failIf (length text > MAX_ENCODED_FRAME_CHARS \<or> \<not> starts_with text TEXT_PREFIX) MalformedFrame) (\<lambda>_.
     let p = drop (length TEXT_PREFIX) text
     in bindE (failIf (p = [] \<or> CHR ''='' \<in> set p) MalformedFrame) (\<lambda>_.
        bindE (okOr MalformedFrame (b64_decode (url64 L) p)) (\<lambda>decoded.
        bindE (failIf (b64_encode (url64 L) decoded \<noteq> p) MalformedFrame) (\<lambda>_.
        decode_cbor (minicbor L) decoded))))"

subsection \<open>Splitting a message\<close>

text \<open>\<open>slice::chunks(n)\<close> for a positive \<open>n\<close>.\<close>

function chunks :: "nat \<Rightarrow> 'a list \<Rightarrow> 'a list list" where
  "chunks n xs = (if n = 0 \<or> xs = [] then [] else take n xs # chunks n (drop n xs))"
  by auto
termination by (relation "measure (\<lambda>(n, xs). length xs)") auto

declare chunks.simps [simp del]

definition div_ceil :: "nat \<Rightarrow> nat \<Rightarrow> nat" where
  "div_ceil a b = (a + b - 1) div b"

text \<open>The transfer identifier is drawn after the size checks; here it is an argument.\<close>

definition fragment_qr_message ::
    "('pk, 'sg, 'sk) lib \<Rightarrow> bytes \<Rightarrow> nat \<Rightarrow> bytes \<Rightarrow> (qr_error, string list) result" where
  "fragment_qr_message L message chunk_bytes transfer_id =
     bindE (failIf (message = [] \<or> length message > MAX_QR_MESSAGE_BYTES) MessageSize) (\<lambda>_.
     bindE (failIf (\<not> (1 \<le> chunk_bytes \<and> chunk_bytes \<le> DEFAULT_QR_CHUNK_BYTES)) ChunkSize) (\<lambda>_.
     let fragment_count = div_ceil (length message) chunk_bytes
     in bindE (failIf (fragment_count > MAX_QR_FRAGMENTS) TooManyFragments) (\<lambda>_.
        traverseE (\<lambda>(index, chunk).
          bindE (failIf (index \<ge> 2 ^ 16 \<or> fragment_count \<ge> 2 ^ 16) TooManyFragments) (\<lambda>_.
          encode_text L \<lparr> fr_transfer_id = transfer_id, fr_digest = message_digest (sym L) message,
            fr_index = of_nat index, fr_count = of_nat fragment_count, fr_total_len = length message,
            fr_chunk = chunk \<rparr>))
          (enumerate 0 (chunks chunk_bytes message)))))"

subsection \<open>Reassembly\<close>

definition active_new :: "frame \<Rightarrow> u64 \<Rightarrow> active_assembly" where
  "active_new f now = \<lparr> aa_transfer_id = fr_transfer_id f, aa_digest = fr_digest f, aa_count = fr_count f,
     aa_total_len = fr_total_len f, aa_started_at_ms = now, aa_chunks = replicate (unat (fr_count f)) None,
     aa_received = 0, aa_received_bytes = 0 \<rparr>"

definition assemble :: "symmetric \<Rightarrow> active_assembly \<Rightarrow> (qr_error, bytes) result" where
  "assemble y a =
     bindE (traverseE (okOr MalformedFrame) (aa_chunks a)) (\<lambda>cs.
     bindE (failIf (cs = []) MalformedFrame) (\<lambda>_.
     let chunk_size = length (hd cs)
     in bindE (failIf (chunk_size = 0 \<or> list_ex (\<lambda>c. length c \<noteq> chunk_size) (take (length cs - 1) cs) \<or>
                 last cs = [] \<or> length (last cs) > chunk_size) MalformedFrame) (\<lambda>_.
        let message = concat cs
        in bindE (failIf (length message \<noteq> aa_total_len a) MalformedFrame) (\<lambda>_.
           if message_digest y message \<noteq> aa_digest a then Inl DigestMismatch else Inr message))))"

text \<open>\<open>slot = &mut active.chunks[index]\<close> and what \<open>push\<close> does with it: an equal duplicate changes
  nothing, a conflicting one and a surplus of bytes poison the assembly.\<close>

definition store_chunk :: "frame \<Rightarrow> active_assembly \<Rightarrow> (qr_error, active_assembly) result" where
  "store_chunk f a =
     (case aa_chunks a ! unat (fr_index f) of
        Some existing \<Rightarrow> if existing \<noteq> fr_chunk f then Inl ConflictingFragment else Inr a
      | None \<Rightarrow>
          if aa_received_bytes a + length (fr_chunk f) \<ge> 2 ^ 64 then Inl MalformedFrame
          else if aa_received_bytes a + length (fr_chunk f) > aa_total_len a then Inl MalformedFrame
          else Inr (a\<lparr> aa_received_bytes := aa_received_bytes a + length (fr_chunk f),
                       aa_chunks := (aa_chunks a)[unat (fr_index f) := Some (fr_chunk f)],
                       aa_received := aa_received a + 1 \<rparr>))"

definition poison :: "qr_reassembler" where
  "poison = \<lparr> qr_active = None, qr_poisoned = True \<rparr>"

definition qr_push ::
    "('pk, 'sg, 'sk) lib \<Rightarrow> string \<Rightarrow> u64 \<Rightarrow> qr_reassembler \<Rightarrow> qr_reassembler \<times> (qr_error, qr_status) result" where
  "qr_push L encoded now q =
     (if qr_poisoned q then (q, Inl Poisoned)
      else case decode_text L encoded of
        Inl e \<Rightarrow> (q, Inl e)
      | Inr f \<Rightarrow>
          let a = (case qr_active q of Some a \<Rightarrow> a | None \<Rightarrow> active_new f now);
              q = q\<lparr> qr_active := Some a \<rparr>
          in if now < aa_started_at_ms a then (poison, Inl ClockRollback_Q)
             else if now - aa_started_at_ms a > MAX_QR_ASSEMBLY_AGE_MS then (poison, Inl Timeout_Q)
             else if fr_transfer_id f \<noteq> aa_transfer_id a \<or> fr_digest f \<noteq> aa_digest a \<or>
                     fr_count f \<noteq> aa_count a \<or> fr_total_len f \<noteq> aa_total_len a
               then (q, Inl DifferentTransfer)
             else case store_chunk f a of
               Inl e \<Rightarrow> (poison, Inl e)
             | Inr a \<Rightarrow>
                 if aa_received a \<noteq> unat (aa_count a)
                   then (q\<lparr> qr_active := Some a \<rparr>, Inr (InProgress (aa_received a) (unat (aa_count a))))
                 else case assemble (sym L) a of
                   Inl e \<Rightarrow> (poison, Inl e)
                 | Inr message \<Rightarrow> (q\<lparr> qr_active := None \<rparr>, Inr (Complete message)))"

definition qr_new :: qr_reassembler where
  "qr_new = \<lparr> qr_active = None, qr_poisoned = False \<rparr>"

definition qr_reset :: "qr_reassembler \<Rightarrow> qr_reassembler" where
  "qr_reset q = \<lparr> qr_active = None, qr_poisoned = False \<rparr>"

text \<open>A scan: one text and one clock reading after another.\<close>

fun qr_pushes ::
    "('pk, 'sg, 'sk) lib \<Rightarrow> (string \<times> u64) list \<Rightarrow> qr_reassembler \<Rightarrow>
     qr_reassembler \<times> (qr_error, qr_status) result list" where
  "qr_pushes L [] q = (q, [])"
| "qr_pushes L ((s, t) # ss) q =
     (let (q1, r) = qr_push L s t q; (q2, rs) = qr_pushes L ss q1 in (q2, r # rs))"

subsection \<open>The frame codec\<close>

definition wf_frame :: "frame \<Rightarrow> bool" where
  "wf_frame f \<longleftrightarrow> length (fr_transfer_id f) = TRANSFER_ID_BYTES \<and> length (fr_digest f) = DIGEST_BYTES \<and>
     unat (fr_count f) \<le> MAX_QR_FRAGMENTS \<and> unat (fr_index f) < unat (fr_count f) \<and>
     1 \<le> fr_total_len f \<and> fr_total_len f \<le> MAX_QR_MESSAGE_BYTES \<and> fr_chunk f \<noteq> [] \<and>
     length (fr_chunk f) \<le> DEFAULT_QR_CHUNK_BYTES \<and> length (fr_chunk f) \<le> fr_total_len f"

lemma wf_frameD:
  assumes "wf_frame f"
  shows "length (fr_transfer_id f) = 16" "length (fr_digest f) = 32" "unat (fr_count f) \<le> 128"
    "unat (fr_index f) < unat (fr_count f)" "1 \<le> fr_total_len f" "fr_total_len f \<le> 65536" "fr_chunk f \<noteq> []"
    "length (fr_chunk f) \<le> 600" "length (fr_chunk f) \<le> fr_total_len f"
  using assms by (simp_all add: wf_frame_def)

lemma fixed_bytes_rt:
  assumes "cbor_codec cb" "length v = n" "n < 2 ^ 64" shows "fixed_bytes cb n (e_bytes cb v @ r) = Inr (v, r)"
  using cbor_codec.bytes_rt [OF assms(1), of v r] assms(2,3) by (simp add: fixed_bytes_def)

lemma fixed_bytes_length: "fixed_bytes cb n d = Inr (v, r) \<Longrightarrow> length v = n"
  by (auto simp: fixed_bytes_def result_iff split: if_splits)

lemma encode_cbor_ok:
  "fr_total_len f < 2 ^ 32 \<Longrightarrow> encode_cbor cb f = Inr (e_array cb 8 @ e_u16 cb FRAME_VERSION @ e_u16 cb FRAME_TYPE @
     e_bytes cb (fr_transfer_id f) @ e_bytes cb (fr_digest f) @ e_u16 cb (fr_index f) @ e_u16 cb (fr_count f) @
     e_u32 cb (of_nat (fr_total_len f)) @ e_bytes cb (fr_chunk f))"
  by (simp add: encode_cbor_def)

lemma decode_cbor_rt:
  assumes c: "cbor_codec cb" and w: "wf_frame f" and e: "encode_cbor cb f = Inr b"
  shows "decode_cbor cb b = Inr f"
proof -
  note w' = wf_frameD [OF w]
  have t: "unat (of_nat (fr_total_len f) :: u32) = fr_total_len f" using w' by (simp add: unat_of_nat)
  have b: "b = e_array cb 8 @ e_u16 cb FRAME_VERSION @ e_u16 cb FRAME_TYPE @
     e_bytes cb (fr_transfer_id f) @ e_bytes cb (fr_digest f) @ e_u16 cb (fr_index f) @ e_u16 cb (fr_count f) @
     e_u32 cb (of_nat (fr_total_len f)) @ e_bytes cb (fr_chunk f)"
    using e w' by (simp add: encode_cbor_ok)
  have i: "\<not> fr_count f \<le> fr_index f" "fr_count f \<noteq> 0" using w' by (auto simp: word_le_nat_alt)
  have l: "length (fr_chunk f) < 2 ^ 64" using w' by simp
  have last: "d_bytes cb (e_bytes cb (fr_chunk f)) = Some (fr_chunk f, [])"
    using cbor_codec.bytes_rt [OF c l, of "[]"] by simp
  have f: "\<lparr> fr_transfer_id = fr_transfer_id f, fr_digest = fr_digest f, fr_index = fr_index f,
      fr_count = fr_count f, fr_total_len = fr_total_len f, fr_chunk = fr_chunk f \<rparr> = f" by simp
  have e': "encode_cbor cb \<lparr> fr_transfer_id = fr_transfer_id f, fr_digest = fr_digest f, fr_index = fr_index f,
      fr_count = fr_count f, fr_total_len = fr_total_len f, fr_chunk = fr_chunk f \<rparr> = Inr b"
    unfolding f by (rule e)
  note k = cbor_codec.array_rt [OF c] cbor_codec.u16_rt [OF c] cbor_codec.u32_rt [OF c] fixed_bytes_rt [OF c]
  have h: "d_array cb b = Some (Some 8, e_u16 cb FRAME_VERSION @ e_u16 cb FRAME_TYPE @
     e_bytes cb (fr_transfer_id f) @ e_bytes cb (fr_digest f) @ e_u16 cb (fr_index f) @ e_u16 cb (fr_count f) @
     e_u32 cb (of_nat (fr_total_len f)) @ e_bytes cb (fr_chunk f))"
    unfolding b by (rule cbor_codec.array_rt [OF c])
  show ?thesis
    using w' i e' by (simp add: decode_cbor_def h k last t Let_def)
qed

lemma decode_cbor_wf:
  assumes "decode_cbor cb b = Inr f" shows "wf_frame f \<and> encode_cbor cb f = Inr b"
  using assms
  by (auto simp: decode_cbor_def Let_def bindE_Inr_iff okOr_Inr_iff failIf_Inr_iff if_Inl_iff wf_frame_def
      word_less_nat_alt not_le dest!: fixed_bytes_length)

lemma encode_cbor_nonempty:
  assumes "cbor_codec cb" "wf_frame f" "encode_cbor cb f = Inr b" shows "b \<noteq> []"
  using cbor_codec.bytes_contained [OF assms(1), of "fr_chunk f"] wf_frameD [OF assms(2)] assms(3)
  by (auto simp: encode_cbor_def result_iff)

lemma decode_text_iff:
  assumes c: "cbor_codec (minicbor L)" and u: "base64_engine (url64 L)"
  shows "decode_text L t = Inr f \<longleftrightarrow> wf_frame f \<and> encode_text L f = Inr t"
proof
  assume "decode_text L t = Inr f"
  then obtain p d where t: "t = TEXT_PREFIX @ p" "length t \<le> 2048" and d: "b64_encode (url64 L) d = p"
    "decode_cbor (minicbor L) d = Inr f"
    by (auto simp: decode_text_def Let_def bindE_Inr_iff okOr_Inr_iff failIf_Inr_iff starts_with_iff not_less)
  from decode_cbor_wf [OF d(2)] t d(1) show "wf_frame f \<and> encode_text L f = Inr t"
    by (simp add: encode_text_def)
next
  assume *: "wf_frame f \<and> encode_text L f = Inr t"
  then obtain b where b: "encode_cbor (minicbor L) f = Inr b"
    and t: "t = TEXT_PREFIX @ b64_encode (url64 L) b" "length t \<le> 2048"
    by (auto simp: encode_text_def Let_def bindE_Inr_iff if_Inl_iff)
  have "b \<noteq> []" by (rule encode_cbor_nonempty [OF c conjunct1 [OF *] b])
  then have n: "b64_encode (url64 L) b \<noteq> []" by (simp add: base64_engine.encode_Nil_iff [OF u])
  show "decode_text L t = Inr f"
    using t n base64_engine.encode_no_pad [OF u] base64_engine.decode_encode [OF u]
      decode_cbor_rt [OF c conjunct1 [OF *] b]
    by (simp add: decode_text_def)
qed

text \<open>A well-formed frame always fits the text limit.\<close>

lemma encode_text_total:
  assumes z: "cbor_sized (minicbor L)" and u: "base64_engine (url64 L)" and w: "wf_frame f"
  shows "\<exists>t. encode_text L f = Inr t"
proof -
  note w' = wf_frameD [OF w]
  have t: "fr_total_len f < 2 ^ 32" using w' by simp
  obtain b where b: "encode_cbor (minicbor L) f = Inr b" and e: "b = e_array (minicbor L) 8 @
     e_u16 (minicbor L) FRAME_VERSION @ e_u16 (minicbor L) FRAME_TYPE @ e_bytes (minicbor L) (fr_transfer_id f) @
     e_bytes (minicbor L) (fr_digest f) @ e_u16 (minicbor L) (fr_index f) @ e_u16 (minicbor L) (fr_count f) @
     e_u32 (minicbor L) (of_nat (fr_total_len f)) @ e_bytes (minicbor L) (fr_chunk f)"
    using encode_cbor_ok [OF t] by blast
  have l: "length (fr_chunk f) < 2 ^ 64" "length (fr_transfer_id f) < 2 ^ 64" "length (fr_digest f) < 2 ^ 64"
    using w' by simp_all
  have "length b \<le> 800"
    using w' head_len_bounds(1) [of "unat (8 :: u64)"] head_len_bounds(1) [of "unat FRAME_VERSION"]
      head_len_bounds(1) [of "unat FRAME_TYPE"] head_len_bounds(1) [of 16] head_len_bounds(1) [of 32]
      head_len_bounds(1) [of "unat (fr_index f)"] head_len_bounds(1) [of "unat (fr_count f)"]
      head_len_bounds(1) [of "unat (of_nat (fr_total_len f) :: u32)"] head_len_bounds(1) [of "length (fr_chunk f)"]
    by (simp add: e cbor_sized.array_len [OF z] cbor_sized.u16_len [OF z] cbor_sized.u32_len [OF z]
        cbor_sized.bytes_len [OF z] l)
  then have "length (b64_encode (url64 L) b) \<le> 1067" by (simp add: base64_engine.encode_len [OF u])
  moreover have "length TEXT_PREFIX = 14" by (simp add: TEXT_PREFIX_def)
  ultimately show ?thesis by (simp add: encode_text_def b)
qed

subsection \<open>Chunks\<close>

lemma chunks_Nil [simp]: "chunks n [] = []"
  by (simp add: chunks.simps)

lemma chunks_Cons: "0 < n \<Longrightarrow> xs \<noteq> [] \<Longrightarrow> chunks n xs = take n xs # chunks n (drop n xs)"
  by (simp add: chunks.simps)

lemma concat_chunks: "0 < n \<Longrightarrow> concat (chunks n xs) = xs"
proof (induction n xs rule: chunks.induct)
  case (1 n xs)
  then show ?case by (cases "xs = []") (simp_all add: chunks_Cons)
qed

lemma div_ceil_step: "0 < n \<Longrightarrow> 0 < l \<Longrightarrow> div_ceil l n = Suc (div_ceil (l - n) n)"
  by (cases "l \<le> n") (auto simp: div_ceil_def div_if le_div_geq Suc_diff_le)

lemma length_chunks: "0 < n \<Longrightarrow> length (chunks n xs) = div_ceil (length xs) n"
proof (induction n xs rule: chunks.induct)
  case (1 n xs)
  show ?case
  proof (cases "xs = []")
    case True
    with 1 show ?thesis by (simp add: div_ceil_def)
  next
    case False
    with 1 show ?thesis by (simp add: chunks_Cons div_ceil_step)
  qed
qed

lemma chunks_nonempty: "0 < n \<Longrightarrow> c \<in> set (chunks n xs) \<Longrightarrow> c \<noteq> [] \<and> length c \<le> n"
proof (induction n xs rule: chunks.induct)
  case (1 n xs)
  then show ?case by (cases "xs = []") (auto simp: chunks_Cons)
qed

lemma chunks_full:
  "0 < n \<Longrightarrow> Suc i < length (chunks n xs) \<Longrightarrow> length (chunks n xs ! i) = n"
proof (induction n xs arbitrary: i rule: chunks.induct)
  case (1 n xs)
  show ?case
  proof (cases "xs = []")
    case False
    with 1 have e: "chunks n xs = take n xs # chunks n (drop n xs)" by (simp add: chunks_Cons)
    show ?thesis
    proof (cases i)
      case 0
      with 1 e have "drop n xs \<noteq> []" by auto
      with 0 e show ?thesis by simp
    next
      case (Suc j)
      with 1 e False show ?thesis by simp
    qed
  qed (use 1 in simp)
qed

lemma chunks_le_length: "0 < n \<Longrightarrow> c \<in> set (chunks n xs) \<Longrightarrow> length c \<le> length xs"
proof (induction n xs rule: chunks.induct)
  case (1 n xs)
  then show ?case by (cases "xs = []") (fastforce simp: chunks_Cons)+
qed

subsection \<open>The frames of one message\<close>

definition nth_frame :: "symmetric \<Rightarrow> bytes \<Rightarrow> nat \<Rightarrow> bytes \<Rightarrow> nat \<Rightarrow> frame" where
  "nth_frame y message n transfer_id i = \<lparr> fr_transfer_id = transfer_id, fr_digest = message_digest y message,
     fr_index = of_nat i, fr_count = of_nat (length (chunks n message)), fr_total_len = length message,
     fr_chunk = chunks n message ! i \<rparr>"

text \<open>The sizes \<open>fragment_qr_message\<close> accepts.\<close>

definition fragmentable :: "bytes \<Rightarrow> nat \<Rightarrow> bool" where
  "fragmentable message n \<longleftrightarrow> message \<noteq> [] \<and> length message \<le> MAX_QR_MESSAGE_BYTES \<and>
     1 \<le> n \<and> n \<le> DEFAULT_QR_CHUNK_BYTES \<and> div_ceil (length message) n \<le> MAX_QR_FRAGMENTS"

lemma fragmentableD:
  assumes "fragmentable message n"
  shows "message \<noteq> []" "length message \<le> 65536" "0 < n" "n \<le> 600" "length (chunks n message) \<le> 128"
    "0 < length (chunks n message)"
proof -
  show f: "message \<noteq> []" "length message \<le> 65536" "0 < n" "n \<le> 600"
    using assms by (auto simp: fragmentable_def)
  show "length (chunks n message) \<le> 128" using assms by (simp add: fragmentable_def length_chunks)
  show "0 < length (chunks n message)" using f by (simp add: chunks_Cons)
qed

lemma nth_frame_wf:
  assumes f: "fragmentable message n" and y: "symmetric_laws y" and t: "length transfer_id = 16"
    and i: "i < length (chunks n message)"
  shows "wf_frame (nth_frame y message n transfer_id i)"
proof -
  note f' = fragmentableD [OF f]
  have c: "chunks n message ! i \<in> set (chunks n message)" using i by simp
  have "unat (of_nat i :: u16) = i" "unat (of_nat (length (chunks n message)) :: u16) = length (chunks n message)"
    using i f' by (simp_all add: unat_of_nat)
  then show ?thesis
    using f' i t chunks_nonempty [OF f'(3) c] chunks_le_length [OF f'(3) c] y
    by (cases message) (simp_all add: wf_frame_def nth_frame_def message_digest_def)
qed

lemma fragment_ok:
  assumes z: "cbor_sized (minicbor L)" and u: "base64_engine (url64 L)" and y: "symmetric_laws (sym L)"
    and f: "fragmentable message n" and t: "length transfer_id = 16"
  obtains texts where "fragment_qr_message L message n transfer_id = Inr texts"
    "length texts = length (chunks n message)"
    "\<forall>i < length texts. encode_text L (nth_frame (sym L) message n transfer_id i) = Inr (texts ! i)"
proof -
  note f' = fragmentableD [OF f]
  let ?cs = "chunks n message"
  define g where "g i = (SOME x. encode_text L (nth_frame (sym L) message n transfer_id i) = Inr x)" for i
  have g: "encode_text L (nth_frame (sym L) message n transfer_id i) = Inr (g i)" if "i < length ?cs" for i
    unfolding g_def by (rule someI_ex, rule encode_text_total [OF z u nth_frame_wf [OF f y t that]])
  let ?h = "\<lambda>(index, chunk).
      bindE (failIf (index \<ge> 2 ^ 16 \<or> div_ceil (length message) n \<ge> 2 ^ 16) TooManyFragments) (\<lambda>_.
      encode_text L \<lparr> fr_transfer_id = transfer_id, fr_digest = message_digest (sym L) message,
        fr_index = of_nat index, fr_count = of_nat (div_ceil (length message) n), fr_total_len = length message,
        fr_chunk = chunk \<rparr>)"
  have "traverseE ?h (enumerate 0 ?cs) = Inr (map (g \<circ> fst) (enumerate 0 ?cs))"
  proof (rule traverseE_map_Inr)
    fix x assume "x \<in> set (enumerate 0 ?cs)"
    then obtain i where i: "i < length ?cs" "x = (i, ?cs ! i)" by (auto simp: in_set_enumerate_eq prod_eq_iff)
    then show "?h x = Inr ((g \<circ> fst) x)"
      using g [OF i(1)] f' by (simp add: nth_frame_def length_chunks [OF f'(3), symmetric])
  qed
  moreover have "map (g \<circ> fst) (enumerate 0 ?cs) = map g [0..<length ?cs]"
    by (metis add.left_neutral map_fst_enumerate map_map)
  ultimately have "fragment_qr_message L message n transfer_id = Inr (map g [0..<length ?cs])"
    using f by (simp add: fragment_qr_message_def fragmentable_def)
  then show thesis by (rule that) (simp_all add: g)
qed

lemma fragment_error:
  "\<not> fragmentable message n \<Longrightarrow> \<not> isOk (fragment_qr_message L message n transfer_id)"
  by (auto simp: fragmentable_def fragment_qr_message_def bindE_def failIf_def Let_def)

subsection \<open>Collecting the frames\<close>

text \<open>The assembly that holds exactly the chunks with an index in \<open>S\<close>.\<close>

definition collected :: "symmetric \<Rightarrow> bytes \<Rightarrow> nat \<Rightarrow> bytes \<Rightarrow> u64 \<Rightarrow> nat set \<Rightarrow> active_assembly" where
  "collected y message n transfer_id t0 S = \<lparr> aa_transfer_id = transfer_id, aa_digest = message_digest y message,
     aa_count = of_nat (length (chunks n message)), aa_total_len = length message, aa_started_at_ms = t0,
     aa_chunks = map (\<lambda>i. if i \<in> S then Some (chunks n message ! i) else None) [0..<length (chunks n message)],
     aa_received = card S, aa_received_bytes = (\<Sum>i\<in>S. length (chunks n message ! i)) \<rparr>"

lemma sum_chunks: "0 < n \<Longrightarrow> (\<Sum>i<length (chunks n m). length (chunks n m ! i)) = length m"
proof -
  assume n: "0 < n"
  have "length m = sum_list (map length (chunks n m))" using concat_chunks [OF n, of m] length_concat [of "chunks n m"] by simp
  also have "\<dots> = (\<Sum>i<length (chunks n m). length (chunks n m ! i))"
    by (simp add: sum_list_sum_nth atLeast0LessThan)
  finally show ?thesis by simp
qed

lemma store_collected:
  assumes f: "fragmentable message n" and S: "S \<subseteq> {..<length (chunks n message)}" and i: "i < length (chunks n message)"
  shows "store_chunk (nth_frame y message n transfer_id i) (collected y message n transfer_id t0 S) =
    Inr (collected y message n transfer_id t0 (insert i S))"
proof -
  note f' = fragmentableD [OF f]
  let ?cs = "chunks n message"
  have u: "unat (of_nat i :: u16) = i" using i f' by (simp add: unat_of_nat)
  show ?thesis
  proof (cases "i \<in> S")
    case True
    then show ?thesis using i u by (simp add: store_chunk_def nth_frame_def collected_def insert_absorb)
  next
    case False
    have fin: "finite S" using S finite_subset by blast
    have s: "(\<Sum>j\<in>insert i S. length (?cs ! j)) = (\<Sum>j\<in>S. length (?cs ! j)) + length (?cs ! i)"
      using False fin by simp
    have "(\<Sum>j\<in>insert i S. length (?cs ! j)) \<le> (\<Sum>j<length ?cs. length (?cs ! j))"
      using S i by (intro sum_mono2) auto
    then have b: "(\<Sum>j\<in>S. length (?cs ! j)) + length (?cs ! i) \<le> length message"
      by (simp add: s sum_chunks [OF f'(3)])
    have m: "(map (\<lambda>j. if j \<in> S then Some (?cs ! j) else None) [0..<length ?cs])[i := Some (?cs ! i)] =
        map (\<lambda>j. if j \<in> insert i S then Some (?cs ! j) else None) [0..<length ?cs]"
      by (rule nth_equalityI) (simp, case_tac "ia = i", auto)
    show ?thesis
      using False i u b f' fin m s by (simp add: store_chunk_def nth_frame_def collected_def not_less not_le)
  qed
qed

lemma active_new_collected:
  assumes "fragmentable message n"
  shows "active_new (nth_frame y message n transfer_id i) t0 = collected y message n transfer_id t0 {}"
  using fragmentableD [OF assms]
  by (simp add: active_new_def nth_frame_def collected_def unat_of_nat map_replicate_const)

lemma assemble_collected:
  assumes f: "fragmentable message n"
  shows "assemble y (collected y message n transfer_id t0 {..<length (chunks n message)}) = Inr message"
proof -
  note f' = fragmentableD [OF f]
  let ?cs = "chunks n message"
  have "map (\<lambda>i. if i \<in> {..<length ?cs} then Some (?cs ! i) else None) [0..<length ?cs] = map Some ?cs"
    by (rule nth_equalityI) auto
  then have t: "traverseE (okOr MalformedFrame)
      (map (\<lambda>i. if i \<in> {..<length ?cs} then Some (?cs ! i) else None) [0..<length ?cs]) = Inr ?cs"
  proof -
    assume m: "map (\<lambda>i. if i \<in> {..<length ?cs} then Some (?cs ! i) else None) [0..<length ?cs] = map Some ?cs"
    have "traverseE (okOr MalformedFrame) (map Some cs) = Inr cs" for cs :: "bytes list"
      by (induction cs) simp_all
    then show ?thesis unfolding m .
  qed
  have hd: "?cs \<noteq> []" "hd ?cs = ?cs ! 0" using f' by (auto simp: hd_conv_nth)
  have ne: "c \<noteq> []" "length c \<le> n" if "c \<in> set ?cs" for c using chunks_nonempty [OF f'(3) that] by auto
  have full: "length c = length (hd ?cs)" if "c \<in> set (take (length ?cs - 1) ?cs)" for c
  proof -
    from that obtain i where i: "i < length ?cs - 1" "c = ?cs ! i" by (auto simp: in_set_conv_nth)
    then show ?thesis using chunks_full [OF f'(3), of i message] chunks_full [OF f'(3), of 0 message] hd by simp
  qed
  have lst: "length (last ?cs) \<le> length (hd ?cs)"
  proof (cases "length ?cs = 1")
    case True
    then have "last ?cs = hd ?cs" using hd by (simp add: last_conv_nth)
    then show ?thesis by simp
  next
    case False
    then have "length (hd ?cs) = n" using chunks_full [OF f'(3), of 0 message] hd f' by simp
    then show ?thesis using ne(2) [of "last ?cs"] hd by simp
  qed
  show ?thesis
    using ne(1) [of "hd ?cs"] ne(1) [of "last ?cs"] full lst hd(1) concat_chunks [OF f'(3), of message]
    by (simp add: assemble_def collected_def t [simplified] Let_def list_ex_iff)
qed

subsection \<open>Feeding the reassembler\<close>

text \<open>Collecting with the indices of \<open>S\<close> received; nothing received is the idle state.\<close>

definition collecting :: "symmetric \<Rightarrow> bytes \<Rightarrow> nat \<Rightarrow> bytes \<Rightarrow> u64 \<Rightarrow> nat set \<Rightarrow> qr_reassembler" where
  "collecting y message n transfer_id t0 S = \<lparr> qr_active =
     (if S = {} then None else Some (collected y message n transfer_id t0 S)), qr_poisoned = False \<rparr>"

lemma in_window: "unat t0 \<le> unat t \<Longrightarrow> unat t \<le> unat t0 + 30000 \<Longrightarrow>
    \<not> t < t0 \<and> \<not> t - t0 > MAX_QR_ASSEMBLY_AGE_MS" for t t0 :: u64
  by (simp add: word_less_nat_alt word_le_nat_alt unat_sub)

lemma push_good_frame:
  assumes f: "fragmentable message n" and d: "decode_text L s = Inr (nth_frame (sym L) message n transfer_id i)"
    and i: "i < length (chunks n message)" and S: "S \<subset> {..<length (chunks n message)}"
    and t: "S = {} \<Longrightarrow> t = t0" "unat t0 \<le> unat t" "unat t \<le> unat t0 + 30000"
  shows "qr_push L s t (collecting (sym L) message n transfer_id t0 S) =
    (if insert i S = {..<length (chunks n message)} then (qr_new, Inr (Complete message))
     else (collecting (sym L) message n transfer_id t0 (insert i S),
           Inr (InProgress (card (insert i S)) (length (chunks n message)))))"
proof -
  note f' = fragmentableD [OF f]
  let ?y = "sym L" and ?k = "length (chunks n message)"
  let ?a = "collected ?y message n transfer_id t0 S"
  define Q where "Q = collecting ?y message n transfer_id t0 S"
  have a: "(case qr_active Q of None \<Rightarrow> active_new (nth_frame ?y message n transfer_id i) t | Some a \<Rightarrow> a) = ?a"
    using t(1) by (simp add: Q_def collecting_def active_new_collected [OF f])
  have upd: "Q\<lparr> qr_active := z \<rparr> = \<lparr> qr_active = z, qr_poisoned = False \<rparr>" for z
    by (simp add: Q_def collecting_def)
  have st: "store_chunk (nth_frame ?y message n transfer_id i) ?a = Inr (collected ?y message n transfer_id t0 (insert i S))"
    using S i by (intro store_collected [OF f]) auto
  have fin: "finite (insert i S)" "insert i S \<subseteq> {..<?k}" using S i by (auto intro: finite_subset)
  have card: "card (insert i S) = ?k \<longleftrightarrow> insert i S = {..<?k}"
  proof
    assume "card (insert i S) = ?k"
    then show "insert i S = {..<?k}" by (intro card_subset_eq [OF _ fin(2)]) simp_all
  qed simp
  have u: "unat (of_nat ?k :: u16) = ?k" using f' by (simp add: unat_of_nat)
  have same: "aa_transfer_id ?a = transfer_id" "aa_digest ?a = message_digest ?y message"
    "aa_count ?a = of_nat ?k" "aa_total_len ?a = length message" "aa_started_at_ms ?a = t0"
    by (simp_all add: collected_def)
  have fr: "fr_transfer_id (nth_frame ?y message n transfer_id i) = transfer_id"
    "fr_digest (nth_frame ?y message n transfer_id i) = message_digest ?y message"
    "fr_count (nth_frame ?y message n transfer_id i) = of_nat ?k"
    "fr_total_len (nth_frame ?y message n transfer_id i) = length message" by (simp_all add: nth_frame_def)
  have p: "qr_poisoned Q = False" by (simp add: Q_def collecting_def)
  have rc: "aa_received (collected ?y message n transfer_id t0 T) = card T"
    "aa_count (collected ?y message n transfer_id t0 T) = of_nat ?k" for T by (simp_all add: collected_def)
  show ?thesis
  proof (cases "insert i S = {..<?k}")
    case True
    then have r: "card (insert i S) = ?k" using card by simp
    have "qr_push L s t Q = (qr_new, Inr (Complete message))"
      using in_window [OF t(2,3)] assemble_collected [OF f, of ?y transfer_id t0]
      by (simp add: qr_push_def d a p same fr st Let_def rc u r True qr_new_def upd)
    with True show ?thesis by (simp add: Q_def)
  next
    case False
    then have r: "card (insert i S) \<noteq> ?k" using card by simp
    have "qr_push L s t Q = (collecting ?y message n transfer_id t0 (insert i S), Inr (InProgress (card (insert i S)) ?k))"
      using in_window [OF t(2,3)]
      by (simp add: qr_push_def d a p same fr st Let_def rc u r False upd collecting_def)
    with False show ?thesis by (simp add: Q_def)
  qed
qed

text \<open>Texts that are no frame of this transfer (garbage, or frames of another transfer) are refused
  without a trace once the transfer has begun.\<close>

definition foreign :: "('pk, 'sg, 'sk) lib \<Rightarrow> bytes \<Rightarrow> nat \<Rightarrow> bytes \<Rightarrow> string \<Rightarrow> bool" where
  "foreign L message n transfer_id s = (case decode_text L s of
     Inl _ \<Rightarrow> True
   | Inr f \<Rightarrow> fr_transfer_id f \<noteq> transfer_id \<or> fr_digest f \<noteq> message_digest (sym L) message \<or>
       fr_count f \<noteq> of_nat (length (chunks n message)) \<or> fr_total_len f \<noteq> length message)"

lemma push_foreign:
  assumes S: "S \<noteq> {}" and s: "foreign L message n transfer_id s"
    and t: "unat t0 \<le> unat t" "unat t \<le> unat t0 + 30000"
  shows "\<exists>e. qr_push L s t (collecting (sym L) message n transfer_id t0 S) =
    (collecting (sym L) message n transfer_id t0 S, Inl e)"
proof (cases "decode_text L s")
  case (Inl e)
  then show ?thesis by (simp add: qr_push_def collecting_def)
next
  case (Inr f)
  have c: "qr_active (collecting (sym L) message n transfer_id t0 S) = Some (collected (sym L) message n transfer_id t0 S)"
    "qr_poisoned (collecting (sym L) message n transfer_id t0 S) = False" using S by (simp_all add: collecting_def)
  have s': "aa_started_at_ms (collected (sym L) message n transfer_id t0 S) = t0" by (simp add: collected_def)
  have n: "fr_transfer_id f \<noteq> aa_transfer_id (collected (sym L) message n transfer_id t0 S) \<or>
     fr_digest f \<noteq> aa_digest (collected (sym L) message n transfer_id t0 S) \<or>
     fr_count f \<noteq> aa_count (collected (sym L) message n transfer_id t0 S) \<or>
     fr_total_len f \<noteq> aa_total_len (collected (sym L) message n transfer_id t0 S)"
    using s Inr by (simp add: foreign_def collected_def)
  have "qr_push L s t (collecting (sym L) message n transfer_id t0 S) =
    (collecting (sym L) message n transfer_id t0 S, Inl DifferentTransfer)"
    using in_window [OF t] n S
    by (simp only: qr_push_def c Inr Let_def s' sum.case option.case if_True if_False simp_thms)
      (simp add: collecting_def)
  then show ?thesis by blast
qed

lemma frame_texts_inj:
  assumes f: "fragmentable message n"
    and d: "\<And>i. i < length (chunks n message) \<Longrightarrow> decode_text L (texts ! i) = Inr (nth_frame (sym L) message n transfer_id i)"
    and i: "i < length (chunks n message)" and j: "j < length (chunks n message)" and e: "texts ! j = texts ! i"
  shows "j = i"
proof -
  have "nth_frame (sym L) message n transfer_id j = nth_frame (sym L) message n transfer_id i"
    using d [OF i] d [OF j] e by simp
  then have "unat (of_nat j :: u16) = unat (of_nat i :: u16)" by (simp add: nth_frame_def)
  moreover have "i < 2 ^ 16" "j < 2 ^ 16" using i j fragmentableD(5) [OF f] by simp_all
  ultimately show "j = i" by (simp add: unat_of_nat)
qed

lemma scan_completes:
  assumes f: "fragmentable message n"
    and d: "\<And>i. i < length (chunks n message) \<Longrightarrow> decode_text L (texts ! i) = Inr (nth_frame (sym L) message n transfer_id i)"
    and l: "length texts = length (chunks n message)"
  shows "S \<noteq> {} \<Longrightarrow> S \<subset> {..<length texts} \<Longrightarrow>
    \<forall>(s, t) \<in> set ev. (s \<in> set texts \<or> foreign L message n transfer_id s) \<and> unat t0 \<le> unat t \<and> unat t \<le> unat t0 + 30000 \<Longrightarrow>
    S \<union> {i. i < length texts \<and> texts ! i \<in> fst ` set ev} = {..<length texts} \<Longrightarrow>
    S \<union> {i. i < length texts \<and> texts ! i \<in> fst ` set (butlast ev)} \<noteq> {..<length texts} \<Longrightarrow>
    \<exists>rs. qr_pushes L ev (collecting (sym L) message n transfer_id t0 S) = (qr_new, rs @ [Inr (Complete message)]) \<and>
      (\<forall>r \<in> set rs. \<forall>m. r \<noteq> Inr (Complete m))"
proof (induction ev arbitrary: S)
  case Nil
  then show ?case by auto
next
  case (Cons x ev)
  obtain s t where x: "x = (s, t)" by fastforce
  from Cons.prems(3) x have st: "s \<in> set texts \<or> foreign L message n transfer_id s"
    and t: "unat t0 \<le> unat t" "unat t \<le> unat t0 + 30000" by auto
  have inj: "texts ! j = texts ! i \<longleftrightarrow> j = i" if "i < length texts" "j < length texts" for i j
    using frame_texts_inj [OF f d, of i j] that l by auto
  show ?case
  proof (cases "s \<in> set texts")
    case True
    then obtain i where i: "i < length texts" "s = texts ! i" by (auto simp: in_set_conv_nth)
    have new: "{j. j < length texts \<and> texts ! j \<in> fst ` set (x # zs)} = insert i {j. j < length texts \<and> texts ! j \<in> fst ` set zs}" for zs :: "(string \<times> u64) list"
      using i x inj by auto
    have ds: "decode_text L s = Inr (nth_frame (sym L) message n transfer_id i)" using d i l by simp
    note p = push_good_frame [OF f ds i(1) [unfolded l] Cons.prems(2) [unfolded l], of t t0, OF _ t, folded l]
    show ?thesis
    proof (cases "insert i S = {..<length texts}")
      case True
      have "ev = []"
      proof (rule ccontr)
        assume "ev \<noteq> []"
        then have "butlast (x # ev) = x # butlast ev" by simp
        with Cons.prems(5) new [of "butlast ev"] have "S \<union> insert i {j. j < length texts \<and> texts ! j \<in> fst ` set (butlast ev)} \<noteq> {..<length texts}"
          by simp
        with True show False by auto
      qed
      with p Cons.prems(1) True x show ?thesis by simp
    next
      case False
      have sub: "insert i S \<subset> {..<length texts}" using False Cons.prems(2) i by auto
      have ne: "ev \<noteq> []"
      proof
        assume "ev = []"
        with Cons.prems(4) new [of "[]"] False show False by simp
      qed
      have u: "insert i S \<union> {j. j < length texts \<and> texts ! j \<in> fst ` set ev} = {..<length texts}"
        using Cons.prems(4) new [of ev] by simp
      have b: "insert i S \<union> {j. j < length texts \<and> texts ! j \<in> fst ` set (butlast ev)} \<noteq> {..<length texts}"
        using Cons.prems(5) new [of "butlast ev"] ne by simp
      from Cons.IH [OF _ sub _ u b] Cons.prems(3) obtain rs where
        rs: "qr_pushes L ev (collecting (sym L) message n transfer_id t0 (insert i S)) = (qr_new, rs @ [Inr (Complete message)])"
          "\<forall>r \<in> set rs. \<forall>m. r \<noteq> Inr (Complete m)" by auto
      show ?thesis
        using p Cons.prems(1) False x rs
        by (intro exI [of _ "Inr (InProgress (card (insert i S)) (length (chunks n message))) # rs"]) (simp add: l)
    qed
  next
    case False
    with st have fs: "foreign L message n transfer_id s" by blast
    have new: "{j. j < length texts \<and> texts ! j \<in> fst ` set (x # zs)} = {j. j < length texts \<and> texts ! j \<in> fst ` set zs}" for zs :: "(string \<times> u64) list"
      using False x by auto
    obtain e where e: "qr_push L s t (collecting (sym L) message n transfer_id t0 S) =
        (collecting (sym L) message n transfer_id t0 S, Inl e)" using push_foreign [OF Cons.prems(1) fs t] by blast
    have ne: "ev \<noteq> []"
    proof
      assume ev: "ev = []"
      have "S \<union> {j. j < length texts \<and> texts ! j \<in> fst ` set ([] :: (string \<times> u64) list)} = {..<length texts}"
        using Cons.prems(4) unfolding ev new .
      with Cons.prems(2) show False by simp
    qed
    have u: "S \<union> {j. j < length texts \<and> texts ! j \<in> fst ` set ev} = {..<length texts}"
      using Cons.prems(4) new [of ev] by simp
    have b: "S \<union> {j. j < length texts \<and> texts ! j \<in> fst ` set (butlast ev)} \<noteq> {..<length texts}"
      using Cons.prems(5) new [of "butlast ev"] ne by simp
    from Cons.IH [OF Cons.prems(1,2) _ u b] Cons.prems(3) obtain rs where
      rs: "qr_pushes L ev (collecting (sym L) message n transfer_id t0 S) = (qr_new, rs @ [Inr (Complete message)])"
        "\<forall>r \<in> set rs. \<forall>m. r \<noteq> Inr (Complete m)" by auto
    show ?thesis using e x rs by (intro exI [of _ "Inl e # rs"]) simp
  qed
qed

subsection \<open>Invariant and soundness\<close>

text \<open>
  What every reachable reassembler satisfies: one slot per announced fragment (at most 128, so every
  index of a well-formed frame is in range), the counters agree with the slots, at least one fragment
  is missing, and the stored bytes never exceed the announced length, hence never 65536.
\<close>

definition slot_bytes :: "bytes option list \<Rightarrow> nat" where
  "slot_bytes cs = sum_list (map (\<lambda>c. case c of None \<Rightarrow> 0 | Some b \<Rightarrow> length b) cs)"

definition slots_filled :: "bytes option list \<Rightarrow> nat" where
  "slots_filled cs = length (filter (\<lambda>c. c \<noteq> None) cs)"

definition assembly_ok :: "active_assembly \<Rightarrow> bool" where
  "assembly_ok a \<longleftrightarrow> length (aa_chunks a) = unat (aa_count a) \<and> unat (aa_count a) \<le> MAX_QR_FRAGMENTS \<and>
     aa_received a = slots_filled (aa_chunks a) \<and> aa_received_bytes a = slot_bytes (aa_chunks a) \<and>
     aa_received_bytes a \<le> aa_total_len a \<and> aa_total_len a \<le> MAX_QR_MESSAGE_BYTES \<and>
     (\<forall>b. Some b \<in> set (aa_chunks a) \<longrightarrow> b \<noteq> [] \<and> length b \<le> DEFAULT_QR_CHUNK_BYTES)"

definition qr_inv :: "qr_reassembler \<Rightarrow> bool" where
  "qr_inv q \<longleftrightarrow> (case qr_active q of None \<Rightarrow> True
     | Some a \<Rightarrow> \<not> qr_poisoned q \<and> assembly_ok a \<and> aa_received a \<le> unat (aa_count a))"

lemma slot_bytes_update:
  "i < length cs \<Longrightarrow> cs ! i = None \<Longrightarrow> slot_bytes (cs[i := Some b]) = slot_bytes cs + length b"
proof (induction cs arbitrary: i)
  case (Cons c cs)
  then show ?case by (cases i) (auto simp: slot_bytes_def)
qed simp

lemma slots_filled_update:
  "i < length cs \<Longrightarrow> cs ! i = None \<Longrightarrow> slots_filled (cs[i := Some b]) = Suc (slots_filled cs)"
proof (induction cs arbitrary: i)
  case (Cons c cs)
  then show ?case by (cases i) (auto simp: slots_filled_def)
qed simp

lemma slots_filled_le: "slots_filled cs \<le> length cs"
  by (simp add: slots_filled_def)

lemma active_new_ok: "wf_frame f \<Longrightarrow> assembly_ok (active_new f t)"
  by (simp add: assembly_ok_def active_new_def wf_frame_def slots_filled_def slot_bytes_def map_replicate_const
      sum_list_replicate)

lemma store_chunk_ok:
  assumes a: "assembly_ok a" and f: "wf_frame f" "fr_count f = aa_count a" and s: "store_chunk f a = Inr a'"
  shows "assembly_ok a' \<and> aa_transfer_id a' = aa_transfer_id a \<and> aa_digest a' = aa_digest a \<and>
    aa_count a' = aa_count a \<and> aa_total_len a' = aa_total_len a \<and> aa_started_at_ms a' = aa_started_at_ms a"
proof (cases "aa_chunks a ! unat (fr_index f)")
  case (Some b)
  with s a show ?thesis by (simp add: store_chunk_def split: if_splits)
next
  case None
  have i: "unat (fr_index f) < length (aa_chunks a)" using a f by (simp add: assembly_ok_def wf_frame_def)
  from s None have a': "a' = a\<lparr> aa_received_bytes := aa_received_bytes a + length (fr_chunk f),
       aa_chunks := (aa_chunks a)[unat (fr_index f) := Some (fr_chunk f)], aa_received := aa_received a + 1 \<rparr>"
    and le: "aa_received_bytes a + length (fr_chunk f) \<le> aa_total_len a"
    by (auto simp: store_chunk_def not_less split: if_splits)
  have "\<forall>b. Some b \<in> set ((aa_chunks a)[unat (fr_index f) := Some (fr_chunk f)]) \<longrightarrow>
      b \<noteq> [] \<and> length b \<le> DEFAULT_QR_CHUNK_BYTES"
    using set_update_subset_insert [of "aa_chunks a" "unat (fr_index f)" "Some (fr_chunk f)"] a f
    by (fastforce simp: assembly_ok_def wf_frame_def)
  then show ?thesis
    using a f i le None unfolding a'
    by (auto simp: assembly_ok_def slot_bytes_update slots_filled_update wf_frame_def)
qed

lemma assemble_sound:
  assumes "assemble y a = Inr m"
  shows "message_digest y m = aa_digest a \<and> length m = aa_total_len a \<and>
    (\<exists>cs. aa_chunks a = map Some cs \<and> m = concat cs)"
proof -
  from assms obtain cs where cs: "traverseE (okOr MalformedFrame) (aa_chunks a) = Inr cs" and
    m: "m = concat cs" "length m = aa_total_len a" "message_digest y m = aa_digest a"
    by (auto simp: assemble_def Let_def bindE_Inr_iff failIf_Inr_iff if_Inl_iff)
  have "aa_chunks a = map Some cs"
    using cs by (simp add: traverseE_Inr_iff list_all2_conv_all_nth okOr_Inr_iff nth_equalityI)
  with m show ?thesis by blast
qed

lemma qr_push_inv:
  assumes c: "cbor_codec (minicbor L)" and u: "base64_engine (url64 L)" and q: "qr_inv q"
    and p: "qr_push L s t q = (q', r)"
  shows "qr_inv q'"
proof (cases "qr_poisoned q \<or> (\<exists>e. decode_text L s = Inl e)")
  case True
  with p q show ?thesis by (auto simp: qr_push_def split: if_splits)
next
  case False
  then obtain f where f: "decode_text L s = Inr f" "\<not> qr_poisoned q" by (cases "decode_text L s") auto
  have w: "wf_frame f" using f(1) decode_text_iff [OF c u] by blast
  define a where "a = (case qr_active q of Some a \<Rightarrow> a | None \<Rightarrow> active_new f t)"
  have ok: "assembly_ok a" and le: "aa_received a \<le> unat (aa_count a)"
    using q active_new_ok [OF w, of t] f by (auto simp: a_def qr_inv_def active_new_def split: option.splits)
  have "qr_inv poison" "qr_inv (q\<lparr> qr_active := None \<rparr>)" by (simp_all add: qr_inv_def poison_def)
  moreover have "qr_inv (q\<lparr> qr_active := Some a \<rparr>)" using ok le f by (simp add: qr_inv_def)
  moreover have "qr_inv (q\<lparr> qr_active := Some a' \<rparr>)"
    if "store_chunk f a = Inr a'" "fr_count f = aa_count a" for a'
  proof -
    from store_chunk_ok [OF ok w that(2,1)] slots_filled_le [of "aa_chunks a'"] f
    show ?thesis by (auto simp: qr_inv_def assembly_ok_def)
  qed
  ultimately show ?thesis
    using p f by (auto simp: qr_push_def Let_def a_def [symmetric] split: if_splits sum.splits)
qed

lemma qr_pushes_inv:
  assumes c: "cbor_codec (minicbor L)" and u: "base64_engine (url64 L)"
  shows "qr_inv q \<Longrightarrow> qr_pushes L ev q = (q', rs) \<Longrightarrow> qr_inv q'"
proof (induction ev arbitrary: q rs)
  case (Cons x ev)
  obtain s t where x: "x = (s, t)" by fastforce
  obtain q1 r where p: "qr_push L s t q = (q1, r)" by fastforce
  obtain q2 rs2 where ps: "qr_pushes L ev q1 = (q2, rs2)" by fastforce
  from p ps Cons.prems x have "q' = q2" by simp
  with Cons.IH [OF qr_push_inv [OF c u Cons.prems(1) p]] ps show ?case by simp
qed simp

text \<open>A completed message has the digest and the length that the last frame (and hence every stored
  one) announces.\<close>

lemma qr_push_complete:
  assumes "qr_push L s t q = (q', Inr (Complete m))"
  shows "\<exists>f. decode_text L s = Inr f \<and> message_digest (sym L) m = fr_digest f \<and> length m = fr_total_len f \<and>
    q' = qr_new"
proof -
  from assms obtain f where f: "\<not> qr_poisoned q" "decode_text L s = Inr f"
    by (auto simp: qr_push_def split: if_splits sum.splits)
  define a where "a = (case qr_active q of Some a \<Rightarrow> a | None \<Rightarrow> active_new f t)"
  have keep: "aa_digest a' = aa_digest a \<and> aa_total_len a' = aa_total_len a" if "store_chunk f a = Inr a'" for a'
    using that by (auto simp: store_chunk_def split: option.splits if_splits)
  from assms f obtain a' where "store_chunk f a = Inr a'" "fr_digest f = aa_digest a" "fr_total_len f = aa_total_len a"
    "assemble (sym L) a' = Inr m" "q' = q\<lparr> qr_active := None \<rparr>"
    by (auto simp: qr_push_def Let_def a_def [symmetric] split: if_splits sum.splits)
  with assemble_sound [of "sym L" a' m] keep f show ?thesis by (auto simp: qr_new_def)
qed

lemma qr_poisoned_stays:
  assumes "qr_poisoned q" shows "qr_push L s t q = (q, Inl Poisoned)"
  using assms by (simp add: qr_push_def)

subsection \<open>A whole transfer\<close>

lemma scan_from_new:
  assumes f: "fragmentable message n"
    and d: "\<And>i. i < length (chunks n message) \<Longrightarrow> decode_text L (texts ! i) = Inr (nth_frame (sym L) message n transfer_id i)"
    and l: "length texts = length (chunks n message)"
    and s0: "s0 \<in> set texts"
    and ev: "\<forall>(s, t) \<in> set ev. (s \<in> set texts \<or> foreign L message n transfer_id s) \<and>
      unat t0 \<le> unat t \<and> unat t \<le> unat t0 + 30000"
    and all: "set texts \<subseteq> fst ` set ((s0, t0) # ev)" and last: "\<not> set texts \<subseteq> fst ` set (butlast ((s0, t0) # ev))"
  shows "\<exists>rs. qr_pushes L ((s0, t0) # ev) qr_new = (qr_new, rs @ [Inr (Complete message)]) \<and>
      (\<forall>r \<in> set rs. \<forall>m. r \<noteq> Inr (Complete m))"
proof -
  obtain i where i: "i < length texts" "s0 = texts ! i" using s0 by (auto simp: in_set_conv_nth)
  have ds: "decode_text L s0 = Inr (nth_frame (sym L) message n transfer_id i)" using d i l by simp
  have new: "qr_new = collecting (sym L) message n transfer_id t0 {}" by (simp add: qr_new_def collecting_def)
  have inj: "texts ! j = texts ! i \<Longrightarrow> j = i" if "j < length texts" for j
    using frame_texts_inj [OF f d, of i j] that i l by simp
  have idx: "set texts \<subseteq> fst ` set ((s0, t0) # zs) \<longleftrightarrow>
      insert i {} \<union> {j. j < length texts \<and> texts ! j \<in> fst ` set zs} = {..<length texts}" for zs :: "(string \<times> u64) list"
  proof -
    have "set texts \<subseteq> fst ` set ((s0, t0) # zs) \<longleftrightarrow> (\<forall>x \<in> set texts. x = s0 \<or> x \<in> fst ` set zs)" by auto
    also have "\<dots> \<longleftrightarrow> (\<forall>j < length texts. texts ! j = texts ! i \<or> texts ! j \<in> fst ` set zs)"
      unfolding i(2) by (rule all_set_conv_all_nth)
    also have "\<dots> \<longleftrightarrow> (\<forall>j < length texts. j = i \<or> texts ! j \<in> fst ` set zs)" using inj by metis
    also have "\<dots> \<longleftrightarrow> insert i {} \<union> {j. j < length texts \<and> texts ! j \<in> fst ` set zs} = {..<length texts}"
      using i(1) by auto
    finally show ?thesis .
  qed
  have sub: "{} \<subset> {..<length (chunks n message)}" using i l by auto
  note p = push_good_frame [OF f ds i(1) [unfolded l] sub, of t0 t0, simplified, folded new, folded l]
  show ?thesis
  proof (cases "{i} = {..<length texts}")
    case True
    have "ev = []"
    proof (rule ccontr)
      assume "ev \<noteq> []"
      then have "butlast ((s0, t0) # ev) = (s0, t0) # butlast ev" by simp
      with last idx [of "butlast ev"] True show False by auto
    qed
    with p True show ?thesis by simp
  next
    case False
    then have S: "{i} \<noteq> {}" "{i} \<subset> {..<length texts}" using i by auto
    have ne: "ev \<noteq> []"
    proof
      assume e: "ev = []"
      from all have "insert i {} \<union> {j. j < length texts \<and> texts ! j \<in> fst ` set ([] :: (string \<times> u64) list)} = {..<length texts}"
        unfolding e idx .
      with False show False by simp
    qed
    have u: "{i} \<union> {j. j < length texts \<and> texts ! j \<in> fst ` set ev} = {..<length texts}" using all idx by blast
    have b: "{i} \<union> {j. j < length texts \<and> texts ! j \<in> fst ` set (butlast ev)} \<noteq> {..<length texts}"
      using last idx [of "butlast ev"] ne by simp
    from scan_completes [OF f d l S ev u b] obtain rs where
      rs: "qr_pushes L ev (collecting (sym L) message n transfer_id t0 {i}) = (qr_new, rs @ [Inr (Complete message)])"
        "\<forall>r \<in> set rs. \<forall>m. r \<noteq> Inr (Complete m)" by blast
    show ?thesis using p False rs
      by (intro exI [of _ "Inr (InProgress (card {i}) (length (chunks n message))) # rs"]) (simp add: l)
  qed
qed

lemma qr_transfer_completes:
  assumes z: "cbor_sized (minicbor L)" and u: "base64_engine (url64 L)" and y: "symmetric_laws (sym L)"
    and f: "fragmentable message n" and t: "length transfer_id = 16"
  shows "\<exists>texts. fragment_qr_message L message n transfer_id = Inr texts \<and>
    length texts = div_ceil (length message) n \<and> distinct texts \<and>
    (\<forall>s0 t0 ev. s0 \<in> set texts \<longrightarrow>
      (\<forall>(s, t) \<in> set ev. (s \<in> set texts \<or> foreign L message n transfer_id s) \<and>
         unat t0 \<le> unat t \<and> unat t \<le> unat t0 + 30000) \<longrightarrow>
      set texts \<subseteq> fst ` set ((s0, t0) # ev) \<longrightarrow> \<not> set texts \<subseteq> fst ` set (butlast ((s0, t0) # ev)) \<longrightarrow>
      (\<exists>rs. qr_pushes L ((s0, t0) # ev) qr_new = (qr_new, rs @ [Inr (Complete message)]) \<and>
         (\<forall>r \<in> set rs. \<forall>m. r \<noteq> Inr (Complete m))))"
proof -
  obtain texts where x: "fragment_qr_message L message n transfer_id = Inr texts"
    "length texts = length (chunks n message)"
    "\<forall>i < length texts. encode_text L (nth_frame (sym L) message n transfer_id i) = Inr (texts ! i)"
    by (rule fragment_ok [OF z u y f t])
  have d: "decode_text L (texts ! i) = Inr (nth_frame (sym L) message n transfer_id i)"
    if "i < length (chunks n message)" for i
    using x that nth_frame_wf [OF f y t that] decode_text_iff [OF cbor_sized.axioms(1) [OF z] u] by simp
  have n: "0 < n" using f by (rule fragmentableD(3))
  have "distinct texts"
    unfolding distinct_conv_nth using frame_texts_inj [OF f d] x(2) by metis
  then show ?thesis
    using x(1,2) length_chunks [OF n, of message] scan_from_new [OF f d x(2)]
    by (intro exI [of _ texts]) (simp only: simp_thms, blast)
qed

end
