(* ===== verification/Transfer_Properties.thy ===== *)
theory Transfer_Properties
  imports Qr_Transfer Recipient_Properties
begin

text \<open>
  The properties of QR transfers: fragmentation succeeds exactly on the supported sizes, the frames
  reassemble in any order and among noise, the reassembler stays within its bounds whatever is
  scanned, and a completed message is the announced one.
\<close>

text \<open>C20: A message of 1 to 65536 bytes with a chunk size of 1 to 600 that needs at most 128
  fragments (and no other) is split into exactly the rounded-up number of frames; and pushing those
  frames into a fresh reassembler in any order, with duplicates, among unreadable texts and frames of
  other transfers after the first, completes with the original message at the moment the last missing
  fragment arrives and not before, provided every clock reading lies in the 30 seconds after the
  first.\<close>

theorem qr_transfer_any_order:
  assumes "cbor_sized (minicbor L)" "base64_engine (url64 L)" "symmetric_laws (sym L)"
    and "fragmentable message n" "length transfer_id = TRANSFER_ID_BYTES"
  shows "\<exists>texts. fragment_qr_message L message n transfer_id = Inr texts \<and>
    length texts = div_ceil (length message) n \<and> distinct texts \<and>
    (\<forall>s0 t0 ev. s0 \<in> set texts \<longrightarrow>
      (\<forall>(s, t) \<in> set ev. (s \<in> set texts \<or> foreign L message n transfer_id s) \<and>
         unat t0 \<le> unat t \<and> unat t \<le> unat t0 + 30000) \<longrightarrow>
      set texts \<subseteq> fst ` set ((s0, t0) # ev) \<longrightarrow> \<not> set texts \<subseteq> fst ` set (butlast ((s0, t0) # ev)) \<longrightarrow>
      (\<exists>rs. qr_pushes L ((s0, t0) # ev) qr_new = (qr_new, rs @ [Inr (Complete message)]) \<and>
         (\<forall>r \<in> set rs. \<forall>m. r \<noteq> Inr (Complete m))))"
  by (rule qr_transfer_completes [OF assms(1-4)]) (use assms(5) in simp)

theorem qr_transfer_any_order_witness:
  "\<exists>texts rs. fragment_qr_message ref_lib [1, 2, 3] 1 (replicate 16 7) = Inr texts \<and> length texts = 3 \<and>
    qr_pushes ref_lib [(texts ! 2, 100), (texts ! 0, 30100), (''noise'', 150), (texts ! 2, 300), (texts ! 1, 400)] qr_new =
      (qr_new, rs @ [Inr (Complete [1, 2, 3])])"
proof -
  have f: "fragmentable [1, 2, 3 :: byte] 1" by (simp add: fragmentable_def div_ceil_def)
  obtain texts where x: "fragment_qr_message ref_lib [1, 2, 3] 1 (replicate 16 7) = Inr texts"
      "length texts = div_ceil (length [1, 2, 3 :: byte]) 1" "distinct texts" and
    run: "\<forall>s0 t0 ev. s0 \<in> set texts \<longrightarrow>
      (\<forall>(s, t) \<in> set ev. (s \<in> set texts \<or> foreign ref_lib [1, 2, 3] 1 (replicate 16 7) s) \<and>
         unat t0 \<le> unat t \<and> unat t \<le> unat t0 + 30000) \<longrightarrow>
      set texts \<subseteq> fst ` set ((s0, t0) # ev) \<longrightarrow> \<not> set texts \<subseteq> fst ` set (butlast ((s0, t0) # ev)) \<longrightarrow>
      (\<exists>rs. qr_pushes ref_lib ((s0, t0) # ev) qr_new = (qr_new, rs @ [Inr (Complete [1, 2, 3])]) \<and>
         (\<forall>r \<in> set rs. \<forall>m. r \<noteq> Inr (Complete m)))"
    using qr_transfer_any_order [OF ref_laws(3,8,7) f, of "replicate 16 7"] by auto
  from x obtain a b c where t: "texts = [a, b, c]" and d: "a \<noteq> b" "b \<noteq> c"
    by (auto simp: div_ceil_def length_Suc_conv numeral_3_eq_3)
  have noise: "decode_text ref_lib ''noise'' = Inl MalformedFrame"
    by (simp add: decode_text_def starts_with_def TEXT_PREFIX_def)
  have l16: "length (replicate 16 (7 :: byte)) = 16" by simp
  obtain texts' where "fragment_qr_message ref_lib [1, 2, 3] 1 (replicate 16 7) = Inr texts'"
    "length texts' = length (chunks 1 [1, 2, 3 :: byte])"
    "\<forall>i < length texts'. encode_text ref_lib (nth_frame (sym ref_lib) [1, 2, 3] 1 (replicate 16 7) i) = Inr (texts' ! i)"
    by (rule fragment_ok [OF ref_laws(3,8,7) f l16])
  with x t have "encode_text ref_lib (nth_frame (sym ref_lib) [1, 2, 3] 1 (replicate 16 7) 1) = Inr b" by auto
  then have "b \<noteq> ''noise''"
    by (auto simp: encode_text_def result_iff Let_def TEXT_PREFIX_def simp del: ref_lib_simps)
  moreover have "\<forall>(s, t) \<in> set [(a, 30100 :: u64), (''noise'', 150), (c, 300), (b, 400)].
      (s \<in> set texts \<or> foreign ref_lib [1, 2, 3] 1 (replicate 16 7) s) \<and> unat (100 :: u64) \<le> unat t \<and>
      unat t \<le> unat (100 :: u64) + 30000"
    using t noise by (simp add: foreign_def)
  moreover have "set texts \<subseteq> fst ` set ((c, 100 :: u64) # [(a, 30100), (''noise'', 150), (c, 300), (b, 400)])"
    "c \<in> set texts" using t by auto
  moreover have "\<not> set texts \<subseteq> fst ` set (butlast ((c, 100 :: u64) # [(a, 30100), (''noise'', 150), (c, 300), (b, 400)]))"
    using t d calculation(1) by auto
  ultimately have "\<exists>rs. qr_pushes ref_lib ((c, 100) # [(a, 30100), (''noise'', 150), (c, 300), (b, 400)]) qr_new =
      (qr_new, rs @ [Inr (Complete [1, 2, 3])])"
    using run by blast
  then show ?thesis using t x by (intro exI [of _ texts]) (simp add: div_ceil_def del: qr_pushes.simps)
qed

text \<open>Any other size is refused: \<open>fragment_qr_message\<close> succeeds exactly when the message,
  the chunk size and the number of fragments are supported.\<close>

theorem qr_fragment_exact:
  assumes "cbor_sized (minicbor L)" "base64_engine (url64 L)" "symmetric_laws (sym L)"
    and "length transfer_id = TRANSFER_ID_BYTES"
  shows "isOk (fragment_qr_message L message n transfer_id) \<longleftrightarrow>
    message \<noteq> [] \<and> length message \<le> MAX_QR_MESSAGE_BYTES \<and> 1 \<le> n \<and> n \<le> DEFAULT_QR_CHUNK_BYTES \<and>
    div_ceil (length message) n \<le> MAX_QR_FRAGMENTS"
  using qr_transfer_completes [OF assms(1-3), of message n transfer_id] assms(4)
    fragment_error [of message n L transfer_id]
  by (auto simp: isOk_iff fragmentable_def)

theorem qr_fragment_exact_witness:
  "isOk (fragment_qr_message ref_lib (replicate 65536 0) 600 (replicate 16 7)) \<and>
   \<not> isOk (fragment_qr_message ref_lib (replicate 65536 0) 511 (replicate 16 7))"
  using qr_fragment_exact [OF ref_laws(3,8,7), of "replicate 16 7" "replicate 65536 0" 600]
    qr_fragment_exact [OF ref_laws(3,8,7), of "replicate 16 7" "replicate 65536 0" 511]
  by (simp add: div_ceil_def)

text \<open>A frame text is read as a frame exactly when that frame is well-formed (its widths, an
  index below a count of at most 128, a chunk of 1 to 600 bytes within the announced length) and
  writing it gives that text: the text form is canonical.\<close>

theorem qr_frame_text_exact:
  assumes "cbor_sized (minicbor L)" "base64_engine (url64 L)"
  shows "(decode_text L t = Inr f \<longleftrightarrow> wf_frame f \<and> encode_text L f = Inr t) \<and>
    (wf_frame f \<longrightarrow> isOk (encode_text L f))"
  using decode_text_iff [OF cbor_sized.axioms(1) [OF assms(1)] assms(2)] encode_text_total [OF assms, of f]
  by (simp add: isOk_iff)

theorem qr_frame_text_exact_witness:
  "\<exists>t. decode_text ref_lib t = Inr \<lparr> fr_transfer_id = replicate 16 0, fr_digest = replicate 32 0, fr_index = 0,
     fr_count = 1, fr_total_len = 1, fr_chunk = [5] \<rparr>"
proof -
  let ?f = "\<lparr> fr_transfer_id = replicate 16 0, fr_digest = replicate 32 0, fr_index = 0,
     fr_count = 1, fr_total_len = 1, fr_chunk = [5] \<rparr>"
  have w: "wf_frame ?f" by (simp add: wf_frame_def)
  then have "isOk (encode_text ref_lib ?f)" using qr_frame_text_exact [OF ref_laws(3,8)] by blast
  then obtain t where "encode_text ref_lib ?f = Inr t" by (auto simp: isOk_iff)
  with w qr_frame_text_exact [OF ref_laws(3,8), of t ?f] show ?thesis by blast
qed

text \<open>C26: Whatever texts and clock readings a fresh reassembler is fed, it keeps its invariant:
  an active assembly has one slot per announced fragment, at most 128 of them, counters that agree
  with the slots, and never more stored bytes than announced, hence at most 65536.\<close>

theorem qr_reassembler_bounded:
  assumes "cbor_codec (minicbor L)" "base64_engine (url64 L)" "qr_pushes L ev qr_new = (q, rs)"
  shows "qr_inv q \<and> (\<forall>a. qr_active q = Some a \<longrightarrow> slot_bytes (aa_chunks a) \<le> 65536 \<and> length (aa_chunks a) \<le> 128)"
proof -
  have "qr_inv qr_new" by (simp add: qr_inv_def qr_new_def)
  from qr_pushes_inv [OF assms(1,2) this assms(3)] show ?thesis
    by (auto simp: qr_inv_def assembly_ok_def)
qed

theorem qr_reassembler_bounded_witness:
  "qr_inv (fst (qr_pushes ref_lib [(''x'', 1), (''y'', 0)] qr_new))"
  using qr_reassembler_bounded [OF ref_laws(4,8), of "[(''x'', 1), (''y'', 0)]"]
  by (metis prod.collapse)

text \<open>A message reported complete hashes to the digest and has the length that its frames
  announced, and leaves a fresh reassembler; a poisoned reassembler refuses everything until it is
  reset.\<close>

theorem qr_complete_authentic:
  assumes "qr_push L s t q = (q', Inr (Complete m))"
  shows "(\<exists>f. decode_text L s = Inr f \<and> message_digest (sym L) m = fr_digest f \<and> length m = fr_total_len f) \<and>
    q' = qr_new \<and> \<not> qr_poisoned q \<and>
    qr_push L s' t' \<lparr> qr_active = None, qr_poisoned = True \<rparr> = (\<lparr> qr_active = None, qr_poisoned = True \<rparr>, Inl Poisoned)"
proof -
  have "\<not> qr_poisoned q" using assms qr_poisoned_stays [of q L s t] by auto
  with qr_push_complete [OF assms] show ?thesis by (auto simp: qr_poisoned_stays)
qed

theorem qr_complete_authentic_witness:
  "\<exists>s q. qr_push ref_lib s 5 qr_new = (q, Inr (Complete [9])) \<and> q = qr_new"
proof -
  have f: "fragmentable [9 :: byte] 1" by (simp add: fragmentable_def div_ceil_def)
  obtain texts where x: "length texts = div_ceil (length [9 :: byte]) 1" and
    run: "\<forall>s0 t0 ev. s0 \<in> set texts \<longrightarrow>
      (\<forall>(s, t) \<in> set ev. (s \<in> set texts \<or> foreign ref_lib [9] 1 (replicate 16 7) s) \<and>
         unat t0 \<le> unat t \<and> unat t \<le> unat t0 + 30000) \<longrightarrow>
      set texts \<subseteq> fst ` set ((s0, t0) # ev) \<longrightarrow> \<not> set texts \<subseteq> fst ` set (butlast ((s0, t0) # ev)) \<longrightarrow>
      (\<exists>rs. qr_pushes ref_lib ((s0, t0) # ev) qr_new = (qr_new, rs @ [Inr (Complete [9])]) \<and>
         (\<forall>r \<in> set rs. \<forall>m. r \<noteq> Inr (Complete m)))"
    using qr_transfer_completes [OF ref_laws(3,8,7) f, of "replicate 16 7"] by auto
  from x obtain a where t: "texts = [a]" by (auto simp: div_ceil_def length_Suc_conv)
  with run [rule_format, of a "[]" 5] have "qr_push ref_lib a 5 qr_new = (qr_new, Inr (Complete [9]))"
    by (auto split: prod.splits)
  from qr_complete_authentic [OF this] this show ?thesis by blast
qed

end
