(* ===== verification/Storage_Properties.thy ===== *)
theory Storage_Properties
  imports Replay_File Protocol_Properties
begin

text \<open>
  The properties of the durable replay store: replacement of a file, refinement of the state by the
  guard, at-most-once across calls, storage failures and restarts, and what an orderly restart
  finds, each with a run on a small file system.
\<close>

subsection \<open>A small file system for the runs\<close>

definition sample_path :: path where
  "sample_path = \<lparr> absolute = True, comps = [''state'', ''replay''] \<rparr>"

definition sample_dir :: path where
  "sample_dir = \<lparr> absolute = True, comps = [''state''] \<rparr>"

definition sample_lock :: path where
  "sample_lock = \<lparr> absolute = True, comps = [''state'', ''replay.lock''] \<rparr>"

definition sample_state :: "replay_role \<Rightarrow> replay_state" where
  "sample_state role = state_new (scope_new role (replicate 16 1) (replicate 16 2)) 900"

definition sample_fs :: "replay_role \<Rightarrow> fs" where
  "sample_fs role = \<lparr> nodes = [sample_dir \<mapsto> Dir 448, sample_lock \<mapsto> Regular [] PRIVATE_MODE 0,
     sample_path \<mapsto> Regular (state_encode rfc8949 (sample_state role)) PRIVATE_MODE 0],
     locks = {}, faults = [], pid = 7, temp_counter = 0 \<rparr>"

definition sample_restart :: "replay_role \<Rightarrow> restart" where
  "sample_restart role = \<lparr> rs_create = False, rs_scope = scope (sample_state role), rs_capacity = 4, rs_now = 900,
     rs_pid = 8, rs_faults = [] \<rparr>"

lemma sample_paths [simp]:
  "sample_lock \<noteq> sample_path" "sample_dir \<noteq> sample_path" "sample_dir \<noteq> sample_lock"
  "sample_path \<noteq> sample_lock" "sample_path \<noteq> sample_dir" "sample_lock \<noteq> sample_dir"
  "parent sample_path = Some sample_dir" "sibling_path sample_path ''.lock'' = Inr sample_lock" "absolute sample_path"
  by (simp_all add: sample_path_def sample_dir_def sample_lock_def parent_def sibling_path_def file_name_def join_path_def)

lemma sample_sibling:
  "sibling_path sample_path s = Inr (sample_path\<lparr> comps := [''state'', ''replay'' @ s] \<rparr>)"
  by (simp add: sample_path_def parent_def sibling_path_def file_name_def join_path_def)

lemma sample_state_good: "wf_state (sample_state role)" "state_inv 4 (sample_state role)"
  by (simp_all add: sample_state_def wf_state_def state_new_def scope_new_def)
    (simp add: state_inv_def entries_ok_def split: replay_role.splits)

lemma temp_suffix_not_lock: "temp_suffix f \<noteq> ''.lock''"
proof
  assume "temp_suffix f = ''.lock''"
  then have "last (temp_suffix f) = last ''.lock''" by simp
  then show False by (simp add: temp_suffix_def)
qed

text \<open>A guard over the sample files: a replacement goes through.\<close>

definition sample_files :: "(path \<Rightarrow> node option) \<Rightarrow> bool" where
  "sample_files m \<longleftrightarrow> (\<forall>q. q \<notin> {sample_dir, sample_lock, sample_path} \<longrightarrow> m q = None) \<and>
     m sample_dir = Some (Dir 448) \<and> (\<nexists>md. m sample_path = Some (Dir md))"

lemma sample_replaced:
  assumes "sample_files (nodes f)" "faults f = []"
  shows "\<exists>t. atomic_replace sample_path b f = (t, Inr ()) \<and> faults t = []"
proof (rule atomic_replace_run [OF assms(2)])
  show "sibling_path sample_path (temp_suffix f) = Inr (sample_path\<lparr> comps := [''state'', ''replay'' @ temp_suffix f] \<rparr>)"
    by (rule sample_sibling)
  have "sample_path\<lparr> comps := [''state'', ''replay'' @ temp_suffix f] \<rparr> \<notin> {sample_dir, sample_lock, sample_path}"
    using temp_suffix_not_lock [of f] temp_suffix_nonempty [of f]
    by (simp add: sample_path_def sample_dir_def sample_lock_def)
  with assms(1) show "nodes f (sample_path\<lparr> comps := [''state'', ''replay'' @ temp_suffix f] \<rparr>) = None"
    by (simp add: sample_files_def)
  show "\<nexists>md. nodes f sample_path = Some (Dir md)" "nodes f sample_dir = Some (Dir 448)" using assms(1) unfolding sample_files_def by blast+
qed (rule sample_paths)

lemma sample_opened:
  obtains t l where
    "file_restart rfc8949 sample_path (sample_restart role) (None, sample_fs role) =
      (Some \<lparr> fg_path = sample_path, fg_state = sample_state role, fg_capacity = 4, fg_poisoned = False, fg_lock = l \<rparr>, t)"
    "faults t = []" "sample_files (nodes t)"
proof -
  define f where "f = (sample_fs role)\<lparr> pid := 8, temp_counter := 0, faults := [] \<rparr>"
  have n: "nodes f = nodes (sample_fs role)" "faults f = []" "locks f = {}" by (simp_all add: f_def sample_fs_def)
  have o: "orderly sample_path f"
    unfolding orderly_def n by (simp add: sample_fs_def private_node_def)
  have p: "nodes f sample_path = Some (Regular (state_encode rfc8949 (sample_state role)) PRIVATE_MODE 0)"
    unfolding n by (simp add: sample_fs_def)
  from file_open_guard_run [OF ref_laws(3) [unfolded ref_lib_simps] o n(2) sample_state_good p]
  obtain t l where t: "file_open_guard rfc8949 sample_path (scope (sample_state role)) 4 f =
    (t, Inr \<lparr> fg_path = sample_path, fg_state = sample_state role, fg_capacity = 4, fg_poisoned = False, fg_lock = l \<rparr>)"
    "nodes t = nodes f" "faults t = []" by auto
  have "sample_files (nodes t)" unfolding t(2) n by (simp add: sample_files_def sample_fs_def)
  with that [of l t] t show thesis
    by (simp add: file_restart_def sample_restart_def file_start_def Let_def flip: f_def)
qed

lemma wf_sample_restart: "wf_restart (sample_restart role)"
  by (simp add: wf_restart_def sample_restart_def sample_state_def state_new_def scope_new_def)


subsection \<open>At most once, across failures and restarts\<close>


text \<open>A consumption on the opened sample guard goes through.\<close>

lemma sample_consumed:
  assumes "state_call c 4 (sample_state role) = (st', Inr ())"
  obtains s where "replay_call (file_ops rfc8949) c
    (replay_events (file_ops rfc8949) (file_restart rfc8949 sample_path) [Restart (sample_restart role)]
      (None, sample_fs role)) = (s, Inr ())"
proof -
  obtain t l where t: "file_restart rfc8949 sample_path (sample_restart role) (None, sample_fs role) =
      (Some \<lparr> fg_path = sample_path, fg_state = sample_state role, fg_capacity = 4, fg_poisoned = False, fg_lock = l \<rparr>, t)"
      (is "_ = (Some ?g, t)") and f: "faults t = []" "sample_files (nodes t)" by (rule sample_opened)
  obtain u where u: "atomic_replace sample_path (state_encode rfc8949 st') t = (u, Inr ())"
    using sample_replaced [OF f(2,1)] by blast
  show thesis
  proof (cases rule: file_call_cases [of rfc8949 c "(Some ?g, t)"])
    case (same e)
    with assms show ?thesis
      by (cases c) (auto simp: replay_call_def file_ops_def slot_step_def file_consume_request_def
        file_consume_response_def state_call_def commit_def guard_atomic_replace_def mapErrS_def u)
  next
    case (commit g f' st'')
    then have "g = ?g" "f' = t" "st'' = st'" using assms by auto
    with commit(4) t u that show ?thesis
      by (simp add: slot_step_def commit_def guard_atomic_replace_def mapErrS_def)
  qed
qed



text \<open>C17: A response the desktop opened over the file guard is never opened again, whatever calls,
  storage failures and restarts follow, for a request that expires no later.\<close>

theorem response_opened_once_ever:
  assumes "cbor_codec cb" "list_all (wf_event wf_restart) before" "list_all (wf_event wf_restart) after"
    and "wf_call (response_call L pairing m v now)"
    and "open_response L (file_ops cb) m v pairing session now
           (replay_events (file_ops cb) (file_restart cb p) before (None, f)) = (s, Inr fk)"
    and "rq_expires_at_unix (vr_payload v') \<le> rq_expires_at_unix (vr_payload v)"
  shows "\<not> isOk (snd (open_response L (file_ops cb) m v' pairing' session' now'
    (replay_events (file_ops cb) (file_restart cb p) after s)))"
proof -
  have "slot_inv cb p (None, f)" using assms(1) by (simp add: slot_inv_def)
  with durable.events_keep [OF _ assms(2)]
  have "slot_inv cb p (replay_events (file_ops cb) (file_restart cb p) before (None, f))" by blast
  then show ?thesis by (rule durable.response_never_opened_again [OF _ assms(4,5,3,6)])
qed

theorem response_opened_once_ever_witness:
  "\<exists>m v s. open_response ref_lib (file_ops rfc8949) m v sample_pairing 11 960
      (replay_events (file_ops rfc8949) (file_restart rfc8949 sample_path) [Restart (sample_restart DesktopResponses)]
        (None, sample_fs DesktopResponses)) = (s, Inr (replicate 16 1)) \<and>
    \<not> isOk (snd (open_response ref_lib (file_ops rfc8949) m v sample_pairing 11 961
      (replay_events (file_ops rfc8949) (file_restart rfc8949 sample_path) [Restart (sample_restart DesktopResponses)] s)))"
proof -
  obtain m v where o: "open_response_checks ref_lib m v sample_pairing 11 960 = Inr (replicate 16 1)"
    and x: "rq_expires_at_unix (vr_payload v) = 1000" by (rule sample_sealed)
  let ?c = "response_call ref_lib sample_pairing m v 960"
  obtain st' where "state_call ?c 4 (sample_state DesktopResponses) = (st', Inr ())"
    unfolding state_call_def response_call_def x
    by (simp add: state_consume_response_ok sample_pairing_def sample_state_def state_new_def
        retained_def scope_new_def validate_expiry_def validate_request_time_iff)
  then obtain s where "replay_call (file_ops rfc8949) ?c
      (replay_events (file_ops rfc8949) (file_restart rfc8949 sample_path) [Restart (sample_restart DesktopResponses)]
      (None, sample_fs DesktopResponses)) = (s, Inr ())" by (rule sample_consumed)
  then have r: "open_response ref_lib (file_ops rfc8949) m v sample_pairing 11 960
      (replay_events (file_ops rfc8949) (file_restart rfc8949 sample_path) [Restart (sample_restart DesktopResponses)]
      (None, sample_fs DesktopResponses)) = (s, Inr (replicate 16 1))"
    unfolding open_response_ok using o by (simp add: replay_call_def response_call_def)
  have w: "wf_call ?c" using length_hash [OF ref_laws(7)] unfolding response_call_def by (simp add: sample_pairing_def)
  have e: "list_all (wf_event wf_restart) [Restart (sample_restart DesktopResponses)]" by (simp add: wf_sample_restart)
  from response_opened_once_ever [OF ref_laws(4) [unfolded ref_lib_simps] e e w r] r show ?thesis by blast
qed

subsection \<open>The guard refines the state\<close>

text \<open>C18: A call on the file guard answers as the pure replay state does: it refuses with the
  state's error and touches nothing, or it has replaced the file by the encoding of the next state
  before it adopts that state, or storage failed and the guard is poisoned, with the old or the new
  state in the file; a poisoned guard refuses every call.\<close>

theorem file_guard_refines_state:
  assumes "replay_call (file_ops cb) c (Some g, f) = (s', r)"
  shows "if fg_poisoned g then r = Inl ReplayStateError \<and> s' = (Some g, f)
    else case state_call c (fg_capacity g) (fg_state g) of
      (_, Inl e) \<Rightarrow> r = Inl e \<and> s' = (Some g, f)
    | (st', Inr _) \<Rightarrow>
        (\<exists>t. r = Inr () \<and> s' = (Some (g\<lparr> fg_state := st' \<rparr>), t) \<and>
          nodes t = (nodes f)(fg_path g \<mapsto> Regular (state_encode cb st') PRIVATE_MODE 0) \<and> locks t = locks f) \<or>
        (\<exists>t. r = Inl ReplayStateError \<and> s' = (Some (g\<lparr> fg_poisoned := True \<rparr>), t) \<and>
          agree (insert (fg_path g) (temps (fg_path g))) f t \<and>
          nodes t (fg_path g) \<in> {nodes f (fg_path g), Some (Regular (state_encode cb st') PRIVATE_MODE 0)})"
  using file_call_refines [OF _ assms] file_call_poisoned [of g cb c f] assms by (cases "fg_poisoned g") simp_all

theorem file_guard_refines_state_witness:
  "\<exists>t. replay_call (file_ops rfc8949) (CallRequest (replicate 16 1) (replicate 16 2) (replicate 16 3) (replicate 32 5) 10 950)
     (Some \<lparr> fg_path = sample_path, fg_state = sample_state PhoneRequests, fg_capacity = 4, fg_poisoned = False,
        fg_lock = sample_lock \<rparr>, sample_fs PhoneRequests) = (t, Inl Expired) \<and> snd t = sample_fs PhoneRequests"
proof -
  let ?g = "\<lparr> fg_path = sample_path, fg_state = sample_state PhoneRequests, fg_capacity = 4, fg_poisoned = False,
        fg_lock = sample_lock \<rparr>"
  let ?c = "CallRequest (replicate 16 1) (replicate 16 2) (replicate 16 3) (replicate 32 5) 10 950"
  obtain t r where r: "replay_call (file_ops rfc8949) ?c (Some ?g, sample_fs PhoneRequests) = (t, r)" by fastforce
  have "state_call ?c 4 (sample_state PhoneRequests) = (sample_state PhoneRequests, Inl Expired)"
    by (simp add: state_call_def state_consume_request_def validate_expiry_def validate_request_time_def)
  with file_guard_refines_state [OF r] r show ?thesis by simp
qed


subsection \<open>Files\<close>

text \<open>C27: Replacing a file is all or nothing, whatever fails on the way: it succeeds with exactly
  that path holding the new content, privately, or fails with the path holding what it held or the
  new content, and no path but the path and its temporary files is touched.\<close>

theorem replacement_all_or_nothing:
  assumes "atomic_replace p b f = (t, r)"
  shows "agree (insert p (temps p)) f t \<and>
    (case r of Inr _ \<Rightarrow> nodes t = (nodes f)(p \<mapsto> Regular b PRIVATE_MODE 0)
     | Inl _ \<Rightarrow> nodes t p = nodes f p \<or> nodes t p = Some (Regular b PRIVATE_MODE 0))"
  using assms atomic_replace_ok [of p b f t] atomic_replace_fail [of p b f t]
  by (cases r) (auto simp: agree_def)

theorem replacement_all_or_nothing_witness:
  "\<exists>t. atomic_replace sample_path [1, 2] (sample_fs PhoneRequests) = (t, Inr ()) \<and>
    nodes t sample_path = Some (Regular [1, 2] 384 0) \<and> nodes t sample_lock = Some (Regular [] 384 0)"
proof -
  have "sample_files (nodes (sample_fs PhoneRequests))" by (simp add: sample_files_def sample_fs_def)
  then obtain t where t: "atomic_replace sample_path [1, 2] (sample_fs PhoneRequests) = (t, Inr ())"
    using sample_replaced [of "sample_fs PhoneRequests" "[1, 2]"] by (auto simp: sample_fs_def)
  from replacement_all_or_nothing [OF t] have "nodes t = (nodes (sample_fs PhoneRequests))(sample_path \<mapsto> Regular [1, 2] PRIVATE_MODE 0)"
    by simp
  with t show ?thesis by (simp add: sample_fs_def)
qed

text \<open>What a file guard wrote, an orderly restart reads back: with the lock free, the
  directory in place and no storage fault, opening the file again succeeds and yields the very state
  that was written, for every state a guard can hold.\<close>

theorem file_guard_reopens:
  assumes "cbor_sized cb" "wf_state st" "state_inv capacity st"
    and "orderly p f" "faults f = []" "nodes f p = Some (Regular (state_encode cb st) PRIVATE_MODE 0)"
  shows "\<exists>t g. file_open_guard cb p (scope st) capacity f = (t, Inr g) \<and> fg_state g = st \<and> \<not> fg_poisoned g \<and>
    nodes t = nodes f"
  using file_open_guard_run [OF assms(1,4,5,2,3,6)] by auto

theorem file_guard_reopens_witness:
  "\<exists>t g. file_open_guard rfc8949 sample_path (scope (sample_state PhoneRequests)) 4 (sample_fs PhoneRequests) = (t, Inr g) \<and>
     fg_state g = sample_state PhoneRequests"
proof -
  have "orderly sample_path (sample_fs PhoneRequests)" "faults (sample_fs PhoneRequests) = []"
    "nodes (sample_fs PhoneRequests) sample_path =
       Some (Regular (state_encode rfc8949 (sample_state PhoneRequests)) PRIVATE_MODE 0)"
    by (simp_all add: orderly_def sample_fs_def private_node_def)
  from file_guard_reopens [OF ref_laws(3) [unfolded ref_lib_simps] sample_state_good this] show ?thesis by blast
qed

text \<open>C28: While a guard lives, whatever it is called for, no second guard on its file can be
  opened or created.\<close>

theorem file_guard_exclusive:
  assumes "file_start cb p a f = (t, Inr g)" "replay_calls (file_ops cb) cs (Some g, t) = ((go, u), rs)"
  shows "\<not> isOk (snd (file_start cb p a' u))"
proof
  assume "isOk (snd (file_start cb p a' u))"
  then obtain w h where w: "file_start cb p a' u = (w, Inr h)" by (metis isOk_iff prod.collapse)
  from file_calls_locks [OF assms(2)] have "locks u = locks t" by auto
  with file_start_lock [OF assms(1)] file_start_lock [OF w] show False by auto
qed

theorem file_guard_exclusive_witness:
  "\<exists>t g. file_start rfc8949 sample_path (sample_restart PhoneRequests) (sample_fs PhoneRequests) = (t, Inr g) \<and>
     \<not> isOk (snd (file_start rfc8949 sample_path (sample_restart PhoneRequests) t))"
proof -
  have "orderly sample_path (sample_fs PhoneRequests)" "faults (sample_fs PhoneRequests) = []"
    "nodes (sample_fs PhoneRequests) sample_path =
       Some (Regular (state_encode rfc8949 (sample_state PhoneRequests)) PRIVATE_MODE 0)"
    by (simp_all add: orderly_def sample_fs_def private_node_def)
  from file_open_guard_run [OF ref_laws(3) [unfolded ref_lib_simps] this(1,2) sample_state_good this(3)]
  obtain t g where t: "file_start rfc8949 sample_path (sample_restart PhoneRequests) (sample_fs PhoneRequests) = (t, Inr g)"
    by (auto simp: file_start_def sample_restart_def)
  from file_guard_exclusive [OF this, of "[]"] t show ?thesis by auto
qed

subsection \<open>The durable state\<close>

text \<open>C29: The replay state keeps its invariant (capacity, order, distinct tokens, one role, nothing
  that had expired) through every successful call, is read back exactly from its encoding and from
  no other text, and its encoding always fits the size the file is read with.\<close>

theorem replay_state_kept:
  assumes "cbor_sized cb" "wf_call c" "wf_state st" "state_inv capacity st"
    and "state_call c capacity st = (st', Inr ())"
  shows "wf_state st' \<and> state_inv capacity st' \<and> length (state_encode cb st') \<le> unat MAX_STATE_BYTES \<and>
    (state_decode cb b capacity = Inr st' \<longleftrightarrow> b = state_encode cb st')"
  using state_call_good [OF assms(5,2-4)] state_encode_fits(2) [OF assms(1)]
    state_decode_iff_encode [OF cbor_sized.axioms(1) [OF assms(1)]] by blast

theorem replay_state_kept_witness:
  "state_inv 4 (committed 950 (RequestEntry (replicate 16 3) (replicate 32 5) 1000) (sample_state PhoneRequests))"
proof -
  let ?c = "CallRequest (replicate 16 1) (replicate 16 2) (replicate 16 3) (replicate 32 5) 1000 950"
  have "state_call ?c 4 (sample_state PhoneRequests) =
      (committed 950 (RequestEntry (replicate 16 3) (replicate 32 5) 1000) (sample_state PhoneRequests), Inr ())"
    unfolding state_call_def
    by (simp add: state_consume_request_ok sample_state_def state_new_def retained_def scope_new_def
        validate_expiry_def validate_request_time_iff)
  from replay_state_kept [OF ref_laws(3) [unfolded ref_lib_simps] _ sample_state_good this] show ?thesis by simp
qed

end
