(* ===== verification/Text_Lines.thy ===== *)
theory Text_Lines
  imports External
begin

text \<open>
  The functions of \<open>str\<close> the desktop crate reads texts with: \<open>lines\<close>, \<open>trim\<close>, and the split of a
  text at its first occurrence of a character.  A text is its UTF-8 bytes, so white space outside
  ASCII is a byte sequence.
\<close>

abbreviation NL :: char where "NL \<equiv> CHR 0x0A"
abbreviation CR :: char where "CR \<equiv> CHR 0x0D"

lemma until_found: "c \<notin> set a \<Longrightarrow> dropWhile (\<lambda>d. d \<noteq> c) (a @ c # b) = c # b \<and> takeWhile (\<lambda>d. d \<noteq> c) (a @ c # b) = a"
  by (induction a) auto

lemma until_none: "c \<notin> set a \<Longrightarrow> dropWhile (\<lambda>d. d \<noteq> c) a = []"
  by (induction a) auto

lemma until_some:
  "dropWhile (\<lambda>d. d \<noteq> c) s = d # b \<Longrightarrow> s = takeWhile (\<lambda>d. d \<noteq> c) s @ c # b \<and> c \<notin> set (takeWhile (\<lambda>d. d \<noteq> c) s)"
  by (induction s) (auto split: if_splits)

subsection \<open>Lines\<close>

text \<open>\<open>lines\<close>: a line ends at a line feed, which is dropped with a carriage return before it; what
  follows the last line feed is a line when it is not empty.\<close>

definition strip_cr :: "string \<Rightarrow> string" where
  "strip_cr l = (if l \<noteq> [] \<and> last l = CR then butlast l else l)"

function (sequential) str_lines :: "string \<Rightarrow> string list" where
  "str_lines s = (case dropWhile (\<lambda>c. c \<noteq> NL) s of
     [] \<Rightarrow> (if s = [] then [] else [s])
   | _ # r \<Rightarrow> strip_cr (takeWhile (\<lambda>c. c \<noteq> NL) s) # str_lines r)"
  by pat_completeness auto

termination
proof (relation "measure length")
  fix s c r assume "dropWhile (\<lambda>c. c \<noteq> NL) s = c # r"
  then have "length (c # r) \<le> length s" by (metis length_dropWhile_le)
  then show "(r, s) \<in> measure length" by simp
qed simp

declare str_lines.simps [simp del]

lemma str_lines_Nil [simp]: "str_lines [] = []"
  by (simp add: str_lines.simps)

lemma str_lines_last: "NL \<notin> set s \<Longrightarrow> s \<noteq> [] \<Longrightarrow> str_lines s = [s]"
  by (simp add: str_lines.simps [of s] until_none)

lemma str_lines_append: "NL \<notin> set l \<Longrightarrow> str_lines (l @ NL # r) = strip_cr l # str_lines r"
  by (simp add: str_lines.simps [of "l @ NL # r"] until_found)

lemma strip_cr_id: "CR \<notin> set l \<Longrightarrow> strip_cr l = l"
  by (auto simp: strip_cr_def dest: last_in_set)

subsection \<open>White space\<close>

text \<open>\<open>White_Space\<close> of Unicode, as UTF-8.\<close>

definition white_space :: "string list" where
  "white_space = [[CHR 0x09], [CHR 0x0A], [CHR 0x0B], [CHR 0x0C], [CHR 0x0D], [CHR 0x20],
     [CHR 0xC2, CHR 0x85], [CHR 0xC2, CHR 0xA0], [CHR 0xE1, CHR 0x9A, CHR 0x80]] @
     map (\<lambda>n. [CHR 0xE2, CHR 0x80, char_of n]) [128::nat ..< 139] @
     [[CHR 0xE2, CHR 0x80, CHR 0xA8], [CHR 0xE2, CHR 0x80, CHR 0xA9], [CHR 0xE2, CHR 0x80, CHR 0xAF],
      [CHR 0xE2, CHR 0x81, CHR 0x9F], [CHR 0xE3, CHR 0x80, CHR 0x80]]"

lemma white_space_nonempty: "w \<in> set white_space \<Longrightarrow> w \<noteq> []"
  by (auto simp: white_space_def)

text \<open>Dropping prefixes of a list of non-empty words for as long as there is one.\<close>

function (sequential) drop_words :: "string list \<Rightarrow> string \<Rightarrow> string" where
  "drop_words ws s = (case find (\<lambda>w. w \<noteq> [] \<and> starts_with s w) ws of
     None \<Rightarrow> s
   | Some w \<Rightarrow> drop_words ws (drop (length w) s))"
  by pat_completeness auto

termination
proof (relation "measure (\<lambda>(_, s). length s)")
  fix ws s w assume "find (\<lambda>w. w \<noteq> [] \<and> starts_with s w) ws = Some w"
  then have "w \<noteq> []" "starts_with s w" by (auto simp: find_Some_iff)
  then show "((ws, drop (length w) s), ws, s) \<in> measure (\<lambda>(_, s). length s)"
    by (cases w) (auto simp: starts_with_iff)
qed simp

declare drop_words.simps [simp del]

definition trim_start :: "string \<Rightarrow> string" where
  "trim_start s = drop_words white_space s"

definition trim_end :: "string \<Rightarrow> string" where
  "trim_end s = rev (drop_words (map rev white_space) (rev s))"

definition trim :: "string \<Rightarrow> string" where
  "trim s = trim_end (trim_start s)"

text \<open>Text that begins and ends with visible ASCII is not trimmed.\<close>

lemma drop_words_none: "(\<And>w. w \<in> set ws \<Longrightarrow> w \<noteq> [] \<Longrightarrow> \<not> starts_with s w) \<Longrightarrow> drop_words ws s = s"
  by (subst drop_words.simps) (auto simp: find_Some_iff split: option.splits)

lemma white_space_heads:
  "w \<in> set white_space \<Longrightarrow> (of_char (hd w) :: nat) < 33 \<or> 126 < (of_char (hd w) :: nat)"
  "w \<in> set white_space \<Longrightarrow> (of_char (last w) :: nat) < 33 \<or> 126 < (of_char (last w) :: nat)"
  by (auto simp: white_space_def)

definition visible :: "char \<Rightarrow> bool" where
  "visible c \<longleftrightarrow> 33 \<le> (of_char c :: nat) \<and> (of_char c :: nat) \<le> 126"

lemma trim_visible:
  assumes "s \<noteq> []" "visible (hd s)" "visible (last s)" shows "trim s = s"
proof -
  have "\<not> starts_with s w" if w: "w \<in> set white_space" "w \<noteq> []" for w
  proof
    assume "starts_with s w"
    then have "hd s = hd w" using w(2) by (cases w) (auto simp: starts_with_iff)
    with white_space_heads(1) [OF w(1)] assms(2) show False by (simp add: visible_def)
  qed
  then have "trim_start s = s" unfolding trim_start_def by (rule drop_words_none)
  moreover have "\<not> starts_with (rev s) w" if w: "w \<in> set (map rev white_space)" "w \<noteq> []" for w
  proof
    assume "starts_with (rev s) w"
    then have "hd (rev s) = hd w" using w(2) by (cases w) (auto simp: starts_with_iff)
    moreover obtain v where "v \<in> set white_space" "w = rev v" using w(1) by auto
    ultimately show False using white_space_heads(2) [of v] assms(3) by (simp add: visible_def hd_rev)
  qed
  then have "trim_end s = s" unfolding trim_end_def using drop_words_none by (metis rev_rev_ident)
  ultimately show ?thesis by (simp add: trim_def)
qed

lemma graphic_visible: "graphic s \<longleftrightarrow> list_all visible s"
  by (simp add: graphic_def visible_def [abs_def])

lemma trim_Nil [simp]: "trim [] = []"
proof -
  have "drop_words ws [] = []" for ws by (rule drop_words_none) (simp add: starts_with_iff)
  then show ?thesis by (simp add: trim_def trim_start_def trim_end_def)
qed

lemma trim_graphic: "graphic s \<Longrightarrow> trim s = s"
  using trim_visible [of s] by (cases "s = []") (auto simp: graphic_visible list_all_iff)

lemma graphic_no_break: "graphic s \<Longrightarrow> NL \<notin> set s \<and> CR \<notin> set s"
  by (auto simp: graphic_def list_all_iff)

subsection \<open>Splitting at a character\<close>

text \<open>\<open>split_once\<close> and \<open>split\<close> with a character.\<close>

definition split_once :: "char \<Rightarrow> string \<Rightarrow> (string \<times> string) option" where
  "split_once c s = (case dropWhile (\<lambda>d. d \<noteq> c) s of [] \<Rightarrow> None | _ # r \<Rightarrow> Some (takeWhile (\<lambda>d. d \<noteq> c) s, r))"

lemma split_once_iff: "split_once c s = Some (a, b) \<longleftrightarrow> s = a @ c # b \<and> c \<notin> set a"
  using until_some [of c s] until_found [of c a b] by (auto simp: split_once_def split: list.splits)

subsection \<open>Words\<close>

text \<open>\<open>split_whitespace\<close>: the maximal pieces without white space.\<close>

fun until_space :: "string \<Rightarrow> string \<times> string" where
  "until_space [] = ([], [])"
| "until_space (c # s) =
     (if list_ex (starts_with (c # s)) white_space then ([], c # s)
      else case until_space s of (w, r) \<Rightarrow> (c # w, r))"

lemma until_space_append: "until_space s = (w, r) \<Longrightarrow> s = w @ r"
  by (induction s arbitrary: w) (auto split: if_splits prod.splits)

lemma drop_words_length: "length (drop_words ws s) \<le> length s"
proof (induction ws s rule: drop_words.induct)
  case (1 ws s)
  show ?case
  proof (cases "find (\<lambda>w. w \<noteq> [] \<and> starts_with s w) ws")
    case None
    then show ?thesis by (simp add: drop_words.simps [of ws s])
  next
    case (Some w)
    with 1 [OF Some] show ?thesis by (simp add: drop_words.simps [of ws s])
  qed
qed

lemma until_space_progress:
  assumes "trim_start s = c # t" "until_space (c # t) = (w, r)" shows "w \<noteq> []"
proof -
  have "find (\<lambda>w. w \<noteq> [] \<and> starts_with (drop_words ws s) w) ws = None" for ws s
  proof (induction ws s rule: drop_words.induct)
    case (1 ws s)
    then show ?case
      by (cases "find (\<lambda>w. w \<noteq> [] \<and> starts_with s w) ws") (simp_all add: drop_words.simps [of ws s])
  qed
  from this [of white_space s] assms(1) have "\<forall>x \<in> set white_space. x \<noteq> [] \<longrightarrow> \<not> starts_with (c # t) x"
    by (auto simp: trim_start_def find_None_iff)
  then have "\<not> list_ex (starts_with (c # t)) white_space" using white_space_nonempty by (auto simp: list_ex_iff)
  with assms(2) show ?thesis by (auto split: prod.splits)
qed

function (sequential) split_whitespace :: "string \<Rightarrow> string list" where
  "split_whitespace s = (case trim_start s of
     [] \<Rightarrow> []
   | c # t \<Rightarrow> fst (until_space (c # t)) # split_whitespace (snd (until_space (c # t))))"
  by pat_completeness auto

termination
proof (relation "measure length")
  fix s c t assume s: "trim_start s = c # t"
  obtain w r where w: "until_space (c # t) = (w, r)" by fastforce
  have "length (c # t) \<le> length s" using drop_words_length [of white_space s] s by (simp add: trim_start_def)
  moreover have "length (c # t) = length w + length r" using until_space_append [OF w] by (metis length_append)
  moreover have "w \<noteq> []" by (rule until_space_progress [OF s w])
  ultimately have "length r < length s" by (cases w) auto
  then show "(snd (until_space (c # t)), s) \<in> measure length" using w by simp
qed simp

declare split_whitespace.simps [simp del]

text \<open>Words of visible ASCII with single spaces between them.\<close>

lemma visible_no_space: "visible c \<Longrightarrow> \<not> list_ex (starts_with (c # s)) white_space"
proof
  assume v: "visible c" and "list_ex (starts_with (c # s)) white_space"
  then obtain w where w: "w \<in> set white_space" "starts_with (c # s) w" by (auto simp: list_ex_iff)
  have "hd w = c" using white_space_nonempty [OF w(1)] w(2) by (cases w) (auto simp: starts_with_iff)
  with white_space_heads(1) [OF w(1)] v show False by (simp add: visible_def)
qed

lemma trim_start_visible: "visible c \<Longrightarrow> trim_start (c # s) = c # s"
  using visible_no_space [of c s] unfolding trim_start_def
  by (intro drop_words_none) (auto simp: list_ex_iff)

lemma trim_start_Nil [simp]: "trim_start [] = []"
  unfolding trim_start_def by (rule drop_words_none) (simp add: starts_with_iff)

lemma trim_start_space: "trim_start (CHR '' '' # s) = trim_start s"
proof -
  have "find (\<lambda>w. w \<noteq> [] \<and> starts_with (CHR '' '' # s) w) white_space = Some '' ''"
    by (simp add: white_space_def starts_with_def)
  then show ?thesis by (simp add: trim_start_def drop_words.simps [of white_space "CHR '' '' # s"])
qed

lemma until_space_word: "graphic w \<Longrightarrow> r = [] \<or> hd r = CHR '' '' \<Longrightarrow> until_space (w @ r) = (w, r)"
proof (induction w)
  case Nil
  then show ?case by (cases r) (auto simp: white_space_def starts_with_def)
next
  case (Cons c w)
  then have "visible c" by (simp add: graphic_visible)
  with visible_no_space [of c "w @ r"] Cons show ?case by (simp add: graphic_visible)
qed

lemma split_whitespace_Nil [simp]: "split_whitespace [] = []"
  by (simp add: split_whitespace.simps [of "[]"])

lemma split_whitespace_word:
  assumes "graphic w" "w \<noteq> []" "r = [] \<or> hd r = CHR '' ''"
  shows "split_whitespace (w @ r) = w # split_whitespace r"
proof -
  obtain c v where w: "w = c # v" using assms(2) by (cases w) auto
  with assms(1) have "trim_start (c # v @ r) = c # v @ r" by (intro trim_start_visible) (simp add: graphic_visible)
  moreover have "until_space (c # v @ r) = (c # v, r)" using until_space_word [OF assms(1,3)] w by simp
  ultimately show ?thesis by (simp add: split_whitespace.simps [of "c # v @ r"] w del: until_space.simps)
qed

lemma split_whitespace_space: "split_whitespace (CHR '' '' # s) = split_whitespace s"
  by (simp add: split_whitespace.simps [of "CHR '' '' # s"] split_whitespace.simps [of s] trim_start_space)

end
