(* ===== verification/Pairing_Stub.thy ===== *)
theory Pairing_Stub
  imports Protocol_Flow Text_Lines
begin

text \<open>
  The public identity stub of \<open>crates/desktop/src/pairing.rs\<close>: its CBOR codec, the recipients it
  stands for, its Bech32 text and the identity file around it, and the file operations on it.
\<close>

subsection \<open>Data\<close>

datatype pairing_error =
    SessionClosed | Timeout | InvalidResponse | FingerprintMismatch | MalformedStub | UnsupportedStub
  | StubEncoding | StateMissing | StateError | StubStorage

record public_identity_stub =
  sb_desktop_id :: bytes
  sb_identity_id :: bytes
  sb_recipient :: string
  sb_desktop_signing_public_key :: bytes
  sb_desktop_selection_public_key :: bytes
  sb_phone_signing_public_key :: bytes
  sb_offer_digest :: bytes
  sb_transcript_fingerprint :: bytes

datatype recipient_type = PhoneType | TagType

definition recipient_type_from_str :: "string \<Rightarrow> recipient_type option" where
  "recipient_type_from_str value =
     (if value = ''phone'' then Some PhoneType else if value = ''tag'' then Some TagType else None)"

definition recipient_type_display :: "recipient_type \<Rightarrow> string" where
  "recipient_type_display t = (case t of PhoneType \<Rightarrow> ''phone'' | TagType \<Rightarrow> ''tag'')"

definition STUB_VERSION :: u16 where "STUB_VERSION = 2"

definition STUB_HRP :: string where "STUB_HRP = ''age-plugin-phone-''"

subsection \<open>The codec\<close>

definition stub_encode :: "('pk, 'sg, 'sk) lib \<Rightarrow> public_identity_stub \<Rightarrow> bytes" where
  "stub_encode L v = (let cb = minicbor L in
     e_array cb 11 @ e_u16 cb STUB_VERSION @ e_u16 cb ALGORITHM_SUITE @ e_bytes cb (sb_desktop_id v) @
     e_bytes cb (sb_identity_id v) @ e_str cb (sb_recipient v) @ e_bytes cb (sb_desktop_signing_public_key v) @
     e_bytes cb (sb_desktop_selection_public_key v) @ e_bytes cb (sb_phone_signing_public_key v) @
     e_bytes cb (sb_offer_digest v) @ e_bytes cb (sb_transcript_fingerprint v) @ e_str cb PLUGIN_NAME)"

definition stub_fixed :: "('pk, 'sg, 'sk) lib \<Rightarrow> nat \<Rightarrow> bytes \<Rightarrow> (pairing_error, bytes \<times> bytes) result" where
  "stub_fixed L n d =
     bindE (okOr MalformedStub (d_bytes (minicbor L) d)) (\<lambda>(b, d).
     if length b = n then Inr (b, d) else Inl MalformedStub)"

text \<open>The keys of a stub: points, and four different ones.\<close>

definition stub_keys_bad :: "('pk, 'sg, 'sk) lib \<Rightarrow> public_identity_stub \<Rightarrow> bytes \<Rightarrow> bool" where
  "stub_keys_bad L v identity_public_key \<longleftrightarrow>
     vk_from_sec1 (ec L) (sb_desktop_signing_public_key v) = None \<or>
     pk_from_sec1 (ec L) (sb_desktop_selection_public_key v) = None \<or>
     sb_desktop_selection_public_key v = sb_desktop_signing_public_key v \<or>
     vk_from_sec1 (ec L) (sb_phone_signing_public_key v) = None \<or>
     identity_public_key = sb_desktop_signing_public_key v \<or>
     identity_public_key = sb_desktop_selection_public_key v \<or>
     identity_public_key = sb_phone_signing_public_key v \<or>
     sb_phone_signing_public_key v = sb_desktop_signing_public_key v \<or>
     sb_phone_signing_public_key v = sb_desktop_selection_public_key v"

definition stub_decode :: "('pk, 'sg, 'sk) lib \<Rightarrow> bytes \<Rightarrow> (pairing_error, public_identity_stub) result" where
  "stub_decode L b =
     bindE (okOr MalformedStub (d_array (minicbor L) b)) (\<lambda>(n, d).
     bindE (failIf (n \<noteq> Some 11) MalformedStub) (\<lambda>_.
     bindE (okOr MalformedStub (d_u16 (minicbor L) d)) (\<lambda>(version, d).
     bindE (failIf (version \<noteq> STUB_VERSION) UnsupportedStub) (\<lambda>_.
     bindE (okOr MalformedStub (d_u16 (minicbor L) d)) (\<lambda>(suite, d).
     bindE (failIf (suite \<noteq> ALGORITHM_SUITE) UnsupportedStub) (\<lambda>_.
     bindE (stub_fixed L 16 d) (\<lambda>(desktop_id, d).
     bindE (stub_fixed L 16 d) (\<lambda>(identity_id, d).
     bindE (okOr MalformedStub (d_str (minicbor L) d)) (\<lambda>(recipient, d).
     bindE (stub_fixed L 33 d) (\<lambda>(signing, d).
     bindE (stub_fixed L 33 d) (\<lambda>(selection, d).
     bindE (stub_fixed L 33 d) (\<lambda>(phone, d).
     bindE (stub_fixed L 32 d) (\<lambda>(digest, d).
     bindE (stub_fixed L 32 d) (\<lambda>(fingerprint, d).
     let value = \<lparr> sb_desktop_id = desktop_id, sb_identity_id = identity_id, sb_recipient = recipient,
          sb_desktop_signing_public_key = signing, sb_desktop_selection_public_key = selection,
          sb_phone_signing_public_key = phone, sb_offer_digest = digest, sb_transcript_fingerprint = fingerprint \<rparr>
     in bindE (mapErr (\<lambda>_. MalformedStub) (recipient_parse L (sb_recipient value))) (\<lambda>r.
        let identity_public_key = recipient_public_key_bytes L r
        in bindE (okOr MalformedStub (d_str (minicbor L) d)) (\<lambda>(name, d).
           if name \<noteq> PLUGIN_NAME \<or> d \<noteq> [] \<or> stub_encode L value \<noteq> b \<or> stub_keys_bad L value identity_public_key
           then Inl MalformedStub else Inr value))))))))))))))))"

subsection \<open>Recipients and texts\<close>

definition stub_paired_recipient ::
    "('pk, 'sg, 'sk) lib \<Rightarrow> public_identity_stub \<Rightarrow> (pairing_error, 'pk paired_recipient) result" where
  "stub_paired_recipient L v =
     bindE (mapErr (\<lambda>_. MalformedStub) (recipient_parse L (sb_recipient v))) (\<lambda>phone.
     mapErr (\<lambda>_. MalformedStub)
       (from_public_fields L (recipient_public_key_bytes L phone) (sb_desktop_selection_public_key v) (sb_identity_id v)))"

definition selectable_recipient :: "('pk, 'sg, 'sk) lib \<Rightarrow> public_identity_stub \<Rightarrow> (pairing_error, string) result" where
  "selectable_recipient L v =
     bindE (stub_paired_recipient L v) (\<lambda>r. mapErr (\<lambda>_. StubEncoding) (paired_to_string L r))"

definition phone_recipient :: "('pk, 'sg, 'sk) lib \<Rightarrow> public_identity_stub \<Rightarrow> (pairing_error, string) result" where
  "phone_recipient L v = selectable_recipient L v"

definition stub_tag_recipient :: "('pk, 'sg, 'sk) lib \<Rightarrow> public_identity_stub \<Rightarrow> (pairing_error, string) result" where
  "stub_tag_recipient L v =
     bindE (mapErr (\<lambda>_. MalformedStub) (recipient_parse L (sb_recipient v))) (\<lambda>phone.
     mapErr (\<lambda>_. StubEncoding) (tag_recipient L phone))"

definition recipient_for ::
    "('pk, 'sg, 'sk) lib \<Rightarrow> public_identity_stub \<Rightarrow> recipient_type \<Rightarrow> (pairing_error, string) result" where
  "recipient_for L v kind = (case kind of PhoneType \<Rightarrow> phone_recipient L v | TagType \<Rightarrow> stub_tag_recipient L v)"

definition plugin_identity :: "('pk, 'sg, 'sk) lib \<Rightarrow> public_identity_stub \<Rightarrow> (pairing_error, string) result" where
  "plugin_identity L v =
     bindE (okOr StubEncoding (bech32_encode (bech L) STUB_HRP (to_base32 (bech L) (stub_encode L v)) Bech32)) (\<lambda>t.
     Inr (to_ascii_uppercase t))"

definition identity_file_for ::
    "('pk, 'sg, 'sk) lib \<Rightarrow> public_identity_stub \<Rightarrow> recipient_type \<Rightarrow> (pairing_error, string) result" where
  "identity_file_for L v kind =
     bindE (recipient_for L v kind) (\<lambda>r.
     bindE (plugin_identity L v) (\<lambda>i.
     Inr (''# recipient: '' @ r @ NL # ''# public age-plugin-phone identity stub'' @ NL # i @ [NL])))"

definition identity_file :: "('pk, 'sg, 'sk) lib \<Rightarrow> public_identity_stub \<Rightarrow> (pairing_error, string) result" where
  "identity_file L v = identity_file_for L v PhoneType"

text \<open>The lines that are neither empty nor comments.\<close>

definition identity_lines :: "string \<Rightarrow> string list" where
  "identity_lines text = filter (\<lambda>l. l \<noteq> [] \<and> \<not> starts_with l ''#'') (map trim (str_lines text))"

definition decode_identity_stub_text ::
    "('pk, 'sg, 'sk) lib \<Rightarrow> string \<Rightarrow> (pairing_error, public_identity_stub) result" where
  "decode_identity_stub_text L text = (case identity_lines text of
     [] \<Rightarrow> Inl MalformedStub
   | identity # rest \<Rightarrow>
       bindE (failIf (rest \<noteq> []) MalformedStub) (\<lambda>_.
       bindE (okOr MalformedStub (bech32_decode (bech L) (to_ascii_lowercase identity))) (\<lambda>(hrp, data, variant).
       bindE (failIf (hrp \<noteq> STUB_HRP \<or> variant \<noteq> Bech32) MalformedStub) (\<lambda>_.
       bindE (okOr MalformedStub (from_base32 (bech L) data)) (\<lambda>b.
       bindE (stub_decode L b) (\<lambda>stub.
       bindE (plugin_identity L stub) (\<lambda>i.
       if i \<noteq> identity then Inl MalformedStub else Inr stub)))))))"

subsection \<open>Files\<close>

text \<open>The file is created with the default mode under the process's \<open>umask\<close>.\<close>

definition create_identity_stub_file_for ::
    "('pk, 'sg, 'sk) lib \<Rightarrow> u32 \<Rightarrow> path \<Rightarrow> public_identity_stub \<Rightarrow> recipient_type \<Rightarrow> (fs, pairing_error, unit) step" where
  "create_identity_stub_file_for L md p stub kind =
     bindS (liftS (identity_file_for L stub kind)) (\<lambda>text.
     create_and_write md StubStorage p (str_bytes text))"

definition create_identity_stub_file ::
    "('pk, 'sg, 'sk) lib \<Rightarrow> u32 \<Rightarrow> path \<Rightarrow> public_identity_stub \<Rightarrow> (fs, pairing_error, unit) step" where
  "create_identity_stub_file L md p stub = create_identity_stub_file_for L md p stub PhoneType"

text \<open>\<open>fs::read_to_string\<close>: all of a regular file, when it is UTF-8.\<close>

definition read_to_string :: "path \<Rightarrow> (fs, io_error, string) step" where
  "read_to_string p =
     bindS (file_open p) (\<lambda>h. sys_read (\<lambda>_. case h of
       Regular b _ _ \<Rightarrow> if utf8_valid (bytes_str b) then Inr (bytes_str b) else Inl OtherError
     | _ \<Rightarrow> Inl OtherError))"

definition read_identity_stub_file ::
    "('pk, 'sg, 'sk) lib \<Rightarrow> path \<Rightarrow> (fs, pairing_error, public_identity_stub) step" where
  "read_identity_stub_file L p =
     bindS (mapErrS (\<lambda>_. StubStorage) (read_to_string p)) (\<lambda>text.
     liftS (decode_identity_stub_text L text))"

subsection \<open>The decoder accepts exactly the encodings\<close>

definition wf_stub :: "public_identity_stub \<Rightarrow> bool" where
  "wf_stub v \<longleftrightarrow> length (sb_desktop_id v) = 16 \<and> length (sb_identity_id v) = 16 \<and>
     length (sb_desktop_signing_public_key v) = 33 \<and> length (sb_desktop_selection_public_key v) = 33 \<and>
     length (sb_phone_signing_public_key v) = 33 \<and> length (sb_offer_digest v) = 32 \<and>
     length (sb_transcript_fingerprint v) = 32"

definition stub_ok :: "('pk, 'sg, 'sk) lib \<Rightarrow> public_identity_stub \<Rightarrow> bool" where
  "stub_ok L v \<longleftrightarrow> wf_stub v \<and>
     (\<exists>r. recipient_parse L (sb_recipient v) = Inr r \<and> \<not> stub_keys_bad L v (recipient_public_key_bytes L r))"

lemma stub_fixed_rt:
  "cbor_codec (minicbor L) \<Longrightarrow> length v = n \<Longrightarrow> n < 2 ^ 64 \<Longrightarrow> stub_fixed L n (e_bytes (minicbor L) v @ r) = Inr (v, r)"
  by (simp add: stub_fixed_def cbor_codec.bytes_rt)

lemma stub_fixed_length: "stub_fixed L n d = Inr (v, r) \<Longrightarrow> length v = n"
  by (auto simp: stub_fixed_def result_iff split: if_splits)


text \<open>A recipient text that parses is what \<open>to_string\<close> writes: visible ASCII of 71 characters.\<close>

lemma recipient_text:
  assumes b: "bech32_codec (bech L)" and p: "p256_laws (ec L)" and t: "recipient_parse L t = Inr r"
  shows "graphic t" "length t = 71" "utf8_valid t"
proof -
  have "recipient_to_string L r = Inr t" using t recipient_parse_iff_to_string [OF b p] by blast
  then have e: "bech32_encode (bech L) RECIPIENT_HRP
      (to_base32 (bech L) (PAYLOAD_VERSION # recipient_public_key_bytes L r)) Bech32 = Some t"
    by (simp only: recipient_to_string_def okOr_Inr_iff)
  show "graphic t" by (rule bech32_codec.encode_graphic [OF b valid_recipient_hrp e])
  then show "utf8_valid t" by (intro ascii_utf8_valid graphic_ascii)
  have "length RECIPIENT_HRP = 9" by (simp add: RECIPIENT_HRP_def)
  then show "length t = 71"
    using bech32_codec.encode_length [OF b valid_recipient_hrp e] p
    by (simp add: recipient_public_key_bytes_def bech32_codec.base32_len [OF b])
qed

lemma stub_decode_sound:
  assumes "stub_decode L b = Inr v" shows "b = stub_encode L v \<and> stub_ok L v"
  using assms
  by (auto simp: stub_decode_def result_iff Let_def stub_ok_def wf_stub_def dest!: stub_fixed_length)

lemma stub_decode_iff:
  assumes c: "cbor_codec (minicbor L)" and b: "bech32_codec (bech L)" and p: "p256_laws (ec L)"
  shows "stub_decode L x = Inr v \<longleftrightarrow> x = stub_encode L v \<and> stub_ok L v"
proof
  assume "x = stub_encode L v \<and> stub_ok L v"
  then have x: "x = stub_encode L v" and w: "wf_stub v" and ok: "stub_ok L v" by (auto simp: stub_ok_def)
  from ok obtain r where r: "recipient_parse L (sb_recipient v) = Inr r"
    "\<not> stub_keys_bad L v (recipient_public_key_bytes L r)" by (auto simp: stub_ok_def)
  have n: "utf8_valid PLUGIN_NAME" "length PLUGIN_NAME < 2 ^ 64" by (code_simp, simp add: PLUGIN_NAME_def)
  have t: "utf8_valid (sb_recipient v)" "length (sb_recipient v) < 2 ^ 64" using recipient_text [OF b p r(1)] by simp_all
  have h: "d_array (minicbor L) (stub_encode L v) = Some (Some 11, e_u16 (minicbor L) STUB_VERSION @
      e_u16 (minicbor L) ALGORITHM_SUITE @ e_bytes (minicbor L) (sb_desktop_id v) @
     e_bytes (minicbor L) (sb_identity_id v) @ e_str (minicbor L) (sb_recipient v) @
     e_bytes (minicbor L) (sb_desktop_signing_public_key v) @
     e_bytes (minicbor L) (sb_desktop_selection_public_key v) @ e_bytes (minicbor L) (sb_phone_signing_public_key v) @
     e_bytes (minicbor L) (sb_offer_digest v) @ e_bytes (minicbor L) (sb_transcript_fingerprint v) @
     e_str (minicbor L) PLUGIN_NAME)"
    by (simp add: stub_encode_def Let_def cbor_codec.array_rt [OF c])
  have s: "d_str (minicbor L) (e_str (minicbor L) PLUGIN_NAME) = Some (PLUGIN_NAME, [])"
    using cbor_codec.str_rt [OF c n, of "[]"] by simp
  have e: "\<lparr> sb_desktop_id = sb_desktop_id v, sb_identity_id = sb_identity_id v, sb_recipient = sb_recipient v,
      sb_desktop_signing_public_key = sb_desktop_signing_public_key v,
      sb_desktop_selection_public_key = sb_desktop_selection_public_key v,
      sb_phone_signing_public_key = sb_phone_signing_public_key v, sb_offer_digest = sb_offer_digest v,
      sb_transcript_fingerprint = sb_transcript_fingerprint v \<rparr> = v" by simp
  show "stub_decode L x = Inr v"
    using w r t unfolding x
    by (simp add: stub_decode_def h wf_stub_def cbor_codec.u16_rt [OF c] stub_fixed_rt [OF c] cbor_codec.str_rt [OF c] s e Let_def)
qed (use stub_decode_sound in blast)

subsection \<open>The identity text\<close>

lemma valid_stub_hrp [simp]: "valid_hrp STUB_HRP"
  by code_simp

lemma plugin_identity_iff:
  "plugin_identity L v = Inr i \<longleftrightarrow>
     (\<exists>t. bech32_encode (bech L) STUB_HRP (to_base32 (bech L) (stub_encode L v)) Bech32 = Some t \<and> i = to_ascii_uppercase t)"
  by (auto simp: plugin_identity_def result_iff)

lemma plugin_identity_total: "bech32_codec (bech L) \<Longrightarrow> \<exists>i. plugin_identity L v = Inr i"
  using bech32_codec.encode_ok [of "bech L" STUB_HRP] by (fastforce simp: plugin_identity_iff)

text \<open>What the text decoder accepts: exactly one significant line, the plugin identity of a stub
  whose encoding the stub decoder accepts.\<close>

lemma decode_identity_stub_text_iff:
  assumes c: "cbor_codec (minicbor L)" and b: "bech32_codec (bech L)" and p: "p256_laws (ec L)"
  shows "decode_identity_stub_text L text = Inr v \<longleftrightarrow>
    (\<exists>i. identity_lines text = [i] \<and> plugin_identity L v = Inr i) \<and> stub_ok L v"
proof
  assume "decode_identity_stub_text L text = Inr v"
  then show "(\<exists>i. identity_lines text = [i] \<and> plugin_identity L v = Inr i) \<and> stub_ok L v"
    by (auto simp: decode_identity_stub_text_def result_iff stub_decode_iff [OF c b p] split: list.splits if_splits)
next
  assume a: "(\<exists>i. identity_lines text = [i] \<and> plugin_identity L v = Inr i) \<and> stub_ok L v"
  then obtain i t where i: "identity_lines text = [i]" "plugin_identity L v = Inr i"
    and t: "bech32_encode (bech L) STUB_HRP (to_base32 (bech L) (stub_encode L v)) Bech32 = Some t"
      "i = to_ascii_uppercase t" by (auto simp: plugin_identity_iff)
  have "to_ascii_lowercase i = t"
    unfolding t(2) using bech32_codec.encode_lower [OF b valid_stub_hrp t(1)] by simp
  moreover have "stub_decode L (stub_encode L v) = Inr v" using a stub_decode_iff [OF c b p] by blast
  ultimately show "decode_identity_stub_text L text = Inr v"
    using i bech32_codec.decode_rt [OF b valid_stub_hrp t(1)] bech32_codec.base32_rt [OF b]
    by (simp add: decode_identity_stub_text_def)
qed


text \<open>The identity file reads back as its stub, whichever recipient its comment names.\<close>

lemma graphic_upper: "graphic s \<Longrightarrow> graphic (to_ascii_uppercase s)"
  by (auto simp: graphic_def to_ascii_uppercase_def upper_char_def Let_def list_all_iff)

lemma encode_visible:
  assumes b: "bech32_codec (bech L)" and h: "valid_hrp h" "bech32_encode (bech L) h d k = Some t"
  shows "graphic t \<and> t \<noteq> []"
  using bech32_codec.encode_graphic [OF b h] bech32_codec.encode_length [OF b h] by auto

lemma recipient_for_graphic:
  assumes b: "bech32_codec (bech L)" and r: "recipient_for L v kind = Inr t" shows "graphic t" "t \<noteq> []"
  using r encode_visible [OF b valid_recipient_hrp] encode_visible [OF b valid_tag_hrp]
  by (cases kind; force simp: recipient_for_def phone_recipient_def selectable_recipient_def stub_tag_recipient_def
      tag_recipient_def paired_to_string_def result_iff)+

lemma plugin_identity_line:
  assumes b: "bech32_codec (bech L)" and i: "plugin_identity L v = Inr i"
  shows "graphic i" "i \<noteq> []" "\<not> starts_with i ''#''"
proof -
  from i obtain t where t: "bech32_encode (bech L) STUB_HRP (to_base32 (bech L) (stub_encode L v)) Bech32 = Some t"
    "i = to_ascii_uppercase t" by (auto simp: plugin_identity_iff)
  show "graphic i" unfolding t(2) by (rule graphic_upper [OF bech32_codec.encode_graphic [OF b valid_stub_hrp t(1)]])
  have "take (length STUB_HRP) t = STUB_HRP" by (rule bech32_codec.encode_hrp [OF b valid_stub_hrp t(1)])
  then obtain s where "t = CHR ''a'' # s" by (cases t) (auto simp: STUB_HRP_def)
  moreover have "upper_char (CHR ''a'') = CHR ''A''" by code_simp
  ultimately have "i = CHR ''A'' # to_ascii_uppercase s" unfolding t(2) by (simp add: to_ascii_uppercase_def)
  then show "i \<noteq> []" "\<not> starts_with i ''#''" by (simp_all add: starts_with_def)
qed

lemma comment_dropped:
  assumes "NL \<notin> set l" "CR \<notin> set l" "trim (''#'' @ l) = ''#'' @ l"
  shows "identity_lines (''#'' @ l @ NL # r) = identity_lines r"
proof -
  have "str_lines (''#'' @ l @ NL # r) = (''#'' @ l) # str_lines r"
    using str_lines_append [of "''#'' @ l" r] assms by (simp add: strip_cr_id)
  with assms(3) show ?thesis by (simp add: identity_lines_def starts_with_def)
qed

lemma trim_hash: "visible (last (CHR ''#'' # l)) \<Longrightarrow> trim (''#'' @ l) = ''#'' @ l"
  by (rule trim_visible) (simp_all add: visible_def)

lemma identity_file_lines:
  assumes b: "bech32_codec (bech L)" and f: "identity_file_for L v kind = Inr text"
  shows "\<exists>i. identity_lines text = [i] \<and> plugin_identity L v = Inr i"
proof -
  from f obtain r i where r: "recipient_for L v kind = Inr r" and i: "plugin_identity L v = Inr i"
    and t: "text = ''#'' @ ('' recipient: '' @ r) @ NL # ''#'' @ '' public age-plugin-phone identity stub'' @ NL # i @ [NL]"
    by (auto simp: identity_file_for_def result_iff)
  note g = recipient_for_graphic [OF b r] and l = plugin_identity_line [OF b i]
  have 1: "identity_lines text = identity_lines (''#'' @ '' public age-plugin-phone identity stub'' @ NL # i @ [NL])"
    unfolding t using graphic_no_break [OF g(1)] g
    by (intro comment_dropped trim_hash) (auto simp: graphic_visible list_all_iff)
  have 2: "\<dots> = identity_lines (i @ [NL])" by (intro comment_dropped trim_hash) (simp_all add: visible_def)
  have "identity_lines (i @ [NL]) = [i]"
    using str_lines_append [of i "[]"] graphic_no_break [OF l(1)] l trim_graphic [OF l(1)]
    by (simp add: identity_lines_def strip_cr_id)
  with 1 2 i show ?thesis by simp
qed

lemma identity_file_ascii:
  assumes b: "bech32_codec (bech L)" and f: "identity_file_for L v kind = Inr text"
  shows "is_ascii text"
  using f graphic_ascii [OF recipient_for_graphic(1) [OF b]] graphic_ascii [OF plugin_identity_line(1) [OF b]]
  by (auto simp: identity_file_for_def result_iff is_ascii_def)

text \<open>The identity file exists for every stub whose selection key is a compressed point.\<close>

lemma identity_file_total:
  assumes b: "bech32_codec (bech L)" and p: "p256_laws (ec L)" and v: "stub_ok L v"
    and d: "sb_desktop_selection_public_key v = pk_compressed (ec L) k"
  shows "\<exists>text. identity_file_for L v kind = Inr text"
proof -
  obtain r where r: "recipient_parse L (sb_recipient v) = Inr r" using v by (auto simp: stub_ok_def)
  have e: "\<exists>t. bech32_encode (bech L) h x Bech32 = Some t" if "valid_hrp h" for h x
    by (rule bech32_codec.encode_ok [OF b that])
  obtain i where i: "plugin_identity L v = Inr i" using plugin_identity_total [OF b] by blast
  have "\<exists>t. recipient_for L v kind = Inr t"
    using r e [OF valid_recipient_hrp] e [OF valid_tag_hrp]
    by (cases kind) (auto simp: recipient_for_def phone_recipient_def selectable_recipient_def stub_tag_recipient_def
        tag_recipient_def paired_to_string_def stub_paired_recipient_def from_public_fields_def d recipient_public_key_bytes_def
        from_public_key_bytes_compressed [OF p] result_iff)
  with i show ?thesis by (auto simp: identity_file_for_def)
qed

end
