(* ===== verification/Pairing_Session.thy ===== *)
theory Pairing_Session
  imports Pairing_Stub
begin

text \<open>
  The desktop pairing session of \<open>crates/desktop/src/pairing.rs\<close>: one attempt that waits for the
  phone's response, shows the transcript fingerprint, and activates a stub when the user confirms
  it.  Its operations are a step relation on sessions, with the runs from a fresh session.
\<close>

subsection \<open>Data\<close>

definition MAX_PAIRING_SESSION_AGE_MS :: u64 where [simp]: "MAX_PAIRING_SESSION_AGE_MS = 300000"

record pairing_display =
  pd_desktop_label :: string
  pd_transcript_fingerprint :: string

datatype session_state = Waiting | Confirming "pairing_response signed_message" bytes | Closed

record desktop_pairing_session =
  ps_offer :: "pairing_offer signed_message"
  ps_started_at_ms :: u64
  ps_state :: session_state

subsection \<open>Operations\<close>

text \<open>\<open>begin\<close> draws the nonce; it is an argument here.\<close>

definition session_begin ::
    "('pk, 'sg, 'sk) lib \<Rightarrow> bytes \<Rightarrow> string \<Rightarrow> signer \<Rightarrow> bytes \<Rightarrow> u64 \<Rightarrow> bytes \<Rightarrow>
     (pairing_error, desktop_pairing_session) result" where
  "session_begin L desktop_id desktop_label signing_key desktop_selection_public_key now_ms nonce =
     bindE (mapErr (\<lambda>_. InvalidResponse) (sg_public_key signing_key)) (\<lambda>public_key.
     bindE (mapErr (\<lambda>_. InvalidResponse) (offer_sign L
       \<lparr> po_desktop_id = desktop_id, po_desktop_label = desktop_label, po_desktop_signing_public_key = public_key,
         po_desktop_selection_public_key = desktop_selection_public_key, po_nonce = nonce \<rparr> signing_key)) (\<lambda>offer.
     Inr \<lparr> ps_offer = offer, ps_started_at_ms = now_ms, ps_state = Waiting \<rparr>))"

definition session_signed_offer :: "('pk, 'sg, 'sk) lib \<Rightarrow> desktop_pairing_session \<Rightarrow> bytes" where
  "session_signed_offer L s = signed_offer_encode L (ps_offer s)"

abbreviation closed :: "desktop_pairing_session \<Rightarrow> desktop_pairing_session" where
  "closed s \<equiv> s\<lparr> ps_state := Closed \<rparr>"

definition ensure_live :: "u64 \<Rightarrow> (desktop_pairing_session, pairing_error, unit) step" where
  "ensure_live now s =
     (if ps_state s = Closed then (s, Inl SessionClosed)
      else if now < ps_started_at_ms s \<or> now - ps_started_at_ms s > MAX_PAIRING_SESSION_AGE_MS
        then (closed s, Inl Timeout)
      else (s, Inr ()))"

definition stub_from_response ::
    "('pk, 'sg, 'sk) lib \<Rightarrow> desktop_pairing_session \<Rightarrow> pairing_response signed_message \<Rightarrow> bytes \<Rightarrow> public_identity_stub" where
  "stub_from_response L s response fingerprint = \<lparr>
     sb_desktop_id = po_desktop_id (payload (ps_offer s)),
     sb_identity_id = pr_identity_id (payload response),
     sb_recipient = pr_recipient (payload response),
     sb_desktop_signing_public_key = po_desktop_signing_public_key (payload (ps_offer s)),
     sb_desktop_selection_public_key = po_desktop_selection_public_key (payload (ps_offer s)),
     sb_phone_signing_public_key = pr_phone_signing_public_key (payload response),
     sb_offer_digest = offer_digest L (ps_offer s),
     sb_transcript_fingerprint = fingerprint \<rparr>"

definition receive_pairing_response ::
    "('pk, 'sg, 'sk) lib \<Rightarrow> bytes \<Rightarrow> u64 \<Rightarrow> (desktop_pairing_session, pairing_error, pairing_display) step" where
  "receive_pairing_response L encoded now_ms =
     bindS (ensure_live now_ms) (\<lambda>_ s.
       if ps_state s \<noteq> Waiting then (closed s, Inl SessionClosed)
       else case bindE (signed_pairing_response_decode L encoded) (\<lambda>response.
              bindE (pairing_response_verify L response (ps_offer s)) (\<lambda>_. Inr response)) of
          Inl _ \<Rightarrow> (closed s, Inl InvalidResponse)
        | Inr response \<Rightarrow>
            let fingerprint = pairing_fingerprint L (ps_offer s) response
            in (s\<lparr> ps_state := Confirming response fingerprint \<rparr>,
                Inr \<lparr> pd_desktop_label = po_desktop_label (payload (ps_offer s)),
                      pd_transcript_fingerprint = hex fingerprint \<rparr>))"

definition confirm ::
    "('pk, 'sg, 'sk) lib \<Rightarrow> string \<Rightarrow> u64 \<Rightarrow> (desktop_pairing_session, pairing_error, public_identity_stub) step" where
  "confirm L displayed_fingerprint now_ms =
     bindS (ensure_live now_ms) (\<lambda>_ s.
       case ps_state s of
         Confirming response fingerprint \<Rightarrow>
           if displayed_fingerprint \<noteq> hex fingerprint then (closed s, Inl FingerprintMismatch)
           else (closed s, Inr (stub_from_response L s response fingerprint))
       | _ \<Rightarrow> (closed s, Inl SessionClosed))"

definition pending_stub ::
    "('pk, 'sg, 'sk) lib \<Rightarrow> desktop_pairing_session \<Rightarrow> (pairing_error, public_identity_stub) result" where
  "pending_stub L s = (case ps_state s of
     Confirming response fingerprint \<Rightarrow> Inr (stub_from_response L s response fingerprint)
   | _ \<Rightarrow> Inl SessionClosed)"

definition cancel :: "desktop_pairing_session \<Rightarrow> desktop_pairing_session" where
  "cancel s = closed s"

subsection \<open>The step relation\<close>

datatype pairing_event = Received bytes u64 | Confirmed string u64 | Cancelled

datatype pairing_outcome =
    Displayed pairing_display | Activated public_identity_stub | Refused pairing_error | Stopped

inductive pairing_step ::
    "('pk, 'sg, 'sk) lib \<Rightarrow> desktop_pairing_session \<Rightarrow> pairing_event \<Rightarrow> pairing_outcome \<Rightarrow>
     desktop_pairing_session \<Rightarrow> bool" for L where
  displayed: "receive_pairing_response L encoded now s = (s', Inr d) \<Longrightarrow>
     pairing_step L s (Received encoded now) (Displayed d) s'"
| receive_refused: "receive_pairing_response L encoded now s = (s', Inl e) \<Longrightarrow>
     pairing_step L s (Received encoded now) (Refused e) s'"
| activated: "confirm L text now s = (s', Inr stub) \<Longrightarrow> pairing_step L s (Confirmed text now) (Activated stub) s'"
| confirm_refused: "confirm L text now s = (s', Inl e) \<Longrightarrow> pairing_step L s (Confirmed text now) (Refused e) s'"
| cancelled: "pairing_step L s Cancelled Stopped (cancel s)"

inductive_cases pairing_stepE [elim]: "pairing_step L s ev out s'"
inductive_simps activated_iff: "pairing_step L s ev (Activated stub) s'"
inductive_simps displayed_iff: "pairing_step L s ev (Displayed d) s'"

type_synonym pairing_trace = "(pairing_event \<times> pairing_outcome) list"

inductive pairing_run ::
    "('pk, 'sg, 'sk) lib \<Rightarrow> desktop_pairing_session \<Rightarrow> pairing_trace \<Rightarrow> desktop_pairing_session \<Rightarrow> bool" for L s where
  run_start: "pairing_run L s [] s"
| run_step: "pairing_run L s tr s1 \<Longrightarrow> pairing_step L s1 ev out s2 \<Longrightarrow> pairing_run L s (tr @ [(ev, out)]) s2"

subsection \<open>Single steps\<close>

lemma in_time_iff:
  "\<not> (now < (t :: u64)) \<and> \<not> (now - t > MAX_PAIRING_SESSION_AGE_MS) \<longleftrightarrow> unat t \<le> unat now \<and> unat now \<le> unat t + 300000"
proof (cases "t \<le> now")
  case True
  then have "unat (now - t) = unat now - unat t" by (simp add: unat_sub)
  with True show ?thesis by (auto simp: word_less_nat_alt word_le_nat_alt)
qed (auto simp: word_less_nat_alt word_le_nat_alt)

lemma ensure_live_ok:
  "ensure_live now s = (s', Inr u) \<longleftrightarrow> s' = s \<and> ps_state s \<noteq> Closed \<and>
     unat (ps_started_at_ms s) \<le> unat now \<and> unat now \<le> unat (ps_started_at_ms s) + 300000"
  using in_time_iff [of now "ps_started_at_ms s"] by (auto simp: ensure_live_def)

lemma ensure_live_fail: "ensure_live now s = (s', Inl e) \<Longrightarrow> s' = closed s"
  by (auto simp: ensure_live_def split: if_splits)

lemma receive_ok:
  "receive_pairing_response L encoded now s = (s', Inr d) \<longleftrightarrow>
     ps_state s = Waiting \<and> unat (ps_started_at_ms s) \<le> unat now \<and> unat now \<le> unat (ps_started_at_ms s) + 300000 \<and>
     (\<exists>m. signed_pairing_response_decode L encoded = Inr m \<and> pairing_response_verify L m (ps_offer s) = Inr () \<and>
        s' = s\<lparr> ps_state := Confirming m (pairing_fingerprint L (ps_offer s) m) \<rparr> \<and>
        d = \<lparr> pd_desktop_label = po_desktop_label (payload (ps_offer s)),
              pd_transcript_fingerprint = hex (pairing_fingerprint L (ps_offer s) m) \<rparr>)"
  by (auto simp: receive_pairing_response_def bindS_Inr_iff ensure_live_ok result_iff Let_def
    split: if_splits sum.splits)

lemma receive_fail: "receive_pairing_response L encoded now s = (s', Inl e) \<Longrightarrow> s' = closed s"
  by (auto simp: receive_pairing_response_def bindS_Inl_iff ensure_live_ok Let_def
    split: if_splits sum.splits dest: ensure_live_fail)

lemma confirm_ok:
  "confirm L text now s = (s', Inr stub) \<longleftrightarrow>
     unat (ps_started_at_ms s) \<le> unat now \<and> unat now \<le> unat (ps_started_at_ms s) + 300000 \<and>
     (\<exists>m fp. ps_state s = Confirming m fp \<and> text = hex fp \<and> stub = stub_from_response L s m fp) \<and> s' = closed s"
  by (auto simp: confirm_def bindS_Inr_iff ensure_live_ok split: session_state.splits if_splits)

lemma confirm_closes: "confirm L text now s = (s', r) \<Longrightarrow> s' = closed s"
  by (cases r) (auto simp: confirm_def bindS_Inr_iff bindS_Inl_iff ensure_live_ok
    split: session_state.splits if_splits dest: ensure_live_fail)


lemma closed_step:
  assumes "pairing_step L s ev out s'" "ps_state s = Closed"
  shows "s' = s \<and> (out = Refused SessionClosed \<or> out = Stopped)"
proof -
  have c: "closed s = s" using assms(2) by (cases s) simp
  have l: "ensure_live now s = (s, Inl SessionClosed)" for now using assms(2) by (simp add: ensure_live_def)
  from assms(1) show ?thesis
    by cases (simp_all add: receive_pairing_response_def confirm_def bindS_def l cancel_def c)
qed

text \<open>Every step that neither shows a fingerprint nor finds the session closed closes it.\<close>

lemma step_closes: "pairing_step L s ev out s' \<Longrightarrow> (\<And>d. out \<noteq> Displayed d) \<Longrightarrow> s' = closed s"
  by (erule pairing_stepE) (auto simp: cancel_def dest: receive_fail confirm_closes)

subsection \<open>Runs\<close>

text \<open>A response that was received in time and accepted for this session's offer.\<close>

definition accepted_response ::
    "('pk, 'sg, 'sk) lib \<Rightarrow> desktop_pairing_session \<Rightarrow> bytes \<Rightarrow> u64 \<Rightarrow> pairing_response signed_message \<Rightarrow> bool" where
  "accepted_response L s encoded now m \<longleftrightarrow>
     signed_pairing_response_decode L encoded = Inr m \<and> pairing_response_verify L m (ps_offer s) = Inr () \<and>
     unat (ps_started_at_ms s) \<le> unat now \<and> unat now \<le> unat (ps_started_at_ms s) + 300000"

definition displayed_for :: "('pk, 'sg, 'sk) lib \<Rightarrow> desktop_pairing_session \<Rightarrow> pairing_response signed_message \<Rightarrow> pairing_display" where
  "displayed_for L s m = \<lparr> pd_desktop_label = po_desktop_label (payload (ps_offer s)),
     pd_transcript_fingerprint = hex (pairing_fingerprint L (ps_offer s) m) \<rparr>"

definition no_activation :: "pairing_trace \<Rightarrow> bool" where
  "no_activation tr \<longleftrightarrow> (\<forall>ev stub. (ev, Activated stub) \<notin> set tr)"

text \<open>The one way to an activation: the response first, its confirmation next, then nothing.\<close>

definition activation ::
    "('pk, 'sg, 'sk) lib \<Rightarrow> desktop_pairing_session \<Rightarrow> pairing_trace \<Rightarrow> public_identity_stub \<Rightarrow> bool" where
  "activation L s tr stub \<longleftrightarrow> (\<exists>encoded t1 m t2 rest.
     tr = (Received encoded t1, Displayed (displayed_for L s m)) #
          (Confirmed (hex (pairing_fingerprint L (ps_offer s) m)) t2, Activated stub) # rest \<and>
     accepted_response L s encoded t1 m \<and>
     unat (ps_started_at_ms s) \<le> unat t2 \<and> unat t2 \<le> unat (ps_started_at_ms s) + 300000 \<and>
     stub = stub_from_response L s m (pairing_fingerprint L (ps_offer s) m) \<and>
     (\<forall>x \<in> set rest. snd x = Refused SessionClosed \<or> snd x = Stopped))"

definition run_inv ::
    "('pk, 'sg, 'sk) lib \<Rightarrow> desktop_pairing_session \<Rightarrow> pairing_trace \<Rightarrow> desktop_pairing_session \<Rightarrow> bool" where
  "run_inv L s0 tr s \<longleftrightarrow> ps_offer s = ps_offer s0 \<and> ps_started_at_ms s = ps_started_at_ms s0 \<and>
     (case ps_state s of
        Waiting \<Rightarrow> tr = []
      | Confirming m fp \<Rightarrow> fp = pairing_fingerprint L (ps_offer s0) m \<and>
          (\<exists>encoded t. tr = [(Received encoded t, Displayed (displayed_for L s0 m))] \<and> accepted_response L s0 encoded t m)
      | Closed \<Rightarrow> no_activation tr \<or> (\<exists>stub. activation L s0 tr stub))"

lemma activation_snoc:
  "activation L s tr stub \<Longrightarrow> out = Refused SessionClosed \<or> out = Stopped \<Longrightarrow> activation L s (tr @ [(ev, out)]) stub"
  unfolding activation_def by fastforce

lemma no_activation_snoc: "no_activation tr \<Longrightarrow> (\<And>stub. out \<noteq> Activated stub) \<Longrightarrow> no_activation (tr @ [(ev, out)])"
  by (auto simp: no_activation_def)

lemma run_inv_unactivated:
  assumes "run_inv L s0 tr s" "ps_state s \<noteq> Closed" shows "no_activation tr"
  using assms by (auto simp: run_inv_def no_activation_def split: session_state.splits)

lemma run_inv_step:
  assumes i: "run_inv L s0 tr s" and st: "pairing_step L s ev out s'"
  shows "run_inv L s0 (tr @ [(ev, out)]) s'"
proof (cases "ps_state s = Closed")
  case True
  with closed_step [OF st] i show ?thesis
    by (auto simp: run_inv_def dest: activation_snoc intro: no_activation_snoc)
next
  case live: False
  have same: "ps_offer s = ps_offer s0" "ps_started_at_ms s = ps_started_at_ms s0" using i by (auto simp: run_inv_def)
  show ?thesis
  proof (cases out)
    case (Displayed d)
    with st obtain encoded now where "ev = Received encoded now" "receive_pairing_response L encoded now s = (s', Inr d)"
      by (auto simp: displayed_iff)
    then show ?thesis using i Displayed
      by (auto simp: receive_ok run_inv_def accepted_response_def displayed_for_def)
  next
    case (Activated stub)
    with st obtain shown now where ev: "ev = Confirmed shown now" and c: "confirm L shown now s = (s', Inr stub)"
      by (auto simp: activated_iff)
    from c obtain m fp where m: "ps_state s = Confirming m fp" "shown = hex fp" "stub = stub_from_response L s m fp"
      "s' = closed s" "unat (ps_started_at_ms s) \<le> unat now" "unat now \<le> unat (ps_started_at_ms s) + 300000"
      by (auto simp: confirm_ok)
    have e: "stub_from_response L s m fp = stub_from_response L s0 m fp" using same by (simp add: stub_from_response_def)
    from i m have "activation L s0 (tr @ [(ev, out)]) stub"
      unfolding activation_def run_inv_def using same e ev Activated by auto
    then show ?thesis using same m(4) by (auto simp: run_inv_def)
  next
    case (Refused e)
    with step_closes [OF st] have "s' = closed s" by simp
    then show ?thesis using same no_activation_snoc [OF run_inv_unactivated [OF i live]] Refused by (simp add: run_inv_def)
  next
    case Stopped
    with step_closes [OF st] have "s' = closed s" by simp
    then show ?thesis using same no_activation_snoc [OF run_inv_unactivated [OF i live]] Stopped by (simp add: run_inv_def)
  qed
qed

lemma run_inv_run: "pairing_run L s tr s' \<Longrightarrow> ps_state s = Waiting \<Longrightarrow> run_inv L s tr s'"
  by (induction rule: pairing_run.induct) (simp add: run_inv_def, blast intro: run_inv_step)

lemma run_activation:
  assumes "pairing_run L s tr s'" "ps_state s = Waiting" "(ev, Activated stub) \<in> set tr"
  shows "activation L s tr stub"
proof -
  note i = run_inv_run [OF assms(1,2)]
  from assms(3) have n: "\<not> no_activation tr" by (auto simp: no_activation_def)
  then have "ps_state s' = Closed" using run_inv_unactivated [OF i] by blast
  with i n obtain stub' where a: "activation L s tr stub'" by (auto simp: run_inv_def)
  then have "stub = stub'" using assms(3) unfolding activation_def by (force dest!: bspec)
  with a show ?thesis by simp
qed

subsection \<open>An activated stub is well-formed\<close>

lemma accepted_stub_ok:
  assumes c: "cbor_codec (minicbor L)" and y: "symmetric_laws (sym L)" and w: "wf_offer (payload (ps_offer s))"
    and a: "accepted_response L s encoded t m"
  shows "stub_ok L (stub_from_response L s m (pairing_fingerprint L (ps_offer s) m))"
proof -
  from a have d: "signed_pairing_response_decode L encoded = Inr m" and v: "pairing_response_verify L m (ps_offer s) = Inr ()"
    by (auto simp: accepted_response_def)
  have wm: "wf_pairing_response (payload m)"
    using d by (simp add: signed_pairing_response_decode_def pairing_response_codec.signed_decode_iff [OF c])
  have h: "length (offer_digest L (ps_offer s)) = 32" "length (pairing_fingerprint L (ps_offer s) m) = 32"
    by (simp_all add: offer_digest_def pairing_fingerprint_def length_hash [OF y])
  show ?thesis
    using v w wm h
    by (auto simp: stub_ok_def wf_stub_def stub_from_response_def wf_offer_def wf_pairing_response_def
        pairing_response_verify_def offer_verify_def validate_pairing_response_def stub_keys_bad_def
        verifying_def public_key_def result_iff Let_def)
qed

end
