(* ===== verification/Desktop_Key_State.thy ===== *)
theory Desktop_Key_State
  imports Pairing_Stub
begin

text \<open>
  The desktop's authentication state of \<open>crates/desktop/src/pairing.rs\<close> (the software variant used
  outside macOS and Windows): an identifier and two P-256 keys in a private file of 85 bytes.
\<close>

subsection \<open>Data\<close>

text \<open>\<open>SigningKey::from_slice\<close> and \<open>to_bytes\<close>.\<close>

record 'sk key_bytes =
  kb_from_slice :: "bytes \<Rightarrow> 'sk option"
  kb_to_bytes :: "'sk \<Rightarrow> bytes"

definition key_bytes_laws :: "'sk key_bytes \<Rightarrow> bool" where
  "key_bytes_laws K \<longleftrightarrow> (\<forall>k. length (kb_to_bytes K k) = 32 \<and> kb_from_slice K (kb_to_bytes K k) = Some k)"

record 'sk desktop_key_state =
  dk_desktop_id :: bytes
  dk_signing_key :: 'sk
  dk_selection_key :: 'sk

definition DESKTOP_KEY_MAGIC :: bytes where "DESKTOP_KEY_MAGIC = str_bytes ''APDK2''"

subsection \<open>The file\<close>

definition validate_private_file :: "node \<Rightarrow> (fs, pairing_error, unit) step" where
  "validate_private_file h =
     bindS (mapErrS (\<lambda>_. StateError) (handle_metadata h)) (\<lambda>n. case n of
       Regular _ m k \<Rightarrow> failS (m AND 63 \<noteq> 0 \<or> k \<noteq> 0) StateError
     | _ \<Rightarrow> errS StateError)"

definition create_private_file :: "path \<Rightarrow> bytes \<Rightarrow> (fs, pairing_error, unit) step" where
  "create_private_file p b =
     bindS (create_and_write PRIVATE_MODE StateError p b) (\<lambda>_.
     validate_private_file (Regular b PRIVATE_MODE 0))"

text \<open>\<open>read_exact\<close> of the first bytes of a file, and one more \<open>read\<close> after them.\<close>

definition read_exact :: "node \<Rightarrow> nat \<Rightarrow> (fs, io_error, bytes) step" where
  "read_exact h n = sys_read (\<lambda>_. case h of
     Regular b _ _ \<Rightarrow> if length b < n then Inl OtherError else Inr (take n b) | _ \<Rightarrow> Inl OtherError)"

definition read_after :: "node \<Rightarrow> nat \<Rightarrow> nat \<Rightarrow> (fs, io_error, bytes) step" where
  "read_after h off n = sys_read (\<lambda>_. case h of Regular b _ _ \<Rightarrow> Inr (take n (drop off b)) | _ \<Rightarrow> Inl OtherError)"

definition encode_key_state :: "'sk key_bytes \<Rightarrow> 'sk desktop_key_state \<Rightarrow> bytes" where
  "encode_key_state K d =
     DESKTOP_KEY_MAGIC @ dk_desktop_id d @ kb_to_bytes K (dk_signing_key d) @ kb_to_bytes K (dk_selection_key d)"

definition same_key :: "('pk, 'sg, 'sk) lib \<Rightarrow> 'sk \<Rightarrow> 'sk \<Rightarrow> bool" where
  "same_key L a b \<longleftrightarrow> sk_public (ec L) a = sk_public (ec L) b"

definition key_state_open ::
    "('pk, 'sg, 'sk) lib \<Rightarrow> 'sk key_bytes \<Rightarrow> path \<Rightarrow> (fs, pairing_error, 'sk desktop_key_state) step" where
  "key_state_open L K p =
     bindS (mapErrS (\<lambda>e. if e = NotFound then StateMissing else StateError) (file_open p)) (\<lambda>h.
     bindS (validate_private_file h) (\<lambda>_.
     bindS (mapErrS (\<lambda>_. StateError) (read_exact h 85)) (\<lambda>encoded.
     bindS (mapErrS (\<lambda>_. StateError) (read_after h 85 1)) (\<lambda>trailing.
     bindS (failS (trailing \<noteq> [] \<or> take 5 encoded \<noteq> DESKTOP_KEY_MAGIC) StateError) (\<lambda>_.
     bindS (liftS (okOr StateError (kb_from_slice K (take 32 (drop 21 encoded))))) (\<lambda>signing_key.
     bindS (liftS (okOr StateError (kb_from_slice K (drop 53 encoded)))) (\<lambda>selection_key.
     bindS (failS (same_key L signing_key selection_key) StateError) (\<lambda>_.
     retS \<lparr> dk_desktop_id = take 16 (drop 5 encoded), dk_signing_key = signing_key,
            dk_selection_key = selection_key \<rparr>))))))))"

text \<open>\<open>create\<close> draws the identifier and the two keys; they are arguments here.\<close>

definition key_state_create ::
    "('pk, 'sg, 'sk) lib \<Rightarrow> 'sk key_bytes \<Rightarrow> path \<Rightarrow> bytes \<times> 'sk \<times> 'sk \<Rightarrow>
     (fs, pairing_error, 'sk desktop_key_state) step" where
  "key_state_create L K p drawn =
     (let (desktop_id, signing_key, selection_key) = drawn;
          state = \<lparr> dk_desktop_id = desktop_id, dk_signing_key = signing_key, dk_selection_key = selection_key \<rparr>
      in bindS (failS (same_key L signing_key selection_key) StateError) (\<lambda>_.
         bindS (create_private_file p (encode_key_state K state)) (\<lambda>_. retS state)))"

definition key_state_open_or_create ::
    "('pk, 'sg, 'sk) lib \<Rightarrow> 'sk key_bytes \<Rightarrow> path \<Rightarrow> bytes \<times> 'sk \<times> 'sk \<Rightarrow>
     (fs, pairing_error, 'sk desktop_key_state) step" where
  "key_state_open_or_create L K p drawn =
     bindS (tryS (key_state_open L K p)) (\<lambda>r. case r of
       Inr value \<Rightarrow> retS value
     | Inl e \<Rightarrow> if e = StateMissing then key_state_create L K p drawn else errS e)"

subsection \<open>What the state is used for\<close>

definition key_signer :: "('pk, 'sg, 'sk) lib \<Rightarrow> 'sk desktop_key_state \<Rightarrow> signer" where
  "key_signer L d = signing_key_signer L (dk_signing_key d)"

definition key_agreement_of :: "('pk, 'sg, 'sk) lib \<Rightarrow> 'sk desktop_key_state \<Rightarrow> key_agreement" where
  "key_agreement_of L d = signing_key_agreement L (dk_selection_key d)"

definition key_signing_public :: "('pk, 'sg, 'sk) lib \<Rightarrow> 'sk desktop_key_state \<Rightarrow> (pairing_error, bytes) result" where
  "key_signing_public L d = mapErr (\<lambda>_. StateError) (sg_public_key (key_signer L d))"

definition key_selection_public :: "('pk, 'sg, 'sk) lib \<Rightarrow> 'sk desktop_key_state \<Rightarrow> (pairing_error, bytes) result" where
  "key_selection_public L d = mapErr (\<lambda>_. StateError) (ka_public_key (key_agreement_of L d))"

subsection \<open>What is opened and what is created\<close>

text \<open>Opening never changes a node; what it accepts is a private file with no other name that
  holds exactly the 85 bytes of the state it returns.\<close>

lemma validate_private_file_ok:
  "validate_private_file h f = (t, Inr u) \<Longrightarrow> nodes t = nodes f \<and> (\<exists>b m. h = Regular b m 0 \<and> m AND 63 = 0)"
  by (auto simp: validate_private_file_def bindS_def mapErrS_def handle_metadata_def sys_read_def failIf_def
    split: node.splits prod.splits sum.splits if_splits option.splits dest!: next_fault_same)

lemma keeps_key_state_open: "keeps (\<lambda>f. P (nodes f)) (key_state_open L K p)"
proof -
  have "keeps (\<lambda>f. P (nodes f)) (validate_private_file h)" for h
    unfolding validate_private_file_def handle_metadata_def
    by (intro keeps_bindS keeps_mapErrS keeps_sys_read) (auto split: node.splits simp: keeps_def)
  then show ?thesis
    unfolding key_state_open_def file_open_def read_exact_def read_after_def
    by (intro keeps_bindS keeps_mapErrS keeps_sys_read keeps_simps)
qed

lemma split_85:
  assumes "length b = 85"
  shows "b = take 5 b @ take 16 (drop 5 b) @ take 32 (drop 21 b) @ drop 53 b"
proof -
  have "b = take 5 b @ take 16 (drop 5 b) @ drop 16 (drop 5 b)" by (metis append_take_drop_id)
  also have "drop 16 (drop 5 b) = drop 21 b" by simp
  also have "\<dots> = take 32 (drop 21 b) @ drop 32 (drop 21 b)" by (simp only: append_take_drop_id)
  also have "drop 32 (drop 21 b) = drop 53 b" by simp
  finally show ?thesis .
qed

lemma key_state_open_ok:
  assumes "key_state_open L K p f = (t, Inr d)"
  shows "nodes t = nodes f \<and> \<not> same_key L (dk_signing_key d) (dk_selection_key d) \<and> length (dk_desktop_id d) = 16 \<and>
    (\<exists>b m x y. resolve (nodes f p) = Some (Regular b m 0) \<and> m AND 63 = 0 \<and>
      b = DESKTOP_KEY_MAGIC @ dk_desktop_id d @ x @ y \<and> length x = 32 \<and> length y = 32 \<and>
      kb_from_slice K x = Some (dk_signing_key d) \<and> kb_from_slice K y = Some (dk_selection_key d))"
proof -
  from assms obtain f1 f2 f3 h u e tr sk1 sk2 where s: "file_open p f = (f1, Inr h)" "validate_private_file h f1 = (f2, Inr u)"
    "read_exact h 85 f2 = (f3, Inr e)" "read_after h 85 1 f3 = (t, Inr tr)" "tr = []" "take 5 e = DESKTOP_KEY_MAGIC"
    "kb_from_slice K (take 32 (drop 21 e)) = Some sk1" "kb_from_slice K (drop 53 e) = Some sk2" "\<not> same_key L sk1 sk2"
    "d = \<lparr> dk_desktop_id = take 16 (drop 5 e), dk_signing_key = sk1, dk_selection_key = sk2 \<rparr>"
    by (auto simp: key_state_open_def bindS_Inr_iff mapErrS_Inr_iff failIf_Inr_iff okOr_Inr_iff)
  obtain b m where h: "h = Regular b m 0" "m AND 63 = 0" using validate_private_file_ok [OF s(2)] by blast
  have e: "85 \<le> length b" "e = take 85 b"
    using sys_read_ok [OF s(3) [unfolded read_exact_def]] h by (auto split: if_splits)
  have "take 1 (drop 85 b) = []" using sys_read_ok [OF s(4) [unfolded read_after_def]] h s(5) by simp
  then have b: "b = e" "length e = 85" using e by auto
  have "resolve (nodes f p) = Some h"
    using sys_read_ok [OF s(1) [unfolded file_open_def]] by (simp add: okOr_Inr_iff)
  moreover have "nodes t = nodes f"
    using keepsD [OF keeps_key_state_open assms, where P1 = "\<lambda>m. m = nodes f"] by simp
  moreover have "e = DESKTOP_KEY_MAGIC @ take 16 (drop 5 e) @ take 32 (drop 21 e) @ drop 53 e"
    using split_85 [OF b(2)] s(6) by simp
  ultimately show ?thesis using h b s(6-10)
    by simp (rule exI [of _ "take 32 (drop 21 e)"], rule exI [of _ "drop 53 e"], simp)
qed

lemma key_state_create_ok:
  assumes "key_state_create L K p drawn f = (t, Inr d)"
  shows "drawn = (dk_desktop_id d, dk_signing_key d, dk_selection_key d) \<and>
    \<not> same_key L (dk_signing_key d) (dk_selection_key d) \<and> nodes f p = None \<and>
    nodes t = (nodes f)(p \<mapsto> Regular (encode_key_state K d) PRIVATE_MODE 0)"
proof -
  obtain i a b where drawn: "drawn = (i, a, b)" by (cases drawn) auto
  let ?d = "\<lparr> dk_desktop_id = i, dk_signing_key = a, dk_selection_key = b \<rparr>"
  from assms have n: "\<not> same_key L a b" and "create_private_file p (encode_key_state K ?d) f = (t, Inr ())" and d: "d = ?d"
    by (auto simp: key_state_create_def drawn Let_def bindS_Inr_iff failIf_Inr_iff)
  then obtain g u where g: "create_and_write PRIVATE_MODE StateError p (encode_key_state K ?d) f = (g, Inr u)"
    "validate_private_file (Regular (encode_key_state K ?d) PRIVATE_MODE 0) g = (t, Inr ())"
    unfolding create_private_file_def bindS_Inr_iff by blast
  with create_and_write_ok [OF g(1)] validate_private_file_ok [OF g(2)] drawn n d show ?thesis by simp
qed

text \<open>A state that was created is opened again, without faults, as the same state.\<close>

lemma key_state_open_run:
  assumes K: "key_bytes_laws K" and d: "length (dk_desktop_id d) = 16" "\<not> same_key L (dk_signing_key d) (dk_selection_key d)"
    and f: "faults f = []" "nodes f p = Some (Regular (encode_key_state K d) PRIVATE_MODE 0)"
  shows "key_state_open L K p f = (f, Inr d)"
proof -
  have l: "length (kb_to_bytes K k) = 32" "kb_from_slice K (kb_to_bytes K k) = Some k" for k
    using K by (simp_all add: key_bytes_laws_def)
  have m: "length DESKTOP_KEY_MAGIC = 5" by (simp add: DESKTOP_KEY_MAGIC_def)
  have e: "length (encode_key_state K d) = 85" "take 5 (encode_key_state K d) = DESKTOP_KEY_MAGIC"
    "take 16 (drop 5 (encode_key_state K d)) = dk_desktop_id d"
    "take 32 (drop 21 (encode_key_state K d)) = kb_to_bytes K (dk_signing_key d)"
    "drop 53 (encode_key_state K d) = kb_to_bytes K (dk_selection_key d)"
    by (simp_all add: encode_key_state_def m d l)
  show ?thesis using f e d(2) l
    by (simp add: key_state_open_def bindS_def mapErrS_def file_open_def validate_private_file_def handle_metadata_def
        read_exact_def read_after_def sys_read_run okOr_def)
qed

end
