(* ===== verification/Unwrap_Session.thy ===== *)
theory Unwrap_Session
  imports Desktop_Key_State
begin

text \<open>
  One phone-authorized unwrap on the desktop (\<open>crates/desktop/src/unwrap.rs\<close>): a session holds one
  request with a fresh response key, takes one response, and is closed by it.
\<close>

subsection \<open>Data\<close>

datatype unwrap_error =
    WrongDesktopState | RequestError | UnwrapSessionClosed | InvalidUnwrapResponse | ClockError

record unwrap_display =
  ud_request_fingerprint :: string
  ud_expires_at_unix :: u64

record 'sk desktop_unwrap_session =
  us_request :: verified_request
  us_desktop_session :: 'sk
  us_pairing :: pairing_record
  us_closed :: bool

subsection \<open>Operations\<close>

definition stub_pairing :: "public_identity_stub \<Rightarrow> pairing_record" where
  "stub_pairing stub = \<lparr> pair_desktop_id = sb_desktop_id stub, pair_identity_id = sb_identity_id stub,
     pair_desktop_signing_public_key = sb_desktop_signing_public_key stub,
     pair_desktop_selection_public_key = sb_desktop_selection_public_key stub,
     pair_phone_signing_public_key = sb_phone_signing_public_key stub \<rparr>"

text \<open>The state on disk must be the one the stub was paired with.\<close>

definition desktop_matches ::
    "('pk, 'sg, 'sk) lib \<Rightarrow> public_identity_stub \<Rightarrow> 'sk desktop_key_state \<Rightarrow> (unwrap_error, unit) result" where
  "desktop_matches L stub desktop =
     (if dk_desktop_id desktop \<noteq> sb_desktop_id stub then Inl WrongDesktopState
      else bindE (mapErr (\<lambda>_. WrongDesktopState) (key_signing_public L desktop)) (\<lambda>signing.
        if signing \<noteq> sb_desktop_signing_public_key stub then Inl WrongDesktopState
        else bindE (mapErr (\<lambda>_. WrongDesktopState) (key_selection_public L desktop)) (\<lambda>selection.
          if selection \<noteq> sb_desktop_selection_public_key stub then Inl WrongDesktopState else Inr ())))"

text \<open>\<open>begin\<close> draws the session secret, the request identifier and the nonce, in this order.\<close>

definition unwrap_begin ::
    "('pk, 'sg, 'sk) lib \<Rightarrow> public_identity_stub \<Rightarrow> 'sk desktop_key_state \<Rightarrow> tagged_stanza \<Rightarrow> string option \<Rightarrow> u64 \<Rightarrow>
     'sk \<times> bytes \<times> bytes \<Rightarrow> (unwrap_error, 'sk desktop_unwrap_session) result" where
  "unwrap_begin L stub desktop stanza caller_hint now_unix drawn =
     bindE (desktop_matches L stub desktop) (\<lambda>_.
     let (desktop_session, request_id, nonce) = drawn;
         pairing = stub_pairing stub;
         session_public = pk_compressed (ec L) (sk_public (ec L) desktop_session)
     in bindE (failIf (length session_public \<noteq> 33) RequestError) (\<lambda>_.
        bindE (mapErr (\<lambda>_. RequestError) (request_expiry now_unix)) (\<lambda>expires.
        bindE (mapErr (\<lambda>_. RequestError) (create_request L
          \<lparr> rq_request_id = request_id, rq_identity_id = sb_identity_id stub, rq_desktop_id = sb_desktop_id stub,
            rq_session_public_key = session_public, rq_recipient_stanza = stanza, rq_nonce = nonce,
            rq_expires_at_unix = expires, rq_caller_hint = caller_hint \<rparr>
          (key_signer L desktop) pairing now_unix)) (\<lambda>request.
        Inr \<lparr> us_request = request, us_desktop_session = desktop_session, us_pairing = pairing, us_closed = False \<rparr>))))"

definition unwrap_signed_request :: "('pk, 'sg, 'sk) lib \<Rightarrow> 'sk desktop_unwrap_session \<Rightarrow> bytes" where
  "unwrap_signed_request L us = signed_request_encode L (vr_signed (us_request us))"

definition unwrap_display_of :: "'sk desktop_unwrap_session \<Rightarrow> unwrap_display" where
  "unwrap_display_of us = \<lparr> ud_request_fingerprint = hex (vr_digest (us_request us)),
     ud_expires_at_unix = rq_expires_at_unix (vr_payload (us_request us)) \<rparr>"

text \<open>\<open>&mut self\<close> and the replay guard together.\<close>

definition unwrap_receive ::
    "('pk, 'sg, 'sk) lib \<Rightarrow> 's replay_ops \<Rightarrow> bytes \<Rightarrow> u64 \<Rightarrow>
     ('sk desktop_unwrap_session \<times> 's, unwrap_error, bytes) step" where
  "unwrap_receive L R encoded now_unix = (\<lambda>(us, s).
     if us_closed us then ((us, s), Inl UnwrapSessionClosed)
     else let us' = us\<lparr> us_closed := True \<rparr>
       in case signed_response_decode L encoded of
            Inl _ \<Rightarrow> ((us', s), Inl InvalidUnwrapResponse)
          | Inr response \<Rightarrow>
              (case open_response L R response (us_request us) (us_pairing us) (us_desktop_session us) now_unix s of
                 (s', r) \<Rightarrow> ((us', s'), mapErr (\<lambda>_. InvalidUnwrapResponse) r)))"

definition unwrap_cancel :: "'sk desktop_unwrap_session \<Rightarrow> 'sk desktop_unwrap_session" where
  "unwrap_cancel us = us\<lparr> us_closed := True \<rparr>"

text \<open>\<open>SystemTime::now()\<close> as seconds from the epoch, negative before it.\<close>

definition now_unix :: "int \<Rightarrow> (unwrap_error, u64) result" where
  "now_unix clock = (if clock < 0 then Inl ClockError else Inr (word_of_int clock))"

subsection \<open>What a session is\<close>

lemma desktop_matches_ok:
  assumes "p256_laws (ec L)"
  shows "desktop_matches L stub d = Inr u \<longleftrightarrow> dk_desktop_id d = sb_desktop_id stub \<and>
    sb_desktop_signing_public_key stub = pk_compressed (ec L) (sk_public (ec L) (dk_signing_key d)) \<and>
    sb_desktop_selection_public_key stub = pk_compressed (ec L) (sk_public (ec L) (dk_selection_key d))"
  using assms
  by (auto simp: desktop_matches_def result_iff key_signing_public_def key_selection_public_def key_signer_def
      key_agreement_of_def signing_key_agreement_def software_signer.public_key [OF assms])

lemma unwrap_begin_ok:
  assumes p: "p256_laws (ec L)"
  shows "unwrap_begin L stub d stanza hint now (sk, i, n) = Inr us \<longleftrightarrow>
    desktop_matches L stub d = Inr () \<and>
    (\<exists>x v. request_expiry now = Inr x \<and>
      create_request L \<lparr> rq_request_id = i, rq_identity_id = sb_identity_id stub, rq_desktop_id = sb_desktop_id stub,
            rq_session_public_key = encode_public L (sk_public (ec L) sk), rq_recipient_stanza = stanza, rq_nonce = n,
            rq_expires_at_unix = x, rq_caller_hint = hint \<rparr>
          (signing_key_signer L (dk_signing_key d)) (stub_pairing stub) now = Inr v \<and>
      us = \<lparr> us_request = v, us_desktop_session = sk, us_pairing = stub_pairing stub, us_closed = False \<rparr>)"
  using p by (auto simp: unwrap_begin_def Let_def result_iff key_signer_def encode_public_def)

lemma unwrap_receive_ok:
  "unwrap_receive L R encoded now (us, s) = ((us', s'), Inr fk) \<longleftrightarrow>
     \<not> us_closed us \<and> us' = us\<lparr> us_closed := True \<rparr> \<and>
     (\<exists>m. signed_response_decode L encoded = Inr m \<and>
        open_response L R m (us_request us) (us_pairing us) (us_desktop_session us) now s = (s', Inr fk))"
  by (auto simp: unwrap_receive_def Let_def result_iff split: sum.splits prod.splits)

lemma unwrap_receive_closes: "unwrap_receive L R encoded now (us, s) = ((us', s'), r) \<Longrightarrow> us_closed us'"
  by (auto simp: unwrap_receive_def Let_def split: if_splits sum.splits prod.splits)

lemma unwrap_receive_closed:
  "us_closed us \<Longrightarrow> unwrap_receive L R encoded now (us, s) = ((us, s), Inl UnwrapSessionClosed)"
  by (simp add: unwrap_receive_def)

subsection \<open>Sequences of responses\<close>

text \<open>A session offered responses at given times, on a replay store that other calls may change in
  between.\<close>

fun unwrap_receives ::
    "('pk, 'sg, 'sk) lib \<Rightarrow> 's replay_ops \<Rightarrow> (bytes \<times> u64 \<times> ('s \<Rightarrow> 's)) list \<Rightarrow> 'sk desktop_unwrap_session \<times> 's \<Rightarrow>
     (unwrap_error, bytes) result list" where
  "unwrap_receives L R [] x = []"
| "unwrap_receives L R ((encoded, now, others) # es) (us, s) =
     (case unwrap_receive L R encoded now (us, others s) of (x, r) \<Rightarrow> r # unwrap_receives L R es x)"

lemma unwrap_receives_closed:
  "us_closed us \<Longrightarrow> unwrap_receives L R es (us, s) = replicate (length es) (Inl UnwrapSessionClosed)"
  by (induction es arbitrary: s) (auto simp: unwrap_receive_closed)

lemma unwrap_receives_first:
  "unwrap_receives L R ((encoded, now, others) # es) (us, s) =
     snd (unwrap_receive L R encoded now (us, others s)) # replicate (length es) (Inl UnwrapSessionClosed)"
proof -
  obtain us' s' r where "unwrap_receive L R encoded now (us, others s) = ((us', s'), r)" by (metis prod.collapse)
  then show ?thesis using unwrap_receives_closed unwrap_receive_closes by fastforce
qed

end
