(* ===== verification/Desktop_Properties.thy ===== *)
theory Desktop_Properties
  imports Pairing_Session Unwrap_Session Protocol_Properties
begin

text \<open>
  The properties of the desktop's pairing and unwrap sessions, the stub and the key state, and of
  the whole path from pairing to an unwrapped file key, each with a run on the reference crates.
\<close>

subsection \<open>From a session to an unwrap\<close>

text \<open>A session started with a desktop's own keys pairs that desktop.\<close>

lemma paired_desktop_matches:
  assumes p: "p256_laws (ec L)"
    and s: "session_begin L (dk_desktop_id d) lbl (key_signer L d)
      (pk_compressed (ec L) (sk_public (ec L) (dk_selection_key d))) t0 nonce = Inr s"
  shows "desktop_matches L (stub_from_response L s m fp) d = Inr ()"
  using s
  by (auto simp: session_begin_def result_iff desktop_matches_ok [OF p] stub_from_response_def key_signer_def
      software_signer.public_key [OF p] offer_sign_def)

lemma signer_total:
  assumes "\<And>x. \<exists>y. ecdsa_sign_prehash (ec L) k x = Some y"
  shows "\<exists>y. sg_sign_prehash (signing_key_signer L k) x = Inr y"
  using assms [of x] by (auto simp: signing_key_signer_def)

lemma session_begin_ok:
  assumes p: "p256_laws (ec L)"
    and s: "session_begin L i lbl (signing_key_signer L sk) sel t0 nonce = Inr s"
  shows "ps_state s = Waiting" "ps_started_at_ms s = t0"
    "offer_sign L \<lparr> po_desktop_id = i, po_desktop_label = lbl,
       po_desktop_signing_public_key = pk_compressed (ec L) (sk_public (ec L) sk),
       po_desktop_selection_public_key = sel, po_nonce = nonce \<rparr> (signing_key_signer L sk) = Inr (ps_offer s)"
    "payload (ps_offer s) = \<lparr> po_desktop_id = i, po_desktop_label = lbl,
       po_desktop_signing_public_key = pk_compressed (ec L) (sk_public (ec L) sk),
       po_desktop_selection_public_key = sel, po_nonce = nonce \<rparr>"
  using s by (auto simp: session_begin_def result_iff software_signer.public_key [OF p] offer_sign_def)

text \<open>With a valid stanza, a short hint and a clock that leaves room for the expiry, a session of
  the paired desktop begins.\<close>

lemma unwrap_begins:
  assumes p: "p256_laws (ec L)" and m: "desktop_matches L stub d = Inr ()"
    and st: "validate_stanza L stanza = Inr ()" and h: "\<forall>x. hint = Some x \<longrightarrow> length x \<le> 64"
    and t: "unat now + 300 < 2 ^ 63" and sg: "\<And>x. \<exists>y. ecdsa_sign_prehash (ec L) (dk_signing_key d) x = Some y"
  shows "\<exists>us. unwrap_begin L stub d stanza hint now (sk, i, n) = Inr us"
proof -
  obtain e where e: "request_expiry now = Inr e" "unat e = unat now + 300"
  proof
    show "unat (now + 300) = unat now + 300" using t by (simp add: unat_word_ariths)
    then show "request_expiry now = Inr (now + 300)" using t by (simp add: request_expiry_iff)
  qed
  let ?r = "\<lparr> rq_request_id = i, rq_identity_id = sb_identity_id stub, rq_desktop_id = sb_desktop_id stub,
            rq_session_public_key = encode_public L (sk_public (ec L) sk), rq_recipient_stanza = stanza, rq_nonce = n,
            rq_expires_at_unix = e, rq_caller_hint = hint \<rparr>"
  have "public_key L (encode_public L (sk_public (ec L) sk)) = Inr (sk_public (ec L) sk)" by (simp add: public_key_iff [OF p])
  then have v: "validate_request L ?r = Inr ()"
    using st h e(2) t by (auto simp: validate_request_def label_def failIf_def word_less_nat_alt split: option.splits)
  obtain x where x: "sign L (signing_key_signer L (dk_signing_key d)) REQUEST_SIG (encode_request L ?r) = Inr x"
    using signer_total [OF sg] unfolding sign_def by blast
  have "validate_request_time e now = Inr ()" using e(2) t by (simp add: validate_request_time_iff)
  with v x m e show ?thesis
    by (auto simp: unwrap_begin_ok [OF p] create_request_def request_sign_def stub_pairing_def desktop_matches_ok [OF p]
        software_signer.public_key [OF p])
qed


subsection \<open>Pairing\<close>

text \<open>A session started with the keys of a desktop state.\<close>

definition state_session ::
    "('pk, 'sg, 'sk) lib \<Rightarrow> 'sk desktop_key_state \<Rightarrow> string \<Rightarrow> u64 \<Rightarrow> bytes \<Rightarrow> (pairing_error, desktop_pairing_session) result" where
  "state_session L d lbl t0 nonce =
     session_begin L (dk_desktop_id d) lbl (key_signer L d) (pk_compressed (ec L) (sk_public (ec L) (dk_selection_key d))) t0 nonce"

lemma state_session_begin:
  "state_session L d lbl t0 nonce = session_begin L (dk_desktop_id d) lbl (signing_key_signer L (dk_signing_key d))
     (pk_compressed (ec L) (sk_public (ec L) (dk_selection_key d))) t0 nonce"
  by (simp add: state_session_def key_signer_def)

lemma state_session_completes:
  assumes laws: "cbor_sized (minicbor L)" "bech32_codec (bech L)" "p256_laws (ec L)" "symmetric_laws (sym L)"
      "ecdsa_laws (ec L) (sym L)"
    and s: "state_session L d lbl t0 nonce = Inr s" "wf_offer (payload (ps_offer s))"
    and q: "wf_pairing_response q" "pr_offer_digest q = offer_digest L (ps_offer s)"
      "recipient_parse L (pr_recipient q) = Inr r"
      "{recipient_public_key_bytes L r, pr_phone_signing_public_key q} \<inter>
        {po_desktop_signing_public_key (payload (ps_offer s)), po_desktop_selection_public_key (payload (ps_offer s))} = {}"
      "pairing_response_sign L q (signing_key_signer L phone) = Inr m"
    and t: "unat t0 \<le> unat t1" "unat t1 \<le> unat t0 + 300000" "unat t0 \<le> unat t2" "unat t2 \<le> unat t0 + 300000"
  shows "\<exists>shown s1. receive_pairing_response L (signed_pairing_response_encode L m) t1 s = (s1, Inr shown) \<and>
    (let stub = stub_from_response L s m (pairing_fingerprint L (ps_offer s) m)
     in confirm L (pd_transcript_fingerprint shown) t2 s1 = (closed s, Inr stub) \<and>
        stub_decode L (stub_encode L stub) = Inr stub \<and> desktop_matches L stub d = Inr ())"
proof -
  note b = session_begin_ok [OF laws(3) s(1) [unfolded state_session_begin]]
  have sp: "offer_sign L (payload (ps_offer s)) (signing_key_signer L (dk_signing_key d)) = Inr (ps_offer s)"
    using b(3,4) by simp
  note c = pairing_completes [OF laws(1,3,5) s(2) sp q]
  have cc: "cbor_codec (minicbor L)" by (rule cbor_sized.axioms [OF laws(1)])
  let ?fp = "pairing_fingerprint L (ps_offer s) m"
  let ?s1 = "s\<lparr> ps_state := Confirming m ?fp \<rparr>"
  have r: "receive_pairing_response L (signed_pairing_response_encode L m) t1 s = (?s1, Inr (displayed_for L s m))"
    unfolding receive_ok displayed_for_def using b(1,2) c t by simp
  have cf: "confirm L (pd_transcript_fingerprint (displayed_for L s m)) t2 ?s1 = (closed s, Inr (stub_from_response L s m ?fp))"
    unfolding confirm_ok using b(1,2) t by (simp add: displayed_for_def stub_from_response_def)
  have "accepted_response L s (signed_pairing_response_encode L m) t1 m"
    using b(2) c t by (simp add: accepted_response_def)
  with accepted_stub_ok [OF cc laws(4) s(2)] have "stub_ok L (stub_from_response L s m ?fp)" by blast
  then have "stub_decode L (stub_encode L (stub_from_response L s m ?fp)) = Inr (stub_from_response L s m ?fp)"
    using stub_decode_iff [OF cc laws(2,3)] by blast
  moreover have "desktop_matches L (stub_from_response L s m ?fp) d = Inr ()"
    by (rule paired_desktop_matches [OF laws(3) s(1) [unfolded state_session_def]])
  ultimately show ?thesis using r cf by (auto simp: Let_def)
qed

text \<open>A sample state, its session, and the phone's response to it.\<close>

definition sample_desktop :: "byte desktop_key_state" where
  "sample_desktop = \<lparr> dk_desktop_id = replicate 16 1, dk_signing_key = 21, dk_selection_key = 22 \<rparr>"

lemma sample_session:
  obtains s where "state_session ref_lib sample_desktop ''desk'' t0 (replicate 32 4) = Inr s" "payload (ps_offer s) = sample_offer"
proof -
  obtain m where m: "offer_sign ref_lib sample_offer (signing_key_signer ref_lib 21) = Inr m" "payload m = sample_offer"
    by (rule sample_offer_signed)
  let ?s = "\<lparr> ps_offer = m, ps_started_at_ms = t0, ps_state = Waiting \<rparr>"
  have "state_session ref_lib sample_desktop ''desk'' t0 (replicate 32 4) = Inr ?s"
    using m(1) unfolding state_session_begin session_begin_def
    by (simp add: ref_own_key sample_desktop_def sample_offer_def)
  with m(2) show thesis by (intro that [of ?s]) simp_all
qed

lemma sample_answer:
  assumes o: "payload (ps_offer s) = sample_offer"
  obtains q m where "wf_pairing_response q" "pr_offer_digest q = offer_digest ref_lib (ps_offer s)"
    "recipient_parse ref_lib (pr_recipient q) = Inr (Recipient 5)"
    "{recipient_public_key_bytes ref_lib (Recipient 5), pr_phone_signing_public_key q} \<inter>
      {po_desktop_signing_public_key (payload (ps_offer s)), po_desktop_selection_public_key (payload (ps_offer s))} = {}"
    "pairing_response_sign ref_lib q (signing_key_signer ref_lib 31) = Inr m"
proof -
  obtain t where t: "recipient_parse ref_lib t = Inr (Recipient 5)" "utf8_valid t" "length t \<le> 160"
    by (rule sample_recipient)
  let ?q = "sample_response t (offer_digest ref_lib (ps_offer s))"
  obtain m where "pairing_response_sign ref_lib ?q (signing_key_signer ref_lib 31) = Inr m"
    by (rule sample_response_signed [OF t(1)])
  moreover have "wf_pairing_response ?q"
    using t by (simp add: wf_pairing_response_def sample_response_def offer_digest_def length_hash [OF ref_laws(7)] del: ref_lib_simps)
  ultimately show thesis
    using t(1) by (intro that [of ?q m]) (simp_all add: sample_response_def recipient_public_key_bytes_def sample_offer_def o)
qed

lemma sample_pairing_completes:
  obtains s m shown s1 stub where
    "state_session ref_lib sample_desktop ''desk'' 100 (replicate 32 4) = Inr s" "payload (ps_offer s) = sample_offer"
    "receive_pairing_response ref_lib (signed_pairing_response_encode ref_lib m) 200 s = (s1, Inr shown)"
    "confirm ref_lib (pd_transcript_fingerprint shown) 300 s1 = (closed s, Inr stub)"
    "stub_ok ref_lib stub" "desktop_matches ref_lib stub sample_desktop = Inr ()"
    "sb_phone_signing_public_key stub = toy_compressed 31"
    "recipient_parse ref_lib (sb_recipient stub) = Inr (Recipient 5)"
proof -
  obtain s where s: "state_session ref_lib sample_desktop ''desk'' 100 (replicate 32 4) = Inr s" "payload (ps_offer s) = sample_offer"
    by (rule sample_session)
  obtain q m where q: "wf_pairing_response q" "pr_offer_digest q = offer_digest ref_lib (ps_offer s)"
    "recipient_parse ref_lib (pr_recipient q) = Inr (Recipient 5)"
    "{recipient_public_key_bytes ref_lib (Recipient 5), pr_phone_signing_public_key q} \<inter>
      {po_desktop_signing_public_key (payload (ps_offer s)), po_desktop_selection_public_key (payload (ps_offer s))} = {}"
    "pairing_response_sign ref_lib q (signing_key_signer ref_lib 31) = Inr m"
    by (rule sample_answer [OF s(2)])
  have w: "wf_offer (payload (ps_offer s))" using s(2) wf_sample_offer by simp
  have pm: "payload m = q" "pr_phone_signing_public_key q = toy_compressed 31"
    using q(5) by (auto simp: pairing_response_sign_def result_iff ref_own_key)
  have "unat (100 :: u64) \<le> unat (200 :: u64)" "unat (200 :: u64) \<le> unat (100 :: u64) + 300000"
    "unat (100 :: u64) \<le> unat (300 :: u64)" "unat (300 :: u64) \<le> unat (100 :: u64) + 300000" by simp_all
  from state_session_completes [OF ref_laws(3,2,5,7,6) s(1) w q this] obtain shown s1 where
    r: "receive_pairing_response ref_lib (signed_pairing_response_encode ref_lib m) 200 s = (s1, Inr shown)"
    "confirm ref_lib (pd_transcript_fingerprint shown) 300 s1 =
      (closed s, Inr (stub_from_response ref_lib s m (pairing_fingerprint ref_lib (ps_offer s) m)))"
    "stub_decode ref_lib (stub_encode ref_lib (stub_from_response ref_lib s m (pairing_fingerprint ref_lib (ps_offer s) m))) =
      Inr (stub_from_response ref_lib s m (pairing_fingerprint ref_lib (ps_offer s) m))"
    "desktop_matches ref_lib (stub_from_response ref_lib s m (pairing_fingerprint ref_lib (ps_offer s) m)) sample_desktop = Inr ()"
    unfolding Let_def by blast
  from stub_decode_sound [OF r(3)] pm r s q(3) show thesis
    by (intro that [OF s r(1,2) _ r(4)]) (simp_all add: stub_from_response_def)
qed

text \<open>C31: Whatever responses, confirmations and cancellations a pairing session sees, a stub comes
  out in one way only: the first event is a response in time that verifies against this session's
  offer and whose fingerprint is shown, the second confirms exactly that fingerprint in time, and
  after it nothing but refusals; the stub is the one of that response, and its encoding is one the
  stub decoder reads back.\<close>

theorem pairing_activates_only_confirmed:
  assumes "cbor_codec (minicbor L)" "bech32_codec (bech L)" "p256_laws (ec L)" "symmetric_laws (sym L)"
    and "session_begin L i lbl (signing_key_signer L sk) sel t0 nonce = Inr s"
    and "wf_offer (payload (ps_offer s))"
    and "pairing_run L s tr s'" "(ev, Activated stub) \<in> set tr"
  shows "activation L s tr stub \<and> stub_decode L (stub_encode L stub) = Inr stub"
proof -
  have a: "activation L s tr stub" by (rule run_activation [OF assms(7) session_begin_ok(1) [OF assms(3,5)] assms(8)])
  then obtain encoded t m where "accepted_response L s encoded t m"
    "stub = stub_from_response L s m (pairing_fingerprint L (ps_offer s) m)" unfolding activation_def by blast
  with accepted_stub_ok [OF assms(1,4,6)] have "stub_ok L stub" by blast
  with a show ?thesis using stub_decode_iff [OF assms(1-3)] by blast
qed

theorem pairing_activates_only_confirmed_witness:
  "\<exists>s tr s' ev stub. (ev, Activated stub) \<in> set tr \<and> activation ref_lib s tr stub \<and>
     pairing_run ref_lib s tr s' \<and> payload (ps_offer s) = sample_offer"
proof -
  obtain s m shown s1 stub where
    s: "state_session ref_lib sample_desktop ''desk'' 100 (replicate 32 4) = Inr s" "payload (ps_offer s) = sample_offer"
    and r: "receive_pairing_response ref_lib (signed_pairing_response_encode ref_lib m) 200 s = (s1, Inr shown)"
    "confirm ref_lib (pd_transcript_fingerprint shown) 300 s1 = (closed s, Inr stub)"
    by (rule sample_pairing_completes)
  let ?ev = "Confirmed (pd_transcript_fingerprint shown) 300"
  let ?tr = "([] @ [(Received (signed_pairing_response_encode ref_lib m) 200, Displayed shown)]) @ [(?ev, Activated stub)]"
  have run: "pairing_run ref_lib s ?tr (closed s)"
    by (rule run_step [OF run_step [OF run_start displayed [OF r(1)]] activated [OF r(2)]])
  have w: "wf_offer (payload (ps_offer s))" using s(2) wf_sample_offer by simp
  have i: "(?ev, Activated stub) \<in> set ?tr" by simp
  note pairing_activates_only_confirmed [OF ref_laws(4,2,5,7) s(1) [unfolded state_session_begin] w run i]
  with run i s(2) show ?thesis by blast
qed



text \<open>A pairing session completes: a response the phone signs over the offer's digest, with
  keys different from the desktop's, is received over the wire, its fingerprint confirmed, and the
  stub that comes out is readable and belongs to the desktop state that started the session.\<close>

theorem pairing_session_completes:
  assumes "cbor_sized (minicbor L)" "bech32_codec (bech L)" "p256_laws (ec L)" "symmetric_laws (sym L)"
      "ecdsa_laws (ec L) (sym L)"
    and "state_session L d lbl t0 nonce = Inr s" "wf_offer (payload (ps_offer s))"
    and "wf_pairing_response q" "pr_offer_digest q = offer_digest L (ps_offer s)"
      "recipient_parse L (pr_recipient q) = Inr r"
      "{recipient_public_key_bytes L r, pr_phone_signing_public_key q} \<inter>
        {po_desktop_signing_public_key (payload (ps_offer s)), po_desktop_selection_public_key (payload (ps_offer s))} = {}"
      "pairing_response_sign L q (signing_key_signer L phone) = Inr m"
    and "unat t0 \<le> unat t1" "unat t1 \<le> unat t0 + 300000" "unat t0 \<le> unat t2" "unat t2 \<le> unat t0 + 300000"
  shows "\<exists>shown s1. receive_pairing_response L (signed_pairing_response_encode L m) t1 s = (s1, Inr shown) \<and>
    (let stub = stub_from_response L s m (pairing_fingerprint L (ps_offer s) m)
     in confirm L (pd_transcript_fingerprint shown) t2 s1 = (closed s, Inr stub) \<and>
        stub_decode L (stub_encode L stub) = Inr stub \<and> desktop_matches L stub d = Inr ())"
  by (rule state_session_completes [OF assms])

theorem pairing_session_completes_witness:
  "\<exists>s m s1 shown s2 stub. receive_pairing_response ref_lib (signed_pairing_response_encode ref_lib m) 200 s = (s1, Inr shown) \<and>
    confirm ref_lib (pd_transcript_fingerprint shown) 300 s1 = (s2, Inr stub) \<and>
    desktop_matches ref_lib stub sample_desktop = Inr ()"
proof -
  obtain s where s: "state_session ref_lib sample_desktop ''desk'' 100 (replicate 32 4) = Inr s" "payload (ps_offer s) = sample_offer"
    by (rule sample_session)
  obtain q m where q: "wf_pairing_response q" "pr_offer_digest q = offer_digest ref_lib (ps_offer s)"
    "recipient_parse ref_lib (pr_recipient q) = Inr (Recipient 5)"
    "{recipient_public_key_bytes ref_lib (Recipient 5), pr_phone_signing_public_key q} \<inter>
      {po_desktop_signing_public_key (payload (ps_offer s)), po_desktop_selection_public_key (payload (ps_offer s))} = {}"
    "pairing_response_sign ref_lib q (signing_key_signer ref_lib 31) = Inr m"
    by (rule sample_answer [OF s(2)])
  have w: "wf_offer (payload (ps_offer s))" using s(2) wf_sample_offer by simp
  have "unat (100 :: u64) \<le> unat (200 :: u64)" "unat (200 :: u64) \<le> unat (100 :: u64) + 300000"
    "unat (100 :: u64) \<le> unat (300 :: u64)" "unat (300 :: u64) \<le> unat (100 :: u64) + 300000" by simp_all
  from pairing_session_completes [OF ref_laws(3,2,5,7,6) s(1) w q this] show ?thesis unfolding Let_def by blast
qed


subsection \<open>The unwrap session\<close>

lemma session_exchange:
  assumes laws: "cbor_sized (minicbor L)" "base64_engine (std64 L)" "p256_laws (ec L)" "symmetric_laws (sym L)" "ecdsa_laws (ec L) (sym L)"
    and st: "stub_ok L stub" "desktop_matches L stub d = Inr ()"
      "sb_phone_signing_public_key stub = pk_compressed (ec L) (sk_public (ec L) phone)"
    and fk: "unwrap_file_key L identity stanza = Inr fk"
    and drawn: "length i = 16" "length n = 32" "length nonce = 32"
    and h: "\<forall>x. hint = Some x \<longrightarrow> length x \<le> 64 \<and> utf8_valid x"
    and t: "unat now + 300 < 2 ^ 63" "unat now \<le> unat t1" "unat t1 \<le> unat now + 300" "unat now \<le> unat t2" "unat t2 \<le> unat now + 300"
    and sg: "\<And>k x. \<exists>y. ecdsa_sign_prehash (ec L) k x = Some y"
    and R: "ro_request R (sb_desktop_id stub) (sb_identity_id stub) i n (now + 300) t1 s = (s', Inr ())"
    and R': "\<And>x. \<exists>u'. ro_response R' (sb_desktop_id stub) (sb_identity_id stub) x (now + 300) t2 u = (u', Inr ())"
  shows "\<exists>us w m us' u'. unwrap_begin L stub d stanza hint now (sk, i, n) = Inr us \<and>
    signed_request_decode L (unwrap_signed_request L us) = Inr w \<and>
    verify_request_with_replay L R w (stub_pairing stub) t1 s = (s', Inr (us_request us)) \<and>
    unwrap_file_key L identity (rq_recipient_stanza (payload w)) = Inr fk \<and>
    seal_response L (us_request us) fk (signing_key_signer L phone) (e, nonce) = Inr m \<and>
    unwrap_receive L R' (signed_response_encode L m) t2 (us, u) = ((us', u'), Inr fk)"
proof -
  note p = laws(3)
  have v: "validate_stanza L stanza = Inr ()" using unwrap_validates [OF fk] by simp
  have h': "\<forall>x. hint = Some x \<longrightarrow> length x \<le> 64" using h by blast
  obtain us where us: "unwrap_begin L stub d stanza hint now (sk, i, n) = Inr us"
    using unwrap_begins [OF p st(2) v h' t(1) sg] by blast
  have x: "request_expiry now = Inr (now + 300)" and ux: "unat (now + 300) = unat now + 300"
    using t(1) by (simp_all add: request_expiry_iff unat_word_ariths)
  let ?q = "\<lparr> rq_request_id = i, rq_identity_id = sb_identity_id stub, rq_desktop_id = sb_desktop_id stub,
      rq_session_public_key = encode_public L (sk_public (ec L) sk), rq_recipient_stanza = stanza, rq_nonce = n,
      rq_expires_at_unix = now + 300, rq_caller_hint = hint \<rparr>"
  obtain c where c: "create_request L ?q (signing_key_signer L (dk_signing_key d)) (stub_pairing stub) now = Inr c"
    and eq: "us = \<lparr> us_request = c, us_desktop_session = sk, us_pairing = stub_pairing stub, us_closed = False \<rparr>"
    using us x unfolding unwrap_begin_ok [OF p] by auto
  have w: "wf_request ?q"
    using st(1) drawn h validated_stanza_wf [OF laws(2,3) v] p256_rt(4) [OF p]
    by (simp add: wf_request_def stub_ok_def wf_stub_def encode_public_def split: option.splits)
  have t1: "validate_request_time (rq_expires_at_unix ?q) t1 = Inr ()"
    and t2: "validate_request_time (rq_expires_at_unix ?q) t2 = Inr ()"
    using t by (simp_all add: validate_request_time_iff ux)
  have ph: "pair_phone_signing_public_key (stub_pairing stub) = pk_compressed (ec L) (sk_public (ec L) phone)"
    using st(3) by (simp add: stub_pairing_def)
  have k: "unwrap_file_key L identity (rq_recipient_stanza ?q) = Inr fk" "rq_session_public_key ?q = encode_public L (sk_public (ec L) sk)"
    using fk by simp_all
  have r: "ro_request R (pair_desktop_id (stub_pairing stub)) (pair_identity_id (stub_pairing stub)) (rq_request_id ?q) (rq_nonce ?q)
      (rq_expires_at_unix ?q) t1 s = (s', Inr ())"
    using R by (simp add: stub_pairing_def)
  have r': "\<exists>u'. ro_response R' (pair_desktop_id (stub_pairing stub)) (pair_identity_id (stub_pairing stub)) x
      (rq_expires_at_unix ?q) t2 u = (u', Inr ())" for x
    using R' by (simp add: stub_pairing_def)
  from exchange_completes [OF laws(1,3,4,5) w c k(2) ph k(1) t1 t2 r drawn(3) sg r'] obtain w m u' where
    "signed_request_decode L (signed_request_encode L (vr_signed c)) = Inr w"
    "verify_request_with_replay L R w (stub_pairing stub) t1 s = (s', Inr c)"
    "unwrap_file_key L identity (rq_recipient_stanza (payload w)) = Inr fk"
    "seal_response L c fk (signing_key_signer L phone) (e, nonce) = Inr m"
    "signed_response_decode L (signed_response_encode L m) = Inr m"
    "open_response L R' m c (stub_pairing stub) sk t2 u = (u', Inr fk)" by blast
  moreover from this have "unwrap_receive L R' (signed_response_encode L m) t2 (us, u) = ((us\<lparr> us_closed := True \<rparr>, u'), Inr fk)"
    unfolding unwrap_receive_ok by (simp add: eq)
  ultimately show ?thesis using us unfolding unwrap_signed_request_def eq by auto
qed


abbreviation no_replays :: replay_guard where
  "no_replays \<equiv> \<lparr> rg_requests = {}, rg_nonces = {}, rg_responses = {} \<rparr>"

lemma sample_unwrap_setup:
  obtains stub stanza g where "stub_ok ref_lib stub" "desktop_matches ref_lib stub sample_desktop = Inr ()"
    "sb_phone_signing_public_key stub = pk_compressed (ec ref_lib) (sk_public (ec ref_lib) 31)"
    "unwrap_file_key ref_lib 5 stanza = Inr (replicate 16 1)"
    "ro_request guard_ops (sb_desktop_id stub) (sb_identity_id stub) (replicate 16 3) (replicate 32 5) (900 + 300) 950 no_replays
      = (g, Inr ())"
    "\<forall>x. \<exists>u. ro_response guard_ops (sb_desktop_id stub) (sb_identity_id stub) x (900 + 300) 960 no_replays = (u, Inr ())"
proof -
  obtain stub where st: "stub_ok ref_lib stub" "desktop_matches ref_lib stub sample_desktop = Inr ()"
    "sb_phone_signing_public_key stub = toy_compressed 31" by (rule sample_pairing_completes)
  obtain stanza where z: "unwrap_file_key ref_lib 5 stanza = Inr (replicate 16 1)" by (rule sample_stanza)
  obtain g where g: "ro_request guard_ops (sb_desktop_id stub) (sb_identity_id stub) (replicate 16 3) (replicate 32 5) (900 + 300) 950
      no_replays = (g, Inr ())"
    by (simp add: guard_ops_def guard_consume_request_def)
  have "\<exists>u. ro_response guard_ops (sb_desktop_id stub) (sb_identity_id stub) x (900 + 300) 960 no_replays = (u, Inr ())" for x
    by (simp add: guard_ops_def guard_consume_response_def)
  with st z g show thesis by (intro that [of stub stanza g]) simp_all
qed

lemma sample_inputs:
  "length (replicate 16 (3 :: byte)) = 16" "length (replicate 32 (5 :: byte)) = 32" "length (replicate 32 (9 :: byte)) = 32"
  "\<forall>x. Some ''git'' = Some x \<longrightarrow> length x \<le> 64 \<and> utf8_valid x"
  "unat (900 :: u64) + 300 < 2 ^ 63" "unat (900 :: u64) \<le> unat (950 :: u64)" "unat (950 :: u64) \<le> unat (900 :: u64) + 300"
  "unat (900 :: u64) \<le> unat (960 :: u64)" "unat (960 :: u64) \<le> unat (900 :: u64) + 300"
  by (simp_all add: ascii_utf8_valid is_ascii_def)

lemma ref_prehash: "\<exists>y. ecdsa_sign_prehash (ec ref_lib) k x = Some y"
  by (simp add: toy_p256_def)

text \<open>An unwrap session works from end to end: the desktop of a stub begins a session for any
  stanza its phone can open, the phone accepts the request from the wire, unwraps and seals, and the
  session returns the same file key for the encoded response, at any two times within 300 seconds of
  the start.\<close>

theorem unwrap_session_completes:
  assumes "cbor_sized (minicbor L)" "base64_engine (std64 L)" "p256_laws (ec L)" "symmetric_laws (sym L)" "ecdsa_laws (ec L) (sym L)"
    and "stub_ok L stub" "desktop_matches L stub d = Inr ()"
      "sb_phone_signing_public_key stub = pk_compressed (ec L) (sk_public (ec L) phone)"
    and "unwrap_file_key L identity stanza = Inr fk"
    and "length i = 16" "length n = 32" "length nonce = 32"
    and "\<forall>x. hint = Some x \<longrightarrow> length x \<le> 64 \<and> utf8_valid x"
    and "unat now + 300 < 2 ^ 63" "unat now \<le> unat t1" "unat t1 \<le> unat now + 300" "unat now \<le> unat t2" "unat t2 \<le> unat now + 300"
    and "\<And>k x. \<exists>y. ecdsa_sign_prehash (ec L) k x = Some y"
    and "ro_request R (sb_desktop_id stub) (sb_identity_id stub) i n (now + 300) t1 s = (s', Inr ())"
    and "\<And>x. \<exists>u'. ro_response R' (sb_desktop_id stub) (sb_identity_id stub) x (now + 300) t2 u = (u', Inr ())"
  shows "\<exists>us w m us' u'. unwrap_begin L stub d stanza hint now (sk, i, n) = Inr us \<and>
    signed_request_decode L (unwrap_signed_request L us) = Inr w \<and>
    verify_request_with_replay L R w (stub_pairing stub) t1 s = (s', Inr (us_request us)) \<and>
    unwrap_file_key L identity (rq_recipient_stanza (payload w)) = Inr fk \<and>
    seal_response L (us_request us) fk (signing_key_signer L phone) (e, nonce) = Inr m \<and>
    unwrap_receive L R' (signed_response_encode L m) t2 (us, u) = ((us', u'), Inr fk)"
  by (rule session_exchange [OF assms(1-18)]) (rule assms)+

theorem unwrap_session_completes_witness:
  "\<exists>stub stanza us m x. desktop_matches ref_lib stub sample_desktop = Inr () \<and>
    unwrap_begin ref_lib stub sample_desktop stanza (Some ''git'') 900 (11, replicate 16 3, replicate 32 5) = Inr us \<and>
    unwrap_receive ref_lib guard_ops (signed_response_encode ref_lib m) 960 (us, no_replays) = (x, Inr (replicate 16 1))"
proof -
  obtain stub stanza g where h: "stub_ok ref_lib stub" "desktop_matches ref_lib stub sample_desktop = Inr ()"
    "sb_phone_signing_public_key stub = pk_compressed (ec ref_lib) (sk_public (ec ref_lib) 31)"
    "unwrap_file_key ref_lib 5 stanza = Inr (replicate 16 1)"
    "ro_request guard_ops (sb_desktop_id stub) (sb_identity_id stub) (replicate 16 3) (replicate 32 5) (900 + 300) 950 no_replays
      = (g, Inr ())"
    "\<forall>x. \<exists>u. ro_response guard_ops (sb_desktop_id stub) (sb_identity_id stub) x (900 + 300) 960 no_replays = (u, Inr ())"
    by (rule sample_unwrap_setup)
  from unwrap_session_completes [OF ref_laws(3,1,5,7,6) h(1-4) sample_inputs ref_prehash h(5) h(6) [rule_format], where e = 12 and sk = 11] h(2)
  show ?thesis by blast
qed

text \<open>C30: An unwrap session releases at most one file key, and only for its first response: that
  response is bound to the request of this session, to the stub's desktop and identity, in time, and
  signed by the stub's phone.\<close>

theorem unwrap_session_once:
  assumes "unwrap_begin L stub d stanza hint now drawn = Inr us" "k < length es"
    and "unwrap_receives L R es (us, s) ! k = Inr fk"
  shows "k = 0 \<and> length fk = 16 \<and> (\<exists>m. signed_response_decode L (fst (es ! 0)) = Inr m \<and>
    rs_request_id (payload m) = rq_request_id (vr_payload (us_request us)) \<and>
    rs_request_digest (payload m) = vr_digest (us_request us) \<and>
    rs_identity_id (payload m) = sb_identity_id stub \<and> rs_desktop_id (payload m) = sb_desktop_id stub \<and>
    validate_request_time (rq_expires_at_unix (vr_payload (us_request us))) (fst (snd (es ! 0))) = Inr () \<and>
    (\<exists>key. verifying L (sb_phone_signing_public_key stub) = Inr key \<and>
       verify L key RESPONSE_SIG (encode_response L (payload m)) (signature m) = Inr ()))"
proof -
  obtain encoded t others es' where es: "es = (encoded, t, others) # es'" using assms(2) by (cases es) auto
  have "us_pairing us = stub_pairing stub" "\<not> us_closed us"
    using assms(1) by (auto simp: unwrap_begin_def Let_def result_iff split: prod.splits)
  with assms(2,3) show ?thesis
    unfolding es unwrap_receives_first
    by (cases k; cases "unwrap_receive L R encoded t (us, others s)")
      (force simp: unwrap_receive_ok open_response_ok stub_pairing_def dest: open_response_checks_bound)+
qed

theorem unwrap_session_once_witness:
  "\<exists>(stub :: public_identity_stub) us es (m :: unwrap_response signed_message). unwrap_receives ref_lib guard_ops es (us, no_replays) ! 0 = Inr (replicate 16 1) \<and>
     rs_request_digest (payload m) = vr_digest (us_request us) \<and> rs_desktop_id (payload m) = sb_desktop_id stub"
proof -
  obtain stub stanza g where h: "stub_ok ref_lib stub" "desktop_matches ref_lib stub sample_desktop = Inr ()"
    "sb_phone_signing_public_key stub = pk_compressed (ec ref_lib) (sk_public (ec ref_lib) 31)"
    "unwrap_file_key ref_lib 5 stanza = Inr (replicate 16 1)"
    "ro_request guard_ops (sb_desktop_id stub) (sb_identity_id stub) (replicate 16 3) (replicate 32 5) (900 + 300) 950 no_replays
      = (g, Inr ())"
    "\<forall>x. \<exists>u. ro_response guard_ops (sb_desktop_id stub) (sb_identity_id stub) x (900 + 300) 960 no_replays = (u, Inr ())"
    by (rule sample_unwrap_setup)
  from session_exchange [OF ref_laws(3,1,5,7,6) h(1-4) sample_inputs ref_prehash h(5) h(6) [rule_format], where e = 12 and sk = 11]
  obtain us m x where
    b: "unwrap_begin ref_lib stub sample_desktop stanza (Some ''git'') 900 (11, replicate 16 3, replicate 32 5) = Inr us"
    and r: "unwrap_receive ref_lib guard_ops (signed_response_encode ref_lib m) 960 (us, no_replays) = (x, Inr (replicate 16 1))"
    by blast
  let ?es = "[(signed_response_encode ref_lib m, 960, \<lambda>s. s)]"
  have k: "0 < length ?es" by simp
  have o: "unwrap_receives ref_lib guard_ops ?es (us, no_replays) ! 0 = Inr (replicate 16 1)"
    unfolding unwrap_receives_first by (simp add: r)
  from unwrap_session_once [OF b k o] obtain m' :: "unwrap_response signed_message" where
    "rs_request_digest (payload m') = vr_digest (us_request us)" "rs_desktop_id (payload m') = sb_desktop_id stub" by blast
  with o show ?thesis by blast
qed

subsection \<open>The identity file and the desktop state\<close>

text \<open>C32: A stub goes through its texts and files unchanged: for either recipient type the identity
  file decodes to the stub, any text decodes to it only when its one significant line is the stub's
  plugin identity, and a stub file that was created reads back as the stub.\<close>

theorem identity_file_roundtrip:
  assumes "cbor_codec (minicbor L)" "bech32_codec (bech L)" "p256_laws (ec L)"
    and "stub_ok L v" "identity_file_for L v kind = Inr txt"
  shows "decode_identity_stub_text L txt = Inr v \<and>
    (decode_identity_stub_text L t = Inr v \<longleftrightarrow> (\<exists>i. identity_lines t = [i] \<and> plugin_identity L v = Inr i)) \<and>
    (create_identity_stub_file_for L md p v kind f = (g, Inr ()) \<longrightarrow>
       nodes f p = None \<and> (faults g = [] \<longrightarrow> read_identity_stub_file L p g = (g, Inr v)))"
proof -
  note i = decode_identity_stub_text_iff [OF assms(1-3)]
  have d: "decode_identity_stub_text L txt = Inr v"
    using identity_file_lines [OF assms(2,5)] assms(4) by (simp add: i)
  have "nodes f p = None \<and> (faults g = [] \<longrightarrow> read_identity_stub_file L p g = (g, Inr v))"
    if c: "create_identity_stub_file_for L md p v kind f = (g, Inr ())"
  proof -
    have "create_and_write md StubStorage p (str_bytes txt) f = (g, Inr ())"
      using c by (simp add: create_identity_stub_file_for_def assms(5))
    from create_and_write_ok [OF this] ascii_utf8_valid [OF identity_file_ascii [OF assms(2,5)]] d show ?thesis
      by (auto simp: read_identity_stub_file_def bindS_def mapErrS_def read_to_string_def file_open_def sys_read_run)
  qed
  with d i assms(4) show ?thesis by blast
qed

definition sample_file :: path where
  "sample_file = \<lparr> absolute = True, comps = [''desktop''] \<rparr>"

definition sample_disk :: fs where
  "sample_disk = \<lparr> nodes = (\<lambda>_. None), locks = {}, faults = [], pid = 7, temp_counter = 0 \<rparr>"

theorem identity_file_roundtrip_witness:
  "\<exists>v w g. identity_file_for ref_lib v PhoneType = Inr w \<and> decode_identity_stub_text ref_lib w = Inr v \<and>
     create_identity_stub_file_for ref_lib 420 sample_file v PhoneType sample_disk = (g, Inr ()) \<and>
     read_identity_stub_file ref_lib sample_file g = (g, Inr v)"
proof -
  obtain v where v: "stub_ok ref_lib v" "desktop_matches ref_lib v sample_desktop = Inr ()" by (rule sample_pairing_completes)
  then obtain w where t: "identity_file_for ref_lib v PhoneType = Inr w"
    using identity_file_total [OF ref_laws(2,5) v(1)] by (auto simp: desktop_matches_ok [OF ref_laws(5)])
  have f: "faults sample_disk = []" "nodes sample_disk sample_file = None" by (simp_all add: sample_disk_def)
  have c: "create_identity_stub_file_for ref_lib 420 sample_file v PhoneType sample_disk =
      (sample_disk\<lparr> nodes := (nodes sample_disk)(sample_file \<mapsto> Regular (str_bytes w) 420 0) \<rparr>, Inr ())"
    by (simp add: create_identity_stub_file_for_def t create_and_write_run [OF f])
  let ?g = "sample_disk\<lparr> nodes := (nodes sample_disk)(sample_file \<mapsto> Regular (str_bytes w) 420 0) \<rparr>"
  note r = identity_file_roundtrip [OF ref_laws(4,2,5) v(1) t, where t = w and md = 420 and p = sample_file and f = sample_disk and g = ?g]
  have "faults ?g = []" using f(1) by simp
  with r c t show ?thesis by blast
qed

text \<open>A desktop state that was created, on a path that named nothing, opens without faults as
  the same state; what opens at all is a private file without other names that holds exactly the
  encoding of what is returned, with two different keys.\<close>

theorem key_state_roundtrip:
  assumes "key_bytes_laws K"
  shows "(key_state_create L K p drawn f = (g, Inr d) \<longrightarrow> length (fst drawn) = 16 \<longrightarrow>
       nodes f p = None \<and> drawn = (dk_desktop_id d, dk_signing_key d, dk_selection_key d) \<and>
       (faults g = [] \<longrightarrow> key_state_open L K p g = (g, Inr d))) \<and>
     (key_state_open L K p f = (g, Inr d) \<longrightarrow>
       nodes g = nodes f \<and> \<not> same_key L (dk_signing_key d) (dk_selection_key d) \<and> length (dk_desktop_id d) = 16 \<and>
       (\<exists>b m x y. resolve (nodes f p) = Some (Regular b m 0) \<and> m AND 63 = 0 \<and>
         b = DESKTOP_KEY_MAGIC @ dk_desktop_id d @ x @ y \<and> length x = 32 \<and> length y = 32 \<and>
         kb_from_slice K x = Some (dk_signing_key d) \<and> kb_from_slice K y = Some (dk_selection_key d)))"
proof -
  have "nodes f p = None \<and> drawn = (dk_desktop_id d, dk_signing_key d, dk_selection_key d) \<and>
      (faults g = [] \<longrightarrow> key_state_open L K p g = (g, Inr d))"
    if c: "key_state_create L K p drawn f = (g, Inr d)" and l: "length (fst drawn) = 16"
    using key_state_create_ok [OF c] l key_state_open_run [OF assms, of d L g p] by auto
  with key_state_open_ok [of L K p f g d] show ?thesis by blast
qed

definition byte_keys :: "byte key_bytes" where
  "byte_keys = \<lparr> kb_from_slice = (\<lambda>b. if length b = 32 then Some (hd b) else None), kb_to_bytes = replicate 32 \<rparr>"

theorem key_state_roundtrip_witness:
  "\<exists>g. key_state_create ref_lib byte_keys sample_file (replicate 16 1, 21, 22) sample_disk = (g, Inr sample_desktop) \<and>
     key_state_open ref_lib byte_keys sample_file g = (g, Inr sample_desktop)"
proof -
  have K: "key_bytes_laws byte_keys" by (simp add: key_bytes_laws_def byte_keys_def)
  have f: "faults sample_disk = []" "nodes sample_disk sample_file = None" by (simp_all add: sample_disk_def)
  let ?g = "sample_disk\<lparr> nodes := (nodes sample_disk)(sample_file \<mapsto>
      Regular (encode_key_state byte_keys sample_desktop) PRIVATE_MODE 0) \<rparr>"
  have c: "key_state_create ref_lib byte_keys sample_file (replicate 16 1, 21, 22) sample_disk = (?g, Inr sample_desktop)"
    using f(1)
    by (simp add: key_state_create_def same_key_def Let_def bindS_def create_private_file_def create_and_write_run [OF f]
        validate_private_file_def handle_metadata_def mapErrS_def sys_read_run sample_desktop_def)
  have l: "length (fst (replicate 16 (1 :: byte), 21 :: byte, 22 :: byte)) = 16" by simp
  from key_state_roundtrip [OF K, of ref_lib sample_file "(replicate 16 1, 21, 22)" sample_disk ?g sample_desktop] c l f(1)
  show ?thesis by simp
qed

end
