(* ===== verification/Transport.thy ===== *)
theory Transport
  imports Prelude
begin

text \<open>
  The bounded one-request, one-response sessions of \<open>crates/desktop/src/transport.rs\<close>: the framing
  of a message on a stream, the stream session, and the contract of \<open>DesktopTransport\<close> that the
  stream, Wi-Fi and ADB sessions share.
\<close>

subsection \<open>Streams\<close>

text \<open>A connected stream: what the peer sends before it closes, what was written, and a script of
  failures of the calls on it (\<open>Some n\<close> fails after \<open>n\<close> bytes; an empty script fails no more).\<close>

record stream =
  inbound :: bytes
  outbound :: bytes
  io_script :: "nat option list"

definition next_io :: "stream \<Rightarrow> stream \<times> nat option" where
  "next_io s = (case io_script s of [] \<Rightarrow> (s, None) | x # r \<Rightarrow> (s\<lparr> io_script := r \<rparr>, x))"

definition stream_write_all :: "bytes \<Rightarrow> (stream, unit, unit) step" where
  "stream_write_all b s = (case next_io s of
     (s, Some n) \<Rightarrow> (s\<lparr> outbound := outbound s @ take n b \<rparr>, Inl ())
   | (s, None) \<Rightarrow> (s\<lparr> outbound := outbound s @ b \<rparr>, Inr ()))"

definition stream_flush :: "(stream, unit, unit) step" where
  "stream_flush s = (case next_io s of (s, Some _) \<Rightarrow> (s, Inl ()) | (s, None) \<Rightarrow> (s, Inr ()))"

definition stream_read_exact :: "nat \<Rightarrow> (stream, unit, bytes) step" where
  "stream_read_exact n s = (case next_io s of
     (s, Some k) \<Rightarrow> (s\<lparr> inbound := drop k (inbound s) \<rparr>, Inl ())
   | (s, None) \<Rightarrow>
       if length (inbound s) < n then (s\<lparr> inbound := [] \<rparr>, Inl ())
       else (s\<lparr> inbound := drop n (inbound s) \<rparr>, Inr (take n (inbound s))))"

subsection \<open>Data\<close>

definition STREAM_MAGIC :: bytes where "STREAM_MAGIC = str_bytes ''APTS''"

definition HEADER_LEN :: nat where "HEADER_LEN = 28"

definition STREAM_VERSION :: u16 where "STREAM_VERSION = 1"

definition DEFAULT_MAX_MESSAGE_BYTES :: nat where "DEFAULT_MAX_MESSAGE_BYTES = 65536"

datatype session_purpose = PairingPurpose | UnwrapPurpose

definition purpose_byte :: "session_purpose \<Rightarrow> byte" where
  "purpose_byte p = (case p of PairingPurpose \<Rightarrow> 1 | UnwrapPurpose \<Rightarrow> 2)"

datatype direction = DesktopRequest | PhoneResponse

definition direction_byte :: "direction \<Rightarrow> byte" where
  "direction_byte d = (case d of DesktopRequest \<Rightarrow> 1 | PhoneResponse \<Rightarrow> 2)"

record transport_limits =
  max_message_bytes :: nat

definition default_limits :: transport_limits where
  "default_limits = \<lparr> max_message_bytes = DEFAULT_MAX_MESSAGE_BYTES \<rparr>"

datatype transport_error = TransportClosed | MessageTooLarge | TransportIo | InvalidFrame

record desktop_stream_session =
  dss_stream :: stream
  dss_limits :: transport_limits
  dss_session_id :: bytes
  dss_closed :: bool

subsection \<open>Messages on a stream\<close>

definition frame_header :: "session_purpose \<Rightarrow> direction \<Rightarrow> bytes \<Rightarrow> nat \<Rightarrow> bytes" where
  "frame_header purpose direction session_id n =
     STREAM_MAGIC @ be_bytes 2 (unat STREAM_VERSION) @ [purpose_byte purpose, direction_byte direction] @
     session_id @ be_bytes 4 n"

abbreviation io_step :: "(stream, unit, 'a) step \<Rightarrow> (stream, transport_error, 'a) step" where
  "io_step m \<equiv> mapErrS (\<lambda>_. TransportIo) m"

definition write_message ::
    "session_purpose \<Rightarrow> direction \<Rightarrow> bytes \<Rightarrow> bytes \<Rightarrow> transport_limits \<Rightarrow> (stream, transport_error, unit) step" where
  "write_message purpose direction session_id msg limits =
     bindS (failS (length msg > max_message_bytes limits) MessageTooLarge) (\<lambda>_.
     bindS (failS (length msg \<ge> 2 ^ 32) MessageTooLarge) (\<lambda>_.
     bindS (io_step (stream_write_all (frame_header purpose direction session_id (length msg)))) (\<lambda>_.
     io_step (stream_write_all msg))))"

definition read_message ::
    "session_purpose \<Rightarrow> direction \<Rightarrow> bytes \<Rightarrow> transport_limits \<Rightarrow> (stream, transport_error, bytes) step" where
  "read_message purpose direction session_id limits =
     bindS (io_step (stream_read_exact HEADER_LEN)) (\<lambda>header.
     bindS (failS (take 4 header \<noteq> STREAM_MAGIC \<or>
        take 2 (drop 4 header) \<noteq> be_bytes 2 (unat STREAM_VERSION) \<or>
        header ! 6 \<noteq> purpose_byte purpose \<or> header ! 7 \<noteq> direction_byte direction \<or>
        take 16 (drop 8 header) \<noteq> session_id) InvalidFrame) (\<lambda>_.
     let n = be_value (drop 24 header)
     in bindS (failS (n > max_message_bytes limits) MessageTooLarge) (\<lambda>_.
        io_step (stream_read_exact n))))"

subsection \<open>Sessions\<close>

text \<open>\<open>new\<close> draws the session identifier.\<close>

definition stream_session_new ::
    "stream \<Rightarrow> transport_limits \<Rightarrow> bytes \<Rightarrow> (transport_error, desktop_stream_session) result" where
  "stream_session_new s limits session_id =
     bindE (failIf (max_message_bytes limits = 0 \<or> max_message_bytes limits > 4294967295) MessageTooLarge) (\<lambda>_.
     Inr \<lparr> dss_stream = s, dss_limits = limits, dss_session_id = session_id, dss_closed = False \<rparr>)"

definition stream_exchange :: "session_purpose \<Rightarrow> bytes \<Rightarrow> (desktop_stream_session, transport_error, bytes) step" where
  "stream_exchange purpose request t =
     (if dss_closed t then (t, Inl TransportClosed)
      else let t = t\<lparr> dss_closed := True \<rparr>
        in case bindS (write_message purpose DesktopRequest (dss_session_id t) request (dss_limits t)) (\<lambda>_.
                bindS (io_step stream_flush) (\<lambda>_.
                read_message purpose PhoneResponse (dss_session_id t) (dss_limits t))) (dss_stream t) of
             (s, r) \<Rightarrow> (t\<lparr> dss_stream := s \<rparr>, r))"

definition stream_cancel :: "desktop_stream_session \<Rightarrow> desktop_stream_session" where
  "stream_cancel t = t\<lparr> dss_closed := True \<rparr>"

subsection \<open>The contract of a transport\<close>

text \<open>\<open>DesktopTransport\<close>: an exchange or a cancellation shuts the transport, and a shut transport
  answers nothing and stays as it is.\<close>

datatype transport_use = Exchange session_purpose bytes | CancelTransport

locale desktop_transport =
  fixes exch :: "session_purpose \<Rightarrow> bytes \<Rightarrow> 't \<Rightarrow> 't \<times> (transport_error, bytes) result"
    and canc :: "'t \<Rightarrow> 't"
    and shut :: "'t \<Rightarrow> bool"
  assumes exchange_shuts: "exch p b t = (t', r) \<Longrightarrow> shut t'"
    and shut_refuses: "shut t \<Longrightarrow> exch p b t = (t, Inl TransportClosed)"
    and cancel_shuts: "shut (canc t)"
begin

fun uses :: "transport_use list \<Rightarrow> 't \<Rightarrow> (transport_error, bytes) result list" where
  "uses [] t = []"
| "uses (Exchange p b # us) t = (case exch p b t of (t', r) \<Rightarrow> r # uses us t')"
| "uses (CancelTransport # us) t = uses us (canc t)"

lemma uses_shut: "shut t \<Longrightarrow> r \<in> set (uses us t) \<Longrightarrow> r = Inl TransportClosed"
  by (induction us t rule: uses.induct) (auto simp: shut_refuses cancel_shuts split: prod.splits)

lemma uses_first:
  "uses (Exchange p b # us) t = snd (exch p b t) # uses us (fst (exch p b t)) \<and>
   (\<forall>r \<in> set (uses us (fst (exch p b t))). r = Inl TransportClosed)"
proof (cases "exch p b t")
  case (Pair t' r)
  then have "shut t'" by (rule exchange_shuts)
  with Pair show ?thesis by (auto intro: uses_shut)
qed

lemma uses_cancelled: "r \<in> set (uses (CancelTransport # us) t) \<Longrightarrow> r = Inl TransportClosed"
  using uses_shut [OF cancel_shuts] by (simp del: uses.simps(2))

end

interpretation stream_session: desktop_transport stream_exchange stream_cancel dss_closed
  by unfold_locales (auto simp: stream_exchange_def stream_cancel_def Let_def split: if_splits prod.splits)

subsection \<open>What is read and written\<close>

definition stream_frame :: "session_purpose \<Rightarrow> direction \<Rightarrow> bytes \<Rightarrow> bytes \<Rightarrow> bytes" where
  "stream_frame p d i m = frame_header p d i (length m) @ m"

lemma length_MAGIC [simp]: "length STREAM_MAGIC = 4"
  by (simp add: STREAM_MAGIC_def)

lemma frame_header_parts:
  assumes i: "length i = 16"
  shows "length (frame_header p d i n) = 28" "take 4 (frame_header p d i n) = STREAM_MAGIC"
    "take 2 (drop 4 (frame_header p d i n)) = be_bytes 2 (unat STREAM_VERSION)"
    "frame_header p d i n ! 6 = purpose_byte p" "frame_header p d i n ! 7 = direction_byte d"
    "take 16 (drop 8 (frame_header p d i n)) = i" "drop 24 (frame_header p d i n) = be_bytes 4 n"
proof -
  obtain a b c e where m: "STREAM_MAGIC = [a, b, c, e]" by (simp add: STREAM_MAGIC_def str_bytes_def)
  show "length (frame_header p d i n) = 28" "take 4 (frame_header p d i n) = STREAM_MAGIC"
    "take 2 (drop 4 (frame_header p d i n)) = be_bytes 2 (unat STREAM_VERSION)"
    "frame_header p d i n ! 6 = purpose_byte p" "frame_header p d i n ! 7 = direction_byte d"
    "take 16 (drop 8 (frame_header p d i n)) = i" "drop 24 (frame_header p d i n) = be_bytes 4 n"
    using i by (simp_all add: frame_header_def m numeral_2_eq_2)
qed

lemma header_split:
  assumes h: "length h = 28" "take 4 h = STREAM_MAGIC" "take 2 (drop 4 h) = be_bytes 2 (unat STREAM_VERSION)"
    "h ! 6 = purpose_byte p" "h ! 7 = direction_byte d" "take 16 (drop 8 h) = i"
  shows "h = frame_header p d i (be_value (drop 24 h))"
proof -
  have 1: "drop 4 h = take 2 (drop 4 h) @ drop 6 h" using append_take_drop_id [of 2 "drop 4 h"] by simp
  have 2: "drop 6 h = h ! 6 # h ! 7 # drop 8 h"
    using Cons_nth_drop_Suc [of 6 h] Cons_nth_drop_Suc [of 7 h] h(1) by simp
  have 3: "drop 8 h = take 16 (drop 8 h) @ drop 24 h" using append_take_drop_id [of 16 "drop 8 h"] by simp
  have "h = take 4 h @ take 2 (drop 4 h) @ h ! 6 # h ! 7 # take 16 (drop 8 h) @ drop 24 h"
    by (simp only: 3 [symmetric] 2 [symmetric] 1 [symmetric] append_take_drop_id)
  then have "h = STREAM_MAGIC @ be_bytes 2 (unat STREAM_VERSION) @ [purpose_byte p, direction_byte d] @ i @ drop 24 h"
    using h by simp
  moreover have "be_bytes 4 (be_value (drop 24 h)) = drop 24 h"
    using be_bytes_be_value [of "drop 24 h"] h(1) by simp
  ultimately show ?thesis by (simp add: frame_header_def)
qed

lemma stream_write_all_ok:
  "stream_write_all b s = (t, Inr u) \<Longrightarrow> outbound t = outbound s @ b \<and> inbound t = inbound s"
  by (auto simp: stream_write_all_def next_io_def split: list.splits option.splits prod.splits)

lemma stream_read_exact_ok:
  "stream_read_exact n s = (t, Inr b) \<Longrightarrow> inbound s = b @ inbound t \<and> length b = n \<and> outbound t = outbound s"
  by (auto simp: stream_read_exact_def next_io_def split: list.splits option.splits prod.splits if_splits)

lemma stream_flush_ok: "stream_flush s = (t, Inr u) \<Longrightarrow> outbound t = outbound s \<and> inbound t = inbound s"
  by (auto simp: stream_flush_def next_io_def split: list.splits option.splits prod.splits)

text \<open>Without failures.\<close>

lemma next_io_run: "io_script s = [] \<Longrightarrow> next_io s = (s, None)"
  by (simp add: next_io_def)

lemma write_message_ok:
  assumes "write_message p d i m l s = (t, Inr u)"
  shows "outbound t = outbound s @ stream_frame p d i m \<and> inbound t = inbound s \<and>
    length m \<le> max_message_bytes l \<and> length m < 2 ^ 32"
  using assms
  by (auto simp: write_message_def bindS_Inr_iff mapErrS_Inr_iff failIf_Inr_iff stream_frame_def dest!: stream_write_all_ok)

lemma read_message_ok:
  assumes "read_message p d i l s = (t, Inr m)" and i: "length i = 16"
  shows "inbound s = stream_frame p d i m @ inbound t \<and> outbound t = outbound s \<and>
    length m \<le> max_message_bytes l \<and> length m < 2 ^ 32"
proof -
  from assms(1) obtain h g where h: "stream_read_exact HEADER_LEN s = (g, Inr h)"
    and e: "take 4 h = STREAM_MAGIC" "take 2 (drop 4 h) = be_bytes 2 (unat STREAM_VERSION)"
      "h ! 6 = purpose_byte p" "h ! 7 = direction_byte d" "take 16 (drop 8 h) = i"
    and n: "be_value (drop 24 h) \<le> max_message_bytes l"
    and b: "stream_read_exact (be_value (drop 24 h)) g = (t, Inr m)"
    by (auto simp: read_message_def bindS_Inr_iff mapErrS_Inr_iff failIf_Inr_iff Let_def)
  note s1 = stream_read_exact_ok [OF h] and s2 = stream_read_exact_ok [OF b]
  have l: "length h = 28" using s1 by (simp add: HEADER_LEN_def)
  have "h = frame_header p d i (length m)" using header_split [OF l e] s2 by simp
  moreover have "be_value (drop 24 h) < 2 ^ 32" using be_value_less [of "drop 24 h"] l by simp
  ultimately show ?thesis using s1 s2 n by (simp add: stream_frame_def)
qed

lemma read_message_run:
  assumes f: "io_script s = []" and i: "length i = 16" and s: "inbound s = stream_frame p d i m @ r"
    and m: "length m \<le> max_message_bytes l" "length m < 2 ^ 32"
  shows "read_message p d i l s = (s\<lparr> inbound := r \<rparr>, Inr m)"
proof -
  note h = frame_header_parts [OF i, of p d "length m"]
  have b: "be_value (drop 24 (frame_header p d i (length m))) = length m"
    using m(2) by (simp only: h(7) be_value_be_bytes) simp
  show ?thesis
    using f s m h
    by (simp add: read_message_def bindS_def mapErrS_def stream_read_exact_def next_io_run HEADER_LEN_def stream_frame_def b
        be_value_be_bytes Let_def del: be_bytes.simps)
qed

lemma write_message_run:
  "io_script s = [] \<Longrightarrow> length m \<le> max_message_bytes l \<Longrightarrow> length m < 2 ^ 32 \<Longrightarrow>
    write_message p d i m l s = (s\<lparr> outbound := outbound s @ stream_frame p d i m \<rparr>, Inr ())"
  by (simp add: write_message_def bindS_def mapErrS_def stream_write_all_def next_io_run stream_frame_def)

subsection \<open>An exchange\<close>

lemma stream_exchange_ok:
  assumes "stream_exchange p req t = (t', Inr m)" and i: "length (dss_session_id t) = 16"
  shows "\<not> dss_closed t \<and> outbound (dss_stream t') = outbound (dss_stream t) @ stream_frame p DesktopRequest (dss_session_id t) req \<and>
    inbound (dss_stream t) = stream_frame p PhoneResponse (dss_session_id t) m @ inbound (dss_stream t') \<and>
    length req \<le> max_message_bytes (dss_limits t) \<and> length m \<le> max_message_bytes (dss_limits t)"
proof -
  from assms(1) obtain s1 s2 u v where s: "\<not> dss_closed t"
    "write_message p DesktopRequest (dss_session_id t) req (dss_limits t) (dss_stream t) = (s1, Inr u)"
    "stream_flush s1 = (s2, Inr v)"
    "read_message p PhoneResponse (dss_session_id t) (dss_limits t) s2 = (dss_stream t', Inr m)"
    by (auto simp: stream_exchange_def Let_def bindS_Inr_iff mapErrS_Inr_iff split: if_splits prod.splits)
  show ?thesis
    using s(1) write_message_ok [OF s(2)] stream_flush_ok [OF s(3)] read_message_ok [OF s(4) i] by simp
qed

lemma stream_exchange_run:
  assumes "\<not> dss_closed t" "io_script (dss_stream t) = []" "length (dss_session_id t) = 16"
    and "length req \<le> max_message_bytes (dss_limits t)" "length m \<le> max_message_bytes (dss_limits t)"
    and "max_message_bytes (dss_limits t) < 2 ^ 32"
    and "inbound (dss_stream t) = stream_frame p PhoneResponse (dss_session_id t) m @ r"
  shows "\<exists>t'. stream_exchange p req t = (t', Inr m)"
proof -
  have b: "length req < 2 ^ 32" "length m < 2 ^ 32" using assms(4-6) by linarith+
  let ?s = "(dss_stream t)\<lparr> outbound := outbound (dss_stream t) @ stream_frame p DesktopRequest (dss_session_id t) req \<rparr>"
  have w: "write_message p DesktopRequest (dss_session_id t) req (dss_limits t) (dss_stream t) = (?s, Inr ())"
    by (rule write_message_run [OF assms(2,4) b(1)])
  have "read_message p PhoneResponse (dss_session_id t) (dss_limits t) ?s = (?s\<lparr> inbound := r \<rparr>, Inr m)"
    using assms by (intro read_message_run [OF _ _ _ _ b(2)]) simp_all
  with w assms(1,2) show ?thesis
    by (simp add: stream_exchange_def Let_def bindS_def mapErrS_def stream_flush_def next_io_run)
qed

end
