(* ===== verification/Adb.thy ===== *)
theory Adb
  imports Transport Text_Lines
begin

text \<open>
  The developer USB route of \<open>crates/desktop/src/adb.rs\<close>: the device list, the one reverse rule of a
  session, its creation, use and removal, and the guard that removes it after the parent exits.
  Running \<open>adb\<close>, the guard process and sockets are an environment of steps on a state of its own.
\<close>

subsection \<open>Data\<close>

datatype adb_error =
    AdbUnavailable | NoDevice | DeviceSelectionRequired | DeviceUnavailable | ReverseRuleExists | ReverseRule
  | AppLaunch | AdbConnectionTimeout | InvalidPeer | AdbTransport

record device =
  serial :: string
  device_state :: string

definition ANDROID_LOOPBACK_PORT :: u16 where "ANDROID_LOOPBACK_PORT = 47139"

definition ANDROID_UNWRAP_ACTION :: string where
  "ANDROID_UNWRAP_ACTION = ''io.github.biulight.age_plugin_phone.action.UNWRAP_USB''"

definition ANDROID_MAIN_COMPONENT :: string where
  "ANDROID_MAIN_COMPONENT = ''io.github.biulight.age_plugin_phone/.MainActivity''"

text \<open>The environment: \<open>AdbRunner::run\<close>, spawning the guard (whether there is one), the port of the
  listener, the options of the accepted socket, the signal to the guard and its exit in time.\<close>

record 'r adb_env =
  ae_run :: "string list \<Rightarrow> ('r, unit, string) step"
  ae_arm :: "string \<Rightarrow> ('r, unit, bool) step"
  ae_listen :: "('r, unit, u16) step"
  ae_options :: "('r, unit, unit) step"
  ae_signal :: "('r, unit, unit) step"
  ae_guard_exit :: "('r, unit, unit) step"

record cleanup_guardian =
  cg_input :: bool
  cg_armed :: bool

record adb_session =
  as_serial :: string
  as_reverse_spec :: string
  as_stream :: desktop_stream_session
  as_guard :: "cleanup_guardian option"
  as_rule_active :: bool
  as_closed :: bool

subsection \<open>Commands\<close>

definition tcp_spec :: "u16 \<Rightarrow> string" where
  "tcp_spec port = ''tcp:'' @ decimal (unat port)"

definition REVERSE_SPEC :: string where "REVERSE_SPEC = tcp_spec ANDROID_LOOPBACK_PORT"

definition devices_command :: "string list" where
  "devices_command = [''devices'']"

definition list_command :: "string \<Rightarrow> string list" where
  "list_command s = [''-s'', s, ''reverse'', ''--list'']"

definition create_command :: "string \<Rightarrow> string \<Rightarrow> string \<Rightarrow> string list" where
  "create_command s phone desktop = [''-s'', s, ''reverse'', phone, desktop]"

definition remove_command :: "string \<Rightarrow> string \<Rightarrow> string list" where
  "remove_command s phone = [''-s'', s, ''reverse'', ''--remove'', phone]"

definition launch_command :: "string \<Rightarrow> string list" where
  "launch_command s = [''-s'', s, ''shell'', ''am'', ''start'', ''-W'', ''-a'', ANDROID_UNWRAP_ACTION, ''-n'',
     ANDROID_MAIN_COMPONENT]"

subsection \<open>Devices\<close>

text \<open>\<open>is_ascii_graphic\<close> on every byte, and 1 to 128 of them.\<close>

definition valid_serial :: "string \<Rightarrow> bool" where
  "valid_serial s \<longleftrightarrow> s \<noteq> [] \<and> length s \<le> 128 \<and> graphic s"

definition valid_adb_field :: "string \<Rightarrow> bool" where
  "valid_adb_field s \<longleftrightarrow> s \<noteq> [] \<and> length s \<le> 128 \<and> graphic s"

definition blank :: "string \<Rightarrow> bool" where
  "blank l \<longleftrightarrow> trim l = []"

definition parse_device :: "string \<Rightarrow> (adb_error, device) result" where
  "parse_device line = (case split_whitespace line of
     [s, st] \<Rightarrow> if valid_serial s then Inr \<lparr> serial = s, device_state = st \<rparr> else Inl AdbUnavailable
   | _ \<Rightarrow> Inl AdbUnavailable)"

definition parse_devices :: "string \<Rightarrow> (adb_error, device list) result" where
  "parse_devices output = (case str_lines output of
     [] \<Rightarrow> Inl AdbUnavailable
   | l # ls \<Rightarrow> if trim l \<noteq> ''List of devices attached'' then Inl AdbUnavailable
              else traverseE parse_device (filter (\<lambda>l. \<not> blank l) ls))"

definition list_devices :: "'r adb_env \<Rightarrow> ('r, adb_error, device list) step" where
  "list_devices E =
     bindS (mapErrS (\<lambda>_. AdbUnavailable) (ae_run E devices_command)) (\<lambda>output. liftS (parse_devices output))"

definition choose_device :: "string option \<Rightarrow> device list \<Rightarrow> (adb_error, string) result" where
  "choose_device requested ds = (case requested of
     Some s \<Rightarrow>
       if \<not> valid_serial s then Inl DeviceUnavailable
       else okOr DeviceUnavailable
         (map_option serial (find (\<lambda>d. serial d = s \<and> device_state d = ''device'') ds))
   | None \<Rightarrow> (case ds of
         [] \<Rightarrow> Inl NoDevice
       | [d] \<Rightarrow> if device_state d = ''device'' then Inr (serial d) else Inl DeviceUnavailable
       | _ \<Rightarrow> Inl DeviceSelectionRequired))"

definition select_device :: "'r adb_env \<Rightarrow> string option \<Rightarrow> ('r, adb_error, string) step" where
  "select_device E requested = bindS (list_devices E) (\<lambda>ds. liftS (choose_device requested ds))"

definition ensure_same_online_device :: "'r adb_env \<Rightarrow> string \<Rightarrow> ('r, adb_error, unit) step" where
  "ensure_same_online_device E s =
     bindS (select_device E (Some s)) (\<lambda>selected. failS (selected \<noteq> s) DeviceUnavailable)"

subsection \<open>The reverse rule\<close>

text \<open>The loop over the rules of the device: the first malformed line or the first rule for the port
  ends it.\<close>

fun scan_rules :: "string \<Rightarrow> string list \<Rightarrow> (adb_error, unit) result" where
  "scan_rules spec [] = Inr ()"
| "scan_rules spec (l # ls) = (case split_whitespace l of
     [transport, phone, desktop] \<Rightarrow>
       if \<not> valid_adb_field transport \<or> \<not> valid_adb_field phone \<or> \<not> valid_adb_field desktop then Inl AdbUnavailable
       else if phone = spec then Inl ReverseRuleExists
       else scan_rules spec ls
   | _ \<Rightarrow> Inl AdbUnavailable)"

definition reject_existing_rule :: "'r adb_env \<Rightarrow> string \<Rightarrow> string \<Rightarrow> ('r, adb_error, unit) step" where
  "reject_existing_rule E s spec =
     bindS (mapErrS (\<lambda>_. AdbUnavailable) (ae_run E (list_command s))) (\<lambda>output.
     liftS (scan_rules spec (filter (\<lambda>l. \<not> blank l) (str_lines output))))"

definition preflight_device :: "'r adb_env \<Rightarrow> string option \<Rightarrow> ('r, adb_error, string) step" where
  "preflight_device E requested =
     bindS (select_device E requested) (\<lambda>s. bindS (reject_existing_rule E s REVERSE_SPEC) (\<lambda>_. retS s))"

definition launch_android_unwrap :: "'r adb_env \<Rightarrow> string \<Rightarrow> ('r, adb_error, unit) step" where
  "launch_android_unwrap E s = bindS (mapErrS (\<lambda>_. AppLaunch) (ae_run E (launch_command s))) (\<lambda>_. retS ())"

definition remove_reverse_rule :: "'r adb_env \<Rightarrow> string \<Rightarrow> string \<Rightarrow> ('r, adb_error, unit) step" where
  "remove_reverse_rule E s spec =
     bindS (mapErrS (\<lambda>_. ReverseRule) (ae_run E (remove_command s spec))) (\<lambda>_. retS ())"

text \<open>\<open>disarm\<close>: the pipe is taken and written to once; the guard counts as disarmed then, also when it
  does not exit in time.\<close>

definition guard_disarm :: "'r adb_env \<Rightarrow> (cleanup_guardian \<times> 'r, unit, unit) step" where
  "guard_disarm E = (\<lambda>(g, r).
     if \<not> cg_armed g then ((g, r), Inr ())
     else if \<not> cg_input g then ((g, r), Inl ())
     else case ae_signal E r of
       (r, Inl _) \<Rightarrow> ((g\<lparr> cg_input := False \<rparr>, r), Inl ())
     | (r, Inr _) \<Rightarrow> (case ae_guard_exit E r of (r, x) \<Rightarrow> ((\<lparr> cg_input = False, cg_armed = False \<rparr>, r), x)))"

text \<open>\<open>cleanup_created_rule\<close>: its results are ignored, so is what becomes of the guard, which is
  dropped right after.\<close>

definition cleanup_created_rule :: "'r adb_env \<Rightarrow> string \<Rightarrow> string \<Rightarrow> cleanup_guardian option \<Rightarrow> 'r \<Rightarrow> 'r" where
  "cleanup_created_rule E s spec guard r = (case remove_reverse_rule E s spec r of
     (r, Inl _) \<Rightarrow> r
   | (r, Inr _) \<Rightarrow> (case guard of None \<Rightarrow> r | Some g \<Rightarrow> snd (fst (guard_disarm E (g, r)))))"

subsection \<open>Sessions\<close>

text \<open>\<open>accept_before\<close> over what the polls of the listener return; \<open>None\<close> when they end before the
  connection, a failure or the deadline.\<close>

datatype accept_poll = Accepted stream bool | WouldBlock nat | AcceptFailed

fun accept_before :: "nat \<Rightarrow> accept_poll list \<Rightarrow> (adb_error, stream \<times> bool) result option" where
  "accept_before timeout [] = None"
| "accept_before timeout (p # ps) = (case p of
     Accepted s loopback \<Rightarrow> Some (Inr (s, loopback))
   | WouldBlock elapsed \<Rightarrow> if elapsed \<ge> timeout then Some (Inl AdbConnectionTimeout) else accept_before timeout ps
   | AcceptFailed \<Rightarrow> Some (Inl AdbUnavailable))"

text \<open>An error after the rule was created removes it first.\<close>

definition or_cleanup ::
    "'r adb_env \<Rightarrow> string \<Rightarrow> string \<Rightarrow> cleanup_guardian option \<Rightarrow> adb_error \<Rightarrow> ('r, adb_error, 'a) step" where
  "or_cleanup E s spec guard e r = (cleanup_created_rule E s spec guard r, Inl e)"

text \<open>\<open>connect\<close>: what \<open>accept_before\<close> returns and the drawn session identifier are arguments; the
  boolean says whether the peer is on the loopback interface.  The first definition is what follows
  the arming of the guard.\<close>

definition adb_configure ::
    "'r adb_env \<Rightarrow> string \<Rightarrow> stream \<Rightarrow> transport_limits \<Rightarrow> bytes \<Rightarrow> ('r, adb_error, desktop_stream_session) step" where
  "adb_configure E s peer limits session_id =
     bindS (mapErrS (\<lambda>_. AdbUnavailable) (ae_options E)) (\<lambda>_.
     bindS (ensure_same_online_device E s) (\<lambda>_.
     liftS (mapErr (\<lambda>_. AdbTransport) (stream_session_new peer limits session_id))))"

definition adb_establish ::
    "'r adb_env \<Rightarrow> string \<Rightarrow> cleanup_guardian option \<Rightarrow> u16 \<Rightarrow> session_purpose \<Rightarrow>
     (adb_error, stream \<times> bool) result \<Rightarrow> transport_limits \<Rightarrow> bytes \<Rightarrow> ('r, adb_error, adb_session) step" where
  "adb_establish E s guard port purpose accepted limits session_id =
     bindS (tryS (ae_run E (create_command s REVERSE_SPEC (tcp_spec port)))) (\<lambda>created.
     if \<not> isOk created then or_cleanup E s REVERSE_SPEC guard ReverseRule
     else bindS (if purpose = UnwrapPurpose then tryS (launch_android_unwrap E s) else retS (Inr ())) (\<lambda>launched.
     if \<not> isOk launched then or_cleanup E s REVERSE_SPEC guard AppLaunch
     else case accepted of
       Inl e \<Rightarrow> or_cleanup E s REVERSE_SPEC guard e
     | Inr (peer, loopback) \<Rightarrow>
         if \<not> loopback then or_cleanup E s REVERSE_SPEC guard InvalidPeer
         else bindS (tryS (adb_configure E s peer limits session_id)) (\<lambda>configured.
           case configured of
             Inl e \<Rightarrow> or_cleanup E s REVERSE_SPEC guard e
           | Inr t \<Rightarrow> retS \<lparr> as_serial = s, as_reverse_spec = REVERSE_SPEC, as_stream = t, as_guard = guard,
                             as_rule_active = True, as_closed = False \<rparr>)))"

definition adb_connect ::
    "'r adb_env \<Rightarrow> string option \<Rightarrow> session_purpose \<Rightarrow> (adb_error, stream \<times> bool) result \<Rightarrow> transport_limits \<Rightarrow> bytes \<Rightarrow>
     ('r, adb_error, adb_session) step" where
  "adb_connect E requested purpose accepted limits session_id =
     bindS (select_device E requested) (\<lambda>s.
     bindS (reject_existing_rule E s REVERSE_SPEC) (\<lambda>_.
     bindS (mapErrS (\<lambda>_. AdbUnavailable) (ae_listen E)) (\<lambda>port.
     bindS (mapErrS (\<lambda>_. ReverseRule) (ae_arm E s)) (\<lambda>guarded.
     adb_establish E s (if guarded then Some \<lparr> cg_input = True, cg_armed = True \<rparr> else None) port purpose accepted
       limits session_id))))"

definition remove_rule :: "'r adb_env \<Rightarrow> (adb_session \<times> 'r, adb_error, unit) step" where
  "remove_rule E = (\<lambda>(a, r).
     if \<not> as_rule_active a then ((a, r), Inr ())
     else case remove_reverse_rule E (as_serial a) (as_reverse_spec a) r of
       (r, Inl e) \<Rightarrow> ((a, r), Inl e)
     | (r, Inr _) \<Rightarrow>
         let a = a\<lparr> as_rule_active := False \<rparr>
         in case as_guard a of
              None \<Rightarrow> ((a, r), Inr ())
            | Some g \<Rightarrow> (case guard_disarm E (g, r) of
                ((g, r), x) \<Rightarrow> ((a\<lparr> as_guard := Some g \<rparr>, r), mapErr (\<lambda>_. ReverseRule) x)))"

definition adb_exchange ::
    "'r adb_env \<Rightarrow> session_purpose \<Rightarrow> bytes \<Rightarrow> (adb_session \<times> 'r, transport_error, bytes) step" where
  "adb_exchange E purpose request = (\<lambda>(a, r).
     if as_closed a then ((a, r), Inl TransportClosed)
     else let a = a\<lparr> as_closed := True \<rparr>
       in case stream_exchange purpose request (as_stream a) of
            (t, response) \<Rightarrow>
              (case ensure_same_online_device E (as_serial a) r of
                 (r, unchanged) \<Rightarrow>
                   (case remove_rule E (a\<lparr> as_stream := t \<rparr>, r) of
                      (ar, removed) \<Rightarrow>
                        (ar, if \<not> isOk unchanged \<or> \<not> isOk removed then Inl TransportIo else response))))"

definition adb_cancel :: "'r adb_env \<Rightarrow> adb_session \<times> 'r \<Rightarrow> adb_session \<times> 'r" where
  "adb_cancel E = (\<lambda>(a, r).
     fst (remove_rule E (a\<lparr> as_closed := True, as_stream := stream_cancel (as_stream a) \<rparr>, r)))"

definition adb_drop :: "'r adb_env \<Rightarrow> adb_session \<times> 'r \<Rightarrow> adb_session \<times> 'r" where
  "adb_drop E = (\<lambda>(a, r). fst (remove_rule E (a\<lparr> as_stream := stream_cancel (as_stream a) \<rparr>, r)))"

lemma remove_rule_keeps: "remove_rule E (a, r) = ((a', r'), x) \<Longrightarrow> as_closed a' = as_closed a"
  by (auto simp: remove_rule_def Let_def split: if_splits prod.splits sum.splits option.splits)

definition adb_shut :: "adb_session \<times> 'r \<Rightarrow> bool" where
  "adb_shut = (\<lambda>(a, r). as_closed a)"

lemma adb_exchange_shuts: "adb_exchange E p b t = (t', r) \<Longrightarrow> adb_shut t'"
  by (auto simp: adb_exchange_def adb_shut_def Let_def split: if_splits prod.splits dest!: remove_rule_keeps)

lemma adb_shut_refuses: "adb_shut t \<Longrightarrow> adb_exchange E p b t = (t, Inl TransportClosed)"
  by (auto simp: adb_exchange_def adb_shut_def split: prod.splits)

lemma adb_cancel_shuts: "adb_shut (adb_cancel E t)"
proof (cases t)
  case (Pair a r)
  obtain a' r' x where "remove_rule E (a\<lparr> as_closed := True, as_stream := stream_cancel (as_stream a) \<rparr>, r) = ((a', r'), x)"
    by (metis prod.collapse)
  with remove_rule_keeps [OF this] Pair show ?thesis by (simp add: adb_cancel_def adb_shut_def)
qed

interpretation adb_session: desktop_transport "adb_exchange E" "adb_cancel E" adb_shut for E
  by unfold_locales (erule adb_exchange_shuts adb_shut_refuses | rule adb_cancel_shuts)+

subsection \<open>The guard process\<close>

text \<open>The retries after the parent's exit, over the elapsed times observed after each attempt.\<close>

fun remove_after_parent_exit :: "'r adb_env \<Rightarrow> string \<Rightarrow> nat \<Rightarrow> nat list \<Rightarrow> 'r \<Rightarrow> ('r \<times> (unit, unit) result) option" where
  "remove_after_parent_exit E s timeout [] r = None"
| "remove_after_parent_exit E s timeout (elapsed # es) r = (case remove_reverse_rule E s REVERSE_SPEC r of
     (r, Inr _) \<Rightarrow> Some (r, Inr ())
   | (r, Inl _) \<Rightarrow> if elapsed \<ge> timeout then Some (r, Inl ()) else remove_after_parent_exit E s timeout es r)"

text \<open>What one \<open>read\<close> of the pipe returns is an argument: a byte, or its end or a failure.\<close>

definition cleanup_guard_from_reader ::
    "'r adb_env \<Rightarrow> byte option \<Rightarrow> string \<Rightarrow> nat \<Rightarrow> nat list \<Rightarrow> 'r \<Rightarrow> ('r \<times> (unit, unit) result) option" where
  "cleanup_guard_from_reader E signal s timeout es r =
     (if \<not> valid_serial s then Some (r, Inl ())
      else if signal = Some 68 then Some (r, Inr ())
      else remove_after_parent_exit E s timeout es r)"

subsection \<open>The commands of a session\<close>

text \<open>The same environment, keeping a log of the commands.\<close>

definition unlogged :: "('r, unit, 'a) step \<Rightarrow> ('r \<times> string list list, unit, 'a) step" where
  "unlogged m = (\<lambda>(r, l). case m r of (r, x) \<Rightarrow> ((r, l), x))"

definition logged :: "'r adb_env \<Rightarrow> ('r \<times> string list list) adb_env" where
  "logged E = \<lparr> ae_run = (\<lambda>c (r, l). case ae_run E c r of (r, x) \<Rightarrow> ((r, l @ [c]), x)),
     ae_arm = (\<lambda>s. unlogged (ae_arm E s)), ae_listen = unlogged (ae_listen E), ae_options = unlogged (ae_options E),
     ae_signal = unlogged (ae_signal E), ae_guard_exit = unlogged (ae_guard_exit E) \<rparr>"

lemma unlogged_log: "unlogged m (r, l) = ((r', l'), x) \<Longrightarrow> l' = l"
  by (auto simp: unlogged_def split: prod.splits)

lemma logged_run: "ae_run (logged E) c (r, l) = ((r', l'), x) \<Longrightarrow> l' = l @ [c]"
  by (auto simp: logged_def split: prod.splits)

lemma logged_other:
  "ae_arm (logged E) s (r, l) = ((r', l'), x1) \<Longrightarrow> l' = l"
  "ae_listen (logged E) (r, l) = ((r', l'), x2) \<Longrightarrow> l' = l"
  "ae_options (logged E) (r, l) = ((r', l'), x3) \<Longrightarrow> l' = l"
  "ae_signal (logged E) (r, l) = ((r', l'), x4) \<Longrightarrow> l' = l"
  "ae_guard_exit (logged E) (r, l) = ((r', l'), x5) \<Longrightarrow> l' = l"
  by (simp_all add: logged_def) (erule unlogged_log)+

lemma select_device_log: "select_device (logged E) q (r, l) = ((r', l'), x) \<Longrightarrow> l' = l @ [devices_command]"
  by (auto simp: select_device_def list_devices_def bindS_def mapErrS_def split: prod.splits sum.splits dest!: logged_run)

lemma ensure_same_log: "ensure_same_online_device (logged E) s (r, l) = ((r', l'), x) \<Longrightarrow> l' = l @ [devices_command]"
  by (auto simp: ensure_same_online_device_def bindS_def split: prod.splits sum.splits dest!: select_device_log)

lemma reject_existing_log: "reject_existing_rule (logged E) s spec (r, l) = ((r', l'), x) \<Longrightarrow> l' = l @ [list_command s]"
  by (auto simp: reject_existing_rule_def bindS_def mapErrS_def split: prod.splits sum.splits dest!: logged_run)

lemma launch_log: "launch_android_unwrap (logged E) s (r, l) = ((r', l'), x) \<Longrightarrow> l' = l @ [launch_command s]"
  by (auto simp: launch_android_unwrap_def bindS_def mapErrS_def split: prod.splits sum.splits dest!: logged_run)

lemma remove_reverse_log: "remove_reverse_rule (logged E) s spec (r, l) = ((r', l'), x) \<Longrightarrow> l' = l @ [remove_command s spec]"
  by (auto simp: remove_reverse_rule_def bindS_def mapErrS_def split: prod.splits sum.splits dest!: logged_run)

lemma guard_disarm_log: "guard_disarm (logged E) (g, (r, l)) = ((g', (r', l')), x) \<Longrightarrow> l' = l"
  by (auto simp: guard_disarm_def split: prod.splits sum.splits if_splits dest!: logged_other)

lemma cleanup_log: "cleanup_created_rule (logged E) s spec g (r, l) = (r', l') \<Longrightarrow> l' = l @ [remove_command s spec]"
  by (auto simp: cleanup_created_rule_def split: prod.splits sum.splits option.splits
      dest!: remove_reverse_log)
    (metis guard_disarm_log prod.collapse)

lemma or_cleanup_log:
  "or_cleanup (logged E) s spec g e (r, l) = ((r', l'), x) \<Longrightarrow> l' = l @ [remove_command s spec] \<and> x = Inl e"
  by (auto simp: or_cleanup_def dest!: cleanup_log)

text \<open>What a connection runs: it looks at the devices and the rules, creates the one rule, and ends
  either with the rule in place and the device seen again, or with the removal of the rule.\<close>

definition launch_log_of :: "session_purpose \<Rightarrow> string \<Rightarrow> string list list" where
  "launch_log_of purpose s = (if purpose = UnwrapPurpose then [launch_command s] else [])"

definition established_log ::
    "session_purpose \<Rightarrow> string \<Rightarrow> u16 \<Rightarrow> string list list \<Rightarrow> (adb_error, adb_session) result \<Rightarrow> bool" where
  "established_log purpose s port l res \<longleftrightarrow> (case res of
     Inr a \<Rightarrow> l = [create_command s REVERSE_SPEC (tcp_spec port)] @ launch_log_of purpose s @ [devices_command] \<and>
         as_serial a = s \<and> as_reverse_spec a = REVERSE_SPEC \<and> as_rule_active a \<and> \<not> as_closed a
   | Inl e \<Rightarrow> \<exists>mid. l = [create_command s REVERSE_SPEC (tcp_spec port)] @ mid @ [remove_command s REVERSE_SPEC] \<and>
         set mid \<subseteq> {launch_command s, devices_command})"

lemma adb_configure_log:
  assumes "adb_configure (logged E) s peer limits sid (r, l) = ((r', l'), x)"
  shows "(l' = l \<or> l' = l @ [devices_command]) \<and> (isOk x \<longrightarrow> l' = l @ [devices_command])"
proof -
  obtain r2 l2 o2 where o: "ae_options (logged E) (r, l) = ((r2, l2), o2)" by (metis prod.collapse)
  obtain r3 l3 o3 where e: "ensure_same_online_device (logged E) s (r2, l2) = ((r3, l3), o3)" by (metis prod.collapse)
  show ?thesis
    using assms o e logged_other(3) [OF o] ensure_same_log [OF e]
    by (cases o2; cases o3) (auto simp: adb_configure_def bindS_def mapErrS_def)
qed

lemma launch_step_log:
  "(if purpose = UnwrapPurpose then tryS (launch_android_unwrap (logged E) s) else retS (Inr ())) (r, l) = ((r', l'), x)
    \<Longrightarrow> l' = l @ launch_log_of purpose s \<and> isOk x"
  by (auto simp: tryS_def launch_log_of_def split: if_splits prod.splits dest!: launch_log)

lemma adb_establish_log:
  assumes "adb_establish (logged E) s g port purpose accepted limits sid (r, l0) = ((r', l), res)"
  shows "\<exists>k. l = l0 @ k \<and> established_log purpose s port k res"
proof -
  let ?c = "create_command s REVERSE_SPEC (tcp_spec port)"
  have cleanup: "\<exists>k. l = l0 @ k \<and> established_log purpose s port k res"
    if "or_cleanup (logged E) s REVERSE_SPEC g e (r0, l0 @ ?c # mid) = ((r', l), res)"
      "set mid \<subseteq> {launch_command s, devices_command}" for r0 mid e
    using or_cleanup_log [OF that(1)] that(2) by (auto simp: established_log_def)
  obtain r1 l1 x1 where 1: "ae_run (logged E) ?c (r, l0) = ((r1, l1), x1)" by (metis prod.collapse)
  have l1: "l1 = l0 @ ?c # []" using logged_run [OF 1] by simp
  let ?launch = "(if purpose = UnwrapPurpose then tryS (launch_android_unwrap (logged E) s) else retS (Inr ()))
    :: (_, adb_error, _) step"
  obtain r2 l2 x2 where 2: "?launch (r1, l1) = ((r2, l2), x2)" by (metis prod.collapse)
  have l2: "l2 = l0 @ ?c # launch_log_of purpose s" and ok2: "isOk x2" using launch_step_log [OF 2] l1 by simp_all
  have sub: "set (launch_log_of purpose s) \<subseteq> {launch_command s, devices_command}" by (auto simp: launch_log_of_def)
  show ?thesis
  proof (cases "isOk x1")
    case False
    with assms 1 l1 cleanup [of ReverseRule r1 "[]"] show ?thesis by (simp add: adb_establish_def bindS_tryS)
  next
    case ok1: True
    from ok2 obtain y2 where y2: "x2 = Inr y2" by (auto simp: isOk_iff)
    have run2: "bindS ?launch f (r1, l1) = f y2 (r2, l2)" for f :: "_ \<Rightarrow> (_, adb_error, adb_session) step"
      using 2 y2 by (simp only: bindS_run(1))
    show ?thesis
    proof (cases "isOk y2")
      case False
      with assms 1 2 ok1 y2 l2 cleanup [of AppLaunch r2] sub show ?thesis
        by (simp add: adb_establish_def bindS_tryS run2 split del: if_split)
    next
      case ok: True
      show ?thesis
      proof (cases accepted)
        case (Inl e)
        with assms 1 2 ok1 ok y2 l2 cleanup [of e r2] sub show ?thesis
          by (simp add: adb_establish_def bindS_tryS run2 split del: if_split)
      next
        case (Inr a)
        obtain peer loopback where a: "accepted = Inr (peer, loopback)" using Inr by (cases a) auto
        show ?thesis
        proof (cases loopback)
          case False
          with assms 1 2 ok1 ok y2 l2 a cleanup [of InvalidPeer r2] sub show ?thesis
            by (simp add: adb_establish_def bindS_tryS run2 split del: if_split)
        next
          case True
          obtain r3 l3 z where 3: "adb_configure (logged E) s peer limits sid (r2, l2) = ((r3, l3), z)" by (metis prod.collapse)
          note l3 = adb_configure_log [OF 3]
          show ?thesis
          proof (cases z)
            case (Inl e)
            then obtain mid where m: "l3 = l0 @ ?c # mid" "set mid \<subseteq> {launch_command s, devices_command}"
              using l3 l2 sub by auto
            from assms 1 2 3 ok1 ok y2 a True Inl m cleanup [of e r3 mid] show ?thesis
              by (simp add: adb_establish_def bindS_tryS run2 split del: if_split)
          next
            case (Inr t)
            then have "l3 = l2 @ [devices_command]" using l3 by simp
            moreover from assms 1 2 3 ok1 ok y2 a True Inr
            have "l = l3 \<and> res = Inr \<lparr> as_serial = s, as_reverse_spec = REVERSE_SPEC, as_stream = t, as_guard = g,
                as_rule_active = True, as_closed = False \<rparr>"
              by (simp add: adb_establish_def bindS_tryS run2 split del: if_split)
            ultimately show ?thesis using l2 by (simp add: established_log_def)
          qed
        qed
      qed
    qed
  qed
qed

text \<open>What was seen before the rule is created: the device is online as the requested or the only
  one, and none of its rules is for the port.\<close>

definition checked_device :: "'r adb_env \<Rightarrow> string option \<Rightarrow> string \<Rightarrow> 'r \<Rightarrow> bool" where
  "checked_device E requested s r \<longleftrightarrow> (\<exists>r1 out1 ds r2 out2.
     ae_run E devices_command r = (r1, Inr out1) \<and> parse_devices out1 = Inr ds \<and>
     (\<exists>d \<in> set ds. serial d = s \<and> device_state d = ''device'') \<and>
     (case requested of Some q \<Rightarrow> q = s | None \<Rightarrow> length ds = 1) \<and>
     ae_run E (list_command s) r1 = (r2, Inr out2) \<and>
     (\<forall>rule \<in> set (str_lines out2). blank rule \<or>
        (\<exists>t phone d. split_whitespace rule = [t, phone, d] \<and> phone \<noteq> REVERSE_SPEC)))"

lemma logged_run_iff:
  "ae_run (logged E) c (r, l) = ((r', l'), x) \<longleftrightarrow> ae_run E c r = (r', x) \<and> l' = l @ [c]"
  by (auto simp: logged_def split: prod.splits)

lemma choose_device_Inr:
  "choose_device requested ds = Inr s \<Longrightarrow> (\<exists>d \<in> set ds. serial d = s \<and> device_state d = ''device'') \<and>
     (case requested of Some q \<Rightarrow> q = s | None \<Rightarrow> length ds = 1)"
  by (auto simp: choose_device_def okOr_Inr_iff find_Some_iff split: option.splits if_splits list.splits)

lemma scan_rules_Inr:
  "scan_rules spec ls = Inr () \<Longrightarrow> rule \<in> set ls \<Longrightarrow> \<exists>t phone d. split_whitespace rule = [t, phone, d] \<and> phone \<noteq> spec"
  by (induction spec ls rule: scan_rules.induct) (auto split: list.splits if_splits)

lemma checked_deviceI:
  assumes "select_device (logged E) requested (r, l0) = ((r1, l1), Inr s)"
    and "reject_existing_rule (logged E) s REVERSE_SPEC (r1, l1) = ((r2, l2), Inr ())"
  shows "checked_device E requested s r"
proof -
  from assms(1) obtain out1 ds where 1: "ae_run E devices_command r = (r1, Inr out1)" "parse_devices out1 = Inr ds"
    "choose_device requested ds = Inr s"
    by (auto simp: select_device_def list_devices_def bindS_Inr_iff mapErrS_Inr_iff logged_run_iff)
  from assms(2) obtain out2 where 2: "ae_run E (list_command s) r1 = (r2, Inr out2)"
    "scan_rules REVERSE_SPEC (filter (\<lambda>l. \<not> blank l) (str_lines out2)) = Inr ()"
    by (auto simp: reject_existing_rule_def bindS_Inr_iff mapErrS_Inr_iff logged_run_iff)
  have "\<forall>rule \<in> set (str_lines out2). blank rule \<or>
      (\<exists>t phone d. split_whitespace rule = [t, phone, d] \<and> phone \<noteq> REVERSE_SPEC)"
    using scan_rules_Inr [OF 2(2)] by auto
  with 1 2(1) choose_device_Inr [OF 1(3)] show ?thesis unfolding checked_device_def by blast
qed

lemma adb_connect_log:
  assumes "adb_connect (logged E) q purpose accepted limits sid (r, []) = ((r', l), res)"
  shows "l = [devices_command] \<and> \<not> isOk res \<or> (\<exists>s. l = [devices_command, list_command s] \<and> \<not> isOk res) \<or>
    (\<exists>s port k. l = [devices_command, list_command s] @ k \<and> established_log purpose s port k res \<and>
       checked_device E q s r)"
proof -
  obtain r1 l1 x1 where 1: "select_device (logged E) q (r, []) = ((r1, l1), x1)" by (metis prod.collapse)
  have l1: "l1 = [devices_command]" using select_device_log [OF 1] by simp
  show ?thesis
  proof (cases x1)
    case (Inl e)
    with assms 1 l1 show ?thesis by (auto simp: adb_connect_def bindS_run)
  next
    case s: (Inr s)
    obtain r2 l2 x2 where 2: "reject_existing_rule (logged E) s REVERSE_SPEC (r1, l1) = ((r2, l2), x2)" by (metis prod.collapse)
    have l2: "l2 = [devices_command, list_command s]" using reject_existing_log [OF 2] l1 by simp
    obtain r3 l3 x3 where 3: "ae_listen (logged E) (r2, l2) = ((r3, l3), x3)" by (metis prod.collapse)
    have l3: "l3 = l2" using logged_other(2) [OF 3] .
    obtain r4 l4 x4 where 4: "ae_arm (logged E) s (r3, l3) = ((r4, l4), x4)" by (metis prod.collapse)
    have l4: "l4 = l2" using logged_other(1) [OF 4] l3 by simp
    show ?thesis
    proof (cases "isOk x2 \<and> isOk x3 \<and> isOk x4")
      case False
      with assms 1 2 3 4 s l1 l2 l3 l4 show ?thesis
        by (cases x2; cases x3; cases x4) (auto simp: adb_connect_def bindS_def mapErrS_def)
    next
      case True
      then obtain port guarded where ok: "x2 = Inr ()" "x3 = Inr port" "x4 = Inr guarded" by (auto simp: isOk_iff)
      with assms 1 2 3 4 s have "adb_establish (logged E) s (if guarded then Some \<lparr> cg_input = True, cg_armed = True \<rparr> else None)
          port purpose accepted limits sid (r4, l4) = ((r', l), res)"
        by (simp add: adb_connect_def bindS_def mapErrS_def)
      from adb_establish_log [OF this] l4 l2 checked_deviceI [OF 1 [unfolded s] 2 [unfolded ok]] show ?thesis by blast
    qed
  qed
qed

text \<open>An exchange on an open session, and dropping or cancelling it, asks for the removal of its rule
  once it is active; the answer is passed on only when the device is still the same and the rule is gone.\<close>

lemma remove_rule_log:
  assumes "remove_rule (logged E) (a, (r, l)) = ((a', (r', l')), x)"
  shows "l' = (if as_rule_active a then l @ [remove_command (as_serial a) (as_reverse_spec a)] else l) \<and>
    (isOk x \<longrightarrow> \<not> as_rule_active a') \<and> as_closed a' = as_closed a"
proof (cases "as_rule_active a")
  case True
  obtain r1 l1 y where 1: "remove_reverse_rule (logged E) (as_serial a) (as_reverse_spec a) (r, l) = ((r1, l1), y)"
    by (metis prod.collapse)
  note l1 = remove_reverse_log [OF 1]
  show ?thesis
  proof (cases y)
    case (Inl e)
    with True 1 l1 assms show ?thesis by (auto simp: remove_rule_def)
  next
    case (Inr u)
    show ?thesis
    proof (cases "as_guard a")
      case None
      with True 1 l1 Inr assms show ?thesis by (auto simp: remove_rule_def Let_def)
    next
      case (Some g)
      obtain g' r2 l2 z where 2: "guard_disarm (logged E) (g, (r1, l1)) = ((g', (r2, l2)), z)" by (metis prod.collapse)
      from True 1 2 Inr Some assms l1 guard_disarm_log [OF 2] show ?thesis by (auto simp: remove_rule_def Let_def)
    qed
  qed
qed (use assms in \<open>auto simp: remove_rule_def\<close>)

lemma adb_exchange_log:
  assumes "adb_exchange (logged E) p b (a, (r, l)) = ((a', (r', l')), res)" "\<not> as_closed a"
  shows "l' = l @ [devices_command] @ (if as_rule_active a then [remove_command (as_serial a) (as_reverse_spec a)] else []) \<and>
    (\<forall>m. res = Inr m \<longrightarrow> \<not> as_rule_active a' \<and> snd (stream_exchange p b (as_stream a)) = Inr m)"
proof -
  let ?a = "a\<lparr> as_closed := True \<rparr>"
  obtain t y where t: "stream_exchange p b (as_stream a) = (t, y)" by fastforce
  obtain r1 l1 z where 1: "ensure_same_online_device (logged E) (as_serial a) (r, l) = ((r1, l1), z)" by (metis prod.collapse)
  obtain a2 r2 l2 w where 2: "remove_rule (logged E) (?a\<lparr> as_stream := t \<rparr>, (r1, l1)) = ((a2, (r2, l2)), w)" by (metis prod.collapse)
  have "a' = a2" "l' = l2" "res = (if \<not> isOk z \<or> \<not> isOk w then Inl TransportIo else y)"
    using assms t 1 2 by (simp_all add: adb_exchange_def Let_def)
  with remove_rule_log [OF 2] ensure_same_log [OF 1] t show ?thesis by (auto split: if_splits)
qed

lemma adb_cancel_log:
  assumes "adb_cancel (logged E) (a, (r, l)) = (a', (r', l'))"
  shows "as_closed a' \<and> l' = l @ (if as_rule_active a then [remove_command (as_serial a) (as_reverse_spec a)] else [])"
proof -
  obtain x where "remove_rule (logged E) (a\<lparr> as_closed := True, as_stream := stream_cancel (as_stream a) \<rparr>, (r, l)) =
      ((a', (r', l')), x)"
    using assms by (auto simp: adb_cancel_def) (metis prod.collapse)
  from remove_rule_log [OF this] show ?thesis by simp
qed

lemma adb_drop_log:
  assumes "adb_drop (logged E) (a, (r, l)) = (a', (r', l'))"
  shows "l' = l @ (if as_rule_active a then [remove_command (as_serial a) (as_reverse_spec a)] else [])"
proof -
  obtain x where "remove_rule (logged E) (a\<lparr> as_stream := stream_cancel (as_stream a) \<rparr>, (r, l)) = ((a', (r', l')), x)"
    using assms by (auto simp: adb_drop_def) (metis prod.collapse)
  from remove_rule_log [OF this] show ?thesis by simp
qed

lemma remove_after_exit_log:
  "remove_after_parent_exit (logged E) s timeout es (r, l) = Some ((r', l'), x) \<Longrightarrow>
    \<exists>n. l' = l @ replicate (Suc n) (remove_command s REVERSE_SPEC)"
proof (induction es arbitrary: r l)
  case (Cons e es)
  obtain r1 l1 y where 1: "remove_reverse_rule (logged E) s REVERSE_SPEC (r, l) = ((r1, l1), y)" by (metis prod.collapse)
  note l1 = remove_reverse_log [OF 1]
  show ?case
  proof (cases "isOk y \<or> e \<ge> timeout")
    case True
    with Cons.prems 1 l1 show ?thesis by (intro exI [of _ 0]) (auto simp: isOk_iff split: sum.splits)
  next
    case False
    then obtain u where "y = Inl u" by (cases y) (simp_all add: isOk_iff)
    with Cons.prems 1 False have "remove_after_parent_exit (logged E) s timeout es (r1, l1) = Some ((r', l'), x)" by simp
    from Cons.IH [OF this] l1 show ?thesis by (metis append_assoc append_Cons append_Nil replicate_Suc)
  qed
qed simp

lemma cleanup_guard_log:
  assumes "cleanup_guard_from_reader (logged E) signal s timeout es (r, l) = Some ((r', l'), x)"
  shows "\<exists>n. l' = l @ replicate n (remove_command s REVERSE_SPEC) \<and> (n = 0 \<longleftrightarrow> signal = Some 68 \<or> \<not> valid_serial s)"
proof (cases "signal = Some 68 \<or> \<not> valid_serial s")
  case True
  with assms show ?thesis by (intro exI [of _ 0]) (auto simp: cleanup_guard_from_reader_def split: if_splits)
next
  case False
  with assms have "remove_after_parent_exit (logged E) s timeout es (r, l) = Some ((r', l'), x)"
    by (simp add: cleanup_guard_from_reader_def)
  from remove_after_exit_log [OF this] False show ?thesis by blast
qed

end
