(* ===== verification/Wifi.thy ===== *)
theory Wifi
  imports Transport Protocol_Base
begin

text \<open>
  The Wi-Fi route of \<open>crates/desktop/src/wifi.rs\<close>: which endpoints may be used, the discovery
  datagrams with their signature, the discovery loop and the session on a connected stream.
  Sockets are parameters: what a call on one returns is an argument of the function that makes it.
\<close>

unbundle bit_operations_syntax

subsection \<open>Addresses\<close>

text \<open>\<open>SocketAddr\<close>: an IPv4 address with a port, or an IPv6 address.\<close>

datatype socket_addr = SocketV4 u32 u16 | SocketV6 "128 word" u16

definition octet :: "nat \<Rightarrow> u32 \<Rightarrow> nat" where
  "octet i a = unat a div 256 ^ (3 - i) mod 256"

text \<open>The predicates of \<open>Ipv4Addr\<close>.\<close>

definition is_private :: "u32 \<Rightarrow> bool" where
  "is_private a \<longleftrightarrow> octet 0 a = 10 \<or> octet 0 a = 172 \<and> 16 \<le> octet 1 a \<and> octet 1 a \<le> 31 \<or>
     octet 0 a = 192 \<and> octet 1 a = 168"

definition is_link_local :: "u32 \<Rightarrow> bool" where
  "is_link_local a \<longleftrightarrow> octet 0 a = 169 \<and> octet 1 a = 254"

definition is_loopback4 :: "u32 \<Rightarrow> bool" where
  "is_loopback4 a \<longleftrightarrow> octet 0 a = 127"

definition is_multicast :: "u32 \<Rightarrow> bool" where
  "is_multicast a \<longleftrightarrow> 224 \<le> octet 0 a \<and> octet 0 a \<le> 239"

definition IPV4_BROADCAST :: u32 where "IPV4_BROADCAST = -1"

definition WIFI_UNWRAP_PORT :: u16 where "WIFI_UNWRAP_PORT = 47140"

definition WIFI_DISCOVERY_PORT :: u16 where "WIFI_DISCOVERY_PORT = 47141"

datatype wifi_error =
    InvalidEndpoint | WifiUnavailable | WifiConnectionTimeout | WifiTransport
  | DiscoveryUnavailable | DiscoveryAmbiguous | DiscoveryFailed

definition private_route :: "u32 \<Rightarrow> bool" where
  "private_route a \<longleftrightarrow> (is_private a \<or> is_link_local a) \<and> a \<noteq> 0 \<and> \<not> is_loopback4 a \<and> \<not> is_multicast a \<and>
     a \<noteq> IPV4_BROADCAST"

definition validate_endpoint :: "socket_addr \<Rightarrow> (wifi_error, unit) result" where
  "validate_endpoint endpoint = (case endpoint of
     SocketV4 a port \<Rightarrow> if port \<noteq> WIFI_UNWRAP_PORT \<or> \<not> private_route a then Inl InvalidEndpoint else Inr ()
   | SocketV6 _ _ \<Rightarrow> Inl InvalidEndpoint)"

text \<open>\<open>directed_broadcast\<close>: the broadcast address of a subnet whose mask is a prefix of at most 30 bits.\<close>

definition count_ones :: "u32 \<Rightarrow> nat" where
  "count_ones a = length (filter (\<lambda>i. bit a i) [0 ..< 32])"

definition directed_broadcast :: "u32 \<Rightarrow> u32 \<Rightarrow> u32 option" where
  "directed_broadcast a netmask =
     (if \<not> private_route a then None
      else if netmask = 0 \<or> count_ones netmask \<ge> 31 then None
      else if NOT netmask = -1 then None
      else if count_ones (NOT netmask + 1) \<noteq> 1 then None
      else let broadcast = a OR NOT netmask
        in if broadcast \<noteq> a \<and> broadcast \<noteq> IPV4_BROADCAST then Some broadcast else None)"

subsection \<open>Discovery datagrams\<close>

definition DISCOVERY_MAGIC :: bytes where "DISCOVERY_MAGIC = str_bytes ''APWD''"

definition DISCOVERY_VERSION :: u16 where "DISCOVERY_VERSION = 1"

definition DISCOVERY_QUERY :: byte where "DISCOVERY_QUERY = 1"

definition DISCOVERY_RESPONSE :: byte where "DISCOVERY_RESPONSE = 2"

definition DISCOVERY_QUERY_BYTES :: nat where [simp]: "DISCOVERY_QUERY_BYTES = 72"

definition DISCOVERY_SIGNATURE_BYTES :: nat where [simp]: "DISCOVERY_SIGNATURE_BYTES = 64"

definition DISCOVERY_RESPONSE_BYTES :: nat where
  [simp]: "DISCOVERY_RESPONSE_BYTES = DISCOVERY_QUERY_BYTES + DISCOVERY_SIGNATURE_BYTES"

definition DISCOVERY_SIGNATURE_DOMAIN :: bytes where
  "DISCOVERY_SIGNATURE_DOMAIN = str_bytes ''age-plugin-phone/wifi-discovery-response/v1''"

datatype discovery_purpose = DiscoverPairing | DiscoverUnwrap

definition discovery_code :: "discovery_purpose \<Rightarrow> byte" where
  "discovery_code p = (case p of DiscoverPairing \<Rightarrow> 1 | DiscoverUnwrap \<Rightarrow> 2)"

record discovery_query =
  dq_purpose :: discovery_purpose
  dq_nonce :: bytes
  dq_desktop_id :: bytes
  dq_identity_id :: bytes

definition encode_discovery :: "discovery_query \<Rightarrow> byte \<Rightarrow> bytes" where
  "encode_discovery q kind =
     DISCOVERY_MAGIC @ be_bytes 2 (unat DISCOVERY_VERSION) @ [kind, discovery_code (dq_purpose q)] @
     dq_nonce q @ dq_desktop_id q @ dq_identity_id q"

definition valid_discovery_response ::
    "('pk, 'sg, 'sk) lib \<Rightarrow> bytes \<Rightarrow> discovery_query \<Rightarrow> 'pk option \<Rightarrow> bool" where
  "valid_discovery_response L encoded q verifying_key =
     (let expected = encode_discovery q DISCOVERY_RESPONSE
      in case (dq_purpose q, verifying_key) of
           (DiscoverPairing, None) \<Rightarrow> encoded = expected
         | (DiscoverUnwrap, Some key) \<Rightarrow>
             if length encoded \<noteq> DISCOVERY_RESPONSE_BYTES \<or> take DISCOVERY_QUERY_BYTES encoded \<noteq> expected then False
             else (case sig_from_slice (ec L) (drop DISCOVERY_QUERY_BYTES encoded) of
                 None \<Rightarrow> False
               | Some signature \<Rightarrow>
                   if sig_normalize_s (ec L) signature \<noteq> None then False
                   else ecdsa_verify (ec L) key (DISCOVERY_SIGNATURE_DOMAIN @ [0] @ expected) signature)
         | _ \<Rightarrow> False)"

subsection \<open>The discovery loop\<close>

definition record_discovery_candidate ::
    "socket_addr set \<Rightarrow> socket_addr \<Rightarrow> socket_addr set \<times> (wifi_error, unit) result" where
  "record_discovery_candidate candidates endpoint =
     (let c = insert endpoint candidates in (c, if card c > 1 then Inl DiscoveryAmbiguous else Inr ()))"

text \<open>\<open>send_discovery_queries\<close>: each target gets the whole datagram or discovery fails.  What the
  socket returns for a target is the argument \<open>sent\<close>: the number of bytes, or nothing on an error.\<close>

definition send_discovery_queries ::
    "socket_addr list \<Rightarrow> bytes \<Rightarrow> (socket_addr \<Rightarrow> nat option) \<Rightarrow> (wifi_error, unit) result" where
  "send_discovery_queries targets encoded sent =
     (if targets = [] then Inl DiscoveryFailed
      else if \<exists>t \<in> set targets. sent t \<noteq> Some (length encoded) then Inl DiscoveryFailed else Inr ())"

definition discovery_targets :: "socket_addr list" where
  "discovery_targets = [SocketV4 IPV4_BROADCAST WIFI_DISCOVERY_PORT]"

text \<open>What one pass of the loop observes: the clock, whether the send (when one is due) succeeds, and
  what the receive returns: a datagram, nothing yet, or a failure of the socket.\<close>

datatype reception = Datagram bytes socket_addr | NothingYet | SocketFailure

record pass =
  pass_now :: nat
  pass_send :: "(wifi_error, unit) result"
  pass_receive :: reception

definition RETRY_INTERVAL_MS :: nat where "RETRY_INTERVAL_MS = 200"

text \<open>The body of a pass after its clock was found before the deadline.\<close>

definition receive_candidate ::
    "('pk, 'sg, 'sk) lib \<Rightarrow> discovery_query \<Rightarrow> 'pk option \<Rightarrow> reception \<Rightarrow> socket_addr set \<Rightarrow>
     socket_addr set \<times> (wifi_error, unit) result" where
  "receive_candidate L q key r candidates = (case r of
     Datagram b source \<Rightarrow> (case source of
         SocketV6 _ _ \<Rightarrow> (candidates, Inr ())
       | SocketV4 a _ \<Rightarrow>
           let endpoint = SocketV4 a WIFI_UNWRAP_PORT
           in if \<not> isOk (validate_endpoint endpoint) \<or>
                 \<not> valid_discovery_response L (take (DISCOVERY_RESPONSE_BYTES + 1) b) q key
              then (candidates, Inr ())
              else record_discovery_candidate candidates endpoint)
   | NothingYet \<Rightarrow> (candidates, Inr ())
   | SocketFailure \<Rightarrow> (candidates, Inl DiscoveryFailed))"

definition discovery_result :: "socket_addr set \<Rightarrow> (wifi_error, socket_addr) result" where
  "discovery_result candidates =
     (if candidates = {} then Inl DiscoveryUnavailable
      else if card candidates = 1 then Inr (the_elem candidates) else Inl DiscoveryAmbiguous)"

text \<open>The loop over the passes; \<open>None\<close> when they end before the deadline is observed.\<close>

fun discovery_loop ::
    "('pk, 'sg, 'sk) lib \<Rightarrow> discovery_query \<Rightarrow> 'pk option \<Rightarrow> nat \<Rightarrow> pass list \<Rightarrow> nat \<Rightarrow> socket_addr set \<Rightarrow>
     (wifi_error, socket_addr) result option" where
  "discovery_loop L q key deadline [] next_send candidates = None"
| "discovery_loop L q key deadline (p # ps) next_send candidates =
     (if pass_now p \<ge> deadline then Some (discovery_result candidates)
      else let due = pass_now p \<ge> next_send
        in case (if due then pass_send p else Inr ()) of
             Inl e \<Rightarrow> Some (Inl e)
           | Inr _ \<Rightarrow>
               (case receive_candidate L q key (pass_receive p) candidates of
                  (_, Inl e) \<Rightarrow> Some (Inl e)
                | (c, Inr _) \<Rightarrow>
                    discovery_loop L q key deadline ps (if due then pass_now p + RETRY_INTERVAL_MS else next_send) c))"

definition discover_with_io ::
    "('pk, 'sg, 'sk) lib \<Rightarrow> discovery_query \<Rightarrow> 'pk option \<Rightarrow> nat \<Rightarrow> nat \<Rightarrow> nat \<Rightarrow> pass list \<Rightarrow>
     (wifi_error, socket_addr) result option" where
  "discover_with_io L q key start timeout next_send ps = discovery_loop L q key (start + timeout) ps next_send {}"

text \<open>The two entry points: they draw the nonce, and only the unwrap one has a key.\<close>

definition unwrap_query :: "bytes \<Rightarrow> bytes \<Rightarrow> bytes \<Rightarrow> discovery_query" where
  "unwrap_query desktop_id identity_id nonce = \<lparr> dq_purpose = DiscoverUnwrap, dq_nonce = nonce,
     dq_desktop_id = desktop_id, dq_identity_id = identity_id \<rparr>"

definition pairing_query :: "bytes \<Rightarrow> bytes \<Rightarrow> discovery_query" where
  "pairing_query desktop_id nonce = \<lparr> dq_purpose = DiscoverPairing, dq_nonce = nonce,
     dq_desktop_id = desktop_id, dq_identity_id = replicate 16 0 \<rparr>"

definition discover_unwrap_endpoint ::
    "('pk, 'sg, 'sk) lib \<Rightarrow> bytes \<Rightarrow> bytes \<Rightarrow> bytes \<Rightarrow> bytes \<Rightarrow> nat \<Rightarrow> nat \<Rightarrow> nat \<Rightarrow> pass list \<Rightarrow>
     (wifi_error, socket_addr) result option" where
  "discover_unwrap_endpoint L desktop_id identity_id phone_key nonce start timeout next_send ps =
     (case vk_from_sec1 (ec L) phone_key of
        None \<Rightarrow> Some (Inl DiscoveryFailed)
      | Some key \<Rightarrow>
          discover_with_io L (unwrap_query desktop_id identity_id nonce) (Some key) start timeout next_send ps)"

definition discover_pairing_endpoint ::
    "('pk, 'sg, 'sk) lib \<Rightarrow> bytes \<Rightarrow> bytes \<Rightarrow> nat \<Rightarrow> nat \<Rightarrow> nat \<Rightarrow> pass list \<Rightarrow> (wifi_error, socket_addr) result option" where
  "discover_pairing_endpoint L desktop_id nonce start timeout next_send ps =
     discover_with_io L (pairing_query desktop_id nonce) None start timeout next_send ps"

subsection \<open>The session\<close>

record wifi_session =
  ws_stream :: desktop_stream_session
  ws_closed :: bool

text \<open>What \<open>TcpStream::connect_timeout\<close> and the socket options return are arguments.\<close>

datatype tcp_connect = Connected stream | ConnectTimedOut | ConnectFailed

definition wifi_from_connected_stream ::
    "stream \<Rightarrow> bool \<Rightarrow> transport_limits \<Rightarrow> bytes \<Rightarrow> (wifi_error, wifi_session) result" where
  "wifi_from_connected_stream s options_ok limits session_id =
     bindE (failIf (\<not> options_ok) WifiUnavailable) (\<lambda>_.
     bindE (mapErr (\<lambda>_. WifiTransport) (stream_session_new s limits session_id)) (\<lambda>t.
     Inr \<lparr> ws_stream = t, ws_closed = False \<rparr>))"

definition wifi_connect ::
    "socket_addr \<Rightarrow> (socket_addr \<Rightarrow> tcp_connect) \<Rightarrow> bool \<Rightarrow> transport_limits \<Rightarrow> bytes \<Rightarrow> (wifi_error, wifi_session) result" where
  "wifi_connect endpoint tcp options_ok limits session_id =
     bindE (validate_endpoint endpoint) (\<lambda>_.
     case tcp endpoint of
       ConnectTimedOut \<Rightarrow> Inl WifiConnectionTimeout
     | ConnectFailed \<Rightarrow> Inl WifiUnavailable
     | Connected s \<Rightarrow> wifi_from_connected_stream s options_ok limits session_id)"

definition wifi_exchange :: "session_purpose \<Rightarrow> bytes \<Rightarrow> (wifi_session, transport_error, bytes) step" where
  "wifi_exchange purpose request w =
     (if ws_closed w then (w, Inl TransportClosed)
      else let w = w\<lparr> ws_closed := True \<rparr>
        in case stream_exchange purpose request (ws_stream w) of (t, r) \<Rightarrow> (w\<lparr> ws_stream := t \<rparr>, r))"

definition wifi_cancel :: "wifi_session \<Rightarrow> wifi_session" where
  "wifi_cancel w = w\<lparr> ws_closed := True, ws_stream := stream_cancel (ws_stream w) \<rparr>"

definition wifi_drop :: "wifi_session \<Rightarrow> wifi_session" where
  "wifi_drop w = wifi_cancel w"

interpretation wifi_session: desktop_transport wifi_exchange wifi_cancel ws_closed
  by unfold_locales (auto simp: wifi_exchange_def wifi_cancel_def Let_def split: if_splits prod.splits)

subsection \<open>What discovery hears\<close>

text \<open>The endpoint a reception stands for, when its datagram is valid.\<close>

definition heard_endpoint ::
    "('pk, 'sg, 'sk) lib \<Rightarrow> discovery_query \<Rightarrow> 'pk option \<Rightarrow> reception \<Rightarrow> socket_addr option" where
  "heard_endpoint L q key r = (case r of
     Datagram b (SocketV4 a _) \<Rightarrow>
       if isOk (validate_endpoint (SocketV4 a WIFI_UNWRAP_PORT)) \<and>
          valid_discovery_response L (take (DISCOVERY_RESPONSE_BYTES + 1) b) q key
       then Some (SocketV4 a WIFI_UNWRAP_PORT) else None
   | _ \<Rightarrow> None)"

definition heard :: "('pk, 'sg, 'sk) lib \<Rightarrow> discovery_query \<Rightarrow> 'pk option \<Rightarrow> pass list \<Rightarrow> socket_addr set" where
  "heard L q key ps = {e. \<exists>p \<in> set ps. heard_endpoint L q key (pass_receive p) = Some e}"

lemma heard_Nil [simp]: "heard L q key [] = {}"
  by (simp add: heard_def)

lemma heard_Cons:
  "heard L q key (p # ps) = set_option (heard_endpoint L q key (pass_receive p)) \<union> heard L q key ps"
  by (auto simp: heard_def)

lemma finite_heard: "finite (heard L q key ps)"
  by (induction ps) (simp_all add: heard_Cons)

lemma receive_candidate_heard:
  "receive_candidate L q key r c = (if r = SocketFailure then (c, Inl DiscoveryFailed) else
     case heard_endpoint L q key r of None \<Rightarrow> (c, Inr ()) | Some e \<Rightarrow> record_discovery_candidate c e)"
  by (cases r) (auto simp: receive_candidate_def heard_endpoint_def Let_def split: socket_addr.splits)

lemma heard_endpoint_iff:
  "heard_endpoint L q key r = Some e \<longleftrightarrow>
    (\<exists>b a port. r = Datagram b (SocketV4 a port) \<and> e = SocketV4 a WIFI_UNWRAP_PORT \<and> validate_endpoint e = Inr () \<and>
       valid_discovery_response L (take (DISCOVERY_RESPONSE_BYTES + 1) b) q key)"
proof (cases r)
  case (Datagram b x)
  then show ?thesis by (cases x) (auto simp: heard_endpoint_def isOk_iff)
qed (simp_all add: heard_endpoint_def)

lemma heard_valid: "e \<in> heard L q key ps \<Longrightarrow> validate_endpoint e = Inr ()"
  by (auto simp: heard_def heard_endpoint_iff)

lemma record_one:
  "record_discovery_candidate c e = (c', Inr u) \<Longrightarrow> c' = insert e c \<and> card c' \<le> 1"
  by (auto simp: record_discovery_candidate_def Let_def split: if_splits)

text \<open>What comes out when nothing fails: the one endpoint heard before the deadline.\<close>

lemma discovery_loop_run:
  assumes "\<forall>x \<in> set pre. pass_now x < deadline \<and> pass_send x = Inr () \<and> pass_receive x \<noteq> SocketFailure"
    and "deadline \<le> pass_now p" "finite c" "card c \<le> 1"
  shows "discovery_loop L q key deadline (pre @ p # post) ns c = Some (discovery_result (c \<union> heard L q key pre))"
  using assms(1,3,4)
proof (induction pre arbitrary: c ns)
  case Nil
  then show ?case using assms(2) by simp
next
  case (Cons x pre)
  show ?case
  proof (cases "heard_endpoint L q key (pass_receive x)")
    case None
    with Cons show ?thesis by (simp add: receive_candidate_heard heard_Cons Let_def)
  next
    case (Some e)
    show ?thesis
    proof (cases "card (insert e c) > 1")
      case True
      have f: "finite (c \<union> heard L q key (x # pre))" using Cons.prems(2) finite_heard by blast
      have "insert e c \<subseteq> c \<union> heard L q key (x # pre)" using Some by (auto simp: heard_Cons)
      with card_mono [OF f this] True have "card (c \<union> heard L q key (x # pre)) > 1" by linarith
      then have "discovery_result (c \<union> heard L q key (x # pre)) = Inl DiscoveryAmbiguous"
        by (auto simp: discovery_result_def)
      with True Some Cons.prems(1) show ?thesis
        by (simp add: receive_candidate_heard record_discovery_candidate_def Let_def)
    next
      case False
      with Cons Some show ?thesis
        by (simp add: receive_candidate_heard record_discovery_candidate_def heard_Cons Let_def insert_commute)
    qed
  qed
qed

text \<open>Whatever fails, an endpoint comes out only as the one endpoint heard before the deadline.\<close>

lemma discovery_loop_found:
  assumes "discovery_loop L q key deadline ps ns c = Some (Inr e)" "finite c" "card c \<le> 1"
  shows "\<exists>pre p post. ps = pre @ p # post \<and> deadline \<le> pass_now p \<and> (\<forall>x \<in> set pre. pass_now x < deadline) \<and>
    c \<union> heard L q key pre = {e}"
  using assms
proof (induction ps arbitrary: c ns)
  case (Cons x ps)
  show ?case
  proof (cases "deadline \<le> pass_now x")
    case True
    with Cons.prems have "c = {e}"
      by (auto simp: discovery_result_def card_1_singleton_iff split: if_splits)
    with True show ?thesis by (intro exI [of _ "[]"] exI [of _ x] exI [of _ ps]) simp
  next
    case False
    from Cons.prems(1) False obtain c' ns' u where r: "receive_candidate L q key (pass_receive x) c = (c', Inr u)"
      and l: "discovery_loop L q key deadline ps ns' c' = Some (Inr e)"
      by (auto simp: Let_def split: sum.splits prod.splits if_splits)
    have c': "c' = set_option (heard_endpoint L q key (pass_receive x)) \<union> c \<and> finite c' \<and> card c' \<le> 1"
      using r Cons.prems(2,3) unfolding receive_candidate_heard
      by (auto split: if_splits option.splits dest: record_one)
    obtain pre p post where "ps = pre @ p # post" "deadline \<le> pass_now p" "\<forall>x \<in> set pre. pass_now x < deadline"
      "c' \<union> heard L q key pre = {e}"
      using Cons.IH [OF l] c' by blast
    with False c' show ?thesis
      by (intro exI [of _ "x # pre"] exI [of _ p] exI [of _ post]) (auto simp: heard_Cons)
  qed
qed simp

text \<open>What an accepted datagram is.\<close>

lemma length_encode_discovery:
  "length (dq_nonce q) = 32 \<Longrightarrow> length (dq_desktop_id q) = 16 \<Longrightarrow> length (dq_identity_id q) = 16 \<Longrightarrow>
    length (encode_discovery q k) = 72"
  by (simp add: encode_discovery_def DISCOVERY_MAGIC_def)

lemma valid_discovery_iff:
  assumes "length (encode_discovery q DISCOVERY_RESPONSE) = 72"
  shows "valid_discovery_response L b q key \<longleftrightarrow>
    (dq_purpose q = DiscoverPairing \<and> key = None \<and> b = encode_discovery q DISCOVERY_RESPONSE) \<or>
    (dq_purpose q = DiscoverUnwrap \<and> (\<exists>k sb sg. key = Some k \<and> b = encode_discovery q DISCOVERY_RESPONSE @ sb \<and>
       length sb = 64 \<and> sig_from_slice (ec L) sb = Some sg \<and> sig_normalize_s (ec L) sg = None \<and>
       ecdsa_verify (ec L) k (DISCOVERY_SIGNATURE_DOMAIN @ [0] @ encode_discovery q DISCOVERY_RESPONSE) sg))"
proof -
  have s: "length b = 136 \<and> take 72 b = e \<longleftrightarrow> (\<exists>sb. b = e @ sb \<and> length sb = 64)" if "length e = 72" for e :: bytes
  proof
    assume "length b = 136 \<and> take 72 b = e"
    then show "\<exists>sb. b = e @ sb \<and> length sb = 64" by (intro exI [of _ "drop 72 b"]) auto
  qed (use that in auto)
  show ?thesis
    using s [OF assms] assms
    by (cases "dq_purpose q"; cases key)
      (auto simp: valid_discovery_response_def Let_def split: option.splits)
qed

end
