(* ===== verification/Transport_Policy.thy ===== *)
theory Transport_Policy
  imports Adb Wifi
begin

text \<open>
  The choice of a transport in \<open>crates/desktop/src/transport_policy.rs\<close>: texts of a choice, the
  table of capabilities, and the resolution of a choice and its route hints into one route.
\<close>

subsection \<open>Data\<close>

datatype transport_choice = AutoChoice | AdbChoice | BleChoice | WifiChoice | QrChoice

datatype transport_kind = AdbKind | BleKind | WifiKind | QrKind

datatype transport_operation = PairingOperation | UnwrapOperation

record transport_capability =
  tc_kind :: transport_kind
  tc_pairing :: bool
  tc_unwrap :: bool
  tc_implemented :: bool

record transport_hints =
  hint_adb_serial :: "string option"
  hint_wifi_address :: "socket_addr option"

record transport_route =
  route_kind :: transport_kind
  route_adb_serial :: "string option"
  route_wifi_address :: "socket_addr option"

datatype policy_error =
  ConflictingHints | InconsistentHints | InvalidRouteHint | MissingWifiEndpoint | UnsupportedOperation | TransportUnavailable

subsection \<open>Texts\<close>

definition choice_display :: "transport_choice \<Rightarrow> string" where
  "choice_display c = (case c of
     AutoChoice \<Rightarrow> ''auto'' | AdbChoice \<Rightarrow> ''adb'' | BleChoice \<Rightarrow> ''ble'' | WifiChoice \<Rightarrow> ''wifi'' | QrChoice \<Rightarrow> ''qr'')"

definition choice_from_str :: "string \<Rightarrow> transport_choice option" where
  "choice_from_str s =
     (if s = ''auto'' then Some AutoChoice else if s = ''adb'' then Some AdbChoice
      else if s = ''ble'' then Some BleChoice else if s = ''wifi'' then Some WifiChoice
      else if s = ''qr'' then Some QrChoice else None)"

lemma choice_from_str_iff: "choice_from_str s = Some c \<longleftrightarrow> s = choice_display c"
  by (cases c) (auto simp: choice_from_str_def choice_display_def)

lemma choice_display_text: "utf8_valid (choice_display c)" "length (choice_display c) \<le> 4"
  by (cases c; simp add: choice_display_def ascii_utf8_valid is_ascii_def)+

subsection \<open>Resolution\<close>

definition TRANSPORT_CAPABILITIES :: "transport_capability list" where
  "TRANSPORT_CAPABILITIES = [
     \<lparr> tc_kind = AdbKind, tc_pairing = True, tc_unwrap = True, tc_implemented = True \<rparr>,
     \<lparr> tc_kind = BleKind, tc_pairing = False, tc_unwrap = False, tc_implemented = False \<rparr>,
     \<lparr> tc_kind = WifiKind, tc_pairing = True, tc_unwrap = True, tc_implemented = True \<rparr>,
     \<lparr> tc_kind = QrKind, tc_pairing = True, tc_unwrap = True, tc_implemented = True \<rparr>]"

definition choose_kind :: "transport_choice \<Rightarrow> transport_hints \<Rightarrow> bool \<Rightarrow> transport_kind" where
  "choose_kind choice hints windows = (case choice of
     AutoChoice \<Rightarrow>
       if hint_adb_serial hints \<noteq> None then AdbKind
       else if hint_wifi_address hints \<noteq> None then WifiKind
       else if windows then AdbKind else QrKind
   | AdbChoice \<Rightarrow> AdbKind | BleChoice \<Rightarrow> BleKind | WifiChoice \<Rightarrow> WifiKind | QrChoice \<Rightarrow> QrKind)"

text \<open>The match on the kind, its guards in order.\<close>

definition check_hints :: "transport_kind \<Rightarrow> transport_hints \<Rightarrow> (policy_error, unit) result" where
  "check_hints kind hints =
     (let adb = hint_adb_serial hints \<noteq> None; wifi = hint_wifi_address hints \<noteq> None
      in if kind = AdbKind \<and> wifi then Inl InconsistentHints
         else if kind = WifiKind \<and> adb then Inl InconsistentHints
         else if kind = WifiKind \<and> \<not> wifi then Inl MissingWifiEndpoint
         else if (kind = BleKind \<or> kind = QrKind) \<and> (adb \<or> wifi) then Inl InconsistentHints
         else Inr ())"

definition resolve_transport_for_platform ::
    "transport_choice \<Rightarrow> transport_operation \<Rightarrow> transport_hints \<Rightarrow> bool \<Rightarrow> (policy_error, transport_route) result" where
  "resolve_transport_for_platform choice operation hints windows =
     bindE (failIf (hint_adb_serial hints \<noteq> None \<and> hint_wifi_address hints \<noteq> None) ConflictingHints) (\<lambda>_.
     let kind = choose_kind choice hints windows
     in bindE (okOr TransportUnavailable (find (\<lambda>c. tc_kind c = kind) TRANSPORT_CAPABILITIES)) (\<lambda>capability.
        bindE (failIf (\<not> tc_implemented capability) TransportUnavailable) (\<lambda>_.
        bindE (failIf (\<not> (case operation of PairingOperation \<Rightarrow> tc_pairing capability | UnwrapOperation \<Rightarrow> tc_unwrap capability))
          UnsupportedOperation) (\<lambda>_.
        bindE (check_hints kind hints) (\<lambda>_.
        bindE (failIf (case hint_adb_serial hints of Some s \<Rightarrow> \<not> valid_serial s | None \<Rightarrow> False) InvalidRouteHint) (\<lambda>_.
        bindE (failIf (case hint_wifi_address hints of Some e \<Rightarrow> \<not> isOk (validate_endpoint e) | None \<Rightarrow> False) InvalidRouteHint) (\<lambda>_.
        Inr \<lparr> route_kind = kind, route_adb_serial = hint_adb_serial hints,
              route_wifi_address = hint_wifi_address hints \<rparr>)))))))"

text \<open>\<open>cfg!(windows)\<close> is an argument.\<close>

definition resolve_transport ::
    "bool \<Rightarrow> transport_choice \<Rightarrow> transport_operation \<Rightarrow> transport_hints \<Rightarrow> (policy_error, transport_route) result" where
  "resolve_transport windows choice operation hints = resolve_transport_for_platform choice operation hints windows"

subsection \<open>What a route is\<close>

text \<open>A route names one implemented transport, with exactly the hints that transport takes.\<close>

definition route_ok :: "transport_route \<Rightarrow> bool" where
  "route_ok r \<longleftrightarrow> (case route_kind r of
     AdbKind \<Rightarrow> route_wifi_address r = None \<and> (\<forall>s. route_adb_serial r = Some s \<longrightarrow> valid_serial s)
   | WifiKind \<Rightarrow> route_adb_serial r = None \<and> (\<exists>a. route_wifi_address r = Some (SocketV4 a WIFI_UNWRAP_PORT) \<and> private_route a)
   | QrKind \<Rightarrow> route_adb_serial r = None \<and> route_wifi_address r = None
   | BleKind \<Rightarrow> False)"

text \<open>The transport a choice and its hints ask for.\<close>

definition asks_for :: "bool \<Rightarrow> transport_choice \<Rightarrow> transport_route \<Rightarrow> bool" where
  "asks_for windows choice r \<longleftrightarrow> (case choice of
     AutoChoice \<Rightarrow> route_kind r =
       (if route_adb_serial r \<noteq> None then AdbKind else if route_wifi_address r \<noteq> None then WifiKind
        else if windows then AdbKind else QrKind)
   | AdbChoice \<Rightarrow> route_kind r = AdbKind | WifiChoice \<Rightarrow> route_kind r = WifiKind
   | QrChoice \<Rightarrow> route_kind r = QrKind | BleChoice \<Rightarrow> False)"

lemma validate_endpoint_iff:
  "isOk (validate_endpoint e) \<longleftrightarrow> (\<exists>a. e = SocketV4 a WIFI_UNWRAP_PORT \<and> private_route a)"
  by (cases e) (auto simp: validate_endpoint_def)

lemma resolve_transport_iff:
  "resolve_transport windows choice operation hints = Inr r \<longleftrightarrow>
     route_adb_serial r = hint_adb_serial hints \<and> route_wifi_address r = hint_wifi_address hints \<and>
     route_ok r \<and> asks_for windows choice r"
  by (cases r; cases hints; cases choice; cases operation; cases "hint_adb_serial hints"; cases "hint_wifi_address hints")
    (auto simp: resolve_transport_def resolve_transport_for_platform_def choose_kind_def TRANSPORT_CAPABILITIES_def
      check_hints_def route_ok_def asks_for_def validate_endpoint_iff Let_def result_iff)

end
