(* ===== verification/Scan_Session.thy ===== *)
theory Scan_Session
  imports Qr_Transfer
begin

text \<open>
  The desktop's side of a QR exchange: the scan session of \<open>crates/desktop/src/qr_scanner.rs\<close>, which
  feeds scanned texts to a reassembler under a deadline, the camera loop around it, and the frame
  scheduler of \<open>crates/desktop/src/qr_terminal.rs\<close>.  The camera and the QR decoder are parameters:
  what they return is an argument.
\<close>

subsection \<open>The scan session\<close>

definition TRANSPORT_PREFIX :: string where "TRANSPORT_PREFIX = ''age-phone:qr1:''"

definition MAX_FRAME_PIXELS :: nat where "MAX_FRAME_PIXELS = 16000000"

datatype scan_error = CameraUnavailable | UnsupportedFrame | ScanTimeout | ScanCancelled | InvalidTransfer

datatype scan_progress = ScanWaiting | Receiving nat nat

record scan_session =
  sc_assembly :: qr_reassembler
  sc_started_at_ms :: u64
  sc_deadline_ms :: u64
  sc_cancelled :: bool

definition saturating_add :: "u64 \<Rightarrow> u64 \<Rightarrow> u64" where
  "saturating_add a b = (if unat a + unat b < 2 ^ 64 then a + b else - 1)"

text \<open>The timeout is a \<open>Duration\<close> in milliseconds.\<close>

definition scan_new :: "u64 \<Rightarrow> nat \<Rightarrow> scan_session" where
  "scan_new started_at_ms timeout =
     (let timeout_ms = (if timeout < 2 ^ 64 then of_nat timeout else - 1)
      in \<lparr> sc_assembly = qr_new, sc_started_at_ms = started_at_ms,
           sc_deadline_ms = saturating_add started_at_ms timeout_ms, sc_cancelled = False \<rparr>)"

definition scan_cancel :: "scan_session \<Rightarrow> scan_session" where
  "scan_cancel s = s\<lparr> sc_cancelled := True \<rparr>"

definition scan_tick :: "u64 \<Rightarrow> scan_session \<Rightarrow> (scan_error, scan_progress) result" where
  "scan_tick now s =
     (if sc_cancelled s then Inl ScanCancelled
      else if now < sc_started_at_ms s \<or> now > sc_deadline_ms s then Inl ScanTimeout
      else Inr ScanWaiting)"

definition scan_status :: "qr_status \<Rightarrow> scan_progress \<times> bytes option" where
  "scan_status st = (case st of
     InProgress received tot \<Rightarrow> (Receiving received tot, None)
   | Complete message \<Rightarrow> (ScanWaiting, Some message))"

definition scan_push ::
    "('pk, 'sg, 'sk) lib \<Rightarrow> string \<Rightarrow> u64 \<Rightarrow> (scan_session, scan_error, scan_progress \<times> bytes option) step" where
  "scan_push L decoded_text now s = (case scan_tick now s of
     Inl e \<Rightarrow> (s, Inl e)
   | Inr _ \<Rightarrow>
       if \<not> starts_with decoded_text TRANSPORT_PREFIX then (s, Inr (ScanWaiting, None))
       else case qr_push L decoded_text now (sc_assembly s) of
         (q, Inr st) \<Rightarrow> (s\<lparr> sc_assembly := q \<rparr>, Inr (scan_status st))
       | (q, Inl e) \<Rightarrow>
           if e \<in> {MalformedFrame, UnsupportedVersion_Q, UnsupportedType, DifferentTransfer}
             then (s\<lparr> sc_assembly := q \<rparr>, Inr (ScanWaiting, None))
           else if e = Timeout_Q then
             (case qr_push L decoded_text now (qr_reset q) of
                (q, Inr st) \<Rightarrow> (s\<lparr> sc_assembly := q \<rparr>, Inr (scan_status st))
              | (q, Inl _) \<Rightarrow> (s\<lparr> sc_assembly := q \<rparr>, Inl InvalidTransfer))
           else (s\<lparr> sc_assembly := q \<rparr>, Inl InvalidTransfer))"

subsection \<open>The camera loop\<close>

text \<open>The texts decoded from one image, until one completes the message.\<close>

fun scan_texts :: "('pk, 'sg, 'sk) lib \<Rightarrow> (string \<times> u64) list \<Rightarrow> (scan_session, scan_error, bytes option) step" where
  "scan_texts L [] s = (s, Inr None)"
| "scan_texts L ((tx, now) # ts) s = (case scan_push L tx now s of
     (s, Inl e) \<Rightarrow> (s, Inl e)
   | (s, Inr (_, Some m)) \<Rightarrow> (s, Inr (Some m))
   | (s, Inr (_, None)) \<Rightarrow> scan_texts L ts s)"

text \<open>One pass of the loop sees whether the scan was cancelled meanwhile, the clock, and what the
  camera and the decoder return.\<close>

record camera_pass =
  cp_cancelled :: bool
  cp_now :: u64
  cp_image :: "(scan_error, string list) result"

text \<open>\<open>None\<close> when the passes end before the loop does.\<close>

fun scan_loop :: "('pk, 'sg, 'sk) lib \<Rightarrow> camera_pass list \<Rightarrow> scan_session \<Rightarrow> (scan_error, bytes) result option" where
  "scan_loop L [] s = None"
| "scan_loop L (p # ps) s =
     (let s = (if cp_cancelled p then scan_cancel s else s)
      in case scan_tick (cp_now p) s of
           Inl e \<Rightarrow> Some (Inl e)
         | Inr _ \<Rightarrow> (case cp_image p of
             Inl e \<Rightarrow> Some (Inl e)
           | Inr texts \<Rightarrow> (case scan_texts L (map (\<lambda>t. (t, cp_now p)) texts) s of
               (s, Inl e) \<Rightarrow> Some (Inl e)
             | (s, Inr (Some m)) \<Rightarrow> Some (Inr m)
             | (s, Inr None) \<Rightarrow> scan_loop L ps s)))"

definition scan_camera ::
    "('pk, 'sg, 'sk) lib \<Rightarrow> u32 \<times> u32 \<Rightarrow> nat \<Rightarrow> camera_pass list \<Rightarrow> (scan_error, bytes) result option" where
  "scan_camera L resolution timeout ps =
     (let pixels = unat (fst resolution) * unat (snd resolution)
      in if pixels = 0 \<or> pixels > MAX_FRAME_PIXELS then Some (Inl UnsupportedFrame)
         else scan_loop L ps (scan_new 0 timeout))"

subsection \<open>The frame scheduler\<close>

datatype terminal_qr_error = EncodingError | EmptyAnimation | InvalidInterval | ClockRollback_T

record frame_scheduler =
  fs_frames :: "string list"
  fs_interval_ms :: u64
  fs_started_at_ms :: "u64 option"
  fs_last_now_ms :: "u64 option"

definition scheduler_new :: "string list \<Rightarrow> u64 \<Rightarrow> (terminal_qr_error, frame_scheduler) result" where
  "scheduler_new frames interval_ms =
     (if frames = [] then Inl EmptyAnimation
      else if interval_ms = 0 then Inl InvalidInterval
      else Inr \<lparr> fs_frames = frames, fs_interval_ms = interval_ms, fs_started_at_ms = None, fs_last_now_ms = None \<rparr>)"

definition frame_at :: "u64 \<Rightarrow> (frame_scheduler, terminal_qr_error, nat \<times> string) step" where
  "frame_at now s =
     (if (case fs_last_now_ms s of Some prev \<Rightarrow> now < prev | None \<Rightarrow> False) then (s, Inl ClockRollback_T)
      else let started = (case fs_started_at_ms s of Some t \<Rightarrow> t | None \<Rightarrow> now);
               s = s\<lparr> fs_started_at_ms := Some started, fs_last_now_ms := Some now \<rparr>;
               ticks = (now - started) div fs_interval_ms s;
               index = unat ticks mod length (fs_frames s)
        in (s, Inr (index, fs_frames s ! index)))"

subsection \<open>What a scan returns\<close>

lemma scan_tick_ok:
  "scan_tick now s = Inr p \<longleftrightarrow> p = ScanWaiting \<and> \<not> sc_cancelled s \<and> sc_started_at_ms s \<le> now \<and> now \<le> sc_deadline_ms s"
  by (auto simp: scan_tick_def)

lemma scan_push_same: "scan_push L tx now s = (s', r) \<Longrightarrow>
    sc_started_at_ms s' = sc_started_at_ms s \<and> sc_deadline_ms s' = sc_deadline_ms s \<and> sc_cancelled s' = sc_cancelled s"
  by (auto simp: scan_push_def split: sum.splits prod.splits if_splits)

lemma scan_push_complete:
  assumes "scan_push L tx now s = (s', Inr (p, Some m))"
  shows "\<not> sc_cancelled s \<and> sc_started_at_ms s \<le> now \<and> now \<le> sc_deadline_ms s \<and>
    (\<exists>f. decode_text L tx = Inr f \<and> message_digest (sym L) m = fr_digest f \<and> length m = fr_total_len f)"
proof -
  from assms obtain u where t: "scan_tick now s = Inr u" by (auto simp: scan_push_def split: sum.splits)
  from assms t obtain q q' where "qr_push L tx now q = (q', Inr (Complete m))"
    by (auto simp: scan_push_def scan_status_def split: sum.splits prod.splits if_splits qr_status.splits)
  from qr_push_complete [OF this] t show ?thesis by (auto simp: scan_tick_ok)
qed

lemma scan_texts_same: "scan_texts L ts s = (s', r) \<Longrightarrow>
    sc_started_at_ms s' = sc_started_at_ms s \<and> sc_deadline_ms s' = sc_deadline_ms s \<and> sc_cancelled s' = sc_cancelled s"
proof (induction L ts s rule: scan_texts.induct)
  case (2 L tx now ts s)
  obtain s1 r1 where p: "scan_push L tx now s = (s1, r1)" by fastforce
  with scan_push_same [OF p] 2 show ?case by (auto split: sum.splits prod.splits option.splits)
qed simp

lemma scan_texts_complete:
  "scan_texts L ts s = (s', Inr (Some m)) \<Longrightarrow> \<exists>tx now f. (tx, now) \<in> set ts \<and> \<not> sc_cancelled s \<and>
     sc_started_at_ms s \<le> now \<and> now \<le> sc_deadline_ms s \<and>
     decode_text L tx = Inr f \<and> message_digest (sym L) m = fr_digest f \<and> length m = fr_total_len f"
proof (induction L ts s rule: scan_texts.induct)
  case (2 L tx now ts s)
  obtain s1 r1 where p: "scan_push L tx now s = (s1, r1)" by fastforce
  note same = scan_push_same [OF p]
  show ?case
  proof (cases r1)
    case (Inl e)
    with 2 p show ?thesis by simp
  next
    case (Inr x)
    obtain pr c where x: "x = (pr, c)" by fastforce
    show ?thesis
    proof (cases c)
      case None
      with 2 p Inr x have "scan_texts L ts s1 = (s', Inr (Some m))" by simp
      with 2(1) [OF p [symmetric] Inr x [symmetric] None] p Inr x None same show ?thesis by fastforce
    next
      case (Some m')
      with 2 p Inr x have "m' = m" by simp
      with scan_push_complete p Inr x Some show ?thesis by fastforce
    qed
  qed
qed simp

text \<open>Whatever the camera sees, a message comes out only from a frame decoded in an image before the
  deadline and before any cancellation, and is the one the frame announces.\<close>

lemma scan_loop_complete:
  "scan_loop L ps s = Some (Inr m) \<Longrightarrow> \<exists>pre p post texts tx f. ps = pre @ p # post \<and>
     (\<forall>x \<in> set (pre @ [p]). \<not> cp_cancelled x) \<and> \<not> sc_cancelled s \<and>
     cp_image p = Inr texts \<and> tx \<in> set texts \<and> sc_started_at_ms s \<le> cp_now p \<and> cp_now p \<le> sc_deadline_ms s \<and>
     decode_text L tx = Inr f \<and> message_digest (sym L) m = fr_digest f \<and> length m = fr_total_len f"
proof (induction ps arbitrary: s)
  case (Cons p ps)
  let ?s = "if cp_cancelled p then scan_cancel s else s"
  from Cons.prems obtain u where t: "scan_tick (cp_now p) ?s = Inr u" by (auto simp: Let_def split: sum.splits)
  then have c: "\<not> cp_cancelled p" "\<not> sc_cancelled s" by (auto simp: scan_tick_ok scan_cancel_def split: if_splits)
  from Cons.prems t c obtain texts where i: "cp_image p = Inr texts" by (auto split: sum.splits)
  obtain s1 r1 where x: "scan_texts L (map (\<lambda>t. (t, cp_now p)) texts) s = (s1, r1)" by fastforce
  note same = scan_texts_same [OF x]
  show ?case
  proof (cases r1)
    case (Inl e)
    with Cons.prems t c i x show ?thesis by simp
  next
    case r: (Inr o1)
    show ?thesis
    proof (cases o1)
      case None
      with Cons.prems t c i x r have "scan_loop L ps s1 = Some (Inr m)" by simp
      from Cons.IH [OF this] obtain pre p' post texts' tx f where "ps = pre @ p' # post"
        "\<forall>x \<in> set (pre @ [p']). \<not> cp_cancelled x" "cp_image p' = Inr texts'" "tx \<in> set texts'"
        "sc_started_at_ms s1 \<le> cp_now p'" "cp_now p' \<le> sc_deadline_ms s1"
        "decode_text L tx = Inr f" "message_digest (sym L) m = fr_digest f" "length m = fr_total_len f" by blast
      with c same show ?thesis
        by (intro exI [of _ "p # pre"] exI [of _ p'] exI [of _ post] exI [of _ texts'] exI [of _ tx] exI [of _ f]) auto
    next
      case (Some m')
      with Cons.prems t c i x r have "m' = m" by simp
      with x r Some obtain tx f where "tx \<in> set texts" "sc_started_at_ms s \<le> cp_now p" "cp_now p \<le> sc_deadline_ms s"
        "decode_text L tx = Inr f" "message_digest (sym L) m = fr_digest f" "length m = fr_total_len f"
        using scan_texts_complete [of L "map (\<lambda>t. (t, cp_now p)) texts" s s1 m] by auto
      with c i show ?thesis
        by (intro exI [of _ "[]"] exI [of _ p] exI [of _ ps] exI [of _ texts] exI [of _ tx] exI [of _ f]) auto
    qed
  qed
qed simp


subsection \<open>A scan that completes\<close>

text \<open>What a failed push can be when it leaves the reassembler usable: the errors the scanner ignores.\<close>

definition errors_in :: "'e set \<Rightarrow> ('e, 'a) result \<Rightarrow> bool" where
  "errors_in E r \<longleftrightarrow> (\<forall>e. r = Inl e \<longrightarrow> e \<in> E)"

lemma errors_in_bindE:
  "errors_in E r \<Longrightarrow> (\<And>x. r = Inr x \<Longrightarrow> errors_in E (f x)) \<Longrightarrow> errors_in E (bindE r f)"
  by (cases r) (auto simp: errors_in_def)

lemma errors_in_simps:
  "errors_in E (Inr x)" "errors_in E (Inl e) \<longleftrightarrow> e \<in> E" "e \<in> E \<Longrightarrow> errors_in E (failIf b e)"
  "e \<in> E \<Longrightarrow> errors_in E (okOr e m)"
  by (auto simp: errors_in_def failIf_def okOr_def split: option.splits)

lemma decode_cbor_errors: "errors_in {MalformedFrame, UnsupportedVersion_Q, UnsupportedType} (decode_cbor cb d)"
  unfolding decode_cbor_def fixed_bytes_def encode_cbor_def
  by (intro errors_in_bindE) (auto simp: errors_in_simps Let_def failIf_Inr_iff intro!: errors_in_bindE split: prod.splits)

lemma decode_text_errors: "errors_in {MalformedFrame, UnsupportedVersion_Q, UnsupportedType} (decode_text L tx)"
  unfolding decode_text_def Let_def
  by (intro errors_in_bindE decode_cbor_errors) (auto simp: errors_in_simps)

lemma decode_text_error:
  "decode_text L tx = Inl e \<Longrightarrow> e \<in> {MalformedFrame, UnsupportedVersion_Q, UnsupportedType}"
  using decode_text_errors unfolding errors_in_def by blast

lemma qr_push_ignored:
  assumes "qr_push L tx now q = (q', Inl e)" "\<not> qr_poisoned q'"
  shows "e \<in> {MalformedFrame, UnsupportedVersion_Q, UnsupportedType, DifferentTransfer}"
proof (cases "decode_text L tx")
  case (Inl e')
  with assms decode_text_error [OF Inl] show ?thesis by (auto simp: qr_push_def split: if_splits)
next
  case (Inr f)
  with assms show ?thesis by (auto simp: qr_push_def poison_def Let_def split: if_splits sum.splits)
qed

lemma not_prefixed: "\<not> starts_with tx TRANSPORT_PREFIX \<Longrightarrow> decode_text L tx = Inl MalformedFrame"
  by (simp add: decode_text_def TRANSPORT_PREFIX_def TEXT_PREFIX_def)

lemma scan_push_follows:
  assumes t: "scan_tick now s = Inr u" and q: "qr_push L tx now (sc_assembly s) = (q', r)" "\<not> qr_poisoned q'"
  shows "scan_push L tx now s = (s\<lparr> sc_assembly := q' \<rparr>,
    Inr (case r of Inl _ \<Rightarrow> (ScanWaiting, None) | Inr st \<Rightarrow> scan_status st))"
proof (cases "starts_with tx TRANSPORT_PREFIX")
  case False
  with q not_prefixed [OF False, of L] have "q' = sc_assembly s \<and> (\<exists>e. r = Inl e)"
    by (auto simp: qr_push_def split: if_splits)
  with t False show ?thesis by (auto simp: scan_push_def)
next
  case True
  with t q show ?thesis
    by (cases r) (auto simp: scan_push_def dest!: qr_push_ignored)
qed

lemma qr_pushes_poisoned: "qr_poisoned q \<Longrightarrow> qr_pushes L ev q = (q', rs) \<Longrightarrow> qr_poisoned q'"
  by (induction ev arbitrary: rs) (auto simp: qr_poisoned_stays split: prod.splits)

lemma scan_texts_follow:
  assumes "qr_pushes L ev (sc_assembly s) = (q', rs @ [Inr (Complete m)])" "\<forall>r \<in> set rs. \<forall>m. r \<noteq> Inr (Complete m)"
    "\<not> qr_poisoned q'" "\<not> sc_cancelled s" "\<forall>(tx, now) \<in> set ev. sc_started_at_ms s \<le> now \<and> now \<le> sc_deadline_ms s"
  shows "\<exists>s'. scan_texts L ev s = (s', Inr (Some m))"
  using assms
proof (induction ev arbitrary: s rs)
  case (Cons x ev)
  obtain tx now where x: "x = (tx, now)" by fastforce
  obtain q1 r where p: "qr_push L tx now (sc_assembly s) = (q1, r)" by fastforce
  obtain q2 rs2 where ps: "qr_pushes L ev q1 = (q2, rs2)" by fastforce
  from Cons.prems(1) x p ps have q2: "q2 = q'" "r # rs2 = rs @ [Inr (Complete m)]" by auto
  have n: "\<not> qr_poisoned q1" using qr_pushes_poisoned [OF _ ps] Cons.prems(3) q2 by blast
  have t: "scan_tick now s = Inr ScanWaiting" using Cons.prems(4,5) x by (simp add: scan_tick_ok)
  note f = scan_push_follows [OF t p n]
  show ?case
  proof (cases rs)
    case Nil
    with q2 f x show ?thesis by (simp add: scan_status_def)
  next
    case (Cons r' rs')
    have rest: "\<exists>s'. scan_texts L ev (s\<lparr> sc_assembly := q1 \<rparr>) = (s', Inr (Some m))"
      using Cons.IH [of "s\<lparr> sc_assembly := q1 \<rparr>" rs'] Cons.prems Cons q2 ps by simp
    have "\<forall>m. r \<noteq> Inr (Complete m)" using Cons.prems(2) Cons q2(2) by simp
    then have "\<exists>pr. scan_push L tx now s = (s\<lparr> sc_assembly := q1 \<rparr>, Inr (pr, None))"
      using f by (auto simp: scan_status_def split: sum.splits qr_status.splits)
    with rest x show ?thesis by auto
  qed
qed simp

text \<open>Texts that are no frame of any transfer leave the session as it is.\<close>

lemma scan_texts_noise:
  assumes "\<forall>(tx, now) \<in> set pre. (\<exists>e. decode_text L tx = Inl e) \<and> sc_started_at_ms s \<le> now \<and> now \<le> sc_deadline_ms s"
    "\<not> sc_cancelled s" "\<not> qr_poisoned (sc_assembly s)"
  shows "scan_texts L (pre @ ev) s = scan_texts L ev s"
  using assms(1)
proof (induction pre)
  case (Cons x pre)
  obtain tx now where x: "x = (tx, now)" by fastforce
  obtain e where e: "decode_text L tx = Inl e" using Cons.prems x by auto
  have t: "scan_tick now s = Inr ScanWaiting" using Cons.prems assms(2) x by (simp add: scan_tick_ok)
  have "qr_push L tx now (sc_assembly s) = (sc_assembly s, Inl e)" using e assms(3) by (simp add: qr_push_def)
  from scan_push_follows [OF t this assms(3)] x Cons show ?case by simp
qed simp

definition pass_texts :: "camera_pass \<Rightarrow> (string \<times> u64) list" where
  "pass_texts p = (case cp_image p of Inl _ \<Rightarrow> [] | Inr texts \<Rightarrow> map (\<lambda>t. (t, cp_now p)) texts)"

lemma scan_texts_append: "scan_texts L (xs @ ys) s = (case scan_texts L xs s of
     (s, Inl e) \<Rightarrow> (s, Inl e) | (s, Inr (Some m)) \<Rightarrow> (s, Inr (Some m)) | (s, Inr None) \<Rightarrow> scan_texts L ys s)"
  by (induction L xs s rule: scan_texts.induct) (auto split: prod.splits sum.splits option.splits)

text \<open>A camera that keeps working before the deadline: the loop is the fold of all decoded texts.\<close>

lemma scan_loop_texts:
  assumes "\<forall>p \<in> set ps. \<not> cp_cancelled p \<and> (\<exists>texts. cp_image p = Inr texts) \<and>
     sc_started_at_ms s \<le> cp_now p \<and> cp_now p \<le> sc_deadline_ms s" "\<not> sc_cancelled s"
  shows "scan_loop L ps s = (case scan_texts L (concat (map pass_texts ps)) s of
     (_, Inl e) \<Rightarrow> Some (Inl e) | (_, Inr (Some m)) \<Rightarrow> Some (Inr m) | (_, Inr None) \<Rightarrow> None)"
  using assms
proof (induction ps arbitrary: s)
  case (Cons p ps)
  from Cons.prems obtain texts where i: "cp_image p = Inr texts" by auto
  have t: "scan_tick (cp_now p) s = Inr ScanWaiting" using Cons.prems by (simp add: scan_tick_ok)
  obtain s1 r1 where x: "scan_texts L (map (\<lambda>t. (t, cp_now p)) texts) s = (s1, r1)" by fastforce
  from scan_texts_same [OF x] Cons.prems
  have "scan_loop L ps s1 = (case scan_texts L (concat (map pass_texts ps)) s1 of
     (_, Inl e) \<Rightarrow> Some (Inl e) | (_, Inr (Some m)) \<Rightarrow> Some (Inr m) | (_, Inr None) \<Rightarrow> None)"
    by (intro Cons.IH) auto
  with Cons.prems i t x show ?case
    by (cases r1) (auto simp: pass_texts_def [of p] scan_texts_append split: option.splits)
qed simp

lemma scan_camera_loop:
  assumes "0 < unat w * unat h" "unat w * unat h \<le> MAX_FRAME_PIXELS"
  shows "scan_camera L (w, h) timeout ps = scan_loop L ps (scan_new 0 timeout)"
  using assms by (simp add: scan_camera_def)

lemma scan_new_fields: "timeout < 2 ^ 64 \<Longrightarrow>
    scan_new 0 timeout = \<lparr> sc_assembly = qr_new, sc_started_at_ms = 0, sc_deadline_ms = of_nat timeout, sc_cancelled = False \<rparr>"
  by (simp add: scan_new_def saturating_add_def unat_of_nat)

text \<open>The transfer of a message to the camera: noise, the first frame, then frames in any order,
  repeated or mixed with other texts, within the reassembly window.\<close>

lemma camera_receives:
  assumes L: "cbor_sized (minicbor L)" "base64_engine (url64 L)" "symmetric_laws (sym L)"
    and f: "fragmentable message n" "length transfer_id = 16"
    and x: "fragment_qr_message L message n transfer_id = Inr texts"
    and r: "0 < unat w * unat h" "unat w * unat h \<le> MAX_FRAME_PIXELS" "timeout < 2 ^ 64"
    and ps: "\<forall>p \<in> set ps. \<not> cp_cancelled p \<and> (\<exists>texts. cp_image p = Inr texts) \<and> unat (cp_now p) \<le> timeout"
    and ev: "concat (map pass_texts ps) = pre @ (s0, t0) # ev @ post" "\<forall>(tx, now) \<in> set pre. \<exists>e. decode_text L tx = Inl e"
      "s0 \<in> set texts" "\<forall>(s, t) \<in> set ev. (s \<in> set texts \<or> foreign L message n transfer_id s) \<and>
         unat t0 \<le> unat t \<and> unat t \<le> unat t0 + 30000"
      "set texts \<subseteq> fst ` set ((s0, t0) # ev)" "\<not> set texts \<subseteq> fst ` set (butlast ((s0, t0) # ev))"
  shows "scan_camera L (w, h) timeout ps = Some (Inr message)"
proof -
  let ?s = "scan_new 0 timeout"
  note s = scan_new_fields [OF r(3)]
  have d: "now \<le> sc_deadline_ms ?s \<longleftrightarrow> unat now \<le> timeout" for now :: u64
    using r(3) by (simp add: s word_le_nat_alt unat_of_nat)
  obtain texts' where texts': "fragment_qr_message L message n transfer_id = Inr texts'"
    "\<forall>s0 t0 ev. s0 \<in> set texts' \<longrightarrow>
      (\<forall>(s, t) \<in> set ev. (s \<in> set texts' \<or> foreign L message n transfer_id s) \<and>
         unat t0 \<le> unat t \<and> unat t \<le> unat t0 + 30000) \<longrightarrow>
      set texts' \<subseteq> fst ` set ((s0, t0) # ev) \<longrightarrow> \<not> set texts' \<subseteq> fst ` set (butlast ((s0, t0) # ev)) \<longrightarrow>
      (\<exists>rs. qr_pushes L ((s0, t0) # ev) qr_new = (qr_new, rs @ [Inr (Complete message)]) \<and>
         (\<forall>r \<in> set rs. \<forall>m. r \<noteq> Inr (Complete m)))"
    using qr_transfer_completes [OF L f] by blast
  then have "texts' = texts" using x by simp
  note all = texts'(2) [unfolded this, THEN spec, THEN spec, THEN spec, THEN mp, OF ev(3), THEN mp, OF ev(4),
      THEN mp, OF ev(5), THEN mp, OF ev(6)]
  then obtain rs where
    rs: "qr_pushes L ((s0, t0) # ev) qr_new = (qr_new, rs @ [Inr (Complete message)])"
      "\<forall>r \<in> set rs. \<forall>m. r \<noteq> Inr (Complete m)" by blast
  have times: "\<forall>(tx, now) \<in> set (concat (map pass_texts ps)). unat now \<le> timeout"
    using ps by (auto simp: pass_texts_def)
  have in_time: "\<forall>(tx, now) \<in> set pre. (\<exists>e. decode_text L tx = Inl e) \<and> sc_started_at_ms ?s \<le> now \<and> now \<le> sc_deadline_ms ?s"
    "\<forall>(tx, now) \<in> set ((s0, t0) # ev). sc_started_at_ms ?s \<le> now \<and> now \<le> sc_deadline_ms ?s"
    using times ev(2) unfolding ev(1) by (auto simp: d) (auto simp: s)
  have q: "sc_assembly ?s = qr_new" "\<not> sc_cancelled ?s" "\<not> qr_poisoned qr_new" by (simp_all add: s qr_new_def)
  obtain s' where "scan_texts L ((s0, t0) # ev) ?s = (s', Inr (Some message))"
    using scan_texts_follow [of L "(s0, t0) # ev" ?s qr_new rs message] rs q in_time(2) by auto
  then have "scan_texts L (concat (map pass_texts ps)) ?s = (s', Inr (Some message))"
    using scan_texts_noise [OF in_time(1)] q scan_texts_append [of L "(s0, t0) # ev" post ?s] ev(1) by simp
  moreover have "scan_loop L ps ?s = (case scan_texts L (concat (map pass_texts ps)) ?s of
     (_, Inl e) \<Rightarrow> Some (Inl e) | (_, Inr (Some m)) \<Rightarrow> Some (Inr m) | (_, Inr None) \<Rightarrow> None)"
    using ps d by (intro scan_loop_texts) (auto simp: s)
  ultimately show ?thesis unfolding scan_camera_loop [OF r(1,2)] by simp
qed

lemma scan_new_deadline:
  "sc_started_at_ms (scan_new 0 timeout) \<le> now \<and> now \<le> sc_deadline_ms (scan_new 0 timeout) \<Longrightarrow> unat now \<le> timeout"
  by (cases "timeout < 2 ^ 64") (auto simp: scan_new_def saturating_add_def Let_def unat_of_nat word_le_nat_alt
      intro: order.trans [OF less_imp_le [OF unsigned_less]])

lemma camera_sound:
  assumes "scan_camera L resolution timeout ps = Some (Inr m)"
  shows "\<exists>pre p post texts tx f. ps = pre @ p # post \<and> (\<forall>x \<in> set (pre @ [p]). \<not> cp_cancelled x) \<and>
     cp_image p = Inr texts \<and> tx \<in> set texts \<and> unat (cp_now p) \<le> timeout \<and>
     decode_text L tx = Inr f \<and> message_digest (sym L) m = fr_digest f \<and> length m = fr_total_len f"
proof -
  from assms have "scan_loop L ps (scan_new 0 timeout) = Some (Inr m)" by (auto simp: scan_camera_def Let_def split: if_splits)
  from scan_loop_complete [OF this] obtain pre p post texts tx f where x: "ps = pre @ p # post"
    "\<forall>x \<in> set (pre @ [p]). \<not> cp_cancelled x" "cp_image p = Inr texts" "tx \<in> set texts"
    "sc_started_at_ms (scan_new 0 timeout) \<le> cp_now p \<and> cp_now p \<le> sc_deadline_ms (scan_new 0 timeout)"
    "decode_text L tx = Inr f" "message_digest (sym L) m = fr_digest f" "length m = fr_total_len f"
    by blast
  show ?thesis
    using x(1-4) scan_new_deadline [OF x(5)] x(6-8) by blast
qed

subsection \<open>The scheduler\<close>

definition scheduler_ok :: "frame_scheduler \<Rightarrow> bool" where
  "scheduler_ok s \<longleftrightarrow> fs_frames s \<noteq> [] \<and> fs_interval_ms s \<noteq> 0 \<and>
     (case fs_last_now_ms s of Some prev \<Rightarrow> (\<exists>t. fs_started_at_ms s = Some t \<and> t \<le> prev) | None \<Rightarrow> fs_started_at_ms s = None)"

lemma scheduler_new_ok: "scheduler_new frames i = Inr s \<Longrightarrow> scheduler_ok s \<and> fs_frames s = frames \<and> fs_interval_ms s = i"
  by (auto simp: scheduler_new_def scheduler_ok_def split: if_splits)

lemma frame_at_ok:
  assumes "scheduler_ok s" "frame_at now s = (s', r)"
  shows "scheduler_ok s' \<and> fs_frames s' = fs_frames s \<and> fs_interval_ms s' = fs_interval_ms s \<and>
    (case r of Inl e \<Rightarrow> s' = s \<and> (\<exists>prev. fs_last_now_ms s = Some prev \<and> now < prev)
     | Inr (i, f) \<Rightarrow> i < length (fs_frames s) \<and> f = fs_frames s ! i \<and>
         (\<exists>t. fs_started_at_ms s' = Some t \<and> t \<le> now \<and>
            i = ((unat now - unat t) div unat (fs_interval_ms s)) mod length (fs_frames s)))"
  using assms by (auto simp: scheduler_ok_def frame_at_def Let_def unat_div unat_sub not_less split: option.splits if_splits)

end
