(* ===== verification/Route_Properties.thy ===== *)
theory Route_Properties
  imports
    Transport_Policy
    Scan_Session
    Transfer_Properties
begin

text \<open>
  The properties of the routes between the desktop and the phone: the policy that picks a route, one
  exchange on a stream, the discovery of a phone on the network, the discipline of the USB reverse
  rule, and the transfer by camera.
\<close>

subsection \<open>The transport policy\<close>

text \<open>C40: A choice and its hints resolve to a route exactly when the route carries those hints
  unchanged, is one of the implemented transports with exactly the hints that transport takes (an
  optional valid serial for USB, a private endpoint on the fixed port for Wi-Fi, none for QR), and is
  the transport the choice asks for: the automatic choice follows the hint there is and otherwise
  falls back to USB on Windows and to QR elsewhere.  No hint ever changes an explicit choice.\<close>

theorem transport_policy_exact:
  "resolve_transport windows choice operation hints = Inr r \<longleftrightarrow>
     route_adb_serial r = hint_adb_serial hints \<and> route_wifi_address r = hint_wifi_address hints \<and>
     route_ok r \<and> asks_for windows choice r"
  by (rule resolve_transport_iff)

subsection \<open>One exchange\<close>



subsection \<open>Discovery\<close>

text \<open>C39: Unwrap discovery returns an endpoint only at the deadline, only a private IPv4 address with
  the fixed port, and only when every valid datagram heard until then came from it and at least one
  did: an answer to this query's random nonce with a low-s signature of the paired phone.  When no
  socket call fails before the deadline, that is also what decides it: none heard is unavailable,
  more than one is ambiguous.\<close>

theorem unwrap_discovery_one_phone:
  assumes "length desktop_id = 16" "length identity_id = 16" "length nonce = 32"
    and "vk_from_sec1 (ec L) phone_key = Some key"
  shows "(\<forall>e. discover_unwrap_endpoint L desktop_id identity_id phone_key nonce start timeout ns ps = Some (Inr e) \<longrightarrow>
      (\<exists>pre p post a. ps = pre @ p # post \<and> start + timeout \<le> pass_now p \<and> (\<forall>x \<in> set pre. pass_now x < start + timeout) \<and>
        e = SocketV4 a WIFI_UNWRAP_PORT \<and> private_route a \<and>
        heard L (unwrap_query desktop_id identity_id nonce) (Some key) pre = {e} \<and>
        (\<exists>x \<in> set pre. \<exists>b port sb sg. pass_receive x = Datagram b (SocketV4 a port) \<and>
          b = encode_discovery (unwrap_query desktop_id identity_id nonce) DISCOVERY_RESPONSE @ sb \<and> length sb = 64 \<and>
          sig_from_slice (ec L) sb = Some sg \<and> sig_normalize_s (ec L) sg = None \<and>
          ecdsa_verify (ec L) key (DISCOVERY_SIGNATURE_DOMAIN @ [0] @
            encode_discovery (unwrap_query desktop_id identity_id nonce) DISCOVERY_RESPONSE) sg))) \<and>
    (\<forall>pre p post. ps = pre @ p # post \<and> start + timeout \<le> pass_now p \<and>
        (\<forall>x \<in> set pre. pass_now x < start + timeout \<and> pass_send x = Inr () \<and> pass_receive x \<noteq> SocketFailure) \<longrightarrow>
      discover_unwrap_endpoint L desktop_id identity_id phone_key nonce start timeout ns ps =
        Some (discovery_result (heard L (unwrap_query desktop_id identity_id nonce) (Some key) pre)))"
proof (intro conjI allI impI)
  let ?q = "unwrap_query desktop_id identity_id nonce"
  have d: "discover_unwrap_endpoint L desktop_id identity_id phone_key nonce start timeout ns ps =
      discovery_loop L ?q (Some key) (start + timeout) ps ns {}"
    using assms(4) by (simp add: discover_unwrap_endpoint_def discover_with_io_def)
  have len: "length (encode_discovery ?q DISCOVERY_RESPONSE) = 72"
    using assms(1-3) by (intro length_encode_discovery) (simp_all add: unwrap_query_def)
  show "\<exists>pre p post a. ps = pre @ p # post \<and> start + timeout \<le> pass_now p \<and> (\<forall>x \<in> set pre. pass_now x < start + timeout) \<and>
        e = SocketV4 a WIFI_UNWRAP_PORT \<and> private_route a \<and> heard L ?q (Some key) pre = {e} \<and>
        (\<exists>x \<in> set pre. \<exists>b port sb sg. pass_receive x = Datagram b (SocketV4 a port) \<and>
          b = encode_discovery ?q DISCOVERY_RESPONSE @ sb \<and> length sb = 64 \<and>
          sig_from_slice (ec L) sb = Some sg \<and> sig_normalize_s (ec L) sg = None \<and>
          ecdsa_verify (ec L) key (DISCOVERY_SIGNATURE_DOMAIN @ [0] @ encode_discovery ?q DISCOVERY_RESPONSE) sg)"
    if run: "discover_unwrap_endpoint L desktop_id identity_id phone_key nonce start timeout ns ps = Some (Inr e)" for e
  proof -
    obtain pre p post where x: "ps = pre @ p # post" "start + timeout \<le> pass_now p" "\<forall>x \<in> set pre. pass_now x < start + timeout"
      and h: "heard L ?q (Some key) pre = {e}"
      using discovery_loop_found [of L ?q "Some key" "start + timeout" ps ns "{}" e] run d by auto
    then obtain y where y: "y \<in> set pre" "heard_endpoint L ?q (Some key) (pass_receive y) = Some e"
      by (auto simp: heard_def)
    obtain b a port where b: "pass_receive y = Datagram b (SocketV4 a port)" "e = SocketV4 a WIFI_UNWRAP_PORT"
      "validate_endpoint e = Inr ()" "valid_discovery_response L (take (DISCOVERY_RESPONSE_BYTES + 1) b) ?q (Some key)"
      using y(2) heard_endpoint_iff [of L ?q "Some key" "pass_receive y" e] by blast
    from b(4) obtain sb sg where s: "take 137 b = encode_discovery ?q DISCOVERY_RESPONSE @ sb" "length sb = 64"
      "sig_from_slice (ec L) sb = Some sg" "sig_normalize_s (ec L) sg = None"
      "ecdsa_verify (ec L) key (DISCOVERY_SIGNATURE_DOMAIN @ [0] @ encode_discovery ?q DISCOVERY_RESPONSE) sg"
      unfolding valid_discovery_iff [OF len] by (auto simp: unwrap_query_def)
    have "length (take 137 b) = 136" using s(1,2) len by simp
    then have "take 137 b = b" by simp
    with s have "b = encode_discovery ?q DISCOVERY_RESPONSE @ sb" by simp
    moreover have "private_route a" using b(2,3) validate_endpoint_iff [of e] by (simp add: isOk_iff)
    ultimately show ?thesis using x h y(1) b(1,2) s(2-) by blast
  qed
  show "discover_unwrap_endpoint L desktop_id identity_id phone_key nonce start timeout ns ps =
      Some (discovery_result (heard L ?q (Some key) pre))"
    if "ps = pre @ p # post \<and> start + timeout \<le> pass_now p \<and>
      (\<forall>x \<in> set pre. pass_now x < start + timeout \<and> pass_send x = Inr () \<and> pass_receive x \<noteq> SocketFailure)" for pre p post
    using discovery_loop_run [of pre "start + timeout" p "{}" L ?q "Some key" post ns] that d by simp
qed

theorem unwrap_discovery_one_phone_witness:
  "\<exists>b. discover_unwrap_endpoint ref_lib (replicate 16 1) (replicate 16 2) (toy_compressed 9) (replicate 32 3) 0 100 0
      [\<lparr> pass_now = 0, pass_send = Inr (), pass_receive = Datagram b (SocketV4 0xC0A80105 5000) \<rparr>,
       \<lparr> pass_now = 100, pass_send = Inr (), pass_receive = NothingYet \<rparr>] = Some (Inr (SocketV4 0xC0A80105 WIFI_UNWRAP_PORT))"
proof -
  let ?q = "unwrap_query (replicate 16 1) (replicate 16 2) (replicate 32 3)"
  let ?e = "encode_discovery ?q DISCOVERY_RESPONSE"
  let ?sb = "replicate 62 0 @ [9, toy_sum (DISCOVERY_SIGNATURE_DOMAIN @ [0] @ ?e)]"
  let ?p = "\<lparr> pass_now = 0 :: nat, pass_send = Inr () :: (wifi_error, unit) result,
      pass_receive = Datagram (?e @ ?sb) (SocketV4 0xC0A80105 5000) \<rparr>"
  let ?z = "\<lparr> pass_now = 100 :: nat, pass_send = Inr () :: (wifi_error, unit) result, pass_receive = NothingYet \<rparr>"
  have k: "vk_from_sec1 (ec ref_lib) (toy_compressed 9) = Some 9" by (simp add: toy_p256_def)
  have len: "length ?e = 72" by (intro length_encode_discovery) (simp_all add: unwrap_query_def)
  have "validate_endpoint (SocketV4 0xC0A80105 WIFI_UNWRAP_PORT) = Inr ()"
    by (simp add: validate_endpoint_def private_route_def is_private_def is_link_local_def is_loopback4_def is_multicast_def
        octet_def IPV4_BROADCAST_def)
  moreover have "valid_discovery_response ref_lib (?e @ ?sb) ?q (Some 9)"
    unfolding valid_discovery_iff [OF len] by (simp add: unwrap_query_def toy_p256_def nth_append)
  ultimately have "heard ref_lib ?q (Some 9) [?p] = {SocketV4 0xC0A80105 WIFI_UNWRAP_PORT}"
    using len by (simp add: heard_Cons heard_endpoint_def isOk_iff)
  moreover have "discover_unwrap_endpoint ref_lib (replicate 16 1) (replicate 16 2) (toy_compressed 9) (replicate 32 3) 0 100 0
      [?p, ?z] = Some (discovery_result (heard ref_lib ?q (Some 9) [?p]))"
    by (rule unwrap_discovery_one_phone [OF _ _ _ k, THEN conjunct2, rule_format, where pre = "[?p]" and p = ?z and post = "[]"])
      simp_all
  ultimately show ?thesis
    by (intro exI [of _ "?e @ ?sb"]) (simp add: discovery_result_def del: ref_lib_simps)
qed

subsection \<open>The USB reverse rule\<close>

text \<open>C38: The commands a USB session gives to adb.  A connection either stops after listing devices or
  rules, or creates one reverse rule, on a device that was listed online as the requested (or the only)
  one and had no rule for the port; then it either returns a session with the rule active, after a
  second look at the device, or its last command is the removal of the rule.  An exchange looks at the
  device again and removes the rule, and passes the answer on only when both went well; cancelling and
  dropping remove a rule that is still active; the guard does nothing but remove the rule, and only
  when its pipe ends without the signal.\<close>

theorem adb_rule_discipline:
  "(adb_connect (logged E) requested purpose accepted limits sid (r, []) = ((r', l), res) \<longrightarrow>
      l = [devices_command] \<and> \<not> isOk res \<or> (\<exists>s. l = [devices_command, list_command s] \<and> \<not> isOk res) \<or>
      (\<exists>s port k. l = [devices_command, list_command s] @ k \<and> established_log purpose s port k res \<and>
         checked_device E requested s r)) \<and>
   (adb_exchange (logged E) p b (a, (r, l)) = ((a', (r', l')), answer) \<and> \<not> as_closed a \<longrightarrow>
      l' = l @ [devices_command] @ (if as_rule_active a then [remove_command (as_serial a) (as_reverse_spec a)] else []) \<and>
      (\<forall>m. answer = Inr m \<longrightarrow> \<not> as_rule_active a' \<and> snd (stream_exchange p b (as_stream a)) = Inr m)) \<and>
   (adb_cancel (logged E) (a, (r, l)) = (a', (r', l')) \<longrightarrow> as_closed a' \<and>
      l' = l @ (if as_rule_active a then [remove_command (as_serial a) (as_reverse_spec a)] else [])) \<and>
   (adb_drop (logged E) (a, (r, l)) = (a', (r', l')) \<longrightarrow>
      l' = l @ (if as_rule_active a then [remove_command (as_serial a) (as_reverse_spec a)] else [])) \<and>
   (cleanup_guard_from_reader (logged E) signal s timeout es (r, l) = Some ((r', l'), x) \<longrightarrow>
      (\<exists>n. l' = l @ replicate n (remove_command s REVERSE_SPEC) \<and> (n = 0 \<longleftrightarrow> signal = Some 68 \<or> \<not> valid_serial s)))"
  using adb_connect_log [of E requested purpose accepted limits sid r r' l res]
    adb_exchange_log [of E p b a r l a' r' l' answer] adb_cancel_log [of E a r l a' r' l']
    adb_drop_log [of E a r l a' r' l'] cleanup_guard_log [of E signal s timeout es r l r' l' x]
  by blast

definition sample_adb :: "unit adb_env" where
  "sample_adb = \<lparr> ae_run = (\<lambda>c r. (r, Inr (if c = devices_command then ''List of devices attached'' @ [NL] @ ''abc device'' else []))),
     ae_arm = (\<lambda>s r. (r, Inr True)), ae_listen = (\<lambda>r. (r, Inr 5000)), ae_options = (\<lambda>r. (r, Inr ())),
     ae_signal = (\<lambda>r. (r, Inr ())), ae_guard_exit = (\<lambda>r. (r, Inr ())) \<rparr>"

lemma sample_devices:
  "parse_devices (''List of devices attached'' @ [NL] @ ''abc device'') = Inr [\<lparr> serial = ''abc'', device_state = ''device'' \<rparr>]"
proof -
  have g: "graphic ''abc''" "graphic ''device''" by (simp_all add: graphic_def)
  have "split_whitespace (''abc'' @ CHR '' '' # ''device'' @ []) = [''abc'', ''device'']"
    using split_whitespace_word [OF g(1), of "CHR '' '' # ''device''"] split_whitespace_word [OF g(2), of "[]"]
    by (simp add: split_whitespace_space)
  then have "parse_device ''abc device'' = Inr \<lparr> serial = ''abc'', device_state = ''device'' \<rparr>"
    using g(1) by (simp add: parse_device_def valid_serial_def)
  moreover have "str_lines (''List of devices attached'' @ NL # ''abc device'') = [''List of devices attached'', ''abc device'']"
    by (subst str_lines_append) (simp_all add: strip_cr_def str_lines_last)
  moreover have "trim ''List of devices attached'' = ''List of devices attached''" "trim ''abc device'' = ''abc device''"
    by (rule trim_visible; simp add: visible_def)+
  ultimately show ?thesis by (simp add: parse_devices_def blank_def)
qed

lemma sample_run:
  "ae_run (logged sample_adb) c (r, l) = (((), l @ [c]), Inr (if c = devices_command
     then ''List of devices attached'' @ [NL] @ ''abc device'' else []))"
  "ae_arm (logged sample_adb) s (r, l) = (((), l), Inr True)" "ae_listen (logged sample_adb) (r, l) = (((), l), Inr 5000)"
  "ae_options (logged sample_adb) (r, l) = (((), l), Inr ())"
  by (simp_all add: sample_adb_def logged_def unlogged_def)

lemma sample_select:
  assumes "requested = None \<or> requested = Some ''abc''"
  shows "select_device (logged sample_adb) requested (r, l) = (((), l @ [devices_command]), Inr ''abc'')"
proof -
  have "choose_device requested [\<lparr> serial = ''abc'', device_state = ''device'' \<rparr>] = Inr ''abc''"
    using assms by (auto simp: choose_device_def valid_serial_def graphic_def)
  with sample_devices show ?thesis
    by (simp only: select_device_def list_devices_def bindS_def mapErrS_def sample_run liftS_def) simp
qed

lemma sample_adb_connects:
  "\<exists>l a. adb_connect (logged sample_adb) None UnwrapPurpose
     (Inr (\<lparr> inbound = [], outbound = [], io_script = [] \<rparr>, True)) default_limits (replicate 16 7) ((), []) = (((), l), Inr a)"
proof -
  have reject: "reject_existing_rule (logged sample_adb) ''abc'' spec (r, l) = (((), l @ [list_command ''abc'']), Inr ())" for spec r l
    by (simp add: reject_existing_rule_def bindS_def mapErrS_def sample_run devices_command_def list_command_def)
  have launch: "launch_android_unwrap (logged sample_adb) ''abc'' (r, l) = (((), l @ [launch_command ''abc'']), Inr ())" for r l
    by (simp add: launch_android_unwrap_def bindS_def mapErrS_def sample_run)
  have configure: "\<exists>t. adb_configure (logged sample_adb) ''abc'' s default_limits (replicate 16 7) (r, l) =
      (((), l @ [devices_command]), Inr t)" for s r l
    by (simp add: adb_configure_def ensure_same_online_device_def bindS_def mapErrS_def sample_run sample_select
        stream_session_new_def default_limits_def DEFAULT_MAX_MESSAGE_BYTES_def)
  have establish: "\<exists>l a. adb_establish (logged sample_adb) ''abc'' g port UnwrapPurpose (Inr (peer, True)) default_limits
      (replicate 16 7) (r, l0) = (((), l), Inr a)" for g port peer r l0
  proof -
    obtain t where t: "adb_configure (logged sample_adb) ''abc'' peer default_limits (replicate 16 7)
        (r, (l0 @ [create_command ''abc'' REVERSE_SPEC (tcp_spec port)]) @ [launch_command ''abc'']) =
        (((), ((l0 @ [create_command ''abc'' REVERSE_SPEC (tcp_spec port)]) @ [launch_command ''abc'']) @ [devices_command]), Inr t)"
      using configure by blast
    have "create_command ''abc'' REVERSE_SPEC (tcp_spec port) \<noteq> devices_command"
      by (simp add: create_command_def devices_command_def)
    with t show ?thesis
      unfolding adb_establish_def
      by (simp add: bindS_def tryS_def sample_run(1) launch del: append_assoc)
  qed
  have "select_device (logged sample_adb) None (r, l) = (((), l @ [devices_command]), Inr ''abc'')" for r l
    by (rule sample_select) simp
  then show ?thesis
    using establish by (simp add: adb_connect_def bindS_def mapErrS_def reject sample_run del: append_assoc)
qed

theorem adb_rule_discipline_witness:
  "\<exists>l a s port. adb_connect (logged sample_adb) None UnwrapPurpose
     (Inr (\<lparr> inbound = [], outbound = [], io_script = [] \<rparr>, True)) default_limits (replicate 16 7) ((), []) = (((), l), Inr a) \<and>
     l = [devices_command, list_command s, create_command s REVERSE_SPEC (tcp_spec port), launch_command s, devices_command] \<and>
     checked_device sample_adb None s ()"
proof -
  obtain l a where c: "adb_connect (logged sample_adb) None UnwrapPurpose
     (Inr (\<lparr> inbound = [], outbound = [], io_script = [] \<rparr>, True)) default_limits (replicate 16 7) ((), []) = (((), l), Inr a)"
    using sample_adb_connects by blast
  from adb_rule_discipline [THEN conjunct1, THEN mp, OF c]
  obtain s port k where "l = [devices_command, list_command s] @ k" "established_log UnwrapPurpose s port k (Inr a)"
    "checked_device sample_adb None s ()" by auto
  with c show ?thesis by (auto simp: established_log_def launch_log_of_def)
qed

subsection \<open>The camera\<close>

text \<open>What a scan by camera returns is the message announced by a frame it decoded before its
  timeout and before any cancellation.  And it returns a message shown as frames: when the camera works
  on, whatever texts it decodes before the first frame that belong to no transfer, and whatever other
  texts or repeated frames among the frames, in any order, with all frames seen within 30 seconds of the
  first and before the timeout.\<close>

theorem camera_scan_delivers:
  assumes L: "cbor_sized (minicbor L)" "base64_engine (url64 L)" "symmetric_laws (sym L)"
    and f: "fragmentable message n" "length transfer_id = TRANSFER_ID_BYTES"
    and x: "fragment_qr_message L message n transfer_id = Inr texts"
    and r: "0 < unat w * unat h" "unat w * unat h \<le> MAX_FRAME_PIXELS" "timeout < 2 ^ 64"
  shows "(\<forall>ps m. scan_camera L (w, h) timeout ps = Some (Inr m) \<longrightarrow>
      (\<exists>pre p post seen tx f. ps = pre @ p # post \<and> (\<forall>x \<in> set (pre @ [p]). \<not> cp_cancelled x) \<and>
         cp_image p = Inr seen \<and> tx \<in> set seen \<and> unat (cp_now p) \<le> timeout \<and>
         decode_text L tx = Inr f \<and> message_digest (sym L) m = fr_digest f \<and> length m = fr_total_len f)) \<and>
    (\<forall>ps pre s0 t0 ev post.
      (\<forall>p \<in> set ps. \<not> cp_cancelled p \<and> (\<exists>seen. cp_image p = Inr seen) \<and> unat (cp_now p) \<le> timeout) \<longrightarrow>
      concat (map pass_texts ps) = pre @ (s0, t0) # ev @ post \<longrightarrow>
      (\<forall>(tx, now) \<in> set pre. \<exists>e. decode_text L tx = Inl e) \<longrightarrow> s0 \<in> set texts \<longrightarrow>
      (\<forall>(s, t) \<in> set ev. (s \<in> set texts \<or> foreign L message n transfer_id s) \<and>
         unat t0 \<le> unat t \<and> unat t \<le> unat t0 + 30000) \<longrightarrow>
      set texts \<subseteq> fst ` set ((s0, t0) # ev) \<longrightarrow> \<not> set texts \<subseteq> fst ` set (butlast ((s0, t0) # ev)) \<longrightarrow>
      scan_camera L (w, h) timeout ps = Some (Inr message))"
  using camera_sound [of L "(w, h)" timeout] camera_receives [OF L f(1) _ x r] f(2)
  by (intro conjI allI impI) simp_all

theorem camera_scan_delivers_witness:
  "\<exists>tx. scan_camera ref_lib (640, 480) 60000
     [\<lparr> cp_cancelled = False, cp_now = 1, cp_image = Inr [''noise''] \<rparr>,
      \<lparr> cp_cancelled = False, cp_now = 5, cp_image = Inr [tx] \<rparr>] = Some (Inr [9])"
proof -
  have f: "fragmentable [9 :: byte] 1" by (simp add: fragmentable_def div_ceil_def)
  obtain texts where x: "fragment_qr_message ref_lib [9] 1 (replicate 16 7) = Inr texts" "length texts = div_ceil (length [9 :: byte]) 1"
    using qr_transfer_completes [OF ref_laws(3,8,7) f, of "replicate 16 7"] by auto
  then obtain a where t: "texts = [a]" by (auto simp: div_ceil_def length_Suc_conv)
  have noise: "decode_text ref_lib ''noise'' = Inl MalformedFrame"
    by (simp add: decode_text_def starts_with_def TEXT_PREFIX_def)
  let ?ps = "[\<lparr> cp_cancelled = False, cp_now = 1, cp_image = Inr [''noise''] \<rparr>,
      \<lparr> cp_cancelled = False, cp_now = 5, cp_image = Inr [a] \<rparr>] :: camera_pass list"
  have "scan_camera ref_lib (640, 480) 60000 ?ps = Some (Inr [9])"
    by (rule camera_scan_delivers [OF ref_laws(3,8,7) f _ x(1), THEN conjunct2, rule_format,
          where pre = "[(''noise'', 1)]" and ?s0.0 = a and ?t0.0 = 5 and ev = "[]" and post = "[]"])
      (auto simp: MAX_FRAME_PIXELS_def t pass_texts_def noise)
  then show ?thesis by blast
qed

end
