(* ===== verification/Os_Path.thy ===== *)
theory Os_Path
  imports Text_Lines Unix_Storage
begin

text \<open>
  \<open>PathBuf\<close> as text: the desktop crate stores paths as strings and joins file names to them.  The
  components of a path, as \<open>Path::components\<close> gives them on Unix, are the \<open>path\<close> of
  \<open>Unix_Storage\<close>; two \<open>PathBuf\<close>s are equal when their components are.
\<close>

type_synonym os_path = string

fun split_on :: "char \<Rightarrow> string \<Rightarrow> string list" where
  "split_on c [] = [[]]"
| "split_on c (d # s) =
     (if d = c then [] # split_on c s
      else case split_on c s of [] \<Rightarrow> [[d]] | w # ws \<Rightarrow> (d # w) # ws)"

definition path_is_absolute :: "os_path \<Rightarrow> bool" where
  "path_is_absolute s = starts_with s ''/''"

text \<open>Repeated separators and \<open>.\<close> vanish, except a leading \<open>.\<close> of a relative path.\<close>

definition path_of :: "os_path \<Rightarrow> path" where
  "path_of s =
     (let parts = filter (\<lambda>w. w \<noteq> []) (split_on (CHR ''/'') s)
      in \<lparr> absolute = path_is_absolute s,
           comps = (if path_is_absolute s then filter (\<lambda>w. w \<noteq> ''.'') parts
                    else take 1 parts @ filter (\<lambda>w. w \<noteq> ''.'') (drop 1 parts)) \<rparr>)"

definition path_eq :: "os_path \<Rightarrow> os_path \<Rightarrow> bool" where
  "path_eq a b \<longleftrightarrow> path_of a = path_of b"

text \<open>\<open>Path::join\<close>.\<close>

definition path_join :: "os_path \<Rightarrow> string \<Rightarrow> os_path" where
  "path_join base n =
     (if path_is_absolute n then n
      else if base = [] \<or> last base = CHR ''/'' then base @ n else base @ ''/'' @ n)"

definition path_has_file_name :: "os_path \<Rightarrow> bool" where
  "path_has_file_name s \<longleftrightarrow> file_name (path_of s) \<noteq> None"

subsection \<open>Joining a file name\<close>

definition plain_name :: "string \<Rightarrow> bool" where
  "plain_name n \<longleftrightarrow> n \<noteq> [] \<and> n \<noteq> ''.'' \<and> n \<noteq> ''..'' \<and> CHR ''/'' \<notin> set n"

lemma split_on_nonempty: "split_on c s \<noteq> []"
  by (cases s) (auto split: list.splits)

lemma split_on_single: "c \<notin> set s \<Longrightarrow> split_on c s = [s]"
  by (induction s) auto

lemma split_on_append: "split_on c (a @ c # b) = split_on c a @ split_on c b"
proof (induction a)
  case (Cons d a)
  then show ?case using split_on_nonempty [of c a] by (cases "split_on c a") auto
qed simp

lemma path_join_comps:
  assumes "path_is_absolute base" "plain_name n"
  shows "path_of (path_join base n) = join_path (path_of base) n" "path_is_absolute (path_join base n)"
proof -
  obtain b where b: "base = CHR ''/'' # b" using assms(1) by (auto simp: path_is_absolute_def starts_with_iff)
  have n: "split_on (CHR ''/'') n = [n]" "n \<noteq> []" "n \<noteq> ''.''" "\<not> path_is_absolute n"
    using assms(2) split_on_single [of "CHR ''/''" n]
    by (auto simp: plain_name_def path_is_absolute_def starts_with_iff)
  show "path_is_absolute (path_join base n)"
    using b n(4) by (simp add: path_join_def path_is_absolute_def starts_with_def)
  have "filter (\<lambda>w. w \<noteq> []) (split_on (CHR ''/'') (path_join base n)) =
      filter (\<lambda>w. w \<noteq> []) (split_on (CHR ''/'') base) @ [n]"
  proof (cases "last base = CHR ''/''")
    case True
    then obtain a where a: "base = a @ [CHR ''/'']" using b by (metis append_butlast_last_id list.distinct(1))
    have "split_on (CHR ''/'') base = split_on (CHR ''/'') a @ [[]]" unfolding a using split_on_append [of _ a "[]"] by simp
    moreover have "path_join base n = a @ CHR ''/'' # n" using True n(4) a by (simp add: path_join_def)
    ultimately show ?thesis using n by (simp add: split_on_append)
  next
    case False
    then have "path_join base n = base @ CHR ''/'' # n" using b n(4) by (simp add: path_join_def)
    with n show ?thesis by (simp add: split_on_append)
  qed
  with assms(1) \<open>path_is_absolute (path_join base n)\<close> n
  show "path_of (path_join base n) = join_path (path_of base) n" by (simp add: path_of_def join_path_def Let_def)
qed

lemma path_of_absolute [simp]: "absolute (path_of s) = path_is_absolute s"
  by (simp add: path_of_def Let_def)

end
