(* ===== verification/Private_File.thy ===== *)
theory Private_File
  imports Unix_Storage
begin

text \<open>
  The private files with a single link of \<open>crates/platform-storage/src/unix/private_file.rs\<close>, used
  by the desktop's locators: reading, creating, and the private directory they lie in.
\<close>

unbundle bit_operations_syntax

subsection \<open>Operations\<close>

datatype private_error = PrivateConfig | PrivateAlreadyExists | PrivateMissing | PrivateInvalid | PrivateStorage

definition private_reject_symlink :: "path \<Rightarrow> (fs, private_error, unit) step" where
  "private_reject_symlink p =
     bindS (tryS (symlink_metadata p)) (\<lambda>r. case r of
       Inr (Symlink _) \<Rightarrow> errS PrivateInvalid
     | Inr _ \<Rightarrow> retS ()
     | Inl NotFound \<Rightarrow> retS ()
     | Inl _ \<Rightarrow> errS PrivateInvalid)"

definition private_validate :: "node \<Rightarrow> (fs, private_error, unit) step" where
  "private_validate h =
     bindS (mapErrS (\<lambda>_. PrivateInvalid) (handle_metadata h)) (\<lambda>n. case n of
       Regular _ m k \<Rightarrow> failS (m AND 63 \<noteq> 0 \<or> k \<noteq> 0) PrivateInvalid
     | _ \<Rightarrow> errS PrivateInvalid)"

definition private_read :: "path \<Rightarrow> u64 \<Rightarrow> (fs, private_error, bytes) step" where
  "private_read p max_bytes =
     bindS (failS (unat max_bytes + 1 \<ge> 2 ^ 64) PrivateInvalid) (\<lambda>_.
     let read_limit = unat max_bytes + 1
     in bindS (private_reject_symlink p) (\<lambda>_.
        bindS (mapErrS (\<lambda>e. if e = NotFound then PrivateMissing else PrivateInvalid) (file_open p)) (\<lambda>h.
        bindS (private_validate h) (\<lambda>_.
        bindS (mapErrS (\<lambda>_. PrivateInvalid) (handle_metadata h)) (\<lambda>n.
        bindS (failS (case n of Regular b _ _ \<Rightarrow> length b > unat max_bytes | _ \<Rightarrow> False) PrivateInvalid) (\<lambda>_.
        bindS (mapErrS (\<lambda>_. PrivateInvalid) (handle_read h read_limit)) (\<lambda>b.
        bindS (failS (b = [] \<or> length b > unat max_bytes) PrivateInvalid) (\<lambda>_.
        retS b))))))))"

text \<open>\<open>create_dir_all\<close> makes the missing directories from the root down, with the mode of the usual
  mask 022; \<open>set_permissions\<close> follows a symbolic link.  Components are reversed in the recursion.\<close>

definition DIRECTORY_MODE :: u32 where "DIRECTORY_MODE = 493"

definition make_dir :: "path \<Rightarrow> (fs, io_error, unit) step" where
  "make_dir p = sys_update (\<lambda>m.
     if m p \<noteq> None then Inl AlreadyExists
     else case parent p of
       None \<Rightarrow> Inl AlreadyExists
     | Some d \<Rightarrow> (case resolve (m d) of
         None \<Rightarrow> Inl NotFound
       | Some n \<Rightarrow> if is_dir n then Inr (m(p \<mapsto> Dir DIRECTORY_MODE)) else Inl OtherError))"

definition path_is_dir :: "path \<Rightarrow> (fs, io_error, bool) step" where
  "path_is_dir p = bindS (tryS (metadata p)) (\<lambda>r. case r of Inl _ \<Rightarrow> retS False | Inr n \<Rightarrow> retS (is_dir n))"

definition make_dir_or_present :: "path \<Rightarrow> (fs, io_error, unit) step" where
  "make_dir_or_present p =
     bindS (tryS (make_dir p)) (\<lambda>r. case r of
       Inr _ \<Rightarrow> retS ()
     | Inl e \<Rightarrow> bindS (path_is_dir p) (\<lambda>d. if d then retS () else errS e))"

fun create_dir_all :: "bool \<Rightarrow> string list \<Rightarrow> (fs, io_error, unit) step" where
  "create_dir_all a [] = make_dir_or_present \<lparr> absolute = a, comps = [] \<rparr>"
| "create_dir_all a (c # cs) = (let p = \<lparr> absolute = a, comps = rev (c # cs) \<rparr> in
     bindS (tryS (make_dir p)) (\<lambda>r. case r of
       Inr _ \<Rightarrow> retS ()
     | Inl NotFound \<Rightarrow> bindS (create_dir_all a cs) (\<lambda>_. make_dir_or_present p)
     | Inl e \<Rightarrow> bindS (path_is_dir p) (\<lambda>d. if d then retS () else errS e)))"

fun with_mode :: "u32 \<Rightarrow> node \<Rightarrow> node" where
  "with_mode md (Dir _) = Dir md"
| "with_mode md (Regular b _ k) = Regular b md k"
| "with_mode md (Symlink t) = Symlink (map_option (\<lambda>n. case n of Dir _ \<Rightarrow> Dir md | Regular b _ k \<Rightarrow> Regular b md k | x \<Rightarrow> x) t)"

definition set_permissions :: "path \<Rightarrow> u32 \<Rightarrow> (fs, io_error, unit) step" where
  "set_permissions p md = sys_update (\<lambda>m. case m p of
     None \<Rightarrow> Inl NotFound
   | Some n \<Rightarrow> if resolve (Some n) = None then Inl NotFound else Inr (m(p \<mapsto> with_mode md n)))"

definition private_checked_directory :: "path \<Rightarrow> (fs, private_error, path) step" where
  "private_checked_directory root =
     bindS (private_reject_symlink root) (\<lambda>_.
     bindS (mapErrS (\<lambda>_. PrivateConfig) (metadata root)) (\<lambda>n.
     bindS (failS (case n of Dir md \<Rightarrow> md AND 63 \<noteq> 0 | _ \<Rightarrow> True) PrivateConfig) (\<lambda>_.
     retS root)))"

definition private_prepare_directory :: "path \<Rightarrow> (fs, private_error, path) step" where
  "private_prepare_directory root =
     bindS (failS (\<not> absolute root) PrivateConfig) (\<lambda>_.
     bindS (mapErrS (\<lambda>_. PrivateConfig) (create_dir_all True (rev (comps root)))) (\<lambda>_.
     bindS (mapErrS (\<lambda>_. PrivateConfig) (set_permissions root 448)) (\<lambda>_.
     private_checked_directory root)))"

text \<open>After the writes the handle is validated; when that fails the file stays.\<close>

definition private_create :: "path \<Rightarrow> bytes \<Rightarrow> (fs, private_error, unit) step" where
  "private_create p b =
     bindS (mapErrS (\<lambda>e. if e = AlreadyExists then PrivateAlreadyExists else PrivateStorage) (open_new_as PRIVATE_MODE p)) (\<lambda>_.
     bindS (tryS (bindS (write_new_as PRIVATE_MODE p b) (\<lambda>_. sync_all))) (\<lambda>w. case w of
       Inl _ \<Rightarrow> bindS (tryS (remove_file p)) (\<lambda>_. errS PrivateStorage)
     | Inr _ \<Rightarrow> private_validate (Regular b PRIVATE_MODE 0)))"

definition private_sync_directory :: "path \<Rightarrow> (fs, private_error, unit) step" where
  "private_sync_directory p = mapErrS (\<lambda>_. PrivateStorage) (bindS (file_open p) (\<lambda>_. sync_all))"

subsection \<open>What they touch\<close>

lemma private_reject_symlink_same: "private_reject_symlink p f = (t, r) \<Longrightarrow> nodes t = nodes f \<and> locks t = locks f"
  by (auto simp: private_reject_symlink_def bindS_tryS symlink_metadata_def
    split: prod.splits sum.splits node.splits io_error.splits dest!: sys_read_same)

lemma private_reject_symlink_ok: "private_reject_symlink p f = (t, Inr u) \<Longrightarrow> \<nexists>n. nodes f p = Some (Symlink n)"
  by (auto simp: private_reject_symlink_def bindS_tryS symlink_metadata_def sys_read_def okOr_def
    split: prod.splits option.splits dest!: next_fault_same)

lemma private_validate_ok:
  "private_validate h f = (t, Inr u) \<Longrightarrow> nodes t = nodes f \<and> locks t = locks f \<and> (\<exists>b m. h = Regular b m 0 \<and> m AND 63 = 0)"
  by (auto simp: private_validate_def bindS_def mapErrS_def handle_metadata_def sys_read_def failIf_def
    split: node.splits prod.splits sum.splits if_splits option.splits dest!: next_fault_same)

lemma private_validate_same: "private_validate h f = (t, r) \<Longrightarrow> nodes t = nodes f \<and> locks t = locks f"
  by (auto simp: private_validate_def bindS_def mapErrS_def handle_metadata_def failIf_def
    split: node.splits prod.splits sum.splits if_splits dest!: sys_read_same)

text \<open>What is read is the whole of a private file that has no other name.\<close>

lemma private_read_ok:
  assumes "private_read p limit f = (t, Inr b)"
  shows "nodes t = nodes f \<and> locks t = locks f \<and> b \<noteq> [] \<and> length b \<le> unat limit
    \<and> (\<exists>m. nodes f p = Some (Regular b m 0) \<and> m AND 63 = 0)"
proof -
  from assms obtain f1 f2 f3 f4 u v h n where s: "private_reject_symlink p f = (f1, Inr u)" "file_open p f1 = (f2, Inr h)"
    "private_validate h f2 = (f3, Inr v)" "handle_metadata h f3 = (f4, Inr n)"
    "\<not> (case n of Regular b _ _ \<Rightarrow> length b > unat limit | _ \<Rightarrow> False)"
    "handle_read h (unat limit + 1) f4 = (t, Inr b)" "b \<noteq> []" "length b \<le> unat limit"
    by (auto simp: private_read_def bindS_Inr_iff mapErrS_Inr_iff failIf_Inr_iff Let_def not_less)
  obtain b' m where h: "h = Regular b' m 0" "m AND 63 = 0" and f3: "nodes f3 = nodes f2" "locks f3 = locks f2"
    using private_validate_ok [OF s(3)] by blast
  have n: "n = h" using sys_read_ok [OF s(4) [unfolded handle_metadata_def]] by simp
  have "b = b'" using sys_read_ok [OF s(6) [unfolded handle_read_def]] s(5) n h by simp
  moreover have "resolve (nodes f1 p) = Some h"
    using sys_read_ok [OF s(2) [unfolded file_open_def]] by (simp add: okOr_def split: option.splits)
  moreover have "nodes f1 = nodes f" "locks f1 = locks f" "nodes t = nodes f" "locks t = locks f"
    using private_reject_symlink_same [OF s(1)] sys_read_same [OF s(2) [unfolded file_open_def]] f3
      sys_read_same [OF s(4) [unfolded handle_metadata_def]] sys_read_same [OF s(6) [unfolded handle_read_def]] by simp_all
  ultimately show ?thesis using private_reject_symlink_ok [OF s(1)] h s(7,8)
    by (cases "nodes f p" rule: resolve.cases) auto
qed

lemma keeps_private_reject_symlink [intro]: "keeps (\<lambda>f. P (nodes f)) (private_reject_symlink q)"
  unfolding keeps_def using private_reject_symlink_same by (metis prod.collapse)

lemma keeps_private_validate [intro]: "keeps (\<lambda>f. P (nodes f)) (private_validate h)"
  unfolding keeps_def using private_validate_same by (metis prod.collapse)

lemma keeps_private_read [intro]: "keeps (\<lambda>f. P (nodes f)) (private_read q n)"
  unfolding private_read_def file_open_def handle_metadata_def handle_read_def Let_def
  by (intro keeps_bindS keeps_mapErrS keeps_private_reject_symlink keeps_sys_read keeps_private_validate keeps_simps)

lemma keeps_private_checked_directory [intro]: "keeps (\<lambda>f. P (nodes f)) (private_checked_directory q)"
  unfolding private_checked_directory_def metadata_def
  by (intro keeps_bindS keeps_mapErrS keeps_private_reject_symlink keeps_sys_read keeps_simps)

lemma private_checked_directory_ok:
  assumes "private_checked_directory p f = (t, Inr q)"
  shows "q = p \<and> nodes t = nodes f \<and> (\<exists>md. nodes f p = Some (Dir md) \<and> md AND 63 = 0)"
proof -
  from assms obtain f1 f2 u n where s: "private_reject_symlink p f = (f1, Inr u)" "metadata p f1 = (f2, Inr n)"
    "\<not> (case n of Dir md \<Rightarrow> md AND 63 \<noteq> 0 | _ \<Rightarrow> True)" "t = f2" "q = p"
    by (auto simp: private_checked_directory_def bindS_Inr_iff mapErrS_Inr_iff failIf_Inr_iff)
  have "resolve (nodes f1 p) = Some n" using sys_read_ok [OF s(2) [unfolded metadata_def]] by (simp add: okOr_Inr_iff)
  with s private_reject_symlink_same [OF s(1)] private_reject_symlink_ok [OF s(1)] sys_read_same [OF s(2) [unfolded metadata_def]]
  show ?thesis by (cases "nodes f p" rule: resolve.cases) (auto split: node.splits)
qed

text \<open>A file is created only where there was none, complete and private.\<close>

lemma private_create_ok:
  assumes "private_create p b f = (t, Inr u)"
  shows "nodes f p = None \<and> nodes t = (nodes f)(p \<mapsto> Regular b PRIVATE_MODE 0) \<and> locks t = locks f"
proof -
  from assms obtain g where g: "open_new_as PRIVATE_MODE p f = (g, Inr ())"
    by (auto simp: private_create_def bindS_Inr_iff mapErrS_Inr_iff)
  obtain h w where h: "bindS (write_new_as PRIVATE_MODE p b) (\<lambda>_. sync_all) g = (h, w)" by fastforce
  show ?thesis
  proof (cases w)
    case (Inl x)
    with assms g h show ?thesis by (simp add: private_create_def bindS_run mapErrS_def bindS_tryS split: prod.splits)
  next
    case (Inr v)
    with assms g h have "private_validate (Regular b PRIVATE_MODE 0) h = (t, Inr u)"
      by (simp add: private_create_def bindS_def mapErrS_def tryS_def)
    moreover from h Inr obtain k where "write_new_as PRIVATE_MODE p b g = (k, Inr ())" "sync_all k = (h, Inr v)"
      by (auto simp: bindS_Inr_iff)
    ultimately show ?thesis
      using open_create_new_ok [OF g] write_all_ok sync_all_same private_validate_same by (simp; blast?)
  qed
qed

subsection \<open>Runs without faults\<close>

lemma private_reject_symlink_run:
  "faults f = [] \<Longrightarrow> \<nexists>t. nodes f p = Some (Symlink t) \<Longrightarrow> private_reject_symlink p f = (f, Inr ())"
  by (cases "nodes f p")
    (auto simp: private_reject_symlink_def bindS_tryS symlink_metadata_def sys_read_run okOr_def split: node.splits)

lemma private_read_run:
  assumes "faults f = []" "nodes f p = Some (Regular b m 0)" "m AND 63 = 0" "b \<noteq> []" "length b \<le> unat limit"
    and "unat limit + 1 < 2 ^ 64"
  shows "private_read p limit f = (f, Inr b)"
  using assms private_reject_symlink_run [of f p]
  by (simp add: private_read_def bindS_def mapErrS_def file_open_def handle_metadata_def handle_read_def private_validate_def
      sys_read_run okOr_def failIf_def Let_def)

lemma private_read_missing:
  "faults f = [] \<Longrightarrow> nodes f p = None \<Longrightarrow> unat limit + 1 < 2 ^ 64 \<Longrightarrow> private_read p limit f = (f, Inl PrivateMissing)"
  using private_reject_symlink_run [of f p]
  by (simp add: private_read_def bindS_def mapErrS_def file_open_def sys_read_run okOr_def failIf_def Let_def)

lemma private_checked_directory_run:
  "faults f = [] \<Longrightarrow> nodes f p = Some (Dir md) \<Longrightarrow> md AND 63 = 0 \<Longrightarrow> private_checked_directory p f = (f, Inr p)"
  using private_reject_symlink_run [of f p]
  by (simp add: private_checked_directory_def bindS_def mapErrS_def metadata_def sys_read_run okOr_def)

lemma private_create_run:
  "faults f = [] \<Longrightarrow> nodes f p = None \<Longrightarrow>
    private_create p b f = (f\<lparr> nodes := (nodes f)(p \<mapsto> Regular b PRIVATE_MODE 0) \<rparr>, Inr ())"
  by (simp add: private_create_def bindS_def mapErrS_def tryS_def open_new_as_def sys_update_run write_new_as_def
      next_fault_none sync_all_def sys_read_run private_validate_def handle_metadata_def)

text \<open>An existing directory is made private and kept.\<close>

lemma private_prepare_run:
  assumes "faults f = []" "absolute p" "nodes f p = Some (Dir md)"
  shows "private_prepare_directory p f = (f\<lparr> nodes := (nodes f)(p \<mapsto> Dir 448) \<rparr>, Inr p)"
proof -
  have p: "\<lparr> absolute = True, comps = comps p \<rparr> = p" using assms(2) by (cases p) simp
  have "create_dir_all True (rev (comps p)) f = (f, Inr ())"
  proof (cases "rev (comps p)")
    case Nil
    with p have "\<lparr> absolute = True, comps = [] \<rparr> = p" by simp
    with assms show ?thesis unfolding Nil
      by (simp add: make_dir_or_present_def bindS_def tryS_def make_dir_def sys_update_run path_is_dir_def metadata_def
          sys_read_run okOr_def)
  next
    case (Cons c cs)
    with p have "\<lparr> absolute = True, comps = rev (c # cs) \<rparr> = p" by (metis rev_rev_ident)
    with assms show ?thesis unfolding Cons create_dir_all.simps
      by (simp add: bindS_def tryS_def make_dir_def sys_update_run path_is_dir_def metadata_def sys_read_run okOr_def Let_def)
  qed
  with assms show ?thesis
    by (simp add: private_prepare_directory_def bindS_def mapErrS_def set_permissions_def sys_update_run
        private_checked_directory_run [of "f\<lparr> nodes := (nodes f)(p \<mapsto> Dir 448) \<rparr>" p 448, simplified])
qed

end
