(* ===== verification/Locator.thy ===== *)
theory Locator
  imports Os_Path Private_File Pairing_Stub Transport_Policy
begin

text \<open>
  The private locator records of \<open>crates/desktop/src/locator.rs\<close> (the Unix variant): the codec of a
  record, its legacy form, its file name, and creating and opening the record of a stub.
\<close>

subsection \<open>Data\<close>

datatype locator_error =
    LocatorConfig | LocatorAlreadyExists | LocatorMissing | LocatorInvalid | LocatorCleanupPending
  | LocatorSetupPending | LocatorStorage

record pairing_locator =
  pl_desktop_state :: os_path
  pl_replay_state :: os_path
  pl_transport :: transport_choice

record locator_record =
  lr_desktop_id :: bytes
  lr_identity_id :: bytes
  lr_transcript_fingerprint :: bytes
  lr_locator :: pairing_locator

definition LOCATOR_VERSION :: u16 where "LOCATOR_VERSION = 3"

definition LEGACY_LOCATOR_VERSION :: u16 where "LEGACY_LOCATOR_VERSION = 2"

definition MAX_LOCATOR_BYTES :: u64 where "MAX_LOCATOR_BYTES = 4096"

definition locator_error_from :: "private_error \<Rightarrow> locator_error" where
  "locator_error_from e = (case e of
     PrivateConfig \<Rightarrow> LocatorConfig | PrivateAlreadyExists \<Rightarrow> LocatorAlreadyExists
   | PrivateMissing \<Rightarrow> LocatorMissing | PrivateInvalid \<Rightarrow> LocatorInvalid | PrivateStorage \<Rightarrow> LocatorStorage)"

subsection \<open>The codec\<close>

text \<open>\<open>to_str().filter(no line feed)\<close>.\<close>

definition encoded_locator_path :: "os_path \<Rightarrow> (locator_error, string) result" where
  "encoded_locator_path p = (if utf8_valid p \<and> NL \<notin> set p then Inr p else Inl LocatorInvalid)"

definition encode_record :: "cbor \<Rightarrow> locator_record \<Rightarrow> (locator_error, bytes) result" where
  "encode_record cb r =
     bindE (encoded_locator_path (pl_desktop_state (lr_locator r))) (\<lambda>desktop.
     bindE (encoded_locator_path (pl_replay_state (lr_locator r))) (\<lambda>replay.
     Inr (e_array cb 7 @ e_u16 cb LOCATOR_VERSION @ e_bytes cb (lr_desktop_id r) @ e_bytes cb (lr_identity_id r) @
          e_bytes cb (lr_transcript_fingerprint r) @ e_str cb desktop @ e_str cb replay @
          e_str cb (choice_display (pl_transport (lr_locator r))))))"

definition encode_legacy_record :: "cbor \<Rightarrow> locator_record \<Rightarrow> (locator_error, bytes) result" where
  "encode_legacy_record cb r =
     bindE (encoded_locator_path (pl_desktop_state (lr_locator r))) (\<lambda>desktop.
     bindE (encoded_locator_path (pl_replay_state (lr_locator r))) (\<lambda>replay.
     Inr (e_array cb 6 @ e_u16 cb LEGACY_LOCATOR_VERSION @ e_bytes cb (lr_desktop_id r) @ e_bytes cb (lr_identity_id r) @
          e_bytes cb (lr_transcript_fingerprint r) @ e_str cb desktop @ e_str cb replay)))"

definition locator_fixed :: "cbor \<Rightarrow> nat \<Rightarrow> bytes \<Rightarrow> (locator_error, bytes \<times> bytes) result" where
  "locator_fixed cb n d =
     bindE (okOr LocatorInvalid (d_bytes cb d)) (\<lambda>(b, d).
     if length b = n then Inr (b, d) else Inl LocatorInvalid)"

definition decode_transport :: "cbor \<Rightarrow> u16 \<Rightarrow> bytes \<Rightarrow> (locator_error, transport_choice \<times> bytes) result" where
  "decode_transport cb version d =
     (if version = LOCATOR_VERSION
      then bindE (okOr LocatorInvalid (d_str cb d)) (\<lambda>(t, d).
           bindE (okOr LocatorInvalid (choice_from_str t)) (\<lambda>c. Inr (c, d)))
      else Inr (AutoChoice, d))"

text \<open>The last check: nothing left, the canonical bytes, absolute paths.\<close>

definition check_record :: "cbor \<Rightarrow> u16 \<Rightarrow> bytes \<Rightarrow> bytes \<Rightarrow> locator_record \<Rightarrow> (locator_error, locator_record) result" where
  "check_record cb version b d r =
     bindE (failIf (d \<noteq> []) LocatorInvalid) (\<lambda>_.
     bindE (if version = LOCATOR_VERSION then encode_record cb r else encode_legacy_record cb r) (\<lambda>again.
     bindE (failIf (again \<noteq> b \<or> \<not> path_is_absolute (pl_desktop_state (lr_locator r)) \<or>
       \<not> path_is_absolute (pl_replay_state (lr_locator r))) LocatorInvalid) (\<lambda>_.
     Inr r)))"

definition decode_record :: "cbor \<Rightarrow> bytes \<Rightarrow> (locator_error, locator_record) result" where
  "decode_record cb b =
     bindE (okOr LocatorInvalid (d_array cb b)) (\<lambda>(fields, d).
     bindE (okOr LocatorInvalid (d_u16 cb d)) (\<lambda>(version, d).
     bindE (failIf (\<not> (fields = Some 7 \<and> version = LOCATOR_VERSION \<or> fields = Some 6 \<and> version = LEGACY_LOCATOR_VERSION))
       LocatorInvalid) (\<lambda>_.
     bindE (locator_fixed cb 16 d) (\<lambda>(desktop_id, d).
     bindE (locator_fixed cb 16 d) (\<lambda>(identity_id, d).
     bindE (locator_fixed cb 32 d) (\<lambda>(fingerprint, d).
     bindE (okOr LocatorInvalid (d_str cb d)) (\<lambda>(desktop, d).
     bindE (okOr LocatorInvalid (d_str cb d)) (\<lambda>(replay, d).
     bindE (decode_transport cb version d) (\<lambda>(transport, d).
     check_record cb version b d
       \<lparr> lr_desktop_id = desktop_id, lr_identity_id = identity_id, lr_transcript_fingerprint = fingerprint,
         lr_locator = \<lparr> pl_desktop_state = desktop, pl_replay_state = replay, pl_transport = transport \<rparr> \<rparr>)))))))))"

definition locator_encode :: "cbor \<Rightarrow> public_identity_stub \<Rightarrow> pairing_locator \<Rightarrow> (locator_error, bytes) result" where
  "locator_encode cb stub l = encode_record cb \<lparr> lr_desktop_id = sb_desktop_id stub, lr_identity_id = sb_identity_id stub,
     lr_transcript_fingerprint = sb_transcript_fingerprint stub, lr_locator = l \<rparr>"

definition locator_decode :: "cbor \<Rightarrow> public_identity_stub \<Rightarrow> bytes \<Rightarrow> (locator_error, pairing_locator) result" where
  "locator_decode cb stub b =
     bindE (decode_record cb b) (\<lambda>r.
     bindE (failIf (lr_desktop_id r \<noteq> sb_desktop_id stub \<or> lr_identity_id r \<noteq> sb_identity_id stub \<or>
       lr_transcript_fingerprint r \<noteq> sb_transcript_fingerprint stub) LocatorInvalid) (\<lambda>_.
     Inr (lr_locator r)))"

subsection \<open>Paths\<close>

definition locator_name :: "public_identity_stub \<Rightarrow> string" where
  "locator_name stub = hex (sb_identity_id stub) @ ''-'' @ hex (sb_desktop_id stub) @ ''.cbor''"

definition pairing_locator_path :: "os_path \<Rightarrow> public_identity_stub \<Rightarrow> os_path" where
  "pairing_locator_path root stub = path_join root (locator_name stub)"

definition legacy_pairing_locator_path :: "os_path \<Rightarrow> public_identity_stub \<Rightarrow> os_path" where
  "legacy_pairing_locator_path root stub = path_join root (hex (sb_identity_id stub) @ ''.cbor'')"

text \<open>\<open>default_config_root\<close> on Linux, over the values of the three environment variables.\<close>

definition default_config_root ::
    "os_path option \<Rightarrow> os_path option \<Rightarrow> os_path option \<Rightarrow> (locator_error, os_path) result" where
  "default_config_root override home xdg =
     (case override of
        Some value \<Rightarrow> if path_is_absolute value then Inr value else Inl LocatorConfig
      | None \<Rightarrow>
          bindE (okOr LocatorConfig (case home of Some h \<Rightarrow> if path_is_absolute h then Some h else None | None \<Rightarrow> None)) (\<lambda>home.
          Inr (path_join (case xdg of
              Some x \<Rightarrow> if path_is_absolute x then x else path_join home ''.config''
            | None \<Rightarrow> path_join home ''.config'') ''age-plugin-phone'')))"

subsection \<open>Creating and opening\<close>

text \<open>On Linux no lifecycle journal exists, so neither check can fail; \<open>validate_layout\<close> accepts
  every layout.\<close>

definition ensure_not_pending :: "os_path \<Rightarrow> public_identity_stub \<Rightarrow> (fs, locator_error, unit) step" where
  "ensure_not_pending root stub = retS ()"

definition setup_available :: "os_path \<Rightarrow> public_identity_stub \<Rightarrow> (fs, locator_error, unit) step" where
  "setup_available root stub = retS ()"

definition validate_layout :: "os_path \<Rightarrow> pairing_locator \<Rightarrow> (locator_error, unit) result" where
  "validate_layout root l = Inr ()"

text \<open>\<open>absolute_existing\<close>: what \<open>current_dir\<close> and \<open>canonicalize\<close> return are arguments.\<close>

definition absolute_existing ::
    "os_path option \<Rightarrow> (os_path \<Rightarrow> os_path option) \<Rightarrow> os_path \<Rightarrow> (locator_error, os_path) result" where
  "absolute_existing cwd canonicalize p =
     bindE (if path_is_absolute p then Inr p
            else bindE (okOr LocatorConfig cwd) (\<lambda>d. Inr (path_join d p))) (\<lambda>abs.
     okOr LocatorInvalid (canonicalize abs))"

definition create_pairing_locator_with_transport ::
    "cbor \<Rightarrow> os_path option \<Rightarrow> (os_path \<Rightarrow> os_path option) \<Rightarrow> os_path \<Rightarrow> public_identity_stub \<Rightarrow> os_path \<Rightarrow> os_path \<Rightarrow>
     transport_choice \<Rightarrow> (fs, locator_error, os_path) step" where
  "create_pairing_locator_with_transport cb cwd canonicalize root stub desktop_state replay_state transport =
     bindS (mapErrS locator_error_from (private_prepare_directory (path_of root))) (\<lambda>_.
     bindS (ensure_not_pending root stub) (\<lambda>_.
     let path = pairing_locator_path root stub
     in bindS (liftS (absolute_existing cwd canonicalize desktop_state)) (\<lambda>desktop.
        bindS (liftS (absolute_existing cwd canonicalize replay_state)) (\<lambda>replay.
        let l = \<lparr> pl_desktop_state = desktop, pl_replay_state = replay, pl_transport = transport \<rparr>
        in bindS (liftS (validate_layout root l)) (\<lambda>_.
           bindS (liftS (locator_encode cb stub l)) (\<lambda>encoded.
           bindS (mapErrS locator_error_from (private_create (path_of path) encoded)) (\<lambda>_.
           bindS (mapErrS locator_error_from (private_sync_directory (path_of root))) (\<lambda>_.
           retS path))))))))"

definition create_pairing_locator ::
    "cbor \<Rightarrow> os_path option \<Rightarrow> (os_path \<Rightarrow> os_path option) \<Rightarrow> os_path \<Rightarrow> public_identity_stub \<Rightarrow> os_path \<Rightarrow> os_path \<Rightarrow>
     (fs, locator_error, os_path) step" where
  "create_pairing_locator cb cwd canonicalize root stub desktop_state replay_state =
     create_pairing_locator_with_transport cb cwd canonicalize root stub desktop_state replay_state AutoChoice"

definition read_locator_file :: "os_path \<Rightarrow> (fs, locator_error, bytes) step" where
  "read_locator_file p = mapErrS locator_error_from (private_read (path_of p) MAX_LOCATOR_BYTES)"

fun open_first ::
    "cbor \<Rightarrow> os_path \<Rightarrow> public_identity_stub \<Rightarrow> os_path list \<Rightarrow> (fs, locator_error, os_path \<times> pairing_locator) step" where
  "open_first cb root stub [] = errS LocatorMissing"
| "open_first cb root stub (p # ps) =
     bindS (tryS (read_locator_file p)) (\<lambda>r. case r of
       Inr b \<Rightarrow>
         bindS (liftS (locator_decode cb stub b)) (\<lambda>l.
         bindS (liftS (validate_layout root l)) (\<lambda>_. retS (p, l)))
     | Inl e \<Rightarrow> if e = LocatorMissing then open_first cb root stub ps else errS e)"

definition open_pairing_locator_record ::
    "cbor \<Rightarrow> os_path \<Rightarrow> public_identity_stub \<Rightarrow> (fs, locator_error, os_path \<times> pairing_locator) step" where
  "open_pairing_locator_record cb root stub =
     bindS (mapErrS locator_error_from (private_checked_directory (path_of root))) (\<lambda>_.
     bindS (ensure_not_pending root stub) (\<lambda>_.
     bindS (setup_available root stub) (\<lambda>_.
     open_first cb root stub [pairing_locator_path root stub, legacy_pairing_locator_path root stub])))"

definition open_pairing_locator :: "cbor \<Rightarrow> os_path \<Rightarrow> public_identity_stub \<Rightarrow> (fs, locator_error, pairing_locator) step" where
  "open_pairing_locator cb root stub = bindS (open_pairing_locator_record cb root stub) (\<lambda>(_, l). retS l)"

subsection \<open>The codec is strict\<close>

definition locator_path_ok :: "os_path \<Rightarrow> bool" where
  "locator_path_ok p \<longleftrightarrow> utf8_valid p \<and> NL \<notin> set p \<and> path_is_absolute p"

definition wf_locator_record :: "locator_record \<Rightarrow> bool" where
  "wf_locator_record r \<longleftrightarrow> length (lr_desktop_id r) = 16 \<and> length (lr_identity_id r) = 16 \<and>
     length (lr_transcript_fingerprint r) = 32 \<and>
     locator_path_ok (pl_desktop_state (lr_locator r)) \<and> locator_path_ok (pl_replay_state (lr_locator r))"

lemma locator_fixed_rt:
  assumes "cbor_codec cb" "length b = n" "n < 2 ^ 64" shows "locator_fixed cb n (e_bytes cb b @ r) = Inr (b, r)"
  using cbor_codec.bytes_rt [OF assms(1), of b r] assms(2,3) by (simp add: locator_fixed_def)

lemma locator_fixed_length: "locator_fixed cb n d = Inr (b, r) \<Longrightarrow> length b = n"
  by (auto simp: locator_fixed_def result_iff split: if_splits)

lemma check_record_iff:
  "check_record cb v b d r = Inr r' \<longleftrightarrow> r' = r \<and> d = [] \<and>
     (if v = LOCATOR_VERSION then encode_record cb r else encode_legacy_record cb r) = Inr b \<and>
     path_is_absolute (pl_desktop_state (lr_locator r)) \<and> path_is_absolute (pl_replay_state (lr_locator r))"
  unfolding check_record_def bindE_Inr_iff failIf_Inr_iff by auto

lemma encode_record_paths:
  "encode_record cb r = Inr b \<or> encode_legacy_record cb r = Inr b \<Longrightarrow>
     utf8_valid (pl_desktop_state (lr_locator r)) \<and> NL \<notin> set (pl_desktop_state (lr_locator r)) \<and>
     utf8_valid (pl_replay_state (lr_locator r)) \<and> NL \<notin> set (pl_replay_state (lr_locator r))"
  by (auto simp: encode_record_def encode_legacy_record_def encoded_locator_path_def result_iff split: if_splits)

lemma decode_record_sound:
  assumes "decode_record cb b = Inr r"
  shows "wf_locator_record r \<and>
    (encode_record cb r = Inr b \<or> pl_transport (lr_locator r) = AutoChoice \<and> encode_legacy_record cb r = Inr b)"
proof -
  from assms obtain v d2 i d3 j d4 h d5 p q d7 t d8 where s: "locator_fixed cb 16 d2 = Inr (i, d3)"
    "locator_fixed cb 16 d3 = Inr (j, d4)" "locator_fixed cb 32 d4 = Inr (h, d5)" "decode_transport cb v d7 = Inr (t, d8)"
    and c: "check_record cb v b d8 \<lparr> lr_desktop_id = i, lr_identity_id = j, lr_transcript_fingerprint = h,
      lr_locator = \<lparr> pl_desktop_state = p, pl_replay_state = q, pl_transport = t \<rparr> \<rparr> = Inr r"
    unfolding decode_record_def by (auto simp: bindE_Inr_iff)
  have r: "r = \<lparr> lr_desktop_id = i, lr_identity_id = j, lr_transcript_fingerprint = h,
      lr_locator = \<lparr> pl_desktop_state = p, pl_replay_state = q, pl_transport = t \<rparr> \<rparr>"
    and e: "(if v = LOCATOR_VERSION then encode_record cb r else encode_legacy_record cb r) = Inr b"
    "path_is_absolute p" "path_is_absolute q"
    using c unfolding check_record_iff by auto
  have l: "length i = 16" "length j = 16" "length h = 32" using s(1-3) locator_fixed_length by blast+
  have "v = LOCATOR_VERSION \<or> t = AutoChoice" using s(4) by (auto simp: decode_transport_def split: if_splits)
  moreover have "encode_record cb r = Inr b \<or> encode_legacy_record cb r = Inr b" using e(1) by (auto split: if_splits)
  ultimately show ?thesis
    using e encode_record_paths [of cb r b] l by (auto simp: r wf_locator_record_def locator_path_ok_def split: if_splits)
qed

lemma choice_text_rt:
  assumes "cbor_codec cb" shows "d_str cb (e_str cb (choice_display c)) = Some (choice_display c, [])"
  using cbor_codec.str_rt [OF assms choice_display_text(1), of c "[]"] choice_display_text(2) [of c] by simp

lemma decode_record_complete:
  assumes c: "cbor_codec cb" and w: "wf_locator_record r"
    and l: "length (pl_desktop_state (lr_locator r)) < 2 ^ 64" "length (pl_replay_state (lr_locator r)) < 2 ^ 64"
    and b: "encode_record cb r = Inr b \<or> pl_transport (lr_locator r) = AutoChoice \<and> encode_legacy_record cb r = Inr b"
  shows "decode_record cb b = Inr r"
proof -
  note w' = w [unfolded wf_locator_record_def locator_path_ok_def]
  note k = cbor_codec.array_rt [OF c] cbor_codec.u16_rt [OF c] locator_fixed_rt [OF c]
    cbor_codec.str_rt [OF c] choice_text_rt [OF c] cbor_codec.str_rt [OF c, where r = "[]", simplified]
  have f: "choice_from_str (choice_display t) = Some t" for t by (simp add: choice_from_str_iff)
  have r: "\<lparr> lr_desktop_id = lr_desktop_id r, lr_identity_id = lr_identity_id r,
      lr_transcript_fingerprint = lr_transcript_fingerprint r,
      lr_locator = \<lparr> pl_desktop_state = pl_desktop_state (lr_locator r), pl_replay_state = pl_replay_state (lr_locator r),
        pl_transport = pl_transport (lr_locator r) \<rparr> \<rparr> = r" by simp
  have v: "LEGACY_LOCATOR_VERSION \<noteq> LOCATOR_VERSION" by (simp add: LOCATOR_VERSION_def LEGACY_LOCATOR_VERSION_def)
  show ?thesis
  proof (cases "encode_record cb r = Inr b")
    case True
    then have e: "b = e_array cb 7 @ e_u16 cb LOCATOR_VERSION @ e_bytes cb (lr_desktop_id r) @ e_bytes cb (lr_identity_id r) @
        e_bytes cb (lr_transcript_fingerprint r) @ e_str cb (pl_desktop_state (lr_locator r)) @
        e_str cb (pl_replay_state (lr_locator r)) @ e_str cb (choice_display (pl_transport (lr_locator r)))"
      by (auto simp: encode_record_def encoded_locator_path_def result_iff split: if_splits)
    have "check_record cb LOCATOR_VERSION b [] r = Inr r" using True w' by (simp add: check_record_iff)
    then show ?thesis
      using w' l unfolding e decode_record_def decode_transport_def by (simp add: k f r)
  next
    case False
    with b have a: "pl_transport (lr_locator r) = AutoChoice" "encode_legacy_record cb r = Inr b" by auto
    then have e: "b = e_array cb 6 @ e_u16 cb LEGACY_LOCATOR_VERSION @ e_bytes cb (lr_desktop_id r) @
        e_bytes cb (lr_identity_id r) @ e_bytes cb (lr_transcript_fingerprint r) @
        e_str cb (pl_desktop_state (lr_locator r)) @ e_str cb (pl_replay_state (lr_locator r))"
      by (auto simp: encode_legacy_record_def encoded_locator_path_def result_iff split: if_splits)
    have "check_record cb LEGACY_LOCATOR_VERSION b [] r = Inr r" using a v w' by (simp add: check_record_iff)
    then show ?thesis
      using w' l v unfolding e decode_record_def decode_transport_def by (simp add: k r [unfolded a(1)])
  qed
qed

lemma decode_record_iff:
  assumes "cbor_codec cb" "length (pl_desktop_state (lr_locator r)) < 2 ^ 64" "length (pl_replay_state (lr_locator r)) < 2 ^ 64"
  shows "decode_record cb b = Inr r \<longleftrightarrow> wf_locator_record r \<and>
    (encode_record cb r = Inr b \<or> pl_transport (lr_locator r) = AutoChoice \<and> encode_legacy_record cb r = Inr b)"
  using decode_record_sound [of cb b r] decode_record_complete [OF assms(1) _ assms(2,3)] by blast

text \<open>Records of paths of ordinary length fit the size a locator file is read with.\<close>

lemma head_len_positive: "0 < head_len n"
  by (simp add: head_len_def)

lemma encode_record_size:
  assumes "cbor_sized cb" "encode_record cb r = Inr b" "wf_locator_record r"
    and "length (pl_desktop_state (lr_locator r)) + length (pl_replay_state (lr_locator r)) \<le> 3900"
  shows "b \<noteq> [] \<and> length b \<le> unat MAX_LOCATOR_BYTES"
proof -
  note z = cbor_sized.array_len [OF assms(1)] cbor_sized.u16_len [OF assms(1)] cbor_sized.bytes_len [OF assms(1)]
    cbor_sized.str_len [OF assms(1)]
  let ?c = "choice_display (pl_transport (lr_locator r))"
  from assms(2) have b: "b = e_array cb 7 @ e_u16 cb LOCATOR_VERSION @ e_bytes cb (lr_desktop_id r) @ e_bytes cb (lr_identity_id r) @
      e_bytes cb (lr_transcript_fingerprint r) @ e_str cb (pl_desktop_state (lr_locator r)) @
      e_str cb (pl_replay_state (lr_locator r)) @ e_str cb ?c"
    by (auto simp: encode_record_def encoded_locator_path_def result_iff split: if_splits)
  have c: "length ?c \<le> 4" by (rule choice_display_text)
  have n: "e_array cb 7 \<noteq> []" using z(1) [of 7] head_len_positive [of 7] by auto
  have "length b \<le> 9 * 8 + 68 + 3900"
    using assms(3,4) c head_len_bounds(1) [of 7] head_len_bounds(1) [of "unat LOCATOR_VERSION"] head_len_bounds(1) [of 16]
      head_len_bounds(1) [of 32] head_len_bounds(1) [of "length (pl_desktop_state (lr_locator r))"]
      head_len_bounds(1) [of "length (pl_replay_state (lr_locator r))"] head_len_bounds(1) [of "length ?c"]
    by (simp add: b z wf_locator_record_def)
  with n show ?thesis by (simp add: b MAX_LOCATOR_BYTES_def)
qed

subsection \<open>Opening what was created\<close>

lemma hex_digit_no_slash: "n < 16 \<Longrightarrow> hex_digit n \<noteq> CHR ''/''"
proof -
  assume n: "n < 16"
  have "CHR ''/'' = char_of (47 :: nat)" by code_simp
  with n show ?thesis by (simp add: hex_digit_def char_of_eq_iff)
qed

lemma hex_no_slash: "CHR ''/'' \<notin> set (hex b)"
proof (induction b)
  case (Cons w b)
  have "unat w div 16 < 16" using unat_byte_less [of w] by linarith
  with Cons hex_digit_no_slash [of "unat w div 16"] hex_digit_no_slash [of "unat w mod 16"]
  show ?case by (auto simp: hex_byte_def)
qed simp

lemma locator_names: "plain_name (locator_name stub)" "plain_name (hex i @ ''.cbor'')"
  using hex_no_slash by (auto simp: plain_name_def locator_name_def append_eq_Cons_conv)

text \<open>What opening returns was read from a private file of that name in a private directory, and is
  the locator of the stub.\<close>

lemma open_first_ok:
  "open_first cb root stub ps f = (t, Inr (p, l)) \<Longrightarrow> nodes t = nodes f \<and> p \<in> set ps \<and>
    (\<exists>b m. nodes f (path_of p) = Some (Regular b m 0) \<and> m AND 63 = 0 \<and> locator_decode cb stub b = Inr l)"
proof (induction ps arbitrary: f)
  case (Cons q ps)
  obtain g r where g: "read_locator_file q f = (g, r)" by fastforce
  have same: "nodes g = nodes f"
    using g keepsD [OF keeps_private_read, where P1 = "\<lambda>m. m = nodes f"]
    by (auto simp: read_locator_file_def mapErrS_def split: prod.splits)
  show ?case
  proof (cases r)
    case (Inl e)
    with Cons.prems g have "open_first cb root stub ps g = (t, Inr (p, l))"
      by (simp add: bindS_tryS split: if_splits)
    from Cons.IH [OF this] same show ?thesis by auto
  next
    case (Inr b)
    with Cons.prems g have l: "locator_decode cb stub b = Inr l" "p = q" "t = g"
      by (auto simp: bindS_tryS bindS_Inr_iff validate_layout_def)
    from g Inr have "private_read (path_of q) MAX_LOCATOR_BYTES f = (g, Inr b)"
      by (simp add: read_locator_file_def mapErrS_Inr_iff)
    from private_read_ok [OF this] l show ?thesis by auto
  qed
qed simp

text \<open>Whatever the faults, opening a locator changes no node.\<close>

lemma keeps_pure [simp]: "keeps P (\<lambda>s. (s, r))"
  by (simp add: keeps_def)

lemma keeps_open_first: "keeps (\<lambda>f. P (nodes f)) (open_first cb root stub ps)"
proof (induction ps)
  case (Cons p ps)
  show ?case unfolding open_first.simps read_locator_file_def validate_layout_def
    by (intro keeps_bindS keeps_tryS keeps_mapErrS keeps_private_read)
      (auto split: sum.splits intro!: keeps_liftS_bind Cons)
qed simp

lemma keeps_open_pairing_locator: "keeps (\<lambda>f. P (nodes f)) (open_pairing_locator cb root stub)"
  unfolding open_pairing_locator_def open_pairing_locator_record_def ensure_not_pending_def setup_available_def
  by (intro keeps_bindS keeps_mapErrS keeps_private_checked_directory keeps_simps keeps_open_first)
    (auto split: prod.splits)

lemma open_pairing_locator_ok:
  assumes "open_pairing_locator cb root stub f = (t, Inr l)"
  shows "nodes t = nodes f \<and> (\<exists>md. nodes f (path_of root) = Some (Dir md) \<and> md AND 63 = 0) \<and>
    (\<exists>p b m. p \<in> {pairing_locator_path root stub, legacy_pairing_locator_path root stub} \<and>
      nodes f (path_of p) = Some (Regular b m 0) \<and> m AND 63 = 0 \<and> locator_decode cb stub b = Inr l)"
proof -
  from assms obtain g q p where d: "private_checked_directory (path_of root) f = (g, Inr q)" and
    o: "open_first cb root stub [pairing_locator_path root stub, legacy_pairing_locator_path root stub] g = (t, Inr (p, l))"
    by (auto simp: open_pairing_locator_def open_pairing_locator_record_def ensure_not_pending_def setup_available_def
        bindS_Inr_iff mapErrS_Inr_iff)
  from private_checked_directory_ok [OF d] open_first_ok [OF o] show ?thesis by auto
qed

lemma locator_decode_encode:
  assumes "cbor_codec cb" and "length (sb_desktop_id stub) = 16" "length (sb_identity_id stub) = 16"
    and "length (sb_transcript_fingerprint stub) = 32"
    and "locator_path_ok (pl_desktop_state l)" "locator_path_ok (pl_replay_state l)"
    and "length (pl_desktop_state l) < 2 ^ 64" "length (pl_replay_state l) < 2 ^ 64"
  shows "\<exists>b. locator_encode cb stub l = Inr b \<and> locator_decode cb stub b = Inr l"
proof -
  let ?r = "\<lparr> lr_desktop_id = sb_desktop_id stub, lr_identity_id = sb_identity_id stub,
     lr_transcript_fingerprint = sb_transcript_fingerprint stub, lr_locator = l \<rparr>"
  have w: "wf_locator_record ?r" using assms(2-6) by (simp add: wf_locator_record_def)
  obtain b where b: "encode_record cb ?r = Inr b"
    using assms(5,6) by (auto simp: encode_record_def encoded_locator_path_def locator_path_ok_def)
  have "decode_record cb b = Inr ?r" using decode_record_complete [OF assms(1) w] assms(7,8) b by simp
  with b show ?thesis by (auto simp: locator_encode_def locator_decode_def)
qed

lemma open_pairing_locator_run:
  assumes f: "faults f = []" and d: "nodes f (path_of root) = Some (Dir md)" "md AND 63 = 0"
    and n: "nodes f (path_of (pairing_locator_path root stub)) = Some (Regular b PRIVATE_MODE 0)"
    and b: "b \<noteq> []" "length b \<le> 4096" "locator_decode cb stub b = Inr l"
  shows "open_pairing_locator cb root stub f = (f, Inr l)"
proof -
  have "private_read (path_of (pairing_locator_path root stub)) MAX_LOCATOR_BYTES f = (f, Inr b)"
    by (rule private_read_run [OF f n]) (use b in \<open>simp_all add: MAX_LOCATOR_BYTES_def\<close>)
  then have "read_locator_file (pairing_locator_path root stub) f = (f, Inr b)"
    by (simp add: read_locator_file_def mapErrS_def)
  with private_checked_directory_run [OF f d] b show ?thesis
    by (simp add: open_pairing_locator_def open_pairing_locator_record_def ensure_not_pending_def setup_available_def
        bindS_def tryS_def mapErrS_def validate_layout_def)
qed

lemma create_pairing_locator_run:
  assumes f: "faults f = []" and root: "path_is_absolute root" "nodes f (path_of root) = Some (Dir md)"
    and n: "nodes f (path_of (pairing_locator_path root stub)) = None"
    and x: "absolute_existing cwd canonicalize desktop = Inr (pl_desktop_state l)"
      "absolute_existing cwd canonicalize replay = Inr (pl_replay_state l)"
    and b: "locator_encode cb stub l = Inr b"
  shows "create_pairing_locator_with_transport cb cwd canonicalize root stub desktop replay (pl_transport l) f =
    (f\<lparr> nodes := (nodes f)(path_of root \<mapsto> Dir 448,
        path_of (pairing_locator_path root stub) \<mapsto> Regular b PRIVATE_MODE 0) \<rparr>,
     Inr (pairing_locator_path root stub))"
proof -
  let ?p = "path_of (pairing_locator_path root stub)"
  have p: "?p = join_path (path_of root) (locator_name stub)"
    unfolding pairing_locator_path_def by (rule path_join_comps [OF root(1) locator_names(1)])
  then have ne: "?p \<noteq> path_of root" by (metis join_path_def path.surjective path.update_convs(2) append_self_conv not_Cons_self2 path.ext_inject path.select_convs(2))
  let ?g = "f\<lparr> nodes := (nodes f)(path_of root \<mapsto> Dir 448) \<rparr>"
  have 1: "private_prepare_directory (path_of root) f = (?g, Inr (path_of root))"
    by (rule private_prepare_run [OF f _ root(2)]) (simp add: root(1))
  have 2: "private_create ?p b ?g = (?g\<lparr> nodes := (nodes ?g)(?p \<mapsto> Regular b PRIVATE_MODE 0) \<rparr>, Inr ())"
    by (rule private_create_run) (use f n ne in simp_all)
  have l: "\<lparr> pl_desktop_state = pl_desktop_state l, pl_replay_state = pl_replay_state l, pl_transport = pl_transport l \<rparr> = l" by simp
  have 3: "private_sync_directory (path_of root) (?g\<lparr> nodes := (nodes ?g)(?p \<mapsto> Regular b PRIVATE_MODE 0) \<rparr>) =
      (?g\<lparr> nodes := (nodes ?g)(?p \<mapsto> Regular b PRIVATE_MODE 0) \<rparr>, Inr ())"
    using f ne by (simp add: private_sync_directory_def mapErrS_def bindS_def file_open_def sync_all_def sys_read_run)
  show ?thesis
    using 1 2 3 x b
    by (simp add: create_pairing_locator_with_transport_def ensure_not_pending_def validate_layout_def bindS_def mapErrS_def
        Let_def fun_upd_twist l)
qed

text \<open>What was created is what is opened.\<close>

lemma create_then_open:
  assumes z: "cbor_sized cb" and w: "length (sb_desktop_id stub) = 16" "length (sb_identity_id stub) = 16"
      "length (sb_transcript_fingerprint stub) = 32"
    and l: "locator_path_ok (pl_desktop_state l)" "locator_path_ok (pl_replay_state l)"
      "length (pl_desktop_state l) + length (pl_replay_state l) \<le> 3900"
    and f: "faults f = []" "path_is_absolute root" "nodes f (path_of root) = Some (Dir md)"
      "nodes f (path_of (pairing_locator_path root stub)) = None"
    and x: "absolute_existing cwd canonicalize desktop = Inr (pl_desktop_state l)"
      "absolute_existing cwd canonicalize replay = Inr (pl_replay_state l)"
  shows "\<exists>g b. create_pairing_locator_with_transport cb cwd canonicalize root stub desktop replay (pl_transport l) f =
      (g, Inr (pairing_locator_path root stub)) \<and> faults g = [] \<and> locks g = locks f \<and>
    nodes g = (nodes f)(path_of root \<mapsto> Dir 448, path_of (pairing_locator_path root stub) \<mapsto> Regular b PRIVATE_MODE 0) \<and>
    b \<noteq> [] \<and> length b \<le> 4096 \<and> locator_decode cb stub b = Inr l \<and> open_pairing_locator cb root stub g = (g, Inr l)"
proof -
  have len: "length (pl_desktop_state l) < 2 ^ 64" "length (pl_replay_state l) < 2 ^ 64" using l(3) by simp_all
  obtain b where b: "locator_encode cb stub l = Inr b" "locator_decode cb stub b = Inr l"
    using locator_decode_encode [OF cbor_sized.axioms(1) [OF z] w l(1,2) len] by blast
  have s: "b \<noteq> []" "length b \<le> 4096"
    using encode_record_size [OF z b(1) [unfolded locator_encode_def]] w l by (simp_all add: wf_locator_record_def MAX_LOCATOR_BYTES_def)
  let ?p = "path_of (pairing_locator_path root stub)"
  let ?g = "f\<lparr> nodes := (nodes f)(path_of root \<mapsto> Dir 448, ?p \<mapsto> Regular b PRIVATE_MODE 0) \<rparr>"
  have c: "create_pairing_locator_with_transport cb cwd canonicalize root stub desktop replay (pl_transport l) f =
      (?g, Inr (pairing_locator_path root stub))"
    by (rule create_pairing_locator_run [OF f x b(1)])
  have ne: "?p \<noteq> path_of root" using f(3,4) by auto
  then have "open_pairing_locator cb root stub ?g = (?g, Inr l)"
    using f(1) by (intro open_pairing_locator_run [where md = 448 and b = b]) (simp_all add: s b(2))
  with c s b(2) f(1) show ?thesis by (intro exI [of _ ?g] exI [of _ b]) simp
qed

end
