(* ===== verification/Age_Recipient.thy ===== *)
theory Age_Recipient
  imports Pairing_Stub
begin

text \<open>
  The \<open>recipient-v1\<close> plugin of \<open>crates/desktop/src/age_recipient.rs\<close>: an age client adds recipients
  and identities, then asks for the stanzas of its file keys.  \<open>&mut self\<close> is the state of a step;
  the ephemeral secrets drawn from \<open>OsRng\<close> are an argument.
\<close>

subsection \<open>Data\<close>

text \<open>\<open>age_plugin::recipient::Error\<close> and \<open>age_core::format::Stanza\<close>, as far as the code uses them.\<close>

datatype recipient_plugin_error = RpRecipient nat string | RpIdentity nat string

record age_stanza =
  as_tag :: string
  as_args :: "string list"
  as_body :: bytes

datatype 'pk wrapping_recipient = LegacyRecipient "'pk recipient" | PairedRecipient "'pk paired_recipient"

record 'pk phone_recipient_plugin =
  rp_recipients :: "(nat \<times> 'pk wrapping_recipient) list"

subsection \<open>Operations\<close>

definition push_recipient ::
    "nat \<Rightarrow> 'pk wrapping_recipient \<Rightarrow> ('pk phone_recipient_plugin, recipient_plugin_error, unit) step" where
  "push_recipient index r = (\<lambda>st. (st\<lparr> rp_recipients := rp_recipients st @ [(index, r)] \<rparr>, Inr ()))"

definition decode_plugin_recipient ::
    "('pk, 'sg, 'sk) lib \<Rightarrow> bytes \<Rightarrow> (recipient_error, 'pk wrapping_recipient) result" where
  "decode_plugin_recipient L b = (case b of
       [] \<Rightarrow> Inl UnsupportedRecipientVersion
     | v # _ \<Rightarrow>
         if v = 1 then bindE (recipient_from_plugin_bytes L b) (\<lambda>r. Inr (LegacyRecipient r))
         else if v = 2 then bindE (paired_from_plugin_bytes L b) (\<lambda>r. Inr (PairedRecipient r))
         else Inl UnsupportedRecipientVersion)"

definition add_recipient ::
    "('pk, 'sg, 'sk) lib \<Rightarrow> nat \<Rightarrow> string \<Rightarrow> bytes \<Rightarrow> ('pk phone_recipient_plugin, recipient_plugin_error, unit) step" where
  "add_recipient L index plugin_name b =
     bindS (failS (plugin_name \<noteq> PLUGIN_NAME) (RpRecipient index ''recipient was routed to the wrong plugin'')) (\<lambda>_.
     bindS (liftS (mapErr (\<lambda>_. RpRecipient index ''malformed or unsupported phone recipient'') (decode_plugin_recipient L b))) (\<lambda>r.
     push_recipient index r))"

definition recipient_add_identity ::
    "('pk, 'sg, 'sk) lib \<Rightarrow> nat \<Rightarrow> string \<Rightarrow> bytes \<Rightarrow> ('pk phone_recipient_plugin, recipient_plugin_error, unit) step" where
  "recipient_add_identity L index plugin_name b =
     bindS (failS (plugin_name \<noteq> PLUGIN_NAME) (RpIdentity index ''identity was routed to the wrong plugin'')) (\<lambda>_.
     bindS (liftS (mapErr (\<lambda>_. RpIdentity index ''malformed or unsupported public phone identity stub'') (stub_decode L b))) (\<lambda>stub.
     bindS (liftS (mapErr (\<lambda>_. RpIdentity index ''public phone identity contains an invalid recipient'')
       (stub_paired_recipient L stub))) (\<lambda>r.
     push_recipient index (PairedRecipient r))))"

definition recipient_labels :: "string set" where
  "recipient_labels = {}"

definition to_age_stanza :: "tagged_stanza \<Rightarrow> age_stanza" where
  "to_age_stanza s = \<lparr> as_tag = st_tag s, as_args = st_args s, as_body = st_body s \<rparr>"

definition wrap_for ::
    "('pk, 'sg, 'sk) lib \<Rightarrow> 'pk wrapping_recipient \<Rightarrow> bytes \<Rightarrow> 'sk \<Rightarrow> (recipient_error, tagged_stanza) result" where
  "wrap_for L r file_key ephemeral = (case r of
       LegacyRecipient r \<Rightarrow> wrap_file_key L r file_key ephemeral
     | PairedRecipient r \<Rightarrow> wrap_file_key_v2 L r file_key ephemeral)"

text \<open>The two loops.  \<open>drawn k j\<close> is the ephemeral secret of the \<open>k\<close>-th file's \<open>j\<close>-th stanza.\<close>

fun wrap_stanzas ::
    "('pk, 'sg, 'sk) lib \<Rightarrow> bytes \<Rightarrow> (nat \<Rightarrow> 'sk) \<Rightarrow> (nat \<times> 'pk wrapping_recipient) list \<Rightarrow>
     (recipient_plugin_error list, age_stanza list) result" where
  "wrap_stanzas L file_key drawn [] = Inr []"
| "wrap_stanzas L file_key drawn ((index, r) # rs) =
     (case wrap_for L r file_key (drawn 0) of
        Inl _ \<Rightarrow> Inl [RpRecipient index ''failed to wrap file key for phone recipient'']
      | Inr s \<Rightarrow> bindE (wrap_stanzas L file_key (\<lambda>j. drawn (Suc j)) rs) (\<lambda>ss. Inr (to_age_stanza s # ss)))"

fun wrap_file_keys ::
    "('pk, 'sg, 'sk) lib \<Rightarrow> (nat \<Rightarrow> nat \<Rightarrow> 'sk) \<Rightarrow> bytes list \<Rightarrow> 'pk phone_recipient_plugin \<Rightarrow>
     (recipient_plugin_error list, age_stanza list list) result" where
  "wrap_file_keys L drawn [] st = Inr []"
| "wrap_file_keys L drawn (fk # fks) st =
     bindE (wrap_stanzas L fk (drawn 0) (rp_recipients st)) (\<lambda>ss.
     bindE (wrap_file_keys L (\<lambda>k. drawn (Suc k)) fks st) (\<lambda>rest. Inr (ss # rest)))"

text \<open>What an age client may call before it wraps.\<close>

datatype recipient_call = AddRecipient nat string bytes | AddIdentity nat string bytes

definition recipient_call_step ::
    "('pk, 'sg, 'sk) lib \<Rightarrow> recipient_call \<Rightarrow> ('pk phone_recipient_plugin, recipient_plugin_error, unit) step" where
  "recipient_call_step L c = (case c of
     AddRecipient i n b \<Rightarrow> add_recipient L i n b | AddIdentity i n b \<Rightarrow> recipient_add_identity L i n b)"

fun recipient_calls ::
    "('pk, 'sg, 'sk) lib \<Rightarrow> recipient_call list \<Rightarrow> 'pk phone_recipient_plugin \<Rightarrow> 'pk phone_recipient_plugin" where
  "recipient_calls L [] st = st"
| "recipient_calls L (c # cs) st = recipient_calls L cs (fst (recipient_call_step L c st))"

subsection \<open>What the plugin holds\<close>

text \<open>The recipient a payload stands for: the payload is its canonical encoding.\<close>

definition recipient_payload :: "('pk, 'sg, 'sk) lib \<Rightarrow> 'pk wrapping_recipient \<Rightarrow> bytes" where
  "recipient_payload L r = (case r of LegacyRecipient r \<Rightarrow> recipient_plugin_bytes L r | PairedRecipient r \<Rightarrow> paired_plugin_bytes L r)"

definition recipient_wf :: "'pk wrapping_recipient \<Rightarrow> bool" where
  "recipient_wf r = (case r of LegacyRecipient _ \<Rightarrow> True | PairedRecipient r \<Rightarrow> length (paired_identity_id r) = ID_BYTES)"

lemma recipient_wf_simps [simp]:
  "recipient_wf (LegacyRecipient q)" "recipient_wf (PairedRecipient r) \<longleftrightarrow> length (paired_identity_id r) = ID_BYTES"
  by (simp_all add: recipient_wf_def)

lemma decode_plugin_recipient_iff:
  assumes "p256_laws (ec L)"
  shows "decode_plugin_recipient L b = Inr r \<longleftrightarrow> recipient_wf r \<and> b = recipient_payload L r"
  using paired_plugin_bytes_iff [OF assms] recipient_plugin_bytes_iff [OF assms]
  by (cases b; cases r)
    (auto simp: decode_plugin_recipient_def result_iff recipient_payload_def recipient_plugin_bytes_def
      paired_plugin_bytes_def)

lemma stub_paired_recipient_ok:
  assumes "p256_laws (ec L)" "wf_stub v" "stub_paired_recipient L v = Inr r"
  shows "recipient_parse L (sb_recipient v) = Inr (Recipient (phone_identity r)) \<and>
    sb_desktop_selection_public_key v = public_key_bytes L (desktop_selection r) \<and>
    paired_identity_id r = sb_identity_id v \<and> length (paired_identity_id r) = ID_BYTES"
  using assms
  by (auto simp: stub_paired_recipient_def result_iff from_public_fields_def from_public_key_bytes_iff wf_stub_def
      recipient_public_key_bytes_def pk_compressed_inj public_key_bytes_def)

lemma add_recipient_iff:
  assumes "p256_laws (ec L)"
  shows "add_recipient L i n b st = (st', Inr ()) \<longleftrightarrow>
    n = PLUGIN_NAME \<and> (\<exists>r. recipient_wf r \<and> b = recipient_payload L r \<and> st' = st\<lparr> rp_recipients := rp_recipients st @ [(i, r)] \<rparr>)"
  unfolding add_recipient_def push_recipient_def
  by (auto simp: bindS_Inr_iff failIf_Inr_iff mapErr_Inr_iff decode_plugin_recipient_iff [OF assms])

lemma recipient_add_identity_iff:
  "recipient_add_identity L i n b st = (st', Inr ()) \<longleftrightarrow>
    n = PLUGIN_NAME \<and> (\<exists>v r. stub_decode L b = Inr v \<and> stub_paired_recipient L v = Inr r \<and>
      st' = st\<lparr> rp_recipients := rp_recipients st @ [(i, PairedRecipient r)] \<rparr>)"
  unfolding recipient_add_identity_def push_recipient_def
  by (auto simp: bindS_Inr_iff failIf_Inr_iff mapErr_Inr_iff)

text \<open>A refused call changes nothing and names the index of its argument.\<close>

lemma recipient_call_refused:
  "recipient_call_step L c st = (st', Inl e) \<Longrightarrow> st' = st"
  by (auto simp: recipient_call_step_def add_recipient_def recipient_add_identity_def push_recipient_def bindS_Inl_iff
      failIf_Inl_iff split: recipient_call.splits)

definition plugin_wf :: "'pk phone_recipient_plugin \<Rightarrow> bool" where
  "plugin_wf st \<longleftrightarrow> (\<forall>(i, r) \<in> set (rp_recipients st). recipient_wf r)"

lemma recipient_call_wf:
  assumes "p256_laws (ec L)" "plugin_wf st" shows "plugin_wf (fst (recipient_call_step L c st))"
proof -
  obtain st' r where s: "recipient_call_step L c st = (st', r)" by fastforce
  show ?thesis
  proof (cases r)
    case (Inl e)
    with s recipient_call_refused assms(2) show ?thesis by fastforce
  next
    case (Inr u)
    with s assms add_recipient_iff [OF assms(1)] show ?thesis
      by (auto simp: recipient_call_step_def recipient_add_identity_iff plugin_wf_def
          dest!: stub_decode_sound stub_paired_recipient_ok [OF assms(1), rotated] simp: stub_ok_def split: recipient_call.splits)
  qed
qed

lemma recipient_calls_wf: "p256_laws (ec L) \<Longrightarrow> plugin_wf st \<Longrightarrow> plugin_wf (recipient_calls L cs st)"
  by (induction cs arbitrary: st) (auto simp: recipient_call_wf)

subsection \<open>What it wraps opens\<close>

text \<open>The phone that holds the secret of a recipient gets the file key out of a stanza; a desktop
  that holds the selection secret of a paired recipient recognises it.\<close>

definition opens_stanza :: "('pk, 'sg, 'sk) lib \<Rightarrow> bytes \<Rightarrow> 'pk wrapping_recipient \<Rightarrow> age_stanza \<Rightarrow> bool" where
  "opens_stanza L fk r a \<longleftrightarrow> (\<exists>s. a = to_age_stanza s \<and> validate_stanza L s = Inr () \<and>
     (case r of
        LegacyRecipient q \<Rightarrow> st_tag s = STANZA_TAG \<and>
          (\<forall>phone. recipient_key q = sk_public (ec L) phone \<longrightarrow> unwrap_file_key L phone s = Inr fk)
      | PairedRecipient q \<Rightarrow> st_tag s = STANZA_TAG_V2 \<and>
          (\<forall>phone. phone_identity q = sk_public (ec L) phone \<longrightarrow> unwrap_file_key L phone s = Inr fk) \<and>
          (\<forall>desktop. desktop_selection q = sk_public (ec L) desktop \<longrightarrow>
             matches_stanza_v2 L q (signing_key_agreement L desktop) s = Inr True)))"

lemma wrap_for_opens:
  assumes b: "base64_engine (std64 L)" and p: "p256_laws (ec L)" and y: "symmetric_laws (sym L)"
    and fk: "length fk = FILE_KEY_BYTES" and w: "recipient_wf r"
  obtains s where "wrap_for L r fk e = Inr s" "opens_stanza L fk r (to_age_stanza s)"
proof (cases r)
  case (LegacyRecipient q)
  obtain s where s: "wrap_file_key L q fk e = Inr s" using wrap_file_key_total [OF p y, of fk q e] fk by auto
  from b p y fk s have "st_tag s = STANZA_TAG" "validate_stanza L s = Inr ()"
    by (rule wrap_file_key_parses, simp add: validate_stanza_def)+
  moreover have "unwrap_file_key L phone s = Inr fk" if "recipient_key q = sk_public (ec L) phone" for phone
    using unwrap_wrap_v1 [OF b p y fk, of phone e s] s that by (metis recipient.collapse)
  ultimately show thesis using s LegacyRecipient by (intro that) (auto simp: wrap_for_def opens_stanza_def)
next
  case (PairedRecipient q)
  with w have i: "length (paired_identity_id q) = ID_BYTES" by simp
  obtain s where s: "wrap_file_key_v2 L q fk e = Inr s" using wrap_file_key_v2_total [OF p y, of fk q e] fk i by auto
  from b p y fk i s have "st_tag s = STANZA_TAG_V2" "validate_stanza L s = Inr ()"
    by (rule wrap_file_key_v2_parses, simp add: validate_stanza_def)+
  with unwrap_wrap_v2 [OF b p y fk i _ s] software.selects_own_stanzas [OF b p y fk i _ s]
  show thesis using s PairedRecipient by (intro that) (auto simp: wrap_for_def opens_stanza_def)
qed

lemma wrap_stanzas_open:
  assumes "base64_engine (std64 L)" "p256_laws (ec L)" "symmetric_laws (sym L)" "length fk = FILE_KEY_BYTES"
    and "\<forall>(i, r) \<in> set rs. recipient_wf r"
  shows "\<exists>ss. wrap_stanzas L fk drawn rs = Inr ss \<and> list_all2 (opens_stanza L fk) (map snd rs) ss"
  using assms(5)
proof (induction rs arbitrary: drawn)
  case (Cons q rs)
  obtain i r where q: "q = (i, r)" by fastforce
  obtain s where "wrap_for L r fk (drawn 0) = Inr s" "opens_stanza L fk r (to_age_stanza s)"
    using wrap_for_opens [OF assms(1-4), of r "drawn 0"] Cons.prems q by auto
  with Cons.IH [of "\<lambda>j. drawn (Suc j)"] Cons.prems q show ?case by auto
qed simp

lemma wrap_file_keys_open:
  assumes "base64_engine (std64 L)" "p256_laws (ec L)" "symmetric_laws (sym L)" "plugin_wf st"
    and "\<forall>fk \<in> set fks. length fk = FILE_KEY_BYTES"
  shows "\<exists>files. wrap_file_keys L drawn fks st = Inr files \<and>
    list_all2 (\<lambda>fk. list_all2 (opens_stanza L fk) (map snd (rp_recipients st))) fks files"
  using assms(5)
proof (induction fks arbitrary: drawn)
  case (Cons fk fks)
  obtain ss where "wrap_stanzas L fk (drawn 0) (rp_recipients st) = Inr ss"
    "list_all2 (opens_stanza L fk) (map snd (rp_recipients st)) ss"
    using wrap_stanzas_open [OF assms(1-3), of fk "rp_recipients st" "drawn 0"] Cons.prems assms(4) by (auto simp: plugin_wf_def)
  with Cons.IH [of "\<lambda>k. drawn (Suc k)"] Cons.prems show ?case by auto
qed simp

end
