(* ===== verification/Age_Identity.thy ===== *)
theory Age_Identity
  imports Locator Unwrap_Session Replay_File Age_Recipient
begin

text \<open>
  The \<open>identity-v1\<close> plugin of \<open>crates/desktop/src/age_identity.rs\<close>: the identities an age client
  adds, the choice of one stanza of a file and of the identity to use for it, and one phone-approved
  unwrap per file.  The route and the exchange with the phone are arguments, as they are in
  \<open>unwrap_with_prepared_exchange\<close>; \<open>Age_Route\<close> holds the ones the plugin passes.
\<close>

subsection \<open>Data\<close>

text \<open>\<open>age_plugin::identity::Error\<close>.\<close>

datatype identity_plugin_error =
  IpIdentity nat string | IpStanza nat nat string | IpInternal string

record phone_identity_plugin =
  ip_identities :: "(nat \<times> public_identity_stub) list"
  ip_config_root :: "os_path option"

datatype exchange_error = ExchangeCancelled | ExchangeConnectionFailed | ExchangeInvalidResponse | ExchangeFailed

record 'sk selected_candidate =
  sel_identity_index :: nat
  sel_stub :: public_identity_stub
  sel_stanza_index :: nat
  sel_stanza :: tagged_stanza
  sel_locator :: pairing_locator
  sel_desktop :: "'sk desktop_key_state"

record ('pk, 'sk) opened_identity =
  op_position :: nat
  op_locator :: pairing_locator
  op_desktop :: "'sk desktop_key_state"
  op_recipient :: "'pk paired_recipient"

definition DEFAULT_REPLAY_CAPACITY :: nat where "DEFAULT_REPLAY_CAPACITY = 1024"

definition identity_error :: "nat \<Rightarrow> string \<Rightarrow> identity_plugin_error" where
  "identity_error index message = IpIdentity index message"

definition stanza_error :: "nat \<Rightarrow> nat \<Rightarrow> string \<Rightarrow> identity_plugin_error" where
  "stanza_error file_index stanza_index message = IpStanza file_index stanza_index message"

definition internal :: "string \<Rightarrow> identity_plugin_error" where
  "internal message = IpInternal message"

subsection \<open>Identities\<close>

definition plugin_config_root ::
    "(locator_error, os_path) result \<Rightarrow> phone_identity_plugin \<Rightarrow> (identity_plugin_error, os_path) result" where
  "plugin_config_root default_root st = (case ip_config_root st of
     None \<Rightarrow> mapErr (\<lambda>_. internal ''configuration unavailable'') default_root
   | Some root \<Rightarrow> Inr root)"

definition identity_add_identity ::
    "('pk, 'sg, 'sk) lib \<Rightarrow> nat \<Rightarrow> string \<Rightarrow> bytes \<Rightarrow> (phone_identity_plugin, identity_plugin_error, unit) step" where
  "identity_add_identity L index plugin_name b =
     bindS (failS (plugin_name \<noteq> PLUGIN_NAME) (IpIdentity index ''identity was routed to the wrong plugin'')) (\<lambda>_.
     bindS (liftS (mapErr (\<lambda>_. IpIdentity index ''malformed or unsupported public phone identity stub'') (stub_decode L b))) (\<lambda>stub.
     \<lambda>st. (st\<lparr> ip_identities := ip_identities st @ [(index, stub)] \<rparr>, Inr ())))"

subsection \<open>The stanzas of a file\<close>

definition phone_tag :: "string \<Rightarrow> bool" where
  "phone_tag t \<longleftrightarrow> \<not> (t \<noteq> STANZA_TAG \<and> t \<noteq> STANZA_TAG_V2 \<and> t \<noteq> TAG_STANZA_TAG)"

definition tagged_of :: "age_stanza \<Rightarrow> tagged_stanza" where
  "tagged_of a = \<lparr> st_tag = as_tag a, st_args = as_args a, st_body = as_body a \<rparr>"

text \<open>The first loop: the errors and the candidates, in the order of the stanzas.\<close>

fun sort_stanzas ::
    "('pk, 'sg, 'sk) lib \<Rightarrow> nat \<Rightarrow> nat \<Rightarrow> age_stanza list \<Rightarrow>
     identity_plugin_error list \<times> (nat \<times> tagged_stanza) list" where
  "sort_stanzas L file_index i [] = ([], [])"
| "sort_stanzas L file_index i (a # as) =
     (let (errors, candidates) = sort_stanzas L file_index (Suc i) as
      in if \<not> phone_tag (as_tag a) then (errors, candidates)
         else if \<not> isOk (validate_stanza L (tagged_of a))
         then (stanza_error file_index i ''malformed phone stanza'' # errors, candidates)
         else (errors, (i, tagged_of a) # candidates))"

text \<open>The public prefilter of \<open>p256tag\<close> stanzas: the first identity that matches the first stanza
  some identity matches; two identities of different recipients for one stanza are ambiguous.
  \<open>None\<close> is a panic of one of the two \<open>expect\<close>s.  The accumulator holds the key that matched this
  stanza, the choice and the errors.\<close>

type_synonym public_match = "(nat \<times> nat) option"

fun match_identities ::
    "('pk, 'sg, 'sk) lib \<Rightarrow> tagged_stanza \<Rightarrow> nat \<Rightarrow> nat \<Rightarrow> (nat \<times> public_identity_stub) list \<Rightarrow>
     bytes option \<times> public_match \<times> identity_plugin_error list \<Rightarrow>
     (bytes option \<times> public_match \<times> identity_plugin_error list) option" where
  "match_identities L stanza position ip [] acc = Some acc"
| "match_identities L stanza position ip ((_, stub) # ids) (matched, pm, errors) =
     (case recipient_parse L (sb_recipient stub) of
        Inl _ \<Rightarrow> None
      | Inr r \<Rightarrow>
          (case tag_matches L r stanza of
             Inl _ \<Rightarrow> None
           | Inr False \<Rightarrow> match_identities L stanza position (Suc ip) ids (matched, pm, errors)
           | Inr True \<Rightarrow>
               let key = recipient_public_key_bytes L r;
                   errors' = (if matched \<noteq> None \<and> matched \<noteq> Some key
                     then errors @ [internal ''ambiguous p256tag recipient''] else errors)
               in match_identities L stanza position (Suc ip) ids
                    (if matched = None then (Some key, if pm = None then Some (ip, position) else pm, errors')
                     else (matched, pm, errors'))))"

fun match_candidates ::
    "('pk, 'sg, 'sk) lib \<Rightarrow> (nat \<times> public_identity_stub) list \<Rightarrow> nat \<Rightarrow> (nat \<times> tagged_stanza) list \<Rightarrow>
     public_match \<times> identity_plugin_error list \<Rightarrow> (public_match \<times> identity_plugin_error list) option" where
  "match_candidates L ids position [] acc = Some acc"
| "match_candidates L ids position ((_, stanza) # cs) (pm, errors) =
     (if st_tag stanza \<noteq> TAG_STANZA_TAG then match_candidates L ids (Suc position) cs (pm, errors)
      else case match_identities L stanza position 0 ids (None, pm, errors) of
        None \<Rightarrow> None
      | Some (_, pm, errors) \<Rightarrow> match_candidates L ids (Suc position) cs (pm, errors))"

subsection \<open>Selecting a candidate\<close>

text \<open>\<open>open_identities\<close>: what opened, and one error for each identity that did not.\<close>

definition open_identity ::
    "('pk, 'sg, 'sk) lib \<Rightarrow> 'sk key_bytes \<Rightarrow> os_path \<Rightarrow> nat \<Rightarrow> nat \<times> public_identity_stub \<Rightarrow>
     (fs, identity_plugin_error, ('pk, 'sk) opened_identity) step" where
  "open_identity L K root position = (\<lambda>(identity_index, stub).
     bindS (mapErrS (\<lambda>_. identity_error identity_index ''paired desktop state is unavailable'')
       (open_pairing_locator (minicbor L) root stub)) (\<lambda>locator.
     bindS (mapErrS (\<lambda>_. identity_error identity_index ''desktop authentication state is unavailable'')
       (key_state_open L K (path_of (pl_desktop_state locator)))) (\<lambda>desktop.
     bindS (liftS (mapErr (\<lambda>_. identity_error identity_index ''phone identity is malformed'') (stub_paired_recipient L stub))) (\<lambda>recipient.
     retS \<lparr> op_position = position, op_locator = locator, op_desktop = desktop, op_recipient = recipient \<rparr>))))"

fun open_identities ::
    "('pk, 'sg, 'sk) lib \<Rightarrow> 'sk key_bytes \<Rightarrow> os_path \<Rightarrow> nat \<Rightarrow> (nat \<times> public_identity_stub) list \<Rightarrow> fs \<Rightarrow>
     fs \<times> ('pk, 'sk) opened_identity list \<times> identity_plugin_error list" where
  "open_identities L K root position [] f = (f, [], [])"
| "open_identities L K root position (i # ids) f = (case open_identity L K root position i f of
     (f, r) \<Rightarrow> (case open_identities L K root (Suc position) ids f of
       (f, opened, errors) \<Rightarrow> (case r of Inl e \<Rightarrow> (f, opened, e # errors) | Inr x \<Rightarrow> (f, x # opened, errors))))"

text \<open>The labelled double loop: the first opened identity that recognises a candidate, and the first
  candidate it recognises.\<close>

fun find_candidate ::
    "('pk, 'sg, 'sk) lib \<Rightarrow> ('pk, 'sk) opened_identity \<Rightarrow> (nat \<times> tagged_stanza) list \<Rightarrow>
     (unit, (nat \<times> tagged_stanza) option) result" where
  "find_candidate L x [] = Inr None"
| "find_candidate L x (c # cs) =
     (case matches_stanza_v2 L (op_recipient x) (key_agreement_of L (op_desktop x)) (snd c) of
        Inl _ \<Rightarrow> Inl ()
      | Inr True \<Rightarrow> Inr (Some c)
      | Inr False \<Rightarrow> find_candidate L x cs)"

fun find_opened ::
    "('pk, 'sg, 'sk) lib \<Rightarrow> (nat \<times> tagged_stanza) list \<Rightarrow> ('pk, 'sk) opened_identity list \<Rightarrow>
     (unit, (('pk, 'sk) opened_identity \<times> nat \<times> tagged_stanza) option) result" where
  "find_opened L cs [] = Inr None"
| "find_opened L cs (x # xs) =
     bindE (find_candidate L x cs) (\<lambda>found. case found of
       Some c \<Rightarrow> Inr (Some (x, c))
     | None \<Rightarrow> find_opened L cs xs)"

text \<open>A v1 or \<open>p256tag\<close> candidate says nothing private about its recipient: it is only taken when it
  is the only one and one identity is given.\<close>

definition select_anonymous ::
    "('pk, 'sg, 'sk) lib \<Rightarrow> 'sk key_bytes \<Rightarrow> nat \<times> public_identity_stub \<Rightarrow> nat \<times> tagged_stanza \<Rightarrow> os_path \<Rightarrow>
     (fs, identity_plugin_error list, 'sk selected_candidate option) step" where
  "select_anonymous L K = (\<lambda>(identity_index, stub) (stanza_index, stanza) root.
     bindS (mapErrS (\<lambda>_. [identity_error identity_index ''paired desktop state is unavailable''])
       (open_pairing_locator (minicbor L) root stub)) (\<lambda>locator.
     bindS (mapErrS (\<lambda>_. [identity_error identity_index ''desktop authentication state is unavailable''])
       (key_state_open L K (path_of (pl_desktop_state locator)))) (\<lambda>desktop.
     retS (Some \<lparr> sel_identity_index = identity_index, sel_stub = stub, sel_stanza_index = stanza_index,
       sel_stanza = stanza, sel_locator = locator, sel_desktop = desktop \<rparr>))))"

definition select_private ::
    "('pk, 'sg, 'sk) lib \<Rightarrow> 'sk key_bytes \<Rightarrow> (nat \<times> public_identity_stub) list \<Rightarrow> (nat \<times> tagged_stanza) list \<Rightarrow>
     os_path \<Rightarrow> (fs, identity_plugin_error list, 'sk selected_candidate option) step" where
  "select_private L K ids cs root f = (case open_identities L K root 0 ids f of
     (f, opened, errors) \<Rightarrow> (f, case find_opened L cs opened of
         Inl _ \<Rightarrow> Inl [internal ''private phone stanza selection failed'']
       | Inr (Some (x, stanza_index, stanza)) \<Rightarrow>
           Inr (Some \<lparr> sel_identity_index = fst (ids ! op_position x), sel_stub = snd (ids ! op_position x),
             sel_stanza_index = stanza_index, sel_stanza = stanza, sel_locator = op_locator x, sel_desktop = op_desktop x \<rparr>)
       | Inr None \<Rightarrow> if errors = [] then Inr None else Inl errors))"

definition select_candidate ::
    "('pk, 'sg, 'sk) lib \<Rightarrow> 'sk key_bytes \<Rightarrow> (nat \<times> public_identity_stub) list \<Rightarrow> (nat \<times> tagged_stanza) list \<Rightarrow>
     os_path \<Rightarrow> nat \<Rightarrow> (fs, identity_plugin_error list, 'sk selected_candidate option) step" where
  "select_candidate L K ids cs root file_index =
     (if ids = [] then errS [internal ''no phone identity was provided'']
      else if list_ex (\<lambda>(_, s). st_tag s = STANZA_TAG \<or> st_tag s = TAG_STANZA_TAG) cs then
        (if length ids \<noteq> 1 \<or> length cs \<noteq> 1
         then errS (map (\<lambda>(stanza_index, _).
           stanza_error file_index stanza_index ''anonymous v1 phone stanza cannot be selected safely'') cs)
         else select_anonymous L K (ids ! 0) (cs ! 0) root)
      else select_private L K ids cs root)"

subsection \<open>One file\<close>

text \<open>How an iteration of the file loop ends: with no result for the file, with one, with one that
  also ends the loop, with an I/O error of the whole call, or with a panic.\<close>

datatype 'io plugin_io = SystemClock | CallbackIo 'io

datatype 'io file_outcome =
    FileSkipped | FileResult "(identity_plugin_error list, bytes) result"
  | FileCancelled "identity_plugin_error list" | FileIo "'io plugin_io" | FilePanic

text \<open>What an iteration draws or reads from the clock: twice the time, the session secret, the request
  identifier and the nonce.\<close>

record 'sk file_draws =
  fd_begin_clock :: int
  fd_receive_clock :: int
  fd_session :: 'sk
  fd_request_id :: bytes
  fd_nonce :: bytes

type_synonym ('w, 'r) prepare_step = "public_identity_stub \<Rightarrow> pairing_locator \<Rightarrow> ('w, identity_plugin_error, 'r) step"

type_synonym ('w, 'r, 'io) exchange_step =
  "'r \<Rightarrow> bytes \<Rightarrow> unwrap_display \<Rightarrow> ('w, 'io, (exchange_error, bytes) result) step"

definition CALLER_HINT :: string where "CALLER_HINT = ''reference age identity-v1''"

definition exchange_failure :: "nat \<Rightarrow> 'sk selected_candidate \<Rightarrow> exchange_error \<Rightarrow> 'io file_outcome" where
  "exchange_failure file_index c e = (case e of
     ExchangeCancelled \<Rightarrow> FileCancelled [identity_error (sel_identity_index c) ''phone unwrap cancelled'']
   | ExchangeConnectionFailed \<Rightarrow> FileResult (Inl [stanza_error file_index (sel_stanza_index c)
       ''phone Wi-Fi connection unavailable after discovery''])
   | ExchangeInvalidResponse \<Rightarrow> FileResult (Inl [stanza_error file_index (sel_stanza_index c)
       ''phone response unavailable or malformed''])
   | ExchangeFailed \<Rightarrow> FileResult (Inl [stanza_error file_index (sel_stanza_index c)
       ''phone response unavailable or malformed'']))"

text \<open>The exchange and the response, with the guard that is open.\<close>

definition unwrap_exchanged ::
    "('pk, 'sg, 'sk) lib \<Rightarrow> ('w, 'r, 'io) exchange_step \<Rightarrow> 'r \<Rightarrow> int \<Rightarrow> nat \<Rightarrow> 'sk selected_candidate \<Rightarrow>
     'sk desktop_unwrap_session \<Rightarrow> file_slot \<times> 'w \<Rightarrow> (file_slot \<times> 'w) \<times> 'io file_outcome" where
  "unwrap_exchanged L exchange prepared clock file_index c us = (\<lambda>(slot, w).
     case exchange prepared (unwrap_signed_request L us) (unwrap_display_of us) w of
       (w, Inl io) \<Rightarrow> ((slot, w), FileIo (CallbackIo io))
     | (w, Inr (Inl e)) \<Rightarrow> ((slot, w), exchange_failure file_index c e)
     | (w, Inr (Inr response)) \<Rightarrow>
         (case unwrap_receive L (file_ops (minicbor L)) response
                 (case now_unix clock of Inl _ \<Rightarrow> -1 | Inr t \<Rightarrow> t) (us, slot) of
            ((_, slot), Inr file_key) \<Rightarrow> ((slot, w), FileResult (Inr file_key))
          | ((_, slot), Inl _) \<Rightarrow> ((slot, w), FileResult (Inl [stanza_error file_index (sel_stanza_index c)
              ''phone response rejected'']))))"

text \<open>The end of the iteration drops the guard.\<close>

definition drop_slot :: "file_slot \<Rightarrow> fs" where
  "drop_slot = (\<lambda>(go, f). case go of None \<Rightarrow> f | Some g \<Rightarrow> file_drop g f)"

definition unwrap_selected ::
    "('pk, 'sg, 'sk) lib \<Rightarrow> ('w, 'r) prepare_step \<Rightarrow> ('w, 'r, 'io) exchange_step \<Rightarrow> 'sk file_draws \<Rightarrow> nat \<Rightarrow>
     'sk selected_candidate \<Rightarrow> fs \<times> 'w \<Rightarrow> (fs \<times> 'w) \<times> 'io file_outcome" where
  "unwrap_selected L prep exchange drawn file_index c = (\<lambda>(f, w).
     let stub = sel_stub c; pairing = stub_pairing stub
     in case prep stub (sel_locator c) w of
       (w, Inl e) \<Rightarrow> ((f, w), FileResult (Inl [e]))
     | (w, Inr prepared) \<Rightarrow>
       (case file_open_guard (minicbor L) (path_of (pl_replay_state (sel_locator c)))
               (scope_for_pairing DesktopResponses pairing) DEFAULT_REPLAY_CAPACITY f of
          (f, Inl _) \<Rightarrow>
            ((f, w), FileResult (Inl [identity_error (sel_identity_index c) ''response replay state is unavailable'']))
        | (f, Inr g) \<Rightarrow>
            (case now_unix (fd_begin_clock drawn) of
               Inl _ \<Rightarrow> ((file_drop g f, w), FileIo SystemClock)
             | Inr now \<Rightarrow>
                 (case unwrap_begin L stub (sel_desktop c) (sel_stanza c) (Some CALLER_HINT) now
                         (fd_session drawn, fd_request_id drawn, fd_nonce drawn) of
                    Inl _ \<Rightarrow> ((file_drop g f, w), FileResult (Inl [stanza_error file_index (sel_stanza_index c)
                      ''failed to create unwrap request'']))
                  | Inr us \<Rightarrow>
                      (case unwrap_exchanged L exchange prepared (fd_receive_clock drawn) file_index c us ((Some g, f), w) of
                         ((slot, w), outcome) \<Rightarrow> ((drop_slot slot, w), outcome))))))"

definition unwrap_file ::
    "('pk, 'sg, 'sk) lib \<Rightarrow> 'sk key_bytes \<Rightarrow> (nat \<times> public_identity_stub) list \<Rightarrow> (identity_plugin_error, os_path) result \<Rightarrow>
     ('w, 'r) prepare_step \<Rightarrow> ('w, 'r, 'io) exchange_step \<Rightarrow> 'sk file_draws \<Rightarrow> nat \<Rightarrow> age_stanza list \<Rightarrow>
     fs \<times> 'w \<Rightarrow> (fs \<times> 'w) \<times> 'io file_outcome" where
  "unwrap_file L K ids root prep exchange drawn file_index stanzas = (\<lambda>(f, w).
     let (errors, candidates) = sort_stanzas L file_index 0 stanzas
     in if candidates = [] \<or> errors \<noteq> []
        then ((f, w), if errors \<noteq> [] then FileResult (Inl errors) else FileSkipped)
        else case match_candidates L ids 0 candidates (None, []) of
          None \<Rightarrow> ((f, w), FilePanic)
        | Some (pm, errors) \<Rightarrow>
            if errors \<noteq> [] then ((f, w), FileResult (Inl errors))
            else
              let candidates = (if pm = None then filter (\<lambda>(_, s). st_tag s \<noteq> TAG_STANZA_TAG) candidates else candidates)
              in if candidates = [] then ((f, w), FileSkipped)
                 else case root of
                   Inl e \<Rightarrow> ((f, w), FileResult (Inl [e]))
                 | Inr root \<Rightarrow>
                     (case (case pm of
                          Some (ip, position) \<Rightarrow> select_candidate L K [ids ! ip] [candidates ! position] root file_index
                        | None \<Rightarrow> select_candidate L K ids candidates root file_index) f of
                        (f, Inl errors) \<Rightarrow> ((f, w), FileResult (Inl errors))
                      | (f, Inr None) \<Rightarrow> ((f, w), FileSkipped)
                      | (f, Inr (Some c)) \<Rightarrow> unwrap_selected L prep exchange drawn file_index c (f, w)))"

subsection \<open>The files\<close>

datatype 'io plugin_failure = PluginIo "'io plugin_io" | PluginPanic

type_synonym file_results = "nat \<rightharpoonup> (identity_plugin_error list, bytes) result"

fun unwrap_files ::
    "('pk, 'sg, 'sk) lib \<Rightarrow> 'sk key_bytes \<Rightarrow> (nat \<times> public_identity_stub) list \<Rightarrow> (identity_plugin_error, os_path) result \<Rightarrow>
     ('w, 'r) prepare_step \<Rightarrow> ('w, 'r, 'io) exchange_step \<Rightarrow> (nat \<Rightarrow> 'sk file_draws) \<Rightarrow> nat \<Rightarrow> age_stanza list list \<Rightarrow>
     file_results \<Rightarrow> (fs \<times> 'w, 'io plugin_failure, file_results) step" where
  "unwrap_files L K ids root prep exchange drawn i [] results s = (s, Inr results)"
| "unwrap_files L K ids root prep exchange drawn i (stanzas # files) results s =
     (case unwrap_file L K ids root prep exchange (drawn i) i stanzas s of
        (s, FileSkipped) \<Rightarrow> unwrap_files L K ids root prep exchange drawn (Suc i) files results s
      | (s, FileResult r) \<Rightarrow> unwrap_files L K ids root prep exchange drawn (Suc i) files (results(i \<mapsto> r)) s
      | (s, FileCancelled errors) \<Rightarrow> (s, Inr (results(i \<mapsto> Inl errors)))
      | (s, FileIo io) \<Rightarrow> (s, Inl (PluginIo io))
      | (s, FilePanic) \<Rightarrow> (s, Inl PluginPanic))"

definition unwrap_with_prepared_exchange ::
    "('pk, 'sg, 'sk) lib \<Rightarrow> 'sk key_bytes \<Rightarrow> (nat \<times> public_identity_stub) list \<Rightarrow> (identity_plugin_error, os_path) result \<Rightarrow>
     ('w, 'r) prepare_step \<Rightarrow> ('w, 'r, 'io) exchange_step \<Rightarrow> (nat \<Rightarrow> 'sk file_draws) \<Rightarrow> age_stanza list list \<Rightarrow>
     (fs \<times> 'w, 'io plugin_failure, file_results) step" where
  "unwrap_with_prepared_exchange L K ids root prep exchange drawn files =
     unwrap_files L K ids root prep exchange drawn 0 files Map.empty"

subsection \<open>Which stanzas are candidates\<close>

definition malformed_stanza :: "('pk, 'sg, 'sk) lib \<Rightarrow> age_stanza \<Rightarrow> bool" where
  "malformed_stanza L a \<longleftrightarrow> phone_tag (as_tag a) \<and> \<not> isOk (validate_stanza L (tagged_of a))"

text \<open>One error for each malformed phone stanza, in order, under its own index.\<close>

definition stanza_errors :: "('pk, 'sg, 'sk) lib \<Rightarrow> nat \<Rightarrow> nat \<Rightarrow> age_stanza list \<Rightarrow> identity_plugin_error list" where
  "stanza_errors L k i as =
     map (\<lambda>j. IpStanza k j ''malformed phone stanza'') (filter (\<lambda>j. malformed_stanza L (as ! (j - i))) [i ..< i + length as])"

lemma stanza_errors_simps [simp]:
  "stanza_errors L k i [] = []"
  "stanza_errors L k i (a # as) =
     (if malformed_stanza L a then [IpStanza k i ''malformed phone stanza''] else []) @ stanza_errors L k (Suc i) as"
proof -
  have "[i ..< i + length (a # as)] = i # [Suc i ..< Suc i + length as]"
    by (simp del: upt_Suc add: upt_conv_Cons)
  moreover have "filter (\<lambda>j. malformed_stanza L ((a # as) ! (j - i))) [Suc i ..< Suc i + length as] =
      filter (\<lambda>j. malformed_stanza L (as ! (j - Suc i))) [Suc i ..< Suc i + length as]"
    by (rule filter_cong [OF refl]) (auto simp: nth_Cons')
  ultimately show "stanza_errors L k i (a # as) =
     (if malformed_stanza L a then [IpStanza k i ''malformed phone stanza''] else []) @ stanza_errors L k (Suc i) as"
    by (simp add: stanza_errors_def)
qed (simp add: stanza_errors_def)

lemma sort_stanzas_errors: "fst (sort_stanzas L k i as) = stanza_errors L k i as"
  by (induction as arbitrary: i) (auto simp: malformed_stanza_def stanza_error_def case_prod_unfold Let_def)

lemma sort_stanzas_candidates:
  "(j, s) \<in> set (snd (sort_stanzas L k i as)) \<Longrightarrow>
     i \<le> j \<and> j < i + length as \<and> s = tagged_of (as ! (j - i)) \<and> phone_tag (st_tag s) \<and> validate_stanza L s = Inr ()"
proof (induction as arbitrary: i)
  case (Cons a as)
  show ?case
  proof (cases "(j, s) \<in> set (snd (sort_stanzas L k (Suc i) as))")
    case True
    from Cons.IH [OF this] show ?thesis by (auto simp: nth_Cons')
  next
    case False
    with Cons.prems show ?thesis
      by (auto simp: isOk_iff tagged_of_def split: prod.splits if_splits)
  qed
qed simp

lemma sort_stanzas_none:
  "\<forall>a \<in> set as. \<not> phone_tag (as_tag a) \<Longrightarrow> sort_stanzas L k i as = ([], [])"
  by (induction as arbitrary: i) auto

subsection \<open>The prefilter does not panic\<close>

definition stub_parses :: "('pk, 'sg, 'sk) lib \<Rightarrow> public_identity_stub \<Rightarrow> bool" where
  "stub_parses L stub \<longleftrightarrow> (\<exists>r. recipient_parse L (sb_recipient stub) = Inr r)"

lemma tag_matches_validated:
  assumes "validate_stanza L s = Inr ()" "st_tag s = TAG_STANZA_TAG" shows "\<exists>b. tag_matches L r s = Inr b"
  using assms by (auto simp: validate_stanza_def tag_matches_def result_iff split: if_splits)

lemma match_identities_total:
  assumes "\<forall>(i, stub) \<in> set ids. stub_parses L stub" "\<forall>r. \<exists>b. tag_matches L r s = Inr b"
  shows "\<exists>acc'. match_identities L s position ip ids acc = Some acc'"
  using assms
proof (induction ids arbitrary: ip acc)
  case (Cons q ids)
  obtain i stub where e: "q = (i, stub)" by fastforce
  obtain matched pm errors where a: "acc = (matched, pm, errors)" by (cases acc)
  obtain r where "recipient_parse L (sb_recipient stub) = Inr r" using Cons.prems(1) e by (auto simp: stub_parses_def)
  moreover obtain b where "tag_matches L r s = Inr b" using Cons.prems(2) by blast
  ultimately have r: "recipient_parse L (sb_recipient stub) = Inr r" "tag_matches L r s = Inr b" by simp_all
  from Cons.prems Cons.IH show ?case unfolding e a by (cases b) (simp_all add: r Let_def)
qed (rule exI, rule match_identities.simps(1))

lemma match_identities_choice:
  assumes "match_identities L s position ip ids (matched, pm, errors) = Some (matched', pm', errors')"
  shows "pm' = pm \<or> pm = None \<and> (\<exists>x. pm' = Some (x, position) \<and> ip \<le> x \<and> x < ip + length ids)"
  using assms
proof (induction ids arbitrary: ip matched pm errors)
  case (Cons q ids)
  obtain i stub where q: "q = (i, stub)" by fastforce
  from Cons.prems obtain r b where r: "recipient_parse L (sb_recipient stub) = Inr r" "tag_matches L r s = Inr b"
    by (auto simp: q split: sum.splits)
  show ?case
  proof (cases b)
    case False
    with Cons.prems have "match_identities L s position (Suc ip) ids (matched, pm, errors) = Some (matched', pm', errors')"
      by (simp add: q r)
    from Cons.IH [OF this] show ?thesis by auto
  next
    case True
    with Cons.prems obtain m p e where
      n: "match_identities L s position (Suc ip) ids (m, p, e) = Some (matched', pm', errors')"
      and p: "p = pm \<or> pm = None \<and> p = Some (ip, position)"
      by (auto simp: q r Let_def split: if_splits)
    from Cons.IH [OF n] p show ?thesis by auto
  qed
qed simp

lemma match_candidates_total:
  assumes "\<forall>(i, stub) \<in> set ids. stub_parses L stub" "\<forall>(j, s) \<in> set cs. validate_stanza L s = Inr ()"
  shows "\<exists>acc'. match_candidates L ids position cs acc = Some acc'"
  using assms
proof (induction cs arbitrary: position acc)
  case (Cons c cs)
  obtain j s pm errors where e: "c = (j, s)" "acc = (pm, errors)" by (metis prod.exhaust)
  show ?case
  proof (cases "st_tag s = TAG_STANZA_TAG")
    case True
    then have "\<forall>r. \<exists>b. tag_matches L r s = Inr b" using Cons.prems(2) tag_matches_validated by (auto simp: e)
    then obtain acc' where "match_identities L s position 0 ids (None, pm, errors) = Some acc'"
      using match_identities_total [OF Cons.prems(1), of s] by blast
    with True Cons.IH Cons.prems show ?thesis by (cases acc') (auto simp: e)
  qed (use Cons in \<open>simp add: e\<close>)
qed simp

lemma match_candidates_choice:
  assumes "match_candidates L ids position cs (pm, errors) = Some (pm', errors')"
  shows "pm' = pm \<or> (\<exists>x y. pm' = Some (x, y) \<and> x < length ids \<and> position \<le> y \<and> y < position + length cs)"
  using assms
proof (induction cs arbitrary: position pm errors)
  case (Cons c cs)
  obtain j s where c: "c = (j, s)" by fastforce
  show ?case
  proof (cases "st_tag s = TAG_STANZA_TAG")
    case False
    with Cons.prems have "match_candidates L ids (Suc position) cs (pm, errors) = Some (pm', errors')" by (simp add: c)
    from Cons.IH [OF this] show ?thesis by auto
  next
    case True
    with Cons.prems obtain m p e where
      i: "match_identities L s position 0 ids (None, pm, errors) = Some (m, p, e)" and
      n: "match_candidates L ids (Suc position) cs (p, e) = Some (pm', errors')"
      by (auto simp: c split: option.splits)
    from match_identities_choice [OF i] Cons.IH [OF n] show ?thesis by auto
  qed
qed simp

subsection \<open>What is selected\<close>

text \<open>A directory of configuration and a node map hold the state of a stub: its locator, in a private
  file, and the desktop state that the locator names, in another.\<close>

definition paired_state_on_disk ::
    "('pk, 'sg, 'sk) lib \<Rightarrow> 'sk key_bytes \<Rightarrow> os_path \<Rightarrow> (path \<Rightarrow> node option) \<Rightarrow> public_identity_stub \<Rightarrow>
     pairing_locator \<Rightarrow> 'sk desktop_key_state \<Rightarrow> bool" where
  "paired_state_on_disk L K root m stub l d \<longleftrightarrow>
     (\<exists>p b md. p \<in> {pairing_locator_path root stub, legacy_pairing_locator_path root stub} \<and>
        m (path_of p) = Some (Regular b md 0) \<and> md AND 63 = 0 \<and> locator_decode (minicbor L) stub b = Inr l) \<and>
     (\<exists>b md x y. resolve (m (path_of (pl_desktop_state l))) = Some (Regular b md 0) \<and> md AND 63 = 0 \<and>
        b = DESKTOP_KEY_MAGIC @ dk_desktop_id d @ x @ y \<and> kb_from_slice K x = Some (dk_signing_key d) \<and>
        kb_from_slice K y = Some (dk_selection_key d))"

lemma opens_paired_state:
  assumes "open_pairing_locator (minicbor L) root stub f = (g, Inr l)" "key_state_open L K (path_of (pl_desktop_state l)) g = (h, Inr d)"
  shows "nodes h = nodes f \<and> paired_state_on_disk L K root (nodes f) stub l d"
  using open_pairing_locator_ok [OF assms(1)] key_state_open_ok [OF assms(2)]
  unfolding paired_state_on_disk_def by (elim conjE) (simp, blast)

lemma keeps_open_identity: "keeps (\<lambda>f. P (nodes f)) (open_identity L K root position i)"
  unfolding open_identity_def
  by (cases i) (simp, intro keeps_bindS keeps_mapErrS keeps_open_pairing_locator keeps_key_state_open keeps_simps)

lemma open_identity_ok:
  assumes "open_identity L K root position (i, stub) f = (t, Inr x)"
  shows "nodes t = nodes f \<and> op_position x = position \<and> stub_paired_recipient L stub = Inr (op_recipient x) \<and>
    paired_state_on_disk L K root (nodes f) stub (op_locator x) (op_desktop x)"
proof -
  from assms obtain l g d where "open_pairing_locator (minicbor L) root stub f = (g, Inr l)"
    "key_state_open L K (path_of (pl_desktop_state l)) g = (t, Inr d)"
    "op_position x = position" "op_locator x = l" "op_desktop x = d" "stub_paired_recipient L stub = Inr (op_recipient x)"
    by (auto simp: open_identity_def bindS_Inr_iff mapErrS_Inr_iff mapErr_Inr_iff)
  with opens_paired_state show ?thesis by blast
qed

lemma open_identities_ok:
  assumes "open_identities L K root position ids f = (t, opened, errors)"
  shows "nodes t = nodes f \<and> (\<forall>x \<in> set opened. \<exists>k < length ids. op_position x = position + k \<and>
    stub_paired_recipient L (snd (ids ! k)) = Inr (op_recipient x) \<and>
    paired_state_on_disk L K root (nodes f) (snd (ids ! k)) (op_locator x) (op_desktop x))"
  using assms
proof (induction ids arbitrary: position f opened errors)
  case (Cons i ids)
  obtain g r where g: "open_identity L K root position i f = (g, r)" by fastforce
  obtain o' e' where o: "open_identities L K root (Suc position) ids g = (t, o', e')"
    using Cons.prems g by (auto split: prod.splits sum.splits)
  have same: "nodes g = nodes f" using keepsD [OF keeps_open_identity g, where P1 = "\<lambda>m. m = nodes f"] by simp
  note h = Cons.IH [OF o]
  then have n: "nodes t = nodes f" by (simp add: same)
  have ih: "\<forall>x \<in> set o'. \<exists>k < length (i # ids). op_position x = position + k \<and>
    stub_paired_recipient L (snd ((i # ids) ! k)) = Inr (op_recipient x) \<and>
    paired_state_on_disk L K root (nodes f) (snd ((i # ids) ! k)) (op_locator x) (op_desktop x)"
  proof
    fix x assume "x \<in> set o'"
    with h obtain k where "k < length ids" "op_position x = Suc position + k"
      "stub_paired_recipient L (snd (ids ! k)) = Inr (op_recipient x)"
      "paired_state_on_disk L K root (nodes f) (snd (ids ! k)) (op_locator x) (op_desktop x)" by (auto simp: same)
    then show "\<exists>k < length (i # ids). op_position x = position + k \<and>
      stub_paired_recipient L (snd ((i # ids) ! k)) = Inr (op_recipient x) \<and>
      paired_state_on_disk L K root (nodes f) (snd ((i # ids) ! k)) (op_locator x) (op_desktop x)"
      by (intro exI [of _ "Suc k"]) simp
  qed
  show ?case
  proof (cases r)
    case (Inl e)
    with Cons.prems g o have "opened = o'" by simp
    with n ih show ?thesis by simp
  next
    case (Inr x)
    with Cons.prems g o have x: "opened = x # o'" by simp
    have "\<exists>k < length (i # ids). op_position x = position + k \<and>
      stub_paired_recipient L (snd ((i # ids) ! k)) = Inr (op_recipient x) \<and>
      paired_state_on_disk L K root (nodes f) (snd ((i # ids) ! k)) (op_locator x) (op_desktop x)"
      using open_identity_ok [of L K root position "fst i" "snd i" f g x] g Inr by (intro exI [of _ 0]) simp
    with n ih x show ?thesis by simp
  qed
qed simp

lemma find_candidate_ok:
  "find_candidate L x cs = Inr (Some c) \<Longrightarrow>
     c \<in> set cs \<and> matches_stanza_v2 L (op_recipient x) (key_agreement_of L (op_desktop x)) (snd c) = Inr True"
  by (induction cs) (auto split: sum.splits bool.splits)

lemma find_opened_ok:
  "find_opened L cs xs = Inr (Some (x, c)) \<Longrightarrow> x \<in> set xs \<and> c \<in> set cs \<and>
     matches_stanza_v2 L (op_recipient x) (key_agreement_of L (op_desktop x)) (snd c) = Inr True"
  by (induction xs) (auto simp: bindE_Inr_iff split: option.splits dest: find_candidate_ok)

text \<open>What is selected: an identity of the list with its state on disk, and a candidate; the candidate is
  the only one with a single identity, or the desktop's private key recognises it.\<close>

definition selection_ok ::
    "('pk, 'sg, 'sk) lib \<Rightarrow> (nat \<times> public_identity_stub) list \<Rightarrow> (nat \<times> tagged_stanza) list \<Rightarrow> 'sk selected_candidate \<Rightarrow> bool" where
  "selection_ok L ids cs c \<longleftrightarrow>
     (sel_identity_index c, sel_stub c) \<in> set ids \<and> (sel_stanza_index c, sel_stanza c) \<in> set cs \<and>
     (if st_tag (sel_stanza c) = STANZA_TAG \<or> st_tag (sel_stanza c) = TAG_STANZA_TAG
      then length ids = 1 \<and> length cs = 1
      else \<exists>r. stub_paired_recipient L (sel_stub c) = Inr r \<and>
        matches_stanza_v2 L r (key_agreement_of L (sel_desktop c)) (sel_stanza c) = Inr True)"

lemma select_anonymous_ok:
  assumes "select_anonymous L K i c root f = (t, Inr (Some x))"
  shows "nodes t = nodes f \<and> paired_state_on_disk L K root (nodes f) (sel_stub x) (sel_locator x) (sel_desktop x) \<and>
    i = (sel_identity_index x, sel_stub x) \<and> c = (sel_stanza_index x, sel_stanza x)"
proof -
  from assms obtain l g d where "open_pairing_locator (minicbor L) root (snd i) f = (g, Inr l)"
    "key_state_open L K (path_of (pl_desktop_state l)) g = (t, Inr d)"
    "sel_locator x = l" "sel_desktop x = d" "i = (sel_identity_index x, sel_stub x)" "c = (sel_stanza_index x, sel_stanza x)"
    by (cases i; cases c) (auto simp: select_anonymous_def bindS_Inr_iff mapErrS_Inr_iff)
  with opens_paired_state show ?thesis by (metis snd_conv)
qed

lemma select_candidate_ok:
  assumes "select_candidate L K ids cs root k f = (t, Inr (Some x))"
  shows "nodes t = nodes f \<and> paired_state_on_disk L K root (nodes f) (sel_stub x) (sel_locator x) (sel_desktop x) \<and>
    selection_ok L ids cs x"
proof (cases "list_ex (\<lambda>(_, s). st_tag s = STANZA_TAG \<or> st_tag s = TAG_STANZA_TAG) cs")
  case True
  with assms have n: "length ids = 1" "length cs = 1" and a: "select_anonymous L K (ids ! 0) (cs ! 0) root f = (t, Inr (Some x))"
    by (auto simp: select_candidate_def split: if_splits)
  obtain i c where e: "ids = [i]" "cs = [c]" using n by (auto simp: length_Suc_conv)
  from select_anonymous_ok [OF a] True show ?thesis unfolding e selection_ok_def by auto
next
  case False
  with assms have "select_private L K ids cs root f = (t, Inr (Some x))"
    by (simp add: select_candidate_def split: if_splits)
  then obtain opened errors y j s where o: "open_identities L K root 0 ids f = (t, opened, errors)" and
    y: "find_opened L cs opened = Inr (Some (y, j, s))" and
    x: "x = \<lparr> sel_identity_index = fst (ids ! op_position y), sel_stub = snd (ids ! op_position y),
             sel_stanza_index = j, sel_stanza = s, sel_locator = op_locator y, sel_desktop = op_desktop y \<rparr>"
    by (auto simp: select_private_def split: prod.splits sum.splits option.splits if_splits)
  from find_opened_ok [OF y] have f: "y \<in> set opened" "(j, s) \<in> set cs"
    "matches_stanza_v2 L (op_recipient y) (key_agreement_of L (op_desktop y)) s = Inr True" by auto
  with open_identities_ok [OF o] have n: "nodes t = nodes f" and i: "op_position y < length ids"
    "stub_paired_recipient L (snd (ids ! op_position y)) = Inr (op_recipient y)"
    "paired_state_on_disk L K root (nodes f) (snd (ids ! op_position y)) (op_locator y) (op_desktop y)"
    by auto
  have "st_tag s \<noteq> STANZA_TAG" "st_tag s \<noteq> TAG_STANZA_TAG" using False f(2) by (auto simp: list_ex_iff)
  with n i f nth_mem [OF i(1)] show ?thesis by (simp add: x selection_ok_def)
qed

lemma select_candidate_keeps: "select_candidate L K ids cs root k f = (t, r) \<Longrightarrow> nodes t = nodes f"
proof -
  assume s: "select_candidate L K ids cs root k f = (t, r)"
  have "nodes g = nodes f" if "select_anonymous L K i c root f = (g, r)" for i c g
  proof -
    have "keeps (\<lambda>f. P (nodes f)) (select_anonymous L K i c root)" for P
      unfolding select_anonymous_def case_prod_unfold
      by (intro keeps_bindS keeps_mapErrS keeps_open_pairing_locator keeps_key_state_open keeps_simps)
    from keepsD [OF this that, of "\<lambda>m. m = nodes f"] show ?thesis by simp
  qed
  moreover have "nodes g = nodes f" if "select_private L K ids cs root f = (g, r)" for g
  proof -
    obtain h os es where h: "open_identities L K root 0 ids f = (h, os, es)" by (metis prod.collapse)
    with that have "g = h" by (simp add: select_private_def)
    with open_identities_ok [OF h] show ?thesis by simp
  qed
  moreover have "t = f \<or> select_anonymous L K (ids ! 0) (cs ! 0) root f = (t, r) \<or> select_private L K ids cs root f = (t, r)"
    using s by (simp add: select_candidate_def split: if_splits)
  ultimately show ?thesis by metis
qed

subsection \<open>What an iteration releases\<close>

text \<open>A response that answers the request of a session: signed by the phone of the stub, for the digest
  and the identifiers of this request, in time.\<close>

definition authorised_response ::
    "('pk, 'sg, 'sk) lib \<Rightarrow> public_identity_stub \<Rightarrow> verified_request \<Rightarrow> u64 \<Rightarrow> bytes \<Rightarrow> bool" where
  "authorised_response L stub v now encoded \<longleftrightarrow> (\<exists>m. signed_response_decode L encoded = Inr m \<and>
     rs_request_id (payload m) = rq_request_id (vr_payload v) \<and> rs_request_digest (payload m) = vr_digest v \<and>
     rs_identity_id (payload m) = sb_identity_id stub \<and> rs_desktop_id (payload m) = sb_desktop_id stub \<and>
     validate_request_time (rq_expires_at_unix (vr_payload v)) now = Inr () \<and>
     (\<exists>key. verifying L (sb_phone_signing_public_key stub) = Inr key \<and>
        verify L key RESPONSE_SIG (encode_response L (payload m)) (signature m) = Inr ()))"

lemma unwrap_receive_authorised:
  assumes "unwrap_receive L R encoded now (us, s) = ((us', s'), Inr fk)" "us_pairing us = stub_pairing stub"
  shows "authorised_response L stub (us_request us) now encoded \<and> length fk = 16"
proof -
  from assms(1) obtain m where d: "signed_response_decode L encoded = Inr m"
    and o: "open_response_checks L m (us_request us) (us_pairing us) (us_desktop_session us) now = Inr fk"
    by (auto simp: unwrap_receive_ok open_response_ok)
  from d open_response_checks_bound [OF o] assms(2) show ?thesis
    unfolding authorised_response_def by (simp add: stub_pairing_def)
qed

text \<open>The time of the receipt: a clock before the epoch counts as the end of time.\<close>

definition receive_time :: "int \<Rightarrow> u64" where
  "receive_time clock = (case now_unix clock of Inl _ \<Rightarrow> -1 | Inr t \<Rightarrow> t)"

definition released ::
    "('pk, 'sg, 'sk) lib \<Rightarrow> ('w, 'r) prepare_step \<Rightarrow> ('w, 'r, 'io) exchange_step \<Rightarrow> 'sk file_draws \<Rightarrow> 'sk selected_candidate \<Rightarrow> 'w \<Rightarrow> bool" where
  "released L prep exchange drawn c w \<longleftrightarrow> (\<exists>w1 w2 prepared now us response.
     prep (sel_stub c) (sel_locator c) w = (w1, Inr prepared) \<and> now_unix (fd_begin_clock drawn) = Inr now \<and>
     unwrap_begin L (sel_stub c) (sel_desktop c) (sel_stanza c) (Some CALLER_HINT) now
       (fd_session drawn, fd_request_id drawn, fd_nonce drawn) = Inr us \<and>
     exchange prepared (unwrap_signed_request L us) (unwrap_display_of us) w1 = (w2, Inr (Inr response)) \<and>
     authorised_response L (sel_stub c) (us_request us) (receive_time (fd_receive_clock drawn)) response)"

lemma unwrap_exchanged_released:
  assumes "unwrap_exchanged L exchange prepared clock k c us (slot, w) = (t, FileResult (Inr fk))"
  shows "\<exists>w' response us' slot'. exchange prepared (unwrap_signed_request L us) (unwrap_display_of us) w = (w', Inr (Inr response)) \<and>
    unwrap_receive L (file_ops (minicbor L)) response (receive_time clock) (us, slot) = ((us', slot'), Inr fk)"
proof -
  obtain w' r where e: "exchange prepared (unwrap_signed_request L us) (unwrap_display_of us) w = (w', r)" by fastforce
  from assms obtain response where r: "r = Inr (Inr response)"
    unfolding unwrap_exchanged_def by (auto simp: e exchange_failure_def split: sum.splits exchange_error.splits)
  obtain us' slot' q where q: "unwrap_receive L (file_ops (minicbor L)) response (receive_time clock) (us, slot) = ((us', slot'), q)"
    by (metis prod.collapse)
  from assms have "q = Inr fk"
    unfolding unwrap_exchanged_def by (simp add: e r q [unfolded receive_time_def] split: sum.splits)
  with e r q show ?thesis by blast
qed

lemma unwrap_selected_released:
  assumes "unwrap_selected L prep exchange drawn k c (f, w) = (t, FileResult (Inr fk))"
  shows "released L prep exchange drawn c w \<and> length fk = 16"
proof -
  obtain w1 p where p: "prep (sel_stub c) (sel_locator c) w = (w1, p)" by fastforce
  from assms obtain prepared where p': "p = Inr prepared"
    by (cases p) (simp_all add: unwrap_selected_def p Let_def)
  obtain f1 g where g: "file_open_guard (minicbor L) (path_of (pl_replay_state (sel_locator c)))
      (scope_for_pairing DesktopResponses (stub_pairing (sel_stub c))) DEFAULT_REPLAY_CAPACITY f = (f1, g)" by fastforce
  from assms obtain guard where g': "g = Inr guard"
    by (cases g) (simp_all add: unwrap_selected_def p p' g Let_def)
  from assms obtain now where n: "now_unix (fd_begin_clock drawn) = Inr now"
    by (cases "now_unix (fd_begin_clock drawn)") (simp_all add: unwrap_selected_def p p' g g' Let_def)
  let ?started = "unwrap_begin L (sel_stub c) (sel_desktop c) (sel_stanza c) (Some CALLER_HINT) now
      (fd_session drawn, fd_request_id drawn, fd_nonce drawn)"
  from assms obtain us where us: "?started = Inr us"
    by (cases ?started) (simp_all add: unwrap_selected_def p p' g g' n Let_def)
  obtain s' o' where x: "unwrap_exchanged L exchange prepared (fd_receive_clock drawn) k c us ((Some guard, f1), w1) = (s', o')"
    by fastforce
  from assms have "o' = FileResult (Inr fk)"
    by (cases s') (simp add: unwrap_selected_def p p' g g' n us x Let_def)
  from unwrap_exchanged_released [OF x [unfolded this]] obtain w' response us' slot' where
    e: "exchange prepared (unwrap_signed_request L us) (unwrap_display_of us) w1 = (w', Inr (Inr response))" and
    r: "unwrap_receive L (file_ops (minicbor L)) response (receive_time (fd_receive_clock drawn)) (us, (Some guard, f1)) =
      ((us', slot'), Inr fk)" by blast
  have "us_pairing us = stub_pairing (sel_stub c)"
    using us by (auto simp: unwrap_begin_def Let_def result_iff)
  from unwrap_receive_authorised [OF r this] p p' n us e show ?thesis unfolding released_def by blast
qed

text \<open>An iteration that releases a key selected a candidate among the valid phone stanzas of its
  file.\<close>

lemma unwrap_file_released:
  assumes "unwrap_file L K ids root prep exchange drawn k as (f, w) = (t, FileResult (Inr fk))"
  shows "\<exists>r c. root = Inr r \<and> released L prep exchange drawn c w \<and> length fk = 16 \<and>
    paired_state_on_disk L K r (nodes f) (sel_stub c) (sel_locator c) (sel_desktop c) \<and>
    (sel_identity_index c, sel_stub c) \<in> set ids \<and> sel_stanza_index c < length as \<and>
    sel_stanza c = tagged_of (as ! sel_stanza_index c) \<and> phone_tag (st_tag (sel_stanza c)) \<and>
    validate_stanza L (sel_stanza c) = Inr () \<and>
    (st_tag (sel_stanza c) = STANZA_TAG_V2 \<longrightarrow> (\<exists>q. stub_paired_recipient L (sel_stub c) = Inr q \<and>
       matches_stanza_v2 L q (key_agreement_of L (sel_desktop c)) (sel_stanza c) = Inr True))"
proof -
  obtain es cs where so: "sort_stanzas L k 0 as = (es, cs)" by fastforce
  from assms obtain pm where e: "es = []" "cs \<noteq> []" and m: "match_candidates L ids 0 cs (None, []) = Some (pm, [])"
    by (auto simp: unwrap_file_def so split: if_splits option.splits)
  let ?cs = "if pm = None then filter (\<lambda>(_, s). st_tag s \<noteq> TAG_STANZA_TAG) cs else cs"
  from assms obtain r where r: "root = Inr r" "?cs \<noteq> []"
    by (cases root; cases "?cs = []") (simp_all add: unwrap_file_def so e m Let_def)
  obtain ids' cs' where sel: "(case pm of Some (ip, position) \<Rightarrow> select_candidate L K [ids ! ip] [?cs ! position] r k
      | None \<Rightarrow> select_candidate L K ids ?cs r k) = select_candidate L K ids' cs' r k"
    and sub: "set ids' \<subseteq> set ids" "set cs' \<subseteq> set cs"
  proof (cases pm)
    case None
    show thesis by (rule that [of ids ?cs]) (auto simp: None)
  next
    case (Some q)
    obtain x y where q: "q = (x, y)" by fastforce
    from match_candidates_choice [OF m] Some q have "x < length ids" "y < length cs" by auto
    with that [of "[ids ! x]" "[cs ! y]"] show thesis by (simp add: Some q)
  qed
  obtain g sc where s: "select_candidate L K ids' cs' r k f = (g, sc)" by fastforce
  from assms obtain c where c: "sc = Inr (Some c)" and u: "unwrap_selected L prep exchange drawn k c (g, w) = (t, FileResult (Inr fk))"
    unfolding unwrap_file_def
    by (auto simp: so e m r sel s Let_def simp del: if_split_eq1 split: sum.splits option.splits if_splits)
  from select_candidate_ok [OF s [unfolded c]] have n: "nodes g = nodes f"
    "paired_state_on_disk L K r (nodes f) (sel_stub c) (sel_locator c) (sel_desktop c)" and o: "selection_ok L ids' cs' c"
    by auto
  then have i: "(sel_identity_index c, sel_stub c) \<in> set ids" and j: "(sel_stanza_index c, sel_stanza c) \<in> set cs"
    using sub by (auto simp: selection_ok_def)
  have j': "(sel_stanza_index c, sel_stanza c) \<in> set (snd (sort_stanzas L k 0 as))" using j so by simp
  from o have v: "st_tag (sel_stanza c) = STANZA_TAG_V2 \<longrightarrow> (\<exists>q. stub_paired_recipient L (sel_stub c) = Inr q \<and>
       matches_stanza_v2 L q (key_agreement_of L (sel_desktop c)) (sel_stanza c) = Inr True)"
    by (auto simp: selection_ok_def split: if_splits)
  from sort_stanzas_candidates [OF j'] unwrap_selected_released [OF u] r i n v show ?thesis by auto
qed

subsection \<open>The file loop\<close>

text \<open>A result of the run is the outcome of the iteration of its file, in the state that the run over
  the files before it leaves.\<close>

lemma unwrap_files_at:
  assumes "unwrap_files L K ids root prep exchange drawn i files results s = (t, Inr results')"
    and "results' k = Some r" "results k = None" "\<forall>j \<ge> i. results j = None"
  shows "i \<le> k \<and> k < i + length files \<and> (\<exists>s' before t' o'.
    unwrap_files L K ids root prep exchange drawn i (take (k - i) files) results s = (s', Inr before) \<and>
    unwrap_file L K ids root prep exchange (drawn k) k (files ! (k - i)) s' = (t', o') \<and>
    (o' = FileResult r \<or> (\<exists>es. o' = FileCancelled es \<and> r = Inl es)))"
  using assms
proof (induction files arbitrary: i results s)
  case (Cons as files)
  obtain s1 o1 where u: "unwrap_file L K ids root prep exchange (drawn i) i as s = (s1, o1)" by fastforce
  show ?case
  proof (cases "k = i \<and> (o1 = FileResult r \<or> (\<exists>es. o1 = FileCancelled es \<and> r = Inl es))")
    case True
    with u show ?thesis by auto
  next
    case False
    obtain results1 where n: "unwrap_files L K ids root prep exchange drawn (Suc i) files results1 s1 = (t, Inr results')"
      and r1: "results1 k = None" "\<forall>j \<ge> Suc i. results1 j = None"
      and first: "\<And>fs. unwrap_files L K ids root prep exchange drawn i (as # fs) results s =
        unwrap_files L K ids root prep exchange drawn (Suc i) fs results1 s1"
    proof (cases o1)
      case FileSkipped
      show thesis by (rule that [of results]) (use Cons.prems u FileSkipped in simp_all)
    next
      case (FileResult q)
      have "results' k = Some q" if "k = i"
      proof -
        have "unwrap_files L K ids root prep exchange drawn n fs res s = (t, Inr res') \<Longrightarrow> k < n \<Longrightarrow> res' k = res k" for n fs res s res'
        proof (induction fs arbitrary: n res s)
          case (Cons a fs)
          show ?case using Cons.prems Cons.IH [of "Suc n"]
            by (auto split: prod.splits file_outcome.splits)
        qed simp
        from this [of "Suc i" files "results(i \<mapsto> q)" s1 results'] Cons.prems(1) u FileResult that show ?thesis by simp
      qed
      with Cons.prems(2) False FileResult have "k \<noteq> i" by auto
      show thesis by (rule that [of "results(i \<mapsto> q)"]) (use Cons.prems u FileResult \<open>k \<noteq> i\<close> in simp_all)
    next
      case (FileCancelled es)
      with Cons.prems u have "results' = results(i \<mapsto> Inl es)" by simp
      with Cons.prems(2,3) False FileCancelled show thesis by (auto split: if_splits)
    qed (use Cons.prems(1) u in simp_all)
    from Cons.IH [OF n Cons.prems(2) r1] obtain s' before t' o' where a: "Suc i \<le> k" "k < Suc i + length files"
      "unwrap_files L K ids root prep exchange drawn (Suc i) (take (k - Suc i) files) results1 s1 = (s', Inr before)"
      "unwrap_file L K ids root prep exchange (drawn k) k (files ! (k - Suc i)) s' = (t', o')"
      "o' = FileResult r \<or> (\<exists>es. o' = FileCancelled es \<and> r = Inl es)" by blast
    moreover have "k - i = Suc (k - Suc i)" using a(1) by simp
    ultimately show ?thesis using first by auto
  qed
qed simp

subsection \<open>No panic\<close>

lemma unwrap_selected_no_panic: "unwrap_selected L prep exchange drawn k c s = (t, o') \<Longrightarrow> o' \<noteq> FilePanic"
  by (auto simp: unwrap_selected_def unwrap_exchanged_def exchange_failure_def Let_def
      split: prod.splits sum.splits exchange_error.splits)

lemma unwrap_file_no_panic:
  assumes "\<forall>(i, stub) \<in> set ids. stub_parses L stub"
    and "unwrap_file L K ids root prep exchange drawn k as s = (t, o')"
  shows "o' \<noteq> FilePanic"
proof -
  obtain es cs f w where so: "sort_stanzas L k 0 as = (es, cs)" and s: "s = (f, w)" by (metis prod.collapse)
  have "\<forall>(j, x) \<in> set cs. validate_stanza L x = Inr ()"
    using sort_stanzas_candidates [where L = L and k = k and i = 0 and as = as] so by auto
  from match_candidates_total [OF assms(1) this, of 0 "(None, [])"] obtain pm e where
    m: "match_candidates L ids 0 cs (None, []) = Some (pm, e)" by auto
  show ?thesis using assms(2)
    by (auto simp: unwrap_file_def s so m Let_def split: prod.splits sum.splits option.splits if_splits
        dest: unwrap_selected_no_panic)
qed

lemma unwrap_files_no_panic:
  assumes "\<forall>(i, stub) \<in> set ids. stub_parses L stub"
  shows "snd (unwrap_files L K ids root prep exchange drawn i files results s) \<noteq> Inl PluginPanic"
proof (induction files arbitrary: i results s)
  case (Cons as files)
  obtain s1 o1 where u: "unwrap_file L K ids root prep exchange (drawn i) i as s = (s1, o1)" by fastforce
  with unwrap_file_no_panic [OF assms u] Cons.IH show ?case by (cases o1) simp_all
qed simp

text \<open>An I/O error of the run is one that the exchange returns for a prepared route.\<close>

definition exchange_avoids :: "('w, 'r) prepare_step \<Rightarrow> ('w, 'r, 'io) exchange_step \<Rightarrow> 'io \<Rightarrow> bool" where
  "exchange_avoids prep exchange io \<longleftrightarrow> (\<forall>stub l w t r request display w'.
     prep stub l w = (t, Inr r) \<longrightarrow> snd (exchange r request display w') \<noteq> Inl io)"

lemma unwrap_selected_avoids:
  assumes "exchange_avoids prep exchange io" "unwrap_selected L prep exchange drawn k c (f, w) = (t, o')"
  shows "o' \<noteq> FileIo (CallbackIo io)"
proof
  assume o: "o' = FileIo (CallbackIo io)"
  obtain w1 p where p: "prep (sel_stub c) (sel_locator c) w = (w1, p)" by fastforce
  from assms(2) o obtain r us slot x where r: "p = Inr r" and
    x: "unwrap_exchanged L exchange r (fd_receive_clock drawn) k c us (slot, w1) = (x, FileIo (CallbackIo io))"
    by (auto simp: unwrap_selected_def p Let_def split: prod.splits sum.splits)
  have "snd (exchange r (unwrap_signed_request L us) (unwrap_display_of us) w1) = Inl io"
    using x by (auto simp: unwrap_exchanged_def exchange_failure_def split: prod.splits sum.splits exchange_error.splits)
  with assms(1) p r show False unfolding exchange_avoids_def by blast
qed

lemma unwrap_file_avoids:
  assumes "exchange_avoids prep exchange io" "unwrap_file L K ids root prep exchange drawn k as s = (t, o')"
  shows "o' \<noteq> FileIo (CallbackIo io)"
  using assms(2)
  by (cases s) (auto simp: unwrap_file_def Let_def split: prod.splits sum.splits option.splits if_splits
    dest: unwrap_selected_avoids [OF assms(1)])

lemma unwrap_files_avoids:
  assumes "exchange_avoids prep exchange io"
  shows "snd (unwrap_files L K ids root prep exchange drawn i files results s) \<noteq> Inl (PluginIo (CallbackIo io))"
proof (induction files arbitrary: i results s)
  case (Cons as files)
  obtain s1 o1 where u: "unwrap_file L K ids root prep exchange (drawn i) i as s = (s1, o1)" by fastforce
  with unwrap_file_avoids [OF assms u] Cons.IH show ?case by (cases o1) simp_all
qed simp

subsection \<open>Strict stanzas\<close>

lemma unwrap_file_malformed:
  "stanza_errors L k 0 as \<noteq> [] \<Longrightarrow>
     unwrap_file L K ids root prep exchange drawn k as s = (s, FileResult (Inl (stanza_errors L k 0 as)))"
  using sort_stanzas_errors [of L k 0 as] by (cases s) (auto simp: unwrap_file_def split: prod.splits)

lemma unwrap_file_foreign:
  "\<forall>a \<in> set as. \<not> phone_tag (as_tag a) \<Longrightarrow> unwrap_file L K ids root prep exchange drawn k as s = (s, FileSkipped)"
  using sort_stanzas_none [of as L k 0] by (cases s) (simp add: unwrap_file_def)

subsection \<open>Asking the phone\<close>

text \<open>The exchanges of a run: each request, and whether the user cancelled it.\<close>

definition logged_prepare :: "('w, 'r) prepare_step \<Rightarrow> ('w \<times> (bytes \<times> bool) list, 'r) prepare_step" where
  "logged_prepare prep = (\<lambda>stub l (w, log). case prep stub l w of (w, r) \<Rightarrow> ((w, log), r))"

definition logged_exchange :: "('w, 'r, 'io) exchange_step \<Rightarrow> ('w \<times> (bytes \<times> bool) list, 'r, 'io) exchange_step" where
  "logged_exchange exchange = (\<lambda>route request display (w, log). case exchange route request display w of
     (w, r) \<Rightarrow> ((w, log @ [(request, r = Inr (Inl ExchangeCancelled))]), r))"

definition asked_once :: "(bytes \<times> bool) list \<Rightarrow> (bytes \<times> bool) list \<Rightarrow> 'io file_outcome \<Rightarrow> bool" where
  "asked_once before after o' \<longleftrightarrow> after = before \<and> (\<forall>es. o' \<noteq> FileCancelled es) \<or>
     (\<exists>r. after = before @ [(r, False)]) \<and> (\<forall>es. o' \<noteq> FileCancelled es) \<or>
     (\<exists>r es. after = before @ [(r, True)] \<and> o' = FileCancelled es)"

lemma unwrap_exchanged_log:
  assumes "unwrap_exchanged L (logged_exchange exchange) prepared clock k c us (slot, (w, log)) = ((slot', (w', log')), o')"
  shows "asked_once log log' o'"
proof -
  obtain w1 r where e: "exchange prepared (unwrap_signed_request L us) (unwrap_display_of us) w = (w1, r)" by fastforce
  show ?thesis
  proof (cases r)
    case (Inl io)
    with assms e show ?thesis by (auto simp: unwrap_exchanged_def logged_exchange_def asked_once_def)
  next
    case (Inr q)
    show ?thesis
    proof (cases q)
      case (Inl x)
      with Inr assms e show ?thesis
        by (cases x) (auto simp: unwrap_exchanged_def logged_exchange_def asked_once_def exchange_failure_def)
    next
      case (Inr response)
      with \<open>r = Inr q\<close> assms e show ?thesis
        by (auto simp: unwrap_exchanged_def logged_exchange_def asked_once_def split: prod.splits sum.splits)
    qed
  qed
qed

lemma unwrap_selected_log:
  assumes "unwrap_selected L (logged_prepare prep) (logged_exchange exchange) drawn k c (f, (w, log)) = ((f', (w', log')), o')"
  shows "asked_once log log' o'"
proof -
  obtain w1 p where p: "prep (sel_stub c) (sel_locator c) w = (w1, p)" by fastforce
  obtain f1 g where g: "file_open_guard (minicbor L) (path_of (pl_replay_state (sel_locator c)))
      (scope_for_pairing DesktopResponses (stub_pairing (sel_stub c))) DEFAULT_REPLAY_CAPACITY f = (f1, g)" by fastforce
  show ?thesis
  proof (cases "\<exists>prepared guard now us. p = Inr prepared \<and> g = Inr guard \<and> now_unix (fd_begin_clock drawn) = Inr now \<and>
      unwrap_begin L (sel_stub c) (sel_desktop c) (sel_stanza c) (Some CALLER_HINT) now
        (fd_session drawn, fd_request_id drawn, fd_nonce drawn) = Inr us")
    case True
    then obtain prepared guard now us where h: "p = Inr prepared" "g = Inr guard" "now_unix (fd_begin_clock drawn) = Inr now"
      "unwrap_begin L (sel_stub c) (sel_desktop c) (sel_stanza c) (Some CALLER_HINT) now
        (fd_session drawn, fd_request_id drawn, fd_nonce drawn) = Inr us" by blast
    obtain slot w2 log2 o2 where x: "unwrap_exchanged L (logged_exchange exchange) prepared (fd_receive_clock drawn) k c us
        ((Some guard, f1), (w1, log)) = ((slot, (w2, log2)), o2)" by (metis prod.collapse)
    from assms have "log2 = log'" "o2 = o'" by (simp_all add: unwrap_selected_def logged_prepare_def p g h x Let_def)
    with unwrap_exchanged_log [OF x] show ?thesis by simp
  next
    case False
    with assms have "log' = log \<and> (\<forall>es. o' \<noteq> FileCancelled es)"
      by (auto simp: unwrap_selected_def logged_prepare_def p g Let_def split: sum.splits)
    then show ?thesis by (simp add: asked_once_def)
  qed
qed

lemma unwrap_file_log:
  assumes "unwrap_file L K ids root (logged_prepare prep) (logged_exchange exchange) drawn k as (f, (w, log)) = ((f', (w', log')), o')"
  shows "asked_once log log' o'"
proof -
  have "asked_once log log' o' \<or> log' = log \<and> (\<forall>es. o' \<noteq> FileCancelled es)"
    using assms
    by (auto simp: unwrap_file_def Let_def split: prod.splits sum.splits option.splits if_splits dest: unwrap_selected_log)
  then show ?thesis by (auto simp: asked_once_def)
qed

lemma unwrap_files_log:
  assumes "unwrap_files L K ids root (logged_prepare prep) (logged_exchange exchange) drawn i files results (f, (w, log)) =
      ((f', (w', log')), r)"
  shows "\<exists>asked. log' = log @ asked \<and> length asked \<le> length files \<and> (\<forall>j. Suc j < length asked \<longrightarrow> \<not> snd (asked ! j))"
  using assms
proof (induction files arbitrary: i results f w log)
  case (Cons as files)
  obtain f1 w1 log1 o1 where u: "unwrap_file L K ids root (logged_prepare prep) (logged_exchange exchange) (drawn i) i as (f, (w, log)) =
      ((f1, (w1, log1)), o1)" by (metis prod.collapse)
  note a = unwrap_file_log [OF u]
  show ?case
  proof (cases "\<exists>results1. unwrap_files L K ids root (logged_prepare prep) (logged_exchange exchange) drawn (Suc i) files results1
      (f1, (w1, log1)) = ((f', (w', log')), r) \<and> (\<forall>es. o1 \<noteq> FileCancelled es)")
    case True
    then obtain asked where n: "log' = log1 @ asked" "length asked \<le> length files" "\<forall>j. Suc j < length asked \<longrightarrow> \<not> snd (asked ! j)"
      using Cons.IH by blast
    from a True consider "log1 = log" | q where "log1 = log @ [(q, False)]" by (auto simp: asked_once_def)
    then show ?thesis
    proof cases
      case 2
      with n show ?thesis by (intro exI [of _ "(q, False) # asked"]) (auto simp: nth_Cons')
    qed (use n in auto)
  next
    case False
    with Cons.prems u have "log' = log1" by (cases o1) auto
    with a have "\<exists>asked. log' = log @ asked \<and> length asked \<le> 1" unfolding asked_once_def by auto
    then show ?thesis by auto
  qed
qed simp

end
