(* ===== verification/Age_Exchange.thy ===== *)
theory Age_Exchange
  imports Age_Identity Storage_Properties Desktop_Properties
begin

text \<open>
  A whole exchange between the two age plugins and a phone: a desktop whose state for a stub is on
  disk, a phone that answers the request it is shown, and the run of \<open>unwrap_with_prepared_exchange\<close>
  over a file that was wrapped to the stub.
\<close>

subsection \<open>The phone\<close>

text \<open>What the core crate gives the phone: the request is decoded, accepted once, its stanza unwrapped
  and the key sealed to the session.\<close>

definition phone_answers ::
    "('pk, 'sg, 'sk) lib \<Rightarrow> 's replay_ops \<Rightarrow> pairing_record \<Rightarrow> 'sk \<Rightarrow> 'sk \<Rightarrow> 'sk \<times> bytes \<Rightarrow> u64 \<Rightarrow> bytes \<Rightarrow>
     ('s, unit, bytes) step" where
  "phone_answers L R pairing identity phone drawn now request =
     bindS (liftS (mapErr (\<lambda>_. ()) (signed_request_decode L request))) (\<lambda>m.
     bindS (mapErrS (\<lambda>_. ()) (verify_request_with_replay L R m pairing now)) (\<lambda>v.
     bindS (liftS (mapErr (\<lambda>_. ()) (unwrap_file_key L identity (rq_recipient_stanza (payload m))))) (\<lambda>fk.
     bindS (liftS (mapErr (\<lambda>_. ()) (seal_response L v fk (signing_key_signer L phone) drawn))) (\<lambda>r.
     retS (signed_response_encode L r)))))"

definition phone_exchange ::
    "('pk, 'sg, 'sk) lib \<Rightarrow> 's replay_ops \<Rightarrow> pairing_record \<Rightarrow> 'sk \<Rightarrow> 'sk \<Rightarrow> 'sk \<times> bytes \<Rightarrow> u64 \<Rightarrow> ('s, 'r, 'io) exchange_step" where
  "phone_exchange L R pairing identity phone drawn now = (\<lambda>route request display s.
     case phone_answers L R pairing identity phone drawn now request s of
       (s, Inl _) \<Rightarrow> (s, Inr (Inl ExchangeFailed))
     | (s, Inr response) \<Rightarrow> (s, Inr (Inr response)))"

lemma phone_answers_run:
  assumes "signed_request_decode L request = Inr m" "verify_request_with_replay L R m pairing now s = (s', Inr v)"
    and "unwrap_file_key L identity (rq_recipient_stanza (payload m)) = Inr fk"
    and "seal_response L v fk (signing_key_signer L phone) drawn = Inr r"
  shows "phone_answers L R pairing identity phone drawn now request s = (s', Inr (signed_response_encode L r))"
  using assms by (simp add: phone_answers_def bindS_def mapErrS_def)

lemma phone_exchange_run:
  "phone_answers L R pairing identity phone drawn now request s = (s', Inr response) \<Longrightarrow>
     phone_exchange L R pairing identity phone drawn now route request display s = (s', Inr (Inr response))"
  by (simp add: phone_exchange_def)

subsection \<open>The disk of a paired desktop\<close>

text \<open>Nothing fails; the locator of the stub is in a private directory; it names the desktop state and
  a replay state, with no lock held and no temporary file in the way.\<close>

definition paired_disk ::
    "('pk, 'sg, 'sk) lib \<Rightarrow> 'sk key_bytes \<Rightarrow> os_path \<Rightarrow> public_identity_stub \<Rightarrow> pairing_locator \<Rightarrow> 'sk desktop_key_state \<Rightarrow>
     replay_state \<Rightarrow> fs \<Rightarrow> bool" where
  "paired_disk L K root stub l d st f \<longleftrightarrow> faults f = [] \<and>
     (\<exists>md. nodes f (path_of root) = Some (Dir md) \<and> md AND 63 = 0) \<and>
     (\<exists>b. nodes f (path_of (pairing_locator_path root stub)) = Some (Regular b PRIVATE_MODE 0) \<and> b \<noteq> [] \<and>
        length b \<le> 4096 \<and> locator_decode (minicbor L) stub b = Inr l) \<and>
     nodes f (path_of (pl_desktop_state l)) = Some (Regular (encode_key_state K d) PRIVATE_MODE 0) \<and>
     orderly (path_of (pl_replay_state l)) f \<and>
     nodes f (path_of (pl_replay_state l)) = Some (Regular (state_encode (minicbor L) st) PRIVATE_MODE 0) \<and>
     (\<forall>q \<in> temps (path_of (pl_replay_state l)). sibling_path (path_of (pl_replay_state l)) ''.lock'' \<noteq> Inr q \<longrightarrow> nodes f q = None)"

text \<open>A guard on the replay state of such a disk consumes a response.\<close>

lemma guard_consumes:
  assumes g: "fg_path g = p" "\<not> fg_poisoned g" and f: "faults f = []" and o: "orderly p h" "nodes f = nodes h"
    and n: "nodes f p = Some (Regular b PRIVATE_MODE 0)"
      "\<forall>q \<in> temps p. sibling_path p ''.lock'' \<noteq> Inr q \<longrightarrow> nodes f q = None"
    and st: "state_consume_response (scope_new DesktopResponses d i) x e now (fg_capacity g) (fg_state g) = (st', Inr ())"
  shows "\<exists>t. ro_response (file_ops cb) d i x e now (Some g, f) = (t, Inr ())"
proof -
  from o obtain d' md where dir: "parent p = Some d'" "nodes f d' = Some (Dir md)" and l: "\<exists>l. sibling_path p ''.lock'' = Inr l"
    by (auto simp: orderly_def)
  from l obtain a c where c: "comps p = a @ [c]" "c \<noteq> ''..''" by (auto simp: sibling_path_iff)
  let ?q = "p\<lparr> comps := a @ [c @ temp_suffix f] \<rparr>"
  have q: "sibling_path p (temp_suffix f) = Inr ?q" using c by (simp add: sibling_path_iff)
  have "?q \<in> temps p" using q temp_suffix_nonempty unfolding temps_def by blast
  moreover have "sibling_path p ''.lock'' \<noteq> Inr ?q"
  proof
    assume "sibling_path p ''.lock'' = Inr ?q"
    then have "p\<lparr> comps := a @ [c @ ''.lock''] \<rparr> = ?q" using c by (auto simp: sibling_path_iff)
    then have "comps (p\<lparr> comps := a @ [c @ ''.lock''] \<rparr>) = comps ?q" by (rule arg_cong)
    with temp_suffix_not_lock [of f] show False by simp
  qed
  ultimately have "nodes f ?q = None" using n(2) by blast
  with atomic_replace_run [OF f q _ _ dir] n(1) obtain t where
    "atomic_replace p (state_encode cb st') f = (t, Inr ())" by fastforce
  with g st show ?thesis
    by (simp add: file_ops_def slot_step_def file_consume_response_def commit_def guard_atomic_replace_def mapErrS_def)
qed

lemma fresh_consumes:
  fixes t0 now e :: u64
  assumes "unat t0 \<le> unat now" "unat now \<le> unat e" "unat e \<le> unat now + 300" "unat e < 2 ^ 63"
  shows "\<exists>st'. state_consume_response (scope_new DesktopResponses d i) x e now DEFAULT_REPLAY_CAPACITY
    (state_new (scope_new DesktopResponses d i) t0) = (st', Inr ())"
  using assms
  by (auto simp: state_consume_response_ok state_new_def retained_def scope_new_def DEFAULT_REPLAY_CAPACITY_def
      validate_expiry_def validate_request_time_iff word_le_nat_alt)

lemma fresh_good:
  assumes "length d = 16" "length i = 16"
  shows "wf_state (state_new (scope_new DesktopResponses d i) t0)" "state_inv DEFAULT_REPLAY_CAPACITY (state_new (scope_new DesktopResponses d i) t0)"
  using assms
  by (simp_all add: wf_state_def state_new_def scope_new_def state_inv_def entries_ok_def DEFAULT_REPLAY_CAPACITY_def)

subsection \<open>The run\<close>

lemma now_unix_uint [simp]: "now_unix (uint (t :: u64)) = Inr t" "receive_time (uint t) = t"
  by (simp_all add: now_unix_def receive_time_def)

lemma wrapped_candidates:
  assumes "st_tag s = STANZA_TAG_V2" "validate_stanza L s = Inr ()"
  shows "sort_stanzas L k 0 [to_age_stanza s] = ([], [(0, s)])" "match_candidates L ids 0 [(0, s)] (None, []) = Some (None, [])"
proof -
  have t: "as_tag (to_age_stanza s) = STANZA_TAG_V2" "tagged_of (to_age_stanza s) = s"
    using assms(1) by (simp_all add: to_age_stanza_def tagged_of_def)
  then show "sort_stanzas L k 0 [to_age_stanza s] = ([], [(0, s)])" using assms(2) by (simp add: phone_tag_def)
  show "match_candidates L ids 0 [(0, s)] (None, []) = Some (None, [])"
    using assms(1) tag_tags_distinct by simp
qed

text \<open>Over the disk of the stub, its own v2 stanza is selected.\<close>

lemma select_run:
  assumes disk: "paired_disk L K root stub l d st f" and K: "key_bytes_laws K"
    and d: "length (dk_desktop_id d) = 16" "\<not> same_key L (dk_signing_key d) (dk_selection_key d)"
    and r: "stub_paired_recipient L stub = Inr r"
    and s: "st_tag s = STANZA_TAG_V2" "matches_stanza_v2 L r (key_agreement_of L d) s = Inr True"
  shows "select_candidate L K [(i, stub)] [(0, s)] root k f =
    (f, Inr (Some \<lparr> sel_identity_index = i, sel_stub = stub, sel_stanza_index = 0, sel_stanza = s, sel_locator = l, sel_desktop = d \<rparr>))"
proof -
  from disk obtain md b where f: "faults f = []" "nodes f (path_of root) = Some (Dir md)" "md AND 63 = 0"
    "nodes f (path_of (pairing_locator_path root stub)) = Some (Regular b PRIVATE_MODE 0)" "b \<noteq> []" "length b \<le> 4096"
    "locator_decode (minicbor L) stub b = Inr l" and n: "nodes f (path_of (pl_desktop_state l)) = Some (Regular (encode_key_state K d) PRIVATE_MODE 0)"
    by (auto simp: paired_disk_def)
  have "open_identity L K root 0 (i, stub) f =
      (f, Inr \<lparr> op_position = 0, op_locator = l, op_desktop = d, op_recipient = r \<rparr>)"
    using open_pairing_locator_run [OF f] key_state_open_run [OF K d f(1) n] r
    by (simp add: open_identity_def bindS_def mapErrS_def)
  with s tag_tags_distinct show ?thesis
    by (simp add: select_candidate_def select_private_def)
qed

lemma stub_desktop_keys:
  assumes "p256_laws (ec L)" "stub_ok L stub" "desktop_matches L stub d = Inr ()"
  shows "length (dk_desktop_id d) = 16" "\<not> same_key L (dk_signing_key d) (dk_selection_key d)"
    "stub_paired_recipient L stub = Inr r \<Longrightarrow> desktop_selection r = sk_public (ec L) (dk_selection_key d)"
proof -
  note m = assms(3) [unfolded desktop_matches_ok [OF assms(1)]]
  show "length (dk_desktop_id d) = 16" using assms(2) m by (simp add: stub_ok_def wf_stub_def)
  show "\<not> same_key L (dk_signing_key d) (dk_selection_key d)"
    using assms(2) m by (auto simp: stub_ok_def stub_keys_bad_def same_key_def)
  assume "stub_paired_recipient L stub = Inr r"
  from stub_paired_recipient_ok [OF assms(1) _ this] assms(2) m
  show "desktop_selection r = sk_public (ec L) (dk_selection_key d)"
    by (simp add: stub_ok_def public_key_bytes_def pk_compressed_inj [OF assms(1)])
qed

lemma caller_hint: "length CALLER_HINT \<le> 64" "utf8_valid CALLER_HINT"
  by (simp add: CALLER_HINT_def, rule ascii_utf8_valid, simp add: CALLER_HINT_def is_ascii_def)

text \<open>A session of the paired desktop, the phone's answer to its request, and the guard on the replay state of
  that disk, which the response passes.\<close>

lemma disk_session_exchange:
  fixes now t0 t1 t2 :: u64
  assumes laws: "cbor_sized (minicbor L)" "base64_engine (std64 L)" "p256_laws (ec L)" "symmetric_laws (sym L)" "ecdsa_laws (ec L) (sym L)"
    and st: "stub_ok L stub" "desktop_matches L stub d = Inr ()"
      "sb_phone_signing_public_key stub = pk_compressed (ec L) (sk_public (ec L) phone)"
    and fk: "unwrap_file_key L identity s = Inr fk"
    and disk: "paired_disk L K root stub l d (state_new (scope_for_pairing DesktopResponses (stub_pairing stub)) t0) f"
    and drawn: "length i = 16" "length n = 32" "length nonce = 32"
    and hint: "\<forall>x. hint = Some x \<longrightarrow> length x \<le> 64 \<and> utf8_valid x"
    and t: "unat now + 300 < 2 ^ 63" "unat now \<le> unat t1" "unat t1 \<le> unat now + 300" "unat now \<le> unat t2" "unat t2 \<le> unat now + 300"
      "unat t0 \<le> unat t2"
    and sg: "\<forall>k x. \<exists>y. ecdsa_sign_prehash (ec L) k x = Some y"
    and R: "ro_request R (sb_desktop_id stub) (sb_identity_id stub) i n (now + 300) t1 w = (w', Inr ())"
  obtains h g us response us' u' where
    "file_open_guard (minicbor L) (path_of (pl_replay_state l)) (scope_for_pairing DesktopResponses (stub_pairing stub))
       DEFAULT_REPLAY_CAPACITY f = (h, Inr g)"
    "unwrap_begin L stub d s hint now (sk, i, n) = Inr us"
    "phone_answers L R (stub_pairing stub) identity phone (e, nonce) t1 (unwrap_signed_request L us) w = (w', Inr response)"
    "unwrap_receive L (file_ops (minicbor L)) response t2 (us, (Some g, h)) = ((us', u'), Inr fk)"
proof -
  let ?sc = "scope_for_pairing DesktopResponses (stub_pairing stub)" and ?p = "path_of (pl_replay_state l)"
  have sc: "?sc = scope_new DesktopResponses (sb_desktop_id stub) (sb_identity_id stub)"
    by (simp add: scope_for_pairing_def stub_pairing_def)
  have ids: "length (sb_desktop_id stub) = 16" "length (sb_identity_id stub) = 16" using st(1) by (simp_all add: stub_ok_def wf_stub_def)
  note good = fresh_good [OF ids, of t0]
  from disk have f: "faults f = []" "orderly ?p f" "nodes f ?p = Some (Regular (state_encode (minicbor L) (state_new ?sc t0)) PRIVATE_MODE 0)"
    "\<forall>q \<in> temps ?p. sibling_path ?p ''.lock'' \<noteq> Inr q \<longrightarrow> nodes f q = None" by (simp_all add: paired_disk_def)
  obtain h lk where h: "file_open_guard (minicbor L) ?p ?sc DEFAULT_REPLAY_CAPACITY f =
      (h, Inr \<lparr> fg_path = ?p, fg_state = state_new ?sc t0, fg_capacity = DEFAULT_REPLAY_CAPACITY, fg_poisoned = False, fg_lock = lk \<rparr>)"
      (is "_ = (h, Inr ?g)") and hn: "nodes h = nodes f" "faults h = []"
    using file_open_guard_run [OF laws(1) f(2,1) good [folded sc] f(3)] by (auto simp: sc state_new_def)
  have ux: "unat (now + 300) = unat now + 300" using t(1) by (simp add: unat_word_ariths)
  have R': "\<exists>u. ro_response (file_ops (minicbor L)) (sb_desktop_id stub) (sb_identity_id stub) x (now + 300) t2 (Some ?g, h) = (u, Inr ())" for x
  proof -
    have "\<exists>st'. state_consume_response (scope_new DesktopResponses (sb_desktop_id stub) (sb_identity_id stub)) x (now + 300) t2
        (fg_capacity ?g) (fg_state ?g) = (st', Inr ())"
      using fresh_consumes [of t0 t2 "now + 300" "sb_desktop_id stub" "sb_identity_id stub" x] t ux by (simp add: sc)
    then show ?thesis
      using guard_consumes [of ?g ?p h f] f hn by (auto simp: hn)
  qed
  from session_exchange [OF laws st fk drawn hint t(1-5) sg [rule_format] R R', where e = e and sk = sk]
  obtain us m r us' u' where x: "unwrap_begin L stub d s hint now (sk, i, n) = Inr us"
    "signed_request_decode L (unwrap_signed_request L us) = Inr m"
    "verify_request_with_replay L R m (stub_pairing stub) t1 w = (w', Inr (us_request us))"
    "unwrap_file_key L identity (rq_recipient_stanza (payload m)) = Inr fk"
    "seal_response L (us_request us) fk (signing_key_signer L phone) (e, nonce) = Inr r"
    "unwrap_receive L (file_ops (minicbor L)) (signed_response_encode L r) t2 (us, (Some ?g, h)) = ((us', u'), Inr fk)" by blast
  show thesis by (rule that [OF h x(1) phone_answers_run [OF x(2-5)] x(6)])
qed

lemma unwrap_selected_run:
  fixes now t0 t1 t2 :: u64
  assumes laws: "cbor_sized (minicbor L)" "base64_engine (std64 L)" "p256_laws (ec L)" "symmetric_laws (sym L)" "ecdsa_laws (ec L) (sym L)"
    and st: "stub_ok L stub" "desktop_matches L stub d = Inr ()"
      "sb_phone_signing_public_key stub = pk_compressed (ec L) (sk_public (ec L) phone)"
    and fk: "unwrap_file_key L identity s = Inr fk"
    and disk: "paired_disk L K root stub l d (state_new (scope_for_pairing DesktopResponses (stub_pairing stub)) t0) f"
    and drawn: "length (fd_request_id draws) = 16" "length (fd_nonce draws) = 32" "length nonce = 32"
      "fd_begin_clock draws = uint now" "fd_receive_clock draws = uint t2"
    and t: "unat now + 300 < 2 ^ 63" "unat now \<le> unat t1" "unat t1 \<le> unat now + 300" "unat now \<le> unat t2" "unat t2 \<le> unat now + 300"
      "unat t0 \<le> unat t2"
    and sg: "\<forall>k x. \<exists>y. ecdsa_sign_prehash (ec L) k x = Some y"
    and R: "ro_request R (sb_desktop_id stub) (sb_identity_id stub) (fd_request_id draws) (fd_nonce draws) (now + 300) t1 w = (w', Inr ())"
    and prep: "prep stub l w = (w, Inr route)"
  shows "\<exists>t. unwrap_selected L prep (phone_exchange L R (stub_pairing stub) identity phone (e, nonce) t1) draws k
    \<lparr> sel_identity_index = i, sel_stub = stub, sel_stanza_index = j, sel_stanza = s, sel_locator = l, sel_desktop = d \<rparr> (f, w) =
    (t, FileResult (Inr fk))"
proof -
  have hint: "\<forall>x. Some CALLER_HINT = Some x \<longrightarrow> length x \<le> 64 \<and> utf8_valid x" using caller_hint by simp
  obtain h g us response us' u' where x:
    "file_open_guard (minicbor L) (path_of (pl_replay_state l)) (scope_for_pairing DesktopResponses (stub_pairing stub))
       DEFAULT_REPLAY_CAPACITY f = (h, Inr g)"
    "unwrap_begin L stub d s (Some CALLER_HINT) now (fd_session draws, fd_request_id draws, fd_nonce draws) = Inr us"
    "phone_answers L R (stub_pairing stub) identity phone (e, nonce) t1 (unwrap_signed_request L us) w = (w', Inr response)"
    "unwrap_receive L (file_ops (minicbor L)) response t2 (us, (Some g, h)) = ((us', u'), Inr fk)"
    by (rule disk_session_exchange [OF laws st fk disk drawn(1-3) hint t sg R])
  show ?thesis using x prep drawn(4,5)
    by (simp add: unwrap_selected_def unwrap_exchanged_def Let_def phone_exchange_run [OF x(3)])
qed

text \<open>The same payload given to both plugins: what the recipient plugin wraps, the identity plugin gets
  back from the phone.\<close>

lemma age_roundtrip:
  fixes now t0 t1 t2 :: u64 and prep :: "('w, 'r) prepare_step"
  assumes laws: "cbor_sized (minicbor L)" "base64_engine (std64 L)" "bech32_codec (bech L)" "p256_laws (ec L)" "symmetric_laws (sym L)"
      "ecdsa_laws (ec L) (sym L)" "key_bytes_laws K"
    and st: "stub_ok L stub" "desktop_matches L stub d = Inr ()"
      "sb_phone_signing_public_key stub = pk_compressed (ec L) (sk_public (ec L) phone)"
      "recipient_parse L (sb_recipient stub) = Inr (Recipient (sk_public (ec L) identity))"
    and fk: "length fk = 16"
    and disk: "paired_disk L K root stub l d (state_new (scope_for_pairing DesktopResponses (stub_pairing stub)) t0) f"
    and drawn: "length (fd_request_id (draws 0)) = 16" "length (fd_nonce (draws 0)) = 32" "length nonce = 32"
      "fd_begin_clock (draws 0) = uint now" "fd_receive_clock (draws 0) = uint t2"
    and t: "unat now + 300 < 2 ^ 63" "unat now \<le> unat t1" "unat t1 \<le> unat now + 300" "unat now \<le> unat t2" "unat t2 \<le> unat now + 300"
      "unat t0 \<le> unat t2"
    and sg: "\<forall>k x. \<exists>y. ecdsa_sign_prehash (ec L) k x = Some y"
    and R: "ro_request R (sb_desktop_id stub) (sb_identity_id stub) (fd_request_id (draws 0)) (fd_nonce (draws 0)) (now + 300) t1 w =
      (w', Inr ())"
    and prep: "prep stub l w = (w, Inr route)"
  shows "\<exists>plugin as t.
    recipient_add_identity L i PLUGIN_NAME (stub_encode L stub) \<lparr> rp_recipients = [] \<rparr> = (plugin, Inr ()) \<and>
    identity_add_identity L i PLUGIN_NAME (stub_encode L stub) \<lparr> ip_identities = [], ip_config_root = cr \<rparr> =
      (\<lparr> ip_identities = [(i, stub)], ip_config_root = cr \<rparr>, Inr ()) \<and>
    wrap_file_keys L ephemerals [fk] plugin = Inr [as] \<and>
    unwrap_with_prepared_exchange L K [(i, stub)] (Inr root) prep
      (phone_exchange L R (stub_pairing stub) identity phone (e, nonce) t1 :: ('w, 'r, 'io) exchange_step) draws [as] (f, w) = (t, Inr [0 \<mapsto> Inr fk])"
proof -
  note p = laws(4)
  have dec: "stub_decode L (stub_encode L stub) = Inr stub"
    using stub_decode_iff [OF cbor_sized.axioms(1) [OF laws(1)] laws(3) p] st(1) by blast
  obtain r where r: "stub_paired_recipient L stub = Inr r"
  proof -
    have "\<exists>q. from_public_fields L (recipient_public_key_bytes L (Recipient (sk_public (ec L) identity)))
        (sb_desktop_selection_public_key stub) (sb_identity_id stub) = Inr q"
      using st(2) unfolding desktop_matches_ok [OF p]
      by (simp add: from_public_fields_def recipient_public_key_bytes_def from_public_key_bytes_compressed [OF p])
    with that show thesis by (auto simp: stub_paired_recipient_def st(4))
  qed
  have wf: "wf_stub stub" using st(1) by (simp add: stub_ok_def)
  from stub_paired_recipient_ok [OF p wf r] st(4)
  have ri: "phone_identity r = sk_public (ec L) identity" "length (paired_identity_id r) = ID_BYTES" by auto
  note dk = stub_desktop_keys [OF p st(1,2)]
  let ?plugin = "\<lparr> rp_recipients = [(i, PairedRecipient r)] \<rparr>"
  have add: "recipient_add_identity L i PLUGIN_NAME (stub_encode L stub) \<lparr> rp_recipients = [] \<rparr> = (?plugin, Inr ())"
    unfolding recipient_add_identity_iff using dec r by auto
  have pw: "plugin_wf ?plugin" using ri by (simp add: plugin_wf_def)
  obtain s where w: "wrap_file_keys L ephemerals [fk] ?plugin = Inr [[to_age_stanza s]]" and
    o: "st_tag s = STANZA_TAG_V2" "validate_stanza L s = Inr ()" "unwrap_file_key L identity s = Inr fk"
      "matches_stanza_v2 L r (key_agreement_of L d) s = Inr True"
  proof -
    from wrap_file_keys_open [OF laws(2) p laws(5) pw, of "[fk]" ephemerals] fk obtain a where
      "wrap_file_keys L ephemerals [fk] ?plugin = Inr [[a]]" "opens_stanza L fk (PairedRecipient r) a"
      by (auto simp: list_all2_Cons1)
    with that ri dk(3) [OF r] show thesis by (auto simp: opens_stanza_def key_agreement_of_def)
  qed
  obtain t where "unwrap_selected L prep (phone_exchange L R (stub_pairing stub) identity phone (e, nonce) t1 :: ('w, 'r, 'io) exchange_step) (draws 0) 0
    \<lparr> sel_identity_index = i, sel_stub = stub, sel_stanza_index = 0, sel_stanza = s, sel_locator = l, sel_desktop = d \<rparr> (f, w) =
    (t, FileResult (Inr fk))"
    using unwrap_selected_run [where prep = prep and draws = "draws 0", OF laws(1,2) p laws(5,6) st(1-3) o(3) disk drawn t sg R prep] by blast
  then have u: "unwrap_file L K [(i, stub)] (Inr root) prep (phone_exchange L R (stub_pairing stub) identity phone (e, nonce) t1 :: ('w, 'r, 'io) exchange_step) (draws 0) 0
    [to_age_stanza s] (f, w) = (t, FileResult (Inr fk))"
    using wrapped_candidates [OF o(1,2)] select_run [OF disk laws(7) dk(1,2) r o(1,4), of i 0] o(1) tag_tags_distinct
    by (simp add: unwrap_file_def)
  have "identity_add_identity L i PLUGIN_NAME (stub_encode L stub) \<lparr> ip_identities = [], ip_config_root = cr \<rparr> =
      (\<lparr> ip_identities = [(i, stub)], ip_config_root = cr \<rparr>, Inr ())"
    using dec by (simp add: identity_add_identity_def bindS_def)
  with add w u show ?thesis
    unfolding unwrap_with_prepared_exchange_def
    by (intro exI [of _ ?plugin] exI [of _ "[to_age_stanza s]"] exI [of _ t]) simp
qed

end
