(* ===== verification/Age_Route.thy ===== *)
theory Age_Route
  imports Age_Identity Scan_Session
begin

text \<open>
  The route and the exchange that the identity plugin of \<open>crates/desktop/src/age_identity.rs\<close> passes
  to \<open>unwrap_with_prepared_exchange\<close>: the choice of a transport from the environment, the locator and
  discovery, and the exchange over the debug bridge, Wi-Fi or two QR codes.
\<close>

subsection \<open>The environment\<close>

text \<open>\<open>std::env::var\<close>.\<close>

datatype env_var = EnvValue string | EnvNotPresent | EnvNotUnicode

definition identity_transport_override :: "env_var \<Rightarrow> (unit, transport_choice option) result" where
  "identity_transport_override v = (case v of
     EnvValue value \<Rightarrow> (case choice_from_str value of Some c \<Rightarrow> Inr (Some c) | None \<Rightarrow> Inl ())
   | EnvNotPresent \<Rightarrow> Inr None
   | EnvNotUnicode \<Rightarrow> Inl ())"

definition parse_message_setting :: "string \<Rightarrow> bool" where
  "parse_message_setting value \<longleftrightarrow> to_ascii_lowercase (trim value) \<in> {''1'', ''true'', ''yes'', ''on''}"

definition identity_messages_enabled :: "env_var \<Rightarrow> bool" where
  "identity_messages_enabled v = (case v of EnvValue value \<Rightarrow> parse_message_setting value | _ \<Rightarrow> False)"

definition optional_env :: "env_var \<Rightarrow> (identity_plugin_error, string option) result" where
  "optional_env v = (case v of
     EnvValue value \<Rightarrow> Inr (Some value)
   | EnvNotPresent \<Rightarrow> Inr None
   | EnvNotUnicode \<Rightarrow> Inl (internal ''environment value is malformed''))"

text \<open>What the exchange uses of its surroundings: the callback of the age client that shows a message
  (\<open>Ok(Ok(()))\<close> is \<open>True\<close>), the debug bridge with what its listener accepts, a TCP connection, the
  camera, the rendering of a QR code as text, discovery, the variables of the environment,
  \<open>parse::<SocketAddr>\<close>, and what is drawn.\<close>

record ('w, 'io) exchange_env =
  xe_message :: "string \<Rightarrow> ('w, 'io, bool) step"
  xe_adb :: "'w adb_env"
  xe_accept :: "'w \<Rightarrow> (adb_error, stream \<times> bool) result"
  xe_tcp :: "socket_addr \<Rightarrow> 'w \<Rightarrow> 'w \<times> tcp_connect"
  xe_socket_options :: bool
  xe_scan :: "('w, scan_error, bytes) step"
  xe_render :: "string \<Rightarrow> string option"
  xe_discover :: "public_identity_stub \<Rightarrow> ('w, wifi_error, socket_addr) step"
  xe_transport_var :: env_var
  xe_adb_serial_var :: env_var
  xe_wifi_address_var :: env_var
  xe_messages_var :: env_var
  xe_parse_address :: "string \<Rightarrow> socket_addr option"
  xe_session_id :: "'w \<Rightarrow> bytes"
  xe_transfer_id :: "'w \<Rightarrow> bytes"
  xe_windows :: bool

subsection \<open>The route\<close>

definition wifi_error_display :: "wifi_error \<Rightarrow> string" where
  "wifi_error_display e = (case e of
     InvalidEndpoint \<Rightarrow> ''the Wi-Fi endpoint must be an explicit private IPv4 address on the fixed PoC port''
   | WifiUnavailable \<Rightarrow> ''the phone Wi-Fi listener was unavailable''
   | WifiConnectionTimeout \<Rightarrow> ''the phone Wi-Fi listener did not connect before the hard deadline''
   | WifiTransport \<Rightarrow> ''the bounded Wi-Fi transport session could not be created''
   | DiscoveryUnavailable \<Rightarrow> ''no matching foreground Wi-Fi listener was discovered''
   | DiscoveryAmbiguous \<Rightarrow> ''multiple matching foreground Wi-Fi listeners were discovered''
   | DiscoveryFailed \<Rightarrow> ''local Wi-Fi discovery failed; check network permissions and active interfaces'')"

text \<open>The endpoint named by the environment, or the one discovery finds when neither hint is given and
  the choice may use Wi-Fi.\<close>

definition wifi_hint :: "('w, 'io) exchange_env \<Rightarrow> (identity_plugin_error, socket_addr option) result" where
  "wifi_hint X =
     bindE (optional_env (xe_wifi_address_var X)) (\<lambda>v. case v of
       None \<Rightarrow> Inr None
     | Some value \<Rightarrow> bindE (okOr (internal ''Wi-Fi endpoint selection is malformed'') (xe_parse_address X value)) (\<lambda>a. Inr (Some a)))"

definition discovered_hint ::
    "('w, 'io) exchange_env \<Rightarrow> transport_choice \<Rightarrow> public_identity_stub \<Rightarrow> string option \<Rightarrow> socket_addr option \<Rightarrow>
     ('w, identity_plugin_error, socket_addr option) step" where
  "discovered_hint X transport stub adb_serial wifi_address =
     (if adb_serial = None \<and> wifi_address = None \<and> (transport = AutoChoice \<or> transport = WifiChoice)
      then bindS (tryS (xe_discover X stub)) (\<lambda>r. case r of
          Inr discovered \<Rightarrow> retS (Some discovered)
        | Inl e \<Rightarrow>
            if e = DiscoveryUnavailable \<and> transport = AutoChoice then retS wifi_address
            else errS (internal (''phone Wi-Fi discovery failed: '' @ wifi_error_display e)))
      else retS wifi_address)"

definition identity_route_options ::
    "('w, 'io) exchange_env \<Rightarrow> transport_choice \<Rightarrow> public_identity_stub \<Rightarrow> ('w, identity_plugin_error, transport_route) step" where
  "identity_route_options X transport stub =
     bindS (liftS (mapErr (\<lambda>_. internal ''ADB device selection is malformed'') (optional_env (xe_adb_serial_var X)))) (\<lambda>adb_serial.
     bindS (liftS (wifi_hint X)) (\<lambda>wifi_address.
     bindS (discovered_hint X transport stub adb_serial wifi_address) (\<lambda>wifi_address.
     liftS (mapErr (\<lambda>_. internal ''phone transport selection is unavailable or inconsistent'')
       (resolve_transport (xe_windows X) transport UnwrapOperation
         \<lparr> hint_adb_serial = adb_serial, hint_wifi_address = wifi_address \<rparr>)))))"

text \<open>The closure that \<open>unwrap_file_keys\<close> passes as \<open>prepare\<close>.\<close>

definition identity_prepare :: "('w, 'io) exchange_env \<Rightarrow> ('w, transport_route) prepare_step" where
  "identity_prepare X stub locator =
     bindS (liftS (mapErr (\<lambda>_. internal ''unsupported phone transport selection'') (identity_transport_override (xe_transport_var X))))
       (\<lambda>transport_override.
     identity_route_options X (case transport_override of Some t \<Rightarrow> t | None \<Rightarrow> pl_transport locator) stub)"

subsection \<open>The exchange\<close>

text \<open>An \<open>unreachable!\<close> and an \<open>expect\<close> on the route are panics.\<close>

datatype 'io route_failure = RouteIo 'io | RoutePanic

type_synonym ('w, 'io) route_exchange = "('w, 'io route_failure, (exchange_error, bytes) result) step"

definition prompted :: "('w, 'io) exchange_env \<Rightarrow> bool \<Rightarrow> string \<Rightarrow> ('w, 'io) route_exchange \<Rightarrow> ('w, 'io) route_exchange" where
  "prompted X enabled prompt m w =
     (if \<not> enabled then m w
      else case xe_message X prompt w of
        (w, Inl io) \<Rightarrow> (w, Inl (RouteIo io))
      | (w, Inr confirmed) \<Rightarrow> if confirmed then m w else (w, Inr (Inl ExchangeCancelled)))"

definition adb_prompt :: "unwrap_display \<Rightarrow> string" where
  "adb_prompt display =
     ''The paired phone app will open for Developer USB approval.'' @ [NL] @ ''Request fingerprint: '' @
     ud_request_fingerprint display @ [NL] @
     ''ADB is an untrusted transport; phone verification and protocol authentication remain required.''"

definition wifi_prompt :: "unwrap_display \<Rightarrow> string" where
  "wifi_prompt display =
     ''Enable Wi-Fi auto-listen and keep the paired phone app in the foreground before continuing.'' @ [NL] @
     ''Request fingerprint: '' @ ud_request_fingerprint display @ [NL] @
     ''The LAN route is untrusted; phone verification and protocol authentication remain required.''"

text \<open>The session is dropped after its exchange.\<close>

definition exchange_identity_adb ::
    "('w, 'io) exchange_env \<Rightarrow> transport_route \<Rightarrow> bytes \<Rightarrow> unwrap_display \<Rightarrow> bool \<Rightarrow> ('w, 'io) route_exchange" where
  "exchange_identity_adb X route request display messages_enabled =
     prompted X messages_enabled (adb_prompt display) (\<lambda>w.
       case adb_connect (xe_adb X) (route_adb_serial route) UnwrapPurpose (xe_accept X w) default_limits (xe_session_id X w) w of
         (w, Inl _) \<Rightarrow> (w, Inr (Inl ExchangeFailed))
       | (w, Inr session) \<Rightarrow>
           (case adb_exchange (xe_adb X) UnwrapPurpose request (session, w) of
              (s, r) \<Rightarrow> (snd (adb_drop (xe_adb X) s), Inr (mapErr (\<lambda>_. ExchangeFailed) r))))"

definition exchange_identity_wifi ::
    "('w, 'io) exchange_env \<Rightarrow> transport_route \<Rightarrow> bytes \<Rightarrow> unwrap_display \<Rightarrow> bool \<Rightarrow> ('w, 'io) route_exchange" where
  "exchange_identity_wifi X route request display messages_enabled =
     prompted X messages_enabled (wifi_prompt display) (\<lambda>w.
       case route_wifi_address route of
         None \<Rightarrow> (w, Inl RoutePanic)
       | Some endpoint \<Rightarrow>
           (case wifi_connect endpoint (\<lambda>a. snd (xe_tcp X a w)) (xe_socket_options X) default_limits (xe_session_id X w) of
              Inl _ \<Rightarrow> (fst (xe_tcp X endpoint w), Inr (Inl ExchangeConnectionFailed))
            | Inr session \<Rightarrow> (fst (xe_tcp X endpoint w), Inr (mapErr (\<lambda>_. ExchangeFailed) (snd (wifi_exchange UnwrapPurpose request session))))))"

definition QR_CHUNK_BYTES :: nat where "QR_CHUNK_BYTES = 600"

definition render_request_prompt ::
    "('pk, 'sg, 'sk) lib \<Rightarrow> ('w, 'io) exchange_env \<Rightarrow> bytes \<Rightarrow> unwrap_display \<Rightarrow> 'w \<Rightarrow> (exchange_error, string) result" where
  "render_request_prompt L X request display w =
     bindE (mapErr (\<lambda>_. ExchangeFailed) (fragment_qr_message L request QR_CHUNK_BYTES (xe_transfer_id X w))) (\<lambda>frames.
     case frames of
       [frame] \<Rightarrow>
         bindE (okOr ExchangeFailed (xe_render X frame)) (\<lambda>qr.
         Inr (''Scan this one-time request with the paired phone.'' @ [NL, NL] @ qr @ [NL] @ ''Request fingerprint: '' @
              ud_request_fingerprint display @ [NL, NL] @
              ''The desktop camera is waiting for the phone response QR. Press Ctrl-C to cancel.''))
     | _ \<Rightarrow> Inl ExchangeFailed)"

definition scan_exchange_error :: "scan_error \<Rightarrow> exchange_error" where
  "scan_exchange_error e = (case e of
     ScanCancelled \<Rightarrow> ExchangeCancelled
   | InvalidTransfer \<Rightarrow> ExchangeInvalidResponse
   | CameraUnavailable \<Rightarrow> ExchangeFailed | UnsupportedFrame \<Rightarrow> ExchangeFailed | ScanTimeout \<Rightarrow> ExchangeFailed)"

definition exchange_identity_qr ::
    "('pk, 'sg, 'sk) lib \<Rightarrow> ('w, 'io) exchange_env \<Rightarrow> bytes \<Rightarrow> unwrap_display \<Rightarrow> ('w, 'io) route_exchange" where
  "exchange_identity_qr L X request display w = (case render_request_prompt L X request display w of
     Inl e \<Rightarrow> (w, Inr (Inl e))
   | Inr prompt \<Rightarrow> prompted X True prompt (\<lambda>w. case xe_scan X w of (w, r) \<Rightarrow> (w, Inr (mapErr scan_exchange_error r))) w)"

definition exchange_identity_transport ::
    "('pk, 'sg, 'sk) lib \<Rightarrow> ('w, 'io) exchange_env \<Rightarrow> bool \<Rightarrow> transport_route \<Rightarrow> bytes \<Rightarrow> unwrap_display \<Rightarrow>
     ('w, 'io) route_exchange" where
  "exchange_identity_transport L X messages_enabled route request display = (case route_kind route of
     AdbKind \<Rightarrow> exchange_identity_adb X route request display messages_enabled
   | WifiKind \<Rightarrow> exchange_identity_wifi X route request display messages_enabled
   | QrKind \<Rightarrow> exchange_identity_qr L X request display
   | BleKind \<Rightarrow> (\<lambda>w. (w, Inl RoutePanic)))"

text \<open>\<open>unwrap_file_keys\<close> of the plugin; \<open>default_root\<close> is what \<open>default_config_root\<close> returns.\<close>

definition unwrap_file_keys ::
    "('pk, 'sg, 'sk) lib \<Rightarrow> 'sk key_bytes \<Rightarrow> ('w, 'io) exchange_env \<Rightarrow> (locator_error, os_path) result \<Rightarrow>
     (nat \<Rightarrow> 'sk file_draws) \<Rightarrow> age_stanza list list \<Rightarrow> phone_identity_plugin \<Rightarrow>
     (fs \<times> 'w, 'io route_failure plugin_failure, file_results) step" where
  "unwrap_file_keys L K X default_root drawn files plugin =
     (let messages_enabled = identity_messages_enabled (xe_messages_var X)
      in unwrap_with_prepared_exchange L K (ip_identities plugin) (plugin_config_root default_root plugin)
           (identity_prepare X) (exchange_identity_transport L X messages_enabled) drawn files)"

subsection \<open>What a route is and what an exchange shows\<close>

lemma wifi_hint_None: "wifi_hint X = Inr None \<longleftrightarrow> xe_wifi_address_var X = EnvNotPresent"
  by (auto simp: wifi_hint_def optional_env_def bindE_Inr_iff okOr_Inr_iff split: env_var.splits option.splits)

lemma discovered_hint_ok:
  assumes "discovered_hint X transport stub a b w = (t, Inr c)"
  shows "c = b \<or> a = None \<and> b = None \<and> (transport = AutoChoice \<or> transport = WifiChoice) \<and>
    (\<exists>e. xe_discover X stub w = (t, Inr e) \<and> c = Some e)"
  using assms
  by (auto simp: discovered_hint_def bindS_tryS split: if_splits prod.splits sum.splits)

text \<open>A prepared route is one the policy admits for the choice of the environment or of the locator.\<close>

lemma identity_prepare_ok:
  assumes "identity_prepare X stub l w = (t, Inr route)"
  shows "route_ok route \<and> (\<exists>choice. identity_transport_override (xe_transport_var X) = Inr choice \<and>
      asks_for (xe_windows X) (case choice of Some c \<Rightarrow> c | None \<Rightarrow> pl_transport l) route) \<and>
    optional_env (xe_adb_serial_var X) = Inr (route_adb_serial route) \<and>
    (wifi_hint X = Inr (route_wifi_address route) \<or>
     wifi_hint X = Inr None \<and> (\<exists>e. xe_discover X stub w = (t, Inr e) \<and> route_wifi_address route = Some e))"
proof -
  from assms obtain choice where c: "identity_transport_override (xe_transport_var X) = Inr choice" and
    o: "identity_route_options X (case choice of Some c \<Rightarrow> c | None \<Rightarrow> pl_transport l) stub w = (t, Inr route)"
    by (auto simp: identity_prepare_def bindS_Inr_iff mapErr_Inr_iff)
  from o obtain a b b' where h: "optional_env (xe_adb_serial_var X) = Inr a" "wifi_hint X = Inr b"
    "discovered_hint X (case choice of Some c \<Rightarrow> c | None \<Rightarrow> pl_transport l) stub a b w = (t, Inr b')"
    "resolve_transport (xe_windows X) (case choice of Some c \<Rightarrow> c | None \<Rightarrow> pl_transport l) UnwrapOperation
       \<lparr> hint_adb_serial = a, hint_wifi_address = b' \<rparr> = Inr route"
    by (auto simp: identity_route_options_def bindS_Inr_iff mapErr_Inr_iff)
  from h(4) discovered_hint_ok [OF h(3)] h(1,2) c show ?thesis by (auto simp: resolve_transport_iff)
qed

lemma prompted_no_panic:
  "(\<And>w. snd (m w) \<noteq> Inl RoutePanic) \<Longrightarrow> snd (prompted X b p m w) \<noteq> Inl RoutePanic"
  by (auto simp: prompted_def split: prod.splits sum.splits)

lemma exchange_no_panic:
  assumes "route_ok route"
  shows "snd (exchange_identity_transport L X b route request display w) \<noteq> Inl RoutePanic"
proof (cases "route_kind route")
  case AdbKind
  then show ?thesis
    by (auto simp: exchange_identity_transport_def exchange_identity_adb_def intro!: prompted_no_panic split: prod.splits sum.splits)
next
  case WifiKind
  with assms show ?thesis
    by (auto simp: route_ok_def exchange_identity_transport_def exchange_identity_wifi_def intro!: prompted_no_panic
        split: option.splits sum.splits)
next
  case QrKind
  then show ?thesis
    by (auto simp: exchange_identity_transport_def exchange_identity_qr_def intro!: prompted_no_panic split: prod.splits sum.splits)
next
  case BleKind
  with assms show ?thesis by (simp add: route_ok_def)
qed

lemma plugin_exchange_avoids:
  "exchange_avoids (identity_prepare X) (exchange_identity_transport L X b) RoutePanic"
  unfolding exchange_avoids_def
  by (intro allI impI) (rule exchange_no_panic, erule identity_prepare_ok [THEN conjunct1])

text \<open>A prompt with a QR code shows the whole request in one frame.\<close>

lemma render_request_prompt_ok:
  assumes "render_request_prompt L X request display w = Inr prompt"
  shows "request \<noteq> [] \<and> length request \<le> QR_CHUNK_BYTES \<and>
    (\<exists>frame qr. fragment_qr_message L request QR_CHUNK_BYTES (xe_transfer_id X w) = Inr [frame] \<and> xe_render X frame = Some qr)"
proof -
  from assms obtain frames where fr: "fragment_qr_message L request QR_CHUNK_BYTES (xe_transfer_id X w) = Inr frames"
    by (auto simp: render_request_prompt_def bindE_Inr_iff mapErr_Inr_iff)
  note a = assms [unfolded render_request_prompt_def fr mapErr_simps bindE_simps]
  have "\<exists>frame. frames = [frame]" using a by (cases frames; cases "tl frames") auto
  then obtain frame where e: "frames = [frame]" ..
  from a obtain qr where "xe_render X frame = Some qr" unfolding e by (cases "xe_render X frame") auto
  with fr e have f: "fragment_qr_message L request QR_CHUNK_BYTES (xe_transfer_id X w) = Inr [frame]" "xe_render X frame = Some qr"
    by simp_all
  from f(1) have r: "request \<noteq> []" and "length [frame] = length (enumerate 0 (chunks QR_CHUNK_BYTES request))"
    unfolding fragment_qr_message_def Let_def bindE_Inr_iff failIf_Inr_iff
    by (auto dest: traverseE_Inr_length)
  then have "length (chunks QR_CHUNK_BYTES request) = 1" by simp
  moreover have "chunks QR_CHUNK_BYTES request = take QR_CHUNK_BYTES request # chunks QR_CHUNK_BYTES (drop QR_CHUNK_BYTES request)"
    using r by (subst chunks.simps) (simp add: QR_CHUNK_BYTES_def)
  ultimately have "chunks QR_CHUNK_BYTES (drop QR_CHUNK_BYTES request) = []" by simp
  then have "drop QR_CHUNK_BYTES request = []"
    by (subst (asm) chunks.simps) (simp add: QR_CHUNK_BYTES_def split: if_splits)
  with r f show ?thesis by simp
qed

end
