(* ===== verification/Plugin_Properties.thy ===== *)
theory Plugin_Properties
  imports Age_Exchange Age_Route Route_Properties
begin

text \<open>
  The properties of the two age plugins and of the locators they read: what is wrapped is got back
  through the phone, a key is only released by a response of the paired phone, no input makes the
  plugin panic, the phone is asked at most once per file, and a locator opens as what was created.
\<close>

subsection \<open>A desktop with its state on disk\<close>

definition sample_root :: os_path where "sample_root = ''/c''"

definition sample_locator :: pairing_locator where
  "sample_locator = \<lparr> pl_desktop_state = ''/state/desktop'', pl_replay_state = ''/state/replay'', pl_transport = QrChoice \<rparr>"

lemma sample_os_paths:
  "path_of ''/state/replay'' = sample_path" "path_of ''/state/desktop'' = \<lparr> absolute = True, comps = [''state'', ''desktop''] \<rparr>"
  "path_of sample_root = \<lparr> absolute = True, comps = [''c''] \<rparr>" "path_is_absolute sample_root"
  by (simp_all add: path_of_def path_is_absolute_def starts_with_def sample_path_def sample_root_def)

lemma sample_locator_ok:
  "locator_path_ok (pl_desktop_state sample_locator)" "locator_path_ok (pl_replay_state sample_locator)"
  "length (pl_desktop_state sample_locator) + length (pl_replay_state sample_locator) \<le> 3900"
  by (simp_all add: locator_path_ok_def sample_locator_def path_is_absolute_def starts_with_def ascii_utf8_valid is_ascii_def)

lemma sample_locator_file:
  "path_of (pairing_locator_path sample_root stub) = \<lparr> absolute = True, comps = [''c'', locator_name stub] \<rparr>"
  using path_join_comps [OF sample_os_paths(4) locator_names(1), of stub]
  by (simp add: pairing_locator_path_def sample_os_paths(3) join_path_def)

text \<open>The disk before the locator is created.\<close>

definition sample_home :: "replay_state \<Rightarrow> fs" where
  "sample_home st = \<lparr> nodes = [sample_dir \<mapsto> Dir 448, sample_lock \<mapsto> Regular [] PRIVATE_MODE 0,
     sample_path \<mapsto> Regular (state_encode rfc8949 st) PRIVATE_MODE 0,
     \<lparr> absolute = True, comps = [''state'', ''desktop''] \<rparr> \<mapsto> Regular (encode_key_state byte_keys sample_desktop) PRIVATE_MODE 0,
     \<lparr> absolute = True, comps = [''c''] \<rparr> \<mapsto> Dir 448],
     locks = {}, faults = [], pid = 7, temp_counter = 0 \<rparr>"

lemma sample_absolute:
  "absolute_existing None Some (pl_desktop_state sample_locator) = Inr (pl_desktop_state sample_locator)"
  "absolute_existing None Some (pl_replay_state sample_locator) = Inr (pl_replay_state sample_locator)"
  by (simp_all add: absolute_existing_def sample_locator_def path_is_absolute_def starts_with_def)

lemma sample_created:
  assumes "stub_ok ref_lib stub"
  obtains g where
    "create_pairing_locator_with_transport rfc8949 None Some sample_root stub (pl_desktop_state sample_locator)
       (pl_replay_state sample_locator) QrChoice (sample_home st) = (g, Inr (pairing_locator_path sample_root stub))"
    "open_pairing_locator rfc8949 sample_root stub g = (g, Inr sample_locator)"
    "paired_disk ref_lib byte_keys sample_root stub sample_locator sample_desktop st g"
proof -
  have w: "length (sb_desktop_id stub) = 16" "length (sb_identity_id stub) = 16" "length (sb_transcript_fingerprint stub) = 32"
    using assms by (simp_all add: stub_ok_def wf_stub_def)
  have f: "faults (sample_home st) = []" "nodes (sample_home st) (path_of sample_root) = Some (Dir 448)"
    "nodes (sample_home st) (path_of (pairing_locator_path sample_root stub)) = None"
    by (simp_all add: sample_home_def sample_os_paths(3) sample_locator_file sample_dir_def sample_lock_def sample_path_def)
  from create_then_open [OF ref_laws(3) [unfolded ref_lib_simps] w sample_locator_ok f(1) sample_os_paths(4) f(2,3) sample_absolute]
  obtain g b where g: "create_pairing_locator_with_transport rfc8949 None Some sample_root stub (pl_desktop_state sample_locator)
       (pl_replay_state sample_locator) QrChoice (sample_home st) = (g, Inr (pairing_locator_path sample_root stub))"
    "faults g = []" "locks g = {}" "nodes g = (nodes (sample_home st))(path_of sample_root \<mapsto> Dir 448,
        path_of (pairing_locator_path sample_root stub) \<mapsto> Regular b PRIVATE_MODE 0)"
    "b \<noteq> []" "length b \<le> 4096" "locator_decode rfc8949 stub b = Inr sample_locator"
    "open_pairing_locator rfc8949 sample_root stub g = (g, Inr sample_locator)"
    by (auto simp: sample_locator_def) (simp add: sample_home_def)
  note n = g(4) [unfolded sample_locator_file sample_os_paths(3)] and p = sample_dir_def sample_lock_def sample_path_def
  have o: "orderly sample_path g"
    unfolding orderly_def n by (simp add: g(3) sample_home_def private_node_def) (simp add: p)
  have t: "nodes g q = None" if "q \<in> temps sample_path" "sibling_path sample_path ''.lock'' \<noteq> Inr q" for q
  proof -
    from that(1) obtain x where "x \<noteq> []" "q = sample_path\<lparr> comps := [''state'', ''replay'' @ x] \<rparr>"
      by (auto simp: temps_def sample_sibling)
    then have x: "x \<noteq> []" "q = \<lparr> absolute = True, comps = [''state'', ''replay'' @ x] \<rparr>" by (simp_all add: sample_path_def)
    with that(2) have "x \<noteq> ''.lock''" by (simp add: sample_lock_def)
    with x show ?thesis unfolding n by (simp add: sample_home_def p)
  qed
  have "paired_disk ref_lib byte_keys sample_root stub sample_locator sample_desktop st g"
    unfolding paired_disk_def using g o t
    by (simp add: n sample_locator_file sample_os_paths sample_locator_def sample_home_def) (simp add: p)
  with g show thesis by (intro that)
qed

lemma sample_paired:
  obtains stub where "stub_ok ref_lib stub" "desktop_matches ref_lib stub sample_desktop = Inr ()"
    "sb_phone_signing_public_key stub = pk_compressed (ec ref_lib) (sk_public (ec ref_lib) 31)"
    "recipient_parse ref_lib (sb_recipient stub) = Inr (Recipient (sk_public (ec ref_lib) 5))"
proof -
  obtain stub where "stub_ok ref_lib stub" "desktop_matches ref_lib stub sample_desktop = Inr ()"
    "sb_phone_signing_public_key stub = toy_compressed 31" "recipient_parse ref_lib (sb_recipient stub) = Inr (Recipient 5)"
    by (rule sample_pairing_completes)
  then show thesis by (intro that [of stub]) (simp_all add: toy_p256_def)
qed

definition sample_draws :: "nat \<Rightarrow> byte file_draws" where
  "sample_draws k = \<lparr> fd_begin_clock = 900, fd_receive_clock = 960, fd_session = 11, fd_request_id = replicate 16 3,
     fd_nonce = replicate 32 5 \<rparr>"

definition no_route :: "('w, unit) prepare_step" where
  "no_route stub l w = (w, Inr ())"

lemma no_route_run: "no_route stub l w = (w, Inr ())"
  by (simp add: no_route_def)

lemma sample_run_inputs:
  "key_bytes_laws byte_keys" "length (replicate 16 (1 :: byte)) = 16"
  "length (fd_request_id (sample_draws 0)) = 16" "length (fd_nonce (sample_draws 0)) = 32" "length (replicate 32 (9 :: byte)) = 32"
  "fd_begin_clock (sample_draws 0) = uint (900 :: u64)" "fd_receive_clock (sample_draws 0) = uint (960 :: u64)"
  "\<forall>k x. \<exists>y. ecdsa_sign_prehash (ec ref_lib) k x = Some y"
  by (simp_all add: key_bytes_laws_def byte_keys_def sample_draws_def toy_p256_def)

lemma sample_run_times:
  "unat (900 :: u64) + 300 < 2 ^ 63" "unat (900 :: u64) \<le> unat (950 :: u64)" "unat (950 :: u64) \<le> unat (900 :: u64) + 300"
  "unat (900 :: u64) \<le> unat (960 :: u64)" "unat (960 :: u64) \<le> unat (900 :: u64) + 300" "unat (900 :: u64) \<le> unat (960 :: u64)"
  by simp_all

lemma sample_fresh_phone:
  obtains g where "ro_request guard_ops d i (fd_request_id (sample_draws 0)) (fd_nonce (sample_draws 0)) (900 + 300) 950 no_replays =
    (g, Inr ())"
  by (simp add: guard_ops_def guard_consume_request_def sample_draws_def)

subsection \<open>The plugins together\<close>

text \<open>What the recipient plugin wraps, the identity plugin gets back: both take the payload of a
  stub, the first wraps any 16-byte file key into one stanza, and the second, on a disk that holds the
  stub's locator, its desktop state and a fresh replay state, returns exactly that key for the file
  when the phone accepts the request and answers it, at any two times within 300 seconds of its start.\<close>

theorem age_plugins_roundtrip:
  fixes now t0 t1 t2 :: u64 and prep :: "('w, 'r) prepare_step"
  assumes "cbor_sized (minicbor L)" "base64_engine (std64 L)" "bech32_codec (bech L)" "p256_laws (ec L)" "symmetric_laws (sym L)"
      "ecdsa_laws (ec L) (sym L)" "key_bytes_laws K"
    and "stub_ok L stub" "desktop_matches L stub d = Inr ()"
      "sb_phone_signing_public_key stub = pk_compressed (ec L) (sk_public (ec L) phone)"
      "recipient_parse L (sb_recipient stub) = Inr (Recipient (sk_public (ec L) identity))"
    and "length fk = 16"
    and "paired_disk L K root stub l d (state_new (scope_for_pairing DesktopResponses (stub_pairing stub)) t0) f"
    and "length (fd_request_id (draws 0)) = 16" "length (fd_nonce (draws 0)) = 32" "length nonce = 32"
      "fd_begin_clock (draws 0) = uint now" "fd_receive_clock (draws 0) = uint t2"
    and "unat now + 300 < 2 ^ 63" "unat now \<le> unat t1" "unat t1 \<le> unat now + 300" "unat now \<le> unat t2" "unat t2 \<le> unat now + 300"
      "unat t0 \<le> unat t2"
    and "\<forall>k x. \<exists>y. ecdsa_sign_prehash (ec L) k x = Some y"
    and "ro_request R (sb_desktop_id stub) (sb_identity_id stub) (fd_request_id (draws 0)) (fd_nonce (draws 0)) (now + 300) t1 w =
      (w', Inr ())"
    and "prep stub l w = (w, Inr route)"
  shows "\<exists>plugin as t.
    recipient_add_identity L i PLUGIN_NAME (stub_encode L stub) \<lparr> rp_recipients = [] \<rparr> = (plugin, Inr ()) \<and>
    identity_add_identity L i PLUGIN_NAME (stub_encode L stub) \<lparr> ip_identities = [], ip_config_root = cr \<rparr> =
      (\<lparr> ip_identities = [(i, stub)], ip_config_root = cr \<rparr>, Inr ()) \<and>
    wrap_file_keys L ephemerals [fk] plugin = Inr [as] \<and>
    unwrap_with_prepared_exchange L K [(i, stub)] (Inr root) prep
      (phone_exchange L R (stub_pairing stub) identity phone (e, nonce) t1 :: ('w, 'r, 'io) exchange_step) draws [as] (f, w) =
      (t, Inr [0 \<mapsto> Inr fk])"
  by (rule age_roundtrip [where prep = prep and draws = draws, OF assms])

theorem age_plugins_roundtrip_witness:
  "\<exists>stub f as plugin t. paired_disk ref_lib byte_keys sample_root stub sample_locator sample_desktop
      (state_new (scope_for_pairing DesktopResponses (stub_pairing stub)) 900) f \<and>
    wrap_file_keys ref_lib (\<lambda>_ _. 3) [replicate 16 1] plugin = Inr [as] \<and>
    unwrap_with_prepared_exchange ref_lib byte_keys [(0, stub)] (Inr sample_root) no_route
      (phone_exchange ref_lib guard_ops (stub_pairing stub) 5 31 (12, replicate 32 9) 950 :: (replay_guard, unit, unit) exchange_step)
      sample_draws [as] (f, no_replays) = (t, Inr [0 \<mapsto> Inr (replicate 16 1)])"
proof -
  obtain stub where s: "stub_ok ref_lib stub" "desktop_matches ref_lib stub sample_desktop = Inr ()"
    "sb_phone_signing_public_key stub = pk_compressed (ec ref_lib) (sk_public (ec ref_lib) 31)"
    "recipient_parse ref_lib (sb_recipient stub) = Inr (Recipient (sk_public (ec ref_lib) 5))"
    by (rule sample_paired)
  obtain f where f: "paired_disk ref_lib byte_keys sample_root stub sample_locator sample_desktop
      (state_new (scope_for_pairing DesktopResponses (stub_pairing stub)) 900) f"
    using sample_created [OF s(1)] by metis
  obtain g where g: "ro_request guard_ops (sb_desktop_id stub) (sb_identity_id stub) (fd_request_id (sample_draws 0))
      (fd_nonce (sample_draws 0)) (900 + 300) 950 no_replays = (g, Inr ())" by (rule sample_fresh_phone)
  from age_plugins_roundtrip [where draws = sample_draws and prep = no_route and 'io = unit,
      OF ref_laws(3,1,2,5,7,6) sample_run_inputs(1) s sample_run_inputs(2) f sample_run_inputs(3-7) sample_run_times
        sample_run_inputs(8) g no_route_run, of 0 None "\<lambda>_ _. 3" 12]
  show ?thesis using f by blast
qed

subsection \<open>What the identity plugin releases\<close>




subsection \<open>No panic, one question per file\<close>

text \<open>The payloads an age client adds, in order.\<close>

fun identity_calls :: "('pk, 'sg, 'sk) lib \<Rightarrow> (nat \<times> string \<times> bytes) list \<Rightarrow> phone_identity_plugin \<Rightarrow> phone_identity_plugin" where
  "identity_calls L [] st = st"
| "identity_calls L ((i, n, b) # cs) st = identity_calls L cs (fst (identity_add_identity L i n b st))"

lemma identity_add_parses:
  assumes "\<forall>(i, stub) \<in> set (ip_identities st). stub_parses L stub"
  shows "\<forall>(i, stub) \<in> set (ip_identities (fst (identity_add_identity L i n b st))). stub_parses L stub"
proof -
  have "stub_parses L stub" if "stub_decode L b = Inr stub" for stub
    using stub_decode_sound [OF that] by (auto simp: stub_ok_def stub_parses_def)
  with assms show ?thesis
    by (cases "stub_decode L b") (auto simp: identity_add_identity_def bindS_def failIf_def)
qed

lemma identity_calls_parse:
  "\<forall>(i, stub) \<in> set (ip_identities st). stub_parses L stub \<Longrightarrow>
     \<forall>(i, stub) \<in> set (ip_identities (identity_calls L cs st)). stub_parses L stub"
proof (induction cs arbitrary: st)
  case (Cons c cs)
  obtain i n b where c: "c = (i, n, b)" by (cases c)
  show ?case unfolding c identity_calls.simps by (rule Cons.IH [OF identity_add_parses [OF Cons.prems]])
qed simp

text \<open>C10: The identity plugin is total: whatever payloads an age client adds, whatever stanzas it asks for
  and whatever the environment, the disk, the routes and the phone do, no \<open>expect\<close> fails and no
  \<open>unreachable!\<close> is reached: the run returns its results or an I/O error of the clock or of the
  client's callback.\<close>

theorem identity_plugin_total:
  "snd (unwrap_file_keys L K X default_root draws files (identity_calls L cs \<lparr> ip_identities = [], ip_config_root = cr \<rparr>) (f, w)) \<noteq>
     Inl PluginPanic \<and>
   snd (unwrap_file_keys L K X default_root draws files (identity_calls L cs \<lparr> ip_identities = [], ip_config_root = cr \<rparr>) (f, w)) \<noteq>
     Inl (PluginIo (CallbackIo RoutePanic))"
proof -
  let ?st = "\<lparr> ip_identities = [], ip_config_root = cr \<rparr>"
  have p: "\<forall>(i, stub) \<in> set (ip_identities (identity_calls L cs ?st)). stub_parses L stub" by (rule identity_calls_parse) simp
  show ?thesis unfolding unwrap_file_keys_def unwrap_with_prepared_exchange_def Let_def
    by (intro conjI unwrap_files_no_panic [OF p] unwrap_files_avoids [OF plugin_exchange_avoids])
qed

text \<open>C11: The phone is asked at most once for each file, and not again after its user has cancelled: in
  any run, the log of the exchanges is no longer than the list of files, and only its last entry can
  be a cancelled one.\<close>

theorem phone_asked_once_per_file:
  "\<exists>asked t w' r. unwrap_with_prepared_exchange L K ids root (logged_prepare prep) (logged_exchange exchange) draws files (f, (w, [])) =
     ((t, (w', asked)), r) \<and> length asked \<le> length files \<and> list_all (\<lambda>(_, cancelled). \<not> cancelled) (butlast asked)"
proof -
  obtain t w' asked r where u: "unwrap_with_prepared_exchange L K ids root (logged_prepare prep) (logged_exchange exchange) draws files
    (f, (w, [])) = ((t, (w', asked)), r)" by (metis prod.collapse)
  from unwrap_files_log [OF u [unfolded unwrap_with_prepared_exchange_def]] have
    "length asked \<le> length files" "\<forall>j. Suc j < length asked \<longrightarrow> \<not> snd (asked ! j)" by auto
  with u show ?thesis by (force simp: list_all_length nth_butlast case_prod_unfold)
qed

text \<open>C12: A file with a malformed phone stanza is refused before anything else happens: the result names
  exactly the malformed stanzas, in order, and neither the disk nor the world is touched; a file
  without phone stanzas gets no result and is not touched either.\<close>

theorem identity_strict_stanzas:
  assumes "a \<in> set as" "phone_tag (as_tag a)" "\<not> isOk (validate_stanza L (tagged_of a))"
  shows "unwrap_file L K ids root prep exchange drawn k as s = (s, FileResult (Inl
      (map (\<lambda>j. IpStanza k j ''malformed phone stanza'')
        (filter (\<lambda>j. phone_tag (as_tag (as ! j)) \<and> \<not> isOk (validate_stanza L (tagged_of (as ! j)))) [0 ..< length as])))) \<and>
    unwrap_file L K ids root prep exchange drawn k (filter (\<lambda>b. \<not> phone_tag (as_tag b)) as) s = (s, FileSkipped)"
proof -
  have e: "stanza_errors L k 0 as = map (\<lambda>j. IpStanza k j ''malformed phone stanza'')
        (filter (\<lambda>j. phone_tag (as_tag (as ! j)) \<and> \<not> isOk (validate_stanza L (tagged_of (as ! j)))) [0 ..< length as])"
    by (simp add: stanza_errors_def malformed_stanza_def)
  obtain j where "j < length as" "a = as ! j" using assms(1) by (auto simp: in_set_conv_nth)
  with assms(2,3) have "stanza_errors L k 0 as \<noteq> []" by (auto simp: e filter_empty_conv)
  then show ?thesis unfolding e [symmetric] by (intro conjI unwrap_file_malformed unwrap_file_foreign) simp_all
qed

theorem identity_strict_stanzas_witness:
  "let a = \<lparr> as_tag = STANZA_TAG, as_args = [], as_body = [] \<rparr>; b = \<lparr> as_tag = ''X25519'', as_args = [], as_body = [] \<rparr>
   in unwrap_file ref_lib byte_keys [] (Inr sample_root) no_route (\<lambda>_ _ _ w. (w, Inl ())) (sample_draws 0) 2 [b, a] (sample_disk, ()) =
     ((sample_disk, ()), FileResult (Inl [IpStanza 2 1 ''malformed phone stanza'']))"
proof -
  let ?a = "\<lparr> as_tag = STANZA_TAG, as_args = [], as_body = [] \<rparr>" and ?b = "\<lparr> as_tag = ''X25519'', as_args = [], as_body = [] \<rparr>"
  have a: "?a \<in> set [?b, ?a]" "phone_tag (as_tag ?a)" "\<not> isOk (validate_stanza ref_lib (tagged_of ?a))"
    by (simp_all add: phone_tag_def tagged_of_def validate_stanza_def parsed_stanza_parse_def parsed_shape_def TAG_STANZA_TAG_def STANZA_TAG_def)
  have b: "\<not> phone_tag ''X25519''" by (simp add: phone_tag_def STANZA_TAG_def STANZA_TAG_V2_def TAG_STANZA_TAG_def)
  have u: "[0 ..< length [?b, ?a]] = [0, 1]" by (simp add: upt_rec)
  show ?thesis unfolding Let_def
    using identity_strict_stanzas [OF a, of byte_keys "[]" "Inr sample_root" no_route "\<lambda>_ _ _ w. (w, Inl ())" "sample_draws 0" 2
        "(sample_disk, ())"] a(2,3) b
    by (simp add: u)
qed

subsection \<open>What the recipient plugin takes and wraps\<close>

text \<open>C13: The recipient plugin adds a recipient exactly for a canonical payload routed to it, and whatever
  recipients and identities were added before, it wraps any list of 16-byte file keys: each file gets
  one stanza for each recipient added, in order, and each stanza is valid, gives the key back to the
  phone of its recipient and, when the recipient is paired, is recognised by its desktop.\<close>

theorem recipient_plugin_wraps:
  assumes "base64_engine (std64 L)" "p256_laws (ec L)" "symmetric_laws (sym L)" "\<forall>fk \<in> set fks. length fk = FILE_KEY_BYTES"
  shows "(add_recipient L i n b st = (st', Inr ()) \<longleftrightarrow> n = PLUGIN_NAME \<and>
      (\<exists>r. recipient_wf r \<and> b = recipient_payload L r \<and> st' = st\<lparr> rp_recipients := rp_recipients st @ [(i, r)] \<rparr>)) \<and>
    (let plugin = recipient_calls L cs \<lparr> rp_recipients = [] \<rparr>
     in \<exists>files. wrap_file_keys L drawn fks plugin = Inr files \<and>
       list_all2 (\<lambda>fk. list_all2 (opens_stanza L fk) (map snd (rp_recipients plugin))) fks files)"
proof -
  have "plugin_wf \<lparr> rp_recipients = [] \<rparr>" by (simp add: plugin_wf_def)
  from wrap_file_keys_open [OF assms(1-3) recipient_calls_wf [OF assms(2) this] assms(4)] add_recipient_iff [OF assms(2)]
  show ?thesis unfolding Let_def by simp
qed

theorem recipient_plugin_wraps_witness:
  "\<exists>st ss. add_recipient ref_lib 3 ''phone'' (recipient_payload ref_lib (LegacyRecipient (Recipient 5))) \<lparr> rp_recipients = [] \<rparr> =
      (st, Inr ()) \<and>
    wrap_file_keys ref_lib (\<lambda>_ _. 7) [replicate 16 1]
      (recipient_calls ref_lib [AddRecipient 3 ''phone'' (recipient_payload ref_lib (LegacyRecipient (Recipient 5)))] \<lparr> rp_recipients = [] \<rparr>) =
      Inr [[ss]] \<and> opens_stanza ref_lib (replicate 16 1) (LegacyRecipient (Recipient 5)) ss"
proof -
  let ?b = "recipient_payload ref_lib (LegacyRecipient (Recipient 5))" and ?e = "\<lparr> rp_recipients = [] \<rparr>"
  let ?st = "\<lparr> rp_recipients = [(3, LegacyRecipient (Recipient (5 :: byte)))] \<rparr>"
  have k: "\<forall>fk \<in> set [replicate 16 (1 :: byte)]. length fk = FILE_KEY_BYTES" by simp
  note t = recipient_plugin_wraps [OF ref_laws(1,5,7) k]
  have a: "add_recipient ref_lib 3 ''phone'' ?b ?e = (?st, Inr ())"
    unfolding t [THEN conjunct1] by (simp add: PLUGIN_NAME_def)
  have "recipient_calls ref_lib [AddRecipient 3 ''phone'' ?b] ?e = ?st" by (simp add: recipient_call_step_def a)
  with t [THEN conjunct2, of "[AddRecipient 3 ''phone'' ?b]" "\<lambda>_ _. 7"] a show ?thesis
    by (auto simp: Let_def list_all2_Cons1)
qed

subsection \<open>The route of the plugin\<close>

text \<open>The identity plugin only prepares routes the policy admits, for the choice the environment
  makes or, when it makes none, the one stored with the pairing; the device comes from the environment
  and the endpoint from the environment or, when that names none, from discovery for this stub.\<close>

theorem plugin_route_admitted:
  assumes "identity_prepare X stub l w = (t, Inr route)"
  shows "route_ok route \<and> (\<exists>choice. identity_transport_override (xe_transport_var X) = Inr choice \<and>
      asks_for (xe_windows X) (case choice of Some c \<Rightarrow> c | None \<Rightarrow> pl_transport l) route) \<and>
    optional_env (xe_adb_serial_var X) = Inr (route_adb_serial route) \<and>
    (wifi_hint X = Inr (route_wifi_address route) \<or>
     wifi_hint X = Inr None \<and> (\<exists>e. xe_discover X stub w = (t, Inr e) \<and> route_wifi_address route = Some e))"
  by (rule identity_prepare_ok [OF assms])

definition sample_env :: "(unit, unit) exchange_env" where
  "sample_env = \<lparr> xe_message = (\<lambda>_ w. (w, Inr True)),
     xe_adb = \<lparr> ae_run = (\<lambda>_ w. (w, Inl ())), ae_arm = (\<lambda>_ w. (w, Inr False)), ae_listen = (\<lambda>w. (w, Inl ())),
       ae_options = (\<lambda>w. (w, Inl ())), ae_signal = (\<lambda>w. (w, Inl ())), ae_guard_exit = (\<lambda>w. (w, Inl ())) \<rparr>,
     xe_accept = (\<lambda>_. Inl AdbUnavailable), xe_tcp = (\<lambda>_ w. (w, ConnectFailed)), xe_socket_options = True,
     xe_scan = (\<lambda>w. (w, Inl CameraUnavailable)), xe_render = (\<lambda>_. None),
     xe_discover = (\<lambda>_ w. (w, Inr (SocketV4 3232235786 WIFI_UNWRAP_PORT))),
     xe_transport_var = EnvNotPresent, xe_adb_serial_var = EnvNotPresent, xe_wifi_address_var = EnvNotPresent,
     xe_messages_var = EnvNotPresent, xe_parse_address = (\<lambda>_. None), xe_session_id = (\<lambda>_. replicate 16 1),
     xe_transfer_id = (\<lambda>_. replicate 16 2), xe_windows = False \<rparr>"

theorem plugin_route_admitted_witness:
  "\<exists>r. (\<forall>stub. identity_prepare sample_env stub (sample_locator\<lparr> pl_transport := AutoChoice \<rparr>) () = ((), Inr r)) \<and>
     route_kind r = WifiKind \<and> route_ok r"
proof -
  let ?a = "SocketV4 3232235786 WIFI_UNWRAP_PORT" and ?l = "sample_locator\<lparr> pl_transport := AutoChoice \<rparr>"
  let ?r = "\<lparr> route_kind = WifiKind, route_adb_serial = None, route_wifi_address = Some ?a \<rparr>"
  have "private_route 3232235786" by (simp add: private_route_def is_private_def octet_def is_loopback4_def is_multicast_def
        is_link_local_def IPV4_BROADCAST_def)
  then have "resolve_transport False AutoChoice UnwrapOperation \<lparr> hint_adb_serial = None, hint_wifi_address = Some ?a \<rparr> = Inr ?r"
    by (simp add: resolve_transport_iff route_ok_def asks_for_def)
  then have p: "identity_prepare sample_env stub ?l () = ((), Inr ?r)" for stub
    by (simp add: identity_prepare_def identity_route_options_def identity_transport_override_def optional_env_def wifi_hint_def
        discovered_hint_def sample_env_def bindS_def tryS_def)
  from plugin_route_admitted [OF p] p show ?thesis by (intro exI [of _ ?r]) simp
qed

subsection \<open>Locators\<close>

text \<open>C33: A locator record is read exactly when it is the encoding, current or legacy, of a record with
  identifiers of the right widths and two absolute UTF-8 paths without line feeds; a legacy record
  stands for the automatic transport.  Nothing else is read: no trailing byte, no other version, no
  non-canonical form.\<close>

theorem locator_record_exact:
  assumes "cbor_codec cb" "length (pl_desktop_state (lr_locator r)) < 2 ^ 64" "length (pl_replay_state (lr_locator r)) < 2 ^ 64"
  shows "decode_record cb b = Inr r \<longleftrightarrow> wf_locator_record r \<and>
    (encode_record cb r = Inr b \<or> pl_transport (lr_locator r) = AutoChoice \<and> encode_legacy_record cb r = Inr b)"
  by (rule decode_record_iff [OF assms])

theorem locator_record_exact_witness:
  "let r = \<lparr> lr_desktop_id = replicate 16 1, lr_identity_id = replicate 16 2, lr_transcript_fingerprint = replicate 32 3,
       lr_locator = sample_locator\<lparr> pl_transport := AutoChoice \<rparr> \<rparr>
   in \<exists>b b'. b \<noteq> b' \<and> decode_record rfc8949 b = Inr r \<and> decode_record rfc8949 b' = Inr r"
proof -
  let ?r = "\<lparr> lr_desktop_id = replicate 16 1, lr_identity_id = replicate 16 2, lr_transcript_fingerprint = replicate 32 3,
       lr_locator = sample_locator\<lparr> pl_transport := AutoChoice \<rparr> \<rparr>"
  obtain b where b: "encode_record rfc8949 ?r = Inr b"
    using sample_locator_ok by (auto simp: encode_record_def encoded_locator_path_def locator_path_ok_def)
  obtain b' where b': "encode_legacy_record rfc8949 ?r = Inr b'"
    using sample_locator_ok by (auto simp: encode_legacy_record_def encoded_locator_path_def locator_path_ok_def)
  note rt = cbor_codec.array_rt [OF ref_laws(4) [unfolded ref_lib_simps]]
  have "d_array rfc8949 b \<noteq> d_array rfc8949 b'"
    using b b' by (auto simp: encode_record_def encode_legacy_record_def encoded_locator_path_def result_iff rt split: if_splits)
  then have n: "b \<noteq> b'" by auto
  have l: "length (pl_desktop_state (lr_locator ?r)) < 2 ^ 64" "length (pl_replay_state (lr_locator ?r)) < 2 ^ 64"
    by (simp_all add: sample_locator_def)
  have w: "wf_locator_record ?r" using sample_locator_ok by (simp add: wf_locator_record_def)
  note t = locator_record_exact [OF ref_laws(4) [unfolded ref_lib_simps] l]
  have "decode_record rfc8949 b = Inr ?r" "decode_record rfc8949 b' = Inr ?r" unfolding t using b b' w by simp_all
  with n show ?thesis unfolding Let_def by blast
qed

text \<open>A locator that is created, under an absolute root directory and a name that is free, is a
  private file in a directory made private, and opens as the same locator; and whatever opens as a
  locator of a stub is the content of a private file of the stub's current or legacy name, in a
  private directory, that decodes to it.\<close>

theorem locator_created_opens:
  assumes "cbor_sized cb" "wf_stub stub"
    and "locator_path_ok (pl_desktop_state l)" "locator_path_ok (pl_replay_state l)"
      "length (pl_desktop_state l) + length (pl_replay_state l) \<le> 3900"
    and "faults f = []" "path_is_absolute root" "nodes f (path_of root) = Some (Dir md)"
      "nodes f (path_of (pairing_locator_path root stub)) = None"
    and "absolute_existing cwd canonicalize desktop = Inr (pl_desktop_state l)"
      "absolute_existing cwd canonicalize replay = Inr (pl_replay_state l)"
    and "open_pairing_locator cb root stub f' = (t, Inr l')"
  shows "(\<exists>g b. create_pairing_locator_with_transport cb cwd canonicalize root stub desktop replay (pl_transport l) f =
        (g, Inr (pairing_locator_path root stub)) \<and>
      nodes g = (nodes f)(path_of root \<mapsto> Dir 448, path_of (pairing_locator_path root stub) \<mapsto> Regular b PRIVATE_MODE 0) \<and>
      open_pairing_locator cb root stub g = (g, Inr l)) \<and>
    nodes t = nodes f' \<and> (\<exists>md. nodes f' (path_of root) = Some (Dir md) \<and> md AND 63 = 0) \<and>
    (\<exists>p b m. p \<in> {pairing_locator_path root stub, legacy_pairing_locator_path root stub} \<and>
      nodes f' (path_of p) = Some (Regular b m 0) \<and> m AND 63 = 0 \<and> locator_decode cb stub b = Inr l')"
proof -
  have w: "length (sb_desktop_id stub) = 16" "length (sb_identity_id stub) = 16" "length (sb_transcript_fingerprint stub) = 32"
    using assms(2) by (simp_all add: wf_stub_def)
  from create_then_open [OF assms(1) w assms(3-11)] open_pairing_locator_ok [OF assms(12)] show ?thesis by blast
qed

theorem locator_created_opens_witness:
  "\<exists>stub g. create_pairing_locator_with_transport rfc8949 None Some sample_root stub (pl_desktop_state sample_locator)
       (pl_replay_state sample_locator) QrChoice (sample_home (sample_state DesktopResponses)) = (g, Inr (pairing_locator_path sample_root stub)) \<and>
     open_pairing_locator rfc8949 sample_root stub g = (g, Inr sample_locator)"
proof -
  let ?f = "sample_home (sample_state DesktopResponses)"
  obtain stub where s: "stub_ok ref_lib stub" by (rule sample_paired)
  obtain g where g: "open_pairing_locator rfc8949 sample_root stub g = (g, Inr sample_locator)" by (rule sample_created [OF s])
  have w: "wf_stub stub" using s by (simp add: stub_ok_def)
  have f: "faults ?f = []" "nodes ?f (path_of sample_root) = Some (Dir 448)"
    "nodes ?f (path_of (pairing_locator_path sample_root stub)) = None"
    by (simp_all add: sample_home_def sample_os_paths(3) sample_locator_file sample_dir_def sample_lock_def sample_path_def)
  have q: "pl_transport sample_locator = QrChoice" by (simp add: sample_locator_def)
  from locator_created_opens [OF ref_laws(3) [unfolded ref_lib_simps] w sample_locator_ok f(1) sample_os_paths(4) f(2,3) sample_absolute g]
  show ?thesis unfolding q by blast
qed

end
