(* ===== verification/Setup_Journal.thy ===== *)
theory Setup_Journal
  imports Locator
begin

text \<open>
  The ownership record of a hardware desktop setup (\<open>crates/desktop/src/setup.rs\<close>): its stages, its
  operations, its codec with the explicit and the legacy form, and the checks of its paths on macOS
  (and, where they differ, elsewhere).  \<open>Setup_Command\<close> stores it.
\<close>

subsection \<open>Data\<close>

datatype setup_stage = Provisioning | PairingStage | ResponseVerified | StageConfirmed

datatype setup_error = SetupUnsupported | SetupPendingError | SetupMissing | SetupInvalid | SetupStorage | SetupBusy

record setup_journal =
  sj_explicit_paths :: bool
  sj_stage :: setup_stage
  sj_setup_code :: bytes
  sj_desktop_id :: bytes
  sj_desktop_state :: os_path
  sj_replay_state :: os_path
  sj_identity_stub :: os_path
  sj_transport :: transport_choice
  sj_candidate :: "public_identity_stub option"

definition EXPLICIT_SETUP_VERSION :: u16 where "EXPLICIT_SETUP_VERSION = 3"

definition SETUP_VERSION :: u16 where "SETUP_VERSION = 2"

definition LEGACY_SETUP_VERSION :: u16 where "LEGACY_SETUP_VERSION = 1"

definition SETUP_JOURNAL_NAME :: string where "SETUP_JOURNAL_NAME = ''desktop-setup.cbor''"

definition stage_code :: "setup_stage \<Rightarrow> u16" where
  "stage_code s = (case s of Provisioning \<Rightarrow> 1 | PairingStage \<Rightarrow> 2 | ResponseVerified \<Rightarrow> 3 | StageConfirmed \<Rightarrow> 4)"

definition stage_decode :: "u16 \<Rightarrow> (setup_error, setup_stage) result" where
  "stage_decode v =
     (if v = 1 then Inr Provisioning else if v = 2 then Inr PairingStage
      else if v = 3 then Inr ResponseVerified else if v = 4 then Inr StageConfirmed else Inl SetupInvalid)"

definition setup_journal_path :: "os_path \<Rightarrow> os_path" where
  "setup_journal_path root = path_join root SETUP_JOURNAL_NAME"

subsection \<open>Operations\<close>

definition setup_new :: "os_path \<Rightarrow> bytes \<Rightarrow> bytes \<Rightarrow> setup_journal" where
  "setup_new root setup_code desktop_id = (let suffix = hex desktop_id in
     \<lparr> sj_explicit_paths = False, sj_stage = Provisioning, sj_setup_code = setup_code, sj_desktop_id = desktop_id,
       sj_desktop_state = path_join root (''desktop-'' @ suffix @ ''.state''),
       sj_replay_state = path_join root (''replay-'' @ suffix @ ''.state''),
       sj_identity_stub = path_join root (''identity-'' @ suffix @ ''.txt''),
       sj_transport = AutoChoice, sj_candidate = None \<rparr>)"

definition setup_new_with_transport :: "os_path \<Rightarrow> bytes \<Rightarrow> bytes \<Rightarrow> transport_choice \<Rightarrow> setup_journal" where
  "setup_new_with_transport root setup_code desktop_id transport =
     (setup_new root setup_code desktop_id)\<lparr> sj_transport := transport \<rparr>"

definition set_pairing :: "setup_journal \<Rightarrow> setup_journal" where
  "set_pairing j = j\<lparr> sj_stage := PairingStage \<rparr>"

definition set_candidate :: "public_identity_stub \<Rightarrow> (setup_journal, setup_error, unit) step" where
  "set_candidate candidate j =
     (if sb_desktop_id candidate \<noteq> sj_desktop_id j then (j, Inl SetupInvalid)
      else (j\<lparr> sj_stage := ResponseVerified, sj_candidate := Some candidate \<rparr>, Inr ()))"

definition set_confirmed :: "public_identity_stub \<Rightarrow> (setup_journal, setup_error, unit) step" where
  "set_confirmed candidate j =
     (if sj_candidate j \<noteq> Some candidate \<or> sb_desktop_id candidate \<noteq> sj_desktop_id j then (j, Inl SetupInvalid)
      else (j\<lparr> sj_stage := StageConfirmed \<rparr>, Inr ()))"

definition confirmation_text :: "setup_journal \<Rightarrow> string" where
  "confirmation_text j = (case sj_candidate j of
     None \<Rightarrow> hex (sj_setup_code j) | Some stub \<Rightarrow> hex (sb_transcript_fingerprint stub))"

definition setup_targets :: "setup_journal \<Rightarrow> public_identity_stub \<Rightarrow> bool" where
  "setup_targets j stub = (case sj_candidate j of
     None \<Rightarrow> False
   | Some c \<Rightarrow> sb_desktop_id c = sb_desktop_id stub \<and> sb_identity_id c = sb_identity_id stub \<and>
       sb_transcript_fingerprint c = sb_transcript_fingerprint stub)"

subsection \<open>The codec\<close>

definition journal_path_text :: "os_path \<Rightarrow> bool" where
  "journal_path_text p \<longleftrightarrow> utf8_valid p \<and> NL \<notin> set p \<and> CR \<notin> set p \<and> CHR 0x00 \<notin> set p"

definition setup_encoded_path :: "os_path \<Rightarrow> (setup_error, string) result" where
  "setup_encoded_path p = (if journal_path_text p then Inr p else Inl SetupInvalid)"

definition setup_fixed :: "cbor \<Rightarrow> nat \<Rightarrow> bytes \<Rightarrow> (setup_error, bytes \<times> bytes) result" where
  "setup_fixed cb n d =
     bindE (okOr SetupInvalid (d_bytes cb d)) (\<lambda>(b, d).
     if length b = n then Inr (b, d) else Inl SetupInvalid)"

definition encode_candidate :: "('pk, 'sg, 'sk) lib \<Rightarrow> public_identity_stub option \<Rightarrow> bytes" where
  "encode_candidate L c = (case c of
     Some candidate \<Rightarrow> e_bytes (minicbor L) (stub_encode L candidate) | None \<Rightarrow> e_null (minicbor L))"

definition setup_encode :: "('pk, 'sg, 'sk) lib \<Rightarrow> setup_journal \<Rightarrow> (setup_error, bytes) result" where
  "setup_encode L j = (let cb = minicbor L in
     bindE (setup_encoded_path (sj_desktop_state j)) (\<lambda>desktop.
     bindE (setup_encoded_path (sj_replay_state j)) (\<lambda>replay.
     bindE (setup_encoded_path (sj_identity_stub j)) (\<lambda>stub.
     Inr (e_array cb (if sj_explicit_paths j then 10 else 9) @
       e_u16 cb (if sj_explicit_paths j then EXPLICIT_SETUP_VERSION else SETUP_VERSION) @
       e_u16 cb (stage_code (sj_stage j)) @ e_bytes cb (sj_setup_code j) @ e_bytes cb (sj_desktop_id j) @
       e_str cb desktop @ e_str cb replay @ e_str cb stub @ e_str cb (choice_display (sj_transport j)) @
       encode_candidate L (sj_candidate j) @ (if sj_explicit_paths j then e_bool cb True else []))))))"

definition setup_encode_legacy :: "('pk, 'sg, 'sk) lib \<Rightarrow> setup_journal \<Rightarrow> (setup_error, bytes) result" where
  "setup_encode_legacy L j = (let cb = minicbor L in
     bindE (setup_encoded_path (sj_desktop_state j)) (\<lambda>desktop.
     bindE (setup_encoded_path (sj_replay_state j)) (\<lambda>replay.
     bindE (setup_encoded_path (sj_identity_stub j)) (\<lambda>stub.
     Inr (e_array cb 8 @ e_u16 cb LEGACY_SETUP_VERSION @ e_u16 cb (stage_code (sj_stage j)) @
       e_bytes cb (sj_setup_code j) @ e_bytes cb (sj_desktop_id j) @ e_str cb desktop @ e_str cb replay @
       e_str cb stub @ encode_candidate L (sj_candidate j))))))"

definition decode_setup_transport :: "cbor \<Rightarrow> u16 \<Rightarrow> bytes \<Rightarrow> (setup_error, transport_choice \<times> bytes) result" where
  "decode_setup_transport cb version d =
     (if version = LEGACY_SETUP_VERSION then Inr (AutoChoice, d)
      else bindE (okOr SetupInvalid (d_str cb d)) (\<lambda>(t, d).
           bindE (okOr SetupInvalid (choice_from_str t)) (\<lambda>c. Inr (c, d))))"

definition decode_candidate ::
    "('pk, 'sg, 'sk) lib \<Rightarrow> bytes \<Rightarrow> (setup_error, public_identity_stub option \<times> bytes) result" where
  "decode_candidate L d =
     bindE (okOr SetupInvalid (d_type (minicbor L) d)) (\<lambda>t.
     case t of
       TNull \<Rightarrow> bindE (okOr SetupInvalid (d_null (minicbor L) d)) (\<lambda>d. Inr (None, d))
     | TBytes \<Rightarrow>
         bindE (okOr SetupInvalid (d_bytes (minicbor L) d)) (\<lambda>(b, d).
         bindE (mapErr (\<lambda>_. SetupInvalid) (stub_decode L b)) (\<lambda>stub. Inr (Some stub, d)))
     | _ \<Rightarrow> Inl SetupInvalid)"

definition decode_explicit :: "cbor \<Rightarrow> u16 \<Rightarrow> bytes \<Rightarrow> (setup_error, bool \<times> bytes) result" where
  "decode_explicit cb version d =
     (if version = EXPLICIT_SETUP_VERSION
      then bindE (okOr SetupInvalid (d_bool cb d)) (\<lambda>(c, d). if c then Inr (True, d) else Inl SetupInvalid)
      else Inr (False, d))"

text \<open>The last check: nothing left, the canonical bytes, a candidate exactly in the two late stages,
  and one of this desktop.\<close>

definition check_setup ::
    "('pk, 'sg, 'sk) lib \<Rightarrow> u16 \<Rightarrow> bytes \<Rightarrow> bytes \<Rightarrow> setup_journal \<Rightarrow> (setup_error, setup_journal) result" where
  "check_setup L version b d j =
     bindE (failIf (d \<noteq> []) SetupInvalid) (\<lambda>_.
     bindE (if version = LEGACY_SETUP_VERSION then setup_encode_legacy L j else setup_encode L j) (\<lambda>again.
     bindE (failIf (again \<noteq> b \<or>
       (sj_candidate j \<noteq> None) \<noteq> (sj_stage j = ResponseVerified \<or> sj_stage j = StageConfirmed) \<or>
       (case sj_candidate j of None \<Rightarrow> False | Some c \<Rightarrow> sb_desktop_id c \<noteq> sj_desktop_id j)) SetupInvalid) (\<lambda>_.
     Inr j)))"

definition setup_decode :: "('pk, 'sg, 'sk) lib \<Rightarrow> bytes \<Rightarrow> (setup_error, setup_journal) result" where
  "setup_decode L b = (let cb = minicbor L in
     bindE (okOr SetupInvalid (d_array cb b)) (\<lambda>(fields, d).
     bindE (okOr SetupInvalid (d_u16 cb d)) (\<lambda>(version, d).
     bindE (failIf (\<not> (fields = Some 10 \<and> version = EXPLICIT_SETUP_VERSION \<or>
       fields = Some 9 \<and> version = SETUP_VERSION \<or> fields = Some 8 \<and> version = LEGACY_SETUP_VERSION)) SetupInvalid) (\<lambda>_.
     bindE (okOr SetupInvalid (d_u16 cb d)) (\<lambda>(code, d).
     bindE (stage_decode code) (\<lambda>stage.
     bindE (setup_fixed cb 16 d) (\<lambda>(setup_code, d).
     bindE (setup_fixed cb 16 d) (\<lambda>(desktop_id, d).
     bindE (okOr SetupInvalid (d_str cb d)) (\<lambda>(desktop, d).
     bindE (okOr SetupInvalid (d_str cb d)) (\<lambda>(replay, d).
     bindE (okOr SetupInvalid (d_str cb d)) (\<lambda>(stub, d).
     bindE (decode_setup_transport cb version d) (\<lambda>(transport, d).
     bindE (decode_candidate L d) (\<lambda>(candidate, d).
     bindE (decode_explicit cb version d) (\<lambda>(explicit_paths, d).
     check_setup L version b d
       \<lparr> sj_explicit_paths = explicit_paths, sj_stage = stage, sj_setup_code = setup_code, sj_desktop_id = desktop_id,
         sj_desktop_state = desktop, sj_replay_state = replay, sj_identity_stub = stub, sj_transport = transport,
         sj_candidate = candidate \<rparr>))))))))))))))"

subsection \<open>The paths\<close>

text \<open>Only root and plain components; \<open>Path::extension\<close> of a file name.\<close>

definition canonical_path :: "os_path \<Rightarrow> bool" where
  "canonical_path p \<longleftrightarrow> path_is_absolute p \<and> ''..'' \<notin> set (comps (path_of p))"

definition name_extension :: "string \<Rightarrow> string option" where
  "name_extension n = (let parts = split_on (CHR ''.'') n in
     if length parts = 1 \<or> butlast parts = [[]] then None else Some (last parts))"

definition managed_char :: "char \<Rightarrow> bool" where
  "managed_char c \<longleftrightarrow> (let n = of_char c :: nat in 97 \<le> n \<and> n \<le> 122 \<or> 48 \<le> n \<and> n \<le> 57) \<or>
     c = CHR ''.'' \<or> c = CHR ''-'' \<or> c = CHR ''_''"

definition managed_name :: "string \<Rightarrow> bool" where
  "managed_name n \<longleftrightarrow> n \<noteq> [] \<and> list_all managed_char n \<and>
     (case name_extension n of None \<Rightarrow> True | Some e \<Rightarrow> e \<notin> {''cbor'', ''lock'', ''pending''}) \<and>
     \<not> starts_with n ''.replace-'' \<and> \<not> starts_with n ''.state-''"

fun check_managed_names :: "string list \<Rightarrow> os_path list \<Rightarrow> (setup_error, unit) result" where
  "check_managed_names names [] = Inr ()"
| "check_managed_names names (p # ps) =
     bindE (okOr SetupInvalid (file_name (path_of p))) (\<lambda>n.
     if \<not> utf8_valid n \<or> \<not> managed_name n \<or> n \<in> set names then Inl SetupInvalid
     else check_managed_names (n # names) ps)"

definition validate_explicit_root :: "bool \<Rightarrow> os_path \<Rightarrow> setup_journal \<Rightarrow> (setup_error, unit) result" where
  "validate_explicit_root macos root j =
     (if \<not> macos then Inl SetupUnsupported
      else let paths = [sj_desktop_state j, sj_replay_state j, sj_identity_stub j]
        in if \<not> canonical_path root \<or> \<not> list_all canonical_path paths \<or>
              parent (path_of (sj_desktop_state j)) \<noteq> Some (path_of root) \<or>
              parent (path_of (sj_replay_state j)) \<noteq> Some (path_of root) \<or>
              path_eq (sj_desktop_state j) (sj_replay_state j) \<or> path_eq (sj_desktop_state j) (sj_identity_stub j) \<or>
              path_eq (sj_replay_state j) (sj_identity_stub j)
           then Inl SetupInvalid
           else check_managed_names [] paths)"

definition setup_validate_root :: "bool \<Rightarrow> os_path \<Rightarrow> setup_journal \<Rightarrow> (setup_error, unit) result" where
  "setup_validate_root macos root j =
     (if sj_explicit_paths j then validate_explicit_root macos root j
      else if \<not> path_is_absolute root then Inl SetupInvalid
      else let expected = setup_new root (sj_setup_code j) (sj_desktop_id j)
        in if \<not> path_eq (sj_desktop_state j) (sj_desktop_state expected) \<or>
              \<not> path_eq (sj_replay_state j) (sj_replay_state expected) \<or>
              \<not> path_eq (sj_identity_stub j) (sj_identity_stub expected)
           then Inl SetupInvalid else Inr ())"

definition setup_new_explicit ::
    "bool \<Rightarrow> os_path \<Rightarrow> bytes \<Rightarrow> bytes \<Rightarrow> os_path \<times> os_path \<times> os_path \<Rightarrow> transport_choice \<Rightarrow>
     (setup_error, setup_journal) result" where
  "setup_new_explicit macos root setup_code desktop_id = (\<lambda>(desktop, replay, stub) transport.
     let value = (setup_new_with_transport root setup_code desktop_id transport)
       \<lparr> sj_explicit_paths := True, sj_desktop_state := desktop, sj_replay_state := replay, sj_identity_stub := stub \<rparr>
     in bindE (setup_validate_root macos root value) (\<lambda>_. Inr value))"

subsection \<open>The codec is strict\<close>

definition wf_setup :: "('pk, 'sg, 'sk) lib \<Rightarrow> setup_journal \<Rightarrow> bool" where
  "wf_setup L j \<longleftrightarrow> length (sj_setup_code j) = 16 \<and> length (sj_desktop_id j) = 16 \<and>
     list_all journal_path_text [sj_desktop_state j, sj_replay_state j, sj_identity_stub j] \<and>
     (case sj_candidate j of
        None \<Rightarrow> sj_stage j = Provisioning \<or> sj_stage j = PairingStage
      | Some c \<Rightarrow> (sj_stage j = ResponseVerified \<or> sj_stage j = StageConfirmed) \<and> stub_ok L c \<and>
          sb_desktop_id c = sj_desktop_id j)"

lemma stub_encode_length:
  assumes "cbor_sized (minicbor L)" "bech32_codec (bech L)" "p256_laws (ec L)" "stub_ok L v"
  shows "length (stub_encode L v) < 500"
proof -
  note z = cbor_sized.array_len [OF assms(1)] cbor_sized.u16_len [OF assms(1)] cbor_sized.bytes_len [OF assms(1)]
    cbor_sized.str_len [OF assms(1)]
  obtain r where r: "recipient_parse L (sb_recipient v) = Inr r" and w: "wf_stub v" using assms(4) by (auto simp: stub_ok_def)
  have n: "length (sb_recipient v) = 71" by (rule recipient_text(2) [OF assms(2,3) r])
  have p: "length PLUGIN_NAME \<le> 9" by (simp add: PLUGIN_NAME_def)
  have "head_len k \<le> 9" for k by (rule head_len_bounds)
  then have h: "head_len 11 \<le> 9" "head_len (unat STUB_VERSION) \<le> 9" "head_len (unat ALGORITHM_SUITE) \<le> 9"
    "head_len 16 \<le> 9" "head_len 33 \<le> 9" "head_len 32 \<le> 9" "head_len 71 \<le> 9" "head_len (length PLUGIN_NAME) \<le> 9" by blast+
  have "length (stub_encode L v) \<le> 9 * 12 + (16 + 16 + 71 + 33 + 33 + 33 + 32 + 32 + 9)"
    using w n p h by (simp add: stub_encode_def Let_def z wf_stub_def)
  then show ?thesis by simp
qed

lemma stage_code_rt [simp]: "stage_decode (stage_code s) = Inr s"
  by (cases s) (simp_all add: stage_decode_def stage_code_def)

lemma setup_fixed_rt:
  assumes "cbor_codec cb" "length b = n" "n < 2 ^ 64" shows "setup_fixed cb n (e_bytes cb b @ r) = Inr (b, r)"
  using cbor_codec.bytes_rt [OF assms(1), of b r] assms(2,3) by (simp add: setup_fixed_def)

lemma setup_fixed_length: "setup_fixed cb n d = Inr (b, r) \<Longrightarrow> length b = n"
  by (auto simp: setup_fixed_def result_iff split: if_splits)

lemma decode_candidate_rt:
  assumes "cbor_sized (minicbor L)" "bech32_codec (bech L)" "p256_laws (ec L)"
    and "case c of None \<Rightarrow> True | Some v \<Rightarrow> stub_ok L v"
  shows "decode_candidate L (encode_candidate L c @ r) = Inr (c, r)"
proof -
  have k: "cbor_codec (minicbor L)" using assms(1) by (rule cbor_sized.axioms)
  show ?thesis
  proof (cases c)
    case None
    then show ?thesis using cbor_codec.rt_simps [OF k] by (simp add: decode_candidate_def encode_candidate_def)
  next
    case (Some v)
    have v: "stub_ok L v" using assms(4) Some by simp
    have "length (stub_encode L v) < 2 ^ 64" using stub_encode_length [OF assms(1-3) v] by simp
    moreover have "stub_decode L (stub_encode L v) = Inr v" using stub_decode_iff [OF k assms(2,3)] v by blast
    ultimately show ?thesis using cbor_codec.bytes_rt [OF k] cbor_codec.type_bytes [OF k]
      by (simp add: decode_candidate_def encode_candidate_def Some)
  qed
qed

lemma decode_candidate_ok:
  assumes "decode_candidate L d = Inr (Some v, r)" shows "stub_ok L v"
proof -
  from assms obtain t where "d_type (minicbor L) d = Some t" by (auto simp: decode_candidate_def result_iff)
  with assms show ?thesis by (cases t) (auto simp: decode_candidate_def result_iff dest: stub_decode_sound)
qed

lemma check_setup_iff:
  "check_setup L v b d j = Inr j' \<longleftrightarrow> j' = j \<and> d = [] \<and>
     (if v = LEGACY_SETUP_VERSION then setup_encode_legacy L j else setup_encode L j) = Inr b \<and>
     (sj_candidate j \<noteq> None) = (sj_stage j = ResponseVerified \<or> sj_stage j = StageConfirmed) \<and>
     (case sj_candidate j of None \<Rightarrow> True | Some c \<Rightarrow> sb_desktop_id c = sj_desktop_id j)"
  unfolding check_setup_def bindE_Inr_iff failIf_Inr_iff by (auto split: option.splits)

lemma setup_encode_paths:
  "setup_encode L j = Inr b \<or> setup_encode_legacy L j = Inr b \<Longrightarrow>
     list_all journal_path_text [sj_desktop_state j, sj_replay_state j, sj_identity_stub j]"
  by (auto simp: setup_encode_def setup_encode_legacy_def setup_encoded_path_def result_iff Let_def split: if_splits)

lemma setup_versions: "EXPLICIT_SETUP_VERSION \<noteq> SETUP_VERSION" "EXPLICIT_SETUP_VERSION \<noteq> LEGACY_SETUP_VERSION"
  "SETUP_VERSION \<noteq> LEGACY_SETUP_VERSION"
  by (simp_all add: EXPLICIT_SETUP_VERSION_def SETUP_VERSION_def LEGACY_SETUP_VERSION_def)

lemma stage_cases: "s = Provisioning \<or> s = PairingStage \<longleftrightarrow> \<not> (s = ResponseVerified \<or> s = StageConfirmed)"
  by (cases s) simp_all

lemma setup_decode_sound:
  assumes "setup_decode L b = Inr j"
  shows "wf_setup L j \<and> (setup_encode L j = Inr b \<or>
    \<not> sj_explicit_paths j \<and> sj_transport j = AutoChoice \<and> setup_encode_legacy L j = Inr b)"
proof -
  from assms obtain v d1 i d2 k d3 d4 t d5 c d6 x d7 s p q u where h: "setup_fixed (minicbor L) 16 d1 = Inr (i, d2)"
    "setup_fixed (minicbor L) 16 d2 = Inr (k, d3)" "decode_setup_transport (minicbor L) v d4 = Inr (t, d5)"
    "decode_candidate L d5 = Inr (c, d6)" "decode_explicit (minicbor L) v d6 = Inr (x, d7)"
    and r: "check_setup L v b d7 \<lparr> sj_explicit_paths = x, sj_stage = s, sj_setup_code = i, sj_desktop_id = k,
         sj_desktop_state = p, sj_replay_state = q, sj_identity_stub = u, sj_transport = t, sj_candidate = c \<rparr> = Inr j"
    unfolding setup_decode_def Let_def by (auto simp: bindE_Inr_iff)
  note r = r [unfolded check_setup_iff]
  have j: "j = \<lparr> sj_explicit_paths = x, sj_stage = s, sj_setup_code = i, sj_desktop_id = k,
         sj_desktop_state = p, sj_replay_state = q, sj_identity_stub = u, sj_transport = t, sj_candidate = c \<rparr>" using r by blast
  have l: "length i = 16" "length k = 16" using h setup_fixed_length by blast+
  have a: "v = LEGACY_SETUP_VERSION \<Longrightarrow> t = AutoChoice \<and> \<not> x"
    using h(3,5) setup_versions by (auto simp: decode_setup_transport_def decode_explicit_def)
  have e: "if v = LEGACY_SETUP_VERSION then setup_encode_legacy L j = Inr b else setup_encode L j = Inr b"
    using r by (auto simp: j split: if_splits)
  have o: "case c of None \<Rightarrow> True | Some w \<Rightarrow> stub_ok L w" using h(4) decode_candidate_ok by (auto split: option.splits)
  have w: "wf_setup L j"
    using l o e r setup_encode_paths [of L j b] stage_cases [of s]
    by (auto simp: wf_setup_def j split: option.splits if_splits)
  show ?thesis using w e a by (auto simp: j split: if_splits)
qed

lemma setup_decode_complete:
  assumes c: "cbor_sized (minicbor L)" "bech32_codec (bech L)" "p256_laws (ec L)" and w: "wf_setup L j"
    and l: "list_all (\<lambda>p. length p < 2 ^ 64) [sj_desktop_state j, sj_replay_state j, sj_identity_stub j]"
    and b: "setup_encode L j = Inr b \<or>
      \<not> sj_explicit_paths j \<and> sj_transport j = AutoChoice \<and> setup_encode_legacy L j = Inr b"
  shows "setup_decode L b = Inr j"
proof -
  have c': "cbor_codec (minicbor L)" using c(1) by (rule cbor_sized.axioms)
  note w' = w [unfolded wf_setup_def journal_path_text_def]
  have o: "case sj_candidate j of None \<Rightarrow> True | Some v \<Rightarrow> stub_ok L v" using w' by (auto split: option.splits)
  note k = cbor_codec.array_rt [OF c'] cbor_codec.u16_rt [OF c'] setup_fixed_rt [OF c'] cbor_codec.str_rt [OF c']
    cbor_codec.bool_rt [OF c'] cbor_codec.bool_rt [OF c', where r = "[]", simplified]
    decode_candidate_rt [OF c o] decode_candidate_rt [OF c o, where r = "[]", simplified]
  have f: "d_str (minicbor L) (e_str (minicbor L) (choice_display t) @ r) = Some (choice_display t, r)" for t r
    using cbor_codec.str_rt [OF c' choice_display_text(1), of t r] choice_display_text(2) [of t] by simp
  have g: "choice_from_str (choice_display t) = Some t" for t by (simp add: choice_from_str_iff)
  have s: "(sj_candidate j \<noteq> None) = (sj_stage j = ResponseVerified \<or> sj_stage j = StageConfirmed)"
    "case sj_candidate j of None \<Rightarrow> True | Some c \<Rightarrow> sb_desktop_id c = sj_desktop_id j"
    using w' stage_cases [of "sj_stage j"] by (auto split: option.splits)
  note v = setup_versions setup_versions [symmetric]
  have rb: "\<lparr> sj_explicit_paths = x, sj_stage = sj_stage j, sj_setup_code = sj_setup_code j,
        sj_desktop_id = sj_desktop_id j, sj_desktop_state = sj_desktop_state j, sj_replay_state = sj_replay_state j,
        sj_identity_stub = sj_identity_stub j, sj_transport = t, sj_candidate = sj_candidate j \<rparr> = j"
    if "sj_explicit_paths j = x" "sj_transport j = t" for x t using that by auto
  show ?thesis
  proof (cases "setup_encode L j = Inr b")
    case True
    then have e: "b = e_array (minicbor L) (if sj_explicit_paths j then 10 else 9) @
       e_u16 (minicbor L) (if sj_explicit_paths j then EXPLICIT_SETUP_VERSION else SETUP_VERSION) @
       e_u16 (minicbor L) (stage_code (sj_stage j)) @ e_bytes (minicbor L) (sj_setup_code j) @
       e_bytes (minicbor L) (sj_desktop_id j) @ e_str (minicbor L) (sj_desktop_state j) @
       e_str (minicbor L) (sj_replay_state j) @ e_str (minicbor L) (sj_identity_stub j) @
       e_str (minicbor L) (choice_display (sj_transport j)) @ encode_candidate L (sj_candidate j) @
       (if sj_explicit_paths j then e_bool (minicbor L) True else [])"
      by (auto simp: setup_encode_def setup_encoded_path_def result_iff Let_def split: if_splits)
    have "check_setup L (if sj_explicit_paths j then EXPLICIT_SETUP_VERSION else SETUP_VERSION) b [] j = Inr j"
      using True s v unfolding check_setup_iff by simp
    then show ?thesis
      using w' l v unfolding e setup_decode_def decode_setup_transport_def decode_explicit_def Let_def
      by (cases "sj_explicit_paths j") (simp_all add: k f g rb)
  next
    case False
    with b have a: "\<not> sj_explicit_paths j" "sj_transport j = AutoChoice" "setup_encode_legacy L j = Inr b" by auto
    then have e: "b = e_array (minicbor L) 8 @ e_u16 (minicbor L) LEGACY_SETUP_VERSION @
       e_u16 (minicbor L) (stage_code (sj_stage j)) @ e_bytes (minicbor L) (sj_setup_code j) @
       e_bytes (minicbor L) (sj_desktop_id j) @ e_str (minicbor L) (sj_desktop_state j) @
       e_str (minicbor L) (sj_replay_state j) @ e_str (minicbor L) (sj_identity_stub j) @ encode_candidate L (sj_candidate j)"
      by (auto simp: setup_encode_legacy_def setup_encoded_path_def result_iff Let_def split: if_splits)
    have "check_setup L LEGACY_SETUP_VERSION b [] j = Inr j" using a s unfolding check_setup_iff by simp
    then show ?thesis
      using w' l v a unfolding e setup_decode_def decode_setup_transport_def decode_explicit_def Let_def
      by (simp add: k rb)
  qed
qed

lemma setup_decode_iff:
  assumes "cbor_sized (minicbor L)" "bech32_codec (bech L)" "p256_laws (ec L)"
    and "list_all (\<lambda>p. length p < 2 ^ 64) [sj_desktop_state j, sj_replay_state j, sj_identity_stub j]"
  shows "setup_decode L b = Inr j \<longleftrightarrow> wf_setup L j \<and> (setup_encode L j = Inr b \<or>
    \<not> sj_explicit_paths j \<and> sj_transport j = AutoChoice \<and> setup_encode_legacy L j = Inr b)"
  using setup_decode_sound [of L b j] setup_decode_complete [OF assms(1-3) _ assms(4)] by blast

subsection \<open>The life of a journal\<close>

text \<open>The calls that a setup makes on its journal, in any order.\<close>

datatype setup_call = SetPairing | SetCandidate public_identity_stub | SetConfirmed public_identity_stub

definition setup_call_step :: "setup_call \<Rightarrow> (setup_journal, setup_error, unit) step" where
  "setup_call_step c = (case c of
     SetPairing \<Rightarrow> (\<lambda>j. (set_pairing j, Inr ())) | SetCandidate s \<Rightarrow> set_candidate s | SetConfirmed s \<Rightarrow> set_confirmed s)"

fun setup_calls :: "setup_call list \<Rightarrow> setup_journal \<Rightarrow> setup_journal" where
  "setup_calls [] j = j"
| "setup_calls (c # cs) j = setup_calls cs (fst (setup_call_step c j))"

lemma setup_calls_append: "setup_calls (a @ b) j = setup_calls b (setup_calls a j)"
  by (induction a arbitrary: j) simp_all

text \<open>What the journal owns never changes, and its candidate is of its desktop and was offered.\<close>

definition setup_inv :: "setup_journal \<Rightarrow> setup_call list \<Rightarrow> setup_journal \<Rightarrow> bool" where
  "setup_inv start cs j \<longleftrightarrow>
     j\<lparr> sj_stage := sj_stage start, sj_candidate := sj_candidate start \<rparr> = start \<and>
     (case sj_candidate j of
        None \<Rightarrow> sj_stage j = Provisioning \<or> sj_stage j = PairingStage
      | Some c \<Rightarrow> SetCandidate c \<in> set cs \<and> sb_desktop_id c = sj_desktop_id j \<and>
          (sj_stage j = StageConfirmed \<longrightarrow> SetConfirmed c \<in> set cs))"

lemma setup_inv_step:
  assumes "setup_inv start cs j" shows "setup_inv start (cs @ [c]) (fst (setup_call_step c j))"
  using assms
  by (cases c; cases "sj_candidate j")
    (auto simp: setup_inv_def setup_call_step_def set_pairing_def set_candidate_def set_confirmed_def)

lemma setup_inv_calls:
  assumes "sj_candidate start = None" "sj_stage start = Provisioning"
  shows "setup_inv start cs (setup_calls cs start)"
proof (induction cs rule: rev_induct)
  case Nil
  show ?case using assms by (simp add: setup_inv_def)
next
  case (snoc c cs)
  from setup_inv_step [OF this, of c] show ?case by (simp add: setup_calls_append)
qed

subsection \<open>Managed paths\<close>

lemma hex_chars: "c \<in> set (hex b) \<Longrightarrow> \<exists>n < 16. c = hex_digit n"
proof (induction b)
  case (Cons w b)
  have "unat w div 16 < 16" "unat w mod 16 < 16" using unat_byte_less [of w] by linarith+
  moreover have "c = hex_digit (unat w div 16) \<or> c = hex_digit (unat w mod 16) \<or> c \<in> set (hex b)"
    using Cons.prems by (simp add: hex_byte_def)
  ultimately show ?case using Cons.IH by blast
qed simp

lemma utf8_codes_ascii: "utf8_codes xs \<Longrightarrow> list_all (\<lambda>b. b < 128) ys \<Longrightarrow> utf8_codes (xs @ ys)"
proof (induction xs rule: utf8_codes.induct)
  case 1
  then show ?case by (induction ys) simp_all
next
  case (2 a xs)
  show ?case
  proof (cases "a < 128")
    case True
    with 2 show ?thesis by simp
  next
    case False
    with 2(5) obtain b bs where b: "xs = b # bs" by (cases xs) simp_all
    consider "194 \<le> a \<and> a < 224" | "\<not> (194 \<le> a \<and> a < 224)" by blast
    then show ?thesis
    proof cases
      case 1
      with False 2 b show ?thesis by simp
    next
      case o: 2
      with False 2(5) b obtain c cs where c: "bs = c # cs" by (cases bs) (simp_all split: if_splits)
      show ?thesis
      proof (cases "224 \<le> a \<and> a < 240")
        case True
        with o False 2 b c show ?thesis by (simp split: if_splits)
      next
        case n: False
        with o False 2(5) b c obtain d ds where "cs = d # ds" by (cases cs) (simp_all split: if_splits)
        with n o False 2 b c show ?thesis by (simp split: if_splits)
      qed
    qed
  qed
qed

lemma utf8_valid_ascii: "utf8_valid a \<Longrightarrow> is_ascii b \<Longrightarrow> utf8_valid (a @ b)"
  using utf8_codes_ascii [of "map of_char a" "map of_char b"] by (simp add: utf8_valid_def is_ascii_def list_all_iff)

definition plain_text :: "string \<Rightarrow> bool" where
  "plain_text s \<longleftrightarrow> is_ascii s \<and> NL \<notin> set s \<and> CR \<notin> set s \<and> CHR 0x00 \<notin> set s"

lemma plain_text_append [simp]: "plain_text (a @ b) \<longleftrightarrow> plain_text a \<and> plain_text b"
  by (auto simp: plain_text_def is_ascii_def)

lemma plain_text_hex [simp]: "plain_text (hex b)"
proof -
  have h: "(of_char c :: nat) < 128 \<and> 32 < (of_char c :: nat)" if "c \<in> set (hex b)" for c
  proof -
    from hex_chars [OF that] obtain n where n: "n < 16" "c = hex_digit n" by blast
    then show ?thesis by (cases "n < 10") (simp_all add: hex_digit_def)
  qed
  have "x \<notin> set (hex b)" if "(of_char x :: nat) \<le> 32" for x
  proof
    assume "x \<in> set (hex b)"
    with h [of x] that show False by simp
  qed
  from this [of NL] this [of CR] this [of "CHR 0x00"] h show ?thesis
    by (simp add: plain_text_def is_ascii_def list_all_iff)
qed

lemma join_path_text:
  assumes "journal_path_text root" "plain_text n" "\<not> path_is_absolute n"
  shows "journal_path_text (path_join root n)"
proof -
  have "plain_text ''/''" by (simp add: plain_text_def is_ascii_def)
  then have "plain_text (''/'' @ n)" using assms(2) by (simp only: plain_text_append)
  with assms show ?thesis
    using utf8_valid_ascii [of root n] utf8_valid_ascii [of root "''/'' @ n"]
    by (auto simp: path_join_def journal_path_text_def plain_text_def)
qed

lemma setup_new_paths:
  assumes "journal_path_text root"
  shows "list_all journal_path_text [sj_desktop_state (setup_new root c d), sj_replay_state (setup_new root c d),
    sj_identity_stub (setup_new root c d)]"
proof -
  have t: "plain_text ''desktop-''" "plain_text ''replay-''" "plain_text ''identity-''" "plain_text ''.state''" "plain_text ''.txt''"
    by (simp_all add: plain_text_def is_ascii_def)
  have j: "journal_path_text (path_join root (a @ hex d @ b))" if "plain_text a" "plain_text b" "\<not> path_is_absolute (a @ hex d @ b)" for a b
    by (rule join_path_text [OF assms _ that(3)]) (simp only: plain_text_append plain_text_hex that(1,2) simp_thms)
  show ?thesis
    using j [OF t(1,4)] j [OF t(2,4)] j [OF t(3,5)]
    by (simp add: setup_new_def Let_def path_is_absolute_def starts_with_def)
qed

lemma length_path_join: "length (path_join root n) \<le> length root + length n + 1"
  by (simp add: path_join_def)

lemma setup_new_lengths:
  assumes "length root < 2 ^ 60" "length d = 16"
  shows "list_all (\<lambda>p. length p < 2 ^ 64) [sj_desktop_state (setup_new root c d), sj_replay_state (setup_new root c d),
    sj_identity_stub (setup_new root c d)]"
  using assms length_path_join [of root "''desktop-'' @ hex d @ ''.state''"] length_path_join [of root "''replay-'' @ hex d @ ''.state''"]
    length_path_join [of root "''identity-'' @ hex d @ ''.txt''"]
  by (simp add: setup_new_def Let_def)

lemma setup_life:
  fixes root code d t
  defines "start \<equiv> setup_new_with_transport root code d t"
  assumes c: "cbor_sized (minicbor L)" "bech32_codec (bech L)" "p256_laws (ec L)"
    and r: "journal_path_text root" "path_is_absolute root" "length root < 2 ^ 60" "length code = 16" "length d = 16"
    and ok: "\<forall>s. SetCandidate s \<in> set cs \<longrightarrow> stub_ok L s"
  shows "setup_validate_root macos root (setup_calls cs start) = Inr ()"
    and "\<exists>b. setup_encode L (setup_calls cs start) = Inr b \<and> (setup_decode L b = Inr (setup_calls cs start) \<longleftrightarrow>
      sj_candidate (setup_calls cs start) = None \<or> sj_stage (setup_calls cs start) \<noteq> PairingStage)"
proof -
  let ?j = "setup_calls cs start"
  have s: "sj_candidate start = None" "sj_stage start = Provisioning"
    by (simp_all add: start_def setup_new_with_transport_def setup_new_def Let_def)
  note inv = setup_inv_calls [OF s, of cs]
  have j: "?j\<lparr> sj_stage := sj_stage start, sj_candidate := sj_candidate start \<rparr> = start" using inv by (simp add: setup_inv_def)
  have e: "sj_explicit_paths ?j = False" "sj_setup_code ?j = code" "sj_desktop_id ?j = d"
    "sj_desktop_state ?j = sj_desktop_state (setup_new root code d)" "sj_replay_state ?j = sj_replay_state (setup_new root code d)"
    "sj_identity_stub ?j = sj_identity_stub (setup_new root code d)"
    using arg_cong [OF j, of sj_explicit_paths] arg_cong [OF j, of sj_setup_code] arg_cong [OF j, of sj_desktop_id]
      arg_cong [OF j, of sj_desktop_state] arg_cong [OF j, of sj_replay_state] arg_cong [OF j, of sj_identity_stub]
    by (simp_all add: start_def setup_new_with_transport_def setup_new_def Let_def)
  show "setup_validate_root macos root ?j = Inr ()"
    using r(2) by (simp add: setup_validate_root_def e path_eq_def Let_def)
  have p: "list_all journal_path_text [sj_desktop_state ?j, sj_replay_state ?j, sj_identity_stub ?j]"
    using setup_new_paths [OF r(1), of code d] by (simp only: e)
  have l: "list_all (\<lambda>p. length p < 2 ^ 64) [sj_desktop_state ?j, sj_replay_state ?j, sj_identity_stub ?j]"
    using setup_new_lengths [OF r(3,5), of code] by (simp only: e)
  obtain b where b: "setup_encode L ?j = Inr b" using p by (simp add: setup_encode_def setup_encoded_path_def Let_def)
  have w: "wf_setup L ?j \<longleftrightarrow> sj_candidate ?j = None \<or> sj_stage ?j \<noteq> PairingStage"
  proof (cases "sj_candidate ?j")
    case None
    with inv p r(4,5) show ?thesis by (simp add: wf_setup_def setup_inv_def e)
  next
    case (Some x)
    then have x: "SetCandidate x \<in> set cs" "sb_desktop_id x = d" using inv by (simp_all add: setup_inv_def e)
    have "sj_stage ?j \<noteq> Provisioning"
    proof -
      have "sj_candidate (setup_calls cs j) \<noteq> None \<longrightarrow> sj_stage (setup_calls cs j) \<noteq> Provisioning"
        if "sj_candidate j \<noteq> None \<longrightarrow> sj_stage j \<noteq> Provisioning" for j
        using that
      proof (induction cs arbitrary: j)
        case (Cons c cs)
        show ?case unfolding setup_calls.simps
          by (rule Cons.IH)
            (use Cons.prems in \<open>cases c; auto simp: setup_call_step_def set_pairing_def set_candidate_def set_confirmed_def\<close>)
      qed simp
      from this [of start] Some s show ?thesis by simp
    qed
    with Some x ok p r(4,5) stage_cases [of "sj_stage ?j"] show ?thesis
      by (cases "sj_stage ?j") (simp_all add: wf_setup_def e)
  qed
  show "\<exists>b. setup_encode L ?j = Inr b \<and> (setup_decode L b = Inr ?j \<longleftrightarrow> sj_candidate ?j = None \<or> sj_stage ?j \<noteq> PairingStage)"
    using b setup_decode_iff [OF c l, of b] w by blast
qed

end
