(* ===== verification/Cleanup_Journal.thy ===== *)
theory Cleanup_Journal
  imports Setup_Journal
begin

text \<open>
  The journal of a desktop cleanup (\<open>crates/desktop/src/cleanup_journal.rs\<close>): its target, its codec with
  the legacy form, the checks of its paths; and the removal it drives (\<open>execute_cleanup\<close> of
  \<open>desktop_cleanup.rs\<close>) over the operations of the trait \<open>CleanupOperations\<close>.
\<close>

subsection \<open>Data\<close>

datatype cleanup_target =
    PairedTarget public_identity_stub os_path
  | OrphanTarget (orphan_desktop_id: bytes) (orphan_identity_id: bytes) (orphan_fingerprint: bytes)

datatype journal_error = JournalInvalid | JournalPending | JournalStorage

record cleanup_journal =
  cj_target :: cleanup_target
  cj_locator_path :: os_path
  cj_desktop_state :: os_path
  cj_replay_state :: os_path

definition LEGACY_JOURNAL_VERSION :: u16 where "LEGACY_JOURNAL_VERSION = 1"

definition JOURNAL_VERSION :: u16 where "JOURNAL_VERSION = 2"

definition PAIRED_TARGET :: u16 where "PAIRED_TARGET = 1"

definition ORPHAN_TARGET :: u16 where "ORPHAN_TARGET = 2"

definition cleanup_journal_path :: "os_path \<Rightarrow> os_path" where
  "cleanup_journal_path root = path_join root ''desktop-cleanup.cbor''"

definition cleanup_lock_path :: "os_path \<Rightarrow> os_path" where
  "cleanup_lock_path root = path_join root ''desktop-cleanup.lock''"

definition cj_paired :: "cleanup_journal \<Rightarrow> (public_identity_stub \<times> os_path) option" where
  "cj_paired j = (case cj_target j of PairedTarget stub p \<Rightarrow> Some (stub, p) | OrphanTarget _ _ _ \<Rightarrow> None)"

definition cj_desktop_id :: "cleanup_journal \<Rightarrow> bytes" where
  "cj_desktop_id j = (case cj_target j of PairedTarget stub _ \<Rightarrow> sb_desktop_id stub | OrphanTarget d _ _ \<Rightarrow> d)"

definition cj_identity_id :: "cleanup_journal \<Rightarrow> bytes" where
  "cj_identity_id j = (case cj_target j of PairedTarget stub _ \<Rightarrow> sb_identity_id stub | OrphanTarget _ i _ \<Rightarrow> i)"

definition cj_transcript_fingerprint :: "cleanup_journal \<Rightarrow> bytes" where
  "cj_transcript_fingerprint j = (case cj_target j of
     PairedTarget stub _ \<Rightarrow> sb_transcript_fingerprint stub | OrphanTarget _ _ h \<Rightarrow> h)"

definition cleanup_targets :: "cleanup_journal \<Rightarrow> public_identity_stub \<Rightarrow> bool" where
  "cleanup_targets j stub \<longleftrightarrow> cj_desktop_id j = sb_desktop_id stub \<and> cj_identity_id j = sb_identity_id stub \<and>
     cj_transcript_fingerprint j = sb_transcript_fingerprint stub"

definition paths_are_valid :: "cleanup_journal \<Rightarrow> bool" where
  "paths_are_valid j \<longleftrightarrow> list_all (\<lambda>p. path_is_absolute p \<and> path_has_file_name p)
     ([cj_locator_path j, cj_desktop_state j, cj_replay_state j] @
      (case cj_target j of PairedTarget _ p \<Rightarrow> [p] | OrphanTarget _ _ _ \<Rightarrow> []))"

subsection \<open>The codec\<close>

definition journal_encoded_path :: "os_path \<Rightarrow> (journal_error, string) result" where
  "journal_encoded_path p = (if journal_path_text p then Inr p else Inl JournalInvalid)"

definition journal_fixed :: "cbor \<Rightarrow> nat \<Rightarrow> bytes \<Rightarrow> (journal_error, bytes \<times> bytes) result" where
  "journal_fixed cb n d =
     bindE (okOr JournalInvalid (d_bytes cb d)) (\<lambda>(b, d).
     if length b = n then Inr (b, d) else Inl JournalInvalid)"

definition encode_target :: "('pk, 'sg, 'sk) lib \<Rightarrow> cleanup_target \<Rightarrow> (journal_error, bytes) result" where
  "encode_target L t = (let cb = minicbor L in case t of
     PairedTarget stub stub_path \<Rightarrow>
       bindE (journal_encoded_path stub_path) (\<lambda>p.
       Inr (e_u16 cb PAIRED_TARGET @ e_array cb 2 @ e_bytes cb (stub_encode L stub) @ e_str cb p))
   | OrphanTarget desktop_id identity_id fingerprint \<Rightarrow>
       Inr (e_u16 cb ORPHAN_TARGET @ e_array cb 3 @ e_bytes cb desktop_id @ e_bytes cb identity_id @ e_bytes cb fingerprint))"

definition cleanup_encode :: "('pk, 'sg, 'sk) lib \<Rightarrow> cleanup_journal \<Rightarrow> (journal_error, bytes) result" where
  "cleanup_encode L j = (let cb = minicbor L in
     bindE (journal_encoded_path (cj_locator_path j)) (\<lambda>locator.
     bindE (journal_encoded_path (cj_desktop_state j)) (\<lambda>desktop.
     bindE (journal_encoded_path (cj_replay_state j)) (\<lambda>replay.
     bindE (encode_target L (cj_target j)) (\<lambda>t.
     Inr (e_array cb 6 @ e_u16 cb JOURNAL_VERSION @ t @ e_str cb locator @ e_str cb desktop @ e_str cb replay))))))"

definition cleanup_encode_legacy :: "('pk, 'sg, 'sk) lib \<Rightarrow> cleanup_journal \<Rightarrow> (journal_error, bytes) result" where
  "cleanup_encode_legacy L j = (let cb = minicbor L in case cj_target j of
     OrphanTarget _ _ _ \<Rightarrow> Inl JournalInvalid
   | PairedTarget stub stub_path \<Rightarrow>
       bindE (journal_encoded_path stub_path) (\<lambda>p.
       bindE (journal_encoded_path (cj_locator_path j)) (\<lambda>locator.
       bindE (journal_encoded_path (cj_desktop_state j)) (\<lambda>desktop.
       bindE (journal_encoded_path (cj_replay_state j)) (\<lambda>replay.
       Inr (e_array cb 6 @ e_u16 cb LEGACY_JOURNAL_VERSION @ e_bytes cb (stub_encode L stub) @ e_str cb p @
            e_str cb locator @ e_str cb desktop @ e_str cb replay))))))"

definition decode_paired ::
    "('pk, 'sg, 'sk) lib \<Rightarrow> bytes \<Rightarrow> (journal_error, cleanup_target \<times> bytes) result" where
  "decode_paired L d =
     bindE (okOr JournalInvalid (d_bytes (minicbor L) d)) (\<lambda>(b, d).
     bindE (mapErr (\<lambda>_. JournalInvalid) (stub_decode L b)) (\<lambda>stub.
     bindE (okOr JournalInvalid (d_str (minicbor L) d)) (\<lambda>(p, d).
     Inr (PairedTarget stub p, d))))"

definition decode_target ::
    "('pk, 'sg, 'sk) lib \<Rightarrow> bytes \<Rightarrow> (journal_error, cleanup_target \<times> bytes) result" where
  "decode_target L d = (let cb = minicbor L in
     bindE (okOr JournalInvalid (d_u16 cb d)) (\<lambda>(kind, d).
     if kind = PAIRED_TARGET then
       bindE (okOr JournalInvalid (d_array cb d)) (\<lambda>(n, d).
       bindE (failIf (n \<noteq> Some 2) JournalInvalid) (\<lambda>_.
       decode_paired L d))
     else if kind = ORPHAN_TARGET then
       bindE (okOr JournalInvalid (d_array cb d)) (\<lambda>(n, d).
       bindE (failIf (n \<noteq> Some 3) JournalInvalid) (\<lambda>_.
       bindE (journal_fixed cb 16 d) (\<lambda>(desktop_id, d).
       bindE (journal_fixed cb 16 d) (\<lambda>(identity_id, d).
       bindE (journal_fixed cb 32 d) (\<lambda>(fingerprint, d).
       Inr (OrphanTarget desktop_id identity_id fingerprint, d))))))
     else Inl JournalInvalid))"

definition decode_journal_paths ::
    "cbor \<Rightarrow> cleanup_target \<Rightarrow> bytes \<Rightarrow> (journal_error, cleanup_journal \<times> bytes) result" where
  "decode_journal_paths cb t d =
     bindE (okOr JournalInvalid (d_str cb d)) (\<lambda>(locator, d).
     bindE (okOr JournalInvalid (d_str cb d)) (\<lambda>(desktop, d).
     bindE (okOr JournalInvalid (d_str cb d)) (\<lambda>(replay, d).
     Inr (\<lparr> cj_target = t, cj_locator_path = locator, cj_desktop_state = desktop, cj_replay_state = replay \<rparr>, d))))"

definition decode_cleanup_legacy ::
    "('pk, 'sg, 'sk) lib \<Rightarrow> bytes \<Rightarrow> (journal_error, cleanup_journal \<times> bytes) result" where
  "decode_cleanup_legacy L d = bindE (decode_paired L d) (\<lambda>(t, d). decode_journal_paths (minicbor L) t d)"

definition decode_cleanup_current ::
    "('pk, 'sg, 'sk) lib \<Rightarrow> bytes \<Rightarrow> (journal_error, cleanup_journal \<times> bytes) result" where
  "decode_cleanup_current L d = bindE (decode_target L d) (\<lambda>(t, d). decode_journal_paths (minicbor L) t d)"

definition cleanup_decode :: "('pk, 'sg, 'sk) lib \<Rightarrow> bytes \<Rightarrow> (journal_error, cleanup_journal) result" where
  "cleanup_decode L b = (let cb = minicbor L in
     bindE (okOr JournalInvalid (d_array cb b)) (\<lambda>(n, d).
     bindE (failIf (n \<noteq> Some 6) JournalInvalid) (\<lambda>_.
     bindE (okOr JournalInvalid (d_u16 cb d)) (\<lambda>(version, d).
     bindE (if version = LEGACY_JOURNAL_VERSION then decode_cleanup_legacy L d
            else if version = JOURNAL_VERSION then decode_cleanup_current L d else Inl JournalInvalid) (\<lambda>(value, d).
     bindE (if version = LEGACY_JOURNAL_VERSION then cleanup_encode_legacy L value else cleanup_encode L value) (\<lambda>canonical.
     bindE (failIf (d \<noteq> [] \<or> canonical \<noteq> b \<or> \<not> paths_are_valid value) JournalInvalid) (\<lambda>_.
     Inr value)))))))"

subsection \<open>The checks on macOS\<close>

definition sidecar :: "os_path \<Rightarrow> string \<Rightarrow> string \<Rightarrow> os_path" where
  "sidecar root replay_name suffix = path_join root (replay_name @ suffix)"

definition path_in :: "os_path \<Rightarrow> os_path list \<Rightarrow> bool" where
  "path_in p ps = list_ex (path_eq p) ps"

definition validate_macos_root :: "os_path \<Rightarrow> cleanup_journal \<Rightarrow> (journal_error, unit) result" where
  "validate_macos_root root j =
     (let private = [cj_locator_path j, cj_desktop_state j, cj_replay_state j];
          reserved = [cleanup_journal_path root, cleanup_lock_path root, setup_journal_path root];
          identity = hex (cj_identity_id j);
          desktop = hex (cj_desktop_id j)
      in if \<not> canonical_path root \<or> \<not> paths_are_valid j \<or>
            list_ex (\<lambda>p. parent (path_of p) \<noteq> Some (path_of root) \<or> \<not> canonical_path p \<or> path_in p reserved) private \<or>
            path_eq (cj_desktop_state j) (cj_replay_state j) \<or> path_eq (cj_locator_path j) (cj_desktop_state j) \<or>
            path_eq (cj_locator_path j) (cj_replay_state j)
         then Inl JournalInvalid
         else if \<not> path_eq (cj_locator_path j) (path_join root (identity @ ''-'' @ desktop @ ''.cbor'')) \<and>
            \<not> path_eq (cj_locator_path j) (path_join root (identity @ ''.cbor''))
         then Inl JournalInvalid
         else
           bindE (okOr JournalInvalid (file_name (path_of (cj_replay_state j)))) (\<lambda>replay_name.
           let sidecars = [sidecar root replay_name ''.lock'', sidecar root replay_name ''.pending'']
           in if path_in (cj_desktop_state j) sidecars \<or> path_in (cj_locator_path j) sidecars then Inl JournalInvalid
              else if (case cj_paired j of None \<Rightarrow> False | Some (_, stub) \<Rightarrow>
                  \<not> canonical_path stub \<or> path_in stub private \<or> path_in stub reserved \<or> path_in stub sidecars)
              then Inl JournalInvalid
              else Inr ()))"

subsection \<open>The codec is strict\<close>

definition wf_target :: "('pk, 'sg, 'sk) lib \<Rightarrow> cleanup_target \<Rightarrow> bool" where
  "wf_target L t \<longleftrightarrow> (case t of
     PairedTarget stub p \<Rightarrow> stub_ok L stub \<and> journal_path_text p
   | OrphanTarget d i h \<Rightarrow> length d = 16 \<and> length i = 16 \<and> length h = 32)"

definition wf_cleanup :: "('pk, 'sg, 'sk) lib \<Rightarrow> cleanup_journal \<Rightarrow> bool" where
  "wf_cleanup L j \<longleftrightarrow> wf_target L (cj_target j) \<and> paths_are_valid j \<and>
     list_all journal_path_text [cj_locator_path j, cj_desktop_state j, cj_replay_state j]"

definition journal_paths :: "cleanup_journal \<Rightarrow> os_path list" where
  "journal_paths j = [cj_locator_path j, cj_desktop_state j, cj_replay_state j] @
     (case cj_target j of PairedTarget _ p \<Rightarrow> [p] | OrphanTarget _ _ _ \<Rightarrow> [])"

lemma journal_fixed_rt:
  assumes "cbor_codec cb" "length b = n" "n < 2 ^ 64" shows "journal_fixed cb n (e_bytes cb b @ r) = Inr (b, r)"
  using cbor_codec.bytes_rt [OF assms(1), of b r] assms(2,3) by (simp add: journal_fixed_def)

lemma journal_fixed_length: "journal_fixed cb n d = Inr (b, r) \<Longrightarrow> length b = n"
  by (auto simp: journal_fixed_def result_iff split: if_splits)

lemma decode_journal_paths_ok:
  "decode_journal_paths cb t d = Inr (j, r) \<Longrightarrow> cj_target j = t"
  by (auto simp: decode_journal_paths_def result_iff)

lemma decode_paired_ok:
  "decode_paired L d = Inr (t, r) \<Longrightarrow> \<exists>stub p. t = PairedTarget stub p \<and> stub_ok L stub"
  by (auto simp: decode_paired_def result_iff dest: stub_decode_sound)

lemma decode_target_ok:
  assumes "decode_target L d = Inr (t, r)"
  shows "case t of PairedTarget stub _ \<Rightarrow> stub_ok L stub | OrphanTarget a i h \<Rightarrow> length a = 16 \<and> length i = 16 \<and> length h = 32"
  using assms decode_paired_ok journal_fixed_length
  by (fastforce simp: decode_target_def result_iff Let_def split: if_splits)

lemma cleanup_encode_paths:
  "cleanup_encode L j = Inr b \<or> cleanup_encode_legacy L j = Inr b \<Longrightarrow>
     list_all journal_path_text [cj_locator_path j, cj_desktop_state j, cj_replay_state j] \<and>
     (case cj_target j of PairedTarget stub p \<Rightarrow> journal_path_text p | OrphanTarget _ _ _ \<Rightarrow> True)"
  by (cases "cj_target j")
    (auto simp: cleanup_encode_def cleanup_encode_legacy_def encode_target_def journal_encoded_path_def result_iff Let_def
      split: if_splits)

lemma cleanup_decode_sound:
  assumes "cleanup_decode L b = Inr j"
  shows "wf_cleanup L j \<and> (cleanup_encode L j = Inr b \<or> cleanup_encode_legacy L j = Inr b)"
proof -
  from assms obtain v d r where d: "(if v = LEGACY_JOURNAL_VERSION then decode_cleanup_legacy L d
      else if v = JOURNAL_VERSION then decode_cleanup_current L d else Inl JournalInvalid) = Inr (j, r)"
    and e: "(if v = LEGACY_JOURNAL_VERSION then cleanup_encode_legacy L j else cleanup_encode L j) = Inr b"
    and p: "paths_are_valid j"
    unfolding cleanup_decode_def Let_def by (auto simp: bindE_Inr_iff failIf_Inr_iff)
  have "case cj_target j of PairedTarget stub _ \<Rightarrow> stub_ok L stub | OrphanTarget a i h \<Rightarrow> length a = 16 \<and> length i = 16 \<and> length h = 32"
  proof (cases "v = LEGACY_JOURNAL_VERSION")
    case True
    with d obtain t d' where "decode_paired L d = Inr (t, d')" "cj_target j = t"
      by (auto simp: decode_cleanup_legacy_def result_iff dest: decode_journal_paths_ok)
    with decode_paired_ok [of L d t d'] show ?thesis by auto
  next
    case False
    with d obtain t d' where "decode_target L d = Inr (t, d')" "cj_target j = t"
      by (auto simp: decode_cleanup_current_def result_iff dest: decode_journal_paths_ok split: if_splits)
    with decode_target_ok [of L d t d'] show ?thesis by simp
  qed
  with e p cleanup_encode_paths [of L j b] show ?thesis
    by (auto simp: wf_cleanup_def wf_target_def split: cleanup_target.splits if_splits)
qed

lemma decode_paired_rt:
  assumes c: "cbor_sized (minicbor L)" "bech32_codec (bech L)" "p256_laws (ec L)"
    and "stub_ok L stub" "utf8_valid p" "length p < 2 ^ 64"
  shows "decode_paired L (e_bytes (minicbor L) (stub_encode L stub) @ e_str (minicbor L) p @ r) = Inr (PairedTarget stub p, r)"
proof -
  have k: "cbor_codec (minicbor L)" using c(1) by (rule cbor_sized.axioms)
  have "length (stub_encode L stub) < 2 ^ 64" using stub_encode_length [OF c assms(4)] by simp
  moreover have "stub_decode L (stub_encode L stub) = Inr stub" using stub_decode_iff [OF k c(2,3)] assms(4) by blast
  ultimately show ?thesis
    using cbor_codec.bytes_rt [OF k] cbor_codec.str_rt [OF k assms(5,6)] by (simp add: decode_paired_def)
qed

lemma decode_target_rt:
  assumes c: "cbor_sized (minicbor L)" "bech32_codec (bech L)" "p256_laws (ec L)"
    and t: "encode_target L t = Inr b" "wf_target L t"
    and l: "case t of PairedTarget _ p \<Rightarrow> length p < 2 ^ 64 | OrphanTarget _ _ _ \<Rightarrow> True"
  shows "decode_target L (b @ r) = Inr (t, r)"
proof -
  have k: "cbor_codec (minicbor L)" using c(1) by (rule cbor_sized.axioms)
  have n: "ORPHAN_TARGET \<noteq> PAIRED_TARGET" by (simp add: ORPHAN_TARGET_def PAIRED_TARGET_def)
  show ?thesis
  proof (cases t)
    case (PairedTarget stub p)
    then have s: "stub_ok L stub" "utf8_valid p" using t(2) by (simp_all add: wf_target_def journal_path_text_def)
    have b: "b = e_u16 (minicbor L) PAIRED_TARGET @ e_array (minicbor L) 2 @ e_bytes (minicbor L) (stub_encode L stub) @
        e_str (minicbor L) p"
      using t(1) by (auto simp: PairedTarget encode_target_def journal_encoded_path_def result_iff Let_def split: if_splits)
    show ?thesis
      using s l decode_paired_rt [OF c, of stub p r] cbor_codec.u16_rt [OF k] cbor_codec.array_rt [OF k]
      by (simp add: PairedTarget b decode_target_def Let_def)
  next
    case (OrphanTarget a i h)
    then show ?thesis
      using t n cbor_codec.u16_rt [OF k] cbor_codec.array_rt [OF k]
      by (auto simp: wf_target_def encode_target_def decode_target_def journal_fixed_rt [OF k] Let_def)
  qed
qed

lemma decode_journal_paths_rt:
  assumes k: "cbor_codec cb" and p: "list_all journal_path_text [cj_locator_path j, cj_desktop_state j, cj_replay_state j]"
    and l: "list_all (\<lambda>p. length p < 2 ^ 64) [cj_locator_path j, cj_desktop_state j, cj_replay_state j]"
  shows "decode_journal_paths cb (cj_target j) (e_str cb (cj_locator_path j) @ e_str cb (cj_desktop_state j) @
    e_str cb (cj_replay_state j)) = Inr (j, [])"
  using p l cbor_codec.str_rt [OF k] cbor_codec.str_rt [OF k, where r = "[]", simplified]
  by (simp add: decode_journal_paths_def journal_path_text_def)

lemma cleanup_decode_complete:
  assumes c: "cbor_sized (minicbor L)" "bech32_codec (bech L)" "p256_laws (ec L)" and w: "wf_cleanup L j"
    and l: "list_all (\<lambda>p. length p < 2 ^ 64) (journal_paths j)"
    and b: "cleanup_encode L j = Inr b \<or> cleanup_encode_legacy L j = Inr b"
  shows "cleanup_decode L b = Inr j"
proof -
  have k: "cbor_codec (minicbor L)" using c(1) by (rule cbor_sized.axioms)
  note k' = cbor_codec.array_rt [OF k] cbor_codec.u16_rt [OF k]
  have n: "JOURNAL_VERSION \<noteq> LEGACY_JOURNAL_VERSION" by (simp add: JOURNAL_VERSION_def LEGACY_JOURNAL_VERSION_def)
  have p: "decode_journal_paths (minicbor L) (cj_target j) (e_str (minicbor L) (cj_locator_path j) @
      e_str (minicbor L) (cj_desktop_state j) @ e_str (minicbor L) (cj_replay_state j)) = Inr (j, [])"
    using w l by (intro decode_journal_paths_rt [OF k]) (simp_all add: wf_cleanup_def journal_paths_def)
  have v: "paths_are_valid j" using w by (simp add: wf_cleanup_def)
  show ?thesis
  proof (cases "cleanup_encode L j = Inr b")
    case True
    then obtain t where t: "encode_target L (cj_target j) = Inr t" and e: "b = e_array (minicbor L) 6 @
        e_u16 (minicbor L) JOURNAL_VERSION @ t @ e_str (minicbor L) (cj_locator_path j) @
        e_str (minicbor L) (cj_desktop_state j) @ e_str (minicbor L) (cj_replay_state j)"
      by (auto simp: cleanup_encode_def journal_encoded_path_def result_iff Let_def split: if_splits)
    have "decode_target L (t @ r) = Inr (cj_target j, r)" for r
      by (rule decode_target_rt [OF c t])
        (use w l in \<open>auto simp: wf_cleanup_def journal_paths_def split: cleanup_target.splits\<close>)
    then have "decode_cleanup_current L (t @ e_str (minicbor L) (cj_locator_path j) @ e_str (minicbor L) (cj_desktop_state j) @
        e_str (minicbor L) (cj_replay_state j)) = Inr (j, [])"
      using p by (simp add: decode_cleanup_current_def)
    then show ?thesis using True v n unfolding cleanup_decode_def Let_def by (simp add: e k')
  next
    case False
    with b have a: "cleanup_encode_legacy L j = Inr b" by blast
    then obtain stub sp where t: "cj_target j = PairedTarget stub sp" by (cases "cj_target j") (auto simp: cleanup_encode_legacy_def Let_def)
    with a have e: "b = e_array (minicbor L) 6 @ e_u16 (minicbor L) LEGACY_JOURNAL_VERSION @
        e_bytes (minicbor L) (stub_encode L stub) @ e_str (minicbor L) sp @ e_str (minicbor L) (cj_locator_path j) @
        e_str (minicbor L) (cj_desktop_state j) @ e_str (minicbor L) (cj_replay_state j)"
      by (auto simp: cleanup_encode_legacy_def journal_encoded_path_def result_iff Let_def split: if_splits)
    have "decode_paired L (e_bytes (minicbor L) (stub_encode L stub) @ e_str (minicbor L) sp @ r) = Inr (PairedTarget stub sp, r)" for r
      by (rule decode_paired_rt [OF c])
        (use w l in \<open>auto simp: wf_cleanup_def wf_target_def journal_paths_def journal_path_text_def t\<close>)
    then have "decode_cleanup_legacy L (e_bytes (minicbor L) (stub_encode L stub) @ e_str (minicbor L) sp @
        e_str (minicbor L) (cj_locator_path j) @ e_str (minicbor L) (cj_desktop_state j) @
        e_str (minicbor L) (cj_replay_state j)) = Inr (j, [])"
      using p by (simp add: decode_cleanup_legacy_def t)
    then show ?thesis using a v unfolding cleanup_decode_def Let_def by (simp add: e k')
  qed
qed

lemma cleanup_decode_iff:
  assumes "cbor_sized (minicbor L)" "bech32_codec (bech L)" "p256_laws (ec L)"
    and "list_all (\<lambda>p. length p < 2 ^ 64) (journal_paths j)"
  shows "cleanup_decode L b = Inr j \<longleftrightarrow> wf_cleanup L j \<and> (cleanup_encode L j = Inr b \<or> cleanup_encode_legacy L j = Inr b)"
  using cleanup_decode_sound [of L b j] cleanup_decode_complete [OF assms(1-3) _ assms(4)] by blast

subsection \<open>The removal\<close>

text \<open>The operations of the trait, over a world \<open>'w\<close>.  A path is given by its components.\<close>

datatype cleanup_error = CleanupUnsupported | CleanupInvalidTarget | ConfirmationMismatch | CleanupBusy | CleanupStorage

record 'w cleanup_operations =
  co_remove_private :: "path \<Rightarrow> ('w, cleanup_error, unit) step"
  co_remove_public :: "path \<Rightarrow> ('w, cleanup_error, unit) step"
  co_remove_keys :: "bytes \<Rightarrow> ('w, cleanup_error, unit) step"

definition verify_confirmation :: "string \<Rightarrow> string \<Rightarrow> (cleanup_error, unit) result" where
  "verify_confirmation expected entered = (if entered = expected then Inr () else Inl ConfirmationMismatch)"

definition named_beside :: "string \<Rightarrow> path \<Rightarrow> (cleanup_error, path) result" where
  "named_beside suffix p =
     bindE (okOr CleanupInvalidTarget (file_name p)) (\<lambda>n.
     bindE (okOr CleanupInvalidTarget (parent p)) (\<lambda>d. Inr (join_path d (n @ suffix))))"

definition replay_pending_path :: "path \<Rightarrow> (cleanup_error, path) result" where
  "replay_pending_path p = named_beside ''.pending'' p"

definition cleanup_replay_lock_path :: "path \<Rightarrow> (cleanup_error, path) result" where
  "cleanup_replay_lock_path p = named_beside ''.lock'' p"

definition execute_cleanup ::
    "bool \<Rightarrow> 'w cleanup_operations \<Rightarrow> cleanup_journal \<Rightarrow> os_path \<Rightarrow> ('w, cleanup_error, unit) step" where
  "execute_cleanup macos ops j root = (let replay = path_of (cj_replay_state j) in
     bindS (co_remove_private ops replay) (\<lambda>_.
     bindS (if macos then bindS (liftS (replay_pending_path replay)) (co_remove_private ops) else retS ()) (\<lambda>_.
     bindS (co_remove_keys ops (cj_desktop_id j)) (\<lambda>_.
     bindS (co_remove_private ops (path_of (cj_desktop_state j))) (\<lambda>_.
     bindS (co_remove_private ops (path_of (cj_locator_path j))) (\<lambda>_.
     bindS (bindS (liftS (cleanup_replay_lock_path replay)) (co_remove_private ops)) (\<lambda>_.
     bindS (case cj_paired j of None \<Rightarrow> retS () | Some (_, stub_path) \<Rightarrow> co_remove_public ops (path_of stub_path)) (\<lambda>_.
     co_remove_private ops (path_of (cleanup_journal_path root))))))))))"

text \<open>The reference: the list of what is removed, in order.\<close>

datatype removal = RemovePrivate path | RemovePublic path | RemoveKeys bytes

definition removal_step :: "'w cleanup_operations \<Rightarrow> removal \<Rightarrow> ('w, cleanup_error, unit) step" where
  "removal_step ops x = (case x of
     RemovePrivate p \<Rightarrow> co_remove_private ops p | RemovePublic p \<Rightarrow> co_remove_public ops p
   | RemoveKeys d \<Rightarrow> co_remove_keys ops d)"

fun removals :: "'w cleanup_operations \<Rightarrow> removal list \<Rightarrow> ('w, cleanup_error, unit) step" where
  "removals ops [] = retS ()"
| "removals ops (x # xs) = bindS (removal_step ops x) (\<lambda>_. removals ops xs)"

definition beside :: "os_path \<Rightarrow> string \<Rightarrow> path" where
  "beside p suffix = (let q = path_of p in q\<lparr> comps := butlast (comps q) @ [last (comps q) @ suffix] \<rparr>)"

definition owned_removals :: "bool \<Rightarrow> cleanup_journal \<Rightarrow> removal list" where
  "owned_removals macos j =
     RemovePrivate (path_of (cj_replay_state j)) #
     (if macos then [RemovePrivate (beside (cj_replay_state j) ''.pending'')] else []) @
     [RemoveKeys (cj_desktop_id j), RemovePrivate (path_of (cj_desktop_state j)), RemovePrivate (path_of (cj_locator_path j)),
      RemovePrivate (beside (cj_replay_state j) ''.lock'')] @
     (case cj_paired j of None \<Rightarrow> [] | Some (_, p) \<Rightarrow> [RemovePublic (path_of p)])"

definition journal_removal :: "os_path \<Rightarrow> removal" where
  "journal_removal root = RemovePrivate (path_of (cleanup_journal_path root))"

lemma named_beside_run:
  assumes "path_has_file_name p" shows "named_beside s (path_of p) = Inr (beside p s)"
  using assms
  by (auto simp: path_has_file_name_def named_beside_def file_name_def parent_def join_path_def beside_def Let_def split: if_splits)

lemma execute_cleanup_removals:
  assumes "paths_are_valid j"
  shows "execute_cleanup macos ops j root = removals ops (owned_removals macos j @ [journal_removal root])"
proof -
  have "path_has_file_name (cj_replay_state j)" using assms by (simp add: paths_are_valid_def)
  note n = named_beside_run [OF this]
  have l: "bindS (liftS (Inr p)) f = f p" for p :: path and f :: "path \<Rightarrow> ('a, cleanup_error, unit) step"
    by (simp add: bindS_def liftS_def)
  have r: "bindS (retS ()) f = f ()" "bindS m retS = m" for f :: "unit \<Rightarrow> ('a, cleanup_error, unit) step" and m
    by (auto simp: bindS_def retS_def split: prod.splits sum.splits)
  show ?thesis
    by (cases macos; cases "cj_paired j")
      (simp_all add: execute_cleanup_def owned_removals_def journal_removal_def removal_step_def replay_pending_path_def
        cleanup_replay_lock_path_def n l r Let_def case_prod_unfold)
qed

text \<open>What a world must satisfy: a successful removal removes exactly its target, a failed one removes
  nothing (a missing target counts as removed).\<close>

definition removal_laws :: "'w cleanup_operations \<Rightarrow> ('w \<Rightarrow> removal \<Rightarrow> bool) \<Rightarrow> bool" where
  "removal_laws ops present \<longleftrightarrow> (\<forall>x w. case removal_step ops x w of
       (t, Inr _) \<Rightarrow> (\<forall>y. present t y \<longleftrightarrow> present w y \<and> y \<noteq> x)
     | (t, Inl _) \<Rightarrow> (\<forall>y. present t y \<longleftrightarrow> present w y))"

lemma removals_effect:
  assumes "removal_laws ops present" "removals ops xs w = (t, r)"
  shows "\<exists>n \<le> length xs. (\<forall>y. present t y \<longleftrightarrow> present w y \<and> y \<notin> set (take n xs)) \<and> (r = Inr () \<longleftrightarrow> n = length xs)"
  using assms(2)
proof (induction xs arbitrary: w)
  case Nil
  then show ?case by (auto simp: retS_def)
next
  case (Cons x xs)
  obtain s q where s: "removal_step ops x w = (s, q)" by fastforce
  have p: "case (s, q) of (t, Inr _) \<Rightarrow> (\<forall>y. present t y \<longleftrightarrow> present w y \<and> y \<noteq> x) | (t, Inl _) \<Rightarrow> (\<forall>y. present t y \<longleftrightarrow> present w y)"
    using spec [OF spec [OF assms(1) [unfolded removal_laws_def], of x], of w] by (simp only: s)
  show ?case
  proof (cases q)
    case (Inl e)
    then have "t = s" "r = Inl e" using Cons.prems s by (simp_all add: bindS_def)
    moreover have "\<forall>y. present s y \<longleftrightarrow> present w y" using p Inl by simp
    ultimately show ?thesis by (intro exI [of _ 0]) simp
  next
    case (Inr u)
    with Cons.prems s have "removals ops xs s = (t, r)" by (simp add: bindS_def)
    from Cons.IH [OF this] obtain n where n: "n \<le> length xs" "\<forall>y. present t y \<longleftrightarrow> present s y \<and> y \<notin> set (take n xs)"
      "r = Inr () \<longleftrightarrow> n = length xs" by blast
    moreover have "\<forall>y. present s y \<longleftrightarrow> present w y \<and> y \<noteq> x" using p Inr by simp
    ultimately show ?thesis by (intro exI [of _ "Suc n"]) simp
  qed
qed

lemma cleanup_effect:
  assumes "removal_laws ops present" "paths_are_valid j" "journal_removal root \<notin> set (owned_removals macos j)"
    and "execute_cleanup macos ops j root w = (t, r)"
  shows "(\<forall>y. y \<notin> set (owned_removals macos j) \<and> y \<noteq> journal_removal root \<longrightarrow> present t y = present w y) \<and>
    (r = Inr () \<longrightarrow> (\<forall>y \<in> set (owned_removals macos j). \<not> present t y) \<and> \<not> present t (journal_removal root)) \<and>
    (r \<noteq> Inr () \<longrightarrow> present t (journal_removal root) = present w (journal_removal root))"
proof -
  let ?xs = "owned_removals macos j @ [journal_removal root]"
  have "removals ops ?xs w = (t, r)" using assms(4) by (simp only: execute_cleanup_removals [OF assms(2)])
  from removals_effect [OF assms(1) this] obtain n where n: "n \<le> length ?xs"
    "\<forall>y. present t y \<longleftrightarrow> present w y \<and> y \<notin> set (take n ?xs)" "r = Inr () \<longleftrightarrow> n = length ?xs" by blast
  have sub: "set (take n ?xs) \<subseteq> set ?xs" by (rule set_take_subset)
  show ?thesis
  proof (cases "n = length ?xs")
    case True
    with n sub show ?thesis by simp
  next
    case False
    with n(1) have "take n ?xs = take n (owned_removals macos j)" by simp
    with assms(3) have "journal_removal root \<notin> set (take n ?xs)" by (metis in_set_takeD)
    with n False sub show ?thesis by auto
  qed
qed

text \<open>A journal that passes the checks of macOS does not own its own file.\<close>

lemma validated_not_owned:
  assumes "validate_macos_root root j = Inr ()"
  shows "paths_are_valid j" "journal_removal root \<notin> set (owned_removals macos j)"
proof -
  have v: "canonical_path root" "paths_are_valid j"
    "list_all (\<lambda>p. \<not> path_eq p (cleanup_journal_path root)) [cj_locator_path j, cj_desktop_state j, cj_replay_state j]"
    using assms by (auto simp: validate_macos_root_def Let_def path_in_def split: if_splits)
  show "paths_are_valid j" by (rule v(2))
  have "plain_name ''desktop-cleanup.cbor''" by (simp add: plain_name_def)
  then have "path_of (cleanup_journal_path root) = join_path (path_of root) ''desktop-cleanup.cbor''"
    using v(1) path_join_comps(1) by (simp add: cleanup_journal_path_def canonical_path_def)
  then have c: "last (last (comps (path_of (cleanup_journal_path root)))) = CHR ''r''" by (simp add: join_path_def)
  have b: "last (last (comps (beside p ''.lock''))) = CHR ''k''" "last (last (comps (beside p ''.pending''))) = CHR ''g''" for p
    by (simp_all add: beside_def Let_def)
  have n: "path_of (cleanup_journal_path root) \<noteq> beside p ''.lock''" "path_of (cleanup_journal_path root) \<noteq> beside p ''.pending''" for p
    using c b [of p] by auto
  from v(3) n show "journal_removal root \<notin> set (owned_removals macos j)"
    by (auto simp: journal_removal_def owned_removals_def path_eq_def split: option.splits)
qed

end
