(* ===== verification/Lifecycle_Properties.thy ===== *)
theory Lifecycle_Properties
  imports Cleanup_Journal Desktop_Properties
begin

text \<open>
  The properties of the lifecycle journals: both codecs are strict, a setup journal follows its stages
  and is read back as it was written, and a cleanup removes its journal only after everything the
  journal owns.
\<close>

subsection \<open>Samples\<close>

definition sample_cleanup :: cleanup_journal where
  "sample_cleanup = \<lparr> cj_target = OrphanTarget (replicate 16 1) (replicate 16 2) (replicate 32 3),
     cj_locator_path = path_join ''/c'' (hex (replicate 16 2) @ ''.cbor''), cj_desktop_state = ''/c/d'', cj_replay_state = ''/c/r'' \<rparr>"

lemma sample_root_ok: "journal_path_text ''/c''" "path_is_absolute ''/c''"
  by (simp_all add: journal_path_text_def ascii_utf8_valid is_ascii_def path_is_absolute_def starts_with_def)

lemma sample_locator_name: "plain_name (hex (replicate 16 2) @ ''.cbor'')" "journal_path_text (cj_locator_path sample_cleanup)"
proof -
  show "plain_name (hex (replicate 16 2) @ ''.cbor'')" by (rule locator_names(2))
  have "plain_text ''.cbor''" by (simp add: plain_text_def is_ascii_def)
  then have t: "plain_text (hex (replicate 16 2) @ ''.cbor'')" by (simp only: plain_text_append plain_text_hex)
  have "\<not> path_is_absolute (hex b @ ''.cbor'')" for b
    using hex_no_slash [of b] by (cases "hex b") (auto simp: path_is_absolute_def starts_with_def)
  from join_path_text [OF sample_root_ok(1) t this] show "journal_path_text (cj_locator_path sample_cleanup)"
    by (simp only: sample_cleanup_def cleanup_journal.select_convs)
qed

lemma sample_cleanup_paths:
  "path_of (cj_locator_path sample_cleanup) = \<lparr> absolute = True, comps = [''c'', hex (replicate 16 2) @ ''.cbor''] \<rparr>"
  "path_of (cj_desktop_state sample_cleanup) = \<lparr> absolute = True, comps = [''c'', ''d''] \<rparr>"
  "path_of (cj_replay_state sample_cleanup) = \<lparr> absolute = True, comps = [''c'', ''r''] \<rparr>"
  "path_of ''/c'' = \<lparr> absolute = True, comps = [''c''] \<rparr>"
  "path_is_absolute (cj_locator_path sample_cleanup)"
proof -
  show r: "path_of ''/c'' = \<lparr> absolute = True, comps = [''c''] \<rparr>"
    by (simp add: path_of_def path_is_absolute_def starts_with_def)
  show "path_of (cj_locator_path sample_cleanup) = \<lparr> absolute = True, comps = [''c'', hex (replicate 16 2) @ ''.cbor''] \<rparr>"
    "path_is_absolute (cj_locator_path sample_cleanup)"
    using path_join_comps [OF sample_root_ok(2) sample_locator_name(1)] r
    by (simp_all add: sample_cleanup_def join_path_def del: hex.simps replicate.simps)
  show "path_of (cj_desktop_state sample_cleanup) = \<lparr> absolute = True, comps = [''c'', ''d''] \<rparr>"
    "path_of (cj_replay_state sample_cleanup) = \<lparr> absolute = True, comps = [''c'', ''r''] \<rparr>"
    by (simp_all add: sample_cleanup_def path_of_def path_is_absolute_def starts_with_def)
qed

lemma sample_cleanup_valid: "paths_are_valid sample_cleanup" "wf_cleanup L sample_cleanup"
proof -
  show v: "paths_are_valid sample_cleanup"
    using sample_cleanup_paths
    by (simp add: paths_are_valid_def path_has_file_name_def file_name_def del: hex.simps replicate.simps)
      (simp add: sample_cleanup_def path_is_absolute_def starts_with_def append_eq_Cons_conv)
  show "wf_cleanup L sample_cleanup"
    using v sample_locator_name(2)
    by (simp add: wf_cleanup_def) (simp add: sample_cleanup_def wf_target_def journal_path_text_def ascii_utf8_valid is_ascii_def)
qed


subsection \<open>The codecs\<close>

text \<open>C34: The journals of a setup and of a cleanup are read exactly from their encodings, current or
  legacy: a setup journal holds identifiers of 16 bytes, paths that are UTF-8 without control breaks,
  and a readable candidate of its own desktop exactly in the two late stages, and its legacy form
  stands for managed paths and the automatic transport; a cleanup journal has a readable stub or an
  orphan's three identifiers, and absolute paths with file names.  Nothing else is read.\<close>

theorem journals_decode_exact:
  assumes "cbor_sized (minicbor L)" "bech32_codec (bech L)" "p256_laws (ec L)"
    and "list_all (\<lambda>p. length p < 2 ^ 64) [sj_desktop_state j, sj_replay_state j, sj_identity_stub j]"
    and "list_all (\<lambda>p. length p < 2 ^ 64) (journal_paths k)"
  shows "(setup_decode L b = Inr j \<longleftrightarrow> wf_setup L j \<and> (setup_encode L j = Inr b \<or>
      \<not> sj_explicit_paths j \<and> sj_transport j = AutoChoice \<and> setup_encode_legacy L j = Inr b)) \<and>
    (cleanup_decode L b = Inr k \<longleftrightarrow> wf_cleanup L k \<and> (cleanup_encode L k = Inr b \<or> cleanup_encode_legacy L k = Inr b))"
  by (rule conjI [OF setup_decode_iff [OF assms(1-4)] cleanup_decode_iff [OF assms(1-3,5)]])

theorem journals_decode_exact_witness:
  "\<exists>b c. setup_decode ref_lib b = Inr (setup_new ''/c'' (replicate 16 9) (replicate 16 1)) \<and>
    cleanup_decode ref_lib c = Inr sample_cleanup"
proof -
  let ?j = "setup_new ''/c'' (replicate 16 9) (replicate 16 1)"
  have p: "list_all journal_path_text [sj_desktop_state ?j, sj_replay_state ?j, sj_identity_stub ?j]"
    by (rule setup_new_paths [OF sample_root_ok(1)])
  have l: "list_all (\<lambda>p. length p < 2 ^ 64) [sj_desktop_state ?j, sj_replay_state ?j, sj_identity_stub ?j]"
    by (rule setup_new_lengths) simp_all
  have m: "list_all (\<lambda>p. length p < 2 ^ 64) (journal_paths sample_cleanup)"
    using length_path_join [of "''/c''" "hex (replicate 16 2) @ ''.cbor''"]
    by (simp add: journal_paths_def sample_cleanup_def del: hex.simps replicate.simps)
  have w: "wf_setup ref_lib ?j"
    using p by (simp add: wf_setup_def) (simp add: setup_new_def Let_def)
  obtain b where b: "setup_encode ref_lib ?j = Inr b" using p by (simp add: setup_encode_def setup_encoded_path_def Let_def)
  obtain c where c: "cleanup_encode ref_lib sample_cleanup = Inr c"
    using sample_cleanup_valid(2) [of ref_lib]
    by (auto simp: wf_cleanup_def cleanup_encode_def encode_target_def journal_encoded_path_def sample_cleanup_def Let_def
        simp del: hex.simps replicate.simps)
  note t = journals_decode_exact [OF ref_laws(3,2,5) l m]
  have "setup_decode ref_lib b = Inr ?j" using t [of b, THEN conjunct1] w b by blast
  moreover have "cleanup_decode ref_lib c = Inr sample_cleanup" using t [of c, THEN conjunct2] sample_cleanup_valid(2) c by blast
  ultimately show ?thesis by blast
qed

subsection \<open>The life of a setup journal\<close>

text \<open>C35: Whatever calls a setup makes on a new journal, in any order and with any stubs, the journal
  keeps what it owns and passes the check of its root; its candidate was offered to it and is of its
  own desktop, and it is confirmed only when that very candidate was confirmed; it can always be
  written, and what is written reads back as the journal unless the pairing stage was entered again
  after a candidate was set, when nothing reads it.\<close>

theorem setup_journal_lifecycle:
  fixes root code d transport
  defines "start \<equiv> setup_new_with_transport root code d transport"
  assumes "cbor_sized (minicbor L)" "bech32_codec (bech L)" "p256_laws (ec L)"
    and "journal_path_text root" "path_is_absolute root" "length root < 2 ^ 60" "length code = 16" "length d = 16"
    and "\<forall>s. SetCandidate s \<in> set calls \<longrightarrow> stub_ok L s"
  shows "setup_inv start calls (setup_calls calls start) \<and>
    setup_validate_root macos root (setup_calls calls start) = Inr () \<and>
    (\<exists>b. setup_encode L (setup_calls calls start) = Inr b \<and>
      (setup_decode L b = Inr (setup_calls calls start) \<longleftrightarrow>
       sj_candidate (setup_calls calls start) = None \<or> sj_stage (setup_calls calls start) \<noteq> PairingStage))"
proof -
  have "sj_candidate start = None" "sj_stage start = Provisioning"
    by (simp_all add: start_def setup_new_with_transport_def setup_new_def Let_def)
  with setup_life [OF assms(2-10)] setup_inv_calls [of start calls] show ?thesis unfolding start_def by blast
qed

theorem setup_journal_lifecycle_witness:
  "\<exists>stub j b. sj_stage j = StageConfirmed \<and> sj_candidate j = Some stub \<and> setup_decode ref_lib b = Inr j"
proof -
  obtain s m shown s1 stub where stub: "stub_ok ref_lib stub" by (rule sample_pairing_completes)
  have l: "length (sb_desktop_id stub) = 16" using stub by (simp add: stub_ok_def wf_stub_def)
  let ?calls = "[SetPairing, SetCandidate stub, SetConfirmed stub]"
  let ?start = "setup_new_with_transport ''/c'' (replicate 16 9) (sb_desktop_id stub) QrChoice"
  have "\<forall>s. SetCandidate s \<in> set ?calls \<longrightarrow> stub_ok ref_lib s" using stub by simp
  from setup_journal_lifecycle [OF ref_laws(3,2,5) sample_root_ok _ _ l this, of "replicate 16 9" QrChoice]
  obtain b where b: "setup_decode ref_lib b = Inr (setup_calls ?calls ?start) \<longleftrightarrow>
      sj_candidate (setup_calls ?calls ?start) = None \<or> sj_stage (setup_calls ?calls ?start) \<noteq> PairingStage" by auto
  have "sj_stage (setup_calls ?calls ?start) = StageConfirmed" "sj_candidate (setup_calls ?calls ?start) = Some stub"
    by (simp_all add: setup_call_step_def set_pairing_def set_candidate_def set_confirmed_def setup_new_with_transport_def
        setup_new_def Let_def)
  with b show ?thesis by (intro exI [of _ stub] exI [of _ "setup_calls ?calls ?start"] exI [of _ b]) simp
qed

subsection \<open>The removal\<close>




end
