(* ===== verification/Pair_Command.thy ===== *)
theory Pair_Command
  imports Age_Exchange Age_Route
begin

text \<open>
  The command \<open>pair\<close> of \<open>crates/desktop/src/main.rs\<close> as built for Linux: it opens or creates the desktop
  state, chooses a route, exchanges the offer, has the user confirm the fingerprint, and commits the
  replay state, the locator and the public stub, with a rollback when a step fails.  The terminal, the
  transports, discovery, the scanner and the clocks are an environment.
\<close>

subsection \<open>Errors and surroundings\<close>

text \<open>\<open>io::Error\<close>: a kind with a text, or the error of a component with its own text, or one of the
  terminal.\<close>

datatype command_kind =
  KindOther | KindAlreadyExists | KindInvalidInput | KindPermissionDenied | KindTimedOut | KindUnsupported

datatype command_error =
    CommandError command_kind string | FromPolicy policy_error | FromAdb adb_error | TerminalError
  | StillRunning | CommandPanic

record ('w, 'sk) pair_env =
  pe_exchange :: "('w, unit) exchange_env"
  pe_discover :: "bytes \<Rightarrow> ('w, wifi_error, socket_addr) step"
  pe_elapsed :: "'w \<Rightarrow> 'w \<times> u64"
  pe_write :: "string \<Rightarrow> ('w, unit, unit) step"
  pe_read_line :: "('w, unit, string) step"
  pe_try_result :: "('w, unit, bytes option) step"
  pe_print :: "string \<Rightarrow> 'w \<Rightarrow> 'w"
  pe_clock :: int
  pe_config_root :: "(locator_error, os_path) result"
  pe_current_dir :: "os_path option"
  pe_canonicalize :: "os_path \<Rightarrow> os_path option"
  pe_state_draws :: "bytes \<times> 'sk \<times> 'sk"
  pe_nonce :: bytes
  pe_stub_mode :: u32
  pe_passes :: nat

definition on_disk :: "('f, 'e, 'a) step \<Rightarrow> ('f \<times> 'w, 'e, 'a) step" where
  "on_disk m = (\<lambda>(f, w). case m f of (f, r) \<Rightarrow> ((f, w), r))"

definition on_world :: "('w, 'e, 'a) step \<Rightarrow> ('f \<times> 'w, 'e, 'a) step" where
  "on_world m = (\<lambda>(f, w). case m w of (w, r) \<Rightarrow> ((f, w), r))"

lemma on_disk_Inr: "on_disk m (f, w) = ((t, w'), Inr x) \<longleftrightarrow> m f = (t, Inr x) \<and> w' = w"
  by (auto simp: on_disk_def split: prod.splits)

lemma on_world_Inr: "on_world m (f, w) = ((t, w'), Inr x) \<longleftrightarrow> m w = (w', Inr x) \<and> t = f"
  by (auto simp: on_world_def split: prod.splits)

lemma on_world_Inl: "on_world m (f, w) = ((t, w'), Inl x) \<longleftrightarrow> m w = (w', Inl x) \<and> t = f"
  by (auto simp: on_world_def split: prod.splits)

definition other :: "string \<Rightarrow> command_error" where
  "other message = CommandError KindOther message"

subsection \<open>Checks before\<close>

definition validate_setup_label :: "string \<Rightarrow> (command_error, unit) result" where
  "validate_setup_label desktop_label =
     (if length desktop_label > 64 then Inl (CommandError KindInvalidInput ''desktop label must be at most 64 UTF-8 bytes'')
      else Inr ())"

definition path_exists :: "path \<Rightarrow> (fs, command_error, bool) step" where
  "path_exists p = bindS (tryS (metadata p)) (\<lambda>r. retS (isOk r))"

definition ensure_pairing_outputs_available :: "os_path \<Rightarrow> os_path \<Rightarrow> (fs, command_error, unit) step" where
  "ensure_pairing_outputs_available identity_output replay_state =
     bindS (path_exists (path_of identity_output)) (\<lambda>e.
     bindS (failS e (CommandError KindAlreadyExists ''identity output already exists'')) (\<lambda>_.
     bindS (path_exists (path_of replay_state)) (\<lambda>e.
     failS e (CommandError KindAlreadyExists ''response replay state already exists''))))"

definition discover_pairing_wifi ::
    "('w, 'sk) pair_env \<Rightarrow> bytes \<Rightarrow> transport_choice \<Rightarrow> string option \<Rightarrow> ('w, command_error, socket_addr option) step" where
  "discover_pairing_wifi E desktop_id transport adb_serial =
     (if adb_serial \<noteq> None \<or> \<not> (transport = AutoChoice \<or> transport = WifiChoice) then retS None
      else bindS (tryS (pe_discover E desktop_id)) (\<lambda>r. case r of
          Inr address \<Rightarrow> retS (Some address)
        | Inl e \<Rightarrow>
            if e = DiscoveryUnavailable \<and> transport = AutoChoice then retS None
            else errS (other (wifi_error_display e))))"

text \<open>\<open>setup::read_optional\<close> finds no journal on Linux.\<close>

definition ensure_no_setup_pending_for_pair :: "os_path \<Rightarrow> (fs, command_error, unit) step" where
  "ensure_no_setup_pending_for_pair config_root = retS ()"

definition prepare_pairing_config_root :: "('w, 'sk) pair_env \<Rightarrow> (fs, command_error, os_path) step" where
  "prepare_pairing_config_root E =
     bindS (liftS (mapErr (\<lambda>_. other ''phone plugin configuration is unavailable'') (pe_config_root E))) (\<lambda>config_root.
     bindS (mapErrS (\<lambda>_. other ''phone plugin configuration is unavailable'')
       (private_prepare_directory (path_of config_root))) (\<lambda>_.
     bindS (ensure_no_setup_pending_for_pair config_root) (\<lambda>_.
     retS config_root)))"

subsection \<open>The exchange\<close>

definition command_exchange_adb ::
    "('w, 'sk) pair_env \<Rightarrow> session_purpose \<Rightarrow> bytes \<Rightarrow> string option \<Rightarrow> ('w, command_error, bytes) step" where
  "command_exchange_adb E purpose request device w = (let X = pe_exchange E in
     case adb_connect (xe_adb X) device purpose (xe_accept X w) default_limits (xe_session_id X w) w of
       (w, Inl e) \<Rightarrow> (w, Inl (FromAdb e))
     | (w, Inr session) \<Rightarrow>
         (case adb_exchange (xe_adb X) purpose request (session, w) of
            (s, r) \<Rightarrow> (snd (adb_drop (xe_adb X) s), mapErr (\<lambda>_. other ''ADB transport session failed closed'') r)))"

definition command_exchange_wifi ::
    "('w, 'sk) pair_env \<Rightarrow> session_purpose \<Rightarrow> bytes \<Rightarrow> socket_addr \<Rightarrow> ('w, command_error, bytes) step" where
  "command_exchange_wifi E purpose request endpoint w = (let X = pe_exchange E in
     case wifi_connect endpoint (\<lambda>a. snd (xe_tcp X a w)) (xe_socket_options X) default_limits (xe_session_id X w) of
       Inl e \<Rightarrow> (fst (xe_tcp X endpoint w), Inl (other (wifi_error_display e)))
     | Inr session \<Rightarrow> (fst (xe_tcp X endpoint w),
         mapErr (\<lambda>_. other ''Wi-Fi transport session failed closed'') (snd (wifi_exchange purpose request session))))"

definition DEFAULT_FRAME_INTERVAL_MS :: u64 where "DEFAULT_FRAME_INTERVAL_MS = 250"

definition pairing_frame_text :: "nat \<Rightarrow> nat \<Rightarrow> string \<Rightarrow> string" where
  "pairing_frame_text index n rendered =
     [CHR 0x1B] @ ''[2J'' @ [CHR 0x1B] @ ''[HPair phone '' @ [CHR 0xC2, CHR 0xB7] @ '' offer frame '' @ decimal (index + 1) @
     ''/'' @ decimal n @ [NL] @ ''Waiting for captured phone response'' @ [CHR 0xE2, CHR 0x80, CHR 0xA6, NL, NL] @ rendered"

text \<open>Each pass of the loop shows a frame and sleeps; the number of passes that are followed is an
  argument, and \<open>StillRunning\<close> says that they did not suffice.\<close>

fun pairing_qr_loop :: "('w, 'sk) pair_env \<Rightarrow> nat \<Rightarrow> nat \<Rightarrow> frame_scheduler \<Rightarrow> ('w, command_error, bytes) step" where
  "pairing_qr_loop E 0 n sch = errS StillRunning"
| "pairing_qr_loop E (Suc k) n sch =
     bindS (mapErrS (\<lambda>_. other ''desktop QR scanner is unavailable'') (pe_try_result E)) (\<lambda>r. case r of
       Some response \<Rightarrow> retS response
     | None \<Rightarrow> (\<lambda>w. case pe_elapsed E w of (w, elapsed) \<Rightarrow>
         if elapsed > MAX_PAIRING_SESSION_AGE_MS then (w, Inl (CommandError KindTimedOut ''pairing timed out''))
         else case frame_at elapsed sch of
           (_, Inl _) \<Rightarrow> (w, Inl (other ''pairing QR clock failed''))
         | (sch, Inr (index, frame)) \<Rightarrow>
             bindS (liftS (okOr (other ''failed to render pairing QR'') (xe_render (pe_exchange E) frame))) (\<lambda>rendered.
             bindS (mapErrS (\<lambda>_. TerminalError) (pe_write E (pairing_frame_text index n rendered))) (\<lambda>_.
             pairing_qr_loop E k n sch)) w))"

definition exchange_pairing_qr ::
    "('pk, 'sg, 'sk) lib \<Rightarrow> ('w, 'sk) pair_env \<Rightarrow> bytes \<Rightarrow> ('w, command_error, bytes) step" where
  "exchange_pairing_qr L E request w =
     bindS (liftS (mapErr (\<lambda>_. other ''failed to fragment pairing offer'')
       (fragment_qr_message L request 120 (xe_transfer_id (pe_exchange E) w)))) (\<lambda>frames.
     bindS (liftS (mapErr (\<lambda>_. other ''failed to schedule pairing QR'') (scheduler_new frames DEFAULT_FRAME_INTERVAL_MS))) (\<lambda>sch.
     pairing_qr_loop E (pe_passes E) (length frames) sch)) w"

definition exchange_pairing_route ::
    "('pk, 'sg, 'sk) lib \<Rightarrow> ('w, 'sk) pair_env \<Rightarrow> transport_route \<Rightarrow> bytes \<Rightarrow> ('w, command_error, bytes) step" where
  "exchange_pairing_route L E route offer = (case route_kind route of
     AdbKind \<Rightarrow> command_exchange_adb E PairingPurpose offer (route_adb_serial route)
   | QrKind \<Rightarrow> exchange_pairing_qr L E offer
   | WifiKind \<Rightarrow> (case route_wifi_address route of
       None \<Rightarrow> errS CommandPanic
     | Some endpoint \<Rightarrow> command_exchange_wifi E PairingPurpose offer endpoint)
   | BleKind \<Rightarrow> errS CommandPanic)"

subsection \<open>The confirmation\<close>

definition fingerprint_prompt :: "string \<Rightarrow> string" where
  "fingerprint_prompt fp =
     [CHR 0x1B] @ ''[2J'' @ [CHR 0x1B] @ ''[HCompare this full fingerprint with the phone:'' @ [NL] @ fp @ [NL, NL] @
     ''Type the full fingerprint to confirm:'' @ [NL]"

text \<open>\<open>on_verified\<close> works on what the caller keeps beside the terminal (the disk, or a journal on it).\<close>

definition complete_pairing_interaction ::
    "('pk, 'sg, 'sk) lib \<Rightarrow> ('w, 'sk) pair_env \<Rightarrow> bytes \<Rightarrow> (public_identity_stub \<Rightarrow> ('c, command_error, unit) step) \<Rightarrow>
     desktop_pairing_session \<Rightarrow> ('c \<times> 'w, command_error, public_identity_stub) step" where
  "complete_pairing_interaction L E response on_verified session = (\<lambda>(c, w).
     case pe_elapsed E w of (w, t1) \<Rightarrow>
      case receive_pairing_response L response t1 session of
        (_, Inl _) \<Rightarrow> ((c, w), Inl (CommandError KindPermissionDenied ''pairing response rejected''))
      | (session, Inr display) \<Rightarrow>
          bindS (liftS (mapErr (\<lambda>_. other ''verified pairing candidate is unavailable'') (pending_stub L session))) (\<lambda>candidate.
          bindS (on_disk (on_verified candidate)) (\<lambda>_.
          bindS (on_world (mapErrS (\<lambda>_. TerminalError) (pe_write E (fingerprint_prompt (pd_transcript_fingerprint display))))) (\<lambda>_.
          bindS (on_world (mapErrS (\<lambda>_. TerminalError) (pe_read_line E))) (\<lambda>confirmation (c, w).
          case pe_elapsed E w of (w, t2) \<Rightarrow>
            ((c, w), mapErr (\<lambda>_. CommandError KindPermissionDenied ''pairing not confirmed'')
              (snd (confirm L (trim confirmation) t2 session))))))) (c, w))"

subsection \<open>The commit\<close>

text \<open>A file that is not there counts as removed.\<close>

definition remove_private_pairing_file :: "path \<Rightarrow> fs \<Rightarrow> fs \<times> bool" where
  "remove_private_pairing_file p f = (case remove_file p f of
     (f, Inr _) \<Rightarrow> (f, True)
   | (f, Inl e) \<Rightarrow> (f, e = NotFound))"

definition replay_lock_path :: "path \<Rightarrow> path option" where
  "replay_lock_path p = (case file_name p of
     None \<Rightarrow> None
   | Some n \<Rightarrow> (case parent p of None \<Rightarrow> None | Some d \<Rightarrow> Some (join_path d (n @ ''.lock''))))"

definition rollback_failed_pairing ::
    "os_path \<Rightarrow> os_path \<Rightarrow> os_path option \<Rightarrow> bool \<Rightarrow> fs \<Rightarrow> fs \<times> bool" where
  "rollback_failed_pairing desktop_state replay_state locator_path desktop_state_created f =
     (let (f, a) = (case locator_path of Some p \<Rightarrow> remove_private_pairing_file (path_of p) f | None \<Rightarrow> (f, True));
          (f, b) = remove_private_pairing_file (path_of replay_state) f;
          (f, c) = (case replay_lock_path (path_of replay_state) of
            Some p \<Rightarrow> remove_private_pairing_file p f | None \<Rightarrow> (f, False));
          (f, d) = (if desktop_state_created then remove_private_pairing_file (path_of desktop_state) f else (f, True))
      in (f, a \<and> b \<and> c \<and> d))"

definition pairing_commit_error :: "string \<Rightarrow> bool \<Rightarrow> command_error" where
  "pairing_commit_error message rolled_back = other (message @ (if rolled_back
     then ''; local partial state was removed, but the phone pairing must be revoked''
     else ''; local rollback is incomplete and the phone pairing must be revoked''))"

definition commit_failed ::
    "os_path \<Rightarrow> os_path \<Rightarrow> os_path option \<Rightarrow> bool \<Rightarrow> string \<Rightarrow> (fs, command_error, unit) step" where
  "commit_failed desktop_state replay_state locator_path created message f =
     (case rollback_failed_pairing desktop_state replay_state locator_path created f of
        (f, rolled_back) \<Rightarrow> (f, Inl (pairing_commit_error message rolled_back)))"

definition commit_pairing_state ::
    "('pk, 'sg, 'sk) lib \<Rightarrow> ('w, 'sk) pair_env \<Rightarrow> os_path \<Rightarrow> public_identity_stub \<Rightarrow> os_path \<Rightarrow> os_path \<Rightarrow> os_path \<Rightarrow>
     bool \<Rightarrow> transport_choice \<Rightarrow> recipient_type \<Rightarrow> (fs, command_error, unit) step" where
  "commit_pairing_state L E config_root stub desktop_state identity_output replay_state created transport recipient_type =
     bindS (liftS (mapErr (\<lambda>_. other ''system clock is unavailable'') (now_unix (pe_clock E)))) (\<lambda>now.
     bindS (tryS (file_create (minicbor L) (path_of replay_state) (scope_for_pairing DesktopResponses (stub_pairing stub))
         DEFAULT_REPLAY_CAPACITY now)) (\<lambda>r. case r of
       Inl _ \<Rightarrow> commit_failed desktop_state replay_state None created ''failed to create durable response replay state''
     | Inr replay \<Rightarrow> (\<lambda>f.
         bindS (tryS (create_pairing_locator_with_transport (minicbor L) (pe_current_dir E) (pe_canonicalize E) config_root stub
             desktop_state replay_state transport)) (\<lambda>r. case r of
           Inl _ \<Rightarrow> commit_failed desktop_state replay_state None created ''failed to create private pairing locator''
         | Inr locator_path \<Rightarrow>
             bindS (tryS (create_identity_stub_file_for L (pe_stub_mode E) (path_of identity_output) stub recipient_type)) (\<lambda>r.
             case r of
               Inl _ \<Rightarrow> commit_failed desktop_state replay_state (Some locator_path) created ''failed to create public identity stub''
             | Inr _ \<Rightarrow> retS ())) (file_drop replay f))))"

definition print_pairing_outputs ::
    "('pk, 'sg, 'sk) lib \<Rightarrow> ('w, 'sk) pair_env \<Rightarrow> os_path \<Rightarrow> public_identity_stub \<Rightarrow> recipient_type \<Rightarrow>
     ('w, command_error, unit) step" where
  "print_pairing_outputs L E identity_output stub recipient_type w =
     (let w = pe_print E (''Public identity stub created: '' @ identity_output @ [NL]) w
      in case recipient_for L stub recipient_type of
           Inl _ \<Rightarrow> (w, Inl (other ''failed to encode selectable recipient''))
         | Inr r \<Rightarrow> (pe_print E (''Recipient: '' @ r @ [NL]) w, Inr ()))"

subsection \<open>The command\<close>

text \<open>What follows the exchange, with the response it got.\<close>

definition pairing_exchanged ::
    "('pk, 'sg, 'sk) lib \<Rightarrow> ('w, 'sk) pair_env \<Rightarrow> os_path \<Rightarrow> desktop_pairing_session \<Rightarrow> os_path \<Rightarrow> os_path \<Rightarrow> os_path \<Rightarrow>
     bool \<Rightarrow> transport_choice \<Rightarrow> recipient_type \<Rightarrow> bytes \<Rightarrow> (fs \<times> 'w, command_error, unit) step" where
  "pairing_exchanged L E config_root session desktop_state identity_output replay_state created transport recipient_type response =
     bindS (complete_pairing_interaction L E response (\<lambda>_. retS ()) session) (\<lambda>stub.
     bindS (on_disk (commit_pairing_state L E config_root stub desktop_state identity_output replay_state created transport
       recipient_type)) (\<lambda>_.
     on_world (print_pairing_outputs L E identity_output stub recipient_type)))"

definition exchange_failed ::
    "os_path \<Rightarrow> os_path \<Rightarrow> bool \<Rightarrow> command_error \<Rightarrow> (fs \<times> 'w, command_error, unit) step" where
  "exchange_failed desktop_state replay_state created e = (\<lambda>(f, w).
     case rollback_failed_pairing desktop_state replay_state None created f of
       (f, complete) \<Rightarrow> ((f, w), Inl (if complete then e
         else other ''pairing transport failed and local rollback is incomplete'')))"

definition run_pair ::
    "('pk, 'sg, 'sk) lib \<Rightarrow> 'sk key_bytes \<Rightarrow> ('w, 'sk) pair_env \<Rightarrow> string \<Rightarrow> os_path \<Rightarrow> os_path \<Rightarrow> os_path \<Rightarrow>
     transport_choice \<Rightarrow> string option \<Rightarrow> recipient_type \<Rightarrow> (fs \<times> 'w, command_error, unit) step" where
  "run_pair L K E desktop_label desktop_state identity_output replay_state transport adb_serial recipient_type =
     bindS (liftS (validate_setup_label desktop_label)) (\<lambda>_.
     bindS (on_disk (ensure_pairing_outputs_available identity_output replay_state)) (\<lambda>_.
     bindS (on_disk (path_exists (path_of desktop_state))) (\<lambda>existed.
     bindS (failS (path_eq desktop_state replay_state \<or> path_eq desktop_state identity_output \<or>
       path_eq replay_state identity_output) (CommandError KindInvalidInput ''pairing output paths must be distinct'')) (\<lambda>_.
     bindS (on_disk (mapErrS (\<lambda>_. other ''desktop authentication state is unavailable'')
       (key_state_open_or_create L K (path_of desktop_state) (pe_state_draws E)))) (\<lambda>state.
     bindS (on_world (discover_pairing_wifi E (dk_desktop_id state) transport adb_serial)) (\<lambda>wifi_address.
     bindS (liftS (mapErr FromPolicy (resolve_transport False transport PairingOperation
       \<lparr> hint_adb_serial = adb_serial, hint_wifi_address = wifi_address \<rparr>))) (\<lambda>route.
     bindS (on_disk (prepare_pairing_config_root E)) (\<lambda>config_root.
     bindS (liftS (mapErr (\<lambda>_. other ''desktop selection key is unavailable'') (key_selection_public L state))) (\<lambda>selection_public.
     bindS (liftS (mapErr (\<lambda>_. other ''failed to create pairing offer'')
       (session_begin L (dk_desktop_id state) desktop_label (key_signer L state) selection_public 0 (pe_nonce E)))) (\<lambda>session.
     bindS (tryS (on_world (exchange_pairing_route L E route (session_signed_offer L session)))) (\<lambda>r. case r of
       Inl e \<Rightarrow> exchange_failed desktop_state replay_state (\<not> existed) e
     | Inr response \<Rightarrow> pairing_exchanged L E config_root session desktop_state identity_output replay_state (\<not> existed)
         transport recipient_type response)))))))))))"

end
