(* ===== verification/Unwrap_Command.thy ===== *)
theory Unwrap_Command
  imports Pair_Command
begin

text \<open>
  The commands \<open>unwrap\<close>, \<open>recipients\<close> and \<open>wifi-doctor\<close> of \<open>crates/desktop/src/main.rs\<close> as built for
  Linux.  The transports, the terminal and discovery are the environment of \<open>Pair_Command\<close>; the clock
  is read from the world, since \<open>unwrap\<close> reads it more than once.
\<close>

subsection \<open>Surroundings\<close>

record ('w, 'sk) unwrap_env =
  ue_pair :: "('w, 'sk) pair_env"
  ue_discover :: "public_identity_stub \<Rightarrow> ('w, wifi_error, socket_addr) step"
  ue_clock :: "'w \<Rightarrow> 'w \<times> int"
  ue_draws :: "'sk \<times> bytes \<times> bytes"

text \<open>One constructor for each message of the source: \<open>invalid public identity stub\<close>, the discovery and policy
  errors, \<open>desktop authentication state is unavailable\<close>, \<open>malformed stanza body\<close>, \<open>system clock is
  unavailable\<close>, \<open>unwrap request rejected\<close>, the errors of the exchange, \<open>durable response replay state is
  unavailable\<close>, \<open>unwrap response rejected\<close>, and a failed write.\<close>

datatype unwrap_command_error =
    InvalidStubFile | UnwrapDiscovery wifi_error | UnwrapPolicy policy_error | DesktopStateUnavailable | MalformedBody
  | ClockUnavailable | RequestRejected | ExchangeError command_error | ReplayUnavailable | ResponseRejected | OutputError

definition clock_now :: "('w, 'sk) unwrap_env \<Rightarrow> ('w, unwrap_command_error, u64) step" where
  "clock_now U w = (case ue_clock U w of (w, c) \<Rightarrow> (w, mapErr (\<lambda>_. ClockUnavailable) (now_unix c)))"

definition discover_unwrap_wifi ::
    "('w, 'sk) unwrap_env \<Rightarrow> public_identity_stub \<Rightarrow> transport_choice \<Rightarrow> string option \<Rightarrow> socket_addr option \<Rightarrow>
     ('w, unwrap_command_error, socket_addr option) step" where
  "discover_unwrap_wifi U stub transport adb_serial wifi_address =
     (if adb_serial \<noteq> None \<or> wifi_address \<noteq> None \<or> \<not> (transport = AutoChoice \<or> transport = WifiChoice) then retS wifi_address
      else bindS (tryS (ue_discover U stub)) (\<lambda>r. case r of
          Inr address \<Rightarrow> retS (Some address)
        | Inl e \<Rightarrow>
            if e = DiscoveryUnavailable \<and> transport = AutoChoice then retS None
            else errS (UnwrapDiscovery e)))"

subsection \<open>The exchange\<close>

definition unwrap_frame_text :: "nat \<Rightarrow> nat \<Rightarrow> string \<Rightarrow> string \<Rightarrow> string" where
  "unwrap_frame_text index n request_fingerprint rendered =
     [CHR 0x1B] @ ''[2J'' @ [CHR 0x1B] @ ''[HApprove phone unwrap '' @ [CHR 0xC2, CHR 0xB7] @ '' request frame '' @
     decimal (index + 1) @ ''/'' @ decimal n @ [NL] @ ''Request fingerprint: '' @ request_fingerprint @ [NL] @
     ''Waiting for captured phone response'' @ [CHR 0xE2, CHR 0x80, CHR 0xA6, NL, NL] @ rendered"

text \<open>The deadline is that of the request by the wall clock; a clock before the epoch counts as past it.\<close>

fun unwrap_qr_loop ::
    "('w, 'sk) unwrap_env \<Rightarrow> unwrap_display \<Rightarrow> nat \<Rightarrow> nat \<Rightarrow> frame_scheduler \<Rightarrow> ('w, command_error, bytes) step" where
  "unwrap_qr_loop U display 0 n sch = errS StillRunning"
| "unwrap_qr_loop U display (Suc k) n sch = (let E = ue_pair U in
     bindS (mapErrS (\<lambda>_. other ''desktop QR scanner is unavailable'') (pe_try_result E)) (\<lambda>r. case r of
       Some response \<Rightarrow> retS response
     | None \<Rightarrow> (\<lambda>w. case pe_elapsed E w of (w, elapsed) \<Rightarrow> case ue_clock U w of (w, c) \<Rightarrow>
         if (case now_unix c of Inl _ \<Rightarrow> -1 | Inr now \<Rightarrow> now) > ud_expires_at_unix display
         then (w, Inl (CommandError KindTimedOut ''unwrap timed out''))
         else case frame_at elapsed sch of
           (_, Inl _) \<Rightarrow> (w, Inl (other ''unwrap QR clock failed''))
         | (sch, Inr (index, frame)) \<Rightarrow>
             bindS (liftS (okOr (other ''failed to render unwrap QR'') (xe_render (pe_exchange E) frame))) (\<lambda>rendered.
             bindS (mapErrS (\<lambda>_. TerminalError) (pe_write E (unwrap_frame_text index n (ud_request_fingerprint display) rendered))) (\<lambda>_.
             unwrap_qr_loop U display k n sch)) w)))"

definition exchange_unwrap_qr ::
    "('pk, 'sg, 'sk) lib \<Rightarrow> ('w, 'sk) unwrap_env \<Rightarrow> bytes \<Rightarrow> unwrap_display \<Rightarrow> ('w, command_error, bytes) step" where
  "exchange_unwrap_qr L U request display w =
     bindS (liftS (mapErr (\<lambda>_. other ''failed to fragment unwrap request'')
       (fragment_qr_message L request 120 (xe_transfer_id (pe_exchange (ue_pair U)) w)))) (\<lambda>frames.
     bindS (liftS (mapErr (\<lambda>_. other ''failed to schedule unwrap QR'') (scheduler_new frames DEFAULT_FRAME_INTERVAL_MS))) (\<lambda>sch.
     unwrap_qr_loop U display (pe_passes (ue_pair U)) (length frames) sch)) w"

definition exchange_unwrap_route ::
    "('pk, 'sg, 'sk) lib \<Rightarrow> ('w, 'sk) unwrap_env \<Rightarrow> transport_route \<Rightarrow> bytes \<Rightarrow> unwrap_display \<Rightarrow>
     ('w, command_error, bytes) step" where
  "exchange_unwrap_route L U route request display = (case route_kind route of
     AdbKind \<Rightarrow> command_exchange_adb (ue_pair U) UnwrapPurpose request (route_adb_serial route)
   | QrKind \<Rightarrow> exchange_unwrap_qr L U request display
   | WifiKind \<Rightarrow> (case route_wifi_address route of
       None \<Rightarrow> errS CommandPanic
     | Some endpoint \<Rightarrow> command_exchange_wifi (ue_pair U) UnwrapPurpose request endpoint)
   | BleKind \<Rightarrow> errS CommandPanic)"

subsection \<open>The command\<close>

definition command_stanza :: "string \<Rightarrow> bytes \<Rightarrow> tagged_stanza" where
  "command_stanza stanza_arg body = \<lparr> st_tag = STANZA_TAG, st_args = [stanza_arg], st_body = body \<rparr>"

text \<open>The response is opened under the guard on the replay state, which is dropped on every return; the
  file key is dropped unseen.\<close>

definition unwrap_response_received ::
    "('pk, 'sg, 'sk) lib \<Rightarrow> ('w, 'sk) unwrap_env \<Rightarrow> public_identity_stub \<Rightarrow> os_path \<Rightarrow> 'sk desktop_unwrap_session \<Rightarrow> bytes \<Rightarrow>
     (fs \<times> 'w, unwrap_command_error, unit) step" where
  "unwrap_response_received L U stub replay_state session response = (\<lambda>(f, w).
     case file_open_guard (minicbor L) (path_of replay_state) (scope_for_pairing DesktopResponses (stub_pairing stub))
            DEFAULT_REPLAY_CAPACITY f of
       (f, Inl _) \<Rightarrow> ((f, w), Inl ReplayUnavailable)
     | (f, Inr replay) \<Rightarrow> (case clock_now U w of
         (w, Inl e) \<Rightarrow> ((file_drop replay f, w), Inl e)
       | (w, Inr now) \<Rightarrow> (case unwrap_receive L (file_ops (minicbor L)) response now (session, (Some replay, f)) of
           ((_, slot), Inl _) \<Rightarrow> ((drop_slot slot, w), Inl ResponseRejected)
         | ((_, slot), Inr file_key) \<Rightarrow>
             (case pe_write (ue_pair U)
                     ([CHR 0x1B] @ ''[2J'' @ [CHR 0x1B] @ ''[HAuthenticated one-time unwrap completed.'' @ [NL]) w of
                (w, r) \<Rightarrow> ((drop_slot slot, w), mapErr (\<lambda>_. OutputError) r)))))"

definition run_unwrap ::
    "('pk, 'sg, 'sk) lib \<Rightarrow> 'sk key_bytes \<Rightarrow> ('w, 'sk) unwrap_env \<Rightarrow> os_path \<Rightarrow> os_path \<Rightarrow> os_path \<Rightarrow> string \<Rightarrow> string \<Rightarrow>
     string option \<Rightarrow> transport_choice \<Rightarrow> string option \<Rightarrow> socket_addr option \<Rightarrow> (fs \<times> 'w, unwrap_command_error, unit) step" where
  "run_unwrap L K U identity_stub desktop_state replay_state stanza_arg stanza_body caller_hint transport adb_serial wifi_address =
     bindS (on_disk (mapErrS (\<lambda>_. InvalidStubFile) (read_identity_stub_file L (path_of identity_stub)))) (\<lambda>stub.
     bindS (on_world (discover_unwrap_wifi U stub transport adb_serial wifi_address)) (\<lambda>wifi_address.
     bindS (liftS (mapErr UnwrapPolicy (resolve_transport False transport UnwrapOperation
       \<lparr> hint_adb_serial = adb_serial, hint_wifi_address = wifi_address \<rparr>))) (\<lambda>route.
     bindS (on_disk (mapErrS (\<lambda>_. DesktopStateUnavailable) (key_state_open L K (path_of desktop_state)))) (\<lambda>desktop.
     bindS (liftS (okOr MalformedBody (b64_decode (std64 L) (trim stanza_body)))) (\<lambda>body.
     bindS (on_world (clock_now U)) (\<lambda>now.
     bindS (liftS (mapErr (\<lambda>_. RequestRejected)
       (unwrap_begin L stub desktop (command_stanza stanza_arg body) caller_hint now (ue_draws U)))) (\<lambda>session.
     bindS (on_world (mapErrS ExchangeError
       (exchange_unwrap_route L U route (unwrap_signed_request L session) (unwrap_display_of session)))) (\<lambda>response.
     unwrap_response_received L U stub replay_state session response))))))))"

subsection \<open>The other commands\<close>

definition run_recipients ::
    "('pk, 'sg, 'sk) lib \<Rightarrow> os_path \<Rightarrow> recipient_type \<Rightarrow> (fs, command_error, string) step" where
  "run_recipients L identity_stub recipient_type =
     bindS (mapErrS (\<lambda>_. other ''invalid public identity stub'') (read_identity_stub_file L (path_of identity_stub))) (\<lambda>stub.
     bindS (liftS (mapErr (\<lambda>_. other ''invalid recipient'') (recipient_for L stub recipient_type))) (\<lambda>recipient.
     retS (recipient @ [NL])))"

definition doctor_advice :: "wifi_error \<Rightarrow> string \<times> string" where
  "doctor_advice e = (case e of
     DiscoveryUnavailable \<Rightarrow> (''no_matching_response'', ''check_phone_foreground_mode_same_subnet_listener_then_firewall'')
   | DiscoveryAmbiguous \<Rightarrow> (''multiple_candidates'', ''leave_only_the_intended_phone_listener_active'')
   | _ \<Rightarrow> (''local_socket_unavailable'', ''check_local_network_interfaces_and_endpoint_security_policy''))"

text \<open>\<open>wifi-doctor\<close>: a stub is read, one discovery runs, and its result is printed; nothing else is opened.\<close>

definition run_wifi_doctor ::
    "('pk, 'sg, 'sk) lib \<Rightarrow> ('w, 'sk) unwrap_env \<Rightarrow> bytes \<Rightarrow> os_path option \<Rightarrow> (fs \<times> 'w, command_error, unit) step" where
  "run_wifi_doctor L U desktop_id identity_stub =
     bindS (on_disk (case identity_stub of
         None \<Rightarrow> retS None
       | Some p \<Rightarrow> bindS (mapErrS (\<lambda>_. other ''wifi_doctor: public_stub_unavailable; check the selected public identity stub'')
           (read_identity_stub_file L (path_of p))) (\<lambda>stub. retS (Some stub)))) (\<lambda>stub.
     on_world (\<lambda>w. let E = ue_pair U;
         w = pe_print E (''stage=discovery purpose='' @ (if stub = None then ''pairing'' else ''unwrap'') @ '' timeout_ms=3000'' @ [NL]) w
       in case (case stub of Some v \<Rightarrow> ue_discover U v w | None \<Rightarrow> pe_discover E desktop_id w) of
            (w, result) \<Rightarrow> (case pe_elapsed E w of (w, elapsed) \<Rightarrow>
              (case result of
                 Inr _ \<Rightarrow>
                   (let w = pe_print E (''stage=discovery elapsed_ms='' @ decimal (unat elapsed) @ '' result=one_candidate'' @ [NL]) w;
                        w = pe_print E (''next=run_a_fresh_operation; discovery_does_not_authorize_pairing_or_unwrap'' @ [NL]) w
                    in (w, Inr ()))
               | Inl e \<Rightarrow> (let (reason, advice) = doctor_advice e;
                        w = pe_print E (''stage=discovery elapsed_ms='' @ decimal (unat elapsed) @ '' result='' @ reason @ [NL]) w;
                        w = pe_print E (''next='' @ advice @ ''; timeout_alone_does_not_identify_a_firewall_fault'' @ [NL]) w
                    in (w, Inl (other ''Wi-Fi discovery diagnostic failed'')))))))"

subsection \<open>What a successful unwrap consumed\<close>

lemma clock_now_ok: "clock_now U w = (w', Inr t) \<Longrightarrow> \<exists>c. ue_clock U w = (w', c) \<and> now_unix c = Inr t"
  by (auto simp: clock_now_def mapErr_Inr_iff split: prod.splits)

text \<open>The message of success is only reached through a response that the session accepts and the replay
  state on disk had not seen.\<close>

lemma unwrap_received_ok:
  assumes "unwrap_response_received L U stub replay session response (f, w) = ((t, w'), Inr u)"
  obtains g f1 now fk us slot where
    "file_open_guard (minicbor L) (path_of replay) (scope_for_pairing DesktopResponses (stub_pairing stub)) DEFAULT_REPLAY_CAPACITY f =
      (f1, Inr g)"
    "unwrap_receive L (file_ops (minicbor L)) response now (session, (Some g, f1)) = ((us, slot), Inr fk)" "t = drop_slot slot"
proof -
  let ?sc = "scope_for_pairing DesktopResponses (stub_pairing stub)"
  obtain f1 q where f1: "file_open_guard (minicbor L) (path_of replay) ?sc DEFAULT_REPLAY_CAPACITY f = (f1, q)" by fastforce
  with assms obtain g where g: "q = Inr g" by (cases q) (auto simp: unwrap_response_received_def)
  obtain w1 c where w1: "clock_now U w = (w1, c)" by fastforce
  with assms f1 g obtain now where now: "c = Inr now" by (cases c) (auto simp: unwrap_response_received_def)
  obtain us slot r where r: "unwrap_receive L (file_ops (minicbor L)) response now (session, (Some g, f1)) = ((us, slot), r)"
    by (metis prod.collapse)
  with assms f1 g w1 now obtain fk where "r = Inr fk" by (cases r) (auto simp: unwrap_response_received_def)
  moreover from this assms f1 g w1 now r have "t = drop_slot slot"
    by (auto simp: unwrap_response_received_def split: prod.splits)
  ultimately show thesis using that f1 g r by blast
qed

lemma run_unwrap_ok:
  assumes "run_unwrap L K U out desktop replay arg body hint transport adb addr (f, w) = ((t, w'), Inr u)"
  obtains f1 f2 stub d b now session response w0 w1 route where
    "read_identity_stub_file L (path_of out) f = (f1, Inr stub)" "key_state_open L K (path_of desktop) f1 = (f2, Inr d)"
    "b64_decode (std64 L) (trim body) = Some b" "unwrap_begin L stub d (command_stanza arg b) hint now (ue_draws U) = Inr session"
    "exchange_unwrap_route L U route (unwrap_signed_request L session) (unwrap_display_of session) w0 = (w1, Inr response)"
    "unwrap_response_received L U stub replay session response (f2, w1) = ((t, w'), Inr ())"
proof -
  have "\<exists>f1 stub f2 d b now session response w0 w1 route. read_identity_stub_file L (path_of out) f = (f1, Inr stub) \<and>
    key_state_open L K (path_of desktop) f1 = (f2, Inr d) \<and>
    b64_decode (std64 L) (trim body) = Some b \<and> unwrap_begin L stub d (command_stanza arg b) hint now (ue_draws U) = Inr session \<and>
    exchange_unwrap_route L U route (unwrap_signed_request L session) (unwrap_display_of session) w0 = (w1, Inr response) \<and>
    unwrap_response_received L U stub replay session response (f2, w1) = ((t, w'), Inr ())"
    using assms
    by (clarsimp simp: run_unwrap_def bindS_Inr_iff on_disk_Inr on_world_Inr mapErrS_Inr_iff mapErr_Inr_iff okOr_Inr_iff)
      (intro exI conjI, assumption+)
  with that show thesis by blast
qed

end
