(* ===== verification/Pair_Commit.thy ===== *)
theory Pair_Commit
  imports Pair_Command
begin

text \<open>
  What the command \<open>pair\<close> leaves on disk, whatever faults occur: a success is the disk of a paired
  desktop for a stub the user confirmed, and a failed commit removes what its rollback is about.
\<close>

subsection \<open>What storage leaves\<close>

text \<open>A step that keeps the locks and every node that is there, whatever the faults.\<close>

definition preserves :: "(fs, 'e, 'a) step \<Rightarrow> bool" where
  "preserves m \<longleftrightarrow> (\<forall>f t r. m f = (t, r) \<longrightarrow> locks t = locks f \<and> (\<forall>p n. nodes f p = Some n \<longrightarrow> nodes t p = Some n))"

lemma preservesD:
  assumes "preserves m" "m f = (t, r)"
  shows "locks t = locks f" "nodes f p = Some n \<Longrightarrow> nodes t p = Some n"
  using assms unfolding preserves_def by blast+

lemma preserves_simps [simp, intro]: "preserves (retS x)" "preserves (errS e)" "preserves (liftS r)" "preserves (failS c e')"
  by (simp_all add: preserves_def)

lemma preserves_bindS [intro]:
  assumes "preserves m" "\<And>x. preserves (k x)" shows "preserves (bindS m k)"
  unfolding preserves_def
proof (intro allI impI)
  fix f t r assume b: "bindS m k f = (t, r)"
  obtain g q where g: "m f = (g, q)" by fastforce
  show "locks t = locks f \<and> (\<forall>p n. nodes f p = Some n \<longrightarrow> nodes t p = Some n)"
  proof (cases q)
    case (Inl e)
    with b g have "t = g" by (simp add: bindS_def)
    with preservesD [OF assms(1) g] show ?thesis by blast
  next
    case (Inr x)
    with b g have h: "k x g = (t, r)" by (simp add: bindS_def)
    show ?thesis using preservesD [OF assms(1) g] preservesD [OF assms(2) h] by simp
  qed
qed

lemma preserves_tryS [intro]: "preserves m \<Longrightarrow> preserves (tryS m)"
  unfolding preserves_def by (auto simp: tryS_iff)

lemma preserves_mapErrS [intro]: "preserves m \<Longrightarrow> preserves (mapErrS g m)"
  unfolding preserves_def mapErrS_def by (auto split: prod.splits)

lemma preserves_same:
  "(\<And>f t r. m f = (t, r) \<Longrightarrow> nodes t = nodes f \<and> locks t = locks f) \<Longrightarrow> preserves m"
  unfolding preserves_def by fastforce

lemma preserves_sys_read [intro]: "preserves (sys_read g)"
  by (rule preserves_same) (rule sys_read_same)

lemma preserves_make_dir [intro]: "preserves (make_dir p)"
  unfolding preserves_def
proof (intro allI impI)
  fix f t and r :: "(io_error, unit) result" assume t: "make_dir p f = (t, r)"
  then show "locks t = locks f \<and> (\<forall>q n. nodes f q = Some n \<longrightarrow> nodes t q = Some n)"
    unfolding make_dir_def
    by (cases r) (auto dest!: sys_update_ok sys_update_fail split: if_splits option.splits, metis fun_upd_other option.distinct(1))
qed

lemma preserves_path_is_dir [intro]: "preserves (path_is_dir p)"
  unfolding path_is_dir_def metadata_def by (auto intro!: preserves_bindS preserves_tryS preserves_sys_read split: sum.splits)

lemma preserves_make_dir_or_present [intro]: "preserves (make_dir_or_present p)"
  unfolding make_dir_or_present_def
  by (auto intro!: preserves_bindS preserves_tryS preserves_make_dir preserves_path_is_dir split: sum.splits)

lemma preserves_create_dir_all [intro]: "preserves (create_dir_all a cs)"
proof (induction cs)
  case (Cons c cs)
  then show ?case unfolding create_dir_all.simps Let_def
    by (auto intro!: preserves_bindS preserves_tryS preserves_make_dir preserves_path_is_dir preserves_make_dir_or_present
      split: sum.splits io_error.splits)
qed (simp add: preserves_make_dir_or_present)

text \<open>From one disk to another: what is there stays, but for the modes of directories.\<close>

definition grown :: "fs \<Rightarrow> fs \<Rightarrow> bool" where
  "grown f t \<longleftrightarrow> (\<forall>p n. nodes f p = Some n \<longrightarrow> (\<exists>n'. nodes t p = Some n' \<and> (n' = n \<or> is_dir n \<and> is_dir n')))"

lemma grown_refl [simp, intro]: "grown f f" by (simp add: grown_def)

lemma grown_trans [trans]: "grown f g \<Longrightarrow> grown g h \<Longrightarrow> grown f h"
  unfolding grown_def by metis

lemma grown_regular: "grown f t \<Longrightarrow> nodes f p = Some (Regular b m k) \<Longrightarrow> nodes t p = Some (Regular b m k)"
  unfolding grown_def by fastforce

lemma grown_dir: "grown f t \<Longrightarrow> nodes f p = Some (Dir m) \<Longrightarrow> \<exists>m'. nodes t p = Some (Dir m')"
  unfolding grown_def by (fastforce simp: is_dir_iff)

lemma grown_fresh: "nodes f p = None \<Longrightarrow> nodes t = (nodes f)(p \<mapsto> n) \<Longrightarrow> grown f t"
  unfolding grown_def by auto

lemma grown_same: "nodes t = nodes f \<Longrightarrow> grown f t"
  unfolding grown_def by auto

lemma private_prepare_ok:
  assumes "private_prepare_directory p f = (t, Inr q)"
  shows "grown f t \<and> locks t = locks f \<and> (\<exists>md. nodes t p = Some (Dir md) \<and> md AND 63 = 0)"
proof -
  from assms obtain g h where g: "create_dir_all True (rev (comps p)) f = (g, Inr ())" and h: "set_permissions p 448 g = (h, Inr ())"
    and c: "private_checked_directory p h = (t, Inr q)"
    by (auto simp: private_prepare_directory_def bindS_Inr_iff mapErrS_Inr_iff)
  from private_checked_directory_ok [OF c] obtain md where t: "nodes t = nodes h" "nodes h p = Some (Dir md)" "md AND 63 = 0" by blast
  from sys_update_ok [OF h [unfolded set_permissions_def]] obtain n where
    n: "nodes g p = Some n" "nodes h = (nodes g)(p \<mapsto> with_mode 448 n)" "locks h = locks g"
    by (auto split: option.splits if_splits)
  have "is_dir n" using t(2) n(2) by (cases n) auto
  have l: "locks t = locks h"
    using c private_reject_symlink_same
    by (auto simp: private_checked_directory_def bindS_Inr_iff mapErrS_Inr_iff metadata_def dest!: sys_read_same)
  have "nodes f r = Some m \<Longrightarrow> nodes g r = Some m" for r m by (rule preservesD [OF preserves_create_dir_all g])
  then have "grown f t" unfolding grown_def using n t \<open>is_dir n\<close> by (cases n) fastforce+
  with preservesD(1) [OF preserves_create_dir_all g] l n(3) t show ?thesis by simp
qed

lemma create_pairing_locator_ok:
  assumes "create_pairing_locator_with_transport cb cwd canonicalize root stub desktop replay transport f = (t, Inr p)"
  obtains d r b where "absolute_existing cwd canonicalize desktop = Inr d" "absolute_existing cwd canonicalize replay = Inr r"
    "locator_encode cb stub \<lparr> pl_desktop_state = d, pl_replay_state = r, pl_transport = transport \<rparr> = Inr b"
    "p = pairing_locator_path root stub" "nodes t (path_of p) = Some (Regular b PRIVATE_MODE 0)"
    "\<exists>md. nodes t (path_of root) = Some (Dir md) \<and> md AND 63 = 0" "grown f t" "locks t = locks f"
proof -
  from assms obtain g h u d r b where g: "private_prepare_directory (path_of root) f = (g, Inr u)"
    and c: "private_create (path_of p) b g = (h, Inr ())" and s: "private_sync_directory (path_of root) h = (t, Inr ())"
    and e: "absolute_existing cwd canonicalize desktop = Inr d" "absolute_existing cwd canonicalize replay = Inr r"
      "locator_encode cb stub \<lparr> pl_desktop_state = d, pl_replay_state = r, pl_transport = transport \<rparr> = Inr b"
      "p = pairing_locator_path root stub"
    by (auto simp: create_pairing_locator_with_transport_def ensure_not_pending_def bindS_Inr_iff mapErrS_Inr_iff Let_def)
  from private_prepare_ok [OF g] obtain md where pg: "grown f g" "locks g = locks f" "nodes g (path_of root) = Some (Dir md)" "md AND 63 = 0"
    by blast
  note pc = private_create_ok [OF c]
  have st: "nodes t = nodes h" "locks t = locks h"
    using s by (auto simp: private_sync_directory_def bindS_Inr_iff mapErrS_Inr_iff file_open_def dest!: sys_read_same sync_all_same)
  have "grown g t" using pc st by (intro grown_fresh) auto
  with pg(1) have "grown f t" by (rule grown_trans)
  moreover have "nodes t (path_of root) = Some (Dir md)" using pc st pg(3) by auto
  ultimately show thesis using that [OF e(1-4)] pc st pg by auto
qed

lemma acquire_lock_private:
  assumes "acquire_lock p f = (t, Inr q)"
  shows "private_node (nodes t p)"
proof -
  from assms obtain f1 f2 f3 u v h where s: "reject_symlink_if_present p f = (f1, Inr u)" "open_create p f1 = (f2, Inr h)"
    "ensure_private_regular h f2 = (f3, Inr v)" "flock p f3 = (t, Inr ())"
    by (auto simp: acquire_lock_def bindS_Inr_iff mapErrS_Inr_iff)
  have n: "nodes t = nodes f2" using ensure_private_regular_same [OF s(3)] flock_ok [OF s(4)] by simp
  have "\<nexists>x. nodes f1 p = Some (Symlink x)" using reject_symlink_ok [OF s(1)] reject_symlink_same [OF s(1)] by simp
  with s(2) have "nodes f2 p = Some h"
    by (auto simp: open_create_def bindS_def split: prod.splits sum.splits option.splits node.splits if_splits dest!: sys_update_ok)
      (drule sym, simp)
  with n ensure_private_regular_ok [OF s(3)] show ?thesis by (auto simp: private_node_def)
qed

text \<open>A state file that was created is in order once its lock is dropped.\<close>

lemma file_create_grown:
  assumes "file_create cb p sc capacity now f = (t, Inr g)" shows "grown f t"
proof -
  from assms obtain f1 f2 f3 l r where x: "checked_path p f = (f1, Inr p)" "guard_acquire_lock p f1 = (f2, Inr l)"
    "symlink_metadata p f2 = (f3, r)" "persist_create p (state_encode cb (state_new sc now)) f3 = (t, Inr ())"
    using checked_path_ok by (fastforce simp: file_create_def bindS_Inr_iff holding_ok guard_persist_create_def mapErrS_Inr_iff
      tryS_iff Let_def)
  have "nodes f q = Some m \<Longrightarrow> nodes t q = Some m" for q m
    using keepsD [OF keeps_guard_acquire_lock [where p = q and x = m] x(2)] checked_path_ok [OF x(1)] persist_create_ok [OF x(4)]
      sys_read_same [OF x(3) [unfolded symlink_metadata_def]] by auto
  then show ?thesis by (auto simp: grown_def)
qed

lemma file_create_orderly:
  assumes c: "file_create cb p sc capacity now f = (t, Inr g)" and s: "\<And>d x. parent p = Some d \<Longrightarrow> nodes f d \<noteq> Some (Symlink x)"
  shows "orderly p (file_drop g t) \<and> grown f (file_drop g t) \<and> locks (file_drop g t) = locks f \<and>
    nodes (file_drop g t) p = Some (Regular (state_encode cb (state_new sc now)) PRIVATE_MODE 0)"
proof -
  from c obtain f1 f2 f3 l r where x: "checked_path p f = (f1, Inr p)" "guard_acquire_lock p f1 = (f2, Inr l)"
    "symlink_metadata p f2 = (f3, r)" "persist_create p (state_encode cb (state_new sc now)) f3 = (t, Inr ())" "fg_lock g = l"
    using checked_path_ok by (fastforce simp: file_create_def bindS_Inr_iff holding_ok guard_persist_create_def mapErrS_Inr_iff
      tryS_iff Let_def)
  obtain d n where d: "absolute p" "parent p = Some d" "resolve (nodes f d) = Some n" "is_dir n"
    using x(1) by (auto simp: checked_path_def bindS_Inr_iff mapErrS_Inr_iff metadata_def okOr_Inr_iff failIf_Inr_iff
      dest!: sys_read_ok)
  then obtain md where md: "nodes f d = Some (Dir md)"
    using s [OF d(2)] by (cases "nodes f d" rule: resolve.cases) (auto simp: is_dir_iff)
  note k = checked_path_ok [OF x(1)] guard_acquire_lock_ok [OF x(2)]
  have pl: "private_node (nodes f2 l)" "l \<noteq> p"
  proof -
    from x(2) obtain lp where "sibling_path p ''.lock'' = Inr lp" and "acquire_lock lp f1 = (f2, Inr l)"
      by (auto simp: guard_acquire_lock_def bindS_Inr_iff mapErrS_Inr_iff mapErr_Inr_iff)
    then have "sibling_path p ''.lock'' = Inr l" "private_node (nodes f2 l)" using acquire_lock_private acquire_lock_ok by metis+
    moreover from this(1) have "l \<in> temps p" unfolding temps_def by blast
    ultimately show "private_node (nodes f2 l)" "l \<noteq> p" using temps_other by auto
  qed
  have f3: "nodes f3 = nodes f2" "locks f3 = locks f2" using sys_read_same [OF x(3) [unfolded symlink_metadata_def]] by auto
  note p = persist_create_ok [OF x(4)]
  note gr = file_create_grown [OF c]
  have "private_node (nodes t l)" using p f3 pl by simp
  moreover obtain md' where "nodes t d = Some (Dir md')" using grown_dir [OF gr md] by blast
  moreover have "l \<notin> locks f" "locks t = insert l (locks f)" using k f3 p by auto
  ultimately show ?thesis using d k p x(5) gr
    by (auto simp: orderly_def file_drop_def grown_def)
qed


subsection \<open>What a successful pairing leaves\<close>

text \<open>The paths the command is given are not links, and the locator stores them at a length it can be
  read with.\<close>

definition plain_path :: "('w, 'sk) pair_env \<Rightarrow> os_path \<Rightarrow> bool" where
  "plain_path E p \<longleftrightarrow> (\<forall>q. absolute_existing (pe_current_dir E) (pe_canonicalize E) p = Inr q \<longrightarrow>
     path_of q = path_of p \<and> path_is_absolute q \<and> length q \<le> 1900)"

text \<open>No symbolic link leads to a file, and nothing is named like one of its temporary files.\<close>

definition plain_place :: "path \<Rightarrow> fs \<Rightarrow> bool" where
  "plain_place p f \<longleftrightarrow> (\<forall>d x. parent p = Some d \<longrightarrow> nodes f d \<noteq> Some (Symlink x)) \<and>
     (\<forall>q \<in> temps p. sibling_path p ''.lock'' \<noteq> Inr q \<longrightarrow> nodes f q = None)"

lemma plain_place_parent:
  assumes "plain_place p t" "grown f t" "parent p = Some d" shows "nodes f d \<noteq> Some (Symlink x)"
proof
  assume n: "nodes f d = Some (Symlink x)"
  with assms(2) have "nodes t d = Some (Symlink x)" unfolding grown_def by fastforce
  with assms(1,3) show False unfolding plain_place_def by blast
qed

lemma commit_failed_not_ok: "snd (commit_failed desktop replay locator created message f) \<noteq> Inr u"
  by (simp add: commit_failed_def split: prod.splits)

lemma commit_pairing_ok:
  assumes c: "commit_pairing_state L E root stub desktop out replay created transport rt f = (t, Inr u)"
  obtains now g f1 f2 body p where
    "file_create (minicbor L) (path_of replay) (scope_for_pairing DesktopResponses (stub_pairing stub)) DEFAULT_REPLAY_CAPACITY now f =
      (f1, Inr g)" "now_unix (pe_clock E) = Inr now"
    "create_pairing_locator_with_transport (minicbor L) (pe_current_dir E) (pe_canonicalize E) root stub desktop replay transport
      (file_drop g f1) = (f2, Inr p)"
    "identity_file_for L stub rt = Inr body"
    "create_and_write (pe_stub_mode E) StubStorage (path_of out) (str_bytes body) f2 = (t, Inr ())"
proof -
  have n: "commit_failed desktop replay locator created message h \<noteq> (t, Inr u)" for locator message h
    using commit_failed_not_ok by (metis snd_conv)
  obtain now where now: "now_unix (pe_clock E) = Inr now"
    using c by (auto simp: commit_pairing_state_def bindS_Inr_iff mapErr_Inr_iff)
  let ?sc = "scope_for_pairing DesktopResponses (stub_pairing stub)"
  obtain f1 q1 where 1: "file_create (minicbor L) (path_of replay) ?sc DEFAULT_REPLAY_CAPACITY now f = (f1, q1)" by fastforce
  with c n now obtain g where g: "q1 = Inr g" by (cases q1) (auto simp: commit_pairing_state_def bindS_run bindS_tryS)
  obtain f2 q2 where 2: "create_pairing_locator_with_transport (minicbor L) (pe_current_dir E) (pe_canonicalize E) root stub desktop
    replay transport (file_drop g f1) = (f2, q2)" by fastforce
  with c n now 1 g obtain p where p: "q2 = Inr p" by (cases q2) (auto simp: commit_pairing_state_def bindS_run bindS_tryS)
  obtain f3 q3 where 3: "create_identity_stub_file_for L (pe_stub_mode E) (path_of out) stub rt f2 = (f3, q3)" by fastforce
  with c n now 1 g 2 p have *: "q3 = Inr ()" "f3 = t"
    by (cases q3; auto simp: commit_pairing_state_def bindS_run bindS_tryS)+
  from 3 [unfolded *] obtain body where "identity_file_for L stub rt = Inr body"
    "create_and_write (pe_stub_mode E) StubStorage (path_of out) (str_bytes body) f2 = (t, Inr ())"
    by (auto simp: create_identity_stub_file_for_def bindS_Inr_iff)
  with that now 1 g 2 p show thesis by blast
qed


lemma commit_pairing_grown:
  assumes "commit_pairing_state L E root stub desktop out replay created transport rt f = (t, Inr u)"
  shows "grown f t"
proof -
  from assms obtain now f1 g f2 body p where
    1: "file_create (minicbor L) (path_of replay) (scope_for_pairing DesktopResponses (stub_pairing stub)) DEFAULT_REPLAY_CAPACITY now f =
      (f1, Inr g)" and
    2: "create_pairing_locator_with_transport (minicbor L) (pe_current_dir E) (pe_canonicalize E) root stub desktop replay transport
      (file_drop g f1) = (f2, Inr p)" and
    3: "create_and_write (pe_stub_mode E) StubStorage (path_of out) (str_bytes body) f2 = (t, Inr ())"
    by (rule commit_pairing_ok)
  have "grown f (file_drop g f1)" using file_create_grown [OF 1] by (simp add: grown_def file_drop_def)
  also have "grown (file_drop g f1) f2" by (rule create_pairing_locator_ok [OF 2])
  also have "grown f2 t" using create_and_write_ok [OF 3] grown_fresh by blast
  finally show ?thesis .
qed

lemma orderly_grown:
  assumes "orderly p f" "grown f t" "locks t = locks f" shows "orderly p t"
proof -
  from assms(1) obtain d l md where o: "absolute p" "parent p = Some d" "nodes f d = Some (Dir md)"
    "sibling_path p ''.lock'' = Inr l" "private_node (nodes f l)" "l \<notin> locks f"
    by (auto simp: orderly_def)
  from grown_dir [OF assms(2) o(3)] obtain md' where "nodes t d = Some (Dir md')" by blast
  moreover have "private_node (nodes t l)" using o(5) grown_regular [OF assms(2)] by (fastforce simp: private_node_def)
  ultimately show ?thesis using o assms(3) by (simp add: orderly_def)
qed

lemma commit_pairing_paired:
  assumes z: "cbor_sized (minicbor L)" and w: "wf_stub stub"
    and c: "commit_pairing_state L E root stub desktop out replay created transport rt f = (t, Inr u)"
    and k: "nodes f (path_of desktop) = Some (Regular (encode_key_state K d) PRIVATE_MODE 0)"
    and pp: "plain_path E desktop" "plain_path E replay" "plain_place (path_of replay) t"
  shows "\<exists>l now body. paired_disk L K root stub l d (state_new (scope_for_pairing DesktopResponses (stub_pairing stub)) now)
      (t\<lparr> faults := [] \<rparr>) \<and>
    path_of (pl_desktop_state l) = path_of desktop \<and> path_of (pl_replay_state l) = path_of replay \<and> pl_transport l = transport \<and>
    now_unix (pe_clock E) = Inr now \<and> identity_file_for L stub rt = Inr body \<and>
    nodes t (path_of out) = Some (Regular (str_bytes body) (pe_stub_mode E) 0)"
proof -
  let ?sc = "scope_for_pairing DesktopResponses (stub_pairing stub)" and ?p = "path_of replay"
  from c obtain now g f1 f2 body p where
    1: "file_create (minicbor L) ?p ?sc DEFAULT_REPLAY_CAPACITY now f = (f1, Inr g)" "now_unix (pe_clock E) = Inr now" and
    2: "create_pairing_locator_with_transport (minicbor L) (pe_current_dir E) (pe_canonicalize E) root stub desktop replay transport
      (file_drop g f1) = (f2, Inr p)" and
    3: "identity_file_for L stub rt = Inr body"
    "create_and_write (pe_stub_mode E) StubStorage (path_of out) (str_bytes body) f2 = (t, Inr ())"
    by (rule commit_pairing_ok)
  from 2 obtain x y b where
    l: "absolute_existing (pe_current_dir E) (pe_canonicalize E) desktop = Inr x"
    "absolute_existing (pe_current_dir E) (pe_canonicalize E) replay = Inr y"
    "locator_encode (minicbor L) stub \<lparr> pl_desktop_state = x, pl_replay_state = y, pl_transport = transport \<rparr> = Inr b"
    "nodes f2 (path_of (pairing_locator_path root stub)) = Some (Regular b PRIVATE_MODE 0)"
    "\<exists>md. nodes f2 (path_of root) = Some (Dir md) \<and> md AND 63 = 0" and g2: "grown (file_drop g f1) f2" "locks f2 = locks (file_drop g f1)"
    by (rule create_pairing_locator_ok) auto
  let ?l = "\<lparr> pl_desktop_state = x, pl_replay_state = y, pl_transport = transport \<rparr>"
  note cw = create_and_write_ok [OF 3(2)]
  have g3: "grown f2 t" "locks t = locks f2" using cw grown_fresh by blast+
  have gf: "grown f (file_drop g f1)"
    using file_create_grown [OF 1(1)] by (simp add: grown_def file_drop_def)
  have gt: "grown f t" "grown (file_drop g f1) t" using gf g2(1) g3(1) grown_trans by blast+
  have o: "orderly ?p (file_drop g f1)"
    "nodes (file_drop g f1) ?p = Some (Regular (state_encode (minicbor L) (state_new ?sc now)) PRIVATE_MODE 0)"
    using file_create_orderly [OF 1(1) plain_place_parent [OF pp(3) gt(1)]] by auto
  have ot: "orderly ?p t" by (rule orderly_grown [OF o(1) gt(2)]) (use g2 g3 in simp)
  obtain md where root: "nodes t (path_of root) = Some (Dir md)" "md AND 63 = 0"
    using l(5) cw by (metis fun_upd_apply option.distinct(1))
  have lp: "path_of x = path_of desktop" "path_of y = ?p" "path_is_absolute x" "path_is_absolute y" "length x \<le> 1900" "length y \<le> 1900"
    using pp(1,2) l(1,2) by (auto simp: plain_path_def)
  from l(3) lp have ok: "locator_path_ok x" "locator_path_ok y"
    by (auto simp: locator_encode_def encode_record_def encoded_locator_path_def locator_path_ok_def result_iff split: if_splits)
  have ids: "length (sb_desktop_id stub) = 16" "length (sb_identity_id stub) = 16" "length (sb_transcript_fingerprint stub) = 32"
    using w by (simp_all add: wf_stub_def)
  have dec: "locator_decode (minicbor L) stub b = Inr ?l"
    using locator_decode_encode [OF cbor_sized.axioms(1) [OF z] ids, of ?l] ok lp l(3) by simp
  have size: "b \<noteq> []" "length b \<le> 4096"
    using encode_record_size [OF z l(3) [unfolded locator_encode_def]] ids ok lp
    by (simp_all add: wf_locator_record_def MAX_LOCATOR_BYTES_def)
  have "paired_disk L K root stub ?l d (state_new ?sc now) (t\<lparr> faults := [] \<rparr>)"
    unfolding paired_disk_def
    using root size dec lp grown_regular [OF g3(1) l(4)] grown_regular [OF gt(1) k] grown_regular [OF gt(2) o(2)] ot pp(3)
    by (auto simp: orderly_def plain_place_def)
  with lp 1(2) 3(1) cw show ?thesis by (intro exI [of _ ?l] exI [of _ now] exI [of _ body]) simp
qed


text \<open>The desktop state is one of the command's own, or not there yet.\<close>

definition own_state :: "'sk key_bytes \<Rightarrow> bytes \<times> 'sk \<times> 'sk \<Rightarrow> path \<Rightarrow> fs \<Rightarrow> bool" where
  "own_state K drawn p f \<longleftrightarrow> nodes f p = None \<and> length (fst drawn) = 16 \<or>
     (\<exists>d. length (dk_desktop_id d) = 16 \<and> nodes f p = Some (Regular (encode_key_state K d) PRIVATE_MODE 0))"

lemma encode_key_state_inj:
  assumes K: "key_bytes_laws K" and e: "encode_key_state K d0 = DESKTOP_KEY_MAGIC @ i @ x @ y"
    "length (dk_desktop_id d0) = length i" "length x = 32" "length y = 32"
    "kb_from_slice K x = Some a" "kb_from_slice K y = Some b"
  shows "d0 = \<lparr> dk_desktop_id = i, dk_signing_key = a, dk_selection_key = b \<rparr>"
proof -
  have l: "length (kb_to_bytes K k) = 32" "kb_from_slice K (kb_to_bytes K k) = Some k" for k
    using K by (simp_all add: key_bytes_laws_def)
  from e(1-3) l(1) have "dk_desktop_id d0 = i" "kb_to_bytes K (dk_signing_key d0) = x" "kb_to_bytes K (dk_selection_key d0) = y"
    by (simp_all add: encode_key_state_def)
  with e(5,6) l(2) [of "dk_signing_key d0"] l(2) [of "dk_selection_key d0"] show ?thesis by simp
qed

lemma key_state_open_or_create_ok:
  assumes K: "key_bytes_laws K" and own: "own_state K drawn p f" and c: "key_state_open_or_create L K p drawn f = (t, Inr d)"
  shows "nodes t p = Some (Regular (encode_key_state K d) PRIVATE_MODE 0) \<and> length (dk_desktop_id d) = 16 \<and>
    \<not> same_key L (dk_signing_key d) (dk_selection_key d) \<and> grown f t"
proof -
  obtain g q where g: "key_state_open L K p f = (g, q)" by fastforce
  have n: "nodes g = nodes f" using keepsD [OF keeps_key_state_open g, where P1 = "\<lambda>m. m = nodes f"] by simp
  show ?thesis
  proof (cases q)
    case (Inl e)
    with c g have "key_state_create L K p drawn g = (t, Inr d)"
      by (simp add: key_state_open_or_create_def bindS_tryS split: if_splits)
    from key_state_create_ok [OF this] own n show ?thesis
      by (auto simp: own_state_def intro: grown_fresh [where p = p])
  next
    case (Inr d')
    with c g have d: "d' = d" "t = g" by (simp_all add: key_state_open_or_create_def bindS_tryS)
    from key_state_open_ok [OF g [unfolded Inr d]] obtain b m x y where o:
      "\<not> same_key L (dk_signing_key d) (dk_selection_key d)" "length (dk_desktop_id d) = 16"
      "resolve (nodes f p) = Some (Regular b m 0)" "b = DESKTOP_KEY_MAGIC @ dk_desktop_id d @ x @ y" "length x = 32" "length y = 32"
      "kb_from_slice K x = Some (dk_signing_key d)" "kb_from_slice K y = Some (dk_selection_key d)" by blast
    from own o(3) obtain d0 where d0: "length (dk_desktop_id d0) = 16" "nodes f p = Some (Regular (encode_key_state K d0) PRIVATE_MODE 0)"
      by (auto simp: own_state_def)
    with o(3,4) have "encode_key_state K d0 = DESKTOP_KEY_MAGIC @ dk_desktop_id d @ x @ y" by simp
    from encode_key_state_inj [OF K this _ o(5-8)] d0 o(2) have "d0 = d" by simp
    with d0 d n o show ?thesis by (simp add: grown_same)
  qed
qed

lemma complete_pairing_ok:
  assumes s: "ps_state s = Waiting"
    and c: "complete_pairing_interaction L E response on_verified s (c, w) = ((c', w'), Inr stub)"
  obtains m t1 w0 w1 w2 line where "accepted_response L s response t1 m"
    "stub = stub_from_response L s m (pairing_fingerprint L (ps_offer s) m)" "on_verified stub c = (c', Inr ())"
    "pe_write E (fingerprint_prompt (hex (sb_transcript_fingerprint stub))) w0 = (w1, Inr ())"
    "pe_read_line E w1 = (w2, Inr line)" "trim line = hex (sb_transcript_fingerprint stub)"
proof -
  obtain w0 t1 where e: "pe_elapsed E w = (w0, t1)" by fastforce
  obtain s1 r where r: "receive_pairing_response L response t1 s = (s1, r)" by fastforce
  with c e obtain display where r': "r = Inr display" by (cases r) (auto simp: complete_pairing_interaction_def)
  from r [unfolded r' receive_ok] obtain m where m: "signed_pairing_response_decode L response = Inr m"
    "pairing_response_verify L m (ps_offer s) = Inr ()" "unat (ps_started_at_ms s) \<le> unat t1" "unat t1 \<le> unat (ps_started_at_ms s) + 300000"
    "s1 = s\<lparr> ps_state := Confirming m (pairing_fingerprint L (ps_offer s) m) \<rparr>"
    "display = \<lparr> pd_desktop_label = po_desktop_label (payload (ps_offer s)),
              pd_transcript_fingerprint = hex (pairing_fingerprint L (ps_offer s) m) \<rparr>" by blast
  from c e r r' obtain candidate w1 w2 line t2 where
    v: "pending_stub L s1 = Inr candidate" "on_verified candidate c = (c', Inr ())" and
    p: "pe_write E (fingerprint_prompt (pd_transcript_fingerprint display)) w0 = (w1, Inr ())"
      "pe_read_line E w1 = (w2, Inr line)" and "snd (confirm L (trim line) t2 s1) = Inr stub"
    by (auto simp: complete_pairing_interaction_def bindS_Inr_iff mapErrS_Inr_iff mapErr_Inr_iff on_disk_Inr on_world_Inr case_prod_beta)
  then obtain s2 where "confirm L (trim line) t2 s1 = (s2, Inr stub)" by (metis prod.collapse)
  then have cf: "trim line = hex (pairing_fingerprint L (ps_offer s) m)"
    "stub = stub_from_response L s m (pairing_fingerprint L (ps_offer s) m)"
    by (auto simp: confirm_ok m(5) stub_from_response_def)
  moreover have "candidate = stub" using v(1) cf(2) by (simp add: pending_stub_def m(5) stub_from_response_def)
  ultimately show thesis using that [of t1 m w0 w1 w2 line] m p v(2)
    by (simp add: accepted_response_def stub_from_response_def)
qed


lemma complete_pairing_quiet:
  assumes "complete_pairing_interaction L E response (\<lambda>_. retS ()) s (c, w) = ((c', w'), r)" shows "c' = c"
  using assms
  by (auto simp: complete_pairing_interaction_def bindS_def on_disk_def on_world_def split: prod.splits sum.splits)

lemma grown_metadata:
  "ensure_pairing_outputs_available a b f = (t, Inr u) \<Longrightarrow> nodes t = nodes f" "path_exists p f = (g, r) \<Longrightarrow> nodes g = nodes f"
  by (auto simp: ensure_pairing_outputs_available_def path_exists_def bindS_tryS metadata_def bindS_Inr_iff split: prod.splits
    dest!: sys_read_same)

lemma run_pair_ok:
  assumes "run_pair L K E lbl desktop out replay transport adb rt (f, w) = ((t, w'), Inr u)"
  obtains f1 f2 f3 w1 w2 d root q sel s response stub created where
    "length lbl \<le> 64" "nodes f1 = nodes f"
    "key_state_open_or_create L K (path_of desktop) (pe_state_draws E) f1 = (f2, Inr d)"
    "pe_config_root E = Inr root" "private_prepare_directory (path_of root) f2 = (f3, Inr q)"
    "key_selection_public L d = Inr sel"
    "session_begin L (dk_desktop_id d) lbl (key_signer L d) sel 0 (pe_nonce E) = Inr s"
    "complete_pairing_interaction L E response (\<lambda>_. retS ()) s (f3, w1) = ((f3, w2), Inr stub)"
    "commit_pairing_state L E root stub desktop out replay created transport rt f3 = (t, Inr ())"
proof -
  let ?tail = "\<lambda>root session created response. pairing_exchanged L E root session desktop out replay created transport rt response"
  have "\<exists>fa f1 existed f2 d root f3 q sel s wr wa fb wb r. \<not> 64 < length lbl \<and>
      ensure_pairing_outputs_available out replay f = (fa, Inr ()) \<and> path_exists (path_of desktop) fa = (f1, Inr existed) \<and>
      key_state_open_or_create L K (path_of desktop) (pe_state_draws E) f1 = (f2, Inr d) \<and>
      pe_config_root E = Inr root \<and> private_prepare_directory (path_of root) f2 = (f3, Inr q) \<and>
      key_selection_public L d = Inr sel \<and>
      session_begin L (dk_desktop_id d) lbl (key_signer L d) sel 0 (pe_nonce E) = Inr s \<and>
      on_world (exchange_pairing_route L E wr (session_signed_offer L s)) (f3, wa) = ((fb, wb), r) \<and>
      (case r of Inl e \<Rightarrow> exchange_failed desktop replay (\<not> existed) e
       | Inr response \<Rightarrow> ?tail root s (\<not> existed) response) (fb, wb) = ((t, w'), Inr ())"
    using assms
    by (clarsimp simp: run_pair_def bindS_Inr_iff tryS_iff on_disk_Inr on_world_Inr mapErrS_Inr_iff mapErr_Inr_iff
        validate_setup_label_def failIf_Inr_iff prepare_pairing_config_root_def ensure_no_setup_pending_for_pair_def split: if_splits)
      (intro exI conjI, assumption+)
  then obtain fa f1 f2 f3 existed d root q sel s wr wa fb wb r where
    a: "\<not> 64 < length lbl" "ensure_pairing_outputs_available out replay f = (fa, Inr ())"
      "path_exists (path_of desktop) fa = (f1, Inr existed)"
      "key_state_open_or_create L K (path_of desktop) (pe_state_draws E) f1 = (f2, Inr d)"
      "pe_config_root E = Inr root" "private_prepare_directory (path_of root) f2 = (f3, Inr q)"
      "key_selection_public L d = Inr sel"
      "session_begin L (dk_desktop_id d) lbl (key_signer L d) sel 0 (pe_nonce E) = Inr s" and
    b: "on_world (exchange_pairing_route L E wr (session_signed_offer L s)) (f3, wa) = ((fb, wb), r)"
      "(case r of Inl e \<Rightarrow> exchange_failed desktop replay (\<not> existed) e
     | Inr response \<Rightarrow> ?tail root s (\<not> existed) response) (fb, wb) = ((t, w'), Inr ())"
    by (elim exE conjE)
  have fb: "fb = f3" using b(1) by (auto simp: on_world_def split: prod.splits)
  have nf: "exchange_failed desktop replay c e h \<noteq> ((t, w'), Inr ())" for c e and h :: "fs \<times> 'a"
    by (simp add: exchange_failed_def split: prod.splits)
  from b(2) fb nf obtain response where "?tail root s (\<not> existed) response (f3, wb) = ((t, w'), Inr ())"
    by (cases r) simp_all
  then obtain fx w2 stub where x: "complete_pairing_interaction L E response (\<lambda>_. retS ()) s (f3, wb) = ((fx, w2), Inr stub)"
    "commit_pairing_state L E root stub desktop out replay (\<not> existed) transport rt fx = (t, Inr ())"
    by (auto simp: pairing_exchanged_def bindS_Inr_iff on_disk_Inr on_world_Inr)
  moreover have "fx = f3" by (rule complete_pairing_quiet [OF x(1)])
  ultimately have "complete_pairing_interaction L E response (\<lambda>_. retS ()) s (f3, wb) = ((f3, w2), Inr stub)"
    "commit_pairing_state L E root stub desktop out replay (\<not> existed) transport rt f3 = (t, Inr ())" by simp_all
  moreover have "nodes f1 = nodes f" using grown_metadata(1) [OF a(2)] grown_metadata(2) [OF a(3)] by simp
  moreover have "length lbl \<le> 64" using a(1) by simp
  ultimately show thesis by (intro that [OF _ _ a(4-8)])
qed


text \<open>A pairing that succeeds, whatever faults occurred on the way, leaves the disk of a paired desktop,
  for a stub the user confirmed.\<close>

lemma session_begin_wf:
  assumes p: "p256_laws (ec L)" and d: "length i = 16" "utf8_valid lbl" "length lbl \<le> 64" "length nonce = 32"
    and s: "session_begin L i lbl (signing_key_signer L sk) (pk_compressed (ec L) k) t0 nonce = Inr s"
  shows "wf_offer (payload (ps_offer s))"
  using d p256_rt(4) [OF p] session_begin_ok(4) [OF p s] by (simp add: wf_offer_def)

lemma pair_paired:
  assumes laws: "cbor_sized (minicbor L)" "p256_laws (ec L)" "symmetric_laws (sym L)" "key_bytes_laws K"
    and run: "run_pair L K E lbl desktop out replay transport adb rt (f, w) = ((t, w'), Inr u)"
    and lbl: "utf8_valid lbl" "length (pe_nonce E) = 32"
    and own: "own_state K (pe_state_draws E) (path_of desktop) f"
    and pp: "plain_path E desktop" "plain_path E replay" "plain_place (path_of replay) t"
  shows "\<exists>root stub l d now body. pe_config_root E = Inr root \<and>
    paired_disk L K root stub l d (state_new (scope_for_pairing DesktopResponses (stub_pairing stub)) now) (t\<lparr> faults := [] \<rparr>) \<and>
    path_of (pl_desktop_state l) = path_of desktop \<and> path_of (pl_replay_state l) = path_of replay \<and> pl_transport l = transport \<and>
    now_unix (pe_clock E) = Inr now \<and> identity_file_for L stub rt = Inr body \<and>
    nodes t (path_of out) = Some (Regular (str_bytes body) (pe_stub_mode E) 0) \<and>
    stub_ok L stub \<and> desktop_matches L stub d = Inr () \<and>
    (\<exists>w0 w1 w2 line. pe_write E (fingerprint_prompt (hex (sb_transcript_fingerprint stub))) w0 = (w1, Inr ()) \<and>
       pe_read_line E w1 = (w2, Inr line) \<and> trim line = hex (sb_transcript_fingerprint stub)) \<and>
    (\<exists>s response t1 m. state_session L d lbl 0 (pe_nonce E) = Inr s \<and> accepted_response L s response t1 m \<and>
       stub = stub_from_response L s m (pairing_fingerprint L (ps_offer s) m))"
proof -
  from run obtain f1 f2 f3 w1 w2 d root q sel s response stub created where r:
    "length lbl \<le> 64" "nodes f1 = nodes f"
    "key_state_open_or_create L K (path_of desktop) (pe_state_draws E) f1 = (f2, Inr d)"
    "pe_config_root E = Inr root" "private_prepare_directory (path_of root) f2 = (f3, Inr q)"
    "key_selection_public L d = Inr sel"
    "session_begin L (dk_desktop_id d) lbl (key_signer L d) sel 0 (pe_nonce E) = Inr s"
    "complete_pairing_interaction L E response (\<lambda>_. retS ()) s (f3, w1) = ((f3, w2), Inr stub)"
    "commit_pairing_state L E root stub desktop out replay created transport rt f3 = (t, Inr ())"
    by (rule run_pair_ok)
  have own1: "own_state K (pe_state_draws E) (path_of desktop) f1" using own r(2) by (simp add: own_state_def)
  note k = key_state_open_or_create_ok [OF laws(4) own1 r(3)]
  have n3: "nodes f3 (path_of desktop) = Some (Regular (encode_key_state K d) PRIVATE_MODE 0)"
    using grown_regular private_prepare_ok [OF r(5)] k by blast
  have sel: "sel = pk_compressed (ec L) (sk_public (ec L) (dk_selection_key d))"
    using r(6) by (simp add: key_selection_public_def key_agreement_of_def mapErr_Inr_iff signing_key_agreement_def Let_def split: if_splits)
  have ss: "state_session L d lbl 0 (pe_nonce E) = Inr s" using r(7) by (simp add: state_session_def sel)
  note sb = ss [unfolded state_session_begin]
  note b = session_begin_ok [OF laws(2) sb]
  obtain m t1 wa wb wc line where m: "accepted_response L s response t1 m"
    "stub = stub_from_response L s m (pairing_fingerprint L (ps_offer s) m)"
    "pe_write E (fingerprint_prompt (hex (sb_transcript_fingerprint stub))) wa = (wb, Inr ())"
    "pe_read_line E wb = (wc, Inr line)" "trim line = hex (sb_transcript_fingerprint stub)"
    by (rule complete_pairing_ok [OF b(1) r(8)])
  have "wf_offer (payload (ps_offer s))" using session_begin_wf [OF laws(2) _ lbl(1) r(1) lbl(2) sb] k by simp
  from accepted_stub_ok [OF cbor_sized.axioms(1) [OF laws(1)] laws(3) this m(1)] m(2) have ok: "stub_ok L stub" by simp
  have dm: "desktop_matches L stub d = Inr ()"
    using paired_desktop_matches [OF laws(2)] ss m(2) unfolding state_session_def by blast
  have "wf_stub stub" using ok by (simp add: stub_ok_def)
  from commit_pairing_paired [OF laws(1) this r(9) n3 pp] obtain l now body where
    "paired_disk L K root stub l d (state_new (scope_for_pairing DesktopResponses (stub_pairing stub)) now) (t\<lparr> faults := [] \<rparr>)"
    "path_of (pl_desktop_state l) = path_of desktop" "path_of (pl_replay_state l) = path_of replay" "pl_transport l = transport"
    "now_unix (pe_clock E) = Inr now" "identity_file_for L stub rt = Inr body"
    "nodes t (path_of out) = Some (Regular (str_bytes body) (pe_stub_mode E) 0)" by blast
  with r(4) ok dm have "pe_config_root E = Inr root \<and>
    paired_disk L K root stub l d (state_new (scope_for_pairing DesktopResponses (stub_pairing stub)) now) (t\<lparr> faults := [] \<rparr>) \<and>
    path_of (pl_desktop_state l) = path_of desktop \<and> path_of (pl_replay_state l) = path_of replay \<and> pl_transport l = transport \<and>
    now_unix (pe_clock E) = Inr now \<and> identity_file_for L stub rt = Inr body \<and>
    nodes t (path_of out) = Some (Regular (str_bytes body) (pe_stub_mode E) 0) \<and>
    stub_ok L stub \<and> desktop_matches L stub d = Inr ()" by (intro conjI)
  moreover have "\<exists>w0 w1 w2 line. pe_write E (fingerprint_prompt (hex (sb_transcript_fingerprint stub))) w0 = (w1, Inr ()) \<and>
       pe_read_line E w1 = (w2, Inr line) \<and> trim line = hex (sb_transcript_fingerprint stub)"
    by (rule exI [of _ wa], rule exI [of _ wb], rule exI [of _ wc], rule exI [of _ line]) (intro conjI m)
  moreover have "\<exists>s response t1 m. state_session L d lbl 0 (pe_nonce E) = Inr s \<and> accepted_response L s response t1 m \<and>
       stub = stub_from_response L s m (pairing_fingerprint L (ps_offer s) m)"
    by (rule exI [of _ s], rule exI [of _ response], rule exI [of _ t1], rule exI [of _ m]) (intro conjI ss m)
  ultimately show ?thesis
    by (intro exI [of _ root] exI [of _ stub] exI [of _ l] exI [of _ d] exI [of _ now] exI [of _ body]) (simp only: simp_thms)
qed

subsection \<open>Rolling back\<close>

lemma remove_private_ok:
  assumes "remove_private_pairing_file p f = (t, b)"
  shows "nodes t = nodes f \<or> nodes t = (nodes f)(p := None)" "b \<Longrightarrow> nodes t p = None" "locks t = locks f"
proof -
  obtain g r where g: "remove_file p f = (g, r)" by fastforce
  have t: "t = g" using assms g by (cases r) (simp_all add: remove_private_pairing_file_def)
  have nf: "r = Inl NotFound \<Longrightarrow> nodes f p = None"
    using g by (auto simp: remove_file_def sys_update_def split: prod.splits option.splits if_splits dest!: next_fault_same)
  show "nodes t = nodes f \<or> nodes t = (nodes f)(p := None)" "locks t = locks f"
    using g t remove_file_ok [of p f g] remove_file_fail [of p f g] by (cases r; auto)+
  show "nodes t p = None" if b
    using that assms g t nf remove_file_ok [of p f g] remove_file_fail [of p f g]
    by (cases r) (auto simp: remove_private_pairing_file_def)
qed

lemma remove_private_nodes:
  assumes "remove_private_pairing_file p f = (t, b)"
  shows "nodes f q = None \<Longrightarrow> nodes t q = None" "q \<noteq> p \<Longrightarrow> nodes t q = nodes f q"
  using remove_private_ok(1) [OF assms] by auto

text \<open>The files a rollback is about.\<close>

definition rollback_paths :: "os_path \<Rightarrow> os_path \<Rightarrow> os_path option \<Rightarrow> bool \<Rightarrow> path set" where
  "rollback_paths desktop replay locator created =
     insert (path_of replay) (set_option (map_option path_of locator) \<union> set_option (replay_lock_path (path_of replay)) \<union>
       (if created then {path_of desktop} else {}))"

lemma rollback_ok:
  assumes "rollback_failed_pairing desktop replay locator created f = (t, b)"
  shows "q \<notin> rollback_paths desktop replay locator created \<Longrightarrow> nodes t q = nodes f q"
    "b \<Longrightarrow> q \<in> rollback_paths desktop replay locator created \<Longrightarrow> nodes t q = None"
proof -
  obtain f1 b1 where 1: "(case locator of Some p \<Rightarrow> remove_private_pairing_file (path_of p) f | None \<Rightarrow> (f, True)) = (f1, b1)" by fastforce
  obtain f2 b2 where 2: "remove_private_pairing_file (path_of replay) f1 = (f2, b2)" by fastforce
  obtain f3 b3 where 3: "(case replay_lock_path (path_of replay) of Some p \<Rightarrow> remove_private_pairing_file p f2 | None \<Rightarrow> (f2, False)) = (f3, b3)"
    by fastforce
  obtain f4 b4 where 4: "(if created then remove_private_pairing_file (path_of desktop) f3 else (f3, True)) = (f4, b4)" by fastforce
  have t: "t = f4" "b = (b1 \<and> b2 \<and> b3 \<and> b4)" using assms 1 2 3 4 by (simp_all add: rollback_failed_pairing_def)
  have n1: "nodes f q = None \<Longrightarrow> nodes f1 q = None" "q \<notin> set_option (map_option path_of locator) \<Longrightarrow> nodes f1 q = nodes f q"
    "b1 \<Longrightarrow> q \<in> set_option (map_option path_of locator) \<Longrightarrow> nodes f1 q = None"
    using 1 remove_private_nodes [of _ f f1 b1 q] remove_private_ok(2) [of _ f f1 b1] by (auto split: option.splits)
  have n2: "nodes f1 q = None \<Longrightarrow> nodes f2 q = None" "q \<noteq> path_of replay \<Longrightarrow> nodes f2 q = nodes f1 q"
    "b2 \<Longrightarrow> q = path_of replay \<Longrightarrow> nodes f2 q = None"
    using remove_private_nodes [OF 2, of q] remove_private_ok(2) [OF 2] by auto
  have n3: "nodes f2 q = None \<Longrightarrow> nodes f3 q = None" "q \<notin> set_option (replay_lock_path (path_of replay)) \<Longrightarrow> nodes f3 q = nodes f2 q"
    "b3 \<Longrightarrow> q \<in> set_option (replay_lock_path (path_of replay)) \<Longrightarrow> nodes f3 q = None"
    using 3 remove_private_nodes [of _ f2 f3 b3 q] remove_private_ok(2) [of _ f2 f3 b3] by (auto split: option.splits)
  have n4: "nodes f3 q = None \<Longrightarrow> nodes f4 q = None" "\<not> (created \<and> q = path_of desktop) \<Longrightarrow> nodes f4 q = nodes f3 q"
    "b4 \<Longrightarrow> created \<Longrightarrow> q = path_of desktop \<Longrightarrow> nodes f4 q = None"
    using 4 remove_private_nodes [of _ f3 f4 b4 q] remove_private_ok(2) [of _ f3 f4 b4] by (auto split: if_splits)
  show "nodes t q = nodes f q" if "q \<notin> rollback_paths desktop replay locator created"
    using that n1 n2 n3 n4 t by (simp add: rollback_paths_def split: if_splits)
  show "nodes t q = None" if b "q \<in> rollback_paths desktop replay locator created"
  proof -
    from that(1) t have b: b1 b2 b3 b4 by simp_all
    from that(2) consider "q \<in> set_option (map_option path_of locator)" | "q = path_of replay" |
      "q \<in> set_option (replay_lock_path (path_of replay))" | "created" "q = path_of desktop"
      unfolding rollback_paths_def by (auto split: if_splits)
    then have "nodes f4 q = None"
    proof cases
      case 1 show ?thesis by (rule n4(1) [OF n3(1) [OF n2(1) [OF n1(3) [OF b(1) 1]]]])
    next
      case 2 show ?thesis by (rule n4(1) [OF n3(1) [OF n2(3) [OF b(2) 2]]])
    next
      case 3 show ?thesis by (rule n4(1) [OF n3(3) [OF b(3) 3]])
    next
      case 4 show ?thesis by (rule n4(3) [OF b(4) 4])
    qed
    with t(1) show ?thesis by simp
  qed
qed

text \<open>What is there before a commit stays there through its steps, but for the mode of the directory.\<close>

lemma keeps_after_open_new:
  assumes "q \<noteq> p \<Longrightarrow> keeps (\<lambda>f. nodes f q = Some x) (k ())"
  shows "keeps (\<lambda>f. nodes f q = Some x) (bindS (mapErrS g (open_new_as md p)) k)"
  unfolding keeps_def
proof (intro allI impI)
  fix f :: fs assume q: "nodes f q = Some x"
  obtain h r where h: "open_new_as md p f = (h, r)" by fastforce
  show "nodes (fst (bindS (mapErrS g (open_new_as md p)) k f)) q = Some x"
  proof (cases r)
    case (Inl e)
    with h q sys_update_fail [OF h [unfolded open_new_as_def Inl]] show ?thesis by (simp add: bindS_def mapErrS_def)
  next
    case (Inr u)
    from sys_update_ok [OF h [unfolded open_new_as_def Inr]] have n: "nodes f p = None" "nodes h = (nodes f)(p \<mapsto> Regular [] md 0)"
      by (auto split: if_splits)
    with q have ne: "q \<noteq> p" by auto
    with n q have "nodes h q = Some x" by simp
    moreover obtain t s where "k () h = (t, s)" by fastforce
    ultimately show ?thesis using keepsD [OF assms [OF ne], of h t s] h Inr by (simp add: bindS_def mapErrS_def)
  qed
qed

lemma keeps_write_new: "q \<noteq> p \<Longrightarrow> keeps (\<lambda>f. nodes f q = Some x) (bindS (write_new_as md p b) (\<lambda>_. sync_all))"
proof (rule keeps_bindS)
  assume n: "q \<noteq> p"
  show "keeps (\<lambda>f. nodes f q = Some x) (write_new_as md p b)"
    unfolding keeps_def
  proof (intro allI impI)
    fix f :: fs assume q: "nodes f q = Some x"
    obtain t r where t: "write_new_as md p b f = (t, r)" by fastforce
    with write_all_ok [of md p b f t] write_all_fail [of md p b f t] n q have "nodes t q = Some x" by (cases r) auto
    with t show "nodes (fst (write_new_as md p b f)) q = Some x" by simp
  qed
  show "keeps (\<lambda>f. nodes f q = Some x) sync_all" unfolding sync_all_def by (rule keeps_sys_read)
qed

lemma keeps_create_and_write: "keeps (\<lambda>f. nodes f q = Some x) (create_and_write md e p b)"
  unfolding create_and_write_def
  by (rule keeps_after_open_new)
    (auto split: sum.splits intro!: keeps_bindS [OF keeps_tryS [OF keeps_write_new]] keeps_bindS [OF keeps_tryS [OF keeps_remove_file]])

lemma keeps_private_create: "keeps (\<lambda>f. nodes f q = Some x) (private_create p b)"
  unfolding private_create_def
  by (rule keeps_after_open_new)
    (auto split: sum.splits intro!: keeps_bindS [OF keeps_tryS [OF keeps_write_new]] keeps_bindS [OF keeps_tryS [OF keeps_remove_file]]
      keeps_private_validate)

lemma keeps_private_prepare: "q \<noteq> p \<Longrightarrow> keeps (\<lambda>f. nodes f q = Some x) (private_prepare_directory p)"
  unfolding private_prepare_directory_def
proof (intro keeps_bindS keeps_simps keeps_mapErrS)
  assume n: "q \<noteq> p"
  show "keeps (\<lambda>f. nodes f q = Some x) (create_dir_all True (rev (comps p)))"
    unfolding keeps_def using preservesD(2) [OF preserves_create_dir_all] by (metis prod.collapse)
  show "keeps (\<lambda>f. nodes f q = Some x) (set_permissions p 448)"
    unfolding set_permissions_def using n by (intro keeps_sys_update) (auto split: option.splits if_splits)
  show "keeps (\<lambda>f. nodes f q = Some x) (private_checked_directory p)" by (rule keeps_private_checked_directory)
qed

lemma keeps_create_pairing_locator:
  assumes "q \<noteq> path_of root"
  shows "keeps (\<lambda>f. nodes f q = Some x) (create_pairing_locator_with_transport cb cwd canonicalize root stub desktop replay transport)"
  unfolding create_pairing_locator_with_transport_def ensure_not_pending_def Let_def private_sync_directory_def file_open_def sync_all_def
  by (intro keeps_bindS keeps_mapErrS keeps_simps keeps_private_prepare [OF assms] keeps_private_create keeps_sys_read
      keeps_sys_read [where P = "\<lambda>m. m q = Some x"])

lemma keeps_create_identity_stub_file: "keeps (\<lambda>f. nodes f q = Some x) (create_identity_stub_file_for L md p stub rt)"
  unfolding create_identity_stub_file_for_def by (intro keeps_bindS keeps_simps keeps_create_and_write)

lemma keeps_persist_create_other:
  assumes "q \<notin> temps p" shows "keeps (\<lambda>f. nodes f q = Some x) (persist_create p b)"
  unfolding persist_create_def
proof (rule keeps_bindS_when)
  show "keeps (\<lambda>f. nodes f q = Some x) (write_temporary p b)"
    unfolding keeps_def
  proof (intro allI impI)
    fix f :: fs assume f: "nodes f q = Some x"
    obtain t r where t: "write_temporary p b f = (t, r)" by fastforce
    show "nodes (fst (write_temporary p b f)) q = Some x"
      using f t write_temporary_ok [of p b f t] write_temporary_fail [of p b f t] assms by (cases r) (auto simp: agree_def)
  qed
next
  fix s t r assume "write_temporary p b s = (t, Inr r)"
  with write_temporary_ok assms have r: "r \<noteq> q" by blast
  show "keeps (\<lambda>f. nodes f q = Some x) (bindS (tryS (hard_link r p)) (\<lambda>linked. case linked of
       Inl _ \<Rightarrow> bindS (tryS (remove_file r)) (\<lambda>_. errS StorageInvalid)
     | Inr _ \<Rightarrow>
         bindS (tryS (remove_file r)) (\<lambda>remove_result.
         bindS (tryS (sync_parent p)) (\<lambda>sync_result.
         failS (\<not> isOk remove_result \<or> \<not> isOk sync_result) StorageInvalid))))"
    by (auto split: sum.splits intro!: keeps_bindS keeps_tryS keeps_hard_link keeps_remove_file [OF r] keeps_sync_parent)
qed

lemma keeps_file_create_other:
  assumes "q \<notin> temps p" shows "keeps (\<lambda>f. nodes f q = Some x) (file_create cb p sc capacity now)"
  unfolding file_create_def
proof (intro keeps_bindS [OF keeps_simps(3)] keeps_bindS_when [OF keeps_checked_path], goal_cases)
  case (1 u s t r)
  then have r: "r = p" by (simp add: checked_path_ok)
  show ?case unfolding r guard_persist_create_def symlink_metadata_def Let_def
    by (intro keeps_bindS keeps_mapErrS keeps_holding keeps_guard_acquire_lock keeps_simps
        keeps_tryS keeps_sys_read keeps_persist_create_other [OF assms])
qed

text \<open>A failed commit says what it left: which of its steps failed, and whether the rollback was complete.\<close>

lemma commit_pairing_fails:
  assumes "commit_pairing_state L E root stub desktop out replay created transport rt f = (t, Inl e)"
  obtains "e = other ''system clock is unavailable''" "t = f"
  | message locator rolled_back g where "e = pairing_commit_error message rolled_back"
      "rollback_failed_pairing desktop replay locator created g = (t, rolled_back)"
      "locator = (if message = ''failed to create public identity stub'' then Some (pairing_locator_path root stub) else None)"
      "\<And>q x. q \<noteq> path_of root \<Longrightarrow> q \<notin> temps (path_of replay) \<Longrightarrow> nodes f q = Some x \<Longrightarrow> nodes g q = Some x"
proof (cases "now_unix (pe_clock E)")
  case (Inl x)
  with assms that(1) show thesis by (simp add: commit_pairing_state_def bindS_def)
next
  case now: (Inr now)
  have cf: "commit_failed desktop replay locator created message g = (t, Inl e) \<Longrightarrow>
      \<exists>b. e = pairing_commit_error message b \<and> rollback_failed_pairing desktop replay locator created g = (t, b)"
    for locator message g
    by (auto simp: commit_failed_def split: prod.splits)
  let ?sc = "scope_for_pairing DesktopResponses (stub_pairing stub)"
  obtain f1 q1 where 1: "file_create (minicbor L) (path_of replay) ?sc DEFAULT_REPLAY_CAPACITY now f = (f1, q1)" by fastforce
  have k1: "nodes f1 q = Some x" if "q \<notin> temps (path_of replay)" "nodes f q = Some x" for q x
    by (rule keepsD [OF keeps_file_create_other [OF that(1)] 1 that(2)])
  show thesis
  proof (cases q1)
    case (Inl x)
    with assms now 1 have "commit_failed desktop replay None created ''failed to create durable response replay state'' f1 = (t, Inl e)"
      by (simp add: commit_pairing_state_def bindS_run bindS_tryS)
    from cf [OF this] obtain b where "e = pairing_commit_error ''failed to create durable response replay state'' b"
      "rollback_failed_pairing desktop replay None created f1 = (t, b)" by blast
    with k1 show thesis
        by (intro that(2) [where locator = None and message = "''failed to create durable response replay state''" and g = f1]) simp_all
  next
    case g: (Inr g)
    obtain f2 q2 where 2: "create_pairing_locator_with_transport (minicbor L) (pe_current_dir E) (pe_canonicalize E) root stub desktop
      replay transport (file_drop g f1) = (f2, q2)" by fastforce
    have k2: "nodes f2 q = Some x" if "q \<noteq> path_of root" "q \<notin> temps (path_of replay)" "nodes f q = Some x" for q x
      using keepsD [OF keeps_create_pairing_locator 2] k1 that by (simp add: file_drop_def unlock_def)
    show thesis
    proof (cases q2)
      case (Inl x)
      with assms now 1 g 2 have "commit_failed desktop replay None created ''failed to create private pairing locator'' f2 = (t, Inl e)"
        by (simp add: commit_pairing_state_def bindS_run bindS_tryS)
      from cf [OF this] obtain b where "e = pairing_commit_error ''failed to create private pairing locator'' b"
        "rollback_failed_pairing desktop replay None created f2 = (t, b)" by blast
      with k2 show thesis
        by (intro that(2) [where locator = None and message = "''failed to create private pairing locator''" and g = f2]) simp_all
    next
      case p: (Inr p)
      then have p': "p = pairing_locator_path root stub" using create_pairing_locator_ok 2 by metis
      obtain f3 q3 where 3: "create_identity_stub_file_for L (pe_stub_mode E) (path_of out) stub rt f2 = (f3, q3)" by fastforce
      with assms now 1 g 2 p have "commit_failed desktop replay (Some p) created ''failed to create public identity stub'' f3 = (t, Inl e)"
        by (cases q3) (simp_all add: commit_pairing_state_def bindS_run bindS_tryS)
      from cf [OF this] obtain b where "e = pairing_commit_error ''failed to create public identity stub'' b"
        "rollback_failed_pairing desktop replay (Some p) created f3 = (t, b)" by blast
      with k2 keepsD [OF keeps_create_identity_stub_file 3] p' show thesis
        by (intro that(2) [where locator = "Some p" and message = "''failed to create public identity stub''" and g = f3]) simp_all
    qed
  qed
qed

end
