(* ===== verification/Pair_Runs.thy ===== *)
theory Pair_Runs
  imports Pair_Commit
begin

text \<open>
  The command \<open>pair\<close> on a disk without faults, with a phone that answers and a user who confirms: every
  step of it succeeds, from the creation of the desktop state to the public stub.
\<close>

subsection \<open>Runs without faults\<close>

lemma persist_create_run:
  assumes f: "faults f = []" and q: "sibling_path p (temp_suffix f) = Inr q" "nodes f q = None"
    and n: "nodes f p = None" and d: "parent p = Some d" "nodes f d = Some (Dir md)"
  shows "\<exists>t. persist_create p b f = (t, Inr ()) \<and> faults t = []"
proof -
  obtain g where g: "write_temporary p b f = (g, Inr q)" "faults g = []" using write_temporary_run [OF f q] by blast
  have qp: "q \<noteq> p" using temps_other q(1) temp_suffix_nonempty unfolding temps_def by blast
  have gn: "nodes g = (nodes f)(q \<mapsto> Regular b PRIVATE_MODE 0)" using write_temporary_ok [OF g(1)] by simp
  define h where "h = g\<lparr> nodes := (nodes g)(p \<mapsto> Regular b PRIVATE_MODE 0) \<rparr>"
  define k where "k = h\<lparr> nodes := (nodes h)(q := None) \<rparr>"
  have 1: "hard_link q p g = (h, Inr ())" using g(2) gn n qp by (simp add: hard_link_def sys_update_run h_def)
  have 2: "remove_file q h = (k, Inr ())" using g(2) gn qp by (simp add: remove_file_def sys_update_run h_def k_def)
  have "d \<noteq> p" "d \<noteq> q" using d q n by auto
  then have "sync_parent p k = (k, Inr ())" using sync_parent_run [of k p d] g(2) gn d by (simp add: h_def k_def)
  then show ?thesis using g(1) 1 2 g(2) by (simp add: persist_create_def bindS_run bindS_tryS) (simp add: h_def k_def)
qed

text \<open>A file can be created at a place in a directory, with no lock held and no temporary file there.\<close>

definition free_place :: "path \<Rightarrow> fs \<Rightarrow> bool" where
  "free_place p f \<longleftrightarrow> absolute p \<and> (\<exists>d l md. parent p = Some d \<and> nodes f d = Some (Dir md) \<and> sibling_path p ''.lock'' = Inr l \<and>
     (nodes f l = None \<or> private_node (nodes f l)) \<and> l \<notin> locks f) \<and> nodes f p = None \<and>
     (\<forall>q \<in> temps p. sibling_path p ''.lock'' \<noteq> Inr q \<longrightarrow> nodes f q = None)"

lemma file_create_run:
  assumes f: "faults f = []" and p: "free_place p f" and cap: "validate_capacity capacity = Inr ()"
  shows "\<exists>t g. file_create cb p sc capacity now f = (t, Inr g) \<and> faults t = []"
proof -
  from p obtain d l md where o: "absolute p" "parent p = Some d" "nodes f d = Some (Dir md)" "sibling_path p ''.lock'' = Inr l"
    "nodes f l = None \<or> private_node (nodes f l)" "l \<notin> locks f" "nodes f p = None"
    and tmp: "\<forall>q \<in> temps p. sibling_path p ''.lock'' \<noteq> Inr q \<longrightarrow> nodes f q = None"
    unfolding free_place_def by blast
  have lp: "l \<noteq> p" using o(4) temps_other [of p] unfolding temps_def by blast
  obtain n where "file_name p = Some n" using o(4) by (auto simp: sibling_path_def result_iff)
  then have cp: "checked_path p f = (f, Inr p)"
    using o f by (simp add: checked_path_def bindS_def mapErrS_def metadata_def sys_read_run okOr_def)
  obtain g where g: "acquire_lock l f = (g, Inr l)" "faults g = []" "locks g = insert l (locks f)"
    "nodes g = (if nodes f l = None then (nodes f)(l \<mapsto> Regular [] PRIVATE_MODE 0) else nodes f)"
    by (rule acquire_lock_run [OF f o(5,6)])
  have gn: "nodes g p = None" using g(4) o(7) lp by simp
  have gd: "nodes g d = Some (Dir md)" using g(4) o(3) by auto
  from o(4) obtain a c where c: "comps p = a @ [c]" "c \<noteq> ''..''" by (auto simp: sibling_path_iff)
  let ?q = "p\<lparr> comps := a @ [c @ temp_suffix g] \<rparr>"
  have q: "sibling_path p (temp_suffix g) = Inr ?q" using c by (simp add: sibling_path_iff)
  have "?q \<in> temps p" using q temp_suffix_nonempty unfolding temps_def by blast
  moreover have ql: "sibling_path p ''.lock'' \<noteq> Inr ?q"
  proof
    assume "sibling_path p ''.lock'' = Inr ?q"
    then have "p\<lparr> comps := a @ [c @ ''.lock''] \<rparr> = ?q" using c by (auto simp: sibling_path_iff)
    then have "comps (p\<lparr> comps := a @ [c @ ''.lock''] \<rparr>) = comps ?q" by (rule arg_cong)
    with temp_suffix_not_lock [of g] show False by simp
  qed
  ultimately have "nodes f ?q = None" using tmp by blast
  with ql o(4) g(4) have nq: "nodes g ?q = None" by auto
  obtain t where t: "persist_create p (state_encode cb (state_new sc now)) g = (t, Inr ())" "faults t = []"
    using persist_create_run [OF g(2) q nq gn o(2) gd] by blast
  have sm: "symlink_metadata p g = (g, Inl NotFound)" using g(2) gn by (simp add: symlink_metadata_def sys_read_run okOr_def)
  show ?thesis using cap cp o(4) g(1) sm t
    by (simp add: file_create_def bindS_run holding_def guard_acquire_lock_def guard_persist_create_def mapErrS_def bindS_def
        bindS_tryS tryS_def Let_def)
qed

lemma key_state_create_run:
  assumes f: "faults f = []" "nodes f p = None" and d: "\<not> same_key L (dk_signing_key d) (dk_selection_key d)"
  shows "key_state_open_or_create L K p (dk_desktop_id d, dk_signing_key d, dk_selection_key d) f =
    (f\<lparr> nodes := (nodes f)(p \<mapsto> Regular (encode_key_state K d) PRIVATE_MODE 0) \<rparr>, Inr d)"
proof -
  have e: "\<lparr> dk_desktop_id = dk_desktop_id d, dk_signing_key = dk_signing_key d, dk_selection_key = dk_selection_key d \<rparr> = d" by simp
  have "key_state_open L K p f = (f, Inl StateMissing)"
    using f by (simp add: key_state_open_def bindS_def mapErrS_def file_open_def sys_read_run okOr_def)
  then show ?thesis using f d
    by (simp add: key_state_open_or_create_def tryS_def key_state_create_def bindS_def create_private_file_def
        create_and_write_run validate_private_file_def mapErrS_def handle_metadata_def sys_read_run e)
qed

subsection \<open>A pairing completes\<close>

lemma file_create_frame:
  assumes "file_create cb p sc capacity now f = (t, Inr g)" "q \<noteq> p" "sibling_path p ''.lock'' \<noteq> Inr q"
  shows "nodes t q = nodes f q"
proof -
  from assms(1) obtain f1 f2 f3 l r where x: "checked_path p f = (f1, Inr p)" "guard_acquire_lock p f1 = (f2, Inr l)"
    "symlink_metadata p f2 = (f3, r)" "persist_create p (state_encode cb (state_new sc now)) f3 = (t, Inr ())"
    using checked_path_ok by (fastforce simp: file_create_def bindS_Inr_iff holding_ok guard_persist_create_def mapErrS_Inr_iff
      tryS_iff Let_def)
  from guard_acquire_lock_ok [OF x(2)] assms(3) have "q \<noteq> l" by auto
  then show ?thesis
    using checked_path_ok [OF x(1)] guard_acquire_lock_ok [OF x(2)] persist_create_ok [OF x(4)]
      sys_read_same [OF x(3) [unfolded symlink_metadata_def]] assms(2) by simp
qed

text \<open>The disk a first pairing starts from: the configuration directory is there, the outputs and the desktop
  state are not, and the paths do not meet.\<close>

definition pairing_ready :: "os_path \<Rightarrow> os_path \<Rightarrow> os_path \<Rightarrow> os_path \<Rightarrow> os_path \<Rightarrow> fs \<Rightarrow> bool" where
  "pairing_ready root desktop out replay loc f \<longleftrightarrow> faults f = [] \<and> path_is_absolute root \<and>
     (\<exists>md. nodes f (path_of root) = Some (Dir md)) \<and> free_place (path_of replay) f \<and>
     nodes f (path_of desktop) = None \<and> nodes f (path_of out) = None \<and> nodes f (path_of loc) = None \<and>
     distinct [path_of replay, path_of desktop, path_of out, path_of loc] \<and>
     {path_of desktop, path_of out, path_of loc} \<inter> temps (path_of replay) = {}"

lemma pairing_readyD:
  assumes "pairing_ready root desktop out replay loc f"
  shows "faults f = []" "path_is_absolute root" "\<exists>md. nodes f (path_of root) = Some (Dir md)" "free_place (path_of replay) f"
    "nodes f (path_of desktop) = None" "nodes f (path_of out) = None" "nodes f (path_of loc) = None"
    "path_of replay \<noteq> path_of desktop" "path_of replay \<noteq> path_of out" "path_of replay \<noteq> path_of loc"
    "path_of desktop \<noteq> path_of out" "path_of desktop \<noteq> path_of loc" "path_of out \<noteq> path_of loc"
    "path_of desktop \<notin> temps (path_of replay)" "path_of out \<notin> temps (path_of replay)" "path_of loc \<notin> temps (path_of replay)"
  using assms by (auto simp: pairing_ready_def)

lemma commit_pairing_run:
  assumes z: "cbor_sized (minicbor L)" and b: "bech32_codec (bech L)" and p: "p256_laws (ec L)"
    and st: "stub_ok L stub" "sb_desktop_selection_public_key stub = pk_compressed (ec L) k"
    and now: "now_unix (pe_clock E) = Inr now"
    and f: "faults f = []" "path_is_absolute root" "nodes f (path_of root) = Some (Dir md)" "free_place (path_of replay) f"
      "nodes f (path_of out) = None" "nodes f (path_of (pairing_locator_path root stub)) = None"
      "path_of out \<notin> temps (path_of replay)" "path_of (pairing_locator_path root stub) \<notin> temps (path_of replay)"
      "path_of replay \<noteq> path_of out" "path_of replay \<noteq> path_of (pairing_locator_path root stub)"
      "path_of out \<noteq> path_of (pairing_locator_path root stub)"
    and x: "absolute_existing (pe_current_dir E) (pe_canonicalize E) desktop = Inr x"
      "absolute_existing (pe_current_dir E) (pe_canonicalize E) replay = Inr y"
      "locator_path_ok x" "locator_path_ok y" "length x + length y \<le> 3900"
  shows "\<exists>t. commit_pairing_state L E root stub desktop out replay created transport rt f = (t, Inr ()) \<and>
    (\<forall>q \<in> temps (path_of replay). sibling_path (path_of replay) ''.lock'' \<noteq> Inr q \<longrightarrow> nodes t q = None)"
proof -
  let ?sc = "scope_for_pairing DesktopResponses (stub_pairing stub)" and ?p = "path_of replay" and ?l = "path_of (pairing_locator_path root stub)"
  have cap: "validate_capacity DEFAULT_REPLAY_CAPACITY = Inr ()" by (simp add: validate_capacity_def DEFAULT_REPLAY_CAPACITY_def)
  obtain f1 g where 1: "file_create (minicbor L) ?p ?sc DEFAULT_REPLAY_CAPACITY now f = (f1, Inr g)" "faults f1 = []"
    using file_create_run [OF f(1,4) cap] by blast
  have lock: "q \<notin> temps ?p \<Longrightarrow> sibling_path ?p ''.lock'' \<noteq> Inr q" for q unfolding temps_def by blast
  have pt: "?p \<notin> temps ?p" by (rule temps_other)
  have n1: "nodes f1 (path_of out) = None" "nodes f1 ?l = None"
    using file_create_frame [OF 1(1) _ lock] f(5-11) by simp_all
  obtain md' where r1: "nodes f1 (path_of root) = Some (Dir md')" using grown_dir [OF file_create_grown [OF 1(1)] f(3)] by blast
  let ?h = "file_drop g f1"
  have h: "faults ?h = []" "nodes ?h = nodes f1" using 1(2) by (simp_all add: file_drop_def unlock_def)
  have ids: "length (sb_desktop_id stub) = 16" "length (sb_identity_id stub) = 16" "length (sb_transcript_fingerprint stub) = 32"
    using st(1) by (simp_all add: stub_ok_def wf_stub_def)
  let ?v = "\<lparr> pl_desktop_state = x, pl_replay_state = y, pl_transport = transport \<rparr>"
  obtain f2 c where 2: "create_pairing_locator_with_transport (minicbor L) (pe_current_dir E) (pe_canonicalize E) root stub desktop replay
      transport ?h = (f2, Inr (pairing_locator_path root stub))" "faults f2 = []"
    "nodes f2 = (nodes ?h)(path_of root \<mapsto> Dir 448, ?l \<mapsto> Regular c PRIVATE_MODE 0)"
    using create_then_open [OF z ids, of ?v ?h root md' "pe_current_dir E" "pe_canonicalize E" desktop replay] x h f(2) r1 n1 by auto
  obtain body where body: "identity_file_for L stub rt = Inr body" using identity_file_total [OF b p st] by blast
  have n2: "nodes f2 (path_of out) = None" using 2(3) h(2) n1(1) r1 f(11) by auto
  let ?t = "f2\<lparr> nodes := (nodes f2)(path_of out \<mapsto> Regular (str_bytes body) (pe_stub_mode E) 0) \<rparr>"
  have 3: "create_identity_stub_file_for L (pe_stub_mode E) (path_of out) stub rt f2 = (?t, Inr ())"
    using body create_and_write_run [OF 2(2) n2] by (simp add: create_identity_stub_file_for_def bindS_def)
  have "commit_pairing_state L E root stub desktop out replay created transport rt f = (?t, Inr ())"
    using now 1(1) 2(1) 3 by (simp add: commit_pairing_state_def bindS_run bindS_tryS)
  moreover have "nodes ?t q = None" if q: "q \<in> temps ?p" "sibling_path ?p ''.lock'' \<noteq> Inr q" for q
  proof -
    have e: "nodes f1 q = None" using file_create_frame [OF 1(1) _ q(2)] f(4) q pt by (auto simp: free_place_def)
    then have "q \<noteq> path_of root" using r1 by auto
    with e q(1) f(7,8) 2(3) h(2) show ?thesis by auto
  qed
  ultimately show ?thesis by blast
qed

lemma qr_scheduled:
  assumes z: "cbor_sized (minicbor L)" and u: "base64_engine (url64 L)" and y: "symmetric_laws (sym L)"
    and m: "fragmentable request 120" and t: "length transfer_id = 16"
  obtains frames sch where "fragment_qr_message L request 120 transfer_id = Inr frames" "scheduler_new frames DEFAULT_FRAME_INTERVAL_MS = Inr sch"
proof -
  obtain frames where f: "fragment_qr_message L request 120 transfer_id = Inr frames" "length frames = length (chunks 120 request)"
    by (rule fragment_ok [OF z u y m t])
  have "0 < length request" using fragmentableD(1) [OF m] by simp
  then have "0 < length frames" unfolding f(2) by (simp add: length_chunks div_ceil_def div_greater_zero_iff Suc_le_eq)
  then have "frames \<noteq> []" by blast
  with f(1) that show thesis by (simp add: scheduler_new_def DEFAULT_FRAME_INTERVAL_MS_def)
qed

lemma exchange_pairing_qr_run:
  assumes q: "cbor_sized (minicbor L)" "base64_engine (url64 L)" "symmetric_laws (sym L)"
      "fragmentable request 120" "length (xe_transfer_id (pe_exchange E) w) = 16"
    and r: "pe_passes E = Suc n" "pe_try_result E w = (w', Inr (Some response))"
  shows "exchange_pairing_qr L E request w = (w', Inr response)"
proof -
  obtain frames sch where "fragment_qr_message L request 120 (xe_transfer_id (pe_exchange E) w) = Inr frames"
    "scheduler_new frames DEFAULT_FRAME_INTERVAL_MS = Inr sch" by (rule qr_scheduled [OF q])
  with r show ?thesis by (simp add: exchange_pairing_qr_def bindS_def mapErrS_def)
qed

lemma offer_fragmentable:
  assumes z: "cbor_sized (minicbor L)" and w: "wf_offer (payload m)" and s: "length (signature m) = 64"
  shows "fragmentable (signed_offer_encode L m) 120"
proof -
  have l: "length (signed_offer_encode L m) \<le> 4096"
    using e_bytes_len_le [OF z encode_offer_len [OF z w]] e_bytes_len_le [OF z, of "signature m" 64] s
      head_len_bounds(1) [of "unat (2 :: u64)"]
    by (simp add: signed_offer_encode_def signed_encode_def signed_envelope_def cbor_sized.array_len [OF z])
  have "0 < length (e_array (minicbor L) 2)" by (simp add: cbor_sized.array_len [OF z] head_len_positive)
  then have "signed_offer_encode L m \<noteq> []"
    by (auto simp: signed_offer_encode_def signed_encode_def signed_envelope_def)
  moreover have "div_ceil (length (signed_offer_encode L m)) 120 \<le> 128" using l by (simp add: div_ceil_def)
  ultimately show ?thesis using l by (simp add: fragmentable_def)
qed


lemma free_place_grown:
  assumes "free_place p f" "grown f t" "locks t = locks f" "\<And>q. q \<in> insert p (temps p) \<Longrightarrow> nodes t q = nodes f q"
  shows "free_place p t"
proof -
  from assms(1) obtain d l md where o: "absolute p" "parent p = Some d" "nodes f d = Some (Dir md)" "sibling_path p ''.lock'' = Inr l"
    "nodes f l = None \<or> private_node (nodes f l)" "l \<notin> locks f" "nodes f p = None"
    and tmp: "\<forall>q \<in> temps p. sibling_path p ''.lock'' \<noteq> Inr q \<longrightarrow> nodes f q = None"
    unfolding free_place_def by blast
  obtain md' where "nodes t d = Some (Dir md')" using grown_dir [OF assms(2) o(3)] by blast
  moreover have "l \<in> temps p" using o(4) unfolding temps_def by blast
  then have "nodes t l = nodes f l" using assms(4) by blast
  moreover have "nodes t p = None" using assms(4) o(7) by simp
  moreover have "\<forall>q \<in> temps p. sibling_path p ''.lock'' \<noteq> Inr q \<longrightarrow> nodes t q = None" using tmp assms(4) by simp
  ultimately show ?thesis using o assms(3) unfolding free_place_def by simp
qed

lemma free_plain_place:
  assumes "free_place p f" "grown f t" "\<forall>q \<in> temps p. sibling_path p ''.lock'' \<noteq> Inr q \<longrightarrow> nodes t q = None"
  shows "plain_place p t"
proof -
  have "nodes t d \<noteq> Some (Symlink x)" if "parent p = Some d" for d x
  proof -
    from assms(1) that obtain m where "nodes f d = Some (Dir m)" unfolding free_place_def by auto
    from grown_dir [OF assms(2) this] show ?thesis by auto
  qed
  with assms(3) show ?thesis unfolding plain_place_def by blast
qed

text \<open>The disk with the new desktop state and the private configuration directory.\<close>

lemma pairing_ready_after:
  assumes "pairing_ready root desktop out replay loc f"
    and "g = f\<lparr> nodes := (nodes f)(path_of desktop \<mapsto> Regular b PRIVATE_MODE 0, path_of root \<mapsto> Dir 448) \<rparr>"
  shows "grown f g" "free_place (path_of replay) g" "nodes g (path_of desktop) = Some (Regular b PRIVATE_MODE 0)" "faults g = []"
    "nodes g (path_of root) = Some (Dir 448)" "nodes g (path_of out) = None" "nodes g (path_of loc) = None"
proof -
  let ?p = "path_of replay"
  note r = pairing_readyD [OF assms(1)]
  obtain md where md: "nodes f (path_of root) = Some (Dir md)" using r(3) by blast
  show fg: "grown f g" using r(5) md by (auto simp: grown_def assms(2))
  have "path_of root \<notin> temps ?p \<or> sibling_path ?p ''.lock'' = Inr (path_of root)" "?p \<noteq> path_of root" "nodes f ?p = None"
    using r(4) md by (auto simp: free_place_def)
  moreover have "sibling_path ?p ''.lock'' \<noteq> Inr (path_of root)"
  proof
    assume "sibling_path ?p ''.lock'' = Inr (path_of root)"
    with r(4) md show False by (auto simp: free_place_def private_node_def)
  qed
  ultimately show "free_place ?p g"
    by (intro free_place_grown [OF r(4) fg]) (use r(8,14) in \<open>auto simp: assms(2)\<close>)
  show "nodes g (path_of desktop) = Some (Regular b PRIVATE_MODE 0)" "faults g = []" "nodes g (path_of root) = Some (Dir 448)"
    "nodes g (path_of out) = None" "nodes g (path_of loc) = None"
    using r(1,5,6,7,11,12) md by (auto simp: assms(2))
qed

lemma path_exists_run: "faults f = [] \<Longrightarrow> nodes f p = None \<Longrightarrow> path_exists p f = (f, Inr False)"
  by (simp add: path_exists_def bindS_tryS metadata_def sys_read_run okOr_def isOk_iff)

lemma complete_pairing_run:
  assumes r: "receive_pairing_response L response t1 s = (s1, Inr shown)" and c: "confirm L (pd_transcript_fingerprint shown) t2 s1 = (s2, Inr stub)"
    and w: "pe_elapsed E w = (w0, t1)" "pe_write E (fingerprint_prompt (pd_transcript_fingerprint shown)) w0 = (w1, Inr ())"
      "pe_read_line E w1 = (w2, Inr line)" "trim line = pd_transcript_fingerprint shown" "pe_elapsed E w2 = (w3, t2)"
  shows "complete_pairing_interaction L E response (\<lambda>_. retS ()) s (c, w) = ((c, w3), Inr stub)"
proof -
  from c obtain m fp where "ps_state s1 = Confirming m fp" by (auto simp: confirm_ok)
  with r c w show ?thesis
    by (simp add: complete_pairing_interaction_def pending_stub_def bindS_def mapErrS_def on_disk_def on_world_def)
qed

lemma run_pair_run:
  fixes K :: "'sk key_bytes" and L :: "('pk, 'sg, 'sk) lib"
  assumes p: "p256_laws (ec L)"
    and lbl: "length lbl \<le> 64"
    and d: "pe_state_draws E = (dk_desktop_id d, dk_signing_key d, dk_selection_key d)" "\<not> same_key L (dk_signing_key d) (dk_selection_key d)"
    and s: "state_session L d lbl 0 (pe_nonce E) = Inr s"
    and route: "discover_pairing_wifi E (dk_desktop_id d) transport adb w = (w0, Inr hint)"
      "resolve_transport False transport PairingOperation \<lparr> hint_adb_serial = adb, hint_wifi_address = hint \<rparr> = Inr route"
      "exchange_pairing_route L E route (session_signed_offer L s) w0 = (w1, Inr response)"
    and x: "complete_pairing_interaction L E response (\<lambda>_. retS ()) s (g, w1) = ((g, w2), Inr stub)"
    and root: "pe_config_root E = Inr root" and f: "pairing_ready root desktop out replay loc f"
    and g: "g = f\<lparr> nodes := (nodes f)(path_of desktop \<mapsto> Regular (encode_key_state K d) PRIVATE_MODE 0, path_of root \<mapsto> Dir 448) \<rparr>"
    and c: "commit_pairing_state L E root stub desktop out replay True transport rt g = (t, Inr ())"
    and i: "recipient_for L stub rt = Inr txt"
  shows "\<exists>w'. run_pair L K E lbl desktop out replay transport adb rt (f, w) = ((t, w'), Inr ())"
proof -
  note r = pairing_readyD [OF f]
  have av: "ensure_pairing_outputs_available out replay f = (f, Inr ())"
    using path_exists_run [OF r(1) r(6)] path_exists_run [OF r(1), of "path_of replay"] r(4)
    by (simp add: ensure_pairing_outputs_available_def bindS_def free_place_def)
  let ?h = "f\<lparr> nodes := (nodes f)(path_of desktop \<mapsto> Regular (encode_key_state K d) PRIVATE_MODE 0) \<rparr>"
  have k: "key_state_open_or_create L K (path_of desktop) (pe_state_draws E) f = (?h, Inr d)"
    unfolding d(1) by (rule key_state_create_run [OF r(1,5) d(2)])
  obtain md where "nodes f (path_of root) = Some (Dir md)" using r(3) by blast
  then have "nodes ?h (path_of root) = Some (Dir md)" using r(5) by auto
  then have pr: "prepare_pairing_config_root E ?h = (g, Inr root)"
    using private_prepare_run [of ?h "path_of root" md] r(1,2) root
    by (simp add: prepare_pairing_config_root_def bindS_def mapErrS_def ensure_no_setup_pending_for_pair_def g)
  have sel: "key_selection_public L d = Inr (pk_compressed (ec L) (sk_public (ec L) (dk_selection_key d)))"
    using p256_rt(4) [OF p] by (simp add: key_selection_public_def key_agreement_of_def signing_key_agreement_def Let_def)
  have ss: "session_begin L (dk_desktop_id d) lbl (key_signer L d) (pk_compressed (ec L) (sk_public (ec L) (dk_selection_key d))) 0 (pe_nonce E) = Inr s"
    using s by (simp add: state_session_def)
  have ne: "\<not> path_eq desktop replay" "\<not> path_eq desktop out" "\<not> path_eq replay out"
    using r(8-11) by (auto simp: path_eq_def)
  have "pairing_exchanged L E root s desktop out replay True transport rt response (g, w1) =
      on_world (print_pairing_outputs L E out stub rt) (t, w2)"
    using x c by (simp add: pairing_exchanged_def bindS_run on_world_def on_disk_def)
  then have tail: "\<exists>w'. pairing_exchanged L E root s desktop out replay True transport rt response (g, w1) = ((t, w'), Inr ())"
    using i by (simp add: print_pairing_outputs_def on_world_def Let_def)
  show ?thesis
    using av path_exists_run [OF r(1,5)] k pr sel ss route ne lbl tail
    by (simp add: run_pair_def validate_setup_label_def bindS_run on_disk_def on_world_def bindS_tryS mapErrS_def failIf_def)
qed


subsection \<open>A synchronisation that fails\<close>

lemma path_rebuilt: "absolute p \<Longrightarrow> rev (comps p) = c # cs \<Longrightarrow> \<lparr> absolute = True, comps = rev (c # cs) \<rparr> = p"
  by (cases p) (metis path.select_convs rev_rev_ident)

text \<open>The one call that fails is the last of the locator's creation.\<close>

lemma create_pairing_locator_unsynced:
  assumes f: "faults f = [NoFault, NoFault, NoFault, NoFault, NoFault, NoFault, NoFault, NoFault, NoFault, Fault n]"
    and root: "path_is_absolute root" "comps (path_of root) \<noteq> []" "nodes f (path_of root) = Some (Dir md)"
    and n: "nodes f (path_of (pairing_locator_path root stub)) = None"
    and x: "absolute_existing cwd canonicalize desktop = Inr x" "absolute_existing cwd canonicalize replay = Inr y"
    and b: "locator_encode cb stub \<lparr> pl_desktop_state = x, pl_replay_state = y, pl_transport = transport \<rparr> = Inr b"
  shows "create_pairing_locator_with_transport cb cwd canonicalize root stub desktop replay transport f =
    (f\<lparr> nodes := (nodes f)(path_of root \<mapsto> Dir 448,
        path_of (pairing_locator_path root stub) \<mapsto> Regular b PRIVATE_MODE 0), faults := [] \<rparr>, Inl LocatorStorage)"
proof -
  let ?p = "path_of root" and ?q = "path_of (pairing_locator_path root stub)"
  have ne: "?q \<noteq> ?p" using root(3) n by auto
  obtain c cs where cs: "rev (comps ?p) = c # cs" using root(2) by (cases "rev (comps ?p)") auto
  note p = path_rebuilt [OF _ cs]
  have a: "absolute ?p" by (simp add: root(1))
  have "create_dir_all True (rev (comps ?p)) f = (f\<lparr> faults := drop 2 (faults f) \<rparr>, Inr ())"
    unfolding cs create_dir_all.simps p [OF a] Let_def using root(3)
    by (simp add: tryS_def make_dir_def sys_update_def next_fault_def f path_is_dir_def metadata_def sys_read_def okOr_def bindS_def)
  moreover have "private_checked_directory ?p (f\<lparr> faults := drop 3 (faults f), nodes := (nodes f)(?p \<mapsto> Dir 448) \<rparr>) =
      (f\<lparr> nodes := (nodes f)(?p \<mapsto> Dir 448), faults := drop 5 (faults f) \<rparr>, Inr ?p)"
    by (simp add: private_checked_directory_def private_reject_symlink_def symlink_metadata_def metadata_def sys_read_def next_fault_def f
        bindS_def tryS_def mapErrS_def okOr_def)
  ultimately have 1: "private_prepare_directory ?p f = (f\<lparr> nodes := (nodes f)(?p \<mapsto> Dir 448), faults := drop 5 (faults f) \<rparr>, Inr ?p)"
    using root(3) a
    by (simp add: private_prepare_directory_def bindS_def mapErrS_def set_permissions_def sys_update_def next_fault_def f)
  let ?h = "f\<lparr> nodes := (nodes f)(?p \<mapsto> Dir 448, ?q \<mapsto> Regular b PRIVATE_MODE 0), faults := drop 9 (faults f) \<rparr>"
  have 2: "private_create ?q b (f\<lparr> nodes := (nodes f)(?p \<mapsto> Dir 448), faults := drop 5 (faults f) \<rparr>) = (?h, Inr ())"
    using n ne
    by (simp add: private_create_def bindS_def mapErrS_def tryS_def open_new_as_def sys_update_def write_new_as_def
      next_fault_def f sync_all_def sys_read_def private_validate_def handle_metadata_def)
  have 3: "private_sync_directory ?p ?h = (?h\<lparr> faults := [] \<rparr>, Inl PrivateStorage)"
    by (simp add: private_sync_directory_def mapErrS_def bindS_def file_open_def sys_read_def next_fault_def f)
  show ?thesis
    using 1 2 3 x b
    by (simp add: create_pairing_locator_with_transport_def ensure_not_pending_def validate_layout_def bindS_def mapErrS_def
        Let_def locator_error_from_def)
qed


lemma rollback_run:
  assumes f: "faults f = []" and n: "replay_lock_path (path_of replay) \<noteq> None"
  shows "\<exists>t. rollback_failed_pairing desktop replay locator created f = (t, True)"
proof -
  have r: "\<exists>t. remove_private_pairing_file p g = (t, True) \<and> faults t = []" if "faults g = []" for p g
    using that by (simp add: remove_private_pairing_file_def remove_file_def sys_update_run)
  obtain p where p: "replay_lock_path (path_of replay) = Some p" using n by blast
  obtain f1 where 1: "(case locator of Some p \<Rightarrow> remove_private_pairing_file (path_of p) f | None \<Rightarrow> (f, True)) = (f1, True)" "faults f1 = []"
    using r [OF f] f by (cases locator) auto
  obtain f2 where 2: "remove_private_pairing_file (path_of replay) f1 = (f2, True)" "faults f2 = []" using r [OF 1(2)] by blast
  obtain f3 where 3: "remove_private_pairing_file p f2 = (f3, True)" "faults f3 = []" using r [OF 2(2)] by blast
  obtain f4 where "remove_private_pairing_file (path_of desktop) f3 = (f4, True)" using r [OF 3(2)] by blast
  with 1 2 3 p show ?thesis by (simp add: rollback_failed_pairing_def)
qed

lemma commit_unsynced:
  assumes c: "file_create (minicbor L) (path_of replay) (scope_for_pairing DesktopResponses (stub_pairing stub)) DEFAULT_REPLAY_CAPACITY now f =
      (f1, Inr g)" "now_unix (pe_clock E) = Inr now"
    and f: "faults f1 = [NoFault, NoFault, NoFault, NoFault, NoFault, NoFault, NoFault, NoFault, NoFault, Fault n]"
    and root: "path_is_absolute root" "comps (path_of root) \<noteq> []" "nodes f1 (path_of root) = Some (Dir md)"
    and loc: "nodes f1 (path_of (pairing_locator_path root stub)) = None"
      "path_of (pairing_locator_path root stub) \<notin> rollback_paths desktop replay None created"
    and x: "absolute_existing (pe_current_dir E) (pe_canonicalize E) desktop = Inr x"
      "absolute_existing (pe_current_dir E) (pe_canonicalize E) replay = Inr y"
    and b: "locator_encode (minicbor L) stub \<lparr> pl_desktop_state = x, pl_replay_state = y, pl_transport = transport \<rparr> = Inr b"
  shows "\<exists>t. commit_pairing_state L E root stub desktop out replay created transport rt f =
      (t, Inl (pairing_commit_error ''failed to create private pairing locator'' True)) \<and>
    nodes t (path_of (pairing_locator_path root stub)) = Some (Regular b PRIVATE_MODE 0)"
proof -
  let ?h = "file_drop g f1"
  have h: "faults ?h = faults f1" "nodes ?h = nodes f1" by (simp_all add: file_drop_def unlock_def)
  obtain k where k: "create_pairing_locator_with_transport (minicbor L) (pe_current_dir E) (pe_canonicalize E) root stub desktop replay
      transport ?h = (k, Inl LocatorStorage)" "faults k = []" "nodes k (path_of (pairing_locator_path root stub)) = Some (Regular b PRIVATE_MODE 0)"
    using create_pairing_locator_unsynced [of ?h n root md stub "pe_current_dir E" "pe_canonicalize E" desktop x replay y "minicbor L" transport b]
      f root loc(1) x b unfolding h by auto
  have "replay_lock_path (path_of replay) \<noteq> None"
    using file_create_ok [OF c(1)] by (auto simp: replay_lock_path_def sibling_path_def result_iff)
  then obtain t where t: "rollback_failed_pairing desktop replay None created k = (t, True)" using rollback_run [OF k(2)] by blast
  have "nodes t (path_of (pairing_locator_path root stub)) = Some (Regular b PRIVATE_MODE 0)"
    using rollback_ok(1) [OF t loc(2)] k(3) by simp
  with c k(1) t show ?thesis
    by (auto simp: commit_pairing_state_def bindS_run bindS_tryS commit_failed_def)
qed

end
