(* ===== verification/Unwrap_Runs.thy ===== *)
theory Unwrap_Runs
  imports Unwrap_Command Pair_Runs
begin

text \<open>
  The command \<open>unwrap\<close>: what a success means for the phone's response and for the replay state on disk,
  and that it does succeed on the disk that \<open>pair\<close> left, with a phone that answers.
\<close>

subsection \<open>What a response spends\<close>

text \<open>A response that the guard accepted is in the state the file holds afterwards.\<close>

lemma guard_spent:
  assumes "ro_response (file_ops cb) d i x e now (Some g, f) = (s, Inr ())"
  obtains st h where "state_consume_response (scope_new DesktopResponses d i) x e now (fg_capacity g) (fg_state g) = (st, Inr ())"
    "s = (Some (g\<lparr> fg_state := st \<rparr>), h)" "nodes h (fg_path g) = Some (Regular (state_encode cb st) PRIVATE_MODE 0)"
proof -
  obtain st r where c: "state_consume_response (scope_new DesktopResponses d i) x e now (fg_capacity g) (fg_state g) = (st, r)" by fastforce
  from assms c have r: "r = Inr ()" by (cases r) (simp_all add: file_ops_def slot_step_def file_consume_response_def split: if_splits)
  obtain h q where h: "atomic_replace (fg_path g) (state_encode cb st) f = (h, q)" by fastforce
  from assms c r h have q: "q = Inr ()" and s: "s = (Some (g\<lparr> fg_state := st \<rparr>), h)"
    by (cases q; simp add: file_ops_def slot_step_def file_consume_response_def commit_def guard_atomic_replace_def mapErrS_def split: if_splits)+
  from atomic_replace_ok [OF h [unfolded q]] have "nodes h (fg_path g) = Some (Regular (state_encode cb st) PRIVATE_MODE 0)" by auto
  with c r s that show thesis by blast
qed


text \<open>A run that succeeds: the session is the stub's, for exactly the stanza on the command line, and the
  response that ended it is signed for its request, was not spent before and is spent on disk now.\<close>

definition unwrap_ended ::
    "('pk, 'sg, 'sk) lib \<Rightarrow> public_identity_stub \<Rightarrow> os_path \<Rightarrow> verified_request \<Rightarrow> bytes \<Rightarrow> u64 \<Rightarrow> fs \<Rightarrow> fs \<Rightarrow> bool" where
  "unwrap_ended L stub replay v response now f t \<longleftrightarrow> authorised_response L stub v now response \<and>
     (\<exists>m b k md st0 st. signed_response_decode L response = Inr m \<and>
        nodes f (path_of replay) = Some (Regular b md k) \<and> md AND 63 = 0 \<and> state_decode (minicbor L) b DEFAULT_REPLAY_CAPACITY = Inr st0 \<and>
        scope st0 = scope_for_pairing DesktopResponses (stub_pairing stub) \<and>
        \<not> list_ex (response_clash (hash L RESPONSE_SIG (signed_response_encode L m))) (retained now st0) \<and>
        spent_response (hash L RESPONSE_SIG (signed_response_encode L m)) (rq_expires_at_unix (vr_payload v)) st \<and>
        nodes t (path_of replay) = Some (Regular (state_encode (minicbor L) st) PRIVATE_MODE 0))"

lemma unwrap_received_ended:
  assumes "unwrap_response_received L U stub replay us response (f, w) = ((t, w'), Inr u)" "us_pairing us = stub_pairing stub"
  shows "\<exists>now. unwrap_ended L stub replay (us_request us) response now f t"
proof -
  let ?sc = "scope_for_pairing DesktopResponses (stub_pairing stub)"
  from assms(1) obtain g f1 now fk us' slot where
    g: "file_open_guard (minicbor L) (path_of replay) ?sc DEFAULT_REPLAY_CAPACITY f = (f1, Inr g)" and
    r: "unwrap_receive L (file_ops (minicbor L)) response now (us, (Some g, f1)) = ((us', slot), Inr fk)" and t: "t = drop_slot slot"
    by (rule unwrap_received_ok)
  note g' = file_open_guard_ok [OF g]
  from r obtain m where m: "signed_response_decode L response = Inr m"
    "ro_response (file_ops (minicbor L)) (sb_desktop_id stub) (sb_identity_id stub) (hash L RESPONSE_SIG (signed_response_encode L m))
       (rq_expires_at_unix (vr_payload (us_request us))) now (Some g, f1) = (slot, Inr ())"
    by (auto simp: unwrap_receive_ok open_response_ok assms(2) stub_pairing_def)
  from guard_spent [OF m(2)] obtain st h where s:
    "state_consume_response (scope_new DesktopResponses (sb_desktop_id stub) (sb_identity_id stub))
       (hash L RESPONSE_SIG (signed_response_encode L m)) (rq_expires_at_unix (vr_payload (us_request us))) now (fg_capacity g) (fg_state g) =
       (st, Inr ())"
    "slot = (Some (g\<lparr> fg_state := st \<rparr>), h)" "nodes h (fg_path g) = Some (Regular (state_encode (minicbor L) st) PRIVATE_MODE 0)" .
  have n: "nodes t (path_of replay) = Some (Regular (state_encode (minicbor L) st) PRIVATE_MODE 0)"
    using s(2,3) g' by (simp add: t drop_slot_def file_drop_def unlock_def)
  have sp: "spent_response (hash L RESPONSE_SIG (signed_response_encode L m)) (rq_expires_at_unix (vr_payload (us_request us))) st"
    by (rule consumed_response_spent [OF s(1)])
  have nc: "\<not> list_ex (response_clash (hash L RESPONSE_SIG (signed_response_encode L m))) (retained now (fg_state g))"
    using s(1) by (simp add: state_consume_response_ok)
  from unwrap_receive_authorised [OF r assms(2)] have a: "authorised_response L stub (us_request us) now response" by simp
  from g' obtain b md k where b: "nodes f (path_of replay) = Some (Regular b md k)" "md AND 63 = 0"
    "state_decode (minicbor L) b DEFAULT_REPLAY_CAPACITY = Inr (fg_state g)" "scope (fg_state g) = ?sc" by auto
  show ?thesis
    unfolding unwrap_ended_def
    by (rule exI [of _ now], rule conjI [OF a], rule exI [of _ m], rule exI [of _ b], rule exI [of _ k], rule exI [of _ md],
        rule exI [of _ "fg_state g"], rule exI [of _ st]) (intro conjI m(1) b nc sp n)
qed


lemma read_stub_same: "read_identity_stub_file L p f = (t, r) \<Longrightarrow> nodes t = nodes f"
  by (auto simp: read_identity_stub_file_def bindS_def mapErrS_def read_to_string_def file_open_def
    split: prod.splits sum.splits dest!: sys_read_same)

lemma begun_stanza:
  assumes "p256_laws (ec L)" "unwrap_begin L stub d stanza hint now drawn = Inr us"
  shows "desktop_matches L stub d = Inr ()" "us_pairing us = stub_pairing stub" "rq_recipient_stanza (vr_payload (us_request us)) = stanza"
proof -
  obtain sk i n where "drawn = (sk, i, n)" by (cases drawn)
  with assms show "desktop_matches L stub d = Inr ()" "us_pairing us = stub_pairing stub" "rq_recipient_stanza (vr_payload (us_request us)) = stanza"
    by (auto simp: unwrap_begin_ok create_request_def result_iff request_sign_def)
qed

lemma run_unwrap_once:
  assumes p: "p256_laws (ec L)"
    and run: "run_unwrap L K U out desktop replay arg body hint transport adb addr (f, w) = ((t, w'), Inr u)"
  shows "\<exists>f1 f2 stub d b now us response route w0 w1 received.
    read_identity_stub_file L (path_of out) f = (f1, Inr stub) \<and> key_state_open L K (path_of desktop) f1 = (f2, Inr d) \<and>
    desktop_matches L stub d = Inr () \<and> b64_decode (std64 L) (trim body) = Some b \<and>
    unwrap_begin L stub d (command_stanza arg b) hint now (ue_draws U) = Inr us \<and>
    rq_recipient_stanza (vr_payload (us_request us)) = command_stanza arg b \<and>
    exchange_unwrap_route L U route (unwrap_signed_request L us) (unwrap_display_of us) w0 = (w1, Inr response) \<and>
    unwrap_ended L stub replay (us_request us) response received f t"
proof -
  from run obtain f1 f2 stub d b now us response w0 w1 route where r:
    "read_identity_stub_file L (path_of out) f = (f1, Inr stub)" "key_state_open L K (path_of desktop) f1 = (f2, Inr d)"
    "b64_decode (std64 L) (trim body) = Some b" "unwrap_begin L stub d (command_stanza arg b) hint now (ue_draws U) = Inr us"
    "exchange_unwrap_route L U route (unwrap_signed_request L us) (unwrap_display_of us) w0 = (w1, Inr response)"
    "unwrap_response_received L U stub replay us response (f2, w1) = ((t, w'), Inr ())"
    by (rule run_unwrap_ok)
  note b = begun_stanza [OF p r(4)]
  obtain received where e: "unwrap_ended L stub replay (us_request us) response received f2 t"
    using unwrap_received_ended [OF r(6) b(2)] by blast
  have "nodes f2 = nodes f"
    using read_stub_same [OF r(1)] keepsD [OF keeps_key_state_open r(2), where P1 = "\<lambda>m. m = nodes f1"] by simp
  with e have "unwrap_ended L stub replay (us_request us) response received f t" by (simp add: unwrap_ended_def)
  with r b show ?thesis by blast
qed

subsection \<open>An unwrap completes\<close>

lemma read_stub_run:
  assumes laws: "cbor_codec (minicbor L)" "bech32_codec (bech L)" "p256_laws (ec L)" and v: "stub_ok L v" "identity_file_for L v rt = Inr txt"
    and f: "faults f = []" "nodes f p = Some (Regular (str_bytes txt) md 0)"
  shows "read_identity_stub_file L p f = (f, Inr v)"
proof -
  have "decode_identity_stub_text L txt = Inr v"
    using identity_file_lines [OF laws(2) v(2)] v(1) by (simp add: decode_identity_stub_text_iff [OF laws])
  with f ascii_utf8_valid [OF identity_file_ascii [OF laws(2) v(2)]] show ?thesis
    by (simp add: read_identity_stub_file_def bindS_def mapErrS_def read_to_string_def file_open_def sys_read_run)
qed


lemma run_unwrap_completes:
  fixes now t0 t1 t2 :: u64 and K :: "'sk key_bytes"
  assumes laws: "cbor_sized (minicbor L)" "base64_engine (std64 L)" "bech32_codec (bech L)" "p256_laws (ec L)" "symmetric_laws (sym L)"
      "ecdsa_laws (ec L) (sym L)" "key_bytes_laws K"
    and st: "stub_ok L stub" "desktop_matches L stub d = Inr ()"
      "sb_phone_signing_public_key stub = pk_compressed (ec L) (sk_public (ec L) phone)"
    and disk: "paired_disk L K root stub l d (state_new (scope_for_pairing DesktopResponses (stub_pairing stub)) t0) f"
      "path_of (pl_desktop_state l) = path_of desktop" "path_of (pl_replay_state l) = path_of replay"
      "identity_file_for L stub rt = Inr txt" "nodes f (path_of out) = Some (Regular (str_bytes txt) md 0)"
    and fk: "b64_decode (std64 L) (trim body) = Some b" "unwrap_file_key L identity (command_stanza arg b) = Inr fk"
    and drawn: "ue_draws U = (sk, i, n)" "length i = 16" "length n = 32" "length nonce = 32"
      "\<forall>x. hint = Some x \<longrightarrow> length x \<le> 64 \<and> utf8_valid x"
    and t: "unat now + 300 < 2 ^ 63" "unat now \<le> unat t1" "unat t1 \<le> unat now + 300" "unat now \<le> unat t2" "unat t2 \<le> unat now + 300"
      "unat t0 \<le> unat t2"
    and sg: "\<forall>k x. \<exists>y. ecdsa_sign_prehash (ec L) k x = Some y"
    and R: "ro_request R (sb_desktop_id stub) (sb_identity_id stub) i n (now + 300) t1 v = (v', Inr ())"
    and route: "discover_unwrap_wifi U stub transport adb addr w = (w0, Inr found)"
      "resolve_transport False transport UnwrapOperation \<lparr> hint_adb_serial = adb, hint_wifi_address = found \<rparr> = Inr route"
      "ue_clock U w0 = (w1, uint now)"
      "\<forall>us response. unwrap_begin L stub d (command_stanza arg b) hint now (sk, i, n) = Inr us \<and>
         phone_answers L R (stub_pairing stub) identity phone (e, nonce) t1 (unwrap_signed_request L us) v = (v', Inr response) \<longrightarrow>
         exchange_unwrap_route L U route (unwrap_signed_request L us) (unwrap_display_of us) w1 = (w2, Inr response)"
      "ue_clock U w2 = (w3, uint t2)" "\<forall>x. \<exists>w4. pe_write (ue_pair U) x w3 = (w4, Inr ())"
  shows "\<exists>t w'. run_unwrap L K U out desktop replay arg body hint transport adb addr (f, w) = ((t, w'), Inr ())"
proof -
  have f: "faults f = []" "nodes f (path_of desktop) = Some (Regular (encode_key_state K d) PRIVATE_MODE 0)"
    using disk(1,2) by (simp_all add: paired_disk_def)
  note r1 = read_stub_run [OF cbor_sized.axioms(1) [OF laws(1)] laws(3,4) st(1) disk(4) f(1) disk(5)]
  note r2 = key_state_open_run [where L = L, OF laws(7) stub_desktop_keys(1,2) [OF laws(4) st(1,2)] f]
  obtain h g us response us' u' where x:
    "file_open_guard (minicbor L) (path_of replay) (scope_for_pairing DesktopResponses (stub_pairing stub))
       DEFAULT_REPLAY_CAPACITY f = (h, Inr g)"
    "unwrap_begin L stub d (command_stanza arg b) hint now (sk, i, n) = Inr us"
    "phone_answers L R (stub_pairing stub) identity phone (e, nonce) t1 (unwrap_signed_request L us) v = (v', Inr response)"
    "unwrap_receive L (file_ops (minicbor L)) response t2 (us, (Some g, h)) = ((us', u'), Inr fk)"
    by (rule disk_session_exchange [OF laws(1,2,4-6) st fk(2) disk(1) drawn(2-5) t sg R, unfolded disk(3)])
  have ex: "exchange_unwrap_route L U route (unwrap_signed_request L us) (unwrap_display_of us) w1 = (w2, Inr response)"
    using route(4) x(2,3) by blast
  have clock: "clock_now U w0 = (w1, Inr now)" "clock_now U w2 = (w3, Inr t2)" using route(3,5) by (simp_all add: clock_now_def)
  obtain w4 where w4: "pe_write (ue_pair U) ([CHR 0x1B] @ ''[2J'' @ [CHR 0x1B] @ ''[HAuthenticated one-time unwrap completed.'' @ [NL]) w3 =
      (w4, Inr ())" using route(6) by blast
  have "unwrap_response_received L U stub replay us response (f, w2) = ((drop_slot u', w4), Inr ())"
    using x(1,4) clock(2) w4 by (simp add: unwrap_response_received_def)
  then have "run_unwrap L K U out desktop replay arg body hint transport adb addr (f, w) = ((drop_slot u', w4), Inr ())"
    using r1 r2 route(1,2) fk(1) clock(1) x(2) drawn(1) ex
    by (simp add: run_unwrap_def bindS_run on_disk_def on_world_def mapErrS_def)
  then show ?thesis by blast
qed


subsection \<open>By QR codes\<close>

lemma request_fragmentable:
  assumes z: "cbor_sized (minicbor L)" and d: "signed_request_decode L b = Inr m"
  shows "fragmentable b 120"
proof -
  from d have m: "b = signed_request_encode L m" "wf_request (payload m)" "length (signature m) = 64"
    unfolding signed_request_decode_exact [OF cbor_sized.axioms(1) [OF z]] by auto
  have l: "length b \<le> 4096"
    using e_bytes_len_le [OF z encode_request_len [OF z m(2)]] e_bytes_len_le [OF z, of "signature m" 64] m(3)
      head_len_bounds(1) [of "unat (2 :: u64)"]
    by (simp add: m(1) signed_request_encode_def signed_encode_def signed_envelope_def cbor_sized.array_len [OF z])
  have "0 < length (e_array (minicbor L) 2)" by (simp add: cbor_sized.array_len [OF z] head_len_positive)
  then have "b \<noteq> []" by (auto simp: m(1) signed_request_encode_def signed_encode_def signed_envelope_def)
  moreover have "div_ceil (length b) 120 \<le> 128" using l by (simp add: div_ceil_def)
  ultimately show ?thesis using l by (simp add: fragmentable_def)
qed

lemma exchange_unwrap_qr_run:
  assumes q: "cbor_sized (minicbor L)" "base64_engine (url64 L)" "symmetric_laws (sym L)"
      "fragmentable request 120" "length (xe_transfer_id (pe_exchange (ue_pair U)) w) = 16"
    and r: "pe_passes (ue_pair U) = Suc n" "pe_try_result (ue_pair U) w = (w', Inr (Some response))"
  shows "exchange_unwrap_qr L U request display w = (w', Inr response)"
proof -
  obtain frames sch where "fragment_qr_message L request 120 (xe_transfer_id (pe_exchange (ue_pair U)) w) = Inr frames"
    "scheduler_new frames DEFAULT_FRAME_INTERVAL_MS = Inr sch" by (rule qr_scheduled [OF q])
  with r show ?thesis by (simp add: exchange_unwrap_qr_def bindS_def mapErrS_def Let_def)
qed

lemma phone_answers_decodes: "phone_answers L R pairing identity phone drawn now request s = (s', Inr response) \<Longrightarrow>
  \<exists>m. signed_request_decode L request = Inr m"
  by (auto simp: phone_answers_def bindS_Inr_iff mapErr_Inr_iff)

end
