(* ===== verification/Command_Properties.thy ===== *)
theory Command_Properties
  imports Unwrap_Runs Plugin_Properties
begin

text \<open>
  The properties of the commands of the desktop program: what \<open>pair\<close> leaves when it succeeds and when it
  fails, and that what it makes is what the age plugins use.
\<close>

subsection \<open>From pairing to decryption\<close>

text \<open>An honest pairing: the phone's signed answer arrives and the user types the fingerprint shown.\<close>

lemma pair_completes:
  fixes t1 t2 t0 :: u64
  assumes laws: "cbor_sized (minicbor L)" "bech32_codec (bech L)" "p256_laws (ec L)" "symmetric_laws (sym L)" "ecdsa_laws (ec L) (sym L)"
    and cmd: "pe_state_draws E = (dk_desktop_id d, dk_signing_key d, dk_selection_key d)" "length (dk_desktop_id d) = 16"
      "\<not> same_key L (dk_signing_key d) (dk_selection_key d)" "state_session L d lbl 0 (pe_nonce E) = Inr s"
      "utf8_valid lbl" "length lbl \<le> 64" "length (pe_nonce E) = 32" "pe_clock E = uint t0"
    and route: "discover_pairing_wifi E (dk_desktop_id d) transport adb w = (w0, Inr hint)"
      "resolve_transport False transport PairingOperation \<lparr> hint_adb_serial = adb, hint_wifi_address = hint \<rparr> = Inr route"
      "exchange_pairing_route L E route (session_signed_offer L s) w0 = (w1, Inr (signed_pairing_response_encode L m))"
    and phone: "wf_pairing_response q" "pr_offer_digest q = offer_digest L (ps_offer s)" "recipient_parse L (pr_recipient q) = Inr r"
      "{recipient_public_key_bytes L r, pr_phone_signing_public_key q} \<inter>
        {po_desktop_signing_public_key (payload (ps_offer s)), po_desktop_selection_public_key (payload (ps_offer s))} = {}"
      "pairing_response_sign L q (signing_key_signer L phone) = Inr m"
    and stub: "stub = stub_from_response L s m (pairing_fingerprint L (ps_offer s) m)"
    and user: "pe_elapsed E w1 = (w2, t1)" "pe_write E (fingerprint_prompt (hex (sb_transcript_fingerprint stub))) w2 = (w3, Inr ())"
      "pe_read_line E w3 = (w4, Inr line)" "trim line = hex (sb_transcript_fingerprint stub)" "pe_elapsed E w4 = (w5, t2)"
      "unat t1 \<le> 300000" "unat t2 \<le> 300000"
    and disk: "pe_config_root E = Inr root" "pairing_ready root desktop out replay (pairing_locator_path root stub) f"
      "absolute_existing (pe_current_dir E) (pe_canonicalize E) desktop = Inr x"
      "absolute_existing (pe_current_dir E) (pe_canonicalize E) replay = Inr y"
      "path_of x = path_of desktop" "path_of y = path_of replay"
      "locator_path_ok x" "locator_path_ok y" "length x \<le> 1900" "length y \<le> 1900"
  shows "\<exists>t w' l body. run_pair L K E lbl desktop out replay transport adb rt (f, w) = ((t, w'), Inr ()) \<and>
    paired_disk L K root stub l d (state_new (scope_for_pairing DesktopResponses (stub_pairing stub)) t0) (t\<lparr> faults := [] \<rparr>) \<and>
    stub_ok L stub \<and> desktop_matches L stub d = Inr () \<and>
    path_of (pl_desktop_state l) = path_of desktop \<and> path_of (pl_replay_state l) = path_of replay \<and> pl_transport l = transport \<and>
    identity_file_for L stub rt = Inr body \<and> nodes t (path_of out) = Some (Regular (str_bytes body) (pe_stub_mode E) 0) \<and>
    plain_place (path_of replay) t"
proof -
  note b = session_begin_ok [OF laws(3) cmd(4) [unfolded state_session_begin]]
  have wo: "wf_offer (payload (ps_offer s))"
    by (rule session_begin_wf [OF laws(3) cmd(2,5,6,7) cmd(4) [unfolded state_session_begin]])
  have z: "unat (0 :: u64) \<le> unat t1" "unat t1 \<le> unat (0 :: u64) + 300000" "unat (0 :: u64) \<le> unat t2" "unat t2 \<le> unat (0 :: u64) + 300000"
    using user(6,7) by simp_all
  from state_session_completes [OF laws cmd(4) wo phone z] obtain shown s1 where
    c: "receive_pairing_response L (signed_pairing_response_encode L m) t1 s = (s1, Inr shown)"
    "confirm L (pd_transcript_fingerprint shown) t2 s1 = (closed s, Inr stub)"
    "stub_decode L (stub_encode L stub) = Inr stub" "desktop_matches L stub d = Inr ()"
    unfolding Let_def stub [symmetric] by blast
  have ok: "stub_ok L stub" using stub_decode_sound [OF c(3)] by simp
  have sh: "pd_transcript_fingerprint shown = hex (sb_transcript_fingerprint stub)"
    using c(1,2) by (auto simp: receive_ok confirm_ok stub_from_response_def)
  have x: "complete_pairing_interaction L E (signed_pairing_response_encode L m) (\<lambda>_. retS ()) s (c, w1) = ((c, w5), Inr stub)" for c :: fs
    by (rule complete_pairing_run [OF c(1,2) user(1)]) (use user sh in simp_all)
  let ?g = "f\<lparr> nodes := (nodes f)(path_of desktop \<mapsto> Regular (encode_key_state K d) PRIVATE_MODE 0, path_of root \<mapsto> Dir 448) \<rparr>"
  let ?loc = "path_of (pairing_locator_path root stub)" and ?p = "path_of replay"
  note r = pairing_readyD [OF disk(2)]
  note gr = pairing_ready_after [OF disk(2) refl, of "encode_key_state K d"]
  have sel: "sb_desktop_selection_public_key stub = pk_compressed (ec L) (sk_public (ec L) (dk_selection_key d))"
    using c(4) by (simp add: desktop_matches_ok [OF laws(3)])
  have now: "now_unix (pe_clock E) = Inr t0" by (simp add: cmd(8))
  have len: "length x + length y \<le> 3900" using disk(9,10) by simp
  obtain t where t: "commit_pairing_state L E root stub desktop out replay True transport rt ?g = (t, Inr ())"
    "\<forall>q \<in> temps ?p. sibling_path ?p ''.lock'' \<noteq> Inr q \<longrightarrow> nodes t q = None"
    using commit_pairing_run [OF laws(1,2,3) ok sel now gr(4) r(2) gr(5,2,6,7) r(15,16,9,10,13) disk(3,4,7,8) len,
      where created = True and transport = transport and rt = rt] by blast
  obtain body where body: "identity_file_for L stub rt = Inr body" using identity_file_total [OF laws(2,3) ok sel] by blast
  then obtain rc where rc: "recipient_for L stub rt = Inr rc" by (auto simp: identity_file_for_def result_iff)
  obtain w' where run: "run_pair L K E lbl desktop out replay transport adb rt (f, w) = ((t, w'), Inr ())"
    using run_pair_run [OF laws(3) cmd(6) cmd(1,3,4) route x disk(1,2) refl t(1) rc] by blast
  have pl: "plain_path E desktop" "plain_path E replay" using disk by (auto simp: plain_path_def locator_path_ok_def)
  have pp: "plain_place ?p t" by (rule free_plain_place [OF gr(2) commit_pairing_grown [OF t(1)] t(2)])
  have "wf_stub stub" using ok by (simp add: stub_ok_def)
  from commit_pairing_paired [OF laws(1) this t(1) gr(3) pl pp] now run ok c(4) pp show ?thesis by auto
qed


text \<open>C2: Pairing, then decrypting: the command \<open>pair\<close>, on a disk without the files it makes and with a phone
  whose signed answer arrives and whose fingerprint the user types, succeeds; and what it leaves is
  what the age plugins need: on the disk it made, a file key that the recipient plugin wraps for the
  new stub comes back from the identity plugin, through the phone, whenever that is asked in time.\<close>

theorem pair_then_decrypt:
  fixes now t0 ta tb t1 t2 :: u64 and prep :: "('v, 'r) prepare_step"
  assumes "cbor_sized (minicbor L)" "base64_engine (std64 L)" "bech32_codec (bech L)" "p256_laws (ec L)" "symmetric_laws (sym L)"
      "ecdsa_laws (ec L) (sym L)" "key_bytes_laws K" "\<forall>k x. \<exists>y. ecdsa_sign_prehash (ec L) k x = Some y"
    and "pe_state_draws E = (dk_desktop_id d, dk_signing_key d, dk_selection_key d)" "length (dk_desktop_id d) = 16"
      "\<not> same_key L (dk_signing_key d) (dk_selection_key d)" "state_session L d lbl 0 (pe_nonce E) = Inr s"
      "utf8_valid lbl" "length lbl \<le> 64" "length (pe_nonce E) = 32" "pe_clock E = uint t0"
    and "discover_pairing_wifi E (dk_desktop_id d) transport adb w = (w0, Inr hint)"
      "resolve_transport False transport PairingOperation \<lparr> hint_adb_serial = adb, hint_wifi_address = hint \<rparr> = Inr route"
      "exchange_pairing_route L E route (session_signed_offer L s) w0 = (w1, Inr (signed_pairing_response_encode L m))"
    and "wf_pairing_response q" "pr_offer_digest q = offer_digest L (ps_offer s)"
      "recipient_parse L (pr_recipient q) = Inr (Recipient (sk_public (ec L) identity))"
      "{recipient_public_key_bytes L (Recipient (sk_public (ec L) identity)), pr_phone_signing_public_key q} \<inter>
        {po_desktop_signing_public_key (payload (ps_offer s)), po_desktop_selection_public_key (payload (ps_offer s))} = {}"
      "pairing_response_sign L q (signing_key_signer L phone) = Inr m"
    and "stub = stub_from_response L s m (pairing_fingerprint L (ps_offer s) m)"
    and "pe_elapsed E w1 = (w2, ta)" "pe_write E (fingerprint_prompt (hex (sb_transcript_fingerprint stub))) w2 = (w3, Inr ())"
      "pe_read_line E w3 = (w4, Inr line)" "trim line = hex (sb_transcript_fingerprint stub)" "pe_elapsed E w4 = (w5, tb)"
      "unat ta \<le> 300000" "unat tb \<le> 300000"
    and "pe_config_root E = Inr root" "pairing_ready root desktop out replay (pairing_locator_path root stub) f"
      "absolute_existing (pe_current_dir E) (pe_canonicalize E) desktop = Inr x"
      "absolute_existing (pe_current_dir E) (pe_canonicalize E) replay = Inr y"
      "path_of x = path_of desktop" "path_of y = path_of replay"
      "locator_path_ok x" "locator_path_ok y" "length x \<le> 1900" "length y \<le> 1900"
    and "length fk = 16" "length (fd_request_id (draws 0)) = 16" "length (fd_nonce (draws 0)) = 32" "length nonce = 32"
      "fd_begin_clock (draws 0) = uint now" "fd_receive_clock (draws 0) = uint t2"
      "unat now + 300 < 2 ^ 63" "unat now \<le> unat t1" "unat t1 \<le> unat now + 300" "unat now \<le> unat t2" "unat t2 \<le> unat now + 300"
      "unat t0 \<le> unat t2"
    and "ro_request R (sb_desktop_id stub) (sb_identity_id stub) (fd_request_id (draws 0)) (fd_nonce (draws 0)) (now + 300) t1 v =
      (v', Inr ())"
    and "\<forall>l. prep stub l v = (v, Inr r)"
  shows "\<exists>t w' plugin as u. run_pair L K E lbl desktop out replay transport adb rt (f, w) = ((t, w'), Inr ()) \<and>
    recipient_add_identity L i PLUGIN_NAME (stub_encode L stub) \<lparr> rp_recipients = [] \<rparr> = (plugin, Inr ()) \<and>
    identity_add_identity L i PLUGIN_NAME (stub_encode L stub) \<lparr> ip_identities = [], ip_config_root = cr \<rparr> =
      (\<lparr> ip_identities = [(i, stub)], ip_config_root = cr \<rparr>, Inr ()) \<and>
    wrap_file_keys L ephemerals [fk] plugin = Inr [as] \<and>
    unwrap_with_prepared_exchange L K [(i, stub)] (Inr root) prep
      (phone_exchange L R (stub_pairing stub) identity phone (e, nonce) t1 :: ('v, 'r, 'io) exchange_step) draws [as]
      (t\<lparr> faults := [] \<rparr>, v) = (u, Inr [0 \<mapsto> Inr fk])"
proof -
  obtain t w' l where c: "run_pair L K E lbl desktop out replay transport adb rt (f, w) = ((t, w'), Inr ())"
    "paired_disk L K root stub l d (state_new (scope_for_pairing DesktopResponses (stub_pairing stub)) t0) (t\<lparr> faults := [] \<rparr>)"
    "stub_ok L stub" "desktop_matches L stub d = Inr ()"
    using pair_completes [where K = K and rt = rt, OF assms(1,3-6) assms(9-42)] by blast
  have ph: "sb_phone_signing_public_key stub = pk_compressed (ec L) (sk_public (ec L) phone)"
    and rc: "recipient_parse L (sb_recipient stub) = Inr (Recipient (sk_public (ec L) identity))"
    using assms(22,24,25) by (auto simp: pairing_response_sign_def result_iff stub_from_response_def software_signer.public_key [OF assms(4)])
  have pr: "prep stub l v = (v, Inr r)" using assms(56) by blast
  from age_roundtrip [where prep = prep and draws = draws, OF assms(1-7) c(3,4) ph rc assms(43) c(2) assms(44-54,8,55) pr]
  obtain plugin as u where "recipient_add_identity L i PLUGIN_NAME (stub_encode L stub) \<lparr> rp_recipients = [] \<rparr> = (plugin, Inr ())"
    "identity_add_identity L i PLUGIN_NAME (stub_encode L stub) \<lparr> ip_identities = [], ip_config_root = cr \<rparr> =
      (\<lparr> ip_identities = [(i, stub)], ip_config_root = cr \<rparr>, Inr ())"
    "wrap_file_keys L ephemerals [fk] plugin = Inr [as]"
    "unwrap_with_prepared_exchange L K [(i, stub)] (Inr root) prep
      (phone_exchange L R (stub_pairing stub) identity phone (e, nonce) t1 :: ('v, 'r, 'io) exchange_step) draws [as]
      (t\<lparr> faults := [] \<rparr>, v) = (u, Inr [0 \<mapsto> Inr fk])" by blast
  with c(1) show ?thesis by blast
qed


lemma hex_graphic: "graphic (hex b)"
proof (induction b)
  case (Cons w b)
  have d: "33 \<le> (of_char (hex_digit n) :: nat) \<and> (of_char (hex_digit n) :: nat) \<le> 126" if "n < 16" for n
    using that by (auto simp: hex_digit_def of_char_of)
  have "unat w div 16 < 16" using unat_byte_less [of w] by linarith
  with d [of "unat w div 16"] d [of "unat w mod 16"] Cons show ?case by (simp add: graphic_def hex_byte_def)
qed (simp add: graphic_def)

text \<open>A pairing by QR codes on a disk that holds two directories.\<close>

definition sample_pair_env :: "bytes \<Rightarrow> string \<Rightarrow> (unit, byte) pair_env" where
  "sample_pair_env response line = \<lparr> pe_exchange = sample_env, pe_discover = (\<lambda>_ w. (w, Inl DiscoveryUnavailable)),
     pe_elapsed = (\<lambda>w. (w, 100)), pe_write = (\<lambda>_ w. (w, Inr ())), pe_read_line = (\<lambda>w. (w, Inr line)),
     pe_try_result = (\<lambda>w. (w, Inr (Some response))), pe_print = (\<lambda>_ w. w), pe_clock = uint (900 :: u64),
     pe_config_root = Inr sample_root, pe_current_dir = None, pe_canonicalize = Some,
     pe_state_draws = (replicate 16 1, 21, 22), pe_nonce = replicate 32 4, pe_stub_mode = 420, pe_passes = 1 \<rparr>"

definition sample_start :: fs where
  "sample_start = \<lparr> nodes = [sample_dir \<mapsto> Dir 448, \<lparr> absolute = True, comps = [''c''] \<rparr> \<mapsto> Dir 448],
     locks = {}, faults = [], pid = 7, temp_counter = 0 \<rparr>"

lemma sample_start_ready:
  "pairing_ready sample_root ''/state/desktop'' ''/state/id'' ''/state/replay'' (pairing_locator_path sample_root stub) sample_start"
proof -
  have p: "path_of ''/state/id'' = \<lparr> absolute = True, comps = [''state'', ''id''] \<rparr>"
    by (simp add: path_of_def path_is_absolute_def starts_with_def)
  have sb: "sibling_path sample_path x = Inr \<lparr> absolute = True, comps = [''state'', ''replay'' @ x] \<rparr>" for x
    unfolding sample_sibling by (simp add: sample_path_def)
  have t: "temps sample_path = {q. \<exists>x. x \<noteq> [] \<and> q = \<lparr> absolute = True, comps = [''state'', ''replay'' @ x] \<rparr>}"
    unfolding temps_def sb by auto
  have f: "free_place sample_path sample_start"
    unfolding free_place_def
    by (simp add: sb t) (simp add: sample_start_def sample_path_def sample_dir_def parent_def)
  show ?thesis using f
    by (simp add: pairing_ready_def sample_os_paths sample_locator_file p t)
      (simp add: sample_start_def sample_path_def sample_dir_def)
qed


definition sample_qr_route :: transport_route where
  "sample_qr_route = \<lparr> route_kind = QrKind, route_adb_serial = None, route_wifi_address = None \<rparr>"

lemma sample_qr_resolved:
  "resolve_transport False QrChoice operation \<lparr> hint_adb_serial = None, hint_wifi_address = None \<rparr> = Inr sample_qr_route"
  by (simp add: resolve_transport_iff route_ok_def asks_for_def sample_qr_route_def)

lemma sample_pair_env_simps:
  "pe_state_draws (sample_pair_env response line) = (dk_desktop_id sample_desktop, dk_signing_key sample_desktop, dk_selection_key sample_desktop)"
  "pe_nonce (sample_pair_env response line) = replicate 32 4" "pe_clock (sample_pair_env response line) = uint (900 :: u64)"
  "pe_elapsed (sample_pair_env response line) w = (w, 100)" "pe_write (sample_pair_env response line) out w = (w, Inr ())"
  "pe_read_line (sample_pair_env response line) w = (w, Inr line)" "pe_config_root (sample_pair_env response line) = Inr sample_root"
  "pe_passes (sample_pair_env response line) = Suc 0" "pe_try_result (sample_pair_env response line) w = (w, Inr (Some response))"
  "length (xe_transfer_id (pe_exchange (sample_pair_env response line)) w) = 16"
  "absolute_existing (pe_current_dir (sample_pair_env response line)) (pe_canonicalize (sample_pair_env response line)) ''/state/desktop'' =
     Inr ''/state/desktop''"
  "absolute_existing (pe_current_dir (sample_pair_env response line)) (pe_canonicalize (sample_pair_env response line)) ''/state/replay'' =
     Inr ''/state/replay''"
  "discover_pairing_wifi (sample_pair_env response line) i QrChoice None w = (w, Inr None)"
  by (simp_all add: sample_pair_env_def sample_desktop_def sample_env_def absolute_existing_def path_is_absolute_def starts_with_def
      discover_pairing_wifi_def)

lemma sample_desktop_distinct:
  "length (dk_desktop_id sample_desktop) = 16" "\<not> same_key ref_lib (dk_signing_key sample_desktop) (dk_selection_key sample_desktop)"
  by (simp_all add: sample_desktop_def same_key_def toy_p256_def)

lemma sample_texts:
  "utf8_valid ''desk''" "length ''desk'' \<le> 64" "length (replicate 32 (4 :: byte)) = 32"
  "locator_path_ok ''/state/desktop''" "locator_path_ok ''/state/replay''" "length ''/state/desktop'' \<le> 1900" "length ''/state/replay'' \<le> 1900"
  by (simp_all add: locator_path_ok_def path_is_absolute_def starts_with_def ascii_utf8_valid is_ascii_def)

lemma sample_qr_exchange:
  assumes s: "state_session ref_lib sample_desktop ''desk'' 0 (replicate 32 4) = Inr s"
  shows "exchange_pairing_route ref_lib (sample_pair_env response line) sample_qr_route (session_signed_offer ref_lib s) w = (w, Inr response)"
proof -
  note b = s [unfolded state_session_begin]
  have "wf_offer (payload (ps_offer s))"
    by (rule session_begin_wf [OF ref_laws(5) sample_desktop_distinct(1) sample_texts(1-3) b])
  moreover have "length (signature (ps_offer s)) = 64"
    by (rule software_signer.offer_sign_verifies(3) [OF ref_laws(5,6) session_begin_ok(3) [OF ref_laws(5) b]])
  ultimately have "fragmentable (signed_offer_encode ref_lib (ps_offer s)) 120" by (rule offer_fragmentable [OF ref_laws(3)])
  from exchange_pairing_qr_run [OF ref_laws(3,8,7) this sample_pair_env_simps(10,8,9)]
  show ?thesis by (simp add: exchange_pairing_route_def sample_qr_route_def session_signed_offer_def)
qed


lemma sample_times: "unat (100 :: u64) \<le> 300000"
  by simp

theorem pair_then_decrypt_witness:
  "\<exists>response line stub t w' as u.
    run_pair ref_lib byte_keys (sample_pair_env response line) ''desk'' ''/state/desktop'' ''/state/id'' ''/state/replay'' QrChoice None
      PhoneType (sample_start, ()) = ((t, w'), Inr ()) \<and>
    unwrap_with_prepared_exchange ref_lib byte_keys [(0, stub)] (Inr sample_root) no_route
      (phone_exchange ref_lib guard_ops (stub_pairing stub) 5 31 (12, replicate 32 9) 950 :: (replay_guard, unit, unit) exchange_step)
      sample_draws [as] (t\<lparr> faults := [] \<rparr>, no_replays) = (u, Inr [0 \<mapsto> Inr (replicate 16 1)])"
proof -
  obtain s where s: "state_session ref_lib sample_desktop ''desk'' 0 (replicate 32 4) = Inr s" "payload (ps_offer s) = sample_offer"
    by (rule sample_session)
  obtain q m where q: "wf_pairing_response q" "pr_offer_digest q = offer_digest ref_lib (ps_offer s)"
    "recipient_parse ref_lib (pr_recipient q) = Inr (Recipient 5)"
    "{recipient_public_key_bytes ref_lib (Recipient 5), pr_phone_signing_public_key q} \<inter>
      {po_desktop_signing_public_key (payload (ps_offer s)), po_desktop_selection_public_key (payload (ps_offer s))} = {}"
    "pairing_response_sign ref_lib q (signing_key_signer ref_lib 31) = Inr m"
    by (rule sample_answer [OF s(2)])
  have r5: "Recipient 5 = Recipient (sk_public (ec ref_lib) 5)" by (simp add: toy_p256_def)
  define stub where "stub = stub_from_response ref_lib s m (pairing_fingerprint ref_lib (ps_offer s) m)"
  let ?fp = "hex (sb_transcript_fingerprint stub)" and ?R = "signed_pairing_response_encode ref_lib m"
  have t: "trim ?fp = ?fp" by (rule trim_graphic [OF hex_graphic])
  obtain g where g: "ro_request guard_ops (sb_desktop_id stub) (sb_identity_id stub) (fd_request_id (sample_draws 0))
      (fd_nonce (sample_draws 0)) (900 + 300) 950 no_replays = (g, Inr ())" by (rule sample_fresh_phone)
  have prep: "\<forall>l. no_route stub l no_replays = (no_replays, Inr ())" by (simp add: no_route_def)
  note E = sample_pair_env_simps [where response = ?R and line = ?fp]
  have n: "length (pe_nonce (sample_pair_env ?R ?fp)) = 32" unfolding E(2) by simp
  have "\<exists>t w' plugin as u. run_pair ref_lib byte_keys (sample_pair_env ?R ?fp) ''desk'' ''/state/desktop'' ''/state/id'' ''/state/replay''
      QrChoice None PhoneType (sample_start, ()) = ((t, w'), Inr ()) \<and>
    recipient_add_identity ref_lib 0 PLUGIN_NAME (stub_encode ref_lib stub) \<lparr> rp_recipients = [] \<rparr> = (plugin, Inr ()) \<and>
    identity_add_identity ref_lib 0 PLUGIN_NAME (stub_encode ref_lib stub) \<lparr> ip_identities = [], ip_config_root = None \<rparr> =
      (\<lparr> ip_identities = [(0, stub)], ip_config_root = None \<rparr>, Inr ()) \<and>
    wrap_file_keys ref_lib (\<lambda>_ _. 3) [replicate 16 1] plugin = Inr [as] \<and>
    unwrap_with_prepared_exchange ref_lib byte_keys [(0, stub)] (Inr sample_root) no_route
      (phone_exchange ref_lib guard_ops (stub_pairing stub) 5 31 (12, replicate 32 9) 950 :: (replay_guard, unit, unit) exchange_step)
      sample_draws [as] (t\<lparr> faults := [] \<rparr>, no_replays) = (u, Inr [0 \<mapsto> Inr (replicate 16 1)])"
    by (rule pair_then_decrypt [where draws = sample_draws and prep = no_route and R = guard_ops and v = no_replays, OF ref_laws(3,1,2,5,7,6) sample_run_inputs(1,8)
        E(1) sample_desktop_distinct s(1) [folded E(2)] sample_texts(1,2) n E(3) E(13) sample_qr_resolved sample_qr_exchange [OF s(1)]
        q(1,2) q(3,4) [unfolded r5] q(5) stub_def E(4-6) t E(4) sample_times sample_times E(7) sample_start_ready E(11,12) refl refl
        sample_texts(4-7) sample_run_inputs(2-7) sample_run_times g prep])
  then show ?thesis by blast
qed

subsection \<open>What a pairing leaves\<close>

text \<open>C3: The command \<open>pair\<close>, whatever faults its disk has and whatever the phone, the transport and the user
  do, succeeds only with the disk of a paired desktop: the locator, the desktop state and a fresh
  replay state that belong together, and the public stub, of an answer that verifies against this
  run's own offer and whose fingerprint was shown to the user and typed back.\<close>

theorem pair_command_pairs:
  assumes "cbor_sized (minicbor L)" "p256_laws (ec L)" "symmetric_laws (sym L)" "key_bytes_laws K"
    and "run_pair L K E lbl desktop out replay transport adb rt (f, w) = ((t, w'), Inr u)"
    and "utf8_valid lbl" "length (pe_nonce E) = 32"
    and "own_state K (pe_state_draws E) (path_of desktop) f"
    and "plain_path E desktop" "plain_path E replay" "plain_place (path_of replay) t"
  shows "\<exists>root stub l d now body. pe_config_root E = Inr root \<and>
    paired_disk L K root stub l d (state_new (scope_for_pairing DesktopResponses (stub_pairing stub)) now) (t\<lparr> faults := [] \<rparr>) \<and>
    path_of (pl_desktop_state l) = path_of desktop \<and> path_of (pl_replay_state l) = path_of replay \<and> pl_transport l = transport \<and>
    now_unix (pe_clock E) = Inr now \<and> identity_file_for L stub rt = Inr body \<and>
    nodes t (path_of out) = Some (Regular (str_bytes body) (pe_stub_mode E) 0) \<and>
    stub_ok L stub \<and> desktop_matches L stub d = Inr () \<and>
    (\<exists>w0 w1 w2 line. pe_write E (fingerprint_prompt (hex (sb_transcript_fingerprint stub))) w0 = (w1, Inr ()) \<and>
       pe_read_line E w1 = (w2, Inr line) \<and> trim line = hex (sb_transcript_fingerprint stub)) \<and>
    (\<exists>s response t1 m. state_session L d lbl 0 (pe_nonce E) = Inr s \<and> accepted_response L s response t1 m \<and>
       stub = stub_from_response L s m (pairing_fingerprint L (ps_offer s) m))"
  by (rule pair_paired [OF assms])

lemma sample_pair_run:
  obtains response line t w' stub l body where
    "run_pair ref_lib byte_keys (sample_pair_env response line) ''desk'' ''/state/desktop'' ''/state/id'' ''/state/replay'' QrChoice None
      PhoneType (sample_start, ()) = ((t, w'), Inr ())" "plain_place (path_of ''/state/replay'') t"
    "paired_disk ref_lib byte_keys sample_root stub l sample_desktop
      (state_new (scope_for_pairing DesktopResponses (stub_pairing stub)) (900 :: u64)) (t\<lparr> faults := [] \<rparr>)"
    "stub_ok ref_lib stub" "desktop_matches ref_lib stub sample_desktop = Inr ()"
    "sb_phone_signing_public_key stub = pk_compressed (ec ref_lib) (sk_public (ec ref_lib) 31)"
    "path_of (pl_desktop_state l) = path_of ''/state/desktop''" "path_of (pl_replay_state l) = path_of ''/state/replay''"
    "identity_file_for ref_lib stub PhoneType = Inr body" "nodes t (path_of ''/state/id'') = Some (Regular (str_bytes body) 420 0)"
proof -
  obtain s where s: "state_session ref_lib sample_desktop ''desk'' 0 (replicate 32 4) = Inr s" "payload (ps_offer s) = sample_offer"
    by (rule sample_session)
  obtain q m where q: "wf_pairing_response q" "pr_offer_digest q = offer_digest ref_lib (ps_offer s)"
    "recipient_parse ref_lib (pr_recipient q) = Inr (Recipient 5)"
    "{recipient_public_key_bytes ref_lib (Recipient 5), pr_phone_signing_public_key q} \<inter>
      {po_desktop_signing_public_key (payload (ps_offer s)), po_desktop_selection_public_key (payload (ps_offer s))} = {}"
    "pairing_response_sign ref_lib q (signing_key_signer ref_lib 31) = Inr m"
    by (rule sample_answer [OF s(2)])
  define stub where "stub = stub_from_response ref_lib s m (pairing_fingerprint ref_lib (ps_offer s) m)"
  let ?fp = "hex (sb_transcript_fingerprint stub)" and ?R = "signed_pairing_response_encode ref_lib m"
  have t: "trim ?fp = ?fp" by (rule trim_graphic [OF hex_graphic])
  note E = sample_pair_env_simps [where response = ?R and line = ?fp]
  have n: "length (pe_nonce (sample_pair_env ?R ?fp)) = 32" unfolding E(2) by simp
  have ph: "sb_phone_signing_public_key stub = pk_compressed (ec ref_lib) (sk_public (ec ref_lib) 31)"
    using q(5) unfolding stub_def
    by (auto simp: pairing_response_sign_def result_iff stub_from_response_def software_signer.public_key [OF ref_laws(5)])
  have md: "pe_stub_mode (sample_pair_env ?R ?fp) = 420" by (simp add: sample_pair_env_def)
  from pair_completes [where K = byte_keys and rt = PhoneType, OF ref_laws(3,2,5,7,6) E(1) sample_desktop_distinct s(1) [folded E(2)]
      sample_texts(1,2) n E(3) E(13) sample_qr_resolved sample_qr_exchange [OF s(1)] q stub_def E(4-6) t E(4) sample_times
      sample_times E(7) sample_start_ready E(11,12) refl refl sample_texts(4-7)] ph that
  show thesis unfolding md by blast
qed

theorem pair_command_pairs_witness:
  "\<exists>response line t w' stub l d now. run_pair ref_lib byte_keys (sample_pair_env response line) ''desk'' ''/state/desktop'' ''/state/id''
      ''/state/replay'' QrChoice None PhoneType (sample_start, ()) = ((t, w'), Inr ()) \<and>
    paired_disk ref_lib byte_keys sample_root stub l d (state_new (scope_for_pairing DesktopResponses (stub_pairing stub)) now)
      (t\<lparr> faults := [] \<rparr>)"
proof -
  obtain response line t w' stub l body where r:
    "run_pair ref_lib byte_keys (sample_pair_env response line) ''desk'' ''/state/desktop'' ''/state/id'' ''/state/replay'' QrChoice None
      PhoneType (sample_start, ()) = ((t, w'), Inr ())" "plain_place (path_of ''/state/replay'') t"
    by (rule sample_pair_run)
  note E = sample_pair_env_simps [where response = response and line = line]
  have own: "own_state byte_keys (pe_state_draws (sample_pair_env response line)) (path_of ''/state/desktop'') sample_start"
    using pairing_readyD(5) [OF sample_start_ready] by (simp add: own_state_def E(1) sample_desktop_distinct)
  have pp: "plain_path (sample_pair_env response line) ''/state/desktop''" "plain_path (sample_pair_env response line) ''/state/replay''"
    using sample_texts(4-7) by (simp_all add: plain_path_def E(11,12) locator_path_ok_def)
  have n: "length (pe_nonce (sample_pair_env response line)) = 32" unfolding E(2) by simp
  from pair_command_pairs [OF ref_laws(3,5,7) sample_run_inputs(1) r(1) sample_texts(1) n own pp r(2)] r(1)
  show ?thesis unfolding E(7) by blast
qed





subsection \<open>What an unwrap spends\<close>

text \<open>C5: The command \<open>unwrap\<close>, whatever faults its disk has and whatever arrives, ends with success only for
  a response to this run's own request: the stub and the desktop state were read and belong together,
  the request asks for exactly the stanza of the command line, one response came back, signed by the
  phone of the stub for the digest of this request and in time, and its digest, which the replay file
  did not hold, is held by the replay file that is on disk now.\<close>

theorem unwrap_command_spends:
  assumes "p256_laws (ec L)"
    and "run_unwrap L K U identity_stub desktop replay arg body hint transport adb addr (f, w) = ((t, w'), Inr u)"
  shows "\<exists>f1 f2 stub d b now us response route w0 w1 received.
    read_identity_stub_file L (path_of identity_stub) f = (f1, Inr stub) \<and> key_state_open L K (path_of desktop) f1 = (f2, Inr d) \<and>
    desktop_matches L stub d = Inr () \<and> b64_decode (std64 L) (trim body) = Some b \<and>
    unwrap_begin L stub d (command_stanza arg b) hint now (ue_draws U) = Inr us \<and>
    rq_recipient_stanza (vr_payload (us_request us)) = command_stanza arg b \<and>
    exchange_unwrap_route L U route (unwrap_signed_request L us) (unwrap_display_of us) w0 = (w1, Inr response) \<and>
    unwrap_ended L stub replay (us_request us) response received f t"
  by (rule run_unwrap_once [OF assms])

definition sample_unwrap_env :: "bytes \<Rightarrow> (unit, byte) unwrap_env" where
  "sample_unwrap_env response = \<lparr> ue_pair = sample_pair_env response [], ue_discover = (\<lambda>_ w. (w, Inl DiscoveryUnavailable)),
     ue_clock = (\<lambda>w. (w, uint (900 :: u64))), ue_draws = (11, replicate 16 3, replicate 32 5) \<rparr>"

lemma sample_unwrap_env_simps:
  "ue_pair (sample_unwrap_env response) = sample_pair_env response []" "ue_clock (sample_unwrap_env response) w = (w, uint (900 :: u64))"
  "ue_draws (sample_unwrap_env response) = (11, replicate 16 3, replicate 32 5)"
  "discover_unwrap_wifi (sample_unwrap_env response) stub QrChoice None None w = (w, Inr None)"
  by (simp_all add: sample_unwrap_env_def discover_unwrap_wifi_def)

lemma b64_standard_graphic: "graphic (b64_encode standard_no_pad b)"
proof -
  have c: "33 \<le> (of_char (b64_char CHR ''+'' CHR ''/'' n) :: nat) \<and> (of_char (b64_char CHR ''+'' CHR ''/'' n) :: nat) \<le> 126" if "n < 64" for n
    using that by (auto simp: b64_char_def of_char_of)
  have less: "v < 64" if "v \<in> set (sextets (map unat b))" for v using sextets_less [of "map unat b"] that by auto
  show ?thesis using c less by (simp add: graphic_def standard_no_pad_def base64_nopad_def list_all_iff)
qed

lemma sample_unwrap_run:
  obtains response f arg body t w' where
    "run_unwrap ref_lib byte_keys (sample_unwrap_env response) ''/state/id'' ''/state/desktop'' ''/state/replay'' arg body None QrChoice None None
      (f, ()) = ((t, w'), Inr ())"
proof -
  obtain resp line t w' stub l stubtext where r:
    "run_pair ref_lib byte_keys (sample_pair_env resp line) ''desk'' ''/state/desktop'' ''/state/id'' ''/state/replay'' QrChoice None
      PhoneType (sample_start, ()) = ((t, w'), Inr ())" "plain_place (path_of ''/state/replay'') t" and
    st: "paired_disk ref_lib byte_keys sample_root stub l sample_desktop
      (state_new (scope_for_pairing DesktopResponses (stub_pairing stub)) (900 :: u64)) (t\<lparr> faults := [] \<rparr>)"
    "stub_ok ref_lib stub" "desktop_matches ref_lib stub sample_desktop = Inr ()"
    "sb_phone_signing_public_key stub = pk_compressed (ec ref_lib) (sk_public (ec ref_lib) 31)"
    "path_of (pl_desktop_state l) = path_of ''/state/desktop''" "path_of (pl_replay_state l) = path_of ''/state/replay''"
    "identity_file_for ref_lib stub PhoneType = Inr stubtext" "nodes t (path_of ''/state/id'') = Some (Regular (str_bytes stubtext) 420 0)"
    by (rule sample_pair_run)
  let ?f = "t\<lparr> faults := [] \<rparr>"
  have n: "nodes ?f (path_of ''/state/id'') = Some (Regular (str_bytes stubtext) 420 0)" using st(8) by simp
  obtain s where s: "wrap_file_key ref_lib (Recipient (sk_public (ec ref_lib) 5)) (replicate 16 1) 3 = Inr s"
    "unwrap_file_key ref_lib 5 s = Inr (replicate 16 1)"
    using v1_wrap_unwrap [OF ref_laws(1,5,7), of "replicate 16 1" 5 3] by (auto simp: FILE_KEY_BYTES_def)
  obtain arg b where a: "s = command_stanza arg b"
    using s(1) by (auto simp: wrap_file_key_def wrap_from_shared_secret_def result_iff command_stanza_def Let_def)
  let ?body = "b64_encode (std64 ref_lib) b"
  have body: "b64_decode (std64 ref_lib) (trim ?body) = Some b"
    using trim_graphic [OF b64_standard_graphic] base64_engine.decode_encode [OF ref_laws(1)] by simp
  obtain g where g: "ro_request guard_ops (sb_desktop_id stub) (sb_identity_id stub) (fd_request_id (sample_draws 0))
      (fd_nonce (sample_draws 0)) (900 + 300) 950 no_replays = (g, Inr ())" by (rule sample_fresh_phone)
  have d: "fd_request_id (sample_draws 0) = replicate 16 3" "fd_nonce (sample_draws 0) = replicate 32 5" by (simp_all add: sample_draws_def)
  have times: "unat (900 :: u64) \<le> unat (900 :: u64)" "unat (900 :: u64) \<le> unat (900 :: u64) + 300" by simp_all
  have lens: "length (replicate 16 (3 :: byte)) = 16" "length (replicate 32 (5 :: byte)) = 32" "length (replicate 32 (9 :: byte)) = 32"
    "\<forall>x. (None :: string option) = Some x \<longrightarrow> length x \<le> 64 \<and> utf8_valid x" by simp_all
  obtain h gd us response us' u' where x:
    "unwrap_begin ref_lib stub sample_desktop s None 900 (11, replicate 16 3, replicate 32 5) = Inr us"
    "phone_answers ref_lib guard_ops (stub_pairing stub) 5 31 (12, replicate 32 9) 950 (unwrap_signed_request ref_lib us) no_replays = (g, Inr response)"
    by (rule disk_session_exchange [where sk = 11 and e = 12, OF ref_laws(3,1,5,7,6) st(2-4) s(2) st(1) lens sample_run_times(1-3) times times(1)
      sample_run_inputs(8) g [unfolded d]])
  note E = sample_unwrap_env_simps [where response = response]
  obtain m where m: "signed_request_decode ref_lib (unwrap_signed_request ref_lib us) = Inr m" using phone_answers_decodes [OF x(2)] by blast
  have qr: "exchange_unwrap_qr ref_lib (sample_unwrap_env response) (unwrap_signed_request ref_lib us) display w = (w, Inr response)" for display w
    by (rule exchange_unwrap_qr_run [OF ref_laws(3,8,7) request_fragmentable [OF ref_laws(3) m]])
      (simp_all add: E(1) sample_pair_env_simps(8-10))
  have deliver: "\<forall>us2 response2. unwrap_begin ref_lib stub sample_desktop (command_stanza arg b) None 900 (11, replicate 16 3, replicate 32 5) = Inr us2 \<and>
         phone_answers ref_lib guard_ops (stub_pairing stub) 5 31 (12, replicate 32 9) 950 (unwrap_signed_request ref_lib us2) no_replays =
           (g, Inr response2) \<longrightarrow>
         exchange_unwrap_route ref_lib (sample_unwrap_env response) sample_qr_route (unwrap_signed_request ref_lib us2) (unwrap_display_of us2) w =
           (w, Inr response2)" for w
    using x qr by (auto simp: a exchange_unwrap_route_def sample_qr_route_def)
  have wr: "\<forall>x. \<exists>w4. pe_write (ue_pair (sample_unwrap_env response)) x w = (w4, Inr ())" for w by (simp add: E(1) sample_pair_env_simps(5))
  from run_unwrap_completes [OF ref_laws(3,1,2,5,7,6) sample_run_inputs(1) st(2-4,1,5-7) n body s(2) [unfolded a] E(3) lens
      sample_run_times(1-3) times times(1) sample_run_inputs(8) g [unfolded d] E(4) sample_qr_resolved E(2) deliver E(2) wr] that
  show thesis by blast
qed

theorem unwrap_command_spends_witness:
  "\<exists>sent f arg body t w' stub v response received. run_unwrap ref_lib byte_keys (sample_unwrap_env sent) ''/state/id'' ''/state/desktop''
      ''/state/replay'' arg body None QrChoice None None (f, ()) = ((t, w'), Inr ()) \<and>
    unwrap_ended ref_lib stub ''/state/replay'' v response received f t"
proof -
  obtain sent f arg body t w' where r: "run_unwrap ref_lib byte_keys (sample_unwrap_env sent) ''/state/id'' ''/state/desktop''
      ''/state/replay'' arg body None QrChoice None None (f, ()) = ((t, w'), Inr ())" by (rule sample_unwrap_run)
  have "\<exists>stub v response received. unwrap_ended ref_lib stub ''/state/replay'' v response received f t"
    using unwrap_command_spends [OF ref_laws(5) r] by (elim exE conjE) (intro exI, assumption)
  with r show ?thesis by blast
qed

end
