(* ===== verification/Setup_Command.thy ===== *)
theory Setup_Command
  imports Cleanup_Journal Pair_Command
begin

text \<open>
  The setup of a hardware desktop as built for macOS: how \<open>setup.rs\<close> stores, commits and removes the
  ownership record of \<open>Setup_Journal\<close>, and the commands \<open>setup\<close>, \<open>setup --resume\<close>, \<open>setup --cleanup\<close> and
  \<open>pair\<close> of \<open>main.rs\<close> over it.  The platform crates (storage, keys, the replay guard and the locator over
  them) are a record of operations on a state \<open>'s\<close>, any of which may fail.
\<close>

subsection \<open>The platform\<close>

datatype native_error = NativeMissing | NativeAlreadyExists | NativeOther

record native_state =
  ns_desktop_id :: bytes
  ns_signer :: signer
  ns_signing_public :: "(unit, bytes) result"
  ns_selection_public :: "(unit, bytes) result"

text \<open>A directory handle and the lock in it are named by their paths; dropping a lock is an operation too.\<close>

record 's setup_ops =
  so_prepare_root :: "path \<Rightarrow> ('s, unit, unit) step"
  so_open_directory :: "path \<Rightarrow> ('s, unit, unit) step"
  so_lock :: "path \<Rightarrow> ('s, unit, unit) step"
  so_validate_lock :: "path \<Rightarrow> ('s, unit, unit) step"
  so_unlock :: "path \<Rightarrow> 's \<Rightarrow> 's"
  so_remove_child :: "path \<Rightarrow> ('s, native_error, unit) step"
  so_remove_temporaries :: "path \<Rightarrow> ('s, unit, unit) step"
  so_exists :: "path \<Rightarrow> 's \<Rightarrow> bool"
  so_absent :: "path \<Rightarrow> 's \<Rightarrow> bool"
  so_read_private :: "path \<Rightarrow> nat \<Rightarrow> ('s, native_error, bytes) step"
  so_atomic_create :: "path \<Rightarrow> bytes \<Rightarrow> ('s, native_error, unit) step"
  so_atomic_replace :: "path \<Rightarrow> bytes \<Rightarrow> ('s, native_error, unit) step"
  so_remove_private :: "path \<Rightarrow> ('s, native_error, unit) step"
  so_create_regular :: "path \<Rightarrow> bytes \<Rightarrow> ('s, native_error, unit) step"
  so_read_regular :: "path \<Rightarrow> nat \<Rightarrow> ('s, native_error, bytes) step"
  so_remove_regular :: "path \<Rightarrow> ('s, native_error, unit) step"
  so_key_create :: "path \<Rightarrow> bytes \<Rightarrow> ('s, unit, native_state) step"
  so_key_open :: "path \<Rightarrow> ('s, unit, native_state) step"
  so_guard_create :: "path \<Rightarrow> replay_scope \<Rightarrow> nat \<Rightarrow> u64 \<Rightarrow> ('s, unit, unit) step"
  so_guard_open :: "path \<Rightarrow> replay_scope \<Rightarrow> nat \<Rightarrow> ('s, unit, unit) step"
  so_create_locator :: "os_path \<Rightarrow> public_identity_stub \<Rightarrow> os_path \<Rightarrow> os_path \<Rightarrow> transport_choice \<Rightarrow> ('s, locator_error, unit) step"
  so_open_locator :: "os_path \<Rightarrow> public_identity_stub \<Rightarrow> ('s, locator_error, pairing_locator) step"
  so_exclusive :: "os_path \<Rightarrow> os_path \<Rightarrow> os_path \<Rightarrow> os_path \<Rightarrow> ('s, unit, unit) step"
  so_cleanup_pending :: "os_path \<Rightarrow> ('s, unit, bool) step"

subsection \<open>Storing the journal\<close>

definition MAX_JOURNAL_BYTES :: nat where "MAX_JOURNAL_BYTES = 32768"

definition ensure_no_cleanup_pending :: "'s setup_ops \<Rightarrow> os_path \<Rightarrow> ('s, setup_error, unit) step" where
  "ensure_no_cleanup_pending ops root =
     bindS (mapErrS (\<lambda>_. SetupInvalid) (so_cleanup_pending ops root)) (\<lambda>pending. failS pending SetupBusy)"

definition acquire_lifecycle_lock :: "'s setup_ops \<Rightarrow> os_path \<Rightarrow> ('s, setup_error, unit) step" where
  "acquire_lifecycle_lock ops root =
     bindS (mapErrS (\<lambda>_. SetupInvalid) (so_open_directory ops (path_of root))) (\<lambda>_.
     mapErrS (\<lambda>_. SetupBusy) (so_lock ops (path_of (cleanup_lock_path root))))"

definition create_managed_stub ::
    "('pk, 'sg, 'sk) lib \<Rightarrow> 's setup_ops \<Rightarrow> os_path \<Rightarrow> public_identity_stub \<Rightarrow> recipient_type \<Rightarrow> ('s, setup_error, unit) step" where
  "create_managed_stub L ops path stub kind =
     bindS (liftS (mapErr (\<lambda>_. SetupInvalid) (identity_file_for L stub kind))) (\<lambda>body.
     mapErrS (\<lambda>_. SetupStorage) (so_create_regular ops (path_of path) (str_bytes body)))"

definition read_managed_stub ::
    "('pk, 'sg, 'sk) lib \<Rightarrow> 's setup_ops \<Rightarrow> os_path \<Rightarrow> ('s, setup_error, public_identity_stub) step" where
  "read_managed_stub L ops path =
     bindS (mapErrS (\<lambda>_. SetupInvalid) (so_read_regular ops (path_of path) 16384)) (\<lambda>b.
     if utf8_valid (bytes_str b) then liftS (mapErr (\<lambda>_. SetupInvalid) (decode_identity_stub_text L (bytes_str b)))
     else errS SetupInvalid)"

definition setup_read :: "('pk, 'sg, 'sk) lib \<Rightarrow> 's setup_ops \<Rightarrow> os_path \<Rightarrow> ('s, setup_error, setup_journal) step" where
  "setup_read L ops root =
     bindS (mapErrS (\<lambda>e. if e = NativeMissing then SetupMissing else SetupInvalid)
       (so_read_private ops (path_of (setup_journal_path root)) MAX_JOURNAL_BYTES)) (\<lambda>b.
     bindS (liftS (setup_decode L b)) (\<lambda>value.
     bindS (liftS (setup_validate_root True root value)) (\<lambda>_.
     retS value)))"

definition setup_read_optional ::
    "('pk, 'sg, 'sk) lib \<Rightarrow> 's setup_ops \<Rightarrow> os_path \<Rightarrow> ('s, setup_error, setup_journal option) step" where
  "setup_read_optional L ops root = bindS (tryS (setup_read L ops root)) (\<lambda>r. case r of
     Inr value \<Rightarrow> retS (Some value)
   | Inl e \<Rightarrow> if e = SetupMissing then retS None else errS e)"

text \<open>A new explicit attempt claims only paths that name nothing, with the sidecars of its replay state.\<close>

fun ensure_absent :: "'s setup_ops \<Rightarrow> path list \<Rightarrow> ('s, setup_error, unit) step" where
  "ensure_absent ops [] = retS ()"
| "ensure_absent ops (p # ps) = (\<lambda>s. if so_absent ops p s then ensure_absent ops ps s else (s, Inl SetupInvalid))"

definition setup_create :: "('pk, 'sg, 'sk) lib \<Rightarrow> 's setup_ops \<Rightarrow> os_path \<Rightarrow> setup_journal \<Rightarrow> ('s, setup_error, unit) step" where
  "setup_create L ops root j =
     bindS (liftS (setup_validate_root True root j)) (\<lambda>_.
     bindS (if sj_explicit_paths j then
         bindS (ensure_absent ops (map path_of [sj_desktop_state j, sj_replay_state j, sj_identity_stub j,
           sj_replay_state j @ ''.lock'', sj_replay_state j @ ''.pending''])) (\<lambda>_.
         mapErrS (\<lambda>_. SetupInvalid)
           (so_exclusive ops root (setup_journal_path root) (sj_desktop_state j) (sj_replay_state j)))
       else retS ()) (\<lambda>_.
     bindS (liftS (setup_encode L j)) (\<lambda>b.
     mapErrS (\<lambda>e. if e = NativeAlreadyExists then SetupPendingError else SetupStorage)
       (so_atomic_create ops (path_of (setup_journal_path root)) b))))"

definition setup_replace :: "('pk, 'sg, 'sk) lib \<Rightarrow> 's setup_ops \<Rightarrow> os_path \<Rightarrow> setup_journal \<Rightarrow> ('s, setup_error, unit) step" where
  "setup_replace L ops root j =
     bindS (liftS (setup_validate_root True root j)) (\<lambda>_.
     bindS (liftS (setup_encode L j)) (\<lambda>b.
     mapErrS (\<lambda>_. SetupStorage) (so_atomic_replace ops (path_of (setup_journal_path root)) b)))"

text \<open>A file that is missing counts as removed.\<close>

definition removed :: "('s, native_error, unit) step \<Rightarrow> ('s, setup_error, unit) step" where
  "removed m = bindS (tryS m) (\<lambda>r. case r of
     Inr _ \<Rightarrow> retS () | Inl e \<Rightarrow> if e = NativeMissing then retS () else errS SetupStorage)"

definition setup_remove :: "'s setup_ops \<Rightarrow> os_path \<Rightarrow> ('s, setup_error, unit) step" where
  "setup_remove ops root = removed (so_remove_private ops (path_of (setup_journal_path root)))"

subsection \<open>The commit\<close>

definition check_native_state :: "native_state \<Rightarrow> public_identity_stub \<Rightarrow> (setup_error, unit) result" where
  "check_native_state desktop stub =
     (if ns_desktop_id desktop \<noteq> sb_desktop_id stub then Inl SetupInvalid
      else bindE (mapErr (\<lambda>_. SetupInvalid) (ns_signing_public desktop)) (\<lambda>signing.
        if signing \<noteq> sb_desktop_signing_public_key stub then Inl SetupInvalid
        else bindE (mapErr (\<lambda>_. SetupInvalid) (ns_selection_public desktop)) (\<lambda>selection.
          failIf (selection \<noteq> sb_desktop_selection_public_key stub) SetupInvalid)))"

definition commit_replay :: "'s setup_ops \<Rightarrow> path \<Rightarrow> replay_scope \<Rightarrow> u64 \<Rightarrow> ('s, setup_error, unit) step" where
  "commit_replay ops p sc now =
     bindS (tryS (so_guard_create ops p sc DEFAULT_REPLAY_CAPACITY now)) (\<lambda>r. case r of
       Inr _ \<Rightarrow> retS ()
     | Inl _ \<Rightarrow> mapErrS (\<lambda>_. SetupInvalid) (so_guard_open ops p sc DEFAULT_REPLAY_CAPACITY))"

definition commit_locator :: "'s setup_ops \<Rightarrow> os_path \<Rightarrow> public_identity_stub \<Rightarrow> setup_journal \<Rightarrow> ('s, setup_error, unit) step" where
  "commit_locator ops root stub j =
     bindS (tryS (so_create_locator ops root stub (sj_desktop_state j) (sj_replay_state j) (sj_transport j))) (\<lambda>r. case r of
       Inr _ \<Rightarrow> retS ()
     | Inl e \<Rightarrow>
         if e = LocatorAlreadyExists then
           bindS (mapErrS (\<lambda>_. SetupInvalid) (so_open_locator ops root stub)) (\<lambda>l.
           failS (\<not> path_eq (pl_desktop_state l) (sj_desktop_state j) \<or> \<not> path_eq (pl_replay_state l) (sj_replay_state j) \<or>
             pl_transport l \<noteq> sj_transport j) SetupInvalid)
         else errS SetupStorage)"

text \<open>A stub file that is there must hold this stub and, as a comment, the recipient now asked for.\<close>

definition commit_stub ::
    "('pk, 'sg, 'sk) lib \<Rightarrow> 's setup_ops \<Rightarrow> os_path \<Rightarrow> public_identity_stub \<Rightarrow> recipient_type \<Rightarrow> ('s, setup_error, unit) step" where
  "commit_stub L ops path stub kind =
     bindS (tryS (create_managed_stub L ops path stub kind)) (\<lambda>r. case r of
       Inr _ \<Rightarrow> retS ()
     | Inl _ \<Rightarrow>
         bindS (mapErrS (\<lambda>_. SetupInvalid) (read_managed_stub L ops path)) (\<lambda>existing.
         bindS (failS (existing \<noteq> stub) SetupInvalid) (\<lambda>_.
         bindS (mapErrS (\<lambda>_. SetupInvalid) (so_read_regular ops (path_of path) 16384)) (\<lambda>b.
         bindS (failS (\<not> utf8_valid (bytes_str b)) SetupInvalid) (\<lambda>_.
         bindS (liftS (mapErr (\<lambda>_. SetupInvalid) (recipient_for L stub kind))) (\<lambda>recipient.
         failS (''# recipient: '' @ recipient \<notin> set (str_lines (bytes_str b))) SetupInvalid))))))"

definition commit_files ::
    "('pk, 'sg, 'sk) lib \<Rightarrow> 's setup_ops \<Rightarrow> os_path \<Rightarrow> setup_journal \<Rightarrow> u64 \<Rightarrow> recipient_type \<Rightarrow> ('s, setup_error, unit) step" where
  "commit_files L ops root j now kind =
     bindS (liftS (setup_validate_root True root j)) (\<lambda>_.
     bindS (failS (sj_stage j \<noteq> StageConfirmed) SetupInvalid) (\<lambda>_.
     bindS (setup_read L ops root) (\<lambda>stored.
     bindS (failS (stored \<noteq> j) SetupInvalid) (\<lambda>_.
     bindS (liftS (okOr SetupInvalid (sj_candidate j))) (\<lambda>stub.
     bindS (mapErrS (\<lambda>_. SetupInvalid) (so_key_open ops (path_of (sj_desktop_state j)))) (\<lambda>desktop.
     bindS (liftS (check_native_state desktop stub)) (\<lambda>_.
     bindS (commit_replay ops (path_of (sj_replay_state j)) (scope_for_pairing DesktopResponses (stub_pairing stub)) now) (\<lambda>_.
     bindS (commit_locator ops root stub j) (\<lambda>_.
     commit_stub L ops (sj_identity_stub j) stub kind)))))))))"

definition commit_confirmed_for ::
    "('pk, 'sg, 'sk) lib \<Rightarrow> 's setup_ops \<Rightarrow> os_path \<Rightarrow> setup_journal \<Rightarrow> u64 \<Rightarrow> recipient_type \<Rightarrow> ('s, setup_error, unit) step" where
  "commit_confirmed_for L ops root j now kind = bindS (commit_files L ops root j now kind) (\<lambda>_. setup_remove ops root)"

definition commit_confirmed ::
    "('pk, 'sg, 'sk) lib \<Rightarrow> 's setup_ops \<Rightarrow> os_path \<Rightarrow> setup_journal \<Rightarrow> u64 \<Rightarrow> ('s, setup_error, unit) step" where
  "commit_confirmed L ops root j now = commit_confirmed_for L ops root j now PhoneType"

subsection \<open>The removal\<close>

text \<open>A lock is dropped on every way out.\<close>

definition dropping_lock :: "'s setup_ops \<Rightarrow> path \<Rightarrow> ('s, 'e, 'a) step \<Rightarrow> ('s, 'e, 'a) step" where
  "dropping_lock ops lock m s = (case m s of (s, r) \<Rightarrow> (so_unlock ops lock s, r))"

definition remove_owned :: "'s setup_ops \<Rightarrow> os_path \<Rightarrow> path \<Rightarrow> path \<Rightarrow> ('s, setup_error, unit) step" where
  "remove_owned ops root lock p =
     bindS (mapErrS (\<lambda>_. SetupBusy) (so_validate_lock ops lock)) (\<lambda>_.
     bindS (liftS (okOr SetupInvalid (file_name p))) (\<lambda>n.
     bindS (removed (so_remove_child ops (join_path (path_of root) n))) (\<lambda>_.
     mapErrS (\<lambda>_. SetupStorage) (so_remove_temporaries ops (join_path (path_of root) n)))))"

definition remove_owned_stub :: "'s setup_ops \<Rightarrow> os_path \<Rightarrow> path \<Rightarrow> path \<Rightarrow> ('s, setup_error, unit) step" where
  "remove_owned_stub ops root lock p =
     (if parent p = Some (path_of root) then remove_owned ops root lock p
      else bindS (mapErrS (\<lambda>_. SetupBusy) (so_validate_lock ops lock)) (\<lambda>_. removed (so_remove_regular ops p)))"

definition remove_owned_files :: "'s setup_ops \<Rightarrow> os_path \<Rightarrow> setup_journal \<Rightarrow> string \<Rightarrow> ('s, setup_error, unit) step" where
  "remove_owned_files ops root j replay_name = (let lock = path_of (sidecar root replay_name ''.lock'') in
     bindS (remove_owned ops root lock (path_of (sj_desktop_state j))) (\<lambda>_.
     bindS (remove_owned ops root lock (path_of (sj_replay_state j))) (\<lambda>_.
     bindS (remove_owned ops root lock (path_of (sidecar root replay_name ''.pending''))) (\<lambda>_.
     bindS (case sj_candidate j of
         Some stub \<Rightarrow> remove_owned ops root lock (path_of (pairing_locator_path root stub)) | None \<Rightarrow> retS ()) (\<lambda>_.
     bindS (remove_owned_stub ops root lock (path_of (sj_identity_stub j))) (\<lambda>_.
     remove_owned ops root lock lock))))))"

definition cleanup_files :: "('pk, 'sg, 'sk) lib \<Rightarrow> 's setup_ops \<Rightarrow> os_path \<Rightarrow> setup_journal \<Rightarrow> ('s, setup_error, unit) step" where
  "cleanup_files L ops root j =
     bindS (liftS (setup_validate_root True root j)) (\<lambda>_.
     bindS (setup_read L ops root) (\<lambda>stored.
     bindS (failS (stored \<noteq> j) SetupInvalid) (\<lambda>_.
     bindS (mapErrS (\<lambda>_. SetupInvalid) (so_exclusive ops root (case sj_candidate j of
         None \<Rightarrow> setup_journal_path root | Some stub \<Rightarrow> pairing_locator_path root stub)
       (sj_desktop_state j) (sj_replay_state j))) (\<lambda>_.
     bindS (mapErrS (\<lambda>_. SetupInvalid) (so_open_directory ops (path_of root))) (\<lambda>_.
     bindS (liftS (okOr SetupInvalid (file_name (path_of (sj_replay_state j))))) (\<lambda>n.
     let lock = path_of (sidecar root n ''.lock'') in
     bindS (mapErrS (\<lambda>_. SetupBusy) (so_lock ops lock)) (\<lambda>_.
     bindS (dropping_lock ops lock (remove_owned_files ops root j n)) (\<lambda>_.
     mapErrS (\<lambda>_. SetupStorage) (so_remove_temporaries ops (path_of (setup_journal_path root)))))))))))"

text \<open>The journal goes last.\<close>

definition cleanup_owned :: "('pk, 'sg, 'sk) lib \<Rightarrow> 's setup_ops \<Rightarrow> os_path \<Rightarrow> setup_journal \<Rightarrow> ('s, setup_error, unit) step" where
  "cleanup_owned L ops root j = bindS (cleanup_files L ops root j) (\<lambda>_. setup_remove ops root)"

end
