(* ===== verification/Setup_Files.thy ===== *)
theory Setup_Files
  imports Setup_Command
begin

text \<open>
  What the storage steps of a hardware setup do to the files: the contract of the platform operations
  as a locale over an observation of the files by path, the paths that a journal owns, and the effect of
  reading, replacing, committing and removing, whichever operations fail.  Replacement temporaries are
  not among the observed files.
\<close>

subsection \<open>Effects on files\<close>

definition same_but :: "('s \<Rightarrow> path \<Rightarrow> bytes option) \<Rightarrow> path set \<Rightarrow> 's \<Rightarrow> 's \<Rightarrow> bool" where
  "same_but files T s t \<longleftrightarrow> (\<forall>p. p \<notin> T \<longrightarrow> files t p = files s p)"

definition touches :: "('s \<Rightarrow> path \<Rightarrow> bytes option) \<Rightarrow> path set \<Rightarrow> ('s, 'e, 'a) step \<Rightarrow> bool" where
  "touches files T m \<longleftrightarrow> (\<forall>s t r. m s = (t, r) \<longrightarrow> same_but files T s t)"

text \<open>A removal leaves the file or removes it; it is gone when it succeeds or was missing.\<close>

definition removes :: "('s \<Rightarrow> path \<Rightarrow> bytes option) \<Rightarrow> path \<Rightarrow> ('s, native_error, unit) step \<Rightarrow> bool" where
  "removes files p m \<longleftrightarrow> touches files {p} m \<and> (\<forall>s t r. m s = (t, r) \<longrightarrow>
     (files t p = files s p \<or> files t p = None) \<and> (r = Inr () \<or> r = Inl NativeMissing \<longrightarrow> files t p = None))"

lemma same_but_refl [simp, intro]: "same_but files T s s" by (simp add: same_but_def)

lemma same_but_mono: "same_but files T s t \<Longrightarrow> T \<subseteq> U \<Longrightarrow> same_but files U s t" unfolding same_but_def by blast

lemma same_but_trans: "same_but files T s t \<Longrightarrow> same_but files T t u \<Longrightarrow> same_but files T s u"
  by (simp add: same_but_def)

lemma same_butD: "same_but files T s t \<Longrightarrow> p \<notin> T \<Longrightarrow> files t p = files s p" by (simp add: same_but_def)

lemma same_but_empty: "same_but files {} s t \<Longrightarrow> files t = files s" by (simp add: same_but_def fun_eq_iff)

lemma touchesD: "touches files T m \<Longrightarrow> m s = (t, r) \<Longrightarrow> same_but files T s t" unfolding touches_def by blast

lemma touches_mono: "touches files T m \<Longrightarrow> T \<subseteq> U \<Longrightarrow> touches files U m"
  unfolding touches_def same_but_def by (meson subsetD)

lemma touches_simps [simp, intro]: "touches files T (retS x)" "touches files T (errS e)" "touches files T (liftS r)"
  "touches files T (failS c e')"
  by (simp_all add: touches_def)

lemma bindS_cases:
  assumes "bindS m f s = (t, r)"
  obtains e where "m s = (t, Inl e)" "r = Inl e" | u x where "m s = (u, Inr x)" "f x u = (t, r)"
  using assms by (auto simp: bindS_def split: prod.splits sum.splits)

lemma touches_bindS_when:
  assumes "touches files T m" "\<And>s t x. m s = (t, Inr x) \<Longrightarrow> touches files T (f x)" shows "touches files T (bindS m f)"
  unfolding touches_def
proof (intro allI impI)
  fix s t r assume "bindS m f s = (t, r)"
  then show "same_but files T s t"
  proof (rule bindS_cases)
    fix e assume "m s = (t, Inl e)"
    then show ?thesis by (rule touchesD [OF assms(1)])
  next
    fix u x assume u: "m s = (u, Inr x)" "f x u = (t, r)"
    show ?thesis by (rule same_but_trans [OF touchesD [OF assms(1) u(1)] touchesD [OF assms(2) [OF u(1)] u(2)]])
  qed
qed

lemma touches_bindS [intro]:
  "touches files T m \<Longrightarrow> (\<And>x. touches files T (f x)) \<Longrightarrow> touches files T (bindS m f)"
  by (rule touches_bindS_when)

lemma touches_mapErrS [intro]: "touches files T m \<Longrightarrow> touches files T (mapErrS g m)"
  unfolding touches_def by (auto simp: mapErrS_def split: prod.splits)

lemma touches_tryS [intro]: "touches files T m \<Longrightarrow> touches files T (tryS m)"
  unfolding touches_def by (auto simp: tryS_def split: prod.splits)

lemma removesD:
  assumes "removes files p m" "m s = (t, r)"
  shows "same_but files {p} s t" "files t p = files s p \<or> files t p = None" "r = Inr () \<or> r = Inl NativeMissing \<Longrightarrow> files t p = None"
  using assms unfolding removes_def touches_def by metis+

lemma touches_removed: "removes files p m \<Longrightarrow> touches files {p} (removed m)"
  unfolding removed_def removes_def by (auto intro!: touches_bindS touches_tryS split: sum.splits)

lemma removed_gone: "removes files p m \<Longrightarrow> removed m s = (t, Inr ()) \<Longrightarrow> files t p = None"
  unfolding removed_def removes_def by (auto simp: bindS_tryS split: prod.splits sum.splits if_splits)

text \<open>A step that brings nothing back and, when it succeeds, leaves none of some paths.\<close>

definition clears :: "('s \<Rightarrow> path \<Rightarrow> bytes option) \<Rightarrow> path set \<Rightarrow> ('s, 'e, unit) step \<Rightarrow> bool" where
  "clears files X m \<longleftrightarrow> (\<forall>s t. m s = (t, Inr ()) \<longrightarrow>
     (\<forall>q. files s q = None \<longrightarrow> files t q = None) \<and> (\<forall>q \<in> X. files t q = None))"

lemma clearsD: "clears files X m \<Longrightarrow> m s = (t, Inr ()) \<Longrightarrow>
    (\<forall>q. files s q = None \<longrightarrow> files t q = None) \<and> (\<forall>q \<in> X. files t q = None)"
  unfolding clears_def by blast

lemma clears_quiet: "touches files {} m \<Longrightarrow> clears files {} m"
  unfolding touches_def clears_def same_but_def by fastforce

lemma clears_after:
  assumes "touches files {} m" "\<And>x. clears files X (f x)" shows "clears files X (bindS m f)"
  unfolding clears_def
proof (intro allI impI)
  fix s t assume "bindS m f s = (t, Inr ())"
  then obtain u x where u: "m s = (u, Inr x)" "f x u = (t, Inr ())" by (auto simp: bindS_Inr_iff)
  have "files u = files s" by (rule same_but_empty [OF touchesD [OF assms(1) u(1)]])
  with clearsD [OF assms(2) u(2)] show "(\<forall>q. files s q = None \<longrightarrow> files t q = None) \<and> (\<forall>q \<in> X. files t q = None)" by simp
qed

lemma clears_bindS:
  assumes "clears files X m" "clears files Y n" shows "clears files (X \<union> Y) (bindS m (\<lambda>_. n))"
  unfolding clears_def
proof (intro allI impI)
  fix s t assume "bindS m (\<lambda>_. n) s = (t, Inr ())"
  then obtain u where u: "m s = (u, Inr ())" "n u = (t, Inr ())" by (auto simp: bindS_Inr_iff)
  from clearsD [OF assms(1) u(1)] clearsD [OF assms(2) u(2)]
  show "(\<forall>q. files s q = None \<longrightarrow> files t q = None) \<and> (\<forall>q \<in> X \<union> Y. files t q = None)" by blast
qed

lemma clears_removed:
  assumes "removes files p m" shows "clears files {p} (removed m)"
  unfolding clears_def
proof (intro allI impI)
  fix s t assume m: "removed m s = (t, Inr ())"
  note g = removed_gone [OF assms m] and o = touchesD [OF touches_removed [OF assms] m]
  have "files t q = None" if "files s q = None" for q using that g same_butD [OF o, of q] by (cases "q = p") auto
  with g show "(\<forall>q. files s q = None \<longrightarrow> files t q = None) \<and> (\<forall>q \<in> {p}. files t q = None)" by blast
qed

lemma clears_simps [simp, intro]: "clears files X (errS e)" "clears files {} (retS u)"
  by (simp_all add: clears_def)

lemma clears_mapErrS: "clears files X m \<Longrightarrow> clears files X (mapErrS g m)"
  by (simp add: clears_def mapErrS_Inr_iff)

subsection \<open>Paths\<close>

definition owned_paths :: "os_path \<Rightarrow> setup_journal \<Rightarrow> path set" where
  "owned_paths root j = {path_of (sj_desktop_state j), path_of (sj_replay_state j), beside (sj_replay_state j) ''.lock'',
     beside (sj_replay_state j) ''.pending'', path_of (sj_identity_stub j)} \<union>
     (case sj_candidate j of None \<Rightarrow> {} | Some c \<Rightarrow> {path_of (pairing_locator_path root c)})"

abbreviation journal_at :: "os_path \<Rightarrow> path" where "journal_at root \<equiv> path_of (setup_journal_path root)"

abbreviation lifecycle_at :: "os_path \<Rightarrow> path" where "lifecycle_at root \<equiv> path_of (cleanup_lock_path root)"

text \<open>The pairing of a confirmed journal can be used: its replay state, its locator and its stub are there.\<close>

definition setup_complete :: "('s \<Rightarrow> path \<Rightarrow> bytes option) \<Rightarrow> os_path \<Rightarrow> setup_journal \<Rightarrow> 's \<Rightarrow> bool" where
  "setup_complete files root j s \<longleftrightarrow> sj_stage j = StageConfirmed \<and> (\<exists>stub. sj_candidate j = Some stub \<and> files s (path_of (sj_replay_state j)) \<noteq> None \<and>
     (files s (path_of (pairing_locator_path root stub)) \<noteq> None \<or> files s (path_of (legacy_pairing_locator_path root stub)) \<noteq> None) \<and>
     files s (path_of (sj_identity_stub j)) \<noteq> None)"

text \<open>The journal is the record on disk, and one that setup accepts.\<close>

definition journal_on_disk ::
    "('pk, 'sg, 'sk) lib \<Rightarrow> ('s \<Rightarrow> path \<Rightarrow> bytes option) \<Rightarrow> os_path \<Rightarrow> setup_journal \<Rightarrow> 's \<Rightarrow> bool" where
  "journal_on_disk L files root j s \<longleftrightarrow> setup_validate_root True root j = Inr () \<and>
     (\<exists>b. setup_encode L j = Inr b \<and> files s (journal_at root) = Some b)"

text \<open>The state paths of a valid journal are children of the root.\<close>

lemma split_on_parts: "w \<in> set (split_on c s) \<Longrightarrow> c \<notin> set w"
proof (induction s arbitrary: w)
  case (Cons d s)
  then show ?case by (cases "split_on c s") (auto split: if_splits)
qed simp

lemma path_of_comps: "n \<in> set (comps (path_of s)) \<Longrightarrow> CHR ''/'' \<notin> set n \<and> n \<noteq> []"
  using split_on_parts [of n "CHR ''/''" s] by (auto simp: path_of_def Let_def split: if_splits dest!: in_set_takeD in_set_dropD)

lemma sidecar_name: "n \<in> set (comps (path_of s)) \<Longrightarrow> plain_name (n @ ''.lock'') \<and> plain_name (n @ ''.pending'')"
  using path_of_comps [of n s] by (auto simp: plain_name_def append_eq_Cons_conv)

lemma child_of_parent:
  assumes "parent p = Some d" "file_name p = Some n" shows "p = join_path d n" "n \<in> set (comps p)" "n \<noteq> ''..''"
  using assms by (auto simp: parent_def file_name_def join_path_def split: if_splits)

lemma check_managed_names_ok:
  "check_managed_names ns ps = Inr () \<Longrightarrow> p \<in> set ps \<Longrightarrow> \<exists>n. file_name (path_of p) = Some n \<and> managed_name n"
  by (induction ns ps rule: check_managed_names.induct) (auto simp: result_iff split: if_splits)

text \<open>Decoding and checking a record never say that it is missing.\<close>

definition not_missing :: "(setup_error, 'a) result \<Rightarrow> bool" where
  "not_missing r \<longleftrightarrow> r \<noteq> Inl SetupMissing"

lemma bindE_not_missing: "not_missing m \<Longrightarrow> (\<And>x. not_missing (f x)) \<Longrightarrow> not_missing (bindE m f)"
  by (cases m) (simp_all add: not_missing_def)

lemma not_missing_simps [simp]: "not_missing (okOr SetupInvalid v)" "not_missing (failIf c SetupInvalid)"
  "not_missing (mapErr (\<lambda>_. SetupInvalid) w)" "not_missing (Inr x)" "not_missing (Inl SetupInvalid)" "not_missing (Inl SetupUnsupported)"
  "not_missing (stage_decode n)" "not_missing (setup_encoded_path p)"
  by (simp_all add: not_missing_def okOr_Inl_iff failIf_Inl_iff mapErr_Inl_iff stage_decode_def setup_encoded_path_def)

lemma setup_parts_not_missing [simp]: "not_missing (setup_fixed cb n d)" "not_missing (decode_setup_transport cb v d)"
  "not_missing (decode_candidate L d)" "not_missing (decode_explicit cb v d)"
  "not_missing (setup_encode L j)" "not_missing (setup_encode_legacy L j)"
  unfolding setup_fixed_def decode_setup_transport_def decode_candidate_def decode_explicit_def setup_encode_def setup_encode_legacy_def Let_def
  by (auto intro!: bindE_not_missing split: cbor_type.splits)

lemma check_setup_not_missing [simp]: "not_missing (check_setup L v b d j)"
  unfolding check_setup_def by (auto intro!: bindE_not_missing)

lemma setup_decode_not_missing: "not_missing (setup_decode L b)"
  unfolding setup_decode_def Let_def by (auto intro!: bindE_not_missing)

lemma check_managed_not_missing: "not_missing (check_managed_names ns ps)"
  by (induction ps arbitrary: ns) (auto intro!: bindE_not_missing)

lemma setup_validate_not_missing: "not_missing (setup_validate_root macos root j)"
  using check_managed_not_missing by (simp add: setup_validate_root_def validate_explicit_root_def Let_def del: check_managed_names.simps)

lemmas setup_decode_invalid = setup_decode_not_missing [unfolded not_missing_def]

lemmas setup_validate_invalid = setup_validate_not_missing [unfolded not_missing_def]

lemma journal_name_not_managed: "\<not> managed_name SETUP_JOURNAL_NAME"
  by (simp add: managed_name_def SETUP_JOURNAL_NAME_def name_extension_def Let_def)

text \<open>The state paths of a valid journal are children of the root, and none is the journal.\<close>

lemma setup_child:
  assumes "setup_validate_root True root j = Inr ()"
  obtains d r where "path_is_absolute root" "path_of (sj_desktop_state j) = join_path (path_of root) d"
    "path_of (sj_replay_state j) = join_path (path_of root) r" "d \<noteq> ''..''" "r \<noteq> ''..''"
    "plain_name (r @ ''.lock'')" "plain_name (r @ ''.pending'')" "SETUP_JOURNAL_NAME \<notin> {d, r}"
    "file_name (path_of (sj_identity_stub j)) \<noteq> Some SETUP_JOURNAL_NAME"
proof (cases "sj_explicit_paths j")
  case True
  with assms have v: "canonical_path root" "parent (path_of (sj_desktop_state j)) = Some (path_of root)"
    "parent (path_of (sj_replay_state j)) = Some (path_of root)"
    "check_managed_names [] [sj_desktop_state j, sj_replay_state j, sj_identity_stub j] = Inr ()"
    by (auto simp: setup_validate_root_def validate_explicit_root_def Let_def split: if_splits)
  from check_managed_names_ok [OF v(4), of "sj_desktop_state j"] obtain d where
    d: "file_name (path_of (sj_desktop_state j)) = Some d" "managed_name d" by auto
  from check_managed_names_ok [OF v(4), of "sj_replay_state j"] obtain r where
    r: "file_name (path_of (sj_replay_state j)) = Some r" "managed_name r" by auto
  from check_managed_names_ok [OF v(4), of "sj_identity_stub j"] obtain i where
    i: "file_name (path_of (sj_identity_stub j)) = Some i" "managed_name i" by auto
  note cd = child_of_parent [OF v(2) d(1)] and cr = child_of_parent [OF v(3) r(1)]
  show thesis
    by (rule that [of d r]) (use v(1) cd cr d r i sidecar_name [OF cr(2)] journal_name_not_managed in \<open>auto simp: canonical_path_def\<close>)
next
  case False
  define h where "h = hex (sj_desktop_id j)"
  have n: "plain_name (a @ h @ b)" if "a \<in> {''desktop-'', ''replay-'', ''identity-''}" "CHR ''/'' \<notin> set b" for a b
    using that hex_no_slash [of "sj_desktop_id j"] by (auto simp: plain_name_def h_def append_eq_Cons_conv)
  from False assms have v: "path_is_absolute root" "path_of (sj_desktop_state j) = path_of (path_join root (''desktop-'' @ h @ ''.state''))"
    "path_of (sj_replay_state j) = path_of (path_join root (''replay-'' @ h @ ''.state''))"
    "path_of (sj_identity_stub j) = path_of (path_join root (''identity-'' @ h @ ''.txt''))"
    by (auto simp: setup_validate_root_def setup_new_def path_eq_def Let_def h_def split: if_splits)
  note q = path_join_comps(1) [OF v(1)]
  have pn: "plain_name ((''replay-'' @ h @ ''.state'') @ ''.lock'')" "plain_name ((''replay-'' @ h @ ''.state'') @ ''.pending'')"
    using n [of "''replay-''" "''.state.lock''"] n [of "''replay-''" "''.state.pending''"] by simp_all
  have e: "a @ h @ b \<noteq> SETUP_JOURNAL_NAME" if "b \<in> {''.state'', ''.txt''}" for a b
  proof
    assume "a @ h @ b = SETUP_JOURNAL_NAME"
    from arg_cong [OF this, of last] that show False by (auto simp: SETUP_JOURNAL_NAME_def)
  qed
  from e [of "''.state''" "''desktop-''"] e [of "''.state''" "''replay-''"] e [of "''.txt''" "''identity-''"]
  have ne: "SETUP_JOURNAL_NAME \<notin> {''desktop-'' @ h @ ''.state'', ''replay-'' @ h @ ''.state''}"
    "''identity-'' @ h @ ''.txt'' \<noteq> SETUP_JOURNAL_NAME" by auto
  have fn: "file_name (path_of (sj_identity_stub j)) = Some (''identity-'' @ h @ ''.txt'')"
    using n [of "''identity-''" "''.txt''"] by (simp add: v q file_name_def join_path_def)
  have cd: "path_of (sj_desktop_state j) = join_path (path_of root) (''desktop-'' @ h @ ''.state'')"
    unfolding v(2) by (rule q) (rule n, simp_all)
  have cr: "path_of (sj_replay_state j) = join_path (path_of root) (''replay-'' @ h @ ''.state'')"
    unfolding v(3) by (rule q) (rule n, simp_all)
  show thesis
    by (rule that [OF v(1) cd cr _ _ pn ne(1)]) (use ne(2) fn in simp_all)
qed

lemma path_join_last:
  assumes "plain_name n" shows "last (comps (path_of (path_join base n))) = n"
proof -
  have n: "split_on (CHR ''/'') n = [n]" "n \<noteq> []" "n \<noteq> ''.''" "\<not> path_is_absolute n"
    using assms split_on_single [of "CHR ''/''" n] by (auto simp: plain_name_def path_is_absolute_def starts_with_iff)
  obtain xs where "split_on (CHR ''/'') (path_join base n) = xs @ [n]"
  proof (cases "base = [] \<or> last base = CHR ''/''")
    case True
    then consider "base = []" | a where "base = a @ [CHR ''/'']" by (metis append_butlast_last_id)
    then show thesis
    proof cases
      case 1
      with n that [of "[]"] show ?thesis by (simp add: path_join_def)
    next
      case 2
      with n that [of "split_on (CHR ''/'') a"] show ?thesis using split_on_append [of "CHR ''/''" a n] by (simp add: path_join_def)
    qed
  next
    case False
    with n that [of "split_on (CHR ''/'') base"] show thesis using split_on_append [of "CHR ''/''" base n] by (simp add: path_join_def)
  qed
  with n show ?thesis by (cases "filter (\<lambda>w. w \<noteq> []) xs") (simp_all add: path_of_def Let_def)
qed

lemma journal_name_plain: "plain_name SETUP_JOURNAL_NAME"
  by (simp add: plain_name_def SETUP_JOURNAL_NAME_def)

lemma journal_name_locator: "SETUP_JOURNAL_NAME \<noteq> locator_name c" "SETUP_JOURNAL_NAME \<noteq> hex i @ ''.cbor''"
proof -
  have "hd SETUP_JOURNAL_NAME = CHR ''d''" "SETUP_JOURNAL_NAME ! 2 = CHR ''s''" by (simp_all add: SETUP_JOURNAL_NAME_def)
  have s: "CHR ''s'' \<noteq> hex_digit n" if "n < 16" for n
  proof -
    have "CHR ''s'' = char_of (115 :: nat)" by code_simp
    with that show ?thesis by (simp add: hex_digit_def char_of_eq_iff)
  qed
  then have h: "CHR ''s'' \<notin> set (hex b)" for b using hex_chars by blast
  have "CHR ''s'' \<in> set SETUP_JOURNAL_NAME" by (simp add: SETUP_JOURNAL_NAME_def)
  moreover have "CHR ''s'' \<notin> set (locator_name c)" "CHR ''s'' \<notin> set (hex i @ ''.cbor'')" using h by (simp_all add: locator_name_def)
  ultimately show "SETUP_JOURNAL_NAME \<noteq> locator_name c" "SETUP_JOURNAL_NAME \<noteq> hex i @ ''.cbor''" by metis+
qed

lemma join_path_simps [simp]: "comps (join_path p n) = comps p @ [n]" "join_path p m = join_path p n \<longleftrightarrow> m = n"
  "parent (join_path p n) = Some p" "n \<noteq> ''..'' \<Longrightarrow> file_name (join_path p n) = Some n"
  by (auto simp: join_path_def parent_def file_name_def dest: arg_cong [where f = comps])

text \<open>The names a removal computes are those of the paths the journal owns.\<close>

lemma setup_names:
  assumes "setup_validate_root True root j = Inr ()"
  shows "path_is_absolute root"
    and "file_name (path_of (sj_desktop_state j)) = Some d \<Longrightarrow> join_path (path_of root) d = path_of (sj_desktop_state j)"
    and "file_name (path_of (sj_replay_state j)) = Some r \<Longrightarrow> join_path (path_of root) r = path_of (sj_replay_state j) \<and>
      path_of (sidecar root r ''.lock'') = beside (sj_replay_state j) ''.lock'' \<and>
      path_of (sidecar root r ''.pending'') = beside (sj_replay_state j) ''.pending'' \<and>
      path_of (sidecar root r ''.lock'') = join_path (path_of root) (r @ ''.lock'') \<and>
      path_of (sidecar root r ''.pending'') = join_path (path_of root) (r @ ''.pending'')"
    and "path_of (pairing_locator_path root c) = join_path (path_of root) (locator_name c)"
    and "journal_at root = join_path (path_of root) SETUP_JOURNAL_NAME"
proof -
  obtain e q where p: "path_is_absolute root" "path_of (sj_desktop_state j) = join_path (path_of root) e"
    "path_of (sj_replay_state j) = join_path (path_of root) q" "e \<noteq> ''..''" "q \<noteq> ''..''"
    "plain_name (q @ ''.lock'')" "plain_name (q @ ''.pending'')" by (rule setup_child [OF assms])
  note k = path_join_comps(1) [OF p(1)]
  show "path_is_absolute root" by (rule p(1))
  show "join_path (path_of root) d = path_of (sj_desktop_state j)" if "file_name (path_of (sj_desktop_state j)) = Some d"
    using that p by simp
  show "path_of (pairing_locator_path root c) = join_path (path_of root) (locator_name c)"
    unfolding pairing_locator_path_def by (rule k) (rule locator_names(1))
  show "journal_at root = join_path (path_of root) SETUP_JOURNAL_NAME"
    unfolding setup_journal_path_def by (rule k) (rule journal_name_plain)
  assume "file_name (path_of (sj_replay_state j)) = Some r"
  then have r: "r = q" using p(3,5) by simp
  show "join_path (path_of root) r = path_of (sj_replay_state j) \<and>
      path_of (sidecar root r ''.lock'') = beside (sj_replay_state j) ''.lock'' \<and>
      path_of (sidecar root r ''.pending'') = beside (sj_replay_state j) ''.pending'' \<and>
      path_of (sidecar root r ''.lock'') = join_path (path_of root) (r @ ''.lock'') \<and>
      path_of (sidecar root r ''.pending'') = join_path (path_of root) (r @ ''.pending'')"
    using k [OF p(6)] k [OF p(7)] p(3) by (simp add: r sidecar_def beside_def Let_def join_path_def)
qed

lemma journal_not_owned:
  assumes "setup_validate_root True root j = Inr ()"
  shows "journal_at root \<notin> owned_paths root j" "journal_at root \<noteq> path_of (legacy_pairing_locator_path root c)"
proof -
  obtain d r where p: "path_is_absolute root" "path_of (sj_desktop_state j) = join_path (path_of root) d"
    "path_of (sj_replay_state j) = join_path (path_of root) r" "r \<noteq> ''..''" "SETUP_JOURNAL_NAME \<notin> {d, r}"
    "file_name (path_of (sj_identity_stub j)) \<noteq> Some SETUP_JOURNAL_NAME" by (rule setup_child [OF assms])
  have f: "file_name (path_of (sj_replay_state j)) = Some r" using p(3,4) by simp
  have l: "SETUP_JOURNAL_NAME \<noteq> r @ ''.lock''" "SETUP_JOURNAL_NAME \<noteq> r @ ''.pending''"
    using arg_cong [of SETUP_JOURNAL_NAME "r @ ''.lock''" last] arg_cong [of SETUP_JOURNAL_NAME "r @ ''.pending''" last]
    by (auto simp: SETUP_JOURNAL_NAME_def)
  have n: "file_name (journal_at root) = Some SETUP_JOURNAL_NAME"
    unfolding setup_names(5) [OF assms] by (rule join_path_simps(4)) (simp add: SETUP_JOURNAL_NAME_def)
  have "beside (sj_replay_state j) ''.lock'' = join_path (path_of root) (r @ ''.lock'')"
    "beside (sj_replay_state j) ''.pending'' = join_path (path_of root) (r @ ''.pending'')"
    using setup_names(3) [OF assms f] by auto
  then show "journal_at root \<notin> owned_paths root j"
    using p l n journal_name_locator(1) setup_names(5) [OF assms]
    by (auto simp: owned_paths_def setup_names(4) [OF assms] split: option.splits)
  have "path_of (legacy_pairing_locator_path root c) = join_path (path_of root) (hex (sb_identity_id c) @ ''.cbor'')"
    unfolding legacy_pairing_locator_path_def by (rule path_join_comps(1) [OF p(1)]) (rule locator_names(2))
  then show "journal_at root \<noteq> path_of (legacy_pairing_locator_path root c)"
    using journal_name_locator(2) by (simp add: setup_names(5) [OF assms])
qed

subsection \<open>The contract of the platform\<close>

locale setup_files =
  fixes ops :: "'s setup_ops" and files :: "'s \<Rightarrow> path \<Rightarrow> bytes option"
  assumes prepare_quiet: "touches files {} (so_prepare_root ops p)"
    and open_quiet: "touches files {} (so_open_directory ops p)"
    and lock_touches: "touches files {p} (so_lock ops p)"
    and validate_quiet: "touches files {} (so_validate_lock ops p)"
    and unlock_quiet: "files (so_unlock ops p s) = files s"
    and temporaries_quiet: "touches files {} (so_remove_temporaries ops p)"
    and exclusive_quiet: "touches files {} (so_exclusive ops root own d r)"
    and cleanup_pending_quiet: "touches files {} (so_cleanup_pending ops root)"
    and key_create_touches: "touches files {p} (so_key_create ops p i)"
    and key_open_quiet: "touches files {} (so_key_open ops p)"
    and read_private: "so_read_private ops p n s = (t, rd) \<Longrightarrow> files t = files s \<and>
      (\<forall>b. rd = Inr b \<longrightarrow> files s p = Some b) \<and> (rd = Inl NativeMissing \<longrightarrow> files s p = None)"
    and read_regular: "so_read_regular ops p n s = (t, rd) \<Longrightarrow> files t = files s \<and> (\<forall>b. rd = Inr b \<longrightarrow> files s p = Some b)"
    and create_private: "so_atomic_create ops p b s = (t, q) \<Longrightarrow>
      same_but files {p} s t \<and> (q = Inr () \<longrightarrow> files t p = Some b)"
    and create_regular: "so_create_regular ops p b s = (t, q) \<Longrightarrow>
      same_but files {p} s t \<and> (q = Inr () \<longrightarrow> files t p = Some b)"
    and replace_private: "so_atomic_replace ops p b s = (t, q) \<Longrightarrow>
      same_but files {p} s t \<and> (files t p = files s p \<or> files t p = Some b) \<and> (q = Inr () \<longrightarrow> files t p = Some b)"
    and remove_private: "removes files p (so_remove_private ops p)"
    and remove_child: "removes files p (so_remove_child ops p)"
    and remove_regular: "removes files p (so_remove_regular ops p)"
    and guard_create: "so_guard_create ops (path_of a) sc n now s = (t, gq) \<Longrightarrow>
      same_but files {path_of a, beside a ''.lock'', beside a ''.pending''} s t \<and> (gq = Inr () \<longrightarrow> files t (path_of a) \<noteq> None)"
    and guard_open: "so_guard_open ops (path_of a) sc n s = (t, gq) \<Longrightarrow>
      same_but files {path_of a, beside a ''.lock'', beside a ''.pending''} s t \<and> (gq = Inr () \<longrightarrow> files t (path_of a) \<noteq> None)"
    and create_locator: "so_create_locator ops root stub d r c s = (t, q') \<Longrightarrow>
      same_but files {path_of (pairing_locator_path root stub)} s t \<and>
      (q' = Inr () \<longrightarrow> files t (path_of (pairing_locator_path root stub)) \<noteq> None) \<and>
      (q' = Inl LocatorAlreadyExists \<longrightarrow> files t = files s)"
    and open_locator: "so_open_locator ops root stub s = (t, ql) \<Longrightarrow> files t = files s \<and> (\<forall>l. ql = Inr l \<longrightarrow>
      files s (path_of (pairing_locator_path root stub)) \<noteq> None \<or> files s (path_of (legacy_pairing_locator_path root stub)) \<noteq> None)"
begin

lemmas quiet = prepare_quiet open_quiet validate_quiet temporaries_quiet exclusive_quiet cleanup_pending_quiet key_open_quiet

lemma quiet_any: "touches files T (so_open_directory ops p)" "touches files T (so_validate_lock ops p)"
  "touches files T (so_remove_temporaries ops p)" "touches files T (so_exclusive ops root own d r)"
  "touches files T (so_cleanup_pending ops root)" "touches files T (so_key_open ops p)" "touches files T (so_prepare_root ops p)"
  using quiet touches_mono by blast+

lemma reads_quiet: "touches files T (so_read_private ops p n)" "touches files T (so_read_regular ops p n)"
  "touches files T (so_open_locator ops root stub)"
  unfolding touches_def same_but_def using read_private read_regular open_locator by metis+

lemma read_quiet: "touches files T (setup_read L ops root)"
  unfolding setup_read_def by (intro touches_bindS touches_mapErrS reads_quiet touches_simps)

lemma read_ok:
  assumes "setup_read L ops root s = (t, Inr j)"
  shows "\<exists>b. files s (journal_at root) = Some b \<and> setup_decode L b = Inr j \<and> setup_validate_root True root j = Inr ()"
  using assms read_private by (fastforce simp: setup_read_def bindS_Inr_iff mapErrS_Inr_iff)

lemma read_missing: "setup_read L ops root s = (t, Inl SetupMissing) \<Longrightarrow> files s (journal_at root) = None"
proof -
  assume r: "setup_read L ops root s = (t, Inl SetupMissing)"
  obtain u q where q: "so_read_private ops (journal_at root) MAX_JOURNAL_BYTES s = (u, q)" by fastforce
  have "setup_decode L b \<noteq> Inl SetupMissing" "setup_validate_root True root j \<noteq> Inl SetupMissing" for b j
    using setup_decode_invalid setup_validate_invalid by blast+
  with r q have "q = Inl NativeMissing"
    by (auto simp: setup_read_def mapErrS_def mapErr_def bindS_def split: sum.splits if_splits)
  with read_private [OF q] show ?thesis by blast
qed

lemma remove_effect:
  assumes "setup_remove ops root s = (t, r)"
  shows "same_but files {journal_at root} s t" "files t (journal_at root) = files s (journal_at root) \<or> files t (journal_at root) = None"
    "r = Inr () \<Longrightarrow> files t (journal_at root) = None"
proof -
  note R = remove_private [of "journal_at root"]
  show "same_but files {journal_at root} s t" using touchesD [OF touches_removed [OF R]] assms by (simp add: setup_remove_def)
  obtain q where q: "so_remove_private ops (journal_at root) s = (t, q)"
    using assms by (auto simp: setup_remove_def removed_def bindS_tryS split: prod.splits sum.splits if_splits)
  show "files t (journal_at root) = files s (journal_at root) \<or> files t (journal_at root) = None"
    by (rule removesD(2) [OF R q])
  show "files t (journal_at root) = None" if "r = Inr ()"
    using removed_gone [OF R] assms that by (simp add: setup_remove_def)
qed

lemma replace_effect:
  assumes "setup_replace L ops root j s = (t, r)"
  shows "same_but files {journal_at root} s t" "files t (journal_at root) = files s (journal_at root) \<or> journal_on_disk L files root j t"
    "r = Inr () \<Longrightarrow> journal_on_disk L files root j t"
proof -
  have "t = s \<and> (\<exists>e. r = Inl e) \<or> setup_validate_root True root j = Inr () \<and> (\<exists>b q. setup_encode L j = Inr b \<and>
      so_atomic_replace ops (journal_at root) b s = (t, q) \<and> (r = Inr () \<longrightarrow> q = Inr ()))"
    using assms unfolding setup_replace_def
    by (auto elim!: bindS_cases simp: mapErrS_def mapErr_def split: prod.splits sum.splits)
  then show "same_but files {journal_at root} s t" "files t (journal_at root) = files s (journal_at root) \<or> journal_on_disk L files root j t"
    "r = Inr () \<Longrightarrow> journal_on_disk L files root j t"
    using replace_private [of "journal_at root"] unfolding journal_on_disk_def by fastforce+
qed

lemma create_effect:
  assumes "setup_create L ops root j s = (t, r)"
  shows "same_but files {journal_at root} s t" "r = Inr () \<Longrightarrow> journal_on_disk L files root j t"
proof -
  have a: "touches files {} (ensure_absent ops ps)" for ps
    by (induction ps) (auto simp: touches_def)
  have "touches files T (ensure_absent ops ps)" for ps T using touches_mono [OF a] by blast
  moreover have "touches files {journal_at root} (so_atomic_create ops (journal_at root) b)" for b
    using create_private unfolding touches_def by blast
  ultimately have "touches files {journal_at root} (setup_create L ops root j)"
    unfolding setup_create_def by (auto intro!: touches_bindS touches_mapErrS quiet_any simp del: ensure_absent.simps)
  then show "same_but files {journal_at root} s t" by (rule touchesD) (rule assms)
  show "journal_on_disk L files root j t" if "r = Inr ()"
  proof -
    from assms that obtain b u where "setup_validate_root True root j = Inr ()" "setup_encode L j = Inr b"
      "so_atomic_create ops (journal_at root) b u = (t, Inr ())"
      by (auto simp: setup_create_def bindS_Inr_iff mapErrS_Inr_iff)
    then show ?thesis using create_private unfolding journal_on_disk_def by blast
  qed
qed

text \<open>The commit creates only what the journal owns, and removes the journal of a complete pairing.\<close>

lemma commit_files_touches: "touches files (owned_paths root j) (commit_files L ops root j now kind)"
proof -
  have g: "touches files (owned_paths root j) (so_guard_create ops (path_of (sj_replay_state j)) sc n now)"
    "touches files (owned_paths root j) (so_guard_open ops (path_of (sj_replay_state j)) sc n)" for sc n now
    using guard_create [of "sj_replay_state j"] guard_open [of "sj_replay_state j"] unfolding touches_def owned_paths_def
    by (blast intro: same_but_mono)+
  have l: "touches files (owned_paths root j) (so_create_locator ops root stub d r c)" if "sj_candidate j = Some stub" for stub d r c
    using create_locator [of root stub] that unfolding touches_def owned_paths_def by (fastforce intro: same_but_mono)
  have i: "touches files (owned_paths root j) (so_create_regular ops (path_of (sj_identity_stub j)) b)" for b
    using create_regular [of "path_of (sj_identity_stub j)"] unfolding touches_def owned_paths_def by (blast intro: same_but_mono)
  have "touches files (owned_paths root j) (commit_replay ops (path_of (sj_replay_state j)) sc now)" for sc
    unfolding commit_replay_def by (auto intro!: touches_bindS touches_mapErrS touches_tryS g split: sum.splits)
  moreover have "touches files (owned_paths root j) (commit_locator ops root stub j)" if "sj_candidate j = Some stub" for stub
    unfolding commit_locator_def
    by (auto intro!: touches_bindS touches_mapErrS touches_tryS l [OF that] reads_quiet split: sum.splits)
  moreover have "touches files (owned_paths root j) (commit_stub L ops (sj_identity_stub j) stub kind)" for stub
    unfolding commit_stub_def create_managed_stub_def read_managed_stub_def
    by (auto intro!: touches_bindS touches_mapErrS touches_tryS i reads_quiet split: sum.splits)
  ultimately show ?thesis
    unfolding commit_files_def
    by (cases "sj_candidate j") (auto intro!: touches_bindS touches_mapErrS quiet_any read_quiet)
qed

lemma present_after: "same_but files {q} s t \<Longrightarrow> files t q \<noteq> None \<Longrightarrow> files s p \<noteq> None \<Longrightarrow> files t p \<noteq> None"
  unfolding same_but_def by (cases "p = q") auto

lemma commit_replay_present:
  assumes "commit_replay ops (path_of a) sc now s = (t, Inr ())" shows "files t (path_of a) \<noteq> None"
proof -
  obtain u q where u: "so_guard_create ops (path_of a) sc DEFAULT_REPLAY_CAPACITY now s = (u, q)" by fastforce
  show ?thesis
  proof (cases q)
    case (Inl e)
    with assms u have "so_guard_open ops (path_of a) sc DEFAULT_REPLAY_CAPACITY u = (t, Inr ())"
      by (simp add: commit_replay_def bindS_tryS mapErrS_Inr_iff)
    from guard_open [OF this] show ?thesis by blast
  next
    case (Inr x)
    with assms u have "so_guard_create ops (path_of a) sc DEFAULT_REPLAY_CAPACITY now s = (t, Inr ())"
      by (simp add: commit_replay_def bindS_tryS)
    from guard_create [OF this] show ?thesis by blast
  qed
qed

lemma commit_locator_present:
  assumes "commit_locator ops root stub j s = (t, Inr ())"
  shows "files t (path_of (pairing_locator_path root stub)) \<noteq> None \<or> files t (path_of (legacy_pairing_locator_path root stub)) \<noteq> None"
    "files s p \<noteq> None \<Longrightarrow> files t p \<noteq> None"
proof -
  obtain u q where u: "so_create_locator ops root stub (sj_desktop_state j) (sj_replay_state j) (sj_transport j) s = (u, q)" by fastforce
  note c = create_locator [OF u]
  have "(files t (path_of (pairing_locator_path root stub)) \<noteq> None \<or> files t (path_of (legacy_pairing_locator_path root stub)) \<noteq> None) \<and>
    (files s p \<noteq> None \<longrightarrow> files t p \<noteq> None)" for p
  proof (cases q)
    case (Inl e)
    with assms u obtain l where e: "q = Inl LocatorAlreadyExists" and l: "so_open_locator ops root stub u = (t, Inr l)"
      by (auto simp: commit_locator_def bindS_tryS bindS_Inr_iff mapErrS_Inr_iff split: if_splits)
    from open_locator [OF l] c e show ?thesis by auto
  next
    case (Inr x)
    with assms u have "u = t" by (simp add: commit_locator_def bindS_tryS)
    then show ?thesis using c Inr present_after [of _ s t p] by auto
  qed
  then show "files t (path_of (pairing_locator_path root stub)) \<noteq> None \<or> files t (path_of (legacy_pairing_locator_path root stub)) \<noteq> None"
    "files s p \<noteq> None \<Longrightarrow> files t p \<noteq> None" by blast+
qed

lemma create_managed_stub_effect:
  assumes "create_managed_stub L ops p stub kind s = (t, r)"
  shows "same_but files {path_of p} s t \<and> (r = Inr () \<longrightarrow> files t (path_of p) \<noteq> None)"
proof (cases "identity_file_for L stub kind")
  case (Inl e)
  with assms show ?thesis by (auto simp: create_managed_stub_def bindS_def)
next
  case (Inr body)
  with assms obtain q where q: "so_create_regular ops (path_of p) (str_bytes body) s = (t, q)" "r = mapErr (\<lambda>_. SetupStorage) q"
    by (auto simp: create_managed_stub_def bindS_def mapErrS_def split: prod.splits)
  with create_regular [OF q(1)] show ?thesis by (cases q) auto
qed

lemma commit_stub_present:
  assumes "commit_stub L ops p stub kind s = (t, Inr ())"
  shows "files t (path_of p) \<noteq> None" "files s q \<noteq> None \<Longrightarrow> files t q \<noteq> None"
proof -
  obtain u r where u: "create_managed_stub L ops p stub kind s = (u, r)" by fastforce
  note c = create_managed_stub_effect [OF u]
  have "files t = files u \<and> files u (path_of p) \<noteq> None"
  proof (cases r)
    case (Inl e)
    with assms u obtain v x y b where v: "read_managed_stub L ops p u = (v, Inr x)"
      and b: "so_read_regular ops (path_of p) 16384 v = (y, Inr b)" "t = y"
      by (auto simp: commit_stub_def bindS_tryS bindS_Inr_iff mapErrS_Inr_iff)
    from v obtain b' v' where b': "so_read_regular ops (path_of p) 16384 u = (v', Inr b')" "v' = v"
      by (auto simp: read_managed_stub_def bindS_Inr_iff mapErrS_Inr_iff split: if_splits)
    from read_regular [OF b'(1)] read_regular [OF b(1)] b(2) b'(2) show ?thesis by simp
  next
    case (Inr x)
    with assms u c show ?thesis by (auto simp: commit_stub_def bindS_tryS)
  qed
  then show "files t (path_of p) \<noteq> None" "files s q \<noteq> None \<Longrightarrow> files t q \<noteq> None"
    using present_after [OF conjunct1 [OF c], of q] by auto
qed

lemma commit_files_ok:
  assumes "commit_files L ops root j now kind s = (t, Inr ())"
  shows "setup_validate_root True root j = Inr ()" "setup_complete files root j t"
proof -
  from assms obtain stub u1 u2 u3 where st: "sj_candidate j = Some stub" and g: "sj_stage j = StageConfirmed" and v: "setup_validate_root True root j = Inr ()"
    and r: "commit_replay ops (path_of (sj_replay_state j)) (scope_for_pairing DesktopResponses (stub_pairing stub)) now u1 = (u2, Inr ())"
    and l: "commit_locator ops root stub j u2 = (u3, Inr ())"
    and i: "commit_stub L ops (sj_identity_stub j) stub kind u3 = (t, Inr ())"
    by (auto simp: commit_files_def bindS_Inr_iff failIf_Inr_iff okOr_def split: option.splits)
  show "setup_validate_root True root j = Inr ()" by (rule v)
  note lp = commit_locator_present [OF l] and ip = commit_stub_present [OF i]
  show "setup_complete files root j t"
    unfolding setup_complete_def using st g ip lp commit_replay_present [OF r] by blast
qed

lemma complete_without_journal:
  assumes "setup_validate_root True root j = Inr ()" "setup_complete files root j s" "same_but files {journal_at root} s t"
  shows "setup_complete files root j t"
proof -
  from assms(2) obtain stub where g: "sj_stage j = StageConfirmed" and st: "sj_candidate j = Some stub" "files s (path_of (sj_replay_state j)) \<noteq> None"
    "files s (path_of (pairing_locator_path root stub)) \<noteq> None \<or> files s (path_of (legacy_pairing_locator_path root stub)) \<noteq> None"
    "files s (path_of (sj_identity_stub j)) \<noteq> None" unfolding setup_complete_def by blast
  have e: "files t p = files s p" if "p \<noteq> journal_at root" for p using same_butD [OF assms(3)] that by blast
  have "path_of (sj_replay_state j) \<in> owned_paths root j" "path_of (sj_identity_stub j) \<in> owned_paths root j"
    "path_of (pairing_locator_path root stub) \<in> owned_paths root j"
    using st(1) by (simp_all add: owned_paths_def)
  then have "path_of (sj_replay_state j) \<noteq> journal_at root" "path_of (sj_identity_stub j) \<noteq> journal_at root"
    "path_of (pairing_locator_path root stub) \<noteq> journal_at root" using journal_not_owned(1) [OF assms(1)] by auto
  then show ?thesis
    unfolding setup_complete_def using st g e journal_not_owned(2) [OF assms(1), of stub, symmetric] by simp
qed

lemma completion_effect:
  assumes c: "commit_confirmed_for L ops root j now kind s = (t, r)" and v: "setup_validate_root True root j = Inr ()"
  shows "same_but files (insert (journal_at root) (owned_paths root j)) s t \<and>
    (files t (journal_at root) = files s (journal_at root) \<or> setup_complete files root j t) \<and>
    (r = Inr () \<longrightarrow> setup_complete files root j t \<and> files t (journal_at root) = None)"
  using c unfolding commit_confirmed_for_def
proof (rule bindS_cases)
  fix e assume c: "commit_files L ops root j now kind s = (t, Inl e)" "r = Inl e"
  note o = touchesD [OF commit_files_touches c(1)]
  from same_but_mono [OF o subset_insertI] same_butD [OF o journal_not_owned(1) [OF v]] c(2) show ?thesis by simp
next
  fix u x assume c: "commit_files L ops root j now kind s = (u, Inr x)" "setup_remove ops root u = (t, r)"
  have k: "setup_complete files root j u" using c(1) by (cases x) (auto dest: commit_files_ok)
  note o = touchesD [OF commit_files_touches c(1)] and m = remove_effect(1) [OF c(2)]
  have "same_but files (insert (journal_at root) (owned_paths root j)) u t" by (rule same_but_mono [OF m]) blast
  from same_but_trans [OF same_but_mono [OF o subset_insertI] this] complete_without_journal [OF v k m] remove_effect(3) [OF c(2)]
  show ?thesis by blast
qed

text \<open>The removal touches only what the journal owns, and removes the journal once all of that is gone.\<close>

lemma remove_owned_effect:
  assumes "\<And>n. file_name p = Some n \<Longrightarrow> join_path (path_of root) n = p"
  shows "touches files {p} (remove_owned ops root lock p)" "clears files {p} (remove_owned ops root lock p)"
proof -
  have "touches files {p} (removed (so_remove_child ops p))" "clears files {p} (removed (so_remove_child ops p))"
    by (rule touches_removed clears_removed, rule remove_child)+
  moreover have "clears files {} (mapErrS (\<lambda>_. SetupStorage) (so_remove_temporaries ops p))"
    by (rule clears_quiet) (rule touches_mapErrS [OF temporaries_quiet])
  ultimately have c: "clears files {p} (bindS (removed (so_remove_child ops p))
      (\<lambda>_. mapErrS (\<lambda>_. SetupStorage) (so_remove_temporaries ops p)))"
    using clears_bindS [of files "{p}" _ "{}"] by simp
  show "touches files {p} (remove_owned ops root lock p)"
    using assms touches_removed [OF remove_child, of p] unfolding remove_owned_def
    by (cases "file_name p") (auto intro!: touches_bindS touches_mapErrS quiet_any simp: okOr_def)
  show "clears files {p} (remove_owned ops root lock p)"
    using assms c unfolding remove_owned_def
    by (cases "file_name p") (auto intro!: clears_after touches_mapErrS quiet_any simp: okOr_def)
qed

lemma remove_owned_stub_effect:
  "touches files {p} (remove_owned_stub ops root lock p)" "clears files {p} (remove_owned_stub ops root lock p)"
proof -
  have e: "join_path (path_of root) n = p" if "parent p = Some (path_of root)" "file_name p = Some n" for n
    using child_of_parent(1) [OF that] by simp
  show "touches files {p} (remove_owned_stub ops root lock p)"
    using remove_owned_effect(1) [of p root lock] e touches_removed [OF remove_regular, of p] unfolding remove_owned_stub_def
    by (auto intro!: touches_bindS touches_mapErrS quiet_any)
  show "clears files {p} (remove_owned_stub ops root lock p)"
    using remove_owned_effect(2) [of p root lock] e clears_removed [OF remove_regular, of p] unfolding remove_owned_stub_def
    by (auto intro!: clears_after touches_mapErrS quiet_any)
qed

lemma remove_owned_files_effect:
  assumes v: "setup_validate_root True root j = Inr ()" and n: "file_name (path_of (sj_replay_state j)) = Some n"
  shows "touches files (owned_paths root j) (remove_owned_files ops root j n)"
    "clears files (owned_paths root j) (remove_owned_files ops root j n)"
proof -
  note N = setup_names(3) [OF v n]
  have b: "beside (sj_replay_state j) ''.lock'' = path_of (sidecar root n ''.lock'')"
    "beside (sj_replay_state j) ''.pending'' = path_of (sidecar root n ''.pending'')" using N by simp_all
  let ?lock = "path_of (sidecar root n ''.lock'')"
  have d: "join_path (path_of root) m = path_of (sj_desktop_state j)" if "file_name (path_of (sj_desktop_state j)) = Some m" for m
    by (rule setup_names(2) [OF v that])
  have r: "join_path (path_of root) m = path_of (sj_replay_state j)" if "file_name (path_of (sj_replay_state j)) = Some m" for m
    using setup_names(3) [OF v that] by simp
  have k: "join_path (path_of root) m = join_path (path_of root) q" if "file_name (join_path (path_of root) q) = Some m" for m q
    using that by (simp add: file_name_def split: if_splits)
  have sl: "path_of (sidecar root n ''.lock'') = join_path (path_of root) (n @ ''.lock'')"
    "path_of (sidecar root n ''.pending'') = join_path (path_of root) (n @ ''.pending'')" using N by blast+
  have k': "join_path (path_of root) m = path_of (sidecar root n ''.lock'')" if "file_name (path_of (sidecar root n ''.lock'')) = Some m" for m
    using that unfolding sl by (rule k)
  have k'': "join_path (path_of root) m = path_of (sidecar root n ''.pending'')" if "file_name (path_of (sidecar root n ''.pending'')) = Some m" for m
    using that unfolding sl by (rule k)
  have kl: "join_path (path_of root) m = path_of (pairing_locator_path root c)" if "file_name (path_of (pairing_locator_path root c)) = Some m" for m c
    using that unfolding setup_names(4) [OF v] by (rule k)
  note E = remove_owned_effect [where lock = ?lock, OF d] remove_owned_effect [where lock = ?lock, OF r]
    remove_owned_effect [where lock = ?lock, OF k'] remove_owned_effect [where lock = ?lock, OF k''] remove_owned_effect [where lock = ?lock, OF kl]
    remove_owned_stub_effect [of "path_of (sj_identity_stub j)" root ?lock]
  let ?C = "case sj_candidate j of None \<Rightarrow> {} | Some c \<Rightarrow> {path_of (pairing_locator_path root c)}"
  let ?m = "case sj_candidate j of Some stub \<Rightarrow> remove_owned ops root ?lock (path_of (pairing_locator_path root stub)) | None \<Rightarrow> retS ()"
  have c: "touches files ?C ?m" "clears files ?C ?m" using E(9,10) by (auto split: option.splits simp: clears_def)
  show "touches files (owned_paths root j) (remove_owned_files ops root j n)"
    unfolding remove_owned_files_def Let_def
    by (intro touches_bindS touches_mono [OF E(1)] touches_mono [OF E(3)] touches_mono [OF E(5)] touches_mono [OF E(7)]
        touches_mono [OF c(1)] touches_mono [OF E(11)]) (auto simp: owned_paths_def b)
  have "clears files ({path_of (sj_desktop_state j)} \<union> ({path_of (sj_replay_state j)} \<union> ({path_of (sidecar root n ''.pending'')} \<union>
      (?C \<union> ({path_of (sj_identity_stub j)} \<union> {?lock}))))) (remove_owned_files ops root j n)"
    unfolding remove_owned_files_def Let_def by (intro clears_bindS E c)
  moreover have "owned_paths root j = {path_of (sj_desktop_state j)} \<union> ({path_of (sj_replay_state j)} \<union> ({path_of (sidecar root n ''.pending'')} \<union>
      (?C \<union> ({path_of (sj_identity_stub j)} \<union> {?lock}))))" by (auto simp: owned_paths_def b)
  ultimately show "clears files (owned_paths root j) (remove_owned_files ops root j n)" by simp
qed

lemma cleanup_files_effect:
  assumes "cleanup_files L ops root j s = (t, r)" and v: "setup_validate_root True root j = Inr ()"
  shows "same_but files (owned_paths root j) s t" "r = Inr () \<Longrightarrow> \<forall>p \<in> owned_paths root j. files t p = None"
proof -
  let ?f = "file_name (path_of (sj_replay_state j))"
  have d: "touches files (owned_paths root j) (dropping_lock ops (path_of (sidecar root n ''.lock'')) (remove_owned_files ops root j n))"
    "clears files (owned_paths root j) (dropping_lock ops (path_of (sidecar root n ''.lock'')) (remove_owned_files ops root j n))"
    if "?f = Some n" for n
    using remove_owned_files_effect [OF v that] unlock_quiet
    by (auto simp: touches_def clears_def same_but_def dropping_lock_def split: prod.splits)
  have l: "touches files (owned_paths root j) (so_lock ops (path_of (sidecar root n ''.lock'')))" if "?f = Some n" for n
    using setup_names(3) [OF v that] by (intro touches_mono [OF lock_touches]) (auto simp: owned_paths_def)
  have "touches files (owned_paths root j) (cleanup_files L ops root j)"
    unfolding cleanup_files_def Let_def v
    by (cases ?f) (auto intro!: touches_bindS touches_mapErrS quiet_any read_quiet l d(1) simp: okOr_def)
  then show "same_but files (owned_paths root j) s t" by (rule touchesD) (rule assms(1))
  show "\<forall>p \<in> owned_paths root j. files t p = None" if "r = Inr ()"
  proof -
    from assms(1) that obtain n u x where n: "?f = Some n"
      and u: "dropping_lock ops (path_of (sidecar root n ''.lock'')) (remove_owned_files ops root j n) u = (x, Inr ())"
      and t: "so_remove_temporaries ops (journal_at root) x = (t, Inr ())"
      by (auto simp: cleanup_files_def bindS_Inr_iff mapErrS_Inr_iff Let_def okOr_def split: option.splits)
    have "files t = files x" by (rule same_but_empty [OF touchesD [OF temporaries_quiet t]])
    with clearsD [OF d(2) [OF n] u] show ?thesis by simp
  qed
qed

lemma removal_effect:
  assumes c: "cleanup_owned L ops root j s = (t, r)" and v: "setup_validate_root True root j = Inr ()"
  shows "same_but files (insert (journal_at root) (owned_paths root j)) s t \<and>
    (files t (journal_at root) = files s (journal_at root) \<or> (\<forall>p \<in> owned_paths root j. files t p = None)) \<and>
    (r = Inr () \<longrightarrow> files t (journal_at root) = None \<and> (\<forall>p \<in> owned_paths root j. files t p = None))"
  using c unfolding cleanup_owned_def
proof (rule bindS_cases)
  fix e assume c: "cleanup_files L ops root j s = (t, Inl e)" "r = Inl e"
  note o = cleanup_files_effect(1) [OF c(1) v]
  from same_but_mono [OF o subset_insertI] same_butD [OF o journal_not_owned(1) [OF v]] c(2) show ?thesis by simp
next
  fix u x assume c: "cleanup_files L ops root j s = (u, Inr x)" "setup_remove ops root u = (t, r)"
  note o = cleanup_files_effect(1) [OF c(1) v] and m = remove_effect [OF c(2)]
  have "files t p = None" if "p \<in> owned_paths root j" for p
    using cleanup_files_effect(2) [OF c(1) v] that same_butD [OF m(1), of p] journal_not_owned(1) [OF v] by auto
  moreover have "same_but files (insert (journal_at root) (owned_paths root j)) u t" by (rule same_but_mono [OF m(1)]) blast
  ultimately show ?thesis using same_but_trans [OF same_but_mono [OF o subset_insertI]] m(3) by blast
qed

end

end
