(* ===== verification/Setup_Flow.thy ===== *)
theory Setup_Flow
  imports Setup_Command
begin

text \<open>
  The commands \<open>setup\<close>, \<open>setup --resume\<close>, \<open>setup --cleanup\<close> and \<open>pair\<close> of \<open>main.rs\<close> as built for macOS,
  over the storage of \<open>Setup_Command\<close> and the terminal and transports of \<open>Pair_Command\<close>.
\<close>

subsection \<open>Texts\<close>

definition setup_error_display :: "setup_error \<Rightarrow> string" where
  "setup_error_display e = (case e of
     SetupUnsupported \<Rightarrow> ''simplified setup requires a supported Windows or macOS hardware desktop''
   | SetupPendingError \<Rightarrow> ''a desktop setup attempt is already pending''
   | SetupMissing \<Rightarrow> ''the desktop setup journal is missing''
   | SetupInvalid \<Rightarrow> ''the desktop setup journal is malformed, mismatched, or insecure''
   | SetupStorage \<Rightarrow> ''the desktop setup journal could not be durably stored''
   | SetupBusy \<Rightarrow> ''another desktop lifecycle operation is active'')"

definition adb_error_display :: "adb_error \<Rightarrow> string" where
  "adb_error_display e = (case e of
     AdbUnavailable \<Rightarrow> ''ADB is unavailable or returned an invalid result''
   | NoDevice \<Rightarrow> ''no online Android device is connected''
   | DeviceSelectionRequired \<Rightarrow> ''multiple Android devices require explicit selection''
   | DeviceUnavailable \<Rightarrow> ''the selected Android device is unauthorized, offline, missing, or replaced''
   | ReverseRuleExists \<Rightarrow> ''the selected ADB reverse port is already in use''
   | ReverseRule \<Rightarrow> ''failed to create or remove the exact ADB reverse rule''
   | AppLaunch \<Rightarrow> ''failed to launch the fixed Android unwrap action''
   | AdbConnectionTimeout \<Rightarrow> ''the phone did not connect before the hard deadline''
   | InvalidPeer \<Rightarrow> ''an unexpected non-loopback peer connected''
   | AdbTransport \<Rightarrow> ''the bounded transport session failed'')"

definition policy_error_display :: "policy_error \<Rightarrow> string" where
  "policy_error_display e = (case e of
     ConflictingHints \<Rightarrow> ''ADB and Wi-Fi route hints cannot be combined''
   | InconsistentHints \<Rightarrow> ''the selected transport does not accept these route hints''
   | InvalidRouteHint \<Rightarrow> ''the selected transport route hint is malformed or unsupported''
   | MissingWifiEndpoint \<Rightarrow> ''foreground Wi-Fi requires an explicit endpoint''
   | UnsupportedOperation \<Rightarrow> ''the selected transport does not support this operation''
   | TransportUnavailable \<Rightarrow> ''the selected transport is not implemented'')"

definition scan_error_display :: "scan_error \<Rightarrow> string" where
  "scan_error_display e = (case e of
     CameraUnavailable \<Rightarrow> ''desktop camera is unavailable''
   | UnsupportedFrame \<Rightarrow> ''desktop camera frame is unsupported''
   | ScanTimeout \<Rightarrow> ''QR response scan timed out''
   | ScanCancelled \<Rightarrow> ''QR response scan was cancelled''
   | InvalidTransfer \<Rightarrow> ''QR response fragments were rejected'')"

subsection \<open>Surroundings\<close>

text \<open>Beside those of \<open>pair\<close>: the platform, the standard error that replaces the standard output when the
  result is asked for as JSON, the encoder of that result, the camera, and the random draws.\<close>

record ('s, 'w, 'sk) setup_env =
  se_ops :: "'s setup_ops"
  se_pair :: "('w, 'sk) pair_env"
  se_write :: "bool \<Rightarrow> string \<Rightarrow> ('w, unit, unit) step"
  se_json :: "nat \<Rightarrow> os_path \<Rightarrow> string \<Rightarrow> ('w, unit, unit) step"
  se_newline :: "('w, unit, unit) step"
  se_camera :: "('w, scan_error, unit) step"
  se_enclave :: bool
  se_desktop_id :: bytes
  se_setup_code :: bytes
  se_terminal_text :: string

definition interaction :: "('s, 'w, 'sk) setup_env \<Rightarrow> bool \<Rightarrow> ('w, 'sk) pair_env" where
  "interaction Z json = (se_pair Z)\<lparr> pe_write := se_write Z json \<rparr>"

definition command_error_display :: "('s, 'w, 'sk) setup_env \<Rightarrow> command_error \<Rightarrow> string" where
  "command_error_display Z e = (case e of
     CommandError _ message \<Rightarrow> message | FromPolicy p \<Rightarrow> policy_error_display p | FromAdb a \<Rightarrow> adb_error_display a
   | _ \<Rightarrow> se_terminal_text Z)"

definition setup_text :: "('s, setup_error, 'a) step \<Rightarrow> ('s, command_error, 'a) step" where
  "setup_text m = mapErrS (\<lambda>e. other (setup_error_display e)) m"

definition ensure_desktop_platform_supported :: "('s, 'w, 'sk) setup_env \<Rightarrow> (command_error, unit) result" where
  "ensure_desktop_platform_supported Z = failIf (\<not> se_enclave Z) (CommandError KindUnsupported
     ''macOS Secure Enclave is unavailable; desktop private operations require hardware keys'')"

text \<open>On macOS nothing is removed by a failure.\<close>

definition rollback_setup_error :: "string \<Rightarrow> bool \<Rightarrow> command_error" where
  "rollback_setup_error message phone_may_be_paired =
     other (message @ ''; setup state was retained; use setup --cleanup'' @
       (if phone_may_be_paired then ''; revoke the matching full fingerprint on the phone if it was committed there'' else []))"

definition rolled_back :: "('s, 'w, 'sk) setup_env \<Rightarrow> bool \<Rightarrow> command_error \<Rightarrow> command_error" where
  "rolled_back Z phone_may_be_paired e = (case e of
     StillRunning \<Rightarrow> StillRunning | CommandPanic \<Rightarrow> CommandPanic
   | _ \<Rightarrow> rollback_setup_error (command_error_display Z e) phone_may_be_paired)"

subsection \<open>The transport\<close>

datatype prepared_transport = PreparedAdb string | PreparedWifi socket_addr | PreparedQr

definition preflight_error :: "adb_error \<Rightarrow> command_error" where
  "preflight_error e = other (if e = DeviceSelectionRequired
     then ''multiple Android devices require --adb-serial SERIAL; no pairing state was created''
     else ''Developer USB preflight failed: '' @ adb_error_display e @ ''; no pairing state was created'')"

definition prepare_pairing_transport ::
    "('s, 'w, 'sk) setup_env \<Rightarrow> transport_route \<Rightarrow> ('w, command_error, prepared_transport) step" where
  "prepare_pairing_transport Z route = (case route_kind route of
     AdbKind \<Rightarrow>
       bindS (mapErrS preflight_error (preflight_device (xe_adb (pe_exchange (se_pair Z))) (route_adb_serial route))) (\<lambda>s.
       retS (PreparedAdb s))
   | QrKind \<Rightarrow>
       bindS (mapErrS (\<lambda>e. other (''QR camera preflight failed: '' @ scan_error_display e @ ''; no pairing state was created''))
         (se_camera Z)) (\<lambda>_. retS PreparedQr)
   | WifiKind \<Rightarrow> (case route_wifi_address route of None \<Rightarrow> errS CommandPanic | Some endpoint \<Rightarrow> retS (PreparedWifi endpoint))
   | BleKind \<Rightarrow> errS CommandPanic)"

definition prepared_exchange ::
    "('pk, 'sg, 'sk) lib \<Rightarrow> ('w, 'sk) pair_env \<Rightarrow> prepared_transport \<Rightarrow> bytes \<Rightarrow> ('w, command_error, bytes) step" where
  "prepared_exchange L E prepared offer = (case prepared of
     PreparedAdb s \<Rightarrow> command_exchange_adb E PairingPurpose offer (Some s)
   | PreparedWifi endpoint \<Rightarrow> command_exchange_wifi E PairingPurpose offer endpoint
   | PreparedQr \<Rightarrow> exchange_pairing_qr L E offer)"

definition discover_setup_wifi ::
    "('s, 'w, 'sk) setup_env \<Rightarrow> transport_choice \<Rightarrow> string option \<Rightarrow> ('w, command_error, socket_addr option) step" where
  "discover_setup_wifi Z transport adb_serial =
     (if adb_serial = None \<and> (transport = AutoChoice \<or> transport = WifiChoice)
      then bindS (tryS (pe_discover (se_pair Z) (se_desktop_id Z))) (\<lambda>r. case r of
          Inr discovered \<Rightarrow> retS (Some discovered)
        | Inl e \<Rightarrow>
            if e = DiscoveryUnavailable \<and> transport = AutoChoice then retS None
            else errS (other (''Wi-Fi pairing discovery failed: '' @ wifi_error_display e @ ''; no setup state was created'')))
      else retS None)"

subsection \<open>The attempt\<close>

definition setup_root :: "('s, 'w, 'sk) setup_env \<Rightarrow> (command_error, os_path) result" where
  "setup_root Z = mapErr (\<lambda>_. other ''phone plugin configuration is unavailable'') (pe_config_root (se_pair Z))"

text \<open>The lifecycle lock is held from here to the end of the command.\<close>

definition holding_lifecycle_lock ::
    "('s, 'w, 'sk) setup_env \<Rightarrow> os_path \<Rightarrow> ('s \<times> 'w, command_error, 'a) step \<Rightarrow> ('s \<times> 'w, command_error, 'a) step" where
  "holding_lifecycle_lock Z root m =
     bindS (on_disk (setup_text (acquire_lifecycle_lock (se_ops Z) root))) (\<lambda>_ sw.
     case m sw of ((s, w), r) \<Rightarrow> ((so_unlock (se_ops Z) (path_of (cleanup_lock_path root)) s, w), r))"

definition new_setup_journal ::
    "('s, 'w, 'sk) setup_env \<Rightarrow> os_path \<Rightarrow> transport_choice \<Rightarrow> (os_path \<times> os_path \<times> os_path) option \<Rightarrow>
     (command_error, setup_journal) result" where
  "new_setup_journal Z root transport explicit_paths = (case explicit_paths of
     Some paths \<Rightarrow>
       mapErr (\<lambda>_. CommandError KindInvalidInput ''explicit pairing paths are invalid or overlap reserved state'')
         (setup_new_explicit True root (se_setup_code Z) (se_desktop_id Z) paths transport)
   | None \<Rightarrow> Inr (setup_new_with_transport root (se_setup_code Z) (se_desktop_id Z) transport))"

definition claim_setup ::
    "('pk, 'sg, 'sk) lib \<Rightarrow> ('s, 'w, 'sk) setup_env \<Rightarrow> os_path \<Rightarrow> transport_choice \<Rightarrow>
     (os_path \<times> os_path \<times> os_path) option \<Rightarrow> ('s, command_error, setup_journal) step" where
  "claim_setup L Z root transport explicit_paths = (let ops = se_ops Z in
     bindS (setup_text (ensure_no_cleanup_pending ops root)) (\<lambda>_.
     bindS (setup_text (setup_read_optional L ops root)) (\<lambda>pending.
     bindS (failS (pending \<noteq> None) (CommandError KindAlreadyExists
       ''an incomplete setup exists; use setup --resume or setup --cleanup'')) (\<lambda>_.
     bindS (liftS (new_setup_journal Z root transport explicit_paths)) (\<lambda>j s.
     if so_exists ops (path_of (sj_desktop_state j)) s \<or> so_exists ops (path_of (sj_replay_state j)) s \<or>
        so_exists ops (path_of (sj_identity_stub j)) s
     then (s, Inl (CommandError KindAlreadyExists ''pairing output already exists; no existing state was modified''))
     else bindS (setup_text (setup_create L ops root j)) (\<lambda>_. retS j) s)))))"

definition begin_setup ::
    "('pk, 'sg, 'sk) lib \<Rightarrow> ('s, 'w, 'sk) setup_env \<Rightarrow> os_path \<Rightarrow> string \<Rightarrow> setup_journal \<Rightarrow>
     ('s, command_error, setup_journal \<times> desktop_pairing_session) step" where
  "begin_setup L Z root desktop_label j = (let ops = se_ops Z in
     bindS (mapErrS (\<lambda>_. rollback_setup_error ''failed to create new hardware desktop state; no existing key was reused'' False)
       (so_key_create ops (path_of (sj_desktop_state j)) (se_desktop_id Z))) (\<lambda>state.
     bindS (mapErrS (\<lambda>e. rollback_setup_error (setup_error_display e) False) (setup_replace L ops root (set_pairing j))) (\<lambda>_.
     bindS (liftS (mapErr (\<lambda>_. rollback_setup_error ''desktop selection key is unavailable'' False) (ns_selection_public state)))
       (\<lambda>selection_public.
     bindS (liftS (mapErr (\<lambda>_. rollback_setup_error ''failed to create pairing offer'' False)
       (session_begin L (ns_desktop_id state) desktop_label (ns_signer state) selection_public 0 (pe_nonce (se_pair Z))))) (\<lambda>session.
     retS (set_pairing j, session))))))"

text \<open>The journal names the candidate before the user is asked.\<close>

definition journal_candidate ::
    "('pk, 'sg, 'sk) lib \<Rightarrow> ('s, 'w, 'sk) setup_env \<Rightarrow> os_path \<Rightarrow> public_identity_stub \<Rightarrow>
     (setup_journal \<times> 's, command_error, unit) step" where
  "journal_candidate L Z root candidate = (\<lambda>(j, s). case set_candidate candidate j of
     (j, Inl _) \<Rightarrow> ((j, s), Inl (other ''verified pairing candidate is invalid''))
   | (j, Inr _) \<Rightarrow> (case setup_replace L (se_ops Z) root j s of
       (s, r) \<Rightarrow> ((j, s), mapErr (\<lambda>_. other ''failed to journal the verified phone response'') r)))"

definition confirm_setup ::
    "('pk, 'sg, 'sk) lib \<Rightarrow> ('s, 'w, 'sk) setup_env \<Rightarrow> os_path \<Rightarrow> bool \<Rightarrow> bytes \<Rightarrow> desktop_pairing_session \<Rightarrow> setup_journal \<Rightarrow>
     ('s \<times> 'w, command_error, setup_journal \<times> public_identity_stub) step" where
  "confirm_setup L Z root json response session j = (\<lambda>(s, w).
     case complete_pairing_interaction L (interaction Z json) response (journal_candidate L Z root) session ((j, s), w) of
       (((j, s), w), Inl e) \<Rightarrow> ((s, w), Inl (rolled_back Z True e))
     | (((j, s), w), Inr stub) \<Rightarrow> (case set_confirmed stub j of
         (j, Inl _) \<Rightarrow> ((s, w), Inl (rollback_setup_error ''failed to journal confirmed setup'' True))
       | (j, Inr _) \<Rightarrow> (case setup_replace L (se_ops Z) root j s of
           (s, Inl _) \<Rightarrow> ((s, w), Inl (rollback_setup_error ''failed to journal confirmed setup'' True))
         | (s, Inr _) \<Rightarrow> ((s, w), Inr (j, stub)))))"

definition commit_setup ::
    "('pk, 'sg, 'sk) lib \<Rightarrow> ('s, 'w, 'sk) setup_env \<Rightarrow> os_path \<Rightarrow> setup_journal \<Rightarrow> recipient_type \<Rightarrow> string \<Rightarrow>
     ('s, command_error, unit) step" where
  "commit_setup L Z root j recipient_type message =
     bindS (liftS (mapErr (\<lambda>_. other ''system clock is unavailable'') (now_unix (pe_clock (se_pair Z))))) (\<lambda>now.
     mapErrS (\<lambda>_. other message) (commit_confirmed_for L (se_ops Z) root j now recipient_type))"

definition write_setup_result_json ::
    "('s, 'w, 'sk) setup_env \<Rightarrow> os_path \<Rightarrow> string \<Rightarrow> ('w, command_error, unit) step" where
  "write_setup_result_json Z identity_path recipient =
     bindS (mapErrS (\<lambda>_. other ''failed to encode public setup result'') (se_json Z 1 identity_path recipient)) (\<lambda>_.
     mapErrS (\<lambda>_. TerminalError) (se_newline Z))"

definition RECOVERY_NOTE :: string where
  "RECOVERY_NOTE = ''Pairing success is not a recovery drill. Retained data also needs an independently verified recovery recipient.'' @ [NL]"

definition print_setup_outputs ::
    "('pk, 'sg, 'sk) lib \<Rightarrow> ('s, 'w, 'sk) setup_env \<Rightarrow> os_path \<Rightarrow> public_identity_stub \<Rightarrow> bool \<Rightarrow> recipient_type \<Rightarrow>
     ('w, command_error, unit) step" where
  "print_setup_outputs L Z identity_output stub json recipient_type = (let out = mapErrS (\<lambda>_. TerminalError) \<circ> se_write Z json in
     bindS (liftS (mapErr (\<lambda>_. other ''failed to encode selectable recipient'') (recipient_for L stub recipient_type))) (\<lambda>recipient.
     if json then bindS (out RECOVERY_NOTE) (\<lambda>_. write_setup_result_json Z identity_output recipient)
     else bindS (out (''Recipient: '' @ recipient @ [NL])) (\<lambda>_.
       bindS (out (''Public identity stub: '' @ identity_output @ [NL])) (\<lambda>_.
       bindS (out (''Encrypt with a standard age client: age -e -r '' @ recipient @ '' ...'' @ [NL])) (\<lambda>_.
       bindS (out (''Decrypt with a standard age client: age -d -i '' @ [CHR 0x22] @ identity_output @ [CHR 0x22] @ '' ...'' @ [NL])) (\<lambda>_.
       out RECOVERY_NOTE))))))"

definition claimed_setup ::
    "('pk, 'sg, 'sk) lib \<Rightarrow> ('s, 'w, 'sk) setup_env \<Rightarrow> string \<Rightarrow> bool \<Rightarrow> recipient_type \<Rightarrow> prepared_transport \<Rightarrow> os_path \<Rightarrow>
     setup_journal \<Rightarrow> ('s \<times> 'w, command_error, unit) step" where
  "claimed_setup L Z desktop_label json recipient_type prepared root j =
     bindS (on_disk (begin_setup L Z root desktop_label j)) (\<lambda>(j, session).
     bindS (on_world (mapErrS (rolled_back Z False)
       (prepared_exchange L (interaction Z json) prepared (session_signed_offer L session)))) (\<lambda>response.
     bindS (confirm_setup L Z root json response session j) (\<lambda>(j, stub).
     bindS (on_disk (commit_setup L Z root j recipient_type
       ''confirmed setup commit is incomplete; use setup --resume or setup --cleanup'')) (\<lambda>_.
     on_world (print_setup_outputs L Z (sj_identity_stub j) stub json recipient_type)))))"

definition new_setup ::
    "('pk, 'sg, 'sk) lib \<Rightarrow> ('s, 'w, 'sk) setup_env \<Rightarrow> string option \<Rightarrow> transport_choice \<Rightarrow> string option \<Rightarrow> bool \<Rightarrow>
     (os_path \<times> os_path \<times> os_path) option \<Rightarrow> recipient_type \<Rightarrow> ('s \<times> 'w, command_error, unit) step" where
  "new_setup L Z desktop_label transport adb_serial json explicit_paths recipient_type =
     bindS (liftS (okOr (CommandError KindInvalidInput ''new setup requires --label'') desktop_label)) (\<lambda>desktop_label.
     bindS (liftS (validate_setup_label desktop_label)) (\<lambda>_.
     bindS (liftS (ensure_desktop_platform_supported Z)) (\<lambda>_.
     bindS (on_world (discover_setup_wifi Z transport adb_serial)) (\<lambda>wifi_address.
     bindS (liftS (mapErr (\<lambda>e. CommandError KindInvalidInput (policy_error_display e)) (resolve_transport False transport
       PairingOperation \<lparr> hint_adb_serial = adb_serial, hint_wifi_address = wifi_address \<rparr>))) (\<lambda>route.
     bindS (liftS (ensure_desktop_platform_supported Z)) (\<lambda>_.
     bindS (on_world (prepare_pairing_transport Z route)) (\<lambda>prepared.
     bindS (liftS (setup_root Z)) (\<lambda>root.
     bindS (on_disk (mapErrS (\<lambda>_. other ''phone plugin configuration is unavailable'') (so_prepare_root (se_ops Z) (path_of root)))) (\<lambda>_.
     holding_lifecycle_lock Z root
       (bindS (on_disk (claim_setup L Z root transport explicit_paths))
         (claimed_setup L Z desktop_label json recipient_type prepared root)))))))))))"

subsection \<open>Recovery\<close>

definition recovered_journal :: "('pk, 'sg, 'sk) lib \<Rightarrow> ('s, 'w, 'sk) setup_env \<Rightarrow> os_path \<Rightarrow> ('s, command_error, setup_journal) step" where
  "recovered_journal L Z root =
     bindS (setup_text (ensure_no_cleanup_pending (se_ops Z) root)) (\<lambda>_. setup_text (setup_read L (se_ops Z) root))"

definition confirmed_by_user ::
    "('w, 'sk) pair_env \<Rightarrow> string \<Rightarrow> string \<Rightarrow> ('w, command_error, unit) step" where
  "confirmed_by_user E expected message =
     bindS (mapErrS (\<lambda>_. TerminalError) (pe_read_line E)) (\<lambda>entered.
     failS (trim_end entered \<noteq> expected) (CommandError KindPermissionDenied message))"

text \<open>With the lock held.\<close>

definition resume_locked ::
    "('pk, 'sg, 'sk) lib \<Rightarrow> ('s, 'w, 'sk) setup_env \<Rightarrow> bool \<Rightarrow> recipient_type \<Rightarrow> os_path \<Rightarrow> ('s \<times> 'w, command_error, unit) step" where
  "resume_locked L Z json recipient_type root =
     bindS (on_disk (recovered_journal L Z root)) (\<lambda>j.
     bindS (failS (sj_stage j \<noteq> StageConfirmed) (CommandError KindPermissionDenied
       ''this setup was not fully confirmed and may only be removed with setup --cleanup'')) (\<lambda>_.
     bindS (on_world (mapErrS (\<lambda>_. TerminalError) (se_write Z json (''Resume only this confirmed setup.'' @ [NL] @
       ''Full transcript fingerprint: '' @ confirmation_text j @ [NL] @ ''Type the full fingerprint to continue:'' @ [NL])))) (\<lambda>_.
     bindS (on_world (confirmed_by_user (se_pair Z) (confirmation_text j) ''setup resume confirmation did not match'')) (\<lambda>_.
     bindS (on_disk (commit_setup L Z root j recipient_type ''confirmed setup remains incomplete'')) (\<lambda>_.
     bindS (liftS (okOr CommandPanic (sj_candidate j))) (\<lambda>stub.
     on_world (print_setup_outputs L Z (sj_identity_stub j) stub json recipient_type)))))))"

definition resume_setup ::
    "('pk, 'sg, 'sk) lib \<Rightarrow> ('s, 'w, 'sk) setup_env \<Rightarrow> bool \<Rightarrow> recipient_type \<Rightarrow> ('s \<times> 'w, command_error, unit) step" where
  "resume_setup L Z json recipient_type =
     bindS (liftS (setup_root Z)) (\<lambda>root. holding_lifecycle_lock Z root (resume_locked L Z json recipient_type root))"

definition cleanup_locked :: "('pk, 'sg, 'sk) lib \<Rightarrow> ('s, 'w, 'sk) setup_env \<Rightarrow> os_path \<Rightarrow> ('s \<times> 'w, command_error, unit) step" where
  "cleanup_locked L Z root =
     bindS (on_disk (recovered_journal L Z root)) (\<lambda>j.
     bindS (on_world (\<lambda>w. (pe_print (se_pair Z) (''Remove only the incomplete setup recorded by the private journal.'' @ [NL] @
       ''Confirmation: '' @ confirmation_text j @ [NL] @ ''Type the complete value to remove it:'' @ [NL]) w, Inr ()))) (\<lambda>_.
     bindS (on_world (confirmed_by_user (se_pair Z) (confirmation_text j) ''setup cleanup confirmation did not match'')) (\<lambda>_.
     bindS (on_disk (mapErrS (\<lambda>_. other ''incomplete setup cleanup remains pending'') (cleanup_owned L (se_ops Z) root j))) (\<lambda>_.
     on_world (\<lambda>w. (pe_print (se_pair Z) ((if sj_candidate j \<noteq> None \<or> sj_stage j \<noteq> Provisioning
       then ''Incomplete desktop setup removed. Revoke the matching full fingerprint on the phone; local cleanup is not phone-side revocation.''
       else ''Incomplete desktop setup removed.'') @ [NL]) w, Inr ()))))))"

definition cleanup_setup :: "('pk, 'sg, 'sk) lib \<Rightarrow> ('s, 'w, 'sk) setup_env \<Rightarrow> ('s \<times> 'w, command_error, unit) step" where
  "cleanup_setup L Z =
     bindS (liftS (setup_root Z)) (\<lambda>root. holding_lifecycle_lock Z root (cleanup_locked L Z root))"

definition run_setup_impl ::
    "('pk, 'sg, 'sk) lib \<Rightarrow> ('s, 'w, 'sk) setup_env \<Rightarrow> string option \<Rightarrow> bool \<Rightarrow> bool \<Rightarrow> transport_choice \<Rightarrow> string option \<Rightarrow>
     bool \<Rightarrow> (os_path \<times> os_path \<times> os_path) option \<Rightarrow> recipient_type \<Rightarrow> ('s \<times> 'w, command_error, unit) step" where
  "run_setup_impl L Z desktop_label resume cleanup transport adb_serial json explicit_paths recipient_type =
     (if resume \<or> cleanup then
        bindS (failS (desktop_label \<noteq> None \<or> transport \<noteq> AutoChoice \<or> adb_serial \<noteq> None) (CommandError KindInvalidInput
          ''setup recovery modes do not accept label or transport options'')) (\<lambda>_.
        bindS (liftS (ensure_desktop_platform_supported Z)) (\<lambda>_.
        if resume then resume_setup L Z json recipient_type else cleanup_setup L Z))
      else new_setup L Z desktop_label transport adb_serial json explicit_paths recipient_type)"

definition run_setup ::
    "('pk, 'sg, 'sk) lib \<Rightarrow> ('s, 'w, 'sk) setup_env \<Rightarrow> string option \<Rightarrow> bool \<Rightarrow> bool \<Rightarrow> transport_choice \<Rightarrow> string option \<Rightarrow>
     bool \<Rightarrow> recipient_type \<Rightarrow> ('s \<times> 'w, command_error, unit) step" where
  "run_setup L Z desktop_label resume cleanup transport adb_serial json recipient_type =
     run_setup_impl L Z desktop_label resume cleanup transport adb_serial json None recipient_type"

definition run_pair_hardware ::
    "('pk, 'sg, 'sk) lib \<Rightarrow> ('s, 'w, 'sk) setup_env \<Rightarrow> string \<Rightarrow> os_path \<Rightarrow> os_path \<Rightarrow> os_path \<Rightarrow> transport_choice \<Rightarrow>
     string option \<Rightarrow> recipient_type \<Rightarrow> ('s \<times> 'w, command_error, unit) step" where
  "run_pair_hardware L Z desktop_label desktop_state identity_output replay_state transport adb_serial recipient_type =
     run_setup_impl L Z (Some desktop_label) False False transport adb_serial False
       (Some (desktop_state, replay_state, identity_output)) recipient_type"

end
