(* ===== verification/Setup_Runs.thy ===== *)
theory Setup_Runs
  imports Setup_Files Setup_Flow Pair_Commit
begin

text \<open>
  What the commands of \<open>Setup_Flow\<close> do to the files, over platform operations that keep the contract of
  \<open>Setup_Files\<close>: at every way out a journal on disk owns every changed file, unless the pairing is
  complete (or, after a removal, everything owned is gone).
\<close>

subsection \<open>Parts of a command\<close>

lemma on_disk_run: "on_disk m (s, w) = ((t, w'), r) \<longleftrightarrow> m s = (t, r) \<and> w' = w"
  by (auto simp: on_disk_def split: prod.splits)

lemma on_world_run: "on_world m (s, w) = ((t, w'), r) \<longleftrightarrow> m w = (w', r) \<and> t = s"
  by (auto simp: on_world_def split: prod.splits)

lemma mapErrS_run:
  assumes "mapErrS g m s = (t, r)" obtains q where "m s = (t, q)" "r = mapErr g q"
  using assms by (auto simp: mapErrS_def split: prod.splits)

lemma mapErr_Inr_eq: "mapErr g q = Inr x \<longleftrightarrow> q = Inr x" by (cases q) simp_all

lemma journal_not_lifecycle: "journal_at root \<noteq> lifecycle_at root"
proof -
  have "plain_name ''desktop-cleanup.lock''" by (simp add: plain_name_def)
  from path_join_last [OF this, of root] path_join_last [OF journal_name_plain, of root]
  show ?thesis by (auto simp: setup_journal_path_def cleanup_lock_path_def SETUP_JOURNAL_NAME_def)
qed

text \<open>Nothing was written, but for the lock of the lifecycle.\<close>

abbreviation untouched :: "('s \<Rightarrow> path \<Rightarrow> bytes option) \<Rightarrow> os_path \<Rightarrow> 's \<Rightarrow> 's \<Rightarrow> bool" where
  "untouched files root s t \<equiv> same_but files {lifecycle_at root} s t"

text \<open>What may differ for a journal.\<close>

definition setup_scope :: "os_path \<Rightarrow> setup_journal \<Rightarrow> path set" where
  "setup_scope root j = {journal_at root, lifecycle_at root} \<union> owned_paths root j"

text \<open>A session for the keys that were created.\<close>

definition session_begun ::
    "('pk, 'sg, 'sk) lib \<Rightarrow> ('s, 'w, 'sk) setup_env \<Rightarrow> string \<Rightarrow> desktop_pairing_session \<Rightarrow> bool" where
  "session_begun L Z desktop_label session \<longleftrightarrow> (\<exists>s1 s2 p state selection.
     so_key_create (se_ops Z) p (se_desktop_id Z) s1 = (s2, Inr state) \<and> ns_selection_public state = Inr selection \<and>
     session_begin L (ns_desktop_id state) desktop_label (ns_signer state) selection 0 (pe_nonce (se_pair Z)) = Inr session)"

text \<open>The user typed the fingerprint of a verified answer to the offer of the keys just created.\<close>

definition pairing_confirmed ::
    "('pk, 'sg, 'sk) lib \<Rightarrow> ('s, 'w, 'sk) setup_env \<Rightarrow> bool \<Rightarrow> string \<Rightarrow> public_identity_stub \<Rightarrow> bool" where
  "pairing_confirmed L Z json desktop_label stub \<longleftrightarrow>
     (\<exists>session prepared w1 w2 response t1 m w3 w4 w5 line. session_begun L Z desktop_label session \<and>
        prepared_exchange L (interaction Z json) prepared (session_signed_offer L session) w1 = (w2, Inr response) \<and>
        accepted_response L session response t1 m \<and>
        stub = stub_from_response L session m (pairing_fingerprint L (ps_offer session) m) \<and>
        se_write Z json (fingerprint_prompt (hex (sb_transcript_fingerprint stub))) w3 = (w4, Inr ()) \<and>
        pe_read_line (se_pair Z) w4 = (w5, Inr line) \<and> trim line = hex (sb_transcript_fingerprint stub))"

text \<open>The user typed what a recovery of the journal asks for.\<close>

definition asked_for :: "('w, 'sk) pair_env \<Rightarrow> setup_journal \<Rightarrow> bool" where
  "asked_for E j \<longleftrightarrow> (\<exists>w1 w2 entered. pe_read_line E w1 = (w2, Inr entered) \<and> trim_end entered = confirmation_text j)"

definition justified :: "(public_identity_stub \<Rightarrow> bool) \<Rightarrow> setup_journal \<Rightarrow> bool" where
  "justified A j \<longleftrightarrow> (sj_stage j = StageConfirmed \<longrightarrow> (\<exists>stub. sj_candidate j = Some stub \<and> A stub))"

definition new_journal :: "setup_journal \<Rightarrow> bool" where
  "new_journal j \<longleftrightarrow> sj_candidate j = None \<and> sj_stage j = Provisioning"

definition covered ::
    "(public_identity_stub \<Rightarrow> bool) \<Rightarrow> ('pk, 'sg, 'sk) lib \<Rightarrow> ('s \<Rightarrow> path \<Rightarrow> bytes option) \<Rightarrow> os_path \<Rightarrow> 's \<Rightarrow>
     setup_journal \<Rightarrow> 's \<Rightarrow> bool" where
  "covered A L files root s j t \<longleftrightarrow>
     journal_on_disk L files root j t \<and> justified A j \<and> same_but files (setup_scope root j) s t"

definition finished ::
    "(public_identity_stub \<Rightarrow> bool) \<Rightarrow> ('s \<Rightarrow> path \<Rightarrow> bytes option) \<Rightarrow> os_path \<Rightarrow> 's \<Rightarrow> setup_journal \<Rightarrow> 's \<Rightarrow> bool" where
  "finished A files root s j t \<longleftrightarrow>
     setup_complete files root j t \<and> justified A j \<and> same_but files (setup_scope root j) s t"

lemma owned_paths_stages [simp]: "owned_paths root (set_pairing j) = owned_paths root j"
  by (simp add: owned_paths_def set_pairing_def)

lemma set_candidate_ok:
  assumes "set_candidate c j = (j', Inr ())" shows "sj_stage j' = ResponseVerified" "sj_desktop_state j' = sj_desktop_state j" "sj_replay_state j' = sj_replay_state j"
    "sj_identity_stub j' = sj_identity_stub j" "sj_candidate j' = Some c"
  using assms by (auto simp: set_candidate_def split: if_splits)

lemma set_confirmed_ok:
  assumes "set_confirmed c j = (j', Inr ())" shows "owned_paths root j' = owned_paths root j" "sj_candidate j' = Some c"
    "sj_identity_stub j' = sj_identity_stub j" "sj_stage j' = StageConfirmed"
  using assms by (auto simp: set_confirmed_def owned_paths_def split: if_splits)

lemma covered_validate: "covered A L files root s j t \<Longrightarrow> setup_validate_root True root j = Inr ()"
  by (simp add: covered_def journal_on_disk_def)

lemma covered_touched:
  assumes "covered A L files root s j t" "same_but files (owned_paths root j) t u" shows "covered A L files root s j u"
proof -
  have "files u (journal_at root) = files t (journal_at root)"
    using journal_not_owned(1) [OF covered_validate [OF assms(1)]] by (rule same_butD [OF assms(2)])
  moreover have "same_but files (setup_scope root j) t u" by (rule same_but_mono [OF assms(2)]) (auto simp: setup_scope_def)
  ultimately show ?thesis
    using assms(1) same_but_trans [of files "setup_scope root j" s t u] unfolding covered_def journal_on_disk_def by simp
qed

lemma covered_from:
  assumes "untouched files root s t" "covered A L files root t j u" shows "covered A L files root s j u"
proof -
  have "same_but files (setup_scope root j) s t" by (rule same_but_mono [OF assms(1)]) (simp add: setup_scope_def)
  with assms(2) same_but_trans [OF this] show ?thesis unfolding covered_def by simp
qed

lemma finished_from:
  assumes "untouched files root s t" "finished A files root t j u" shows "finished A files root s j u"
proof -
  have "same_but files (setup_scope root j) s t" by (rule same_but_mono [OF assms(1)]) (simp add: setup_scope_def)
  with assms(2) same_but_trans [OF this] show ?thesis unfolding finished_def by simp
qed

lemma new_setup_candidate:
  "new_setup_journal Z root transport explicit_paths = Inr j \<Longrightarrow> new_journal j"
  by (auto simp: new_journal_def new_setup_journal_def setup_new_explicit_def setup_new_with_transport_def setup_new_def Let_def
    mapErr_Inr_eq bindE_Inr_iff split: option.splits)

text \<open>What the interaction does to what \<open>on_verified\<close> works on.\<close>

lemma complete_pairing_interaction_run:
  assumes "complete_pairing_interaction L E response on_verified session (c, w) = ((c', w'), r)"
  shows "c' = c \<and> (\<exists>e. r = Inl e) \<or>
    (\<exists>candidate q. on_verified candidate c = (c', q) \<and> (q = Inr () \<or> (\<exists>e. r = Inl e)))"
proof -
  obtain w1 t1 where t1: "pe_elapsed E w = (w1, t1)" by fastforce
  obtain s1 q1 where q1: "receive_pairing_response L response t1 session = (s1, q1)" by fastforce
  show ?thesis
  proof (cases q1)
    case (Inl e)
    with assms t1 q1 show ?thesis by (auto simp: complete_pairing_interaction_def)
  next
    case (Inr shown)
    note run = assms [unfolded complete_pairing_interaction_def, simplified, unfolded t1, simplified, unfolded q1 Inr, simplified]
    show ?thesis
    proof (cases "pending_stub L s1")
      case (Inl e)
      with run show ?thesis by (auto simp: bindS_def)
    next
      case (Inr candidate)
      obtain c2 q where q: "on_verified candidate c = (c2, q)" by fastforce
      have od: "on_disk (on_verified candidate) (c, w1) = ((c2, w1), q)" by (simp add: on_disk_run q)
      from run Inr have run2: "bindS (on_disk (on_verified candidate)) (\<lambda>_.
          bindS (on_world (mapErrS (\<lambda>_. TerminalError) (pe_write E (fingerprint_prompt (pd_transcript_fingerprint shown))))) (\<lambda>_.
          bindS (on_world (mapErrS (\<lambda>_. TerminalError) (pe_read_line E))) (\<lambda>confirmation (c, w).
          case pe_elapsed E w of (w, t2) \<Rightarrow>
            ((c, w), mapErr (\<lambda>_. CommandError KindPermissionDenied ''pairing not confirmed'')
              (snd (confirm L (trim confirmation) t2 s1)))))) (c, w1) = ((c', w'), r)" by simp
      show ?thesis
      proof (cases q)
        case (Inl e)
        with run2 od q show ?thesis by (auto simp: bindS_def)
      next
        case (Inr u)
        with run2 od have "c' = c2"
          by (auto elim!: bindS_cases simp: on_world_run on_disk_run split: prod.splits)
        with q Inr show ?thesis by auto
      qed
    qed
  qed
qed

lemma bindS_pair_cases:
  assumes "bindS m f (s, w) = ((t, w'), r)"
  obtains e where "m (s, w) = ((t, w'), Inl e)" "r = Inl e"
    | s1 w1 x where "m (s, w) = ((s1, w1), Inr x)" "f x (s1, w1) = ((t, w'), r)"
  using bindS_cases [OF assms] by (metis surj_pair)

subsection \<open>The attempt\<close>

context setup_files
begin

lemma holding_effect:
  assumes "holding_lifecycle_lock Z root m (s, w) = ((t, w'), r)" "se_ops Z = ops"
  shows "untouched files root s t \<and> (\<exists>e. r = Inl e) \<or>
    (\<exists>u v. untouched files root s u \<and> m (u, w) = ((v, w'), r) \<and> files t = files v)"
proof -
  have a: "touches files {lifecycle_at root} (setup_text (acquire_lifecycle_lock ops root))"
    unfolding setup_text_def acquire_lifecycle_lock_def by (intro touches_mapErrS touches_bindS quiet_any lock_touches)
  from assms show ?thesis unfolding holding_lifecycle_lock_def
  proof (elim bindS_pair_cases)
    fix e assume "on_disk (setup_text (acquire_lifecycle_lock (se_ops Z) root)) (s, w) = ((t, w'), Inl e)" "r = Inl e"
    with touchesD [OF a] assms(2) show ?thesis by (simp add: on_disk_run)
  next
    fix u w1 x assume o: "on_disk (setup_text (acquire_lifecycle_lock (se_ops Z) root)) (s, w) = ((u, w1), Inr x)"
      and m: "(case m (u, w1) of ((s, w), r) \<Rightarrow> ((so_unlock (se_ops Z) (lifecycle_at root) s, w), r)) = ((t, w'), r)"
    from o touchesD [OF a] assms(2) have "untouched files root s u" "w1 = w" by (auto simp: on_disk_run)
    moreover from m obtain v where "m (u, w1) = ((v, w'), r)" "t = so_unlock (se_ops Z) (lifecycle_at root) v"
      by (auto split: prod.splits)
    ultimately show ?thesis using unlock_quiet assms(2) by auto
  qed
qed

lemma pending_quiet: "touches files T (setup_text (ensure_no_cleanup_pending ops root))"
  unfolding setup_text_def ensure_no_cleanup_pending_def by (intro touches_mapErrS touches_bindS quiet_any touches_simps)

lemma claim_effect:
  assumes "claim_setup L Z root transport explicit_paths s = (t, r)" "se_ops Z = ops"
  shows "same_but files {journal_at root} s t \<and> (\<forall>j. r = Inr j \<longrightarrow> journal_on_disk L files root j t \<and> new_journal j) \<and>
    (files s (journal_at root) \<noteq> None \<longrightarrow> files t = files s \<and> (\<exists>e. r = Inl e))"
proof -
  let ?ok = "\<lambda>t r. same_but files {journal_at root} s t \<and> (\<forall>j. r = Inr j \<longrightarrow> journal_on_disk L files root j t \<and> new_journal j) \<and>
    (files s (journal_at root) \<noteq> None \<longrightarrow> files t = files s \<and> (\<exists>e. r = Inl e))"
  have stop: "?ok t (Inl e)" if "files t = files s" for t and e :: command_error using that by (simp add: same_but_def)
  have go: "?ok t r" if c: "setup_text (setup_create L ops root j) u = (t, q)" and u: "files u = files s"
      and n: "files s (journal_at root) = None" and r: "r = (case q of Inl e \<Rightarrow> Inl e | Inr _ \<Rightarrow> Inr j)"
      and d: "new_journal j" for j u t q r
  proof -
    from c obtain q' where q': "setup_create L ops root j u = (t, q')" "q = mapErr (\<lambda>e. other (setup_error_display e)) q'"
      unfolding setup_text_def by (rule mapErrS_run)
    from create_effect [OF q'(1)] u n r d q'(2) show ?thesis by (cases q') (auto simp: same_but_def)
  qed
  from assms(1) show ?thesis unfolding claim_setup_def assms(2) Let_def
  proof (rule bindS_cases)
    fix e assume "setup_text (ensure_no_cleanup_pending ops root) s = (t, Inl e)" "r = Inl e"
    with stop same_but_empty [OF touchesD [OF pending_quiet]] show ?thesis by blast
  next
    fix s1 x assume s1: "setup_text (ensure_no_cleanup_pending ops root) s = (s1, Inr x)"
      and k: "bindS (setup_text (setup_read_optional L ops root)) (\<lambda>pending.
       bindS (failS (pending \<noteq> None) (CommandError KindAlreadyExists
         ''an incomplete setup exists; use setup --resume or setup --cleanup'')) (\<lambda>_.
       bindS (liftS (new_setup_journal Z root transport explicit_paths)) (\<lambda>j s.
       if so_exists ops (path_of (sj_desktop_state j)) s \<or> so_exists ops (path_of (sj_replay_state j)) s \<or>
          so_exists ops (path_of (sj_identity_stub j)) s
       then (s, Inl (CommandError KindAlreadyExists ''pairing output already exists; no existing state was modified''))
       else bindS (setup_text (setup_create L ops root j)) (\<lambda>_. retS j) s))) s1 = (t, r)"
    have f1: "files s1 = files s" by (rule same_but_empty [OF touchesD [OF pending_quiet s1]])
    obtain s2 q where q: "setup_read L ops root s1 = (s2, q)" by fastforce
    have f2: "files s2 = files s" using same_but_empty [OF touchesD [OF read_quiet q]] f1 by simp
    show ?thesis
    proof (cases q)
      case (Inr j)
      with k q have "t = s2" "\<exists>e. r = Inl e" by (auto simp: setup_text_def mapErrS_def setup_read_optional_def bindS_def tryS_def)
      with stop f2 show ?thesis by auto
    next
      case (Inl e)
      show ?thesis
      proof (cases "e = SetupMissing")
        case False
        with k q Inl have "t = s2" "\<exists>e. r = Inl e" by (auto simp: setup_text_def mapErrS_def setup_read_optional_def bindS_def tryS_def)
        with stop f2 show ?thesis by auto
      next
        case True
        with q Inl have n: "files s (journal_at root) = None" using read_missing f1 by metis
        from k q Inl True have k2: "bindS (liftS (new_setup_journal Z root transport explicit_paths)) (\<lambda>j s.
            if so_exists ops (path_of (sj_desktop_state j)) s \<or> so_exists ops (path_of (sj_replay_state j)) s \<or>
               so_exists ops (path_of (sj_identity_stub j)) s
            then (s, Inl (CommandError KindAlreadyExists ''pairing output already exists; no existing state was modified''))
            else bindS (setup_text (setup_create L ops root j)) (\<lambda>_. retS j) s) s2 = (t, r)"
          by (simp add: setup_text_def mapErrS_def setup_read_optional_def bindS_def tryS_def)
        show ?thesis
        proof (cases "new_setup_journal Z root transport explicit_paths")
          case (Inl e)
          with k2 have "t = s2" "r = Inl e" by (simp_all add: bindS_def)
          with stop [OF f2, of e] show ?thesis by simp
        next
          case (Inr j)
          obtain v p where v: "setup_text (setup_create L ops root j) s2 = (v, p)" by fastforce
          from k2 Inr v have "t = s2 \<and> (\<exists>e. r = Inl e) \<or> t = v \<and> r = (case p of Inl e \<Rightarrow> Inl e | Inr _ \<Rightarrow> Inr j)"
            by (auto simp: bindS_def split: if_splits sum.splits)
          moreover have "new_journal j" using Inr new_setup_candidate by blast
          ultimately show ?thesis using stop f2 go [OF v f2 n] by auto
        qed
      qed
    qed
  qed
qed

lemma replace_covered:
  assumes c: "covered A L files root s0 j s" and o: "owned_paths root j \<subseteq> owned_paths root j'" and J: "justified A j'"
    and r: "setup_replace L ops root j' s = (t, r)"
  shows "(covered A L files root s0 j t \<or> covered A L files root s0 j' t) \<and> (r = Inr () \<longrightarrow> covered A L files root s0 j' t)"
proof -
  note e = replace_effect [OF r]
  have "same_but files (setup_scope root j') s t" by (rule same_but_mono [OF e(1)]) (simp add: setup_scope_def)
  moreover have "same_but files (setup_scope root j') s0 s"
    by (rule same_but_mono [of _ "setup_scope root j"]) (use c o in \<open>auto simp: covered_def setup_scope_def\<close>)
  ultimately have b: "same_but files (setup_scope root j') s0 t" using same_but_trans by metis
  have a: "covered A L files root s0 j t" if "files t (journal_at root) = files s (journal_at root)"
  proof -
    have "files t p = files s p" for p using that same_butD [OF e(1), of p] by (cases "p = journal_at root") auto
    then have "files t = files s" by blast
    with c show ?thesis by (simp add: covered_def journal_on_disk_def same_but_def)
  qed
  show ?thesis using e(2,3) a b J unfolding covered_def by blast
qed

lemma begin_effect:
  assumes c: "covered A L files root s0 j s" and r: "begin_setup L Z root desktop_label j s = (t, r)" and Z: "se_ops Z = ops"
  shows "(\<exists>j'. covered A L files root s0 j' t) \<and> (\<forall>j' x. r = Inr (j', x) \<longrightarrow> covered A L files root s0 j' t \<and>
    sj_candidate j' = sj_candidate j \<and> session_begun L Z desktop_label x)"
proof -
  obtain s1 q where q: "so_key_create ops (path_of (sj_desktop_state j)) (se_desktop_id Z) s = (s1, q)" by fastforce
  have "same_but files (owned_paths root j) s s1"
    by (rule same_but_mono [OF touchesD [OF key_create_touches q]]) (simp add: owned_paths_def)
  from covered_touched [OF c this] have c1: "covered A L files root s0 j s1" .
  obtain s2 p where p: "setup_replace L ops root (set_pairing j) s1 = (s2, p)" by fastforce
  have "owned_paths root j \<subseteq> owned_paths root (set_pairing j)" "justified A (set_pairing j)"
    by (simp, simp add: justified_def set_pairing_def)
  note c2 = replace_covered [OF c1 this p]
  show ?thesis
  proof (cases q)
    case (Inl e)
    with r q Z c1 show ?thesis by (auto simp: begin_setup_def bindS_def mapErrS_def)
  next
    case q1: (Inr state)
    show ?thesis
    proof (cases p)
      case (Inl e)
      with r q p q1 Z c2 show ?thesis by (auto simp: begin_setup_def bindS_def mapErrS_def)
    next
      case (Inr x)
      with c2 have c2': "covered A L files root s0 (set_pairing j) s2" by simp
      from r q p q1 Inr Z have "t = s2 \<and> (\<forall>j' x. r = Inr (j', x) \<longrightarrow> j' = set_pairing j \<and>
          (\<exists>selection. ns_selection_public state = Inr selection \<and>
            session_begin L (ns_desktop_id state) desktop_label (ns_signer state) selection 0 (pe_nonce (se_pair Z)) = Inr x))"
        by (auto simp: begin_setup_def bindS_def mapErrS_def mapErr_Inr_eq mapErr_Inl_iff split: sum.splits)
      moreover have "session_begun L Z desktop_label x" if "ns_selection_public state = Inr selection"
        "session_begin L (ns_desktop_id state) desktop_label (ns_signer state) selection 0 (pe_nonce (se_pair Z)) = Inr x" for x selection
        unfolding session_begun_def using q q1 Z that by blast
      ultimately show ?thesis using c2' by (auto simp: set_pairing_def)
    qed
  qed
qed

lemma journal_candidate_effect:
  assumes c: "covered A L files root s0 j s" and r: "journal_candidate L Z root candidate (j, s) = ((j', t), q)" and Z: "se_ops Z = ops"
    and n: "sj_candidate j = None"
  shows "(\<exists>k. covered A L files root s0 k t) \<and> (q = Inr () \<longrightarrow> covered A L files root s0 j' t)"
proof -
  obtain k p where k: "set_candidate candidate j = (k, p)" by fastforce
  show ?thesis
  proof (cases p)
    case (Inl e)
    with r k c show ?thesis by (auto simp: journal_candidate_def)
  next
    case (Inr x)
    obtain u v where u: "setup_replace L ops root k s = (u, v)" by fastforce
    from Inr k have "set_candidate candidate j = (k, Inr ())" by simp
    note sc = set_candidate_ok [OF this]
    have o: "owned_paths root j \<subseteq> owned_paths root k" using n sc by (simp add: owned_paths_def)
    from r k Inr u Z have "t = u \<and> j' = k \<and> (q = Inr () \<longleftrightarrow> v = Inr ())" by (auto simp: journal_candidate_def mapErr_Inr_eq)
    moreover have "justified A k" using sc(1) by (simp add: justified_def)
    ultimately show ?thesis using replace_covered [OF c o _ u] by auto
  qed
qed

lemma confirm_effect:
  assumes c: "covered A L files root s0 j s" and n: "sj_candidate j = None" and Z: "se_ops Z = ops"
    and A: "\<And>c' w'' stub. complete_pairing_interaction L (interaction Z json) response (journal_candidate L Z root) session ((j, s), w) =
      ((c', w''), Inr stub) \<Longrightarrow> A stub"
    and r: "confirm_setup L Z root json response session j (s, w) = ((t, w'), r)"
  shows "(\<exists>k. covered A L files root s0 k t) \<and> (\<forall>j' stub. r = Inr (j', stub) \<longrightarrow> covered A L files root s0 j' t)"
proof -
  obtain j1 s1 w1 q where q: "complete_pairing_interaction L (interaction Z json) response (journal_candidate L Z root) session
      ((j, s), w) = (((j1, s1), w1), q)" by (metis surj_pair)
  have i: "(\<exists>k. covered A L files root s0 k s1) \<and> ((\<exists>x. q = Inr x) \<longrightarrow> covered A L files root s0 j1 s1)"
    using complete_pairing_interaction_run [OF q] c journal_candidate_effect [OF c _ Z n] by fastforce
  show ?thesis
  proof (cases q)
    case (Inl e)
    with r q i show ?thesis by (auto simp: confirm_setup_def)
  next
    case (Inr stub)
    with i have c1: "covered A L files root s0 j1 s1" by blast
    obtain j2 p where p: "set_confirmed stub j1 = (j2, p)" by fastforce
    show ?thesis
    proof (cases p)
      case (Inl e)
      with r q p Inr c1 show ?thesis by (auto simp: confirm_setup_def)
    next
      case p1: (Inr x)
      obtain u v where u: "setup_replace L ops root j2 s1 = (u, v)" by fastforce
      from p p1 have "set_confirmed stub j1 = (j2, Inr ())" by simp
      then have "owned_paths root j1 \<subseteq> owned_paths root j2" "justified A j2"
        using A [OF q [unfolded Inr]] by (simp_all add: set_confirmed_ok justified_def)
      note e = replace_covered [OF c1 this u]
      from r q p p1 Inr u Z have "t = u \<and> (\<forall>j' stub. r = Inr (j', stub) \<longrightarrow> j' = j2 \<and> v = Inr ())"
        by (auto simp: confirm_setup_def split: sum.splits)
      with e show ?thesis by auto
    qed
  qed
qed

lemma commit_setup_effect:
  assumes c: "covered A L files root s0 j s" and r: "commit_setup L Z root j recipient_type message s = (t, r)" and Z: "se_ops Z = ops"
  shows "(covered A L files root s0 j t \<or> finished A files root s0 j t) \<and> (r = Inr () \<longrightarrow> finished A files root s0 j t \<and> files t (journal_at root) = None)"
proof (cases "now_unix (pe_clock (se_pair Z))")
  case (Inl e)
  with r c show ?thesis by (auto simp: commit_setup_def bindS_def)
next
  case (Inr now)
  with r Z obtain q where q: "commit_confirmed_for L ops root j now recipient_type s = (t, q)" "r = mapErr (\<lambda>_. other message) q"
    by (auto simp: commit_setup_def mapErrS_def split: prod.splits)
  note e = completion_effect [OF q(1) covered_validate [OF c]]
  have "same_but files (setup_scope root j) s t" by (rule same_but_mono [OF conjunct1 [OF e]]) (auto simp: setup_scope_def)
  then have b: "same_but files (setup_scope root j) s0 t" using c same_but_trans [of files "setup_scope root j" s0 s t] by (simp add: covered_def)
  show ?thesis
    using e b c q(2) mapErr_Inr_eq [of "\<lambda>_. other message" q "()"] unfolding covered_def finished_def journal_on_disk_def by auto
qed

lemma claimed_effect:
  assumes A: "A = pairing_confirmed L Z json desktop_label"
    and c: "covered A L files root s0 j s" and n: "sj_candidate j = None" and Z: "se_ops Z = ops"
    and r: "claimed_setup L Z desktop_label json recipient_type prepared root j (s, w) = ((t, w'), r)"
  shows "(\<exists>k. covered A L files root s0 k t \<or> finished A files root s0 k t) \<and> 
    (r = Inr () \<longrightarrow> (\<exists>k. finished A files root s0 k t) \<and> files t (journal_at root) = None)"
  using r unfolding claimed_setup_def
proof (rule bindS_pair_cases)
  fix e assume "on_disk (begin_setup L Z root desktop_label j) (s, w) = ((t, w'), Inl e)" "r = Inl e"
  then have b: "begin_setup L Z root desktop_label j s = (t, Inl e)" "r = Inl e" by (simp_all add: on_disk_run)
  from begin_effect [OF c b(1) Z] b(2) show ?thesis by auto
next
  fix s1 w1 x assume b: "on_disk (begin_setup L Z root desktop_label j) (s, w) = ((s1, w1), Inr x)"
    and k: "(case x of (j, session) \<Rightarrow>
      bindS (on_world (mapErrS (rolled_back Z False)
       (prepared_exchange L (interaction Z json) prepared (session_signed_offer L session)))) (\<lambda>response.
      bindS (confirm_setup L Z root json response session j) (\<lambda>(j, stub).
      bindS (on_disk (commit_setup L Z root j recipient_type
       ''confirmed setup commit is incomplete; use setup --resume or setup --cleanup'')) (\<lambda>_.
      on_world (print_setup_outputs L Z (sj_identity_stub j) stub json recipient_type))))) (s1, w1) = ((t, w'), r)"
  obtain j1 session where x: "x = (j1, session)" by fastforce
  from b begin_effect [OF c _ Z, of desktop_label s1 "Inr x"] x n have c1: "covered A L files root s0 j1 s1" "sj_candidate j1 = None"
    and sb: "session_begun L Z desktop_label session" by (auto simp: on_disk_run)
  from k [unfolded x prod.case] show ?thesis
  proof (rule bindS_pair_cases)
    fix e assume "on_world (mapErrS (rolled_back Z False)
       (prepared_exchange L (interaction Z json) prepared (session_signed_offer L session))) (s1, w1) = ((t, w'), Inl e)" "r = Inl e"
    with c1 show ?thesis by (auto simp: on_world_run)
  next
    fix s2 w2 response assume "on_world (mapErrS (rolled_back Z False)
       (prepared_exchange L (interaction Z json) prepared (session_signed_offer L session))) (s1, w1) = ((s2, w2), Inr response)"
      and k2: "bindS (confirm_setup L Z root json response session j1) (\<lambda>(j, stub).
      bindS (on_disk (commit_setup L Z root j recipient_type
       ''confirmed setup commit is incomplete; use setup --resume or setup --cleanup'')) (\<lambda>_.
      on_world (print_setup_outputs L Z (sj_identity_stub j) stub json recipient_type))) (s2, w2) = ((t, w'), r)"
    then have e: "s2 = s1" "prepared_exchange L (interaction Z json) prepared (session_signed_offer L session) w1 = (w2, Inr response)"
      by (simp_all add: on_world_run mapErrS_Inr_iff)
    with c1 have c2: "covered A L files root s0 j1 s2" by simp
    have cp: "A stub" if "complete_pairing_interaction L (interaction Z json) response (journal_candidate L Z root) session ((j1, s2), w2) =
      ((c', w''), Inr stub)" for c' w'' stub
    proof (rule complete_pairing_ok [OF _ that])
      show "ps_state session = Waiting" using sb by (auto simp: session_begun_def session_begin_def bindE_Inr_iff Let_def)
    next
      fix m t1 w3 w4 w5 line
      assume "accepted_response L session response t1 m" "stub = stub_from_response L session m (pairing_fingerprint L (ps_offer session) m)"
        "pe_write (interaction Z json) (fingerprint_prompt (hex (sb_transcript_fingerprint stub))) w3 = (w4, Inr ())"
        "pe_read_line (interaction Z json) w4 = (w5, Inr line)" "trim line = hex (sb_transcript_fingerprint stub)"
      then show ?thesis unfolding A pairing_confirmed_def using sb e(2)
        by (intro exI [of _ session] exI [of _ prepared] exI [of _ w1] exI [of _ w2] exI [of _ response] exI [of _ t1] exI [of _ m]
          exI [of _ w3] exI [of _ w4] exI [of _ w5] exI [of _ line]) (simp add: interaction_def)
    qed
    have ce: "(\<exists>k. covered A L files root s0 k u) \<and> (\<forall>j' stub. q = Inr (j', stub) \<longrightarrow> covered A L files root s0 j' u)"
      if "confirm_setup L Z root json response session j1 (s2, w2) = ((u, v), q)" for u v q
      by (rule confirm_effect [OF c2 c1(2) Z _ that]) (rule cp)
    from k2 show ?thesis
    proof (rule bindS_pair_cases)
      fix e assume "confirm_setup L Z root json response session j1 (s2, w2) = ((t, w'), Inl e)" "r = Inl e"
      with ce show ?thesis by blast
    next
      fix s3 w3 y assume y: "confirm_setup L Z root json response session j1 (s2, w2) = ((s3, w3), Inr y)"
        and k3: "(case y of (j, stub) \<Rightarrow> bindS (on_disk (commit_setup L Z root j recipient_type
          ''confirmed setup commit is incomplete; use setup --resume or setup --cleanup'')) (\<lambda>_.
          on_world (print_setup_outputs L Z (sj_identity_stub j) stub json recipient_type))) (s3, w3) = ((t, w'), r)"
      obtain j2 stub where j2: "y = (j2, stub)" by fastforce
      from ce [OF y] j2 have c3: "covered A L files root s0 j2 s3" by blast
      from k3 [unfolded j2 prod.case] show ?thesis
      proof (rule bindS_pair_cases)
        fix e assume "on_disk (commit_setup L Z root j2 recipient_type
          ''confirmed setup commit is incomplete; use setup --resume or setup --cleanup'') (s3, w3) = ((t, w'), Inl e)" "r = Inl e"
        then show ?thesis using commit_setup_effect [OF c3 _ Z, of recipient_type _ t "Inl e"] by (auto simp: on_disk_run)
      next
        fix s4 w4 z assume "on_disk (commit_setup L Z root j2 recipient_type
            ''confirmed setup commit is incomplete; use setup --resume or setup --cleanup'') (s3, w3) = ((s4, w4), Inr z)"
          and "on_world (print_setup_outputs L Z (sj_identity_stub j2) stub json recipient_type) (s4, w4) = ((t, w'), r)"
        then show ?thesis using commit_setup_effect [OF c3 _ Z, of recipient_type _ t "Inr ()"] by (auto simp: on_disk_run on_world_run)
      qed
    qed
  qed
qed

text \<open>A new attempt.\<close>

lemma new_setup_effect:
  assumes Z: "se_ops Z = ops" and root: "pe_config_root (se_pair Z) = Inr root"
    and r: "new_setup L Z desktop_label transport adb_serial json explicit_paths recipient_type (s, w) = ((t, w'), r)"
    and A: "A = pairing_confirmed L Z json (the desktop_label)"
  shows "same_but files {journal_at root, lifecycle_at root} s t \<and> (\<exists>e. r = Inl e) \<and>
      (files s (journal_at root) \<noteq> None \<longrightarrow> untouched files root s t) \<or>
    files s (journal_at root) = None \<and>
      (\<exists>j. covered A L files root s j t \<or> finished A files root s j t) \<and> (r = Inr () \<longrightarrow> (\<exists>j. finished A files root s j t) \<and> files t (journal_at root) = None)"
proof -
  let ?goal = "\<lambda>t r. same_but files {journal_at root, lifecycle_at root} s t \<and> (\<exists>e. r = Inl e) \<and>
      (files s (journal_at root) \<noteq> None \<longrightarrow> untouched files root s t) \<or>
    files s (journal_at root) = None \<and>
      (\<exists>j. covered A L files root s j t \<or> finished A files root s j t) \<and> (r = Inr () \<longrightarrow> (\<exists>j. finished A files root s j t) \<and> files t (journal_at root) = None)"
  have early: "?goal t r" if "untouched files root s t" "\<exists>e. r = Inl e" for t r
    using that same_but_mono [OF that(1), of "{journal_at root, lifecycle_at root}"] by auto
  have claimed: "?goal t r"
    if m: "bindS (on_disk (claim_setup L Z root transport explicit_paths)) (claimed_setup L Z l json recipient_type prepared root) (u, w1) =
        ((v, w'), r)" and u: "untouched files root s u" and t: "files t = files v"
      and l: "desktop_label = Some l" for l prepared u v w1 t r
    using m
  proof (rule bindS_pair_cases)
    fix e assume "on_disk (claim_setup L Z root transport explicit_paths) (u, w1) = ((v, w'), Inl e)" "r = Inl e"
    then have c: "claim_setup L Z root transport explicit_paths u = (v, Inl e)" "r = Inl e" by (simp_all add: on_disk_run)
    note ce = claim_effect [OF c(1) Z]
    have "files u (journal_at root) = files s (journal_at root)" by (rule same_butD [OF u]) (simp add: journal_not_lifecycle)
    with ce u t c(2) show ?thesis by (auto simp: same_but_def)
  next
    fix u1 w2 j assume o: "on_disk (claim_setup L Z root transport explicit_paths) (u, w1) = ((u1, w2), Inr j)"
      and k: "claimed_setup L Z l json recipient_type prepared root j (u1, w2) = ((v, w'), r)"
    from o have c: "claim_setup L Z root transport explicit_paths u = (u1, Inr j)" by (simp add: on_disk_run)
    note ce = claim_effect [OF c Z]
    have "files u (journal_at root) = files s (journal_at root)" by (rule same_butD [OF u]) (simp add: journal_not_lifecycle)
    with ce have a: "files s (journal_at root) = None" by auto
    have "same_but files (setup_scope root j) u u1" by (rule same_but_mono [OF conjunct1 [OF ce]]) (simp add: setup_scope_def)
    with ce have cov: "covered A L files root u j u1" and n: "sj_candidate j = None" by (auto simp: covered_def new_journal_def justified_def)
    have AL: "A = pairing_confirmed L Z json l" using A l by simp
    from claimed_effect [OF AL covered_from [OF u cov] n Z k] a t show ?thesis
      by (simp add: covered_def finished_def journal_on_disk_def setup_complete_def same_but_def)
  qed
  have locked: "?goal t r" if u: "files u = files s" and l: "desktop_label = Some l"
    and m: "holding_lifecycle_lock Z root (bindS (on_disk (claim_setup L Z root transport explicit_paths))
      (claimed_setup L Z l json recipient_type prepared root)) (u, w1) = ((t, w'), r)" for l prepared u w1
    using holding_effect [OF m Z]
  proof (elim disjE exE conjE)
    fix e assume "untouched files root u t" "r = Inl e"
    with early u show ?thesis by (simp add: same_but_def)
  next
    fix v x assume "untouched files root u v" "bindS (on_disk (claim_setup L Z root transport explicit_paths))
      (claimed_setup L Z l json recipient_type prepared root) (v, w1) = ((x, w'), r)" "files t = files x"
    with claimed l u show ?thesis by (simp add: same_but_def)
  qed
  have p: "files u = files s" if "on_disk (mapErrS g (so_prepare_root ops (path_of root))) (s, w1) = ((u, w2), q)"
    for u w1 w2 and g :: "unit \<Rightarrow> command_error" and q
    using that same_but_empty [OF touchesD [OF touches_mapErrS [OF prepare_quiet]]] by (auto simp: on_disk_run)
  have R: "setup_root Z = Inr root" by (simp add: setup_root_def root)
  show ?thesis
    using r unfolding new_setup_def R Z bindS_simps
  proof (elim bindS_pair_cases, goal_cases)
    case (8 s1 w1 x1 s2 w2 x2 s3 w3 x3 s4 w4 x4 s5 w5 x5 s6 w6 x6 s7 w7 x7 e)
    from 8(1-7) have "s7 = s" by (simp add: on_world_run)
    then have "files t = files s" by (intro p [OF 8(8) [unfolded \<open>s7 = s\<close>]])
    with 8(9) show ?case by (simp add: same_but_def)
  next
    case (9 s1 w1 x1 s2 w2 x2 s3 w3 x3 s4 w4 x4 s5 w5 x5 s6 w6 x6 s7 w7 x7 s8 w8 x8)
    from 9(1-7) have "s7 = s" by (simp add: on_world_run)
    then have "files s8 = files s" by (intro p [OF 9(8) [unfolded \<open>s7 = s\<close>]])
    moreover from 9(1) have "desktop_label = Some x1" by (simp add: okOr_Inr_iff)
    ultimately show ?case by (rule locked) (rule 9(9))
  qed (auto simp: on_world_run)
qed

subsection \<open>Recovery\<close>

lemma recovered_effect:
  assumes "recovered_journal L Z root s = (t, r)" "se_ops Z = ops"
  shows "files t = files s" "r = Inr j \<Longrightarrow> \<exists>b. files s (journal_at root) = Some b \<and> setup_decode L b = Inr j \<and>
    setup_validate_root True root j = Inr ()"
proof -
  have "touches files {} (recovered_journal L Z root)"
    unfolding recovered_journal_def assms(2) by (intro touches_bindS pending_quiet) (auto simp: setup_text_def intro!: touches_mapErrS read_quiet)
  from same_but_empty [OF touchesD [OF this assms(1)]] show "files t = files s" .
  show "\<exists>b. files s (journal_at root) = Some b \<and> setup_decode L b = Inr j \<and> setup_validate_root True root j = Inr ()" if "r = Inr j"
  proof -
    from assms that obtain u x where u: "setup_text (ensure_no_cleanup_pending ops root) s = (u, Inr x)"
      and j: "setup_read L ops root u = (t, Inr j)"
      by (auto simp: recovered_journal_def setup_text_def bindS_Inr_iff mapErrS_Inr_iff)
    have "files u = files s" by (rule same_but_empty [OF touchesD [OF pending_quiet u]])
    with read_ok [OF j] show ?thesis by simp
  qed
qed

lemma confirmed_by_user_ok:
  "confirmed_by_user E expected message w = (w', Inr u) \<Longrightarrow> \<exists>entered. pe_read_line E w = (w', Inr entered) \<and> trim_end entered = expected"
  by (auto simp: confirmed_by_user_def bindS_Inr_iff mapErrS_Inr_iff failIf_Inr_iff)

lemma commit_setup_run:
  assumes r: "commit_setup L Z root j recipient_type message s = (t, r)" and Z: "se_ops Z = ops"
    and v: "setup_validate_root True root j = Inr ()"
  shows "same_but files (setup_scope root j) s t \<and> (files t (journal_at root) = files s (journal_at root) \<or> setup_complete files root j t) \<and>
    (r = Inr () \<longrightarrow> setup_complete files root j t \<and> files t (journal_at root) = None)"
proof (cases "now_unix (pe_clock (se_pair Z))")
  case (Inl e)
  with r show ?thesis by (auto simp: commit_setup_def bindS_def)
next
  case (Inr now)
  with r Z obtain q where q: "commit_confirmed_for L ops root j now recipient_type s = (t, q)" "r = mapErr (\<lambda>_. other message) q"
    by (auto simp: commit_setup_def mapErrS_def split: prod.splits)
  note e = completion_effect [OF q(1) v]
  have "same_but files (setup_scope root j) s t" by (rule same_but_mono [OF conjunct1 [OF e]]) (auto simp: setup_scope_def)
  with e q(2) mapErr_Inr_eq [of "\<lambda>_. other message" q "()"] show ?thesis by auto
qed

lemma resume_locked_effect:
  assumes Z: "se_ops Z = ops" and r: "resume_locked L Z json recipient_type root (s, w) = ((t, w'), r)"
  shows "files t = files s \<and> (\<exists>e. r = Inl e) \<or>
    (\<exists>b j. files s (journal_at root) = Some b \<and> setup_decode L b = Inr j \<and> sj_stage j = StageConfirmed \<and>
      asked_for (se_pair Z) j \<and> same_but files (setup_scope root j) s t \<and>
      (files t (journal_at root) = Some b \<or> setup_complete files root j t) \<and> 
      (r = Inr () \<longrightarrow> setup_complete files root j t \<and> files t (journal_at root) = None))"
proof (cases "files t = files s \<and> (\<exists>e. r = Inl e)")
  case False
  from r False obtain s1 s2 w1 w2 j q where j: "recovered_journal L Z root s = (s1, Inr j)" and g: "sj_stage j = StageConfirmed"
    and c: "confirmed_by_user (se_pair Z) (confirmation_text j) ''setup resume confirmation did not match'' w1 = (w2, Inr ())"
    and m: "commit_setup L Z root j recipient_type ''confirmed setup remains incomplete'' s1 = (t, q)" and q: "r = Inr () \<Longrightarrow> q = Inr ()"
    unfolding resume_locked_def
    by (elim bindS_pair_cases) (auto simp: on_world_run on_disk_run failIf_Inr_iff dest: recovered_effect(1) [OF _ Z])
  have f: "files s1 = files s" by (rule recovered_effect(1) [OF j Z])
  from recovered_effect(2) [OF j Z refl] obtain b where b: "files s (journal_at root) = Some b" "setup_decode L b = Inr j"
    "setup_validate_root True root j = Inr ()" by blast
  have "asked_for (se_pair Z) j" using confirmed_by_user_ok [OF c] unfolding asked_for_def by blast
  with commit_setup_run [OF m Z b(3)] f b g q show ?thesis by (auto simp: same_but_def)
qed blast

lemma resume_effect:
  assumes Z: "se_ops Z = ops" and root: "pe_config_root (se_pair Z) = Inr root"
    and r: "resume_setup L Z json recipient_type (s, w) = ((t, w'), r)"
  shows "untouched files root s t \<and> (\<exists>e. r = Inl e) \<or>
    (\<exists>b j. files s (journal_at root) = Some b \<and> setup_decode L b = Inr j \<and> sj_stage j = StageConfirmed \<and>
      asked_for (se_pair Z) j \<and> same_but files (setup_scope root j) s t \<and>
      (files t (journal_at root) = Some b \<or> setup_complete files root j t) \<and> 
      (r = Inr () \<longrightarrow> setup_complete files root j t \<and> files t (journal_at root) = None))"
proof -
  have R: "setup_root Z = Inr root" by (simp add: setup_root_def root)
  show ?thesis
    using holding_effect [OF r [unfolded resume_setup_def R bindS_simps] Z]
  proof (elim disjE exE conjE)
    fix e assume "untouched files root s t" "r = Inl e"
    then show ?thesis by blast
  next
    fix u v assume u: "untouched files root s u" and m: "resume_locked L Z json recipient_type root (u, w) = ((v, w'), r)"
      and t: "files t = files v"
    have J: "files u (journal_at root) = files s (journal_at root)" by (rule same_butD [OF u]) (simp add: journal_not_lifecycle)
    have c: "same_but files (setup_scope root j) s t" if "same_but files (setup_scope root j) u v" for j
      using that u t by (auto simp: same_but_def setup_scope_def)
    from resume_locked_effect [OF Z m] show ?thesis
    proof (rule disjE)
      assume "files v = files u \<and> (\<exists>e. r = Inl e)"
      with u t show ?thesis by (simp add: same_but_def)
    next
      assume "\<exists>b j. files u (journal_at root) = Some b \<and> setup_decode L b = Inr j \<and> sj_stage j = StageConfirmed \<and>
        asked_for (se_pair Z) j \<and> same_but files (setup_scope root j) u v \<and>
        (files v (journal_at root) = Some b \<or> setup_complete files root j v) \<and> 
        (r = Inr () \<longrightarrow> setup_complete files root j v \<and> files v (journal_at root) = None)"
      then obtain b j where h: "files u (journal_at root) = Some b" "setup_decode L b = Inr j" "sj_stage j = StageConfirmed"
        "asked_for (se_pair Z) j" "same_but files (setup_scope root j) u v" "r = Inr () \<longrightarrow> setup_complete files root j v \<and> files v (journal_at root) = None"
        and o: "files v (journal_at root) = Some b \<or> setup_complete files root j v" by (elim exE conjE) rule
      have "setup_complete files root j t = setup_complete files root j v" by (simp add: setup_complete_def t)
      with h J c [OF h(5)] t o show ?thesis by (intro disjI2 exI [of _ b] exI [of _ j]) simp
    qed
  qed
qed

lemma cleanup_locked_effect:
  assumes Z: "se_ops Z = ops" and r: "cleanup_locked L Z root (s, w) = ((t, w'), r)"
  shows "files t = files s \<and> (\<exists>e. r = Inl e) \<or>
    (\<exists>b j. files s (journal_at root) = Some b \<and> setup_decode L b = Inr j \<and>
      asked_for (se_pair Z) j \<and> same_but files (setup_scope root j) s t \<and>
      (files t (journal_at root) = Some b \<or> (\<forall>p \<in> owned_paths root j. files t p = None)) \<and>
      (r = Inr () \<longrightarrow> files t (journal_at root) = None \<and> (\<forall>p \<in> owned_paths root j. files t p = None)))"
proof (cases "files t = files s \<and> (\<exists>e. r = Inl e)")
  case False
  from r False obtain s1 w1 w2 j q where j: "recovered_journal L Z root s = (s1, Inr j)"
    and c: "confirmed_by_user (se_pair Z) (confirmation_text j) ''setup cleanup confirmation did not match'' w1 = (w2, Inr ())"
    and m: "mapErrS (\<lambda>_. other ''incomplete setup cleanup remains pending'') (cleanup_owned L (se_ops Z) root j) s1 = (t, q)"
    and q: "r = Inr () \<Longrightarrow> q = Inr ()"
    unfolding cleanup_locked_def
    by (elim bindS_pair_cases) (auto simp: on_world_run on_disk_run dest: recovered_effect(1) [OF _ Z])
  have f: "files s1 = files s" by (rule recovered_effect(1) [OF j Z])
  from recovered_effect(2) [OF j Z refl] obtain b where b: "files s (journal_at root) = Some b" "setup_decode L b = Inr j"
    "setup_validate_root True root j = Inr ()" by blast
  from m Z obtain q' where q': "cleanup_owned L ops root j s1 = (t, q')" "q = mapErr (\<lambda>_. other ''incomplete setup cleanup remains pending'') q'"
    by (auto simp: mapErrS_def split: prod.splits)
  note e = removal_effect [OF q'(1) b(3)]
  have "same_but files (setup_scope root j) s1 t" by (rule same_but_mono [OF conjunct1 [OF e]]) (auto simp: setup_scope_def)
  then have sc: "same_but files (setup_scope root j) s t" using f by (simp add: same_but_def)
  have a: "asked_for (se_pair Z) j" using confirmed_by_user_ok [OF c] unfolding asked_for_def by blast
  have k: "r = Inr () \<Longrightarrow> q' = Inr ()" using q q'(2) by (simp add: mapErr_Inr_eq)
  show ?thesis using e f b sc a k by (intro disjI2 exI [of _ b] exI [of _ j]) auto
qed blast

lemma cleanup_setup_effect:
  assumes Z: "se_ops Z = ops" and root: "pe_config_root (se_pair Z) = Inr root"
    and r: "cleanup_setup L Z (s, w) = ((t, w'), r)"
  shows "untouched files root s t \<and> (\<exists>e. r = Inl e) \<or>
    (\<exists>b j. files s (journal_at root) = Some b \<and> setup_decode L b = Inr j \<and>
      asked_for (se_pair Z) j \<and> same_but files (setup_scope root j) s t \<and>
      (files t (journal_at root) = Some b \<or> (\<forall>p \<in> owned_paths root j. files t p = None)) \<and>
      (r = Inr () \<longrightarrow> files t (journal_at root) = None \<and> (\<forall>p \<in> owned_paths root j. files t p = None)))"
proof -
  have R: "setup_root Z = Inr root" by (simp add: setup_root_def root)
  show ?thesis
    using holding_effect [OF r [unfolded cleanup_setup_def R bindS_simps] Z]
  proof (elim disjE exE conjE)
    fix e assume "untouched files root s t" "r = Inl e"
    then show ?thesis by blast
  next
    fix u v assume u: "untouched files root s u" and m: "cleanup_locked L Z root (u, w) = ((v, w'), r)"
      and t: "files t = files v"
    have J: "files u (journal_at root) = files s (journal_at root)" by (rule same_butD [OF u]) (simp add: journal_not_lifecycle)
    have c: "same_but files (setup_scope root j) s t" if "same_but files (setup_scope root j) u v" for j
      using that u t by (auto simp: same_but_def setup_scope_def)
    from cleanup_locked_effect [OF Z m] show ?thesis
    proof (rule disjE)
      assume "files v = files u \<and> (\<exists>e. r = Inl e)"
      with u t show ?thesis by (simp add: same_but_def)
    next
      assume "\<exists>b j. files u (journal_at root) = Some b \<and> setup_decode L b = Inr j \<and>
        asked_for (se_pair Z) j \<and> same_but files (setup_scope root j) u v \<and>
        (files v (journal_at root) = Some b \<or> (\<forall>p \<in> owned_paths root j. files v p = None)) \<and>
        (r = Inr () \<longrightarrow> files v (journal_at root) = None \<and> (\<forall>p \<in> owned_paths root j. files v p = None))"
      then obtain b j where h: "files u (journal_at root) = Some b" "setup_decode L b = Inr j"
        "asked_for (se_pair Z) j" "same_but files (setup_scope root j) u v"
        "r = Inr () \<longrightarrow> files v (journal_at root) = None \<and> (\<forall>p \<in> owned_paths root j. files v p = None)"
        and o: "files v (journal_at root) = Some b \<or> (\<forall>p \<in> owned_paths root j. files v p = None)" by (elim exE conjE) rule
      with J c [OF h(4)] t show ?thesis by (intro disjI2 exI [of _ b] exI [of _ j]) simp
    qed
  qed
qed

end

end
