(* ===== verification/Setup_Storage.thy ===== *)
theory Setup_Storage
  imports Setup_Files Pair_Commit
begin

text \<open>
  The platform operations of a hardware setup on the file system of \<open>Unix_Storage\<close>, with the private files
  of \<open>Private_File\<close>, the software keys of \<open>Desktop_Key_State\<close>, the guard of \<open>Replay_File\<close> and the locators of
  \<open>Locator\<close>: whatever faults occur they keep the contract of \<open>Setup_Files\<close>.
\<close>

subsection \<open>The files of a disk\<close>

text \<open>Replacement temporaries are left out.\<close>

definition temporary :: "path \<Rightarrow> bool" where
  "temporary p \<longleftrightarrow> (\<exists>x. comps p \<noteq> [] \<and> last (comps p) = x @ ''.tmp'')"

definition disk_files :: "fs \<Rightarrow> path \<Rightarrow> bytes option" where
  "disk_files f p = (if temporary p then None else case nodes f p of Some (Regular b _ _) \<Rightarrow> Some b | _ \<Rightarrow> None)"

lemma disk_files_nodes: "nodes t p = nodes f p \<Longrightarrow> disk_files t p = disk_files f p"
  by (simp add: disk_files_def)

lemma touches_nodes:
  assumes "\<And>f t r q. m f = (t, r) \<Longrightarrow> q \<notin> T \<Longrightarrow> nodes t q = nodes f q" shows "touches disk_files T m"
  unfolding touches_def same_but_def using assms disk_files_nodes by blast

lemma touches_temporary:
  assumes "touches disk_files (insert q T) m" "temporary q" shows "touches disk_files T m"
  unfolding touches_def same_but_def
proof (intro allI impI)
  fix s t r p assume "m s = (t, r)" "p \<notin> T"
  with touchesD [OF assms(1)] assms(2) show "disk_files t p = disk_files s p"
    by (cases "p = q") (auto simp: same_but_def disk_files_def)
qed

lemma touches_keeps: "(\<And>f t r. m f = (t, r) \<Longrightarrow> nodes t = nodes f \<and> locks t = locks f) \<Longrightarrow> touches disk_files T m"
  by (rule touches_nodes) simp

lemma touches_sys_read [intro]: "touches disk_files T (sys_read g)"
  by (rule touches_keeps) (rule sys_read_same)

lemma touches_sys_update:
  assumes "\<And>m m' q. g m = Inr m' \<Longrightarrow> q \<notin> T \<Longrightarrow> m' q = m q" shows "touches disk_files T (sys_update g)"
proof (rule touches_nodes)
  fix f t q and r :: "(io_error, unit) result" assume "sys_update g f = (t, r)" "q \<notin> T"
  then show "nodes t q = nodes f q"
    by (cases r) (use assms in \<open>auto dest!: sys_update_ok sys_update_fail\<close>)
qed

lemma touches_storage [intro]:
  "touches disk_files {p} (open_new_as md p)" "touches disk_files {p} (remove_file p)" "touches disk_files {b} (hard_link a b)"
  "touches disk_files {a, b} (rename a b)" "touches disk_files {p} (open_create p)"
proof -
  show "touches disk_files {p} (open_new_as md p)" "touches disk_files {p} (remove_file p)" "touches disk_files {b} (hard_link a b)"
    "touches disk_files {a, b} (rename a b)"
    unfolding open_new_as_def remove_file_def hard_link_def rename_def
    by (rule touches_sys_update, auto split: if_splits option.splits)+
  have "touches disk_files {p} (\<lambda>f. case resolve (nodes f p) of None \<Rightarrow> (f, Inl OtherError) | Some n \<Rightarrow> (f, Inr n))"
    by (rule touches_nodes) (auto split: option.splits)
  then show "touches disk_files {p} (open_create p)"
    unfolding open_create_def by (intro touches_bindS touches_sys_update) (auto split: option.splits node.splits)
qed

lemma touches_write_new_as [intro]: "touches disk_files {p} (write_new_as md p b)"
proof (rule touches_nodes)
  fix f t q and r :: "(io_error, unit) result" assume "write_new_as md p b f = (t, r)" "q \<notin> {p}"
  then show "nodes t q = nodes f q" by (cases r) (auto dest!: write_all_ok write_all_fail)
qed

lemma touches_sync_all [intro]: "touches disk_files T sync_all"
  unfolding sync_all_def by (rule touches_sys_read)

lemma temp_suffix_end: "\<exists>x. temp_suffix f = x @ ''.tmp''"
  unfolding temp_suffix_def by (metis append.assoc)

lemma sibling_temporary: "sibling_path p (x @ ''.tmp'') = Inr q \<Longrightarrow> temporary q"
  by (auto simp: sibling_path_iff temporary_def)

lemma touches_write_temporary: "touches disk_files {} (write_temporary p b)"
proof -
  have "touches disk_files {} (write_temporary_loop n p b)" for n
  proof (induction n)
    case (Suc n)
    have t: "touches disk_files {} (bindS (tryS (open_create_new q)) (\<lambda>r. case r of
       Inl AlreadyExists \<Rightarrow> write_temporary_loop n p b
     | Inl _ \<Rightarrow> errS StorageInvalid
     | Inr _ \<Rightarrow>
         bindS (tryS (bindS (write_all q b) (\<lambda>_. sync_all))) (\<lambda>w.
         case w of
           Inl _ \<Rightarrow> bindS (tryS (remove_file q)) (\<lambda>_. errS StorageInvalid)
         | Inr _ \<Rightarrow> retS q)))" if "temporary q" for q
      by (rule touches_temporary [OF _ that])
        (auto intro!: touches_bindS touches_tryS touches_mono [OF Suc] touches_storage touches_write_new_as touches_sync_all
          split: sum.splits io_error.splits)
    show ?case unfolding write_temporary_loop.simps
    proof (rule touches_bindS_when)
      show "touches disk_files {} fresh_suffix" by (rule touches_nodes) (auto simp: fresh_suffix_def)
    next
      fix f g x assume "fresh_suffix f = (g, Inr x)"
      then obtain y where "x = y @ ''.tmp''" using temp_suffix_end by (auto simp: fresh_suffix_def)
      then show "touches disk_files {} (bindS (liftS (sibling_path p x)) (\<lambda>q.
          bindS (tryS (open_create_new q)) (\<lambda>r. case r of
       Inl AlreadyExists \<Rightarrow> write_temporary_loop n p b
     | Inl _ \<Rightarrow> errS StorageInvalid
     | Inr _ \<Rightarrow>
         bindS (tryS (bindS (write_all q b) (\<lambda>_. sync_all))) (\<lambda>w.
         case w of
           Inl _ \<Rightarrow> bindS (tryS (remove_file q)) (\<lambda>_. errS StorageInvalid)
         | Inr _ \<Rightarrow> retS q))))"
        using sibling_temporary [of p y] t by (cases "sibling_path p x") (simp_all only: bindS_simps touches_simps)
    qed
  qed (simp only: write_temporary_loop.simps touches_simps)
  then show ?thesis unfolding write_temporary_def .
qed

lemma write_temporary_temporary:
  assumes "write_temporary p b f = (g, Inr q)" shows "temporary q"
proof -
  have "write_temporary_loop n p b f = (g, Inr q) \<Longrightarrow> temporary q" for n
  proof (induction n arbitrary: f)
    case (Suc n)
    obtain x where x: "temp_suffix f = x @ ''.tmp''" using temp_suffix_end by blast
    let ?f = "f\<lparr> temp_counter := temp_counter f + 1 \<rparr>"
    from Suc.prems x obtain q' where q': "sibling_path p (x @ ''.tmp'') = Inr q'"
      by (auto simp: fresh_suffix_def bindS_Inr_iff)
    obtain h r where h: "open_create_new q' ?f = (h, r)" by fastforce
    from Suc.prems x q' h Suc.IH show ?case
      using sibling_temporary [OF q']
      by (auto simp: fresh_suffix_def bindS_Inr_iff bindS_tryS split: prod.splits sum.splits io_error.splits)
  qed simp
  with assms show ?thesis by (simp add: write_temporary_def)
qed

lemma touches_atomic_replace: "touches disk_files {p} (atomic_replace p b)"
proof -
  have "touches disk_files {p} (bindS (tryS (rename q p)) (\<lambda>renamed. case renamed of
       Inl _ \<Rightarrow> bindS (tryS (remove_file q)) (\<lambda>_. errS StorageInvalid)
     | Inr _ \<Rightarrow> sync_parent p))" if "temporary q" for q
  proof (rule touches_temporary [OF _ that])
    have "touches disk_files {q, p} (sync_parent p)" by (rule touches_keeps) (rule sync_parent_same)
    then show "touches disk_files {q, p} (bindS (tryS (rename q p)) (\<lambda>renamed. case renamed of
       Inl _ \<Rightarrow> bindS (tryS (remove_file q)) (\<lambda>_. errS StorageInvalid)
     | Inr _ \<Rightarrow> sync_parent p))"
      by (auto intro!: touches_bindS touches_tryS touches_storage touches_mono [OF touches_storage(2)] split: sum.splits)
  qed
  then show ?thesis
    unfolding atomic_replace_def
    by (intro touches_bindS_when [OF touches_mono [OF touches_write_temporary empty_subsetI]]) (drule write_temporary_temporary)
qed

lemma touches_persist_create: "touches disk_files {p} (persist_create p b)"
proof -
  have "touches disk_files {p} (bindS (tryS (hard_link q p)) (\<lambda>linked. case linked of
       Inl _ \<Rightarrow> bindS (tryS (remove_file q)) (\<lambda>_. errS StorageInvalid)
     | Inr _ \<Rightarrow>
         bindS (tryS (remove_file q)) (\<lambda>remove_result.
         bindS (tryS (sync_parent p)) (\<lambda>sync_result.
         failS (\<not> isOk remove_result \<or> \<not> isOk sync_result) StorageInvalid))))" if "temporary q" for q
  proof (rule touches_temporary [OF _ that])
    have "touches disk_files {q, p} (sync_parent p)" by (rule touches_keeps) (rule sync_parent_same)
    then show "touches disk_files {q, p} (bindS (tryS (hard_link q p)) (\<lambda>linked. case linked of
       Inl _ \<Rightarrow> bindS (tryS (remove_file q)) (\<lambda>_. errS StorageInvalid)
     | Inr _ \<Rightarrow>
         bindS (tryS (remove_file q)) (\<lambda>remove_result.
         bindS (tryS (sync_parent p)) (\<lambda>sync_result.
         failS (\<not> isOk remove_result \<or> \<not> isOk sync_result) StorageInvalid))))"
      by (auto intro!: touches_bindS touches_tryS touches_mono [OF touches_storage(2)] touches_mono [OF touches_storage(3)]
        split: sum.splits)
  qed
  then show ?thesis
    unfolding persist_create_def
    by (intro touches_bindS_when [OF touches_mono [OF touches_write_temporary empty_subsetI]]) (drule write_temporary_temporary)
qed

lemma touches_private_create: "touches disk_files {p} (private_create p b)"
proof -
  have "touches disk_files {p} (private_validate h)" for h by (rule touches_keeps) (rule private_validate_same)
  then show ?thesis unfolding private_create_def
    by (auto intro!: touches_bindS touches_tryS touches_mapErrS touches_storage touches_write_new_as touches_sync_all split: sum.splits)
qed

lemma touches_create_and_write: "touches disk_files {p} (create_and_write md e p b)"
  unfolding create_and_write_def
  by (auto intro!: touches_bindS touches_tryS touches_mapErrS touches_storage touches_write_new_as touches_sync_all split: sum.splits)

lemma touches_acquire_lock: "touches disk_files {p} (acquire_lock p)"
proof -
  have "touches disk_files {p} (reject_symlink_if_present p)" "touches disk_files {p} (ensure_private_regular h)" for h
    by (rule touches_keeps, erule reject_symlink_same ensure_private_regular_same)+
  moreover have "touches disk_files {p} (flock p)"
    by (rule touches_nodes) (auto simp: flock_def split: prod.splits option.splits if_splits dest!: next_fault_same)
  ultimately show ?thesis unfolding acquire_lock_def
    by (auto intro!: touches_bindS touches_mapErrS touches_storage)
qed

lemma touches_guard:
  "touches disk_files {path_of a, beside a ''.lock''} (file_create cb (path_of a) sc capacity now)"
  "touches disk_files {path_of a, beside a ''.lock''} (file_open_guard cb (path_of a) sc capacity)"
proof -
  let ?T = "{path_of a, beside a ''.lock''}"
  have l: "touches disk_files ?T (guard_acquire_lock (path_of a))"
  proof (cases "sibling_path (path_of a) ''.lock''")
    case (Inl e)
    then show ?thesis by (simp only: guard_acquire_lock_def mapErr_simps bindS_simps touches_simps)
  next
    case (Inr q)
    then have "q = beside a ''.lock''" by (auto simp: sibling_path_iff beside_def Let_def)
    with Inr touches_mono [OF touches_acquire_lock [of q], of ?T] show ?thesis
      by (simp only: guard_acquire_lock_def mapErr_simps bindS_simps) (auto intro!: touches_mapErrS)
  qed
  have c: "touches disk_files ?T (checked_path p)" for p
    unfolding checked_path_def metadata_def by (intro touches_bindS touches_mapErrS touches_sys_read touches_simps)
  have h: "touches disk_files ?T (holding q m)" if "touches disk_files ?T m" for q and m :: "(fs, 'e, 'x) step"
    unfolding touches_def same_but_def
  proof (intro allI impI)
    fix s t p and r :: "('e, 'x) result" assume m: "holding q m s = (t, r)" "p \<notin> ?T"
    obtain u v where u: "m s = (u, v)" by fastforce
    with m(1) have "nodes t = nodes u" by (auto simp: holding_def split: sum.splits)
    then have "disk_files t p = disk_files u p" by (intro disk_files_nodes) simp
    with same_butD [OF touchesD [OF that u] m(2)] show "disk_files t p = disk_files s p" by simp
  qed
  have r: "touches disk_files ?T (guard_read_private_file (path_of a))"
    unfolding guard_read_private_file_def
  proof (intro touches_mapErrS touches_nodes)
    fix f t q and r :: "(storage_error, bytes) result" assume f: "read_private_file (path_of a) MAX_STATE_BYTES f = (t, r)"
    have "nodes t = nodes f" by (rule keepsD [OF keeps_read_private_file f, where P1 = "\<lambda>m. m = nodes f"]) simp
    then show "nodes t q = nodes f q" by simp
  qed
  have w: "touches disk_files ?T (guard_persist_create (path_of a) b)" for b
    unfolding guard_persist_create_def by (intro touches_mapErrS touches_mono [OF touches_persist_create]) blast
  show "touches disk_files ?T (file_create cb (path_of a) sc capacity now)"
    unfolding file_create_def symlink_metadata_def Let_def
    by (rule touches_bindS [OF touches_simps(3)], rule touches_bindS_when [OF c], drule checked_path_ok, elim conjE, hypsubst)
      (intro touches_bindS l h touches_tryS touches_sys_read touches_simps w)
  show "touches disk_files ?T (file_open_guard cb (path_of a) sc capacity)"
    unfolding file_open_guard_def
    by (rule touches_bindS [OF touches_simps(3)], rule touches_bindS_when [OF c], drule checked_path_ok, elim conjE, hypsubst)
      (intro touches_bindS l h r touches_simps)
qed

lemma touches_keeps_nodes:
  assumes "\<And>P. keeps (\<lambda>f. P (nodes f)) m" shows "touches disk_files T m"
proof (rule touches_nodes)
  fix f t r q assume f: "m f = (t, r)"
  have "nodes t = nodes f" by (rule keepsD [OF assms f, where P1 = "\<lambda>x. x = nodes f"]) simp
  then show "nodes t q = nodes f q" by simp
qed

lemma touches_checked_directory: "touches disk_files T (private_checked_directory p)"
  by (rule touches_keeps_nodes) (rule keeps_private_checked_directory)

lemma touches_private_prepare: "touches disk_files {} (private_prepare_directory p)"
proof -
  have m: "touches disk_files {} (make_dir p)" for p
    unfolding touches_def same_but_def
  proof (intro allI impI)
    fix s t q and r :: "(io_error, unit) result" assume t: "make_dir p s = (t, r)"
    have "nodes t = nodes s \<or> nodes s p = None \<and> nodes t = (nodes s)(p \<mapsto> Dir DIRECTORY_MODE)"
    proof (cases r)
      case (Inl e)
      with t show ?thesis unfolding make_dir_def by (auto dest!: sys_update_fail)
    next
      case (Inr u)
      with t have "(if nodes s p \<noteq> None then Inl AlreadyExists else case parent p of
          None \<Rightarrow> Inl AlreadyExists
        | Some d \<Rightarrow> (case resolve (nodes s d) of
            None \<Rightarrow> Inl NotFound
          | Some n \<Rightarrow> if is_dir n then Inr ((nodes s)(p \<mapsto> Dir DIRECTORY_MODE)) else Inl OtherError)) = Inr (nodes t)"
        using sys_update_ok [OF t [unfolded make_dir_def Inr]] by blast
      then show ?thesis by (cases "nodes s p"; cases "parent p") (auto split: if_splits option.splits)
    qed
    then show "disk_files t q = disk_files s q" by (auto simp: disk_files_def)
  qed
  have d: "touches disk_files {} (path_is_dir p)" for p
    unfolding path_is_dir_def metadata_def by (auto intro!: touches_bindS touches_tryS touches_sys_read split: sum.splits)
  have n: "touches disk_files {} (make_dir_or_present p)" for p
    unfolding make_dir_or_present_def by (auto intro!: touches_bindS touches_tryS m d split: sum.splits)
  have c: "touches disk_files {} (create_dir_all a cs)" for a cs
  proof (induction cs)
    case (Cons c cs)
    then show ?case unfolding create_dir_all.simps Let_def
      by (auto intro!: touches_bindS touches_tryS m d n split: sum.splits io_error.splits)
  qed (simp add: n)
  have s: "touches disk_files {} (set_permissions p md)" for md
    unfolding touches_def same_but_def
  proof (intro allI impI)
    fix f t q and r :: "(io_error, unit) result" assume t: "set_permissions p md f = (t, r)"
    show "disk_files t q = disk_files f q"
    proof (cases r)
      case (Inl e)
      with t show ?thesis unfolding set_permissions_def by (auto simp: disk_files_def dest!: sys_update_fail)
    next
      case (Inr u)
      with t obtain x where "nodes f p = Some x" "nodes t = (nodes f)(p \<mapsto> with_mode md x)"
        unfolding set_permissions_def by (auto dest!: sys_update_ok split: option.splits if_splits)
      then show ?thesis by (cases x) (simp_all add: disk_files_def)
    qed
  qed
  have k: "touches disk_files {} (private_checked_directory p)" for p
    by (rule touches_checked_directory)
  show ?thesis unfolding private_prepare_directory_def
    by (intro touches_bindS touches_mapErrS c s k touches_simps)
qed

subsection \<open>The operations\<close>

definition unit_step :: "('s, 'e, 'a) step \<Rightarrow> ('s, unit, unit) step" where
  "unit_step m = bindS (mapErrS (\<lambda>_. ()) m) (\<lambda>_. retS ())"

definition native_step :: "('e \<Rightarrow> native_error) \<Rightarrow> ('s, 'e, 'a) step \<Rightarrow> ('s, native_error, 'a) step" where
  "native_step g m = mapErrS g m"

definition private_native :: "private_error \<Rightarrow> native_error" where
  "private_native e = (if e = PrivateMissing then NativeMissing else if e = PrivateAlreadyExists then NativeAlreadyExists else NativeOther)"

definition io_native :: "io_error \<Rightarrow> native_error" where
  "io_native e = (if e = NotFound then NativeMissing else if e = AlreadyExists then NativeAlreadyExists else NativeOther)"

definition software_native :: "('pk, 'sg, 'sk) lib \<Rightarrow> 'sk desktop_key_state \<Rightarrow> native_state" where
  "software_native L d = \<lparr> ns_desktop_id = dk_desktop_id d, ns_signer = key_signer L d,
     ns_signing_public = mapErr (\<lambda>_. ()) (key_signing_public L d), ns_selection_public = mapErr (\<lambda>_. ()) (key_selection_public L d) \<rparr>"

definition read_regular_file :: "path \<Rightarrow> nat \<Rightarrow> (fs, native_error, bytes) step" where
  "read_regular_file p limit = native_step io_native (sys_read (\<lambda>m. case m p of
     Some (Regular b _ _) \<Rightarrow> if length b \<le> limit then Inr b else Inl OtherError
   | Some _ \<Rightarrow> Inl OtherError | None \<Rightarrow> Inl NotFound))"

text \<open>Names of temporaries are refused.\<close>

definition refusing :: "path \<Rightarrow> 'e \<Rightarrow> (fs, 'e, 'a) step \<Rightarrow> (fs, 'e, 'a) step" where
  "refusing p e m = (if temporary p then errS e else m)"

text \<open>The guard is dropped at once.\<close>

definition dropping_guard :: "(fs, protocol_error, file_replay_guard) step \<Rightarrow> (fs, unit, unit) step" where
  "dropping_guard m f = (case m f of (f, Inr g) \<Rightarrow> (file_drop g f, Inr ()) | (f, Inl _) \<Rightarrow> (f, Inl ()))"

definition unix_setup_ops ::
    "('pk, 'sg, 'sk) lib \<Rightarrow> 'sk key_bytes \<Rightarrow> 'sk \<times> 'sk \<Rightarrow> os_path option \<Rightarrow> (os_path \<Rightarrow> os_path option) \<Rightarrow> fs setup_ops" where
  "unix_setup_ops L K keys cwd canonicalize = \<lparr>
     so_prepare_root = (\<lambda>p. unit_step (private_prepare_directory p)),
     so_open_directory = (\<lambda>p. unit_step (private_checked_directory p)),
     so_lock = (\<lambda>p. unit_step (acquire_lock p)),
     so_validate_lock = (\<lambda>p f. (f, if p \<in> locks f then Inr () else Inl ())),
     so_unlock = unlock,
     so_remove_child = (\<lambda>p. native_step io_native (remove_file p)),
     so_remove_temporaries = (\<lambda>_. retS ()),
     so_exists = (\<lambda>p f. resolve (nodes f p) \<noteq> None),
     so_absent = (\<lambda>p f. nodes f p = None),
     so_read_private = (\<lambda>p n. refusing p NativeOther (native_step private_native (private_read p (of_nat n)))),
     so_atomic_create = (\<lambda>p b. refusing p NativeOther (native_step private_native (private_create p b))),
     so_atomic_replace = (\<lambda>p b. refusing p NativeOther (native_step (\<lambda>_. NativeOther) (atomic_replace p b))),
     so_remove_private = (\<lambda>p. native_step io_native (remove_file p)),
     so_create_regular = (\<lambda>p b. refusing p NativeOther (create_and_write 420 NativeOther p b)),
     so_read_regular = (\<lambda>p n. refusing p NativeOther (read_regular_file p n)),
     so_remove_regular = (\<lambda>p. native_step io_native (remove_file p)),
     so_key_create = (\<lambda>p i. bindS (mapErrS (\<lambda>_. ()) (key_state_create L K p (i, keys))) (\<lambda>d. retS (software_native L d))),
     so_key_open = (\<lambda>p. bindS (mapErrS (\<lambda>_. ()) (key_state_open L K p)) (\<lambda>d. retS (software_native L d))),
     so_guard_create = (\<lambda>p sc n now. refusing p () (dropping_guard (file_create (minicbor L) p sc n now))),
     so_guard_open = (\<lambda>p sc n. refusing p () (dropping_guard (file_open_guard (minicbor L) p sc n))),
     so_create_locator = (\<lambda>root stub d r c. bindS
       (create_pairing_locator_with_transport (minicbor L) cwd canonicalize root stub d r c) (\<lambda>_. retS ())),
     so_open_locator = open_pairing_locator (minicbor L),
     so_exclusive = (\<lambda>_ _ _ _. retS ()),
     so_cleanup_pending = (\<lambda>root. bindS (tryS (private_read (path_of (cleanup_journal_path root)) 16384)) (\<lambda>r. case r of
       Inr _ \<Rightarrow> retS True | Inl e \<Rightarrow> if e = PrivateMissing then retS False else errS ())) \<rparr>"

subsection \<open>They keep the contract\<close>

lemma touches_unit_step: "touches disk_files T m \<Longrightarrow> touches disk_files T (unit_step m)"
  unfolding unit_step_def by (intro touches_bindS touches_mapErrS touches_simps)

lemma touches_refusing: "touches disk_files T m \<Longrightarrow> touches disk_files T (refusing p e m)"
  by (simp add: refusing_def del: step_simps)

lemma native_step_run:
  assumes "native_step g m s = (t, r)" obtains q where "m s = (t, q)" "r = mapErr g q"
  using assms unfolding native_step_def by (auto simp: mapErrS_def split: prod.splits)

lemma disk_regular: "\<not> temporary p \<Longrightarrow> nodes f p = Some (Regular b m k) \<Longrightarrow> disk_files f p = Some b"
  by (simp add: disk_files_def)

lemma disk_gone: "nodes f p = None \<Longrightarrow> disk_files f p = None"
  by (simp add: disk_files_def)

lemma locator_not_temporary: "\<not> temporary (path_of (pairing_locator_path root c))" "\<not> temporary (path_of (legacy_pairing_locator_path root c))"
proof -
  have e: "\<not> temporary q" if l: "last (comps q) = y @ ''.cbor''" for q y
  proof
    assume "temporary q"
    then obtain x where "x @ ''.tmp'' = y @ ''.cbor''" using l by (auto simp: temporary_def)
    from arg_cong [OF this, of last] show False by simp
  qed
  show "\<not> temporary (path_of (pairing_locator_path root c))" "\<not> temporary (path_of (legacy_pairing_locator_path root c))"
    using path_join_last [OF locator_names(1), of root c] path_join_last [OF locator_names(2), of root "sb_identity_id c"]
    by (auto intro!: e simp: pairing_locator_path_def legacy_pairing_locator_path_def locator_name_def)
qed

lemma unix_removes: "removes disk_files p (native_step io_native (remove_file p))"
  unfolding removes_def
proof (intro conjI allI impI)
  show "touches disk_files {p} (native_step io_native (remove_file p))"
    unfolding native_step_def by (intro touches_mapErrS touches_storage)
  fix s t r assume "native_step io_native (remove_file p) s = (t, r)"
  then obtain q where q: "remove_file p s = (t, q)" "r = mapErr io_native q" by (rule native_step_run)
  show "disk_files t p = disk_files s p \<or> disk_files t p = None"
    using q(1) by (cases q) (auto simp: disk_files_def dest!: remove_file_ok remove_file_fail)
  assume r: "r = Inr () \<or> r = Inl NativeMissing"
  show "disk_files t p = None"
  proof (cases q)
    case (Inl e)
    with r q(2) have "e = NotFound" by (auto simp: io_native_def split: if_splits)
    with q(1) Inl have "nodes s p = None" unfolding remove_file_def sys_update_def
      by (auto split: prod.splits option.splits if_splits dest!: next_fault_same)
    with q(1) Inl show ?thesis by (auto simp: disk_files_def dest!: remove_file_fail)
  next
    case (Inr u)
    with q(1) show ?thesis by (auto simp: disk_files_def dest!: remove_file_ok)
  qed
qed

lemma unix_guard:
  assumes "dropping_guard m s = (t, r)" "touches disk_files {path_of a, beside a ''.lock''} m"
  shows "same_but disk_files {path_of a, beside a ''.lock'', beside a ''.pending''} s t"
    "r = Inr () \<Longrightarrow> \<exists>g u. m s = (u, Inr g) \<and> nodes t = nodes u"
proof -
  obtain u q where u: "m s = (u, q)" by fastforce
  with assms(1) have n: "nodes t = nodes u" by (auto simp: dropping_guard_def file_drop_def split: sum.splits)
  have "same_but disk_files {path_of a, beside a ''.lock''} s u" by (rule touchesD [OF assms(2) u])
  moreover have "disk_files t p = disk_files u p" for p by (rule disk_files_nodes) (simp add: n)
  ultimately have "same_but disk_files {path_of a, beside a ''.lock''} s t" by (simp add: same_but_def)
  then show "same_but disk_files {path_of a, beside a ''.lock'', beside a ''.pending''} s t" by (rule same_but_mono) blast
  show "\<exists>g u. m s = (u, Inr g) \<and> nodes t = nodes u" if "r = Inr ()"
    using that assms(1) u n by (auto simp: dropping_guard_def split: sum.splits)
qed

lemma unix_create:
  assumes "refusing p NativeOther (native_step private_native (private_create p b)) s = (t, r)"
  shows "same_but disk_files {p} s t \<and> (r = Inr () \<longrightarrow> disk_files t p = Some b)"
proof (cases "temporary p")
  case True
  with assms show ?thesis by (auto simp: refusing_def)
next
  case False
  with assms obtain q where q: "private_create p b s = (t, q)" "r = mapErr private_native q"
    by (auto simp: refusing_def elim: native_step_run)
  have "same_but disk_files {p} s t" by (rule touchesD [OF touches_private_create q(1)])
  moreover have "disk_files t p = Some b" if "r = Inr ()"
  proof -
    from that q(2) have "q = Inr ()" by (simp add: mapErr_Inr_iff)
    with private_create_ok [of p b s t "()"] q(1) show ?thesis using disk_regular [OF False] by auto
  qed
  ultimately show ?thesis by blast
qed

lemma unix_create_regular:
  assumes "refusing p NativeOther (create_and_write 420 NativeOther p b) s = (t, r)"
  shows "same_but disk_files {p} s t \<and> (r = Inr () \<longrightarrow> disk_files t p = Some b)"
proof (cases "temporary p")
  case True
  with assms show ?thesis by (auto simp: refusing_def)
next
  case False
  with assms have q: "create_and_write 420 NativeOther p b s = (t, r)" by (simp add: refusing_def)
  have "same_but disk_files {p} s t" by (rule touchesD [OF touches_create_and_write q])
  moreover have "disk_files t p = Some b" if "r = Inr ()"
    using create_and_write_ok [OF q [unfolded that]] disk_regular [OF False] by auto
  ultimately show ?thesis by blast
qed

lemma unix_replace:
  assumes "refusing p NativeOther (native_step (\<lambda>_. NativeOther) (atomic_replace p b)) s = (t, r)"
  shows "same_but disk_files {p} s t \<and> (disk_files t p = disk_files s p \<or> disk_files t p = Some b) \<and>
    (r = Inr () \<longrightarrow> disk_files t p = Some b)"
proof (cases "temporary p")
  case True
  with assms show ?thesis by (auto simp: refusing_def)
next
  case False
  with assms obtain q where q: "atomic_replace p b s = (t, q)" "r = mapErr (\<lambda>_. NativeOther) q"
    by (auto simp: refusing_def elim: native_step_run)
  have c: "same_but disk_files {p} s t" by (rule touchesD [OF touches_atomic_replace q(1)])
  show ?thesis
  proof (cases q)
    case (Inl e)
    with q(1) atomic_replace_fail [of p b s t e] have "nodes t p = nodes s p \<or> nodes t p = Some (Regular b PRIVATE_MODE 0)" by simp
    with c q(2) Inl disk_regular [OF False, of t b] show ?thesis by (auto dest: disk_files_nodes)
  next
    case (Inr u)
    with q(1) have "nodes t p = Some (Regular b PRIVATE_MODE 0)" by (auto dest!: atomic_replace_ok)
    with c disk_regular [OF False] show ?thesis by auto
  qed
qed

lemma private_read_absent:
  assumes "private_read p n s = (t, Inl PrivateMissing)" shows "disk_files s p = None"
proof -
  have v: "private_validate h f \<noteq> (g, Inl PrivateMissing)" for h f g
    by (auto simp: private_validate_def bindS_Inl_iff mapErrS_Inl_iff failIf_Inl_iff split: node.splits)
  have j: "private_reject_symlink p f \<noteq> (g, Inl PrivateMissing)" for f g
    by (auto simp: private_reject_symlink_def bindS_tryS split: prod.splits sum.splits node.splits io_error.splits)
  from assms obtain f1 f2 u where f: "private_reject_symlink p s = (f1, Inr u)" "file_open p f1 = (f2, Inl NotFound)"
    by (auto simp: private_read_def bindS_Inl_iff mapErrS_Inl_iff failIf_Inl_iff Let_def v j split: if_splits)
  have "resolve (nodes f1 p) = None"
    using f(2) unfolding file_open_def sys_read_def okOr_def
    by (auto split: prod.splits option.splits dest!: next_fault_same)
  with private_reject_symlink_same [OF f(1)] show ?thesis
    by (cases "nodes s p" rule: resolve.cases) (auto simp: disk_files_def)
qed

lemma unix_read_private:
  assumes "refusing p NativeOther (native_step private_native (private_read p n)) s = (t, r)"
  shows "disk_files t = disk_files s \<and> (\<forall>b. r = Inr b \<longrightarrow> disk_files s p = Some b) \<and> (r = Inl NativeMissing \<longrightarrow> disk_files s p = None)"
proof (cases "temporary p")
  case True
  with assms show ?thesis by (auto simp: refusing_def)
next
  case False
  with assms obtain q where q: "private_read p n s = (t, q)" "r = mapErr private_native q"
    by (auto simp: refusing_def elim: native_step_run)
  have c: "disk_files t = disk_files s"
    by (rule same_but_empty [OF touchesD [OF touches_keeps_nodes [OF keeps_private_read] q(1)]])
  show ?thesis
  proof (cases q)
    case (Inr b)
    with q(1) private_read_ok [of p n s t b] c q(2) disk_regular [OF False] show ?thesis by auto
  next
    case (Inl e)
    have "disk_files s p = None" if "e = PrivateMissing" using private_read_absent q(1) Inl that by simp
    with q(2) Inl c show ?thesis by (auto simp: private_native_def split: if_splits)
  qed
qed

lemma unix_read_regular:
  assumes "refusing p NativeOther (read_regular_file p n) s = (t, r)"
  shows "disk_files t = disk_files s \<and> (\<forall>b. r = Inr b \<longrightarrow> disk_files s p = Some b)"
proof (cases "temporary p")
  case True
  with assms show ?thesis by (auto simp: refusing_def)
next
  case False
  let ?g = "\<lambda>m. case m p of Some (Regular b _ _) \<Rightarrow> if length b \<le> n then Inr b else Inl OtherError
     | Some _ \<Rightarrow> Inl OtherError | None \<Rightarrow> Inl NotFound"
  from False assms obtain q where q: "sys_read ?g s = (t, q)" "r = mapErr io_native q"
    unfolding refusing_def read_regular_file_def by (auto elim: native_step_run)
  have c: "disk_files t = disk_files s" by (rule same_but_empty [OF touchesD [OF touches_sys_read q(1)]])
  have "disk_files s p = Some b" if "r = Inr b" for b
  proof -
    from that q(2) have "q = Inr b" by (simp add: mapErr_Inr_iff)
    with q(1) have "?g (nodes s) = Inr b" by (auto dest: sys_read_ok)
    then show ?thesis using disk_regular [OF False] by (auto split: option.splits node.splits if_splits)
  qed
  with c show ?thesis by blast
qed

lemma unix_guards:
  "refusing (path_of a) () (dropping_guard (file_create cb (path_of a) sc n now)) s = (t, r) \<Longrightarrow>
    same_but disk_files {path_of a, beside a ''.lock'', beside a ''.pending''} s t \<and> (r = Inr () \<longrightarrow> disk_files t (path_of a) \<noteq> None)"
  "refusing (path_of a) () (dropping_guard (file_open_guard cb (path_of a) sc n)) s = (t, r) \<Longrightarrow>
    same_but disk_files {path_of a, beside a ''.lock'', beside a ''.pending''} s t \<and> (r = Inr () \<longrightarrow> disk_files t (path_of a) \<noteq> None)"
proof -
  assume c: "refusing (path_of a) () (dropping_guard (file_create cb (path_of a) sc n now)) s = (t, r)"
  show "same_but disk_files {path_of a, beside a ''.lock'', beside a ''.pending''} s t \<and> (r = Inr () \<longrightarrow> disk_files t (path_of a) \<noteq> None)"
  proof (cases "temporary (path_of a)")
    case True
    with c show ?thesis by (auto simp: refusing_def)
  next
    case False
    with c have d: "dropping_guard (file_create cb (path_of a) sc n now) s = (t, r)" by (simp add: refusing_def)
    note g = unix_guard [OF d touches_guard(1)]
    have "disk_files t (path_of a) \<noteq> None" if "r = Inr ()"
    proof -
      from g(2) [OF that] obtain x u where u: "file_create cb (path_of a) sc n now s = (u, Inr x)" "nodes t = nodes u" by blast
      from file_create_ok [OF u(1)] u(2) show ?thesis using disk_regular [OF False] by auto
    qed
    with g(1) show ?thesis by blast
  qed
next
  assume c: "refusing (path_of a) () (dropping_guard (file_open_guard cb (path_of a) sc n)) s = (t, r)"
  show "same_but disk_files {path_of a, beside a ''.lock'', beside a ''.pending''} s t \<and> (r = Inr () \<longrightarrow> disk_files t (path_of a) \<noteq> None)"
  proof (cases "temporary (path_of a)")
    case True
    with c show ?thesis by (auto simp: refusing_def)
  next
    case False
    with c have d: "dropping_guard (file_open_guard cb (path_of a) sc n) s = (t, r)" by (simp add: refusing_def)
    note g = unix_guard [OF d touches_guard(2)]
    have "disk_files t (path_of a) \<noteq> None" if "r = Inr ()"
    proof -
      from g(2) [OF that] obtain x u where u: "file_open_guard cb (path_of a) sc n s = (u, Inr x)" "nodes t = nodes u" by blast
      from file_open_guard_ok [OF u(1)] u(2) obtain b m k where "nodes t (path_of a) = Some (Regular b m k)" by auto
      then show ?thesis using disk_regular [OF False] by auto
    qed
    with g(1) show ?thesis by blast
  qed
qed

lemma private_create_present:
  assumes "private_create p b s = (t, Inl PrivateAlreadyExists)" shows "nodes t = nodes s"
proof -
  have v: "private_validate h f \<noteq> (g, Inl PrivateAlreadyExists)" for h f g
    by (auto simp: private_validate_def bindS_Inl_iff mapErrS_Inl_iff failIf_Inl_iff split: node.splits)
  obtain g r where g: "open_new_as PRIVATE_MODE p s = (g, r)" by fastforce
  obtain h w where h: "bindS (write_new_as PRIVATE_MODE p b) (\<lambda>_. sync_all) g = (h, w)" by fastforce
  show ?thesis
  proof (cases r)
    case (Inl e)
    with assms g have "t = g" by (auto simp: private_create_def bindS_def mapErrS_def)
    with g Inl show ?thesis unfolding open_new_as_def by (auto dest!: sys_update_fail)
  next
    case (Inr u)
    obtain x y where x: "remove_file p h = (x, y)" by fastforce
    from assms g h Inr x v show ?thesis
      by (cases w) (auto simp: private_create_def bindS_def [of "mapErrS _ _"] mapErrS_def bindS_tryS)
  qed
qed

lemma create_locator_present:
  assumes "create_pairing_locator_with_transport cb cwd canonicalize root stub d r c s = (t, Inl LocatorAlreadyExists)"
  shows "disk_files t = disk_files s"
proof -
  have j: "private_reject_symlink p f \<noteq> (g, Inl PrivateAlreadyExists)" for p f g
    by (auto simp: private_reject_symlink_def bindS_tryS split: prod.splits sum.splits node.splits io_error.splits)
  have p: "private_prepare_directory p f \<noteq> (g, Inl PrivateAlreadyExists)" for p f g
    by (auto simp: private_prepare_directory_def private_checked_directory_def bindS_Inl_iff mapErrS_Inl_iff failIf_Inl_iff j)
  have y: "private_sync_directory p f \<noteq> (g, Inl PrivateAlreadyExists)" for p f g
    by (auto simp: private_sync_directory_def mapErrS_Inl_iff)
  have l: "LocatorAlreadyExists = locator_error_from e \<longleftrightarrow> e = PrivateAlreadyExists" for e
    by (simp add: locator_error_from_def split: private_error.splits)
  have a: "absolute_existing cwd canonicalize q \<noteq> Inl LocatorAlreadyExists" for q
    by (auto simp: absolute_existing_def bindE_Inl_iff okOr_Inl_iff)
  have e: "locator_encode cb stub x \<noteq> Inl LocatorAlreadyExists" for x
    by (auto simp: locator_encode_def encode_record_def encoded_locator_path_def bindE_Inl_iff)
  from assms obtain g u x where g: "private_prepare_directory (path_of root) s = (g, Inr u)" and
    x: "private_create (path_of (pairing_locator_path root stub)) x g = (t, Inl PrivateAlreadyExists)"
    by (auto simp: create_pairing_locator_with_transport_def ensure_not_pending_def validate_layout_def Let_def
      bindS_Inl_iff mapErrS_Inl_iff mapErrS_Inr_iff p l y a e)
  have "disk_files g = disk_files s" by (rule same_but_empty [OF touchesD [OF touches_private_prepare g]])
  moreover have "disk_files t = disk_files g" using private_create_present [OF x] by (simp add: fun_eq_iff disk_files_def)
  ultimately show ?thesis by simp
qed

lemma unix_create_locator:
  assumes "bindS (create_pairing_locator_with_transport cb cwd canonicalize root stub d r c) (\<lambda>_. retS ()) s = (t, q)"
  shows "same_but disk_files {path_of (pairing_locator_path root stub)} s t \<and>
    (q = Inr () \<longrightarrow> disk_files t (path_of (pairing_locator_path root stub)) \<noteq> None) \<and>
    (q = Inl LocatorAlreadyExists \<longrightarrow> disk_files t = disk_files s)"
proof -
  let ?p = "path_of (pairing_locator_path root stub)"
  have "touches disk_files {?p} (private_sync_directory p)" for p
    unfolding private_sync_directory_def file_open_def
    by (intro touches_mapErrS touches_bindS touches_sys_read touches_sync_all)
  then have "touches disk_files {?p} (create_pairing_locator_with_transport cb cwd canonicalize root stub d r c)"
    unfolding create_pairing_locator_with_transport_def ensure_not_pending_def Let_def
    by (intro touches_bindS touches_mapErrS touches_mono [OF touches_private_prepare] touches_private_create touches_simps) blast
  then have "touches disk_files {?p} (bindS (create_pairing_locator_with_transport cb cwd canonicalize root stub d r c) (\<lambda>_. retS ()))"
    by (intro touches_bindS touches_simps)
  from touchesD [OF this assms] have b: "same_but disk_files {?p} s t" .
  have "disk_files t ?p \<noteq> None" if "q = Inr ()"
  proof -
    from assms that obtain x where "create_pairing_locator_with_transport cb cwd canonicalize root stub d r c s = (t, Inr x)"
      by (auto simp: bindS_Inr_iff)
    then obtain y where "nodes t ?p = Some (Regular y PRIVATE_MODE 0)" by (rule create_pairing_locator_ok) simp
    then show ?thesis using disk_regular [OF locator_not_temporary(1)] by auto
  qed
  moreover have "disk_files t = disk_files s" if "q = Inl LocatorAlreadyExists"
    using assms that by (intro create_locator_present) (auto simp: bindS_Inl_iff)
  ultimately show ?thesis using b by blast
qed

lemma unix_open_locator:
  assumes "open_pairing_locator cb root stub s = (t, q)"
  shows "disk_files t = disk_files s \<and> (\<forall>l. q = Inr l \<longrightarrow>
    disk_files s (path_of (pairing_locator_path root stub)) \<noteq> None \<or> disk_files s (path_of (legacy_pairing_locator_path root stub)) \<noteq> None)"
proof -
  have "disk_files s (path_of (pairing_locator_path root stub)) \<noteq> None \<or> disk_files s (path_of (legacy_pairing_locator_path root stub)) \<noteq> None"
    if "q = Inr l" for l
    using open_pairing_locator_ok [OF assms [unfolded that]] disk_regular locator_not_temporary by auto
  moreover have "disk_files t = disk_files s"
    by (rule same_but_empty [OF touchesD [OF touches_keeps_nodes [OF keeps_open_pairing_locator] assms]])
  ultimately show ?thesis by blast
qed

lemma unix_key_create: "touches disk_files {p} (key_state_create L K p drawn)"
proof -
  have "touches disk_files {p} (validate_private_file h)" for h
    by (rule touches_nodes) (auto simp: validate_private_file_def handle_metadata_def bindS_def mapErrS_def
      split: prod.splits sum.splits node.splits dest!: sys_read_same)
  then show ?thesis unfolding key_state_create_def create_private_file_def Let_def split_def
    by (intro touches_bindS touches_create_and_write touches_simps)
qed

lemma unix_unlock: "disk_files (unlock p s) = disk_files s"
  by (simp add: fun_eq_iff disk_files_def)

interpretation unix_setup: setup_files "unix_setup_ops L K keys cwd canonicalize" disk_files for L K keys cwd canonicalize
proof (unfold_locales, goal_cases)
  case (1 p)
  show ?case unfolding unix_setup_ops_def setup_ops.simps by (rule touches_unit_step [OF touches_private_prepare])
next
  case (2 p)
  show ?case unfolding unix_setup_ops_def setup_ops.simps by (rule touches_unit_step [OF touches_checked_directory])
next
  case (3 p)
  show ?case unfolding unix_setup_ops_def setup_ops.simps by (rule touches_unit_step [OF touches_acquire_lock])
next
  case (4 p)
  show ?case unfolding unix_setup_ops_def setup_ops.simps by (rule touches_nodes) simp
next
  case (5 p s)
  show ?case unfolding unix_setup_ops_def setup_ops.simps by (rule unix_unlock)
next
  case (6 p)
  show ?case unfolding unix_setup_ops_def setup_ops.simps by (rule touches_simps)
next
  case (7 root own d r)
  show ?case unfolding unix_setup_ops_def setup_ops.simps by (rule touches_simps)
next
  case (8 root)
  show ?case unfolding unix_setup_ops_def setup_ops.simps
    by (auto intro!: touches_bindS touches_tryS touches_keeps_nodes [OF keeps_private_read] split: sum.splits)
next
  case (9 p i)
  show ?case unfolding unix_setup_ops_def setup_ops.simps by (intro touches_bindS touches_mapErrS unix_key_create touches_simps)
next
  case (10 p)
  show ?case unfolding unix_setup_ops_def setup_ops.simps
    by (intro touches_bindS touches_mapErrS touches_keeps_nodes [OF keeps_key_state_open] touches_simps)
next
  case (11 p n s t rd)
  then show ?case unfolding unix_setup_ops_def setup_ops.simps by (rule unix_read_private)
next
  case (12 p n s t rd)
  then show ?case unfolding unix_setup_ops_def setup_ops.simps by (rule unix_read_regular)
next
  case (13 p b s t q)
  then show ?case unfolding unix_setup_ops_def setup_ops.simps by (rule unix_create)
next
  case (14 p b s t q)
  then show ?case unfolding unix_setup_ops_def setup_ops.simps by (rule unix_create_regular)
next
  case (15 p b s t q)
  then show ?case unfolding unix_setup_ops_def setup_ops.simps by (rule unix_replace)
next
  case (16 p)
  show ?case unfolding unix_setup_ops_def setup_ops.simps by (rule unix_removes)
next
  case (17 p)
  show ?case unfolding unix_setup_ops_def setup_ops.simps by (rule unix_removes)
next
  case (18 p)
  show ?case unfolding unix_setup_ops_def setup_ops.simps by (rule unix_removes)
next
  case (19 a sc n now s t gq)
  then show ?case unfolding unix_setup_ops_def setup_ops.simps by (rule unix_guards)
next
  case (20 a sc n s t gq)
  then show ?case unfolding unix_setup_ops_def setup_ops.simps by (rule unix_guards)
next
  case (21 root stub d r c s t q)
  then show ?case unfolding unix_setup_ops_def setup_ops.simps by (rule unix_create_locator)
next
  case (22 root stub s t ql)
  then show ?case unfolding unix_setup_ops_def setup_ops.simps by (rule unix_open_locator)
qed

end
