(* ===== verification/Setup_Disk.thy ===== *)
theory Setup_Disk
  imports Setup_Runs Setup_Storage Pair_Runs
begin

text \<open>
  Runs of a hardware setup on \<open>unix_setup_ops\<close> over a disk without faults: its steps succeed when the disk
  holds what they need.
\<close>

subsection \<open>The size of a journal\<close>

lemma setup_encode_size:
  assumes l: "cbor_sized (minicbor L)" "bech32_codec (bech L)" "p256_laws (ec L)" and b: "setup_encode L j = Inr b" and w: "wf_setup L j"
    and n: "length (sj_desktop_state j) + length (sj_replay_state j) + length (sj_identity_stub j) \<le> 30000"
  shows "b \<noteq> [] \<and> length b \<le> MAX_JOURNAL_BYTES"
proof -
  note z = cbor_sized.array_len [OF l(1)] cbor_sized.u16_len [OF l(1)] cbor_sized.bytes_len [OF l(1)]
    cbor_sized.str_len [OF l(1)] cbor_sized.null_len [OF l(1)] cbor_sized.bool_len [OF l(1)]
  let ?cb = "minicbor L" and ?t = "choice_display (sj_transport j)"
  obtain e where b: "b = e_array ?cb (if sj_explicit_paths j then 10 else 9) @ e" and
    e: "e = e_u16 ?cb (if sj_explicit_paths j then EXPLICIT_SETUP_VERSION else SETUP_VERSION) @
       e_u16 ?cb (stage_code (sj_stage j)) @ e_bytes ?cb (sj_setup_code j) @ e_bytes ?cb (sj_desktop_id j) @
       e_str ?cb (sj_desktop_state j) @ e_str ?cb (sj_replay_state j) @ e_str ?cb (sj_identity_stub j) @ e_str ?cb ?t @
       encode_candidate L (sj_candidate j) @ (if sj_explicit_paths j then e_bool ?cb True else [])"
    using b by (auto simp: setup_encode_def setup_encoded_path_def result_iff Let_def split: if_splits)
  have h: "head_len k \<le> 9" for k by (rule head_len_bounds)
  have t: "length ?t \<le> 4" by (rule choice_display_text)
  have c: "length (encode_candidate L (sj_candidate j)) \<le> 509"
  proof (cases "sj_candidate j")
    case None
    then show ?thesis by (simp add: encode_candidate_def z)
  next
    case (Some v)
    with w have "length (stub_encode L v) < 500" by (intro stub_encode_length [OF l]) (simp add: wf_setup_def)
    with h [of "length (stub_encode L v)"] Some show ?thesis by (simp add: encode_candidate_def z)
  qed
  have "length e \<le> 9 * 10 + 36 + 509 + 30000"
    using n w c t h [of "unat EXPLICIT_SETUP_VERSION"] h [of "unat SETUP_VERSION"] h [of "unat (stage_code (sj_stage j))"] h [of 16]
      h [of "length (sj_desktop_state j)"] h [of "length (sj_replay_state j)"] h [of "length (sj_identity_stub j)"] h [of "length ?t"]
    by (simp add: e z wf_setup_def)
  moreover have "e_array ?cb k \<noteq> []" "length (e_array ?cb k) \<le> 9" for k
    using z(1) [of k] h [of "unat k"] head_len_positive [of "unat k"] by auto
  then have "length (e_array ?cb 10) \<le> 9" "length (e_array ?cb 9) \<le> 9" "e_array ?cb 10 \<noteq> []" "e_array ?cb 9 \<noteq> []" by blast+
  ultimately show ?thesis by (simp add: b MAX_JOURNAL_BYTES_def)
qed

subsection \<open>Steps\<close>

lemma setup_journal_plain: "\<not> temporary (journal_at root)"
proof
  assume "temporary (journal_at root)"
  then obtain x where "SETUP_JOURNAL_NAME = x @ ''.tmp''"
    using path_join_last [OF journal_name_plain, of root] by (auto simp: temporary_def setup_journal_path_def)
  from arg_cong [OF this, of last] show False by (simp add: SETUP_JOURNAL_NAME_def)
qed

lemma unix_read_run:
  assumes "faults f = []" "nodes f p = Some (Regular b 384 0)" "b \<noteq> []" "length b \<le> MAX_JOURNAL_BYTES" "\<not> temporary p"
  shows "so_read_private (unix_setup_ops L K keys cwd canonicalize) p MAX_JOURNAL_BYTES f = (f, Inr b)"
proof -
  have u: "unat (of_nat MAX_JOURNAL_BYTES :: u64) = MAX_JOURNAL_BYTES" by (simp add: MAX_JOURNAL_BYTES_def)
  have "private_read p (of_nat MAX_JOURNAL_BYTES) f = (f, Inr b)"
    by (rule private_read_run [OF assms(1,2)]) (use assms(3,4) in \<open>simp_all add: u, simp add: MAX_JOURNAL_BYTES_def\<close>)
  then show ?thesis using assms(5) by (simp add: unix_setup_ops_def refusing_def native_step_def mapErrS_def)
qed

lemma unix_setup_read_run:
  assumes "faults f = []" "nodes f (journal_at root) = Some (Regular b 384 0)" "b \<noteq> []" "length b \<le> MAX_JOURNAL_BYTES"
    and "setup_decode L b = Inr j" "setup_validate_root True root j = Inr ()"
  shows "setup_read L (unix_setup_ops M K keys cwd canonicalize) root f = (f, Inr j)"
  using unix_read_run [where L = M and K = K and keys = keys and cwd = cwd and canonicalize = canonicalize, OF assms(1-4) setup_journal_plain] assms(5,6) by (simp add: setup_read_def bindS_def mapErrS_def)

lemma unix_no_cleanup_run:
  assumes "faults f = []" "nodes f (path_of (cleanup_journal_path root)) = None"
  shows "setup_text (ensure_no_cleanup_pending (unix_setup_ops M K keys cwd canonicalize) root) f = (f, Inr ())"
  using private_read_missing [OF assms, of 16384]
  by (simp add: setup_text_def ensure_no_cleanup_pending_def unix_setup_ops_def bindS_def mapErrS_def tryS_def failIf_def)

lemma unix_removed_run:
  "faults f = [] \<Longrightarrow> removed (native_step io_native (remove_file p)) f = (f\<lparr> nodes := (nodes f)(p := None) \<rparr>, Inr ())"
  by (simp add: removed_def native_step_def remove_file_def sys_update_run bindS_def tryS_def mapErrS_def io_native_def fun_upd_idem)

lemma unix_remove_owned_run:
  assumes "faults f = []" "lock \<in> locks f" "file_name p = Some n"
  shows "remove_owned (unix_setup_ops M K keys cwd canonicalize) root lock p f =
    (f\<lparr> nodes := (nodes f)(join_path (path_of root) n := None) \<rparr>, Inr ())"
  using unix_removed_run [OF assms(1), of "join_path (path_of root) n"] assms(2,3)
  by (simp add: remove_owned_def unix_setup_ops_def bindS_def mapErrS_def)

lemma unix_lock_run:
  assumes "faults f = []" "nodes f p = None" "p \<notin> locks f"
  shows "so_lock (unix_setup_ops M K keys cwd canonicalize) p f =
    (f\<lparr> nodes := (nodes f)(p \<mapsto> Regular [] PRIVATE_MODE 0), locks := insert p (locks f) \<rparr>, Inr ())"
  using assms reject_symlink_run [OF assms(1), of None p]
  by (simp add: unix_setup_ops_def unit_step_def acquire_lock_def bindS_def mapErrS_def open_create_def sys_update_run
    ensure_private_regular_run flock_def next_fault_none)

lemma unix_acquire_run:
  assumes "faults f = []" "nodes f (path_of root) = Some (Dir 448)" "nodes f (lifecycle_at root) = None" "lifecycle_at root \<notin> locks f"
  shows "setup_text (acquire_lifecycle_lock (unix_setup_ops M K keys cwd canonicalize) root) f =
    (f\<lparr> nodes := (nodes f)(lifecycle_at root \<mapsto> Regular [] PRIVATE_MODE 0), locks := insert (lifecycle_at root) (locks f) \<rparr>, Inr ())"
proof -
  have "so_open_directory (unix_setup_ops M K keys cwd canonicalize) (path_of root) f = (f, Inr ())"
    using private_checked_directory_run [OF assms(1,2)] by (simp add: unix_setup_ops_def unit_step_def bindS_def mapErrS_def)
  with unix_lock_run [where M = M and K = K and keys = keys and cwd = cwd and canonicalize = canonicalize, OF assms(1,3,4)] show ?thesis
    by (simp add: setup_text_def acquire_lifecycle_lock_def bindS_def mapErrS_def)
qed

text \<open>Steps that succeed whatever the nodes are, with no fault to come and a lock held.\<close>

definition goes_through :: "path \<Rightarrow> (fs, 'e, unit) step \<Rightarrow> bool" where
  "goes_through lock m \<longleftrightarrow> (\<forall>f. faults f = [] \<and> lock \<in> locks f \<longrightarrow>
     (\<exists>g. m f = (g, Inr ()) \<and> faults g = [] \<and> locks g = locks f))"

lemma goes_throughI: "(\<And>f. faults f = [] \<Longrightarrow> lock \<in> locks f \<Longrightarrow> m f = (f\<lparr> nodes := k f \<rparr>, Inr ())) \<Longrightarrow> goes_through lock m"
  by (simp add: goes_through_def)

lemma goes_through_bindS:
  assumes "goes_through lock m" "goes_through lock n" shows "goes_through lock (bindS m (\<lambda>_. n))"
  unfolding goes_through_def
proof (intro allI impI)
  fix f :: fs assume "faults f = [] \<and> lock \<in> locks f"
  with assms(1) obtain g where g: "m f = (g, Inr ())" "faults g = []" "lock \<in> locks g" "locks g = locks f"
    unfolding goes_through_def by metis
  with assms(2) obtain h where "n g = (h, Inr ())" "faults h = []" "locks h = locks g" unfolding goes_through_def by metis
  with g show "\<exists>g. bindS m (\<lambda>_. n) f = (g, Inr ()) \<and> faults g = [] \<and> locks g = locks f" by (simp add: bindS_def)
qed

lemma goes_through_owned:
  "file_name p = Some n \<Longrightarrow> goes_through lock (remove_owned (unix_setup_ops M K keys cwd canonicalize) root lock p)"
  by (rule goes_throughI) (rule unix_remove_owned_run)

lemma goes_through_files:
  assumes v: "setup_validate_root True root j = Inr ()" and c: "sj_candidate j = None" and r: "file_name (path_of (sj_replay_state j)) = Some n"
    and d: "file_name (path_of (sj_desktop_state j)) = Some d" and i: "file_name (path_of (sj_identity_stub j)) = Some i"
    and p: "parent (path_of (sj_identity_stub j)) = Some (path_of root)"
  shows "goes_through (path_of (sidecar root n ''.lock'')) (remove_owned_files (unix_setup_ops M K keys cwd canonicalize) root j n)"
proof -
  have x: "file_name (path_of (sidecar root n z)) = Some (n @ z)" if "z \<in> {''.lock'', ''.pending''}" for z
  proof -
    have "path_of (sidecar root n z) = join_path (path_of root) (n @ z)" using setup_names(3) [OF v r] that by blast
    moreover have "n @ z \<noteq> ''..''" using that by (auto dest: arg_cong [where f = length])
    ultimately show ?thesis by simp
  qed
  note o = goes_through_owned [OF d] goes_through_owned [OF r] goes_through_owned [OF x] goes_through_owned [OF i]
  have u: "goes_through lock (retS ())" for lock by (simp add: goes_through_def)
  show ?thesis unfolding remove_owned_files_def Let_def c option.case remove_owned_stub_def
    using p by (auto intro!: goes_through_bindS o u)
qed

lemma unix_cleanup_owned_run:
  assumes f: "faults f = []" "nodes f (path_of root) = Some (Dir 448)"
    and b: "nodes f (journal_at root) = Some (Regular b 384 0)" "b \<noteq> []" "length b \<le> MAX_JOURNAL_BYTES"
    and j: "setup_decode L b = Inr j" "setup_validate_root True root j = Inr ()" "sj_candidate j = None"
    and n: "file_name (path_of (sj_replay_state j)) = Some n" "file_name (path_of (sj_desktop_state j)) = Some d"
      "file_name (path_of (sj_identity_stub j)) = Some i" "parent (path_of (sj_identity_stub j)) = Some (path_of root)"
    and l: "nodes f (path_of (sidecar root n ''.lock'')) = None" "path_of (sidecar root n ''.lock'') \<notin> locks f"
  shows "\<exists>t. cleanup_owned L (unix_setup_ops M K keys cwd canonicalize) root j f = (t, Inr ())"
proof -
  let ?O = "unix_setup_ops M K keys cwd canonicalize" and ?l = "path_of (sidecar root n ''.lock'')"
  let ?f = "f\<lparr> nodes := (nodes f)(?l \<mapsto> Regular [] PRIVATE_MODE 0), locks := insert ?l (locks f) \<rparr>"
  have e: "so_exclusive ?O root x y z f = (f, Inr ())" "so_open_directory ?O (path_of root) f = (f, Inr ())"
    "so_remove_temporaries ?O p g = (g, Inr ())" "faults (so_unlock ?O p g) = faults g" for x y z p g
    using private_checked_directory_run [OF f(1,2)] by (simp_all add: unix_setup_ops_def unit_step_def bindS_def mapErrS_def unlock_def)
  have k: "so_lock ?O ?l f = (?f, Inr ())" by (rule unix_lock_run [OF f(1) l])
  have "goes_through ?l (remove_owned_files ?O root j n)" by (rule goes_through_files [OF j(2,3) n])
  then have "faults ?f = [] \<and> ?l \<in> locks ?f \<longrightarrow>
      (\<exists>g. remove_owned_files ?O root j n ?f = (g, Inr ()) \<and> faults g = [] \<and> locks g = locks ?f)"
    unfolding goes_through_def by (rule spec)
  then obtain g where g: "remove_owned_files ?O root j n ?f = (g, Inr ())" "faults g = []" using f(1) by auto
  have rd: "setup_read L ?O root f = (f, Inr j)" by (rule unix_setup_read_run [OF f(1) b j(1,2)])
  have "cleanup_files L ?O root j f = (so_unlock ?O ?l g, Inr ())"
    using j rd n(1) e k g by (simp add: cleanup_files_def bindS_def mapErrS_def dropping_lock_def Let_def okOr_def)
  moreover have "\<exists>t. setup_remove ?O root (so_unlock ?O ?l g) = (t, Inr ())"
    using unix_removed_run [of "so_unlock ?O ?l g" "journal_at root"] g(2) e(4) by (simp add: setup_remove_def unix_setup_ops_def)
  ultimately show ?thesis by (auto simp: cleanup_owned_def bindS_def)
qed

subsection \<open>The commit\<close>

lemma check_native_matches:
  assumes "desktop_matches L stub d = Inr ()" shows "check_native_state (software_native L d) stub = Inr ()"
proof -
  from assms have "dk_desktop_id d = sb_desktop_id stub" "key_signing_public L d = Inr (sb_desktop_signing_public_key stub)"
    "key_selection_public L d = Inr (sb_desktop_selection_public_key stub)"
    unfolding desktop_matches_def by (auto simp: bindE_Inr_iff mapErr_Inr_iff split: if_splits)
  then show ?thesis by (simp add: check_native_state_def software_native_def failIf_def)
qed

text \<open>What the commit of a confirmed journal finds: its key file, and no file that it has to make.\<close>

definition commit_ready ::
    "('pk, 'sg, 'sk) lib \<Rightarrow> 'sk key_bytes \<Rightarrow> os_path \<Rightarrow> setup_journal \<Rightarrow> public_identity_stub \<Rightarrow> 'sk desktop_key_state \<Rightarrow> bytes \<Rightarrow>
     fs \<Rightarrow> bool" where
  "commit_ready L K root j stub d b f \<longleftrightarrow> faults f = [] \<and> path_is_absolute root \<and>
     (\<exists>md. nodes f (path_of root) = Some (Dir md)) \<and>
     nodes f (journal_at root) = Some (Regular b 384 0) \<and> b \<noteq> [] \<and> length b \<le> MAX_JOURNAL_BYTES \<and> setup_decode L b = Inr j \<and>
     setup_validate_root True root j = Inr () \<and> sj_stage j = StageConfirmed \<and> sj_candidate j = Some stub \<and>
     nodes f (path_of (sj_desktop_state j)) = Some (Regular (encode_key_state K d) PRIVATE_MODE 0) \<and>
     free_place (path_of (sj_replay_state j)) f \<and>
     nodes f (path_of (sj_identity_stub j)) = None \<and> nodes f (path_of (pairing_locator_path root stub)) = None \<and>
     \<not> temporary (path_of (sj_replay_state j)) \<and> \<not> temporary (path_of (sj_identity_stub j)) \<and>
     path_of (sj_identity_stub j) \<noteq> path_of (pairing_locator_path root stub) \<and>
     path_of (sj_replay_state j) \<notin> {path_of (sj_identity_stub j), path_of (pairing_locator_path root stub)} \<and>
     {path_of (sj_identity_stub j), path_of (pairing_locator_path root stub)} \<inter> temps (path_of (sj_replay_state j)) = {}"

lemma unix_commit_run:
  assumes laws: "cbor_sized (minicbor L)" "bech32_codec (bech L)" "p256_laws (ec L)" "key_bytes_laws K"
    and st: "stub_ok L stub" "sb_desktop_selection_public_key stub = pk_compressed (ec L) k" "desktop_matches L stub d = Inr ()"
      "length (dk_desktop_id d) = 16" "\<not> same_key L (dk_signing_key d) (dk_selection_key d)"
    and r: "commit_ready L K root j stub d b f"
    and x: "absolute_existing cwd canonicalize (sj_desktop_state j) = Inr x" "absolute_existing cwd canonicalize (sj_replay_state j) = Inr y"
      "locator_path_ok x" "locator_path_ok y" "length x + length y \<le> 3900"
  shows "\<exists>t. commit_confirmed_for L (unix_setup_ops L K keys cwd canonicalize) root j now kind f = (t, Inr ())"
proof -
  let ?O = "unix_setup_ops L K keys cwd canonicalize" and ?sc = "scope_for_pairing DesktopResponses (stub_pairing stub)"
  let ?p = "path_of (sj_replay_state j)" and ?l = "path_of (pairing_locator_path root stub)" and ?o = "path_of (sj_identity_stub j)"
  obtain md where f: "faults f = []" "path_is_absolute root" "nodes f (path_of root) = Some (Dir md)"
    and J: "nodes f (journal_at root) = Some (Regular b 384 0)" "b \<noteq> []" "length b \<le> MAX_JOURNAL_BYTES" "setup_decode L b = Inr j"
      "setup_validate_root True root j = Inr ()" "sj_stage j = StageConfirmed" "sj_candidate j = Some stub"
    and k: "nodes f (path_of (sj_desktop_state j)) = Some (Regular (encode_key_state K d) PRIVATE_MODE 0)"
    and p: "free_place ?p f" "nodes f ?o = None" "nodes f ?l = None" "\<not> temporary ?p" "\<not> temporary ?o" "?o \<noteq> ?l" "?p \<noteq> ?o" "?p \<noteq> ?l"
      "?o \<notin> temps ?p" "?l \<notin> temps ?p"
    using r by (auto simp: commit_ready_def)
  have cap: "validate_capacity DEFAULT_REPLAY_CAPACITY = Inr ()" by (simp add: validate_capacity_def DEFAULT_REPLAY_CAPACITY_def)
  obtain f1 g where 1: "file_create (minicbor L) ?p ?sc DEFAULT_REPLAY_CAPACITY now f = (f1, Inr g)" "faults f1 = []"
    using file_create_run [OF f(1) p(1) cap] by blast
  have lock: "q \<notin> temps ?p \<Longrightarrow> sibling_path ?p ''.lock'' \<noteq> Inr q" for q unfolding temps_def by blast
  have n1: "nodes f1 ?o = None" "nodes f1 ?l = None" using file_create_frame [OF 1(1) _ lock] p by simp_all
  obtain md' where r1: "nodes f1 (path_of root) = Some (Dir md')" using grown_dir [OF file_create_grown [OF 1(1)] f(3)] by blast
  let ?h = "file_drop g f1"
  have h: "faults ?h = []" "nodes ?h = nodes f1" using 1(2) by (simp_all add: file_drop_def unlock_def)
  have guard: "so_guard_create ?O ?p ?sc DEFAULT_REPLAY_CAPACITY now f = (?h, Inr ())"
    using 1(1) p(4) by (simp add: unix_setup_ops_def refusing_def dropping_guard_def)
  have ids: "length (sb_desktop_id stub) = 16" "length (sb_identity_id stub) = 16" "length (sb_transcript_fingerprint stub) = 32"
    using st(1) by (simp_all add: stub_ok_def wf_stub_def)
  let ?v = "\<lparr> pl_desktop_state = x, pl_replay_state = y, pl_transport = sj_transport j \<rparr>"
  obtain f2 c where 2: "create_pairing_locator_with_transport (minicbor L) cwd canonicalize root stub (sj_desktop_state j) (sj_replay_state j)
      (sj_transport j) ?h = (f2, Inr (pairing_locator_path root stub))" "faults f2 = []"
    "nodes f2 = (nodes ?h)(path_of root \<mapsto> Dir 448, ?l \<mapsto> Regular c PRIVATE_MODE 0)"
    using create_then_open [OF laws(1) ids, of ?v ?h root md' cwd canonicalize "sj_desktop_state j" "sj_replay_state j"] x h f(2) r1 n1
    by auto
  have loc: "so_create_locator ?O root stub (sj_desktop_state j) (sj_replay_state j) (sj_transport j) ?h = (f2, Inr ())"
    using 2(1) by (simp add: unix_setup_ops_def bindS_def)
  obtain body where body: "identity_file_for L stub kind = Inr body" using identity_file_total [OF laws(2,3) st(1,2)] by blast
  have n2: "nodes f2 ?o = None" using 2(3) h(2) n1(1) r1 p(6) by auto
  let ?t = "f2\<lparr> nodes := (nodes f2)(?o \<mapsto> Regular (str_bytes body) 420 0) \<rparr>"
  have stub: "create_managed_stub L ?O (sj_identity_stub j) stub kind f2 = (?t, Inr ())"
    using body create_and_write_run [OF 2(2) n2, of 420 NativeOther "str_bytes body"] p(5)
    by (simp add: create_managed_stub_def unix_setup_ops_def refusing_def bindS_def mapErrS_def)
  have key: "so_key_open ?O (path_of (sj_desktop_state j)) f = (f, Inr (software_native L d))"
    using key_state_open_run [OF laws(4) st(4,5) f(1) k] by (simp add: unix_setup_ops_def bindS_def mapErrS_def)
  have rd: "setup_read L ?O root f = (f, Inr j)" by (rule unix_setup_read_run [OF f(1) J(1-5)])
  have "commit_files L ?O root j now kind f = (?t, Inr ())"
    using J rd key check_native_matches [OF st(3)] guard loc stub
    by (simp add: commit_files_def commit_replay_def commit_locator_def commit_stub_def bindS_def mapErrS_def tryS_def okOr_def failIf_def)
  moreover have "\<exists>u. setup_remove ?O root ?t = (u, Inr ())"
    using unix_removed_run [of ?t "journal_at root"] 2(2) by (simp add: setup_remove_def unix_setup_ops_def)
  ultimately show ?thesis by (auto simp: commit_confirmed_for_def bindS_def)
qed

subsection \<open>The attempt\<close>

lemma unix_read_optional_missing:
  assumes "faults f = []" "nodes f (journal_at root) = None"
  shows "setup_read_optional L (unix_setup_ops M K keys cwd canonicalize) root f = (f, Inr None)"
proof -
  have "private_read (journal_at root) (of_nat MAX_JOURNAL_BYTES) f = (f, Inl PrivateMissing)"
    by (rule private_read_missing [OF assms]) (simp add: MAX_JOURNAL_BYTES_def)
  then show ?thesis using setup_journal_plain [of root]
    by (simp add: setup_read_optional_def setup_read_def unix_setup_ops_def refusing_def native_step_def private_native_def
      bindS_def mapErrS_def tryS_def)
qed

lemma unix_setup_create_run:
  assumes "faults f = []" "nodes f (journal_at root) = None" "\<not> sj_explicit_paths j" "setup_validate_root True root j = Inr ()"
    "setup_encode L j = Inr b"
  shows "setup_create L (unix_setup_ops M K keys cwd canonicalize) root j f =
    (f\<lparr> nodes := (nodes f)(journal_at root \<mapsto> Regular b 384 0) \<rparr>, Inr ())"
  using assms private_create_run [OF assms(1,2), of b] setup_journal_plain [of root]
  by (simp add: setup_create_def unix_setup_ops_def refusing_def native_step_def bindS_def mapErrS_def)

lemma unix_setup_replace_run:
  assumes f: "faults f = []" "nodes f (journal_at root) = Some (Regular c m k)" "nodes f (path_of root) = Some (Dir md)"
    and t: "\<forall>q \<in> temps (journal_at root). nodes f q = None"
    and j: "setup_validate_root True root j = Inr ()" "setup_encode L j = Inr b"
  obtains t where "setup_replace L (unix_setup_ops M K keys cwd canonicalize) root j f = (t, Inr ())" "faults t = []"
    "nodes t = (nodes f)(journal_at root \<mapsto> Regular b 384 0)" "locks t = locks f"
proof -
  have p: "journal_at root = join_path (path_of root) SETUP_JOURNAL_NAME" by (rule setup_names(5) [OF j(1)])
  have q: "sibling_path (journal_at root) (temp_suffix f) = Inr (join_path (path_of root) (SETUP_JOURNAL_NAME @ temp_suffix f))"
    unfolding p by (simp add: sibling_path_def okOr_def SETUP_JOURNAL_NAME_def)
  then have "nodes f (join_path (path_of root) (SETUP_JOURNAL_NAME @ temp_suffix f)) = None"
    using t temp_suffix_nonempty unfolding temps_def by blast
  then obtain t where t: "atomic_replace (journal_at root) b f = (t, Inr ())" "faults t = []"
    using atomic_replace_run [OF f(1) q _ _ _ f(3), of b] f(2) p by auto
  have "setup_replace L (unix_setup_ops M K keys cwd canonicalize) root j f = (t, Inr ())"
    using j t(1) setup_journal_plain [of root]
    by (simp add: setup_replace_def unix_setup_ops_def refusing_def native_step_def bindS_def mapErrS_def)
  with that t atomic_replace_ok [OF t(1)] show thesis by simp
qed

lemma unix_key_create_run:
  assumes f: "faults f = []" "nodes f p = None" and d: "\<not> same_key L (dk_signing_key d) (dk_selection_key d)"
  shows "so_key_create (unix_setup_ops L K (dk_signing_key d, dk_selection_key d) cwd canonicalize) p (dk_desktop_id d) f =
    (f\<lparr> nodes := (nodes f)(p \<mapsto> Regular (encode_key_state K d) PRIVATE_MODE 0) \<rparr>, Inr (software_native L d))"
proof -
  have e: "\<lparr> dk_desktop_id = dk_desktop_id d, dk_signing_key = dk_signing_key d, dk_selection_key = dk_selection_key d \<rparr> = d" by simp
  show ?thesis using f d
    by (simp add: unix_setup_ops_def key_state_create_def bindS_def create_private_file_def mapErrS_def
        create_and_write_run validate_private_file_def handle_metadata_def sys_read_run e)
qed

text \<open>The confirmation, with what the caller does once the response is verified.\<close>

lemma complete_pairing_with:
  assumes r: "receive_pairing_response L response t1 s = (s1, Inr shown)" and c: "confirm L (pd_transcript_fingerprint shown) t2 s1 = (s2, Inr stub)"
    and w: "pe_elapsed E w = (w0, t1)" "pe_write E (fingerprint_prompt (pd_transcript_fingerprint shown)) w0 = (w1, Inr ())"
      "pe_read_line E w1 = (w2, Inr line)" "trim line = pd_transcript_fingerprint shown" "pe_elapsed E w2 = (w3, t2)"
    and v: "on_verified stub c = (c', Inr ())"
  shows "complete_pairing_interaction L E response on_verified s (c, w) = ((c', w3), Inr stub)"
proof -
  from c obtain m fp where "ps_state s1 = Confirming m fp" "stub = stub_from_response L s1 m fp" by (auto simp: confirm_ok)
  with r c w v show ?thesis
    by (simp add: complete_pairing_interaction_def pending_stub_def bindS_def mapErrS_def on_disk_def on_world_def)
qed

end
