(* ===== verification/Setup_Properties.thy ===== *)
theory Setup_Properties
  imports Setup_Disk Command_Properties Lifecycle_Properties
begin

text \<open>
  What a hardware setup guarantees, over any platform operations that keep the contract \<open>setup_files\<close>: a
  new setup, its resumption and its removal.  The witnesses run the commands on \<open>unix_setup_ops\<close>.
\<close>

subsection \<open>A new setup\<close>



subsection \<open>Recovery\<close>

lemma failed_iff: "r \<noteq> Inr () \<longleftrightarrow> (\<exists>e. r = Inl e)"
  by (cases r) auto

lemma recovery_refused:
  assumes "run_setup_impl L Z desktop_label resume cleanup transport adb_serial json explicit_paths recipient_type (s, w) = ((t, w'), r)"
    and "resume \<or> cleanup"
  obtains e where "t = s" "r = Inl e"
    | "(if resume then resume_setup L Z json recipient_type else cleanup_setup L Z) (s, w) = ((t, w'), r)"
  using assms unfolding run_setup_impl_def by (auto elim!: bindS_pair_cases split: if_splits)


text \<open>C9: \<open>setup --cleanup\<close> removes exactly what a valid journal owns, and the journal last: unless it changes
  nothing but the lifecycle lock and fails, the journal on disk decodes to the record of the attempt, the
  user typed its confirmation value, no file outside the journal's record changes, the journal stays as
  it was until every owned file is gone, and success means that all of it, the journal too, is gone.\<close>

theorem cleanup_removes_owned:
  assumes "setup_files (se_ops Z) files" "pe_config_root (se_pair Z) = Inr root"
    and "run_setup_impl L Z desktop_label False True transport adb_serial json explicit_paths recipient_type (s, w) = ((t, w'), r)"
  shows "untouched files root s t \<and> r \<noteq> Inr () \<or>
    (\<exists>b j. files s (journal_at root) = Some b \<and> setup_decode L b = Inr j \<and>
      (\<exists>w1 w2 entered. pe_read_line (se_pair Z) w1 = (w2, Inr entered) \<and> trim_end entered = confirmation_text j) \<and>
      same_but files (setup_scope root j) s t \<and>
      (files t (journal_at root) = Some b \<or> (\<forall>p \<in> owned_paths root j. files t p = None)) \<and>
      (r = Inr () \<longrightarrow> files t (journal_at root) = None \<and> (\<forall>p \<in> owned_paths root j. files t p = None)))"
  using assms(3)
proof (rule recovery_refused)
  show "False \<or> True" by simp
next
  fix e assume "t = s" "r = Inl e"
  then show ?thesis by simp
next
  assume "(if False then resume_setup L Z json recipient_type else cleanup_setup L Z) (s, w) = ((t, w'), r)"
  then have "cleanup_setup L Z (s, w) = ((t, w'), r)" by simp
  from setup_files.cleanup_setup_effect [OF assms(1) refl assms(2) this] show ?thesis
    unfolding asked_for_def failed_iff .
qed

subsection \<open>Runs on a disk\<close>

definition sample_setup_env :: "bytes \<Rightarrow> string \<Rightarrow> (fs, unit, byte) setup_env" where
  "sample_setup_env response line = \<lparr> se_ops = unix_setup_ops ref_lib byte_keys (21, 22) None Some,
     se_pair = sample_pair_env response line,
     se_write = (\<lambda>_ _ w. (w, Inr ())), se_json = (\<lambda>_ _ _ w. (w, Inr ())), se_newline = (\<lambda>w. (w, Inr ())),
     se_camera = (\<lambda>w. (w, Inr ())), se_enclave = True, se_desktop_id = replicate 16 1, se_setup_code = replicate 16 2,
     se_terminal_text = [] \<rparr>"

abbreviation sample_ops :: "fs setup_ops" where
  "sample_ops \<equiv> unix_setup_ops ref_lib byte_keys (21, 22) None Some"

lemma sample_setup_files: "setup_files (se_ops (sample_setup_env response line)) disk_files"
  unfolding sample_setup_env_def setup_env.simps by (rule unix_setup.setup_files_axioms)

lemma sample_setup_root: "pe_config_root (se_pair (sample_setup_env response line)) = Inr sample_root"
  by (simp add: sample_setup_env_def sample_pair_env_simps)

text \<open>The journal of that attempt: it is accepted, and read back as it was written.\<close>

definition sample_journal :: "setup_call list \<Rightarrow> setup_journal" where
  "sample_journal cs = setup_calls cs (setup_new_with_transport sample_root (replicate 16 2) (replicate 16 1) QrChoice)"

lemma sample_journal_parts:
  "sj_desktop_state (sample_journal cs) = path_join sample_root (''desktop-'' @ hex (replicate 16 1) @ ''.state'')"
  "sj_replay_state (sample_journal cs) = path_join sample_root (''replay-'' @ hex (replicate 16 1) @ ''.state'')"
  "sj_identity_stub (sample_journal cs) = path_join sample_root (''identity-'' @ hex (replicate 16 1) @ ''.txt'')"
proof -
  let ?s = "setup_new_with_transport sample_root (replicate 16 2) (replicate 16 1) QrChoice"
  have s: "sj_candidate ?s = None" "sj_stage ?s = Provisioning" by (simp_all add: setup_new_with_transport_def setup_new_def Let_def)
  from setup_inv_calls [OF s, of cs]
  have j: "sample_journal cs\<lparr> sj_stage := sj_stage ?s, sj_candidate := sj_candidate ?s \<rparr> = ?s"
    by (simp add: setup_inv_def sample_journal_def)
  show "sj_desktop_state (sample_journal cs) = path_join sample_root (''desktop-'' @ hex (replicate 16 1) @ ''.state'')"
    "sj_replay_state (sample_journal cs) = path_join sample_root (''replay-'' @ hex (replicate 16 1) @ ''.state'')"
    "sj_identity_stub (sample_journal cs) = path_join sample_root (''identity-'' @ hex (replicate 16 1) @ ''.txt'')"
    using arg_cong [OF j, of sj_desktop_state] arg_cong [OF j, of sj_replay_state] arg_cong [OF j, of sj_identity_stub]
    by (simp_all add: setup_new_with_transport_def setup_new_def Let_def)
qed

lemma sample_journal_ok:
  assumes s: "\<forall>s. SetCandidate s \<in> set cs \<longrightarrow> stub_ok ref_lib s"
    and d: "sj_candidate (sample_journal cs) = None \<or> sj_stage (sample_journal cs) \<noteq> PairingStage"
  obtains b where "setup_validate_root True sample_root (sample_journal cs) = Inr ()" "setup_encode ref_lib (sample_journal cs) = Inr b"
    "setup_decode ref_lib b = Inr (sample_journal cs)" "b \<noteq> []" "length b \<le> MAX_JOURNAL_BYTES"
proof -
  have l: "length sample_root < 2 ^ 60" "length (replicate 16 (2 :: byte)) = 16" "length (replicate 16 (1 :: byte)) = 16"
    by (simp_all add: sample_root_def)
  note life = setup_life [OF ref_laws(3,2,5) sample_root_ok [folded sample_root_def] l s]
  obtain b where b: "setup_encode ref_lib (sample_journal cs) = Inr b" "setup_decode ref_lib b = Inr (sample_journal cs)"
    using life(2) [of QrChoice] d unfolding sample_journal_def by blast
  have "length (sj_desktop_state (sample_journal cs)) + length (sj_replay_state (sample_journal cs)) +
      length (sj_identity_stub (sample_journal cs)) \<le> 30000"
    by (simp add: sample_journal_parts path_join_def sample_root_def)
  with setup_encode_size [OF ref_laws(3,2,5) b(1)] setup_decode_sound [OF b(2)] have "b \<noteq> [] \<and> length b \<le> MAX_JOURNAL_BYTES" by blast
  with that b life(1) [of True QrChoice] show thesis unfolding sample_journal_def by blast
qed

text \<open>The disk that a setup leaves which could not create its keys.\<close>

definition sample_pending :: "bytes \<Rightarrow> fs" where
  "sample_pending b = sample_start\<lparr> nodes := (nodes sample_start)(journal_at sample_root \<mapsto> Regular b 384 0) \<rparr>"

lemma sample_names:
  "path_of sample_root = \<lparr> absolute = True, comps = [''c''] \<rparr>" "plain_name n \<Longrightarrow> path_of (path_join sample_root n) = \<lparr> absolute = True, comps = [''c'', n] \<rparr>"
proof -
  show r: "path_of sample_root = \<lparr> absolute = True, comps = [''c''] \<rparr>"
    by (simp add: path_of_def sample_root_def path_is_absolute_def starts_with_def)
  show "path_of (path_join sample_root n) = \<lparr> absolute = True, comps = [''c'', n] \<rparr>" if "plain_name n"
    using path_join_comps(1) [OF _ that, of sample_root] r sample_root_ok(2) by (simp add: sample_root_def join_path_def)
qed

lemma trim_end_graphic:
  assumes "graphic s" shows "trim_end s = s"
proof -
  have "\<not> starts_with (rev s) w" if w: "w \<in> set (map rev white_space)" "w \<noteq> []" for w
  proof
    assume "starts_with (rev s) w"
    then have "hd w \<in> set s" using w(2) by (cases w) (auto simp: starts_with_iff dest: arg_cong [where f = set])
    moreover obtain v where "v \<in> set white_space" "w = rev v" using w(1) by auto
    ultimately show False using white_space_heads(2) [of v] assms by (auto simp: graphic_def list_all_iff hd_rev)
  qed
  then show ?thesis unfolding trim_end_def using drop_words_none by (metis rev_rev_ident)
qed

lemma sample_plain_names:
  "plain_name SETUP_JOURNAL_NAME" "plain_name ''desktop-cleanup.cbor''" "plain_name ''desktop-cleanup.lock''"
  "plain_name (''desktop-'' @ hex i @ ''.state'')" "plain_name (''replay-'' @ hex i @ ''.state'')" "plain_name (''identity-'' @ hex i @ ''.txt'')"
  "plain_name ((''replay-'' @ hex i @ ''.state'') @ ''.lock'')"
  using hex_no_slash [of i] by (auto simp: plain_name_def SETUP_JOURNAL_NAME_def append_eq_Cons_conv)

lemma sample_file_names:
  "file_name (path_of (sj_replay_state (sample_journal cs))) = Some (''replay-'' @ hex (replicate 16 1) @ ''.state'')"
  "file_name (path_of (sj_desktop_state (sample_journal cs))) = Some (''desktop-'' @ hex (replicate 16 1) @ ''.state'')"
  "file_name (path_of (sj_identity_stub (sample_journal cs))) = Some (''identity-'' @ hex (replicate 16 1) @ ''.txt'')"
  "parent (path_of (sj_identity_stub (sample_journal cs))) = Some (path_of sample_root)"
  using sample_plain_names(4-6) [of "replicate 16 1"]
  by (simp_all add: sample_journal_parts sample_names file_name_def parent_def)

text \<open>The removal of a setup whose keys could not be created.\<close>

lemma sample_cleanup_run:
  assumes b: "b \<noteq> []" "length b \<le> MAX_JOURNAL_BYTES"
    and j: "setup_decode ref_lib b = Inr (sample_journal [])" "setup_validate_root True sample_root (sample_journal []) = Inr ()"
  shows "\<exists>t. run_setup_impl ref_lib (sample_setup_env [] (hex (replicate 16 2))) None False True AutoChoice None False None PhoneType
    (sample_pending b, ()) = ((t, ()), Inr ())"
proof -
  let ?Z = "sample_setup_env [] (hex (replicate 16 2))" and ?O = "sample_ops" and ?j = "sample_journal []"
  let ?lc = "lifecycle_at sample_root" and ?f = "sample_pending b"
  let ?g = "?f\<lparr> nodes := (nodes ?f)(?lc \<mapsto> Regular [] PRIVATE_MODE 0), locks := insert ?lc (locks ?f) \<rparr>"
  define n where "n = ''replay-'' @ hex (replicate 16 1) @ ''.state''"
  have lp: "?lc = \<lparr> absolute = True, comps = [''c'', ''desktop-cleanup.lock''] \<rparr>"
    "journal_at sample_root = \<lparr> absolute = True, comps = [''c'', SETUP_JOURNAL_NAME] \<rparr>"
    "path_of (cleanup_journal_path sample_root) = \<lparr> absolute = True, comps = [''c'', ''desktop-cleanup.cbor''] \<rparr>"
    "path_of (sidecar sample_root n ''.lock'') = \<lparr> absolute = True, comps = [''c'', n @ ''.lock''] \<rparr>"
    unfolding cleanup_lock_path_def setup_journal_path_def cleanup_journal_path_def sidecar_def n_def
    by (rule sample_names(2), rule sample_plain_names)+
  have d: "SETUP_JOURNAL_NAME \<noteq> ''desktop-cleanup.lock''" "SETUP_JOURNAL_NAME \<noteq> ''desktop-cleanup.cbor''"
    "n @ ''.lock'' \<noteq> SETUP_JOURNAL_NAME" "n @ ''.lock'' \<noteq> ''desktop-cleanup.lock''"
    by (simp_all add: SETUP_JOURNAL_NAME_def n_def)
  note nodes = sample_pending_def sample_start_def sample_dir_def lp sample_names(1)
  have fg: "faults ?f = []" "faults ?g = []" by (simp_all add: nodes)
  have gr: "nodes ?g (path_of sample_root) = Some (Dir 448)" "nodes ?g (journal_at sample_root) = Some (Regular b 384 0)"
    "nodes ?g (path_of (cleanup_journal_path sample_root)) = None" "nodes ?g (path_of (sidecar sample_root n ''.lock'')) = None"
    "path_of (sidecar sample_root n ''.lock'') \<notin> locks ?g"
    using d d [symmetric] by (simp_all add: nodes)
  have a: "setup_text (acquire_lifecycle_lock ?O sample_root) ?f = (?g, Inr ())"
    by (rule unix_acquire_run) (use d in \<open>simp_all add: nodes\<close>)
  have r: "recovered_journal ref_lib ?Z sample_root ?g = (?g, Inr ?j)"
    using unix_no_cleanup_run [OF fg(2) gr(3), of ref_lib byte_keys "(21, 22)" None Some]
      unix_setup_read_run [OF fg(2) gr(2) b j, of ref_lib byte_keys "(21, 22)" None Some]
    by (simp add: recovered_journal_def sample_setup_env_def bindS_def) (simp add: setup_text_def mapErrS_def)
  have c: "sj_candidate ?j = None" "sj_setup_code ?j = replicate 16 2"
    by (simp_all add: sample_journal_def setup_new_with_transport_def setup_new_def Let_def)
  obtain t where t: "cleanup_owned ref_lib ?O sample_root ?j ?g = (t, Inr ())"
    using unix_cleanup_owned_run [OF fg(2) gr(1,2) b j c(1) sample_file_names [folded n_def] gr(4,5), of ref_lib byte_keys "(21, 22)" None Some] by blast
  have u: "confirmed_by_user (se_pair ?Z) (confirmation_text ?j) m w = (w, Inr ())" for m w
    using trim_end_graphic [OF hex_graphic, of "replicate 16 2"]
    by (simp add: confirmed_by_user_def sample_setup_env_def sample_pair_env_simps confirmation_text_def c bindS_def mapErrS_def)
  have "cleanup_locked ref_lib ?Z sample_root (?g, ()) = ((t, ()), Inr ())"
    using r u t by (simp add: cleanup_locked_def bindS_def on_disk_def on_world_def mapErrS_def sample_setup_env_def)
  then have "cleanup_setup ref_lib ?Z (?f, ()) = ((so_unlock ?O ?lc t, ()), Inr ())"
    using a by (simp add: cleanup_setup_def setup_root_def sample_setup_root holding_lifecycle_lock_def bindS_def on_disk_def)
      (simp add: sample_setup_env_def)
  then show ?thesis
    by (simp add: run_setup_impl_def bindS_def ensure_desktop_platform_supported_def) (simp add: sample_setup_env_def)
qed














lemma sample_journal_step:
  "sample_journal (cs @ [c]) = fst (setup_call_step c (sample_journal cs))"
  by (simp add: sample_journal_def setup_calls_append)









subsection \<open>Witnesses\<close>



theorem cleanup_removes_owned_witness:
  "\<exists>b t. setup_decode ref_lib b = Inr (sample_journal []) \<and>
    run_setup_impl ref_lib (sample_setup_env [] (hex (replicate 16 2))) None False True AutoChoice None False None PhoneType
      (sample_pending b, ()) = ((t, ()), Inr ()) \<and>
    disk_files (sample_pending b) (journal_at sample_root) = Some b \<and> disk_files t (journal_at sample_root) = None \<and>
    (\<forall>p \<in> owned_paths sample_root (sample_journal []). disk_files t p = None)"
proof -
  have c: "sj_candidate (sample_journal []) = None"
    by (simp add: sample_journal_def setup_new_with_transport_def setup_new_def Let_def)
  obtain b where b: "setup_validate_root True sample_root (sample_journal []) = Inr ()"
    "setup_decode ref_lib b = Inr (sample_journal [])" "b \<noteq> []" "length b \<le> MAX_JOURNAL_BYTES"
    by (rule sample_journal_ok [of "[]"]) (use c in simp_all)
  obtain t where t: "run_setup_impl ref_lib (sample_setup_env [] (hex (replicate 16 2))) None False True AutoChoice None False None PhoneType
      (sample_pending b, ()) = ((t, ()), Inr ())" using sample_cleanup_run [OF b(3,4,2,1)] by blast
  have "disk_files (sample_pending b) (journal_at sample_root) = Some b"
    using setup_journal_plain by (simp add: disk_files_def sample_pending_def)
  with cleanup_removes_owned [OF sample_setup_files sample_setup_root t] t b(2) show ?thesis by auto
qed

end
