(* ===== verification/Spec2Isabelle.thy ===== *)
theory Spec2Isabelle
  imports
    Recipient_Properties
    Protocol_Properties
    Transfer_Properties
    Storage_Properties
    Desktop_Properties
    Route_Properties
    Plugin_Properties
    Lifecycle_Properties
    Command_Properties
    Setup_Properties
begin

text \<open>
  A verification library of age-plugin-phone: an age plugin whose decryption identity lives in a phone.
  A desktop pairs with a phone once; from then on every decryption sends one signed request to the
  phone, which unwraps the file key of one stanza and seals it to a session key of the request.

  \<^bold>\<open>How the program is put together\<close>

  The core crate (\<open>crates/core\<close>) holds what both sides share.  Its recipient module wraps a file key
  into a stanza (the v1 and v2 constructions of the phone and the native \<open>p256tag\<close>) and unwraps it; its
  protocol module has the four signed messages (offer, pairing response, unwrap request, unwrap
  response), the checks of either side, the replay state that makes a request acceptable and a response
  openable only once, and the QR transfers.  The platform storage crate (\<open>crates/platform-storage\<close>)
  keeps the replay state and the private files of a desktop.  The desktop crate (\<open>crates/desktop\<close>)
  has the pairing and unwrap sessions, the stub and key state they leave on disk, the transports to the
  phone (USB through a reverse rule of the debug bridge, Wi-Fi with discovery, QR and camera), the
  private locator that leads from a stub to its state, and the two plugins an age client calls.

  \<^bold>\<open>Which theory models what\<close>

  \<^item> \<open>Prelude\<close>: the result type of fallible code (\<open>bindE\<close>, \<open>failIf\<close>, \<open>okOr\<close>, \<open>mapErr\<close>), the step type of
    stateful code (\<open>bindS\<close>, \<open>tryS\<close>, \<open>failS\<close>; a step returns the new state with a result), the collection
    \<open>result_iff\<close>, the predicate \<open>keeps\<close>, and bytes, UTF-8, hexadecimal and big-endian helpers.
  \<^item> \<open>External\<close>: the third-party crates as parameters.  The record \<open>lib\<close> bundles them; the locales
    \<open>cbor_codec\<close>, \<open>cbor_sized\<close>, \<open>base64_engine\<close>, \<open>bech32_codec\<close> and the predicates \<open>p256_laws\<close>,
    \<open>ecdsa_laws\<close>, \<open>symmetric_laws\<close> state the documented behaviour that the code relies on (what was
    encoded decodes, a signature verifies, a sealed text opens); nothing assumes that anything is hard.
    \<open>Cbor_Reference\<close> (RFC 8949), \<open>Text_Reference\<close> (base64, Bech32) and \<open>Crypto_Reference\<close> (a toy group
    and cipher) interpret every one of them, and the record \<open>ref_lib\<close> is what the witnesses run on.
  \<^item> \<open>Recipient\<close>, \<open>Recipient_Tag\<close>: \<open>recipient/mod.rs\<close>, \<open>plugin.rs\<close>, \<open>tag.rs\<close>.
  \<^item> \<open>Protocol_Base\<close>, \<open>Messages\<close>, \<open>Protocol_Flow\<close>: \<open>protocol/mod.rs\<close>, in the order primitives, messages
    with their codecs, operations.  The signer and the key agreement of a platform key are records of
    functions; the locale of the signed codec is interpreted for the four messages.
  \<^item> \<open>Replay_State\<close>, \<open>Replay_Store\<close>, \<open>Replay_File\<close>: \<open>protocol/replay.rs\<close>, the durable state with its
    encoding, the trait \<open>ReplayStore\<close> as a record of operations, and the file guard.
  \<^item> \<open>Unix_Storage\<close>, \<open>Private_File\<close>: \<open>unix.rs\<close> and \<open>unix/private_file.rs\<close> over a file system \<open>fs\<close>: nodes,
    held locks and a list of faults that makes any system call fail.
  \<^item> \<open>Qr_Transfer\<close>, \<open>Scan_Session\<close>: \<open>protocol/qr.rs\<close>, \<open>qr_scanner.rs\<close> and the scheduler of \<open>qr_terminal.rs\<close>.
  \<^item> \<open>Pairing_Stub\<close>, \<open>Desktop_Key_State\<close>, \<open>Pairing_Session\<close>, \<open>Unwrap_Session\<close>: \<open>pairing.rs\<close>, \<open>unwrap.rs\<close>.  The
    pairing session is also an inductive step relation with its runs.
  \<^item> \<open>Text_Lines\<close>, \<open>Transport\<close>, \<open>Wifi\<close>, \<open>Adb\<close>, \<open>Transport_Policy\<close>: the text functions of the standard
    library that the code uses, and \<open>transport.rs\<close>, \<open>wifi.rs\<close>, \<open>adb.rs\<close>, \<open>transport_policy.rs\<close>.
  \<^item> \<open>Os_Path\<close>, \<open>Locator\<close>: \<open>PathBuf\<close> as text with its components, and \<open>locator.rs\<close>.
  \<^item> \<open>Age_Recipient\<close>, \<open>Age_Identity\<close>, \<open>Age_Route\<close>: the plugins \<open>age_recipient.rs\<close> and \<open>age_identity.rs\<close>; the
    last theory has the routes and exchanges of the identity plugin.  \<open>Age_Exchange\<close> composes them with
    the phone's side of the core crate into one run.
  \<^item> \<open>Pair_Command\<close>, \<open>Unwrap_Command\<close>: the commands \<open>pair\<close>, \<open>unwrap\<close>, \<open>recipients\<close> and \<open>wifi-doctor\<close> of
    \<open>main.rs\<close> as built for Linux, over an environment of terminal, clock, discovery, transports and scanner.
    \<open>Pair_Commit\<close> shows what \<open>pair\<close> leaves whatever fails, \<open>Pair_Runs\<close> and \<open>Unwrap_Runs\<close> that the commands
    complete and what a completed \<open>unwrap\<close> has spent.
  \<^item> \<open>Setup_Journal\<close>, \<open>Cleanup_Journal\<close>: the records of \<open>setup.rs\<close> and \<open>cleanup_journal.rs\<close>, and the removal
    of \<open>desktop_cleanup.rs\<close> over the trait \<open>CleanupOperations\<close>.
  \<^item> \<open>Setup_Command\<close>, \<open>Setup_Flow\<close>: what \<open>setup.rs\<close> does with its record (store, commit, remove) and the
    commands \<open>setup\<close>, \<open>setup --resume\<close>, \<open>setup --cleanup\<close> and hardware \<open>pair\<close> of \<open>main.rs\<close>, as built for macOS.
    The platform crates are the record \<open>setup_ops\<close>, whose promises are the locale \<open>setup_files\<close> of
    \<open>Setup_Files\<close>; \<open>Setup_Runs\<close> shows in it which files each step can change, \<open>Setup_Storage\<close> interprets it
    on the modelled Unix storage (with the replay guard and the locators), under any faults, and
    \<open>Setup_Disk\<close> shows that the steps succeed on a working disk.

  A Rust \<open>struct\<close> is a record, an \<open>enum\<close> a datatype, \<open>Result\<close> a sum with the error on the left, \<open>&mut self\<close>
  a state that is returned; \<open>u16\<close>, \<open>u32\<close>, \<open>u64\<close> are words and wrap; an array \<open>[u8; n]\<close> is a byte list whose
  length the codecs establish; a panic (\<open>expect\<close>, \<open>unreachable!\<close>) is a value of the outcome, proved not
  to occur.  Random draws and clock readings are arguments, since they are all the code has of chance.

  \<^bold>\<open>What the lemmas show\<close>

  \<^item> Codecs (\<open>*_decode_iff\<close>, \<open>*_exact\<close>): each decoder accepts exactly the canonical encodings of
    well-formed values: messages, stubs, recipients, replay state, frames, key state, locators, journals.
  \<^item> Functional results (\<open>*_ok\<close>, \<open>*_run\<close>): for each operation when it succeeds with what (\<open>_ok\<close>), and that
    it does succeed where it should (\<open>_run\<close>); the round trips and completions rest on the second kind.
  \<^item> Safety: what an accepted request, an opened response, an activated stub, a released file key or a
    created rule implies; request and response are used at most once across faults and restarts.
  \<^item> Storage (\<open>keeps_*\<close>, \<open>*_agree\<close>): which paths an operation can change, all or nothing.
  \<^item> Plugins: the round trip from wrapping to the released key, no panic, one exchange per file.
  \<^item> Commands: from an empty disk through \<open>pair\<close> to a key the plugins release; the rollback of a failed
    \<open>pair\<close>, with \<open>commit_unsynced\<close> for the one failure after which it leaves the locator behind.
  \<^item> Setup: a journal on disk owns every file that an unfinished attempt changed; only a confirmed attempt
    is resumed; a cleanup removes what the journal owns and the journal last.

  \<^bold>\<open>Loops and bounds\<close>

  Every loop of the model is structural or has a measure: the loops of the code run over lists, over the
  attempts of a bounded count (temporary files), or over what a script of the environment provides
  (stream reads, discovery passes, camera frames, passes of the QR loops of the commands); such a script
  is an argument of arbitrary length and the theorems quantify over it, so no fuel is chosen.  The bounds of the code (message and file sizes,
  capacities, fragments, ages) are its constants.

  \<^bold>\<open>What is not modelled\<close>

  Zeroization, \<open>Debug\<close> redaction and timing; the strength of the cryptography; the Windows and macOS
  variants of storage and keys (FFI; the setup flows have them as operations with a contract) and the
  native removal of an active pairing; threads (the
  camera worker, the guard process is modelled as the steps it takes); sockets, subprocesses, image
  decoding and rendering; argument parsing, status texts, the QR capture probe and the Windows
  branches of \<open>main.rs\<close>; the mobile application,
  whose logic is Kotlin and Swift outside the crates.  Between two system calls of the model no other
  process changes the file system; that a node has further hard links is part of the node.
\<close>

end
